(* ===== verification/Prelude.thy ===== *)
theory Prelude
  imports "HOL-Library.Word" "HOL-Library.AList"
begin

text \<open>
  What the theories share: the machine integers of microkernel/inc/base_typedef.h, C
  character arrays and byte buffers, the allocator, and the collections of rewrite rules
  the component proofs use.
\<close>

unbundle bit_operations_syntax

section \<open>Collections\<close>

text \<open>
  \<open>frame\<close> holds the facts that an operation leaves a part of the state alone,
  \<open>acct\<close> what an operation does to the number of live heap blocks.
\<close>

named_theorems frame
named_theorems acct

section \<open>Machine integers\<close>

type_synonym byte = "8 word"
type_synonym u8 = "8 word"
type_synonym u16 = "16 word"
type_synonym u32 = "32 word"

lemma unat_inc_less [simp]:
  fixes x y :: "'a::len word"
  assumes "x < y"
  shows "unat (x + 1) = Suc (unat x)"
proof -
  have "Suc (unat x) \<le> unat y" using assms by (simp add: word_less_nat_alt)
  also have "unat y < 2 ^ LENGTH('a)" by (rule unsigned_less)
  finally have "unat x + unat (1 :: 'a word) < 2 ^ LENGTH('a)" by simp
  then have "unat (x + 1) = unat x + unat (1 :: 'a word)" by (rule unat_add_lem [THEN iffD1])
  then show ?thesis by simp
qed

lemma unat_dec_pos:
  fixes x :: "'a::len word"
  assumes "x \<noteq> 0"
  shows "unat (x - 1) = unat x - 1"
  using assms by (simp add: unat_minus_one)

section \<open>Character arrays\<close>

text \<open>
  A character array whose unused tail is zero is represented by its contents up to the
  first NUL, a \<open>string\<close>.  \<open>c_str s\<close> is what the C library sees of a character sequence, and
  \<open>strncpy0 n s\<close> the contents of a zeroed array after \<open>strncpy (a, s, n)\<close>.
\<close>

definition c_str :: "string \<Rightarrow> string" where
  "c_str s = takeWhile (\<lambda>c. c \<noteq> CHR 0x00) s"

definition strncpy0 :: "nat \<Rightarrow> string \<Rightarrow> string" where
  "strncpy0 n s = take n (c_str s)"

lemma c_str_id: "CHR 0x00 \<notin> set s \<Longrightarrow> c_str s = s"
  unfolding c_str_def by (rule takeWhile_eq_all_conv [THEN iffD2]) auto

lemma nul_notin_c_str [simp]: "CHR 0x00 \<notin> set (c_str s)"
  by (auto simp: c_str_def dest: set_takeWhileD)

lemma strncpy0_length [simp]: "length (strncpy0 n s) \<le> n"
  by (simp add: strncpy0_def)

lemma nul_notin_strncpy0 [simp]: "CHR 0x00 \<notin> set (strncpy0 n s)"
  by (auto simp: strncpy0_def dest: in_set_takeD)

text \<open>Bytes of a text and the text of a byte buffer.\<close>

definition bytes_of :: "string \<Rightarrow> byte list" where
  "bytes_of s = map (\<lambda>c. word_of_nat (of_char c)) s"

definition text_of :: "byte list \<Rightarrow> string" where
  "text_of bs = map (\<lambda>b. char_of (unat b)) bs"

lemma text_of_bytes_of [simp]: "text_of (bytes_of s) = s"
proof -
  have "char_of (unat (word_of_nat (of_char c) :: byte)) = c" for c
    using of_char_mod_256 [of c] by (simp add: unat_of_nat)
  then show ?thesis by (simp add: text_of_def bytes_of_def comp_def)
qed

lemma length_bytes_of [simp]: "length (bytes_of s) = length s"
  by (simp add: bytes_of_def)

text \<open>
  A binary key is an array of fixed length; \<open>key_empty\<close> is the code's test
  \<open>strcmp ("", key) == 0\<close>, which only looks at the first byte, and \<open>strncpy_key n\<close> is
  \<open>strncpy\<close> to the full length of the array.
\<close>

definition key_empty :: "byte list \<Rightarrow> bool" where
  "key_empty k = (case k of [] \<Rightarrow> True | b # _ \<Rightarrow> b = 0)"

definition strncpy_key :: "nat \<Rightarrow> byte list \<Rightarrow> byte list" where
  "strncpy_key n src =
     (let t = take n (takeWhile (\<lambda>b. b \<noteq> 0) src) in t @ replicate (n - length t) 0)"

lemma length_strncpy_key [simp]: "length (strncpy_key n src) = n"
  by (simp add: strncpy_key_def Let_def)

lemma key_empty_replicate [simp]: "key_empty (replicate n 0)"
  by (cases n) (simp_all add: key_empty_def)

section \<open>The allocator\<close>

text \<open>
  \<open>malloc\<close> may fail.  \<open>m_ok\<close> says, for each call in turn, whether it returns a block, and
  \<open>live\<close> counts the blocks returned and not yet freed.  Where a model of a function frees a
  block it calls \<open>free\<close>; a count that differs from the number of blocks the data structures
  own is a leak (or a double free).
\<close>

record mem =
  m_ok :: "nat \<Rightarrow> bool"
  m_calls :: nat
  live :: int

definition malloc :: "mem \<Rightarrow> bool \<times> mem" where
  "malloc m = (let ok = m_ok m (m_calls m) in
     (ok, m\<lparr>m_calls := Suc (m_calls m), live := live m + (if ok then 1 else 0)\<rparr>))"

definition free :: "mem \<Rightarrow> mem" where
  "free m = m\<lparr>live := live m - 1\<rparr>"

text \<open>\<open>free\<close> of a possibly null pointer.\<close>

definition free_opt :: "'a option \<Rightarrow> mem \<Rightarrow> mem" where
  "free_opt p m = (case p of None \<Rightarrow> m | Some _ \<Rightarrow> free m)"

abbreviation blk :: "'a option \<Rightarrow> nat" where
  "blk p \<equiv> (case p of None \<Rightarrow> 0 | Some _ \<Rightarrow> 1)"

lemma live_malloc [acct]: "live (snd (malloc m)) = live m + (if fst (malloc m) then 1 else 0)"
  by (simp add: malloc_def Let_def)

lemma live_free [acct]: "live (free m) = live m - 1"
  by (simp add: free_def)

lemma live_free_opt [acct]: "live (free_opt p m) = live m - int (blk p)"
  by (simp add: free_opt_def free_def split: option.split)

end
