(* ===== verification/Errors.thy ===== *)
theory Errors
  imports Prelude
begin

text \<open>
  The two error enumerations of the micro kernel and the map between them.
  \<open>mkernel_internal_error\<close> (microkernel/src/mkernel_internal_error.h) is what the modules
  return to each other, \<open>ezdev_sdk_kernel_error\<close> (microkernel/inc/ezdev_sdk_kernel_error.h)
  is what the API returns to the application, and \<open>mkiE2ezE\<close> (microkernel/src/utils.c)
  translates the first into the second.

  A C enumeration is an integer type and the code uses it as one: \<open>das_mqttlogin2das\<close>
  computes \<open>mkernel_internal_mqtt_error_begin + mqtt_result_code\<close>, which need not be an
  enumerator, and one API function returns an internal code where an API code is declared.
  So both enumerations are \<open>int\<close> here and every enumerator is an abbreviation of its value.
\<close>

section \<open>Internal errors\<close>

type_synonym mkernel_internal_error = int

abbreviation (input) mkernel_internal_succ :: mkernel_internal_error where
  "mkernel_internal_succ \<equiv> 0"
abbreviation (input) mkernel_internal_no_start :: mkernel_internal_error where
  "mkernel_internal_no_start \<equiv> 1"
abbreviation (input) mkernel_internal_haven_stop :: mkernel_internal_error where
  "mkernel_internal_haven_stop \<equiv> 2"
abbreviation (input) mkernel_internal_invald_call :: mkernel_internal_error where
  "mkernel_internal_invald_call \<equiv> 3"
abbreviation (input) mkernel_internal_das_need_reconnect :: mkernel_internal_error where
  "mkernel_internal_das_need_reconnect \<equiv> 4"
abbreviation (input) mkernel_internal_input_param_invalid :: mkernel_internal_error where
  "mkernel_internal_input_param_invalid \<equiv> 5"
abbreviation (input) mkernel_internal_lbs_connect_error :: mkernel_internal_error where
  "mkernel_internal_lbs_connect_error \<equiv> 6"
abbreviation (input) mkernel_internal_mem_lack :: mkernel_internal_error where
  "mkernel_internal_mem_lack \<equiv> 7"
abbreviation (input) mkernel_internal_net_gethostbyname_error :: mkernel_internal_error where
  "mkernel_internal_net_gethostbyname_error \<equiv> 8"
abbreviation (input) mkernel_internal_create_sock_error :: mkernel_internal_error where
  "mkernel_internal_create_sock_error \<equiv> 9"
abbreviation (input) mkernel_internal_net_connect_error :: mkernel_internal_error where
  "mkernel_internal_net_connect_error \<equiv> 10"
abbreviation (input) mkernel_internal_net_connect_timeout :: mkernel_internal_error where
  "mkernel_internal_net_connect_timeout \<equiv> 11"
abbreviation (input) mkernel_internal_net_send_error :: mkernel_internal_error where
  "mkernel_internal_net_send_error \<equiv> 12"
abbreviation (input) mkernel_internal_net_read_error :: mkernel_internal_error where
  "mkernel_internal_net_read_error \<equiv> 13"
abbreviation (input) mkernel_internal_net_read_error_request :: mkernel_internal_error where
  "mkernel_internal_net_read_error_request \<equiv> 14"
abbreviation (input) mkernel_internal_net_socket_error :: mkernel_internal_error where
  "mkernel_internal_net_socket_error \<equiv> 15"
abbreviation (input) mkernel_internal_net_socket_timeout :: mkernel_internal_error where
  "mkernel_internal_net_socket_timeout \<equiv> 16"
abbreviation (input) mkernel_internal_net_socket_closed :: mkernel_internal_error where
  "mkernel_internal_net_socket_closed \<equiv> 17"
abbreviation (input) mkernel_internal_net_send_buf_full :: mkernel_internal_error where
  "mkernel_internal_net_send_buf_full \<equiv> 18"
abbreviation (input) mkernel_internal_malloc_error :: mkernel_internal_error where
  "mkernel_internal_malloc_error \<equiv> 19"
abbreviation (input) mkernel_internal_json_parse_error :: mkernel_internal_error where
  "mkernel_internal_json_parse_error \<equiv> 20"
abbreviation (input) mkernel_internal_get_error_json :: mkernel_internal_error where
  "mkernel_internal_get_error_json \<equiv> 21"
abbreviation (input) mkernel_internal_json_format_error :: mkernel_internal_error where
  "mkernel_internal_json_format_error \<equiv> 22"
abbreviation (input) mkernel_internal_xml_parse_error :: mkernel_internal_error where
  "mkernel_internal_xml_parse_error \<equiv> 23"
abbreviation (input) mkernel_internal_get_error_xml :: mkernel_internal_error where
  "mkernel_internal_get_error_xml \<equiv> 24"
abbreviation (input) mkernel_internal_rev_invalid_packet :: mkernel_internal_error where
  "mkernel_internal_rev_invalid_packet \<equiv> 25"
abbreviation (input) mkernel_internal_force_offline :: mkernel_internal_error where
  "mkernel_internal_force_offline \<equiv> 26"
abbreviation (input) mkernel_internal_force_domain_risk :: mkernel_internal_error where
  "mkernel_internal_force_domain_risk \<equiv> 27"
abbreviation (input) mkernel_internal_force_cmd_risk :: mkernel_internal_error where
  "mkernel_internal_force_cmd_risk \<equiv> 28"
abbreviation (input) mkernel_internal_net_poll_err :: mkernel_internal_error where
  "mkernel_internal_net_poll_err \<equiv> 29"
abbreviation (input) mkernel_internal_net_getsockopt_error :: mkernel_internal_error where
  "mkernel_internal_net_getsockopt_error \<equiv> 30"
abbreviation (input) mkernel_internal_net_socket_err :: mkernel_internal_error where
  "mkernel_internal_net_socket_err \<equiv> 31"
abbreviation (input) mkernel_internal_net_poll_event_err :: mkernel_internal_error where
  "mkernel_internal_net_poll_event_err \<equiv> 32"
abbreviation (input) mkernel_internal_value_load_err :: mkernel_internal_error where
  "mkernel_internal_value_load_err \<equiv> 33"
abbreviation (input) mkernel_internal_value_save_err :: mkernel_internal_error where
  "mkernel_internal_value_save_err \<equiv> 34"
abbreviation (input) mkernel_internal_internal_err :: mkernel_internal_error where
  "mkernel_internal_internal_err \<equiv> 35"
abbreviation (input) mkernel_internal_msg_len_overrange :: mkernel_internal_error where
  "mkernel_internal_msg_len_overrange \<equiv> 36"
abbreviation (input) mkernel_internal_call_mqtt_connect :: mkernel_internal_error where
  "mkernel_internal_call_mqtt_connect \<equiv> 100"
abbreviation (input) mkernel_internal_call_mqtt_sub_error :: mkernel_internal_error where
  "mkernel_internal_call_mqtt_sub_error \<equiv> 101"
abbreviation (input) mkernel_internal_call_mqtt_pub_error :: mkernel_internal_error where
  "mkernel_internal_call_mqtt_pub_error \<equiv> 102"
abbreviation (input) mkernel_internal_call_mqtt_yield_error :: mkernel_internal_error where
  "mkernel_internal_call_mqtt_yield_error \<equiv> 103"
abbreviation (input) mkernel_internal_call_mqtt_disconnect :: mkernel_internal_error where
  "mkernel_internal_call_mqtt_disconnect \<equiv> 104"
abbreviation (input) mkernel_internal_call_mqtt_buffer_too_short :: mkernel_internal_error where
  "mkernel_internal_call_mqtt_buffer_too_short \<equiv> 105"
abbreviation (input) mkernel_internal_extend_id_error :: mkernel_internal_error where
  "mkernel_internal_extend_id_error \<equiv> 200"
abbreviation (input) mkernel_internal_extend_unreg :: mkernel_internal_error where
  "mkernel_internal_extend_unreg \<equiv> 201"
abbreviation (input) mkernel_internal_extend_full :: mkernel_internal_error where
  "mkernel_internal_extend_full \<equiv> 202"
abbreviation (input) mkernel_internal_extend_ready :: mkernel_internal_error where
  "mkernel_internal_extend_ready \<equiv> 203"
abbreviation (input) mkernel_internal_extend_no_find :: mkernel_internal_error where
  "mkernel_internal_extend_no_find \<equiv> 204"
abbreviation (input) mkernel_internal_common_ready :: mkernel_internal_error where
  "mkernel_internal_common_ready \<equiv> 205"
abbreviation (input) mkernel_internal_hub_extend_no_find :: mkernel_internal_error where
  "mkernel_internal_hub_extend_no_find \<equiv> 206"
abbreviation (input) mkernel_internal_aes_input_len :: mkernel_internal_error where
  "mkernel_internal_aes_input_len \<equiv> 300"
abbreviation (input) mkernel_internal_casll_mbedtls_setdeckey_error :: mkernel_internal_error where
  "mkernel_internal_casll_mbedtls_setdeckey_error \<equiv> 301"
abbreviation (input) mkernel_internal_casll_mbedtls_crypt_error :: mkernel_internal_error where
  "mkernel_internal_casll_mbedtls_crypt_error \<equiv> 302"
abbreviation (input) mkernel_internal_aes_padding_unmatched :: mkernel_internal_error where
  "mkernel_internal_aes_padding_unmatched \<equiv> 303"
abbreviation (input) mkernel_internal_bscomptls_ecp_group_load_err :: mkernel_internal_error where
  "mkernel_internal_bscomptls_ecp_group_load_err \<equiv> 304"
abbreviation (input) mkernel_internal_bscomptls_ecdh_read_public_err :: mkernel_internal_error where
  "mkernel_internal_bscomptls_ecdh_read_public_err \<equiv> 305"
abbreviation (input) mkernel_internal_bscomptls_ecdh_calc_secret_err :: mkernel_internal_error where
  "mkernel_internal_bscomptls_ecdh_calc_secret_err \<equiv> 306"
abbreviation (input) mkernel_internal_queue_empty :: mkernel_internal_error where
  "mkernel_internal_queue_empty \<equiv> 500"
abbreviation (input) mkernel_internal_queue_uninit :: mkernel_internal_error where
  "mkernel_internal_queue_uninit \<equiv> 501"
abbreviation (input) mkernel_internal_queue_error :: mkernel_internal_error where
  "mkernel_internal_queue_error \<equiv> 502"
abbreviation (input) mkernel_internal_queue_full :: mkernel_internal_error where
  "mkernel_internal_queue_full \<equiv> 503"
abbreviation (input) mkernel_internal_platform_appoint_error :: mkernel_internal_error where
  "mkernel_internal_platform_appoint_error \<equiv> 600"
abbreviation (input) mkernel_internal_sign_check_error :: mkernel_internal_error where
  "mkernel_internal_sign_check_error \<equiv> 601"
abbreviation (input) mkernel_internal_hmac_error :: mkernel_internal_error where
  "mkernel_internal_hmac_error \<equiv> 602"
abbreviation (input) mkernel_internal_dec_error :: mkernel_internal_error where
  "mkernel_internal_dec_error \<equiv> 603"
abbreviation (input) mkernel_internal_enc_error :: mkernel_internal_error where
  "mkernel_internal_enc_error \<equiv> 604"
abbreviation (input) mkernel_internal_random1_check_error :: mkernel_internal_error where
  "mkernel_internal_random1_check_error \<equiv> 605"
abbreviation (input) mkernel_internal_hmac_compare_error :: mkernel_internal_error where
  "mkernel_internal_hmac_compare_error \<equiv> 606"
abbreviation (input) mkernel_internal_platform_error :: mkernel_internal_error where
  "mkernel_internal_platform_error \<equiv> 10000"
abbreviation (input) mkernel_internal_platform_lbs_signcheck_error :: mkernel_internal_error where
  "mkernel_internal_platform_lbs_signcheck_error \<equiv> 10001"
abbreviation (input) mkernel_internal_platform_lbs_order_error :: mkernel_internal_error where
  "mkernel_internal_platform_lbs_order_error \<equiv> 10002"
abbreviation (input) mkernel_internal_platform_invalid_data :: mkernel_internal_error where
  "mkernel_internal_platform_invalid_data \<equiv> 10003"
abbreviation (input) mkernel_internal_platform_devid_inconformity :: mkernel_internal_error where
  "mkernel_internal_platform_devid_inconformity \<equiv> 10004"
abbreviation (input) mkernel_internal_platform_query_authcode_error :: mkernel_internal_error where
  "mkernel_internal_platform_query_authcode_error \<equiv> 10005"
abbreviation (input) mkernel_internal_platform_query_authcode_redis :: mkernel_internal_error where
  "mkernel_internal_platform_query_authcode_redis \<equiv> 10006"
abbreviation (input) mkernel_internal_platform_dec_error :: mkernel_internal_error where
  "mkernel_internal_platform_dec_error \<equiv> 10007"
abbreviation (input) mkernel_internal_platform_enc_error :: mkernel_internal_error where
  "mkernel_internal_platform_enc_error \<equiv> 10008"
abbreviation (input) mkernel_internal_platform_getstun_error :: mkernel_internal_error where
  "mkernel_internal_platform_getstun_error \<equiv> 10009"
abbreviation (input) mkernel_internal_platform_masterkey_invalid :: mkernel_internal_error where
  "mkernel_internal_platform_masterkey_invalid \<equiv> 10010"
abbreviation (input) mkernel_internal_platform_stun_sessionkey_inconformity :: mkernel_internal_error where
  "mkernel_internal_platform_stun_sessionkey_inconformity \<equiv> 10011"
abbreviation (input) mkernel_internal_platform_stun_process_invalid :: mkernel_internal_error where
  "mkernel_internal_platform_stun_process_invalid \<equiv> 10012"
abbreviation (input) mkernel_internal_platform_das_process_invalid :: mkernel_internal_error where
  "mkernel_internal_platform_das_process_invalid \<equiv> 10013"
abbreviation (input) mkernel_internal_platform_lbs_sign_decrypt_err :: mkernel_internal_error where
  "mkernel_internal_platform_lbs_sign_decrypt_err \<equiv> 10014"
abbreviation (input) mkernel_internal_platform_lbs_gen_keys_err :: mkernel_internal_error where
  "mkernel_internal_platform_lbs_gen_keys_err \<equiv> 10015"
abbreviation (input) mkernel_internal_platform_lbs_ecdh_check_err :: mkernel_internal_error where
  "mkernel_internal_platform_lbs_ecdh_check_err \<equiv> 10016"
abbreviation (input) mkernel_internal_platform_lbs_check_ecdh_sign_fail :: mkernel_internal_error where
  "mkernel_internal_platform_lbs_check_ecdh_sign_fail \<equiv> 10017"
abbreviation (input) mkernel_internal_platform_lbs_check_sessionkey_fail :: mkernel_internal_error where
  "mkernel_internal_platform_lbs_check_sessionkey_fail \<equiv> 10018"
abbreviation (input) mkernel_internal_platform_lbs_sign_check_fail :: mkernel_internal_error where
  "mkernel_internal_platform_lbs_sign_check_fail \<equiv> 10019"
abbreviation (input) mkernel_internal_platform_secretkey_decrypt_fail :: mkernel_internal_error where
  "mkernel_internal_platform_secretkey_decrypt_fail \<equiv> 10100"
abbreviation (input) mkernel_internal_platform_secretkey_overflow_windows :: mkernel_internal_error where
  "mkernel_internal_platform_secretkey_overflow_windows \<equiv> 10101"
abbreviation (input) mkernel_internal_platform_secretkey_no_user :: mkernel_internal_error where
  "mkernel_internal_platform_secretkey_no_user \<equiv> 10102"
abbreviation (input) mkernel_internal_platform_secretkey_serial_not_exist :: mkernel_internal_error where
  "mkernel_internal_platform_secretkey_serial_not_exist \<equiv> 10103"
abbreviation (input) mkernel_internal_platform_secretkey_again :: mkernel_internal_error where
  "mkernel_internal_platform_secretkey_again \<equiv> 10104"
abbreviation (input) mkernel_internal_platform_error_end :: mkernel_internal_error where
  "mkernel_internal_platform_error_end \<equiv> 11000"
abbreviation (input) mkernel_internal_mqtt_error_begin :: mkernel_internal_error where
  "mkernel_internal_mqtt_error_begin \<equiv> 11000"
abbreviation (input) mkernel_internal_mqtt_nosupport_protocol_version :: mkernel_internal_error where
  "mkernel_internal_mqtt_nosupport_protocol_version \<equiv> 11001"
abbreviation (input) mkernel_internal_mqtt_unqualified_client_id :: mkernel_internal_error where
  "mkernel_internal_mqtt_unqualified_client_id \<equiv> 11002"
abbreviation (input) mkernel_internal_mqtt_server_unusable :: mkernel_internal_error where
  "mkernel_internal_mqtt_server_unusable \<equiv> 11003"
abbreviation (input) mkernel_internal_mqtt_invalid_username :: mkernel_internal_error where
  "mkernel_internal_mqtt_invalid_username \<equiv> 11004"
abbreviation (input) mkernel_internal_mqtt_unauthorized :: mkernel_internal_error where
  "mkernel_internal_mqtt_unauthorized \<equiv> 11005"
abbreviation (input) mkernel_internal_mqtt_blacklist :: mkernel_internal_error where
  "mkernel_internal_mqtt_blacklist \<equiv> 11010"
abbreviation (input) mkernel_internal_mqtt_redirect :: mkernel_internal_error where
  "mkernel_internal_mqtt_redirect \<equiv> 11011"
abbreviation (input) mkernel_internal_mqtt_session_exist :: mkernel_internal_error where
  "mkernel_internal_mqtt_session_exist \<equiv> 11012"
abbreviation (input) mkernel_internal_mqtt_error_end :: mkernel_internal_error where
  "mkernel_internal_mqtt_error_end \<equiv> 12000"

text \<open>The enumeration, in the order of its declaration.\<close>

definition mki_enumerators :: "mkernel_internal_error list" where
  "mki_enumerators =
    [mkernel_internal_succ,
     mkernel_internal_no_start,
     mkernel_internal_haven_stop,
     mkernel_internal_invald_call,
     mkernel_internal_das_need_reconnect,
     mkernel_internal_input_param_invalid,
     mkernel_internal_lbs_connect_error,
     mkernel_internal_mem_lack,
     mkernel_internal_net_gethostbyname_error,
     mkernel_internal_create_sock_error,
     mkernel_internal_net_connect_error,
     mkernel_internal_net_connect_timeout,
     mkernel_internal_net_send_error,
     mkernel_internal_net_read_error,
     mkernel_internal_net_read_error_request,
     mkernel_internal_net_socket_error,
     mkernel_internal_net_socket_timeout,
     mkernel_internal_net_socket_closed,
     mkernel_internal_net_send_buf_full,
     mkernel_internal_malloc_error,
     mkernel_internal_json_parse_error,
     mkernel_internal_get_error_json,
     mkernel_internal_json_format_error,
     mkernel_internal_xml_parse_error,
     mkernel_internal_get_error_xml,
     mkernel_internal_rev_invalid_packet,
     mkernel_internal_force_offline,
     mkernel_internal_force_domain_risk,
     mkernel_internal_force_cmd_risk,
     mkernel_internal_net_poll_err,
     mkernel_internal_net_getsockopt_error,
     mkernel_internal_net_socket_err,
     mkernel_internal_net_poll_event_err,
     mkernel_internal_value_load_err,
     mkernel_internal_value_save_err,
     mkernel_internal_internal_err,
     mkernel_internal_msg_len_overrange,
     mkernel_internal_call_mqtt_connect,
     mkernel_internal_call_mqtt_sub_error,
     mkernel_internal_call_mqtt_pub_error,
     mkernel_internal_call_mqtt_yield_error,
     mkernel_internal_call_mqtt_disconnect,
     mkernel_internal_call_mqtt_buffer_too_short,
     mkernel_internal_extend_id_error,
     mkernel_internal_extend_unreg,
     mkernel_internal_extend_full,
     mkernel_internal_extend_ready,
     mkernel_internal_extend_no_find,
     mkernel_internal_common_ready,
     mkernel_internal_hub_extend_no_find,
     mkernel_internal_aes_input_len,
     mkernel_internal_casll_mbedtls_setdeckey_error,
     mkernel_internal_casll_mbedtls_crypt_error,
     mkernel_internal_aes_padding_unmatched,
     mkernel_internal_bscomptls_ecp_group_load_err,
     mkernel_internal_bscomptls_ecdh_read_public_err,
     mkernel_internal_bscomptls_ecdh_calc_secret_err,
     mkernel_internal_queue_empty,
     mkernel_internal_queue_uninit,
     mkernel_internal_queue_error,
     mkernel_internal_queue_full,
     mkernel_internal_platform_appoint_error,
     mkernel_internal_sign_check_error,
     mkernel_internal_hmac_error,
     mkernel_internal_dec_error,
     mkernel_internal_enc_error,
     mkernel_internal_random1_check_error,
     mkernel_internal_hmac_compare_error,
     mkernel_internal_platform_error,
     mkernel_internal_platform_lbs_signcheck_error,
     mkernel_internal_platform_lbs_order_error,
     mkernel_internal_platform_invalid_data,
     mkernel_internal_platform_devid_inconformity,
     mkernel_internal_platform_query_authcode_error,
     mkernel_internal_platform_query_authcode_redis,
     mkernel_internal_platform_dec_error,
     mkernel_internal_platform_enc_error,
     mkernel_internal_platform_getstun_error,
     mkernel_internal_platform_masterkey_invalid,
     mkernel_internal_platform_stun_sessionkey_inconformity,
     mkernel_internal_platform_stun_process_invalid,
     mkernel_internal_platform_das_process_invalid,
     mkernel_internal_platform_lbs_sign_decrypt_err,
     mkernel_internal_platform_lbs_gen_keys_err,
     mkernel_internal_platform_lbs_ecdh_check_err,
     mkernel_internal_platform_lbs_check_ecdh_sign_fail,
     mkernel_internal_platform_lbs_check_sessionkey_fail,
     mkernel_internal_platform_lbs_sign_check_fail,
     mkernel_internal_platform_secretkey_decrypt_fail,
     mkernel_internal_platform_secretkey_overflow_windows,
     mkernel_internal_platform_secretkey_no_user,
     mkernel_internal_platform_secretkey_serial_not_exist,
     mkernel_internal_platform_secretkey_again,
     mkernel_internal_platform_error_end,
     mkernel_internal_mqtt_error_begin,
     mkernel_internal_mqtt_nosupport_protocol_version,
     mkernel_internal_mqtt_unqualified_client_id,
     mkernel_internal_mqtt_server_unusable,
     mkernel_internal_mqtt_invalid_username,
     mkernel_internal_mqtt_unauthorized,
     mkernel_internal_mqtt_blacklist,
     mkernel_internal_mqtt_redirect,
     mkernel_internal_mqtt_session_exist,
     mkernel_internal_mqtt_error_end]"

section \<open>API errors\<close>

type_synonym ezdev_sdk_kernel_error = int

abbreviation (input) ezdev_sdk_kernel_succ :: ezdev_sdk_kernel_error where
  "ezdev_sdk_kernel_succ \<equiv> 0"
abbreviation (input) ezdev_sdk_kernel_internal :: ezdev_sdk_kernel_error where
  "ezdev_sdk_kernel_internal \<equiv> 0xe0000001"
abbreviation (input) ezdev_sdk_kernel_invald_call :: ezdev_sdk_kernel_error where
  "ezdev_sdk_kernel_invald_call \<equiv> 0xe0000002"
abbreviation (input) ezdev_sdk_kernel_params_invalid :: ezdev_sdk_kernel_error where
  "ezdev_sdk_kernel_params_invalid \<equiv> 0xe0000003"
abbreviation (input) ezdev_sdk_kernel_buffer_too_small :: ezdev_sdk_kernel_error where
  "ezdev_sdk_kernel_buffer_too_small \<equiv> 0xe0000004"
abbreviation (input) ezdev_sdk_kernel_data_len_range :: ezdev_sdk_kernel_error where
  "ezdev_sdk_kernel_data_len_range \<equiv> 0xe0000005"
abbreviation (input) ezdev_sdk_kernel_memory :: ezdev_sdk_kernel_error where
  "ezdev_sdk_kernel_memory \<equiv> 0xe0000006"
abbreviation (input) ezdev_sdk_kernel_json_invalid :: ezdev_sdk_kernel_error where
  "ezdev_sdk_kernel_json_invalid \<equiv> 0xe0000007"
abbreviation (input) ezdev_sdk_kernel_json_format :: ezdev_sdk_kernel_error where
  "ezdev_sdk_kernel_json_format \<equiv> 0xe0000008"
abbreviation (input) ezdev_sdk_kernel_extend_no_find :: ezdev_sdk_kernel_error where
  "ezdev_sdk_kernel_extend_no_find \<equiv> 0xe0000009"
abbreviation (input) ezdev_sdk_kernel_extend_full :: ezdev_sdk_kernel_error where
  "ezdev_sdk_kernel_extend_full \<equiv> 0xe000000a"
abbreviation (input) ezdev_sdk_kernel_extend_existed :: ezdev_sdk_kernel_error where
  "ezdev_sdk_kernel_extend_existed \<equiv> 0xe000000b"
abbreviation (input) ezdev_sdk_kernel_queue_full :: ezdev_sdk_kernel_error where
  "ezdev_sdk_kernel_queue_full \<equiv> 0xe000000c"
abbreviation (input) ezdev_sdk_kernel_value_load :: ezdev_sdk_kernel_error where
  "ezdev_sdk_kernel_value_load \<equiv> 0xe000000d"
abbreviation (input) ezdev_sdk_kernel_value_save :: ezdev_sdk_kernel_error where
  "ezdev_sdk_kernel_value_save \<equiv> 0xe000000e"
abbreviation (input) ezdev_sdk_kernel_msg_stop_distribute :: ezdev_sdk_kernel_error where
  "ezdev_sdk_kernel_msg_stop_distribute \<equiv> 0xe000000f"
abbreviation (input) ezdev_sdk_kernel_net_create :: ezdev_sdk_kernel_error where
  "ezdev_sdk_kernel_net_create \<equiv> 0xe0000101"
abbreviation (input) ezdev_sdk_kernel_net_connect :: ezdev_sdk_kernel_error where
  "ezdev_sdk_kernel_net_connect \<equiv> 0xe0000102"
abbreviation (input) ezdev_sdk_kernel_net_disconnected :: ezdev_sdk_kernel_error where
  "ezdev_sdk_kernel_net_disconnected \<equiv> 0xe0000103"
abbreviation (input) ezdev_sdk_kernel_net_transmit :: ezdev_sdk_kernel_error where
  "ezdev_sdk_kernel_net_transmit \<equiv> 0xe0000104"
abbreviation (input) ezdev_sdk_kernel_net_dns :: ezdev_sdk_kernel_error where
  "ezdev_sdk_kernel_net_dns \<equiv> 0xe0000105"
abbreviation (input) ezdev_sdk_kernel_lbs_authcode_mismatch :: ezdev_sdk_kernel_error where
  "ezdev_sdk_kernel_lbs_authcode_mismatch \<equiv> 0xe0010001"
abbreviation (input) ezdev_sdk_kernel_lbs_invalid_call :: ezdev_sdk_kernel_error where
  "ezdev_sdk_kernel_lbs_invalid_call \<equiv> 0xe0010002"
abbreviation (input) ezdev_sdk_kernel_lbs_invalid_data :: ezdev_sdk_kernel_error where
  "ezdev_sdk_kernel_lbs_invalid_data \<equiv> 0xe0010003"
abbreviation (input) ezdev_sdk_kernel_lbs_devid_mismatch :: ezdev_sdk_kernel_error where
  "ezdev_sdk_kernel_lbs_devid_mismatch \<equiv> 0xe0010004"
abbreviation (input) ezdev_sdk_kernel_lbs_masterkey_mismatch :: ezdev_sdk_kernel_error where
  "ezdev_sdk_kernel_lbs_masterkey_mismatch \<equiv> 0xe0010005"
abbreviation (input) ezdev_sdk_kernel_lbs_sessionkey_mismatch :: ezdev_sdk_kernel_error where
  "ezdev_sdk_kernel_lbs_sessionkey_mismatch \<equiv> 0xe0010006"
abbreviation (input) ezdev_sdk_kernel_lbs_invalid_dev :: ezdev_sdk_kernel_error where
  "ezdev_sdk_kernel_lbs_invalid_dev \<equiv> 0xe0010007"
abbreviation (input) ezdev_sdk_kernel_lbs_server_crypto :: ezdev_sdk_kernel_error where
  "ezdev_sdk_kernel_lbs_server_crypto \<equiv> 0xe0010008"
abbreviation (input) ezdev_sdk_kernel_lbs_get_data :: ezdev_sdk_kernel_error where
  "ezdev_sdk_kernel_lbs_get_data \<equiv> 0xe0010009"
abbreviation (input) ezdev_sdk_kernel_lbs_server_exception :: ezdev_sdk_kernel_error where
  "ezdev_sdk_kernel_lbs_server_exception \<equiv> 0xe001000a"
abbreviation (input) ezdev_sdk_kernel_secretkey_decrypt_fail :: ezdev_sdk_kernel_error where
  "ezdev_sdk_kernel_secretkey_decrypt_fail \<equiv> 0xe0010100"
abbreviation (input) ezdev_sdk_kernel_secretkey_overflow_windows :: ezdev_sdk_kernel_error where
  "ezdev_sdk_kernel_secretkey_overflow_windows \<equiv> 0xe0010101"
abbreviation (input) ezdev_sdk_kernel_secretkey_no_user :: ezdev_sdk_kernel_error where
  "ezdev_sdk_kernel_secretkey_no_user \<equiv> 0xe0010102"
abbreviation (input) ezdev_sdk_kernel_secretkey_sn_not_exist :: ezdev_sdk_kernel_error where
  "ezdev_sdk_kernel_secretkey_sn_not_exist \<equiv> 0xe0010103"
abbreviation (input) ezdev_sdk_kernel_secretkey_again :: ezdev_sdk_kernel_error where
  "ezdev_sdk_kernel_secretkey_again \<equiv> 0xe0010104"
abbreviation (input) ezdev_sdk_kernel_das_nosupport_protocol_ver :: ezdev_sdk_kernel_error where
  "ezdev_sdk_kernel_das_nosupport_protocol_ver \<equiv> 0xe0020001"
abbreviation (input) ezdev_sdk_kernel_das_client_id_invalid :: ezdev_sdk_kernel_error where
  "ezdev_sdk_kernel_das_client_id_invalid \<equiv> 0xe0020002"
abbreviation (input) ezdev_sdk_kernel_das_server_unusable :: ezdev_sdk_kernel_error where
  "ezdev_sdk_kernel_das_server_unusable \<equiv> 0xe0020003"
abbreviation (input) ezdev_sdk_kernel_das_invalid_username :: ezdev_sdk_kernel_error where
  "ezdev_sdk_kernel_das_invalid_username \<equiv> 0xe0020004"
abbreviation (input) ezdev_sdk_kernel_das_unauthorized :: ezdev_sdk_kernel_error where
  "ezdev_sdk_kernel_das_unauthorized \<equiv> 0xe0020005"
abbreviation (input) ezdev_sdk_kernel_das_session_invaild :: ezdev_sdk_kernel_error where
  "ezdev_sdk_kernel_das_session_invaild \<equiv> 0xe0020006"
abbreviation (input) ezdev_sdk_kernel_das_force_offline :: ezdev_sdk_kernel_error where
  "ezdev_sdk_kernel_das_force_offline \<equiv> 0xe0020007"
abbreviation (input) ezdev_sdk_kernel_das_force_dev_risk :: ezdev_sdk_kernel_error where
  "ezdev_sdk_kernel_das_force_dev_risk \<equiv> 0xe0020008"
abbreviation (input) ezdev_sdk_kernel_das_force_domain_risk :: ezdev_sdk_kernel_error where
  "ezdev_sdk_kernel_das_force_domain_risk \<equiv> 0xe0020009"
abbreviation (input) ezdev_sdk_kernel_das_force_cmd_risk :: ezdev_sdk_kernel_error where
  "ezdev_sdk_kernel_das_force_cmd_risk \<equiv> 0xe002000a"

definition ez_enumerators :: "ezdev_sdk_kernel_error list" where
  "ez_enumerators =
    [ezdev_sdk_kernel_succ,
     ezdev_sdk_kernel_internal,
     ezdev_sdk_kernel_invald_call,
     ezdev_sdk_kernel_params_invalid,
     ezdev_sdk_kernel_buffer_too_small,
     ezdev_sdk_kernel_data_len_range,
     ezdev_sdk_kernel_memory,
     ezdev_sdk_kernel_json_invalid,
     ezdev_sdk_kernel_json_format,
     ezdev_sdk_kernel_extend_no_find,
     ezdev_sdk_kernel_extend_full,
     ezdev_sdk_kernel_extend_existed,
     ezdev_sdk_kernel_queue_full,
     ezdev_sdk_kernel_value_load,
     ezdev_sdk_kernel_value_save,
     ezdev_sdk_kernel_msg_stop_distribute,
     ezdev_sdk_kernel_net_create,
     ezdev_sdk_kernel_net_connect,
     ezdev_sdk_kernel_net_disconnected,
     ezdev_sdk_kernel_net_transmit,
     ezdev_sdk_kernel_net_dns,
     ezdev_sdk_kernel_lbs_authcode_mismatch,
     ezdev_sdk_kernel_lbs_invalid_call,
     ezdev_sdk_kernel_lbs_invalid_data,
     ezdev_sdk_kernel_lbs_devid_mismatch,
     ezdev_sdk_kernel_lbs_masterkey_mismatch,
     ezdev_sdk_kernel_lbs_sessionkey_mismatch,
     ezdev_sdk_kernel_lbs_invalid_dev,
     ezdev_sdk_kernel_lbs_server_crypto,
     ezdev_sdk_kernel_lbs_get_data,
     ezdev_sdk_kernel_lbs_server_exception,
     ezdev_sdk_kernel_secretkey_decrypt_fail,
     ezdev_sdk_kernel_secretkey_overflow_windows,
     ezdev_sdk_kernel_secretkey_no_user,
     ezdev_sdk_kernel_secretkey_sn_not_exist,
     ezdev_sdk_kernel_secretkey_again,
     ezdev_sdk_kernel_das_nosupport_protocol_ver,
     ezdev_sdk_kernel_das_client_id_invalid,
     ezdev_sdk_kernel_das_server_unusable,
     ezdev_sdk_kernel_das_invalid_username,
     ezdev_sdk_kernel_das_unauthorized,
     ezdev_sdk_kernel_das_session_invaild,
     ezdev_sdk_kernel_das_force_offline,
     ezdev_sdk_kernel_das_force_dev_risk,
     ezdev_sdk_kernel_das_force_domain_risk,
     ezdev_sdk_kernel_das_force_cmd_risk]"

section \<open>The translation\<close>

text \<open>The cases are in the order of the switch statement.\<close>

definition mkiE2ezE :: "mkernel_internal_error \<Rightarrow> ezdev_sdk_kernel_error" where
  "mkiE2ezE mkernel_err =
    (if mkernel_err = mkernel_internal_succ
     then ezdev_sdk_kernel_succ
     else if mkernel_err = mkernel_internal_no_start \<or>
         mkernel_err = mkernel_internal_haven_stop \<or>
         mkernel_err = mkernel_internal_invald_call
     then ezdev_sdk_kernel_invald_call
     else if mkernel_err = mkernel_internal_input_param_invalid
     then ezdev_sdk_kernel_params_invalid
     else if mkernel_err = mkernel_internal_mem_lack \<or>
         mkernel_err = mkernel_internal_call_mqtt_buffer_too_short
     then ezdev_sdk_kernel_buffer_too_small
     else if mkernel_err = mkernel_internal_malloc_error
     then ezdev_sdk_kernel_memory
     else if mkernel_err = mkernel_internal_json_parse_error
     then ezdev_sdk_kernel_json_invalid
     else if mkernel_err = mkernel_internal_get_error_json
     then ezdev_sdk_kernel_json_format
     else if mkernel_err = mkernel_internal_extend_no_find
     then ezdev_sdk_kernel_extend_no_find
     else if mkernel_err = mkernel_internal_extend_full
     then ezdev_sdk_kernel_extend_full
     else if mkernel_err = mkernel_internal_extend_ready
     then ezdev_sdk_kernel_extend_existed
     else if mkernel_err = mkernel_internal_queue_full
     then ezdev_sdk_kernel_queue_full
     else if mkernel_err = mkernel_internal_value_load_err
     then ezdev_sdk_kernel_value_load
     else if mkernel_err = mkernel_internal_value_save_err
     then ezdev_sdk_kernel_value_save
     else if mkernel_err = mkernel_internal_create_sock_error \<or>
         mkernel_err = mkernel_internal_net_poll_err \<or>
         mkernel_err = mkernel_internal_net_getsockopt_error \<or>
         mkernel_err = mkernel_internal_net_poll_event_err
     then ezdev_sdk_kernel_net_create
     else if mkernel_err = mkernel_internal_net_gethostbyname_error
     then ezdev_sdk_kernel_net_dns
     else if mkernel_err = mkernel_internal_net_connect_error \<or>
         mkernel_err = mkernel_internal_net_connect_timeout \<or>
         mkernel_err = mkernel_internal_lbs_connect_error \<or>
         mkernel_err = mkernel_internal_call_mqtt_connect
     then ezdev_sdk_kernel_net_connect
     else if mkernel_err = mkernel_internal_das_need_reconnect \<or>
         mkernel_err = mkernel_internal_net_socket_closed \<or>
         mkernel_err = mkernel_internal_net_socket_err
     then ezdev_sdk_kernel_net_disconnected
     else if mkernel_err = mkernel_internal_net_send_error \<or>
         mkernel_err = mkernel_internal_net_read_error \<or>
         mkernel_err = mkernel_internal_net_read_error_request \<or>
         mkernel_err = mkernel_internal_net_socket_error \<or>
         mkernel_err = mkernel_internal_net_socket_timeout \<or>
         mkernel_err = mkernel_internal_rev_invalid_packet \<or>
         mkernel_err = mkernel_internal_call_mqtt_sub_error \<or>
         mkernel_err = mkernel_internal_call_mqtt_pub_error
     then ezdev_sdk_kernel_net_transmit
     else if mkernel_err = mkernel_internal_platform_lbs_signcheck_error
     then ezdev_sdk_kernel_lbs_authcode_mismatch
     else if mkernel_err = mkernel_internal_platform_lbs_order_error \<or>
         mkernel_err = mkernel_internal_platform_stun_process_invalid \<or>
         mkernel_err = mkernel_internal_platform_das_process_invalid
     then ezdev_sdk_kernel_lbs_invalid_call
     else if mkernel_err = mkernel_internal_platform_invalid_data
     then ezdev_sdk_kernel_lbs_invalid_call
     else if mkernel_err = mkernel_internal_platform_devid_inconformity
     then ezdev_sdk_kernel_lbs_devid_mismatch
     else if mkernel_err = mkernel_internal_platform_masterkey_invalid
     then ezdev_sdk_kernel_lbs_masterkey_mismatch
     else if mkernel_err = mkernel_internal_platform_query_authcode_error
     then ezdev_sdk_kernel_lbs_invalid_dev
     else if mkernel_err = mkernel_internal_platform_stun_sessionkey_inconformity
     then ezdev_sdk_kernel_lbs_sessionkey_mismatch
     else if mkernel_err = mkernel_internal_platform_query_authcode_redis
     then ezdev_sdk_kernel_lbs_server_exception
     else if mkernel_err = mkernel_internal_platform_dec_error \<or>
         mkernel_err = mkernel_internal_platform_enc_error
     then ezdev_sdk_kernel_lbs_server_crypto
     else if mkernel_err = mkernel_internal_platform_getstun_error
     then ezdev_sdk_kernel_lbs_get_data
     else if mkernel_err = mkernel_internal_platform_secretkey_decrypt_fail
     then ezdev_sdk_kernel_secretkey_decrypt_fail
     else if mkernel_err = mkernel_internal_platform_secretkey_overflow_windows
     then ezdev_sdk_kernel_secretkey_overflow_windows
     else if mkernel_err = mkernel_internal_platform_secretkey_no_user
     then ezdev_sdk_kernel_secretkey_no_user
     else if mkernel_err = mkernel_internal_platform_secretkey_serial_not_exist
     then ezdev_sdk_kernel_secretkey_sn_not_exist
     else if mkernel_err = mkernel_internal_platform_secretkey_again
     then ezdev_sdk_kernel_secretkey_again
     else if mkernel_err = mkernel_internal_mqtt_nosupport_protocol_version
     then ezdev_sdk_kernel_das_nosupport_protocol_ver
     else if mkernel_err = mkernel_internal_mqtt_unqualified_client_id
     then ezdev_sdk_kernel_das_client_id_invalid
     else if mkernel_err = mkernel_internal_mqtt_server_unusable
     then ezdev_sdk_kernel_das_server_unusable
     else if mkernel_err = mkernel_internal_mqtt_invalid_username
     then ezdev_sdk_kernel_das_invalid_username
     else if mkernel_err = mkernel_internal_mqtt_unauthorized
     then ezdev_sdk_kernel_das_unauthorized
     else if mkernel_err = mkernel_internal_mqtt_redirect
     then ezdev_sdk_kernel_das_session_invaild
     else if mkernel_err = mkernel_internal_mqtt_blacklist
     then ezdev_sdk_kernel_das_force_dev_risk
     else if mkernel_err = mkernel_internal_force_domain_risk
     then ezdev_sdk_kernel_das_force_domain_risk
     else if mkernel_err = mkernel_internal_force_cmd_risk
     then ezdev_sdk_kernel_das_force_cmd_risk
     else if mkernel_err = mkernel_internal_force_offline
     then ezdev_sdk_kernel_das_force_offline
     else ezdev_sdk_kernel_internal)"

lemma mkiE2ezE_succ [simp]: "mkiE2ezE 0 = 0"
  by (simp add: mkiE2ezE_def)

lemma mkiE2ezE_eq_succ_iff: "mkiE2ezE e = ezdev_sdk_kernel_succ \<longleftrightarrow> e = mkernel_internal_succ"
  unfolding mkiE2ezE_def by (simp split: if_splits)

lemma mkiE2ezE_enumerator: "mkiE2ezE e \<in> set ez_enumerators"
  unfolding mkiE2ezE_def ez_enumerators_def by (simp split: if_splits)

lemma ez_enumerators_distinct: "distinct ez_enumerators"
  by (simp add: ez_enumerators_def)

lemma mkiE2ezE_never_invalid_data: "mkiE2ezE e \<noteq> ezdev_sdk_kernel_lbs_invalid_data"
  unfolding mkiE2ezE_def by (simp split: if_splits)

text \<open>
  The translation of internal errors to API errors reports success for success and for
  nothing else, always returns an enumerator of the API, and never the enumerator
  \<open>ezdev_sdk_kernel_lbs_invalid_data\<close>: the server's answer "invalid data" is reported as
  \<open>ezdev_sdk_kernel_lbs_invalid_call\<close>.
\<close>

theorem error_translation:
  "(mkiE2ezE e = ezdev_sdk_kernel_succ \<longleftrightarrow> e = mkernel_internal_succ) \<and>
   mkiE2ezE e \<in> set ez_enumerators \<and>
   mkiE2ezE e \<noteq> ezdev_sdk_kernel_lbs_invalid_data \<and>
   mkiE2ezE mkernel_internal_platform_invalid_data = ezdev_sdk_kernel_lbs_invalid_call"
  using mkiE2ezE_eq_succ_iff [of e] mkiE2ezE_enumerator [of e] mkiE2ezE_never_invalid_data [of e]
  by (simp add: mkiE2ezE_def)

end
