(* ===== verification/Queue.thy ===== *)
theory Queue
  imports Errors
begin

text \<open>
  The message queues of microkernel/src/ezdev_sdk_kerne_queuel.h.  The header defines one
  family of functions by macros (\<open>QUEUE_INIT\<close>, \<open>QUEUE_FINI\<close>, \<open>QUEUE_POP\<close>, \<open>QUEUE_GET\<close>,
  \<open>QUEUE_PUSH\<close>, \<open>QUEUE_PUSH_HEAD\<close>) and ezdev_sdk_kerne_queuel.c expands it for five message
  types; the definitions here are polymorphic in the message type.

  A queue is a singly linked list with a head and a tail pointer in the C heap.  \<open>store\<close> is
  the part of the heap that holds the elements of one queue, an association list from
  addresses to elements; an address is a number and the null pointer is \<open>None\<close>.  \<open>brk\<close> is
  the next address the allocator returns.  Every function takes the queue's mutex first and
  releases it on every path, so a call is atomic.  Following a dangling pointer sets
  \<open>q_fault\<close>.
\<close>

section \<open>The linked list\<close>

datatype 'm queque_element = Element (el_msg: 'm) (el_next: "nat option")

record 'm queque =
  maxsize :: u16
  size :: u16
  head :: "nat option"
  tail :: "nat option"
  lock :: bool
  store :: "(nat \<times> 'm queque_element) list"
  brk :: nat
  q_fault :: bool

text \<open>\<open>QUEUE_INIT\<close>: the argument tells whether the platform returned a mutex.\<close>

definition init_queue1 :: "u16 \<Rightarrow> bool \<Rightarrow> mkernel_internal_error \<times> 'm queque" where
  "init_queue1 max_size mutex =
     (let q = \<lparr>maxsize = max_size, size = 0, head = None, tail = None, lock = mutex,
               store = [], brk = 0, q_fault = False\<rparr>
      in if \<not> mutex then (mkernel_internal_malloc_error, q) else (mkernel_internal_succ, q))"

text \<open>The all-zero queue that \<open>memset\<close> leaves.\<close>

definition zero_queue :: "'m queque" where
  "zero_queue = \<lparr>maxsize = 0, size = 0, head = None, tail = None, lock = False,
                 store = [], brk = 0, q_fault = False\<rparr>"

text \<open>\<open>QUEUE_POP\<close>: the message pointer is written only on success.\<close>

definition pop_queue ::
  "'m queque \<Rightarrow> mem \<Rightarrow> mkernel_internal_error \<times> 'm option \<times> 'm queque \<times> mem" where
  "pop_queue q m = (case head q of
       None \<Rightarrow> (mkernel_internal_queue_empty, None, q\<lparr>tail := None, size := 0\<rparr>, m)
     | Some p \<Rightarrow> (case map_of (store q) p of
         None \<Rightarrow> (mkernel_internal_queue_empty, None, q\<lparr>head := None, q_fault := True\<rparr>, m)
       | Some e \<Rightarrow>
          (let q1 = q\<lparr>head := el_next e\<rparr>;
               q2 = (if el_next e = None then q1\<lparr>tail := None, size := 0\<rparr>
                     else q1\<lparr>size := size q1 - 1\<rparr>)
           in (mkernel_internal_succ, Some (el_msg e),
               q2\<lparr>store := AList.delete p (store q2)\<rparr>, free m))))"

text \<open>\<open>QUEUE_GET\<close>: the message stays in the queue.\<close>

definition get_queue :: "'m queque \<Rightarrow> mkernel_internal_error \<times> 'm option \<times> 'm queque" where
  "get_queue q = (case head q of
       None \<Rightarrow> (mkernel_internal_queue_empty, None, q\<lparr>tail := None, size := 0\<rparr>)
     | Some p \<Rightarrow> (case map_of (store q) p of
         None \<Rightarrow> (mkernel_internal_queue_empty, None, q\<lparr>q_fault := True\<rparr>)
       | Some e \<Rightarrow> (mkernel_internal_succ, Some (el_msg e), q)))"

text \<open>\<open>QUEUE_PUSH\<close>\<close>

definition push_queue ::
  "'m \<Rightarrow> 'm queque \<Rightarrow> mem \<Rightarrow> mkernel_internal_error \<times> 'm queque \<times> mem" where
  "push_queue x q m =
     (if size q \<ge> maxsize q then (mkernel_internal_queue_full, q, m)
      else case malloc m of (ok, m') \<Rightarrow>
        if \<not> ok then (mkernel_internal_malloc_error, q, m')
        else
          let a = brk q; e = Element x None;
              q1 = q\<lparr>store := AList.update a e (store q), brk := Suc a\<rparr>;
              q2 = (if tail q = None \<or> head q = None
                    then q1\<lparr>head := Some a, tail := Some a\<rparr>
                    else case map_of (store q) (the (tail q)) of
                        None \<Rightarrow> q1\<lparr>q_fault := True, tail := Some a\<rparr>
                      | Some t \<Rightarrow>
                          q1\<lparr>store := AList.update (the (tail q)) (Element (el_msg t) (Some a)) (store q1),
                             tail := Some a\<rparr>)
          in (mkernel_internal_succ, q2\<lparr>size := size q2 + 1\<rparr>, m'))"

text \<open>\<open>QUEUE_PUSH_HEAD\<close>\<close>

definition push_queue_head ::
  "'m \<Rightarrow> 'm queque \<Rightarrow> mem \<Rightarrow> mkernel_internal_error \<times> 'm queque \<times> mem" where
  "push_queue_head x q m =
     (if size q \<ge> maxsize q then (mkernel_internal_queue_full, q, m)
      else case malloc m of (ok, m') \<Rightarrow>
        if \<not> ok then (mkernel_internal_malloc_error, q, m')
        else
          let a = brk q;
              q2 = (if tail q = None \<or> head q = None
                    then q\<lparr>store := AList.update a (Element x None) (store q), brk := Suc a,
                           head := Some a, tail := Some a\<rparr>
                    else q\<lparr>store := AList.update a (Element x (head q)) (store q), brk := Suc a,
                           head := Some a\<rparr>)
          in (mkernel_internal_succ, q2\<lparr>size := size q2 + 1\<rparr>, m'))"

text \<open>
  The loop of \<open>QUEUE_FINI\<close>: it frees the message block (not what the message points to)
  and the element.  Each round removes an element from the store, so the loop ends.
\<close>

function fini_queue_loop :: "'m queque \<Rightarrow> mem \<Rightarrow> 'm queque \<times> mem" where
  "fini_queue_loop q m = (case head q of
       None \<Rightarrow> (q, m)
     | Some p \<Rightarrow> (case map_of (store q) p of
         None \<Rightarrow> (q\<lparr>q_fault := True\<rparr>, m)
       | Some e \<Rightarrow> fini_queue_loop
           (q\<lparr>head := el_next e, store := AList.delete p (store q)\<rparr>) (free (free m))))"
  by pat_completeness auto

lemma length_delete_less:
  "map_of xs p = Some e \<Longrightarrow> length (AList.delete p xs) < length xs"
proof -
  assume "map_of xs p = Some e"
  then have "(p, e) \<in> set xs" by (rule map_of_SomeD)
  then have "length (filter (\<lambda>(k, v). p \<noteq> k) xs) < length xs"
    by (intro length_filter_less [of "(p, e)"]) auto
  then show ?thesis by (simp add: AList.delete_eq)
qed

termination fini_queue_loop
  by (relation "measure (\<lambda>(q, m). length (store q))") (auto simp: length_delete_less)

declare fini_queue_loop.simps [simp del]

definition fini_queue1 :: "'m queque \<Rightarrow> mem \<Rightarrow> 'm queque \<times> mem" where
  "fini_queue1 q m = (case fini_queue_loop q m of (q', m') \<Rightarrow>
     (zero_queue\<lparr>q_fault := q_fault q'\<rparr>, m'))"

section \<open>What a queue holds\<close>

text \<open>
  \<open>chain s p xs\<close>: following the links from \<open>p\<close> through the heap \<open>s\<close> meets exactly the
  addresses and messages of \<open>xs\<close>, in this order, and then the null pointer.
\<close>

primrec chain ::
  "(nat \<rightharpoonup> 'm queque_element) \<Rightarrow> nat option \<Rightarrow> (nat \<times> 'm) list \<Rightarrow> bool" where
  "chain s p [] = (p = None)"
| "chain s p (x # xs) =
     (p = Some (fst x) \<and> (\<exists>n. s (fst x) = Some (Element (snd x) n) \<and> chain s n xs))"

text \<open>The messages found by following at most so many links.\<close>

fun walk :: "nat \<Rightarrow> (nat \<rightharpoonup> 'm queque_element) \<Rightarrow> nat option \<Rightarrow> 'm list" where
  "walk 0 s p = []"
| "walk (Suc n) s p = (case p of None \<Rightarrow> [] | Some a \<Rightarrow>
     (case s a of None \<Rightarrow> [] | Some e \<Rightarrow> el_msg e # walk n s (el_next e)))"

definition qmsgs :: "'m queque \<Rightarrow> 'm list" where
  "qmsgs q = walk (unat (size q)) (map_of (store q)) (head q)"

definition qcap :: "'m queque \<Rightarrow> nat" where
  "qcap q = unat (maxsize q)"

text \<open>
  The representation invariant: the list is finite and has no shared element, the heap
  holds its elements and no others, \<open>size\<close> counts them and stays within \<open>maxsize\<close>, \<open>tail\<close> is
  the last one, and no pointer dangles.
\<close>

definition queue_rep :: "'m queque \<Rightarrow> (nat \<times> 'm) list \<Rightarrow> bool" where
  "queue_rep q xs \<longleftrightarrow>
     chain (map_of (store q)) (head q) xs \<and> distinct (map fst xs) \<and>
     set (map fst xs) = dom (map_of (store q)) \<and>
     unat (size q) = length xs \<and> size q \<le> maxsize q \<and>
     tail q = (if xs = [] then None else Some (fst (last xs))) \<and>
     (\<forall>a \<in> dom (map_of (store q)). a < brk q) \<and> \<not> q_fault q"

definition queue_inv :: "'m queque \<Rightarrow> bool" where
  "queue_inv q \<longleftrightarrow> (\<exists>xs. queue_rep q xs)"

lemma chain_walk: "chain s p xs \<Longrightarrow> walk (length xs) s p = map snd xs"
  by (induction xs arbitrary: p) auto

lemma chain_upd [simp]: "a \<notin> set (map fst xs) \<Longrightarrow> chain (s(a := v)) p xs = chain s p xs"
  by (induction xs arbitrary: p) auto

lemma chain_snoc:
  "chain s p (xs @ [(t, y)]) \<Longrightarrow> t \<notin> set (map fst xs) \<Longrightarrow> a \<notin> set (map fst xs) \<Longrightarrow> a \<noteq> t \<Longrightarrow>
   chain (s(a \<mapsto> Element x None, t \<mapsto> Element y (Some a))) p (xs @ [(t, y), (a, x)])"
  by (induction xs arbitrary: p) auto

lemma queue_rep_qmsgs: "queue_rep q xs \<Longrightarrow> qmsgs q = map snd xs"
  unfolding queue_rep_def qmsgs_def using chain_walk by force

lemma queue_rep_length: "queue_rep q xs \<Longrightarrow> unat (size q) = length (qmsgs q)"
  by (simp add: queue_rep_qmsgs) (simp add: queue_rep_def)

lemma queue_inv_size: "queue_inv q \<Longrightarrow> unat (size q) = length (qmsgs q)"
  unfolding queue_inv_def using queue_rep_length by blast

lemma queue_inv_bound: "queue_inv q \<Longrightarrow> length (qmsgs q) \<le> qcap q"
proof -
  assume "queue_inv q"
  then obtain xs where r: "queue_rep q xs" by (auto simp: queue_inv_def)
  then have "unat (size q) \<le> unat (maxsize q)" by (simp add: queue_rep_def word_le_nat_alt)
  with r show ?thesis by (simp add: queue_rep_length qcap_def)
qed

lemma queue_inv_fault: "queue_inv q \<Longrightarrow> \<not> q_fault q"
  by (auto simp: queue_inv_def queue_rep_def)

lemma queue_full_iff: "queue_inv q \<Longrightarrow> size q \<ge> maxsize q \<longleftrightarrow> qcap q \<le> length (qmsgs q)"
  by (simp add: word_le_nat_alt qcap_def queue_inv_size)

lemma queue_inv_tail:
  assumes "queue_inv q"
  shows "tail q = None \<longleftrightarrow> qmsgs q = []" and "head q = None \<longleftrightarrow> qmsgs q = []"
proof -
  obtain xs where r: "queue_rep q xs" using assms by (auto simp: queue_inv_def)
  show "tail q = None \<longleftrightarrow> qmsgs q = []"
    using r by (simp add: queue_rep_qmsgs) (simp add: queue_rep_def)
  show "head q = None \<longleftrightarrow> qmsgs q = []"
    using r by (cases xs) (simp_all add: queue_rep_qmsgs, auto simp: queue_rep_def)
qed

section \<open>Refinement: every operation acts on the list of messages\<close>

lemma init_queue1_inv [simp]:
  "queue_inv (snd (init_queue1 n b) :: 'm queque)" "qmsgs (snd (init_queue1 n b) :: 'm queque) = []"
  "qcap (snd (init_queue1 n b) :: 'm queque) = unat n"
proof -
  have "queue_rep (snd (init_queue1 n b) :: 'm queque) []"
    by (simp add: init_queue1_def Let_def queue_rep_def)
  then show "queue_inv (snd (init_queue1 n b) :: 'm queque)"
    and "qmsgs (snd (init_queue1 n b) :: 'm queque) = []"
    by (auto simp: queue_inv_def queue_rep_qmsgs)
  show "qcap (snd (init_queue1 n b) :: 'm queque) = unat n"
    by (simp add: init_queue1_def Let_def qcap_def)
qed

lemma zero_queue_inv [simp]:
  "queue_inv (zero_queue :: 'm queque)" "qmsgs (zero_queue :: 'm queque) = []"
  "qcap (zero_queue :: 'm queque) = 0"
proof -
  have "queue_rep (zero_queue :: 'm queque) []"
    by (simp add: zero_queue_def queue_rep_def)
  then show "queue_inv (zero_queue :: 'm queque)" and "qmsgs (zero_queue :: 'm queque) = []"
    by (auto simp: queue_inv_def queue_rep_qmsgs)
  show "qcap (zero_queue :: 'm queque) = 0"
    by (simp add: zero_queue_def qcap_def)
qed

lemma push_full:
  "queue_inv q \<Longrightarrow> qcap q \<le> length (qmsgs q) \<Longrightarrow>
   push_queue x q m = (mkernel_internal_queue_full, q, m)"
  by (simp add: push_queue_def queue_full_iff)

lemma push_nomem:
  "queue_inv q \<Longrightarrow> length (qmsgs q) < qcap q \<Longrightarrow> \<not> fst (malloc m) \<Longrightarrow>
   push_queue x q m = (mkernel_internal_malloc_error, q, snd (malloc m))"
  by (simp add: push_queue_def queue_full_iff case_prod_beta)

lemma push_ok:
  assumes inv: "queue_inv q" and room: "length (qmsgs q) < qcap q" and ok: "fst (malloc m)"
  shows "\<exists>q'. push_queue x q m = (mkernel_internal_succ, q', snd (malloc m)) \<and>
           queue_inv q' \<and> qmsgs q' = qmsgs q @ [x] \<and> qcap q' = qcap q"
proof -
  obtain xs where r: "queue_rep q xs" using inv by (auto simp: queue_inv_def)
  have lt: "size q < maxsize q"
    using room inv by (simp add: word_less_nat_alt qcap_def queue_inv_size)
  define q' where "q' = fst (snd (push_queue x q m))"
  have fresh: "brk q \<notin> dom (map_of (store q))" and old: "\<forall>a \<in> set (map fst xs). a < brk q"
    using r by (auto simp: queue_rep_def)
  have bnd: "a < Suc (brk q)" if "map_of (store q) a = Some e" for a e
    using r that by (auto simp: queue_rep_def intro: less_SucI)
  have sz: "unat (size q + 1) = Suc (length xs)" "size q + 1 \<le> maxsize q"
    using lt r by (simp_all add: queue_rep_def word_le_nat_alt word_less_nat_alt)
  have "push_queue x q m = (mkernel_internal_succ, q', snd (malloc m)) \<and>
        queue_rep q' (xs @ [(brk q, x)]) \<and> qcap q' = qcap q"
  proof (cases xs rule: rev_cases)
    case Nil
    then have "tail q = None" "store q = []" "head q = None"
      using r by (auto simp: queue_rep_def dom_map_of_conv_image_fst)
    with Nil r lt ok sz show ?thesis
      by (simp add: q'_def push_queue_def Let_def queue_rep_def qcap_def update_conv' case_prod_beta)
  next
    case (snoc ys t)
    obtain ta ty where t: "t = (ta, ty)" by (cases t)
    have ch: "chain (map_of (store q)) (head q) (ys @ [(ta, ty)])"
      using r snoc t by (simp add: queue_rep_def)
    have el: "map_of (store q) ta = Some (Element ty None)"
    proof -
      have "chain s p (ys @ [(ta, ty)]) \<Longrightarrow> s ta = Some (Element ty None)" for s p
        by (induction ys arbitrary: p) auto
      then show ?thesis using ch by blast
    qed
    have tl: "tail q = Some ta" "head q \<noteq> None"
      using r snoc t ch by (auto simp: queue_rep_def) (cases ys; auto)
    have ds: "ta \<notin> set (map fst ys)" "brk q \<notin> set (map fst ys)" "brk q \<noteq> ta"
      using r snoc t old by (auto simp: queue_rep_def)
    have cn: "chain ((map_of (store q))(brk q \<mapsto> Element x None, ta \<mapsto> Element ty (Some (brk q))))
        (head q) (ys @ [(ta, ty), (brk q, x)])"
      by (rule chain_snoc [OF ch ds])
    show ?thesis
      using snoc t r lt ok sz tl el cn ds fresh bnd
      by (auto simp: q'_def push_queue_def Let_def queue_rep_def qcap_def update_conv' case_prod_beta)
  qed
  then show ?thesis
    using r by (auto simp: queue_inv_def queue_rep_qmsgs)
qed

lemma push_head_full:
  "queue_inv q \<Longrightarrow> qcap q \<le> length (qmsgs q) \<Longrightarrow>
   push_queue_head x q m = (mkernel_internal_queue_full, q, m)"
  by (simp add: push_queue_head_def queue_full_iff)

lemma push_head_nomem:
  "queue_inv q \<Longrightarrow> length (qmsgs q) < qcap q \<Longrightarrow> \<not> fst (malloc m) \<Longrightarrow>
   push_queue_head x q m = (mkernel_internal_malloc_error, q, snd (malloc m))"
  by (simp add: push_queue_head_def queue_full_iff case_prod_beta)

lemma push_head_ok:
  assumes inv: "queue_inv q" and room: "length (qmsgs q) < qcap q" and ok: "fst (malloc m)"
  shows "\<exists>q'. push_queue_head x q m = (mkernel_internal_succ, q', snd (malloc m)) \<and>
           queue_inv q' \<and> qmsgs q' = x # qmsgs q \<and> qcap q' = qcap q"
proof -
  obtain xs where r: "queue_rep q xs" using inv by (auto simp: queue_inv_def)
  have lt: "size q < maxsize q"
    using room inv by (simp add: word_less_nat_alt qcap_def queue_inv_size)
  define q' where "q' = fst (snd (push_queue_head x q m))"
  have fresh: "brk q \<notin> dom (map_of (store q))" and old: "brk q \<notin> set (map fst xs)"
    using r by (auto simp: queue_rep_def)
  have bnd: "a < Suc (brk q)" if "map_of (store q) a = Some e" for a e
    using r that by (auto simp: queue_rep_def intro: less_SucI)
  have sz: "unat (size q + 1) = Suc (length xs)" "size q + 1 \<le> maxsize q"
    using lt r by (simp_all add: queue_rep_def word_le_nat_alt word_less_nat_alt)
  have "push_queue_head x q m = (mkernel_internal_succ, q', snd (malloc m)) \<and>
        queue_rep q' ((brk q, x) # xs) \<and> qcap q' = qcap q"
  proof (cases xs)
    case Nil
    then have "tail q = None" "store q = []" "head q = None"
      using r by (auto simp: queue_rep_def dom_map_of_conv_image_fst)
    with Nil r lt ok sz show ?thesis
      by (simp add: q'_def push_queue_head_def Let_def queue_rep_def qcap_def update_conv' case_prod_beta)
  next
    case (Cons y ys)
    then have "tail q \<noteq> None" "head q \<noteq> None"
      using r by (auto simp: queue_rep_def)
    with Cons r lt ok sz fresh old bnd show ?thesis
      by (auto simp: q'_def push_queue_head_def Let_def queue_rep_def qcap_def update_conv' case_prod_beta)
  qed
  then show ?thesis
    using r by (auto simp: queue_inv_def queue_rep_qmsgs)
qed

lemma pop_Nil:
  assumes inv: "queue_inv q" and "qmsgs q = []"
  shows "\<exists>q'. pop_queue q m = (mkernel_internal_queue_empty, None, q', m) \<and>
           queue_inv q' \<and> qmsgs q' = [] \<and> qcap q' = qcap q"
proof -
  obtain xs where r: "queue_rep q xs" using inv by (auto simp: queue_inv_def)
  then have "xs = []" using assms(2) by (simp add: queue_rep_qmsgs)
  then have "pop_queue q m = (mkernel_internal_queue_empty, None, q\<lparr>tail := None, size := 0\<rparr>, m) \<and>
             queue_rep (q\<lparr>tail := None, size := 0\<rparr>) []"
    using r by (simp add: pop_queue_def queue_rep_def)
  then show ?thesis by (auto simp: queue_inv_def queue_rep_qmsgs qcap_def)
qed

lemma pop_Cons:
  assumes inv: "queue_inv q" and ms: "qmsgs q = x # ms"
  shows "\<exists>q'. pop_queue q m = (mkernel_internal_succ, Some x, q', free m) \<and>
           queue_inv q' \<and> qmsgs q' = ms \<and> qcap q' = qcap q"
proof -
  obtain xs where r: "queue_rep q xs" using inv by (auto simp: queue_inv_def)
  then obtain a ys where xs: "xs = (a, x) # ys" and ms': "map snd ys = ms"
    using ms by (cases xs) (auto simp: queue_rep_qmsgs)
  then obtain n where hd: "head q = Some a" and el: "map_of (store q) a = Some (Element x n)"
    and ch: "chain (map_of (store q)) n ys" and fr: "a \<notin> set (map fst ys)"
    using r by (auto simp: queue_rep_def)
  define q' where "q' = fst (snd (snd (pop_queue q m)))"
  have n: "n = None \<longleftrightarrow> ys = []" using ch by (cases ys) auto
  have sz: "ys \<noteq> [] \<Longrightarrow> size q \<noteq> 0" "unat (size q) = Suc (length ys)"
    using r xs by (auto simp: queue_rep_def)
  have le: "size q - 1 \<le> maxsize q" if "ys \<noteq> []"
  proof -
    have "unat (size q) \<le> unat (maxsize q)" using r by (simp add: queue_rep_def word_le_nat_alt)
    then show ?thesis using sz that by (simp add: word_le_nat_alt unat_dec_pos)
  qed
  have st: "set (map fst ys) = dom (map_of (store q)) - {a}"
    using r xs fr by (auto simp: queue_rep_def)
  have "pop_queue q m = (mkernel_internal_succ, Some x, q', free m) \<and> queue_rep q' ys \<and> qcap q' = qcap q"
    using r xs hd el ch fr n sz le st
    by (auto simp: q'_def pop_queue_def Let_def queue_rep_def qcap_def AList.delete_conv' unat_dec_pos)
  then show ?thesis using ms' by (auto simp: queue_inv_def queue_rep_qmsgs)
qed

lemma get_Nil:
  assumes inv: "queue_inv q" and "qmsgs q = []"
  shows "\<exists>q'. get_queue q = (mkernel_internal_queue_empty, None, q') \<and>
           queue_inv q' \<and> qmsgs q' = [] \<and> qcap q' = qcap q"
proof -
  obtain xs where r: "queue_rep q xs" using inv by (auto simp: queue_inv_def)
  then have "xs = []" using assms(2) by (simp add: queue_rep_qmsgs)
  then have "get_queue q = (mkernel_internal_queue_empty, None, q\<lparr>tail := None, size := 0\<rparr>) \<and>
             queue_rep (q\<lparr>tail := None, size := 0\<rparr>) []"
    using r by (simp add: get_queue_def queue_rep_def)
  then show ?thesis by (auto simp: queue_inv_def queue_rep_qmsgs qcap_def)
qed

lemma get_Cons:
  assumes inv: "queue_inv q" and ms: "qmsgs q = x # ms"
  shows "get_queue q = (mkernel_internal_succ, Some x, q)"
proof -
  obtain xs where r: "queue_rep q xs" using inv by (auto simp: queue_inv_def)
  then obtain a ys where "xs = (a, x) # ys"
    using ms by (cases xs) (auto simp: queue_rep_qmsgs)
  with r show ?thesis by (auto simp: get_queue_def queue_rep_def)
qed

text \<open>A run of pushes, and a run of pops that stops at an empty queue.\<close>

primrec run_pushes ::
  "('m \<Rightarrow> 'q \<Rightarrow> mem \<Rightarrow> int \<times> 'q \<times> mem) \<Rightarrow> 'm list \<Rightarrow> 'q \<Rightarrow> mem \<Rightarrow> 'q \<times> mem" where
  "run_pushes push [] q m = (q, m)"
| "run_pushes push (x # xs) q m =
     (case push x q m of (_, q', m') \<Rightarrow> run_pushes push xs q' m')"

primrec run_pops ::
  "('q \<Rightarrow> mem \<Rightarrow> int \<times> 'm option \<times> 'q \<times> mem) \<Rightarrow> nat \<Rightarrow> 'q \<Rightarrow> mem \<Rightarrow> 'm list \<times> 'q \<times> mem" where
  "run_pops pop 0 q m = ([], q, m)"
| "run_pops pop (Suc n) q m = (case pop q m of
     (_, None, q', m') \<Rightarrow> ([], q', m')
   | (_, Some x, q', m') \<Rightarrow>
       (case run_pops pop n q' m' of (xs, q'', m'') \<Rightarrow> (x # xs, q'', m'')))"

lemma fini_queue_loop_rep:
  assumes "chain (map_of (store q)) (head q) xs" and "distinct (map fst xs)"
  shows "head (fst (fini_queue_loop q m)) = None \<and>
         q_fault (fst (fini_queue_loop q m)) = q_fault q \<and>
         live (snd (fini_queue_loop q m)) = live m - 2 * int (length xs)"
  using assms
proof (induction xs arbitrary: q m)
  case Nil
  then show ?case by (simp add: fini_queue_loop.simps [of q m])
next
  case (Cons x xs)
  then obtain n where h: "head q = Some (fst x)" "map_of (store q) (fst x) = Some (Element (snd x) n)"
    and ch: "chain (map_of (store q)) n xs"
    by auto
  let ?q = "q\<lparr>head := n, store := AList.delete (fst x) (store q)\<rparr>"
  have "chain (map_of (store ?q)) (head ?q) xs"
    using ch Cons.prems(2) by (simp add: AList.delete_conv')
  with Cons.IH [of ?q "free (free m)"] Cons.prems(2) h show ?case
    by (simp add: fini_queue_loop.simps [of q m] live_free)
qed

lemma fini_queue1_spec:
  assumes "queue_inv q"
  shows "fini_queue1 q m = (zero_queue, snd (fini_queue1 q m))"
    and "live (snd (fini_queue1 q m)) = live m - 2 * int (length (qmsgs q))"
proof -
  obtain xs where r: "queue_rep q xs" using assms by (auto simp: queue_inv_def)
  then have l: "length (qmsgs q) = length xs" and f: "\<not> q_fault q"
    by (simp_all add: queue_rep_qmsgs) (simp add: queue_rep_def)
  have "chain (map_of (store q)) (head q) xs" "distinct (map fst xs)"
    using r by (simp_all add: queue_rep_def)
  note * = fini_queue_loop_rep [OF this, of m]
  show "fini_queue1 q m = (zero_queue, snd (fini_queue1 q m))"
    using * f by (simp add: fini_queue1_def case_prod_beta) (simp add: zero_queue_def)
  show "live (snd (fini_queue1 q m)) = live m - 2 * int (length (qmsgs q))"
    using * l by (simp add: fini_queue1_def case_prod_beta)
qed

section \<open>The interface the rest of the kernel relies on\<close>

text \<open>
  A bounded queue: what the modules that push and pop messages may assume.  The laws speak
  of the list of messages \<open>msgs\<close> and the capacity \<open>cap\<close>, not of the pointers.
\<close>

locale bounded_fifo =
  fixes inv :: "'q \<Rightarrow> bool"
    and msgs :: "'q \<Rightarrow> 'm list"
    and cap :: "'q \<Rightarrow> nat"
    and push :: "'m \<Rightarrow> 'q \<Rightarrow> mem \<Rightarrow> int \<times> 'q \<times> mem"
    and push_head :: "'m \<Rightarrow> 'q \<Rightarrow> mem \<Rightarrow> int \<times> 'q \<times> mem"
    and pop :: "'q \<Rightarrow> mem \<Rightarrow> int \<times> 'm option \<times> 'q \<times> mem"
    and get :: "'q \<Rightarrow> int \<times> 'm option \<times> 'q"
  assumes bound: "inv q \<Longrightarrow> length (msgs q) \<le> cap q"
    and push_full: "inv q \<Longrightarrow> cap q \<le> length (msgs q) \<Longrightarrow>
      push x q m = (mkernel_internal_queue_full, q, m)"
    and push_nomem: "inv q \<Longrightarrow> length (msgs q) < cap q \<Longrightarrow> \<not> fst (malloc m) \<Longrightarrow>
      push x q m = (mkernel_internal_malloc_error, q, snd (malloc m))"
    and push_ok: "inv q \<Longrightarrow> length (msgs q) < cap q \<Longrightarrow> fst (malloc m) \<Longrightarrow>
      \<exists>q'. push x q m = (mkernel_internal_succ, q', snd (malloc m)) \<and> inv q' \<and>
           msgs q' = msgs q @ [x] \<and> cap q' = cap q"
    and push_head_full: "inv q \<Longrightarrow> cap q \<le> length (msgs q) \<Longrightarrow>
      push_head x q m = (mkernel_internal_queue_full, q, m)"
    and push_head_nomem: "inv q \<Longrightarrow> length (msgs q) < cap q \<Longrightarrow> \<not> fst (malloc m) \<Longrightarrow>
      push_head x q m = (mkernel_internal_malloc_error, q, snd (malloc m))"
    and push_head_ok: "inv q \<Longrightarrow> length (msgs q) < cap q \<Longrightarrow> fst (malloc m) \<Longrightarrow>
      \<exists>q'. push_head x q m = (mkernel_internal_succ, q', snd (malloc m)) \<and> inv q' \<and>
           msgs q' = x # msgs q \<and> cap q' = cap q"
    and pop_Nil: "inv q \<Longrightarrow> msgs q = [] \<Longrightarrow>
      \<exists>q'. pop q m = (mkernel_internal_queue_empty, None, q', m) \<and> inv q' \<and>
           msgs q' = [] \<and> cap q' = cap q"
    and pop_Cons: "inv q \<Longrightarrow> msgs q = x # xs \<Longrightarrow>
      \<exists>q'. pop q m = (mkernel_internal_succ, Some x, q', free m) \<and> inv q' \<and>
           msgs q' = xs \<and> cap q' = cap q"
    and get_Nil: "inv q \<Longrightarrow> msgs q = [] \<Longrightarrow>
      \<exists>q'. get q = (mkernel_internal_queue_empty, None, q') \<and> inv q' \<and>
           msgs q' = [] \<and> cap q' = cap q"
    and get_Cons: "inv q \<Longrightarrow> msgs q = x # xs \<Longrightarrow> get q = (mkernel_internal_succ, Some x, q)"
begin

text \<open>Every outcome of a push, with what it does to the list and to the heap.\<close>

lemma push_cases:
  assumes "inv q" and "push x q m = (r, q', m')"
  shows "inv q' \<and> cap q' = cap q \<and>
    (r = mkernel_internal_succ \<and> length (msgs q) < cap q \<and> msgs q' = msgs q @ [x] \<and>
       live m' = live m + 1 \<or>
     r = mkernel_internal_queue_full \<and> length (msgs q) = cap q \<and> q' = q \<and> m' = m \<or>
     r = mkernel_internal_malloc_error \<and> length (msgs q) < cap q \<and> q' = q \<and> live m' = live m)"
proof (cases "length (msgs q) < cap q")
  case False
  then show ?thesis using assms push_full [of q x m] bound [of q] by auto
next
  case True
  show ?thesis
  proof (cases "fst (malloc m)")
    case ok: True
    then show ?thesis using assms True push_ok [of q m x] live_malloc [of m] by auto
  next
    case False
    then show ?thesis using assms True push_nomem [of q m x] live_malloc [of m] by auto
  qed
qed

lemma push_head_cases:
  assumes "inv q" and "push_head x q m = (r, q', m')"
  shows "inv q' \<and> cap q' = cap q \<and>
    (r = mkernel_internal_succ \<and> length (msgs q) < cap q \<and> msgs q' = x # msgs q \<and>
       live m' = live m + 1 \<or>
     r = mkernel_internal_queue_full \<and> length (msgs q) = cap q \<and> q' = q \<and> m' = m \<or>
     r = mkernel_internal_malloc_error \<and> length (msgs q) < cap q \<and> q' = q \<and> live m' = live m)"
proof (cases "length (msgs q) < cap q")
  case False
  then show ?thesis using assms push_head_full [of q x m] bound [of q] by auto
next
  case True
  show ?thesis
  proof (cases "fst (malloc m)")
    case ok: True
    then show ?thesis using assms True push_head_ok [of q m x] live_malloc [of m] by auto
  next
    case False
    then show ?thesis using assms True push_head_nomem [of q m x] live_malloc [of m] by auto
  qed
qed

lemma pop_cases:
  assumes "inv q" and "pop q m = (r, y, q', m')"
  shows "inv q' \<and> cap q' = cap q \<and>
    (r = mkernel_internal_queue_empty \<and> y = None \<and> msgs q = [] \<and> msgs q' = [] \<and> m' = m \<or>
     r = mkernel_internal_succ \<and> (\<exists>x. y = Some x \<and> msgs q = x # msgs q') \<and> live m' = live m - 1)"
proof (cases "msgs q")
  case Nil
  then show ?thesis using assms pop_Nil [of q m] by auto
next
  case (Cons x xs)
  then show ?thesis using assms pop_Cons [of q x xs m] live_free [of m] by auto
qed

text \<open>\<open>get\<close> shows what the next \<open>pop\<close> removes.\<close>

lemma get_then_pop:
  assumes "inv q" and "get q = (r, y, q')"
  shows "fst (pop q' m) = r \<and> fst (snd (pop q' m)) = y"
proof (cases "msgs q")
  case Nil
  then show ?thesis using assms get_Nil [of q] pop_Nil [of q' m] by auto
next
  case (Cons x xs)
  then show ?thesis using assms get_Cons [of q x xs] pop_Cons [of q x xs m] by auto
qed

text \<open>A message put back at the head is the next one out.\<close>

lemma push_head_then_pop:
  assumes "inv q" and "length (msgs q) < cap q" and "fst (malloc m)"
  shows "\<exists>q' q'' m''. push_head x q m = (mkernel_internal_succ, q', snd (malloc m)) \<and>
           pop q' (snd (malloc m)) = (mkernel_internal_succ, Some x, q'', m'') \<and>
           msgs q'' = msgs q \<and> inv q''"
  using push_head_ok [OF assms, of x] pop_Cons by blast

lemma run_pushes_msgs:
  assumes "inv q" and "length (msgs q) + length xs \<le> cap q" and "\<And>i. m_ok m i"
  shows "inv (fst (run_pushes push xs q m)) \<and> msgs (fst (run_pushes push xs q m)) = msgs q @ xs \<and>
         cap (fst (run_pushes push xs q m)) = cap q"
  using assms
proof (induction xs arbitrary: q m)
  case Nil
  then show ?case by simp
next
  case (Cons x xs)
  have ok: "fst (malloc m)" "\<And>i. m_ok (snd (malloc m)) i"
    using Cons.prems(3) by (simp_all add: malloc_def Let_def)
  obtain q' where q': "push x q m = (mkernel_internal_succ, q', snd (malloc m))" "inv q'"
      "msgs q' = msgs q @ [x]" "cap q' = cap q"
    using push_ok [OF Cons.prems(1) _ ok(1), of x] Cons.prems(2) by auto
  with Cons.IH [OF q'(2) _ ok(2)] Cons.prems(2) show ?case by simp
qed

lemma run_pushes_live:
  assumes "inv q" and "length (msgs q) + length xs \<le> cap q" and "\<And>i. m_ok m i"
  shows "live (snd (run_pushes push xs q m)) = live m + int (length xs)"
  using assms
proof (induction xs arbitrary: q m)
  case Nil
  then show ?case by simp
next
  case (Cons x xs)
  have ok: "fst (malloc m)" "\<And>i. m_ok (snd (malloc m)) i" "live (snd (malloc m)) = live m + 1"
    using Cons.prems(3) by (simp_all add: malloc_def Let_def)
  obtain q' where q': "push x q m = (mkernel_internal_succ, q', snd (malloc m))" "inv q'"
      "msgs q' = msgs q @ [x]" "cap q' = cap q"
    using push_ok [OF Cons.prems(1) _ ok(1), of x] Cons.prems(2) by auto
  with Cons.IH [OF q'(2) _ ok(2)] Cons.prems(2) ok(3) show ?case by simp
qed

lemma run_pops_msgs:
  assumes "inv q" and "run_pops pop n q m = (xs, q', m')"
  shows "xs = take n (msgs q) \<and> inv q' \<and> msgs q' = drop n (msgs q) \<and> live m' = live m - int (length xs)"
  using assms
proof (induction n arbitrary: q m xs)
  case 0
  then show ?case by simp
next
  case (Suc n)
  show ?case
  proof (cases "msgs q")
    case Nil
    then show ?thesis using pop_Nil [OF Suc.prems(1), of m] Suc.prems(2) by auto
  next
    case (Cons y ys)
    then obtain q1 where "pop q m = (mkernel_internal_succ, Some y, q1, free m)" "inv q1" "msgs q1 = ys"
      using pop_Cons [OF Suc.prems(1) Cons, of m] by auto
    moreover obtain zs where "run_pops pop n q1 (free m) = (zs, q', m')" "xs = y # zs"
      using Suc.prems(2) calculation by (auto split: prod.splits)
    ultimately show ?thesis using Suc.IH [of q1 "free m" zs] Cons by (simp add: free_def)
  qed
qed

lemma fifo:
  assumes "inv q" and "msgs q = []" and "length xs \<le> cap q" and "\<And>i. m_ok m i"
  shows "\<exists>q1 m1 q2 m2. run_pushes push xs q m = (q1, m1) \<and> msgs q1 = xs \<and> live m1 = live m + int (length xs) \<and>
    run_pops pop (length xs) q1 m1 = (xs, q2, m2) \<and> inv q2 \<and> msgs q2 = [] \<and> live m2 = live m"
proof -
  obtain q1 m1 where p: "run_pushes push xs q m = (q1, m1)" by fastforce
  obtain ys q2 m2 where r: "run_pops pop (length xs) q1 m1 = (ys, q2, m2)" by (metis prod_cases3)
  have "inv q1" "msgs q1 = xs" "live m1 = live m + int (length xs)"
    using run_pushes_msgs [of q xs m] run_pushes_live [of q xs m] assms p by simp_all
  then show ?thesis using p r run_pops_msgs [OF _ r] by simp
qed

end

interpretation mq: bounded_fifo queue_inv qmsgs qcap push_queue push_queue_head pop_queue get_queue
  by unfold_locales
    (simp_all add: queue_inv_bound push_full push_nomem push_ok push_head_full push_head_nomem
      push_head_ok pop_Nil pop_Cons get_Nil get_Cons)

section \<open>Properties\<close>

text \<open>
  C25: First in, first out: from an empty queue with room for them and a heap that does not run
  out, the messages pushed come back in the order in which they were pushed and leave the queue empty.
  Every element takes one block of the heap while it is queued, and once the elements are popped no
  block is lost.
\<close>

theorem queue_fifo:
  assumes "queue_inv q" and "qmsgs q = []" and "length xs \<le> qcap q" and "\<And>i. m_ok m i"
  shows "\<exists>q1 m1 q2 m2. run_pushes push_queue xs q m = (q1, m1) \<and> qmsgs q1 = xs \<and> live m1 = live m + int (length xs) \<and>
    run_pops pop_queue (length xs) q1 m1 = (xs, q2, m2) \<and> queue_inv q2 \<and> qmsgs q2 = [] \<and> live m2 = live m"
  using assms by (rule mq.fifo)

theorem queue_fifo_witness:
  "\<exists>q1 m1 q2 m2. run_pushes push_queue [1 :: nat, 2, 3] (snd (init_queue1 16 True)) \<lparr>m_ok = (\<lambda>_. True), m_calls = 0, live = 7\<rparr> = (q1, m1) \<and>
    live m1 = 10 \<and> run_pops pop_queue 3 q1 m1 = ([1, 2, 3], q2, m2) \<and> live m2 = 7"
  using queue_fifo [of "snd (init_queue1 16 True)" "[1 :: nat, 2, 3]" "\<lparr>m_ok = (\<lambda>_. True), m_calls = 0, live = 7\<rparr>"]
  by (simp add: numeral_3_eq_3) blast

text \<open>
  C3: A push refines appending to the list of messages: it appends exactly when there is room
  and memory, and otherwise returns the error and leaves the queue as it was; in every case the
  well-formedness of the linked list and the capacity are kept, and the heap grows by the one
  element that was added.
\<close>

theorem queue_push_refines:
  assumes "queue_inv q" and "push_queue x q m = (r, q', m')"
  shows "queue_inv q' \<and> qcap q' = qcap q \<and>
    (r = mkernel_internal_succ \<and> length (qmsgs q) < qcap q \<and> qmsgs q' = qmsgs q @ [x] \<and>
       live m' = live m + 1 \<or>
     r = mkernel_internal_queue_full \<and> length (qmsgs q) = qcap q \<and> q' = q \<and> m' = m \<or>
     r = mkernel_internal_malloc_error \<and> length (qmsgs q) < qcap q \<and> q' = q \<and> live m' = live m)"
  using assms by (rule mq.push_cases)

theorem queue_push_refines_witness:
  "qmsgs (fst (snd (push_queue (7 :: nat) (snd (init_queue1 2 True))
     \<lparr>m_ok = (\<lambda>_. True), m_calls = 0, live = 0\<rparr>))) = [7]"
proof -
  let ?q = "snd (init_queue1 2 True) :: nat queque"
  let ?m = "\<lparr>m_ok = (\<lambda>_. True), m_calls = 0, live = 0\<rparr>"
  obtain r q' m' where p: "push_queue 7 ?q ?m = (r, q', m')" by (cases "push_queue 7 ?q ?m")
  have "r = mkernel_internal_succ"
    using p by (auto simp: push_queue_def init_queue1_def malloc_def Let_def split: if_splits)
  then show ?thesis
    using queue_push_refines [OF init_queue1_inv(1) p] p by simp
qed

text \<open>
  A message put back at the head of a queue is the next one taken off it, and what was
  queued before stays behind it in order.
\<close>

theorem queue_push_head_then_pop:
  assumes "queue_inv q" and "length (qmsgs q) < qcap q" and "fst (malloc m)"
  shows "\<exists>q' q'' m''. push_queue_head x q m = (mkernel_internal_succ, q', snd (malloc m)) \<and>
           pop_queue q' (snd (malloc m)) = (mkernel_internal_succ, Some x, q'', m'') \<and>
           qmsgs q'' = qmsgs q \<and> queue_inv q''"
  using assms by (rule mq.push_head_then_pop)

theorem queue_push_head_then_pop_witness:
  "\<exists>q' q'' m''. push_queue_head (5 :: nat) (snd (init_queue1 1 True))
       \<lparr>m_ok = (\<lambda>_. True), m_calls = 0, live = 0\<rparr> =
       (mkernel_internal_succ, q', snd (malloc \<lparr>m_ok = (\<lambda>_. True), m_calls = 0, live = 0\<rparr>)) \<and>
     pop_queue q' (snd (malloc \<lparr>m_ok = (\<lambda>_. True), m_calls = 0, live = 0\<rparr>)) =
       (mkernel_internal_succ, Some 5, q'', m'') \<and>
     qmsgs q'' = qmsgs (snd (init_queue1 1 True)) \<and> queue_inv q''"
  by (rule queue_push_head_then_pop) (simp_all add: malloc_def Let_def)

text \<open>
  Destroying a queue frees each of its elements and each message block, once, follows no
  dangling pointer and leaves the all-zero queue.  (What the messages point to is not freed;
  the callers have to do that.)
\<close>

theorem queue_fini_frees:
  assumes "queue_inv q"
  shows "fst (fini_queue1 q m) = zero_queue \<and>
         live (snd (fini_queue1 q m)) = live m - 2 * int (length (qmsgs q))"
  using fini_queue1_spec [OF assms, of m] by (metis fst_conv)

theorem queue_fini_frees_witness:
  "live (snd (fini_queue1 (fst (run_pushes push_queue [1, 2 :: nat] (snd (init_queue1 4 True))
       \<lparr>m_ok = (\<lambda>_. True), m_calls = 0, live = 0\<rparr>)) \<lparr>m_ok = (\<lambda>_. True), m_calls = 2, live = 4\<rparr>)) = 0"
proof -
  have "queue_inv (fst (run_pushes push_queue [1, 2 :: nat] (snd (init_queue1 4 True))
       \<lparr>m_ok = (\<lambda>_. True), m_calls = 0, live = 0\<rparr>)) \<and>
     qmsgs (fst (run_pushes push_queue [1, 2 :: nat] (snd (init_queue1 4 True))
       \<lparr>m_ok = (\<lambda>_. True), m_calls = 0, live = 0\<rparr>)) = [1, 2]"
    using mq.run_pushes_msgs [of "snd (init_queue1 4 True)" "[1, 2 :: nat]"
        "\<lparr>m_ok = (\<lambda>_. True), m_calls = 0, live = 0\<rparr>"] by simp
  then show ?thesis by (simp add: queue_fini_frees)
qed

end
