(* ===== verification/Types.thy ===== *)
theory Types
  imports Queue
begin

text \<open>
  The data of the micro kernel: microkernel/inc/ezdev_sdk_kernel_struct.h and
  microkernel/src/sdk_kernel_def.h.  A C struct is a record whose fields carry a short prefix,
  a pointer to a heap buffer is a \<open>byte list option\<close> (the null pointer is \<open>None\<close>), a function
  pointer a \<open>nat option\<close> (the number names the user's function), a zero-filled character
  array the \<open>string\<close> it holds and a binary key the list of its bytes.
\<close>

section \<open>Sizes\<close>

definition version_max_len :: nat where "version_max_len = 32"
definition ezdev_sdk_extend_count :: nat where "ezdev_sdk_extend_count = 8"
definition ezdev_sdk_risk_control_cmd_max :: nat where "ezdev_sdk_risk_control_cmd_max = 64"
definition ezdev_sdk_queue_max :: u16 where "ezdev_sdk_queue_max = 16"
definition HUB_EXTEND_MAX_NUM :: nat where "HUB_EXTEND_MAX_NUM = 16"
definition ezdev_sdk_ip_max_len :: nat where "ezdev_sdk_ip_max_len = 64"
definition ezdev_sdk_name_len :: nat where "ezdev_sdk_name_len = 64"
definition ezdev_sdk_sessionkey_len :: nat where "ezdev_sdk_sessionkey_len = 16"
definition ezdev_sdk_masterkey_len :: nat where "ezdev_sdk_masterkey_len = 16"
definition ezdev_sdk_devid_len :: nat where "ezdev_sdk_devid_len = 32"
definition ezdev_sdk_recv_topic_len :: nat where "ezdev_sdk_recv_topic_len = 256"
definition ezdev_sdk_devserial_maxlen :: nat where "ezdev_sdk_devserial_maxlen = 72"
definition ezdev_sdk_verify_code_maxlen :: nat where "ezdev_sdk_verify_code_maxlen = 48"
definition ezdev_sdk_resource_id_len :: nat where "ezdev_sdk_resource_id_len = 64"
definition ezdev_sdk_max_publish_count :: u16 where "ezdev_sdk_max_publish_count = 2"
definition ezdev_sdk_das_default_keepaliveinterval :: u32 where
  "ezdev_sdk_das_default_keepaliveinterval = 30"
definition ezdev_sdk_send_buf_max :: u32 where "ezdev_sdk_send_buf_max = 1024 * 2"
definition ezdev_sdk_com_msg_max_buf :: u32 where "ezdev_sdk_com_msg_max_buf = 1024 * 16"

section \<open>Enumerations\<close>

datatype sdk_risk_control_flag = sdk_no_risk_control | sdk_risk_control
datatype sdk_entrance_state =
  sdk_entrance_normal | sdk_entrance_switchover | sdk_entrance_authcode_invalid
datatype sdk_state = sdk_idle0 | sdk_idle | sdk_start | sdk_stop | sdk_idle2
datatype sdk_cloud_cnt_state =
  sdk_cnt_unredirect | sdk_cnt_redirected | sdk_cnt_das_reged | sdk_cnt_das_break
| sdk_cnt_das_fast_reg | sdk_cnt_das_fast_reg_v3
datatype sdk_dev_auth_mode = sdk_dev_auth_sap | sdk_dev_auth_license
datatype sdk_v3_reg_status = sdk_v3_unreg | sdk_v3_reged
datatype QOS_T = QOS_T0 | QOS_T1 | QOS_T2
datatype extend_cb_type = extend_cb_start | extend_cb_stop | extend_cb_event
datatype err_tag_e = TAG_ACCESS | TAG_MSG_ACK | TAG_MSG_ACK_V3
datatype sdk_keyvalue_type = sdk_keyvalue_devid | sdk_keyvalue_masterkey
datatype sdk_kernel_event_type =
  sdk_kernel_event_online | sdk_kernel_event_break | sdk_kernel_event_switchover
| sdk_kernel_event_invaild_authcode | sdk_kernel_event_fast_reg_online
| sdk_kernel_event_runtime_err | sdk_kernel_event_reconnect_success
| sdk_kernel_event_heartbeat_interval_changed

text \<open>The extension modules of protocol 3.0; \<open>extend_id\<close> fields hold these numbers.\<close>

definition sdk_event :: u16 where "sdk_event = 0"
definition sdk_attribution :: u16 where "sdk_attribution = 1"
definition sdk_service :: u16 where "sdk_service = 2"
definition sdk_shadow :: u16 where "sdk_shadow = 3"
definition sdk_ota :: u16 where "sdk_ota = 4"

lemmas extend_ids = sdk_event_def sdk_attribution_def sdk_service_def sdk_shadow_def sdk_ota_def

section \<open>Messages\<close>

record ezdev_sdk_kernel_pubmsg =
  pm_msg_response :: u8
  pm_msg_qos :: QOS_T
  pm_msg_seq :: u32
  pm_msg_body :: "byte list option"
  pm_msg_body_len :: u32
  pm_msg_domain_id :: u32
  pm_msg_command_id :: u32
  pm_externel_ctx :: "byte list option"
  pm_externel_ctx_len :: u32
  pm_command_ver :: string

record ezdev_sdk_kernel_pubmsg_v3 =
  p3_msg_qos :: QOS_T
  p3_msg_response :: u8
  p3_msg_seq :: u32
  p3_msg_body_len :: u32
  p3_externel_ctx :: "byte list option"
  p3_externel_ctx_len :: u32
  p3_extend_id :: u16
  p3_msg_body :: "byte list option"
  p3_command_ver :: string
  p3_domain_id :: string
  p3_resource_id :: string
  p3_resource_type :: string
  p3_business_type :: string
  p3_identifier :: string
  p3_sub_serial :: string

text \<open>Signed 32-bit fields are kept as their two's complement bits.\<close>

record ezdev_sdk_kernel_submsg =
  sm_msg_seq :: u32
  sm_buf :: "byte list option"
  sm_buf_len :: u32
  sm_msg_domain_id :: u32
  sm_msg_command_id :: u32
  sm_command_ver :: string

record ezdev_sdk_kernel_submsg_v3 =
  s3_buf :: "byte list option"
  s3_msg_response :: u8
  s3_msg_seq :: u32
  s3_buf_len :: u32
  s3_extend_id :: u16
  s3_command_ver :: string
  s3_domain_id :: string
  s3_resource_id :: string
  s3_resource_type :: string
  s3_business_type :: string
  s3_identifier :: string
  s3_sub_serial :: string

record ezdev_sdk_kernel_pubmsg_exchange =
  max_send_count :: u16
  msg_conntext :: ezdev_sdk_kernel_pubmsg

record ezdev_sdk_kernel_pubmsg_exchange_v3 =
  max_send_count_v3 :: u16
  msg_conntext_v3 :: ezdev_sdk_kernel_pubmsg_v3

definition zero_submsg :: ezdev_sdk_kernel_submsg where
  "zero_submsg = \<lparr>sm_msg_seq = 0, sm_buf = None, sm_buf_len = 0, sm_msg_domain_id = 0,
                  sm_msg_command_id = 0, sm_command_ver = ''''\<rparr>"

definition zero_submsg_v3 :: ezdev_sdk_kernel_submsg_v3 where
  "zero_submsg_v3 = \<lparr>s3_buf = None, s3_msg_response = 0, s3_msg_seq = 0, s3_buf_len = 0,
     s3_extend_id = 0, s3_command_ver = '''', s3_domain_id = '''', s3_resource_id = '''',
     s3_resource_type = '''', s3_business_type = '''', s3_identifier = '''', s3_sub_serial = ''''\<rparr>"

section \<open>Events\<close>

record sdk_send_msg_ack_context =
  ak_msg_domain_id :: u32
  ak_msg_command_id :: u32
  ak_msg_seq :: u32
  ak_msg_qos :: QOS_T
  ak_externel_ctx :: "byte list option"
  ak_externel_ctx_len :: u32

record sdk_send_msg_ack_context_v3 =
  a3_msg_qos :: QOS_T
  a3_extend_id :: u16
  a3_msg_seq :: u32
  a3_externel_ctx :: "byte list option"
  a3_externel_ctx_len :: u32
  a3_domain_id :: string
  a3_resource_id :: string
  a3_resource_type :: string
  a3_business_type :: string
  a3_identifier :: string
  a3_sub_serial :: string

text \<open>What the untyped pointer \<open>err_ctx\<close> of a run-time error points to.\<close>

datatype err_ctx = Ack_ctx sdk_send_msg_ack_context | Ack_ctx_v3 sdk_send_msg_ack_context_v3

record sdk_runtime_err_context =
  err_tag :: err_tag_e
  err_code :: ezdev_sdk_kernel_error
  err_ctx :: "err_ctx option"

record sdk_sessionkey_context =
  sk_das_port :: u16
  sk_das_udp_port :: u16
  sk_das_ip :: string
  sk_lbs_ip :: string
  sk_session_key :: "byte list"
  sk_das_socket :: int
  sk_das_domain :: string
  sk_das_serverid :: string

record sdk_offline_context =
  of_last_error :: u32
  of_das_ip :: string
  of_lbs_ip :: string

record sdk_switchover_context =
  sw_das_udp_port :: u16
  sw_das_ip :: string
  sw_lbs_ip :: string
  sw_session_key :: "byte list"
  sw_lbs_domain :: string

text \<open>What the untyped pointer \<open>event_context\<close> of an event points to.\<close>

datatype event_ctx =
  Ctx_sessionkey sdk_sessionkey_context
| Ctx_offline sdk_offline_context
| Ctx_switchover sdk_switchover_context
| Ctx_runtime_err sdk_runtime_err_context
| Ctx_int int

record ezdev_sdk_kernel_event =
  event_type :: sdk_kernel_event_type
  event_context :: "event_ctx option"

record ezdev_sdk_kernel_inner_cb_notic =
  cb_type :: extend_cb_type
  cb_event :: ezdev_sdk_kernel_event

section \<open>Registrations\<close>

record ezdev_sdk_kernel_extend =
  ke_domain_id :: u32
  ke_extend_start :: "nat option"
  ke_extend_stop :: "nat option"
  ke_extend_data_route :: "nat option"
  ke_extend_event :: "nat option"
  ke_pUser :: "nat option"
  ke_extend_module_name :: string
  ke_extend_module_version :: string

record ezdev_sdk_kernel_extend_v3 =
  k3_extend_id :: u16
  k3_data_route :: "nat option"
  k3_extend_event :: "nat option"
  k3_pUser :: "nat option"
  k3_extend_module_name :: string

record ezdev_sdk_kernel_hub_extend =
  hub_extend_id :: u16
  hub_data_route :: "nat option"

record ezdev_sdk_kernel_common_module =
  cm_domain_id :: u32
  cm_data_handle :: "nat option"
  cm_pUser :: "nat option"

record ezdev_sdk_kernel_domain_info =
  domain_risk :: sdk_risk_control_flag
  cmd_risk_array :: "u32 list"
  kernel_extend :: ezdev_sdk_kernel_extend

text \<open>What \<open>memset\<close> to zero leaves in the registration tables.\<close>

definition zero_extend :: ezdev_sdk_kernel_extend where
  "zero_extend = \<lparr>ke_domain_id = 0, ke_extend_start = None, ke_extend_stop = None,
     ke_extend_data_route = None, ke_extend_event = None, ke_pUser = None,
     ke_extend_module_name = '''', ke_extend_module_version = ''''\<rparr>"

definition zero_domain_info :: ezdev_sdk_kernel_domain_info where
  "zero_domain_info = \<lparr>domain_risk = sdk_no_risk_control,
     cmd_risk_array = replicate ezdev_sdk_risk_control_cmd_max 0, kernel_extend = zero_extend\<rparr>"

definition zero_extend_v3 :: ezdev_sdk_kernel_extend_v3 where
  "zero_extend_v3 = \<lparr>k3_extend_id = 0, k3_data_route = None, k3_extend_event = None,
     k3_pUser = None, k3_extend_module_name = ''''\<rparr>"

definition zero_hub_extend :: ezdev_sdk_kernel_hub_extend where
  "zero_hub_extend = \<lparr>hub_extend_id = 0, hub_data_route = None\<rparr>"

section \<open>The kernel object\<close>

record dev_basic_info =
  dev_access_mode :: u16
  dev_auth_mode :: sdk_dev_auth_mode
  dev_status :: u16
  dev_subserial :: string
  dev_verification_code :: string
  dev_serial :: string
  dev_firmwareversion :: string
  dev_type :: string
  dev_typedisplay :: string
  dev_mac :: string
  dev_nickname :: string
  dev_firmwareidentificationcode :: string
  dev_oeminfo :: u32

record ezdev_server_info =
  server_name :: string
  server_ip :: string
  server_port :: u16

record das_info =
  das_port :: u16
  das_udp_port :: u16
  das_address :: string
  das_domain :: string
  das_serverid :: string

record kernel_das_info =
  kd_bLightreg :: int
  kd_das_port :: u16
  kd_das_udp_port :: u16
  kd_das_socket :: int
  kd_das_address :: string
  kd_das_domain :: string
  kd_das_serverid :: string
  kd_session_key :: "byte list"

record ezdev_sdk_kernel =
  lbs_redirect_times :: u8
  das_retry_times :: u8
  secretkey_applied :: bool
  secretkey_interval :: u16
  secretkey_duration :: u32
  hub_reg_status :: u8
  v3_reg_status :: sdk_v3_reg_status
  entr_state :: sdk_entrance_state
  my_state :: sdk_state
  cnt_state :: sdk_cloud_cnt_state
  master_key :: "byte list"
  dev_id :: "byte list"
  session_key :: "byte list"
  das_keepalive_interval :: u32
  dev_info :: dev_basic_info
  server_info :: ezdev_server_info
  redirect_das_info :: das_info
  szMainVersion :: string
  reg_mode :: u8
  access_risk :: sdk_risk_control_flag

definition zero_das_info :: das_info where
  "zero_das_info = \<lparr>das_port = 0, das_udp_port = 0, das_address = '''', das_domain = '''',
     das_serverid = ''''\<rparr>"

definition zero_dev_info :: dev_basic_info where
  "zero_dev_info = \<lparr>dev_access_mode = 0, dev_auth_mode = sdk_dev_auth_sap, dev_status = 0,
     dev_subserial = '''', dev_verification_code = '''', dev_serial = '''',
     dev_firmwareversion = '''', dev_type = '''', dev_typedisplay = '''', dev_mac = '''',
     dev_nickname = '''', dev_firmwareidentificationcode = '''', dev_oeminfo = 0\<rparr>"

definition zero_kernel :: ezdev_sdk_kernel where
  "zero_kernel = \<lparr>lbs_redirect_times = 0, das_retry_times = 0, secretkey_applied = False,
     secretkey_interval = 0, secretkey_duration = 0, hub_reg_status = 0,
     v3_reg_status = sdk_v3_unreg, entr_state = sdk_entrance_normal, my_state = sdk_idle0,
     cnt_state = sdk_cnt_unredirect, master_key = replicate ezdev_sdk_masterkey_len 0,
     dev_id = replicate ezdev_sdk_devid_len 0,
     session_key = replicate ezdev_sdk_sessionkey_len 0, das_keepalive_interval = 0,
     dev_info = zero_dev_info,
     server_info = \<lparr>server_name = '''', server_ip = '''', server_port = 0\<rparr>,
     redirect_das_info = zero_das_info, szMainVersion = '''', reg_mode = 0,
     access_risk = sdk_no_risk_control\<rparr>"

end
