(* ===== verification/Json.thy ===== *)
theory Json
  imports Prelude
begin

text \<open>
  The trees of microkernel/src/bscJSON.c and the accessors the kernel calls on them.  Every
  node is a \<open>bscJSON\<close> struct with a type, a \<open>valueint\<close>, a \<open>valuedouble\<close>, a \<open>valuestring\<close>, and
  a list of children, each with its member name (\<open>string\<close>, null for an array element).
  \<open>JNumber i d\<close> carries \<open>valueint\<close> and the integral part of \<open>valuedouble\<close>; the parser
  saturates the first at the bounds of \<open>int\<close>.  A null pointer is \<open>None\<close>.

  The kernel reaches the parser and the printer through parameters (see World); \<open>Bsc_Kernel\<close> puts the
  routines of bscJSON.c in their place.
\<close>

datatype bscJSON =
  JNull | JFalse | JTrue | JNumber int int | JString string
| JArray "bscJSON list" | JObject "(string \<times> bscJSON) list"

definition is_Number :: "bscJSON \<Rightarrow> bool" where
  "is_Number j = (case j of JNumber _ _ \<Rightarrow> True | _ \<Rightarrow> False)"

definition is_String :: "bscJSON \<Rightarrow> bool" where
  "is_String j = (case j of JString _ \<Rightarrow> True | _ \<Rightarrow> False)"

definition valueint :: "bscJSON \<Rightarrow> int" where
  "valueint j = (case j of JNumber i _ \<Rightarrow> i | JTrue \<Rightarrow> 1 | _ \<Rightarrow> 0)"

definition valuedouble :: "bscJSON \<Rightarrow> int" where
  "valuedouble j = (case j of JNumber _ d \<Rightarrow> d | _ \<Rightarrow> 0)"

definition valuestring :: "bscJSON \<Rightarrow> string option" where
  "valuestring j = (case j of JString s \<Rightarrow> Some s | _ \<Rightarrow> None)"

definition children :: "bscJSON \<Rightarrow> (string option \<times> bscJSON) list" where
  "children j = (case j of JArray js \<Rightarrow> map (\<lambda>x. (None, x)) js
                         | JObject ms \<Rightarrow> map (\<lambda>(k, x). (Some k, x)) ms | _ \<Rightarrow> [])"

definition tolower :: "char \<Rightarrow> char" where
  "tolower c = (if 65 \<le> (of_char c :: nat) \<and> (of_char c :: nat) \<le> 90
                then char_of (of_char c + 32 :: nat) else c)"

definition case_insensitive_strcmp :: "string \<Rightarrow> string option \<Rightarrow> bool" where
  "case_insensitive_strcmp s t = (case t of None \<Rightarrow> False | Some t' \<Rightarrow> map tolower s = map tolower t')"

text \<open>
  The number of children of a node, the child at an index and the first child of a given
  name, upper and lower case not distinguished.
\<close>

definition bscJSON_GetArraySize :: "bscJSON option \<Rightarrow> nat" where
  "bscJSON_GetArraySize a = (case a of None \<Rightarrow> 0 | Some j \<Rightarrow> length (children j))"

definition bscJSON_GetArrayItem :: "bscJSON option \<Rightarrow> nat \<Rightarrow> (string option \<times> bscJSON) option" where
  "bscJSON_GetArrayItem a i = (case a of None \<Rightarrow> None | Some j \<Rightarrow>
     if i < length (children j) then Some (children j ! i) else None)"

definition bscJSON_GetObjectItem :: "bscJSON option \<Rightarrow> string \<Rightarrow> bscJSON option" where
  "bscJSON_GetObjectItem a name = (case a of None \<Rightarrow> None | Some j \<Rightarrow>
     map_option snd (List.find (\<lambda>(k, x). case_insensitive_strcmp name k) (children j)))"

lemma valuestring_Some: "valuestring j = Some s \<longleftrightarrow> j = JString s"
  by (cases j) (simp_all add: valuestring_def)

lemma is_String_iff: "is_String j \<longleftrightarrow> valuestring j \<noteq> None"
  by (cases j) (simp_all add: is_String_def valuestring_def)

lemma bscJSON_GetObjectItem_None [simp]: "bscJSON_GetObjectItem None s = None"
  by (simp add: bscJSON_GetObjectItem_def)

lemma GetArrayItem_less:
  "i < bscJSON_GetArraySize (Some j) \<Longrightarrow> bscJSON_GetArrayItem (Some j) i = Some (children j ! i)"
  by (simp add: bscJSON_GetArraySize_def bscJSON_GetArrayItem_def)

lemma GetObjectItem_hit [simp]:
  "bscJSON_GetObjectItem (Some (JObject ((k, x) # ms))) k = Some x"
  by (simp add: bscJSON_GetObjectItem_def children_def case_insensitive_strcmp_def)

lemma GetObjectItem_miss:
  "map tolower k' \<noteq> map tolower k \<Longrightarrow>
   bscJSON_GetObjectItem (Some (JObject ((k, x) # ms))) k' =
   bscJSON_GetObjectItem (Some (JObject ms)) k'"
  by (simp add: bscJSON_GetObjectItem_def children_def case_insensitive_strcmp_def)

end
