(* ===== verification/World.thy ===== *)
theory World
  imports Types Json
begin

text \<open>
  The state of the program: the global variables of the micro kernel's C files, the heap
  counter, and the environment.  Everything the sources call but do not define (the platform
  handle's functions, the user's callbacks, the MQTT client, the cipher and the JSON and XML
  libraries) answers through \<open>env\<close>; an answer may depend on \<open>tick\<close>, which counts the calls
  made so far, so that the same call may answer differently each time.  \<open>trace\<close> lists, newest
  first, what the program did to its environment.  \<open>fault\<close> records a step the C standard
  leaves undefined (a call through a null pointer, a read past a block).
\<close>

section \<open>The environment\<close>

record env =
  e_mutex :: "nat \<Rightarrow> bool"
  e_consume :: "nat \<Rightarrow> nat"
  e_isexpired :: "nat \<Rightarrow> u32 \<Rightarrow> bool"
  e_timer_expired :: "nat \<Rightarrow> u32 \<Rightarrow> bool"
  e_net_connect :: "nat \<Rightarrow> int"
  e_net_last_error :: "nat \<Rightarrow> int"
  e_mqtt_connect :: "nat \<Rightarrow> int"
  e_mqtt_subscribe :: "nat \<Rightarrow> int"
  e_mqtt_unsubscribe :: "nat \<Rightarrow> int"
  e_mqtt_publish :: "nat \<Rightarrow> int"
  e_mqtt_disconnect :: "nat \<Rightarrow> int"
  e_mqtt_yield :: "nat \<Rightarrow> int \<times> (bool \<times> string \<times> byte list) list"
  e_common_handle :: "nat \<Rightarrow> ezdev_sdk_kernel_submsg \<Rightarrow> int"
  e_json_create :: "nat \<Rightarrow> bool"
  e_json_print_ok :: "nat \<Rightarrow> bool"
  e_json_print :: "bscJSON \<Rightarrow> string"
  e_json_parse :: "string \<Rightarrow> bscJSON option"
  e_xml_child_txt :: "byte list \<Rightarrow> string \<Rightarrow> string option option"
  e_xml_offline :: "string \<Rightarrow> string"
  e_aes_setkey :: "nat \<Rightarrow> int"
  e_aes_crypt :: "nat \<Rightarrow> int"
  e_aes_enc :: "byte list \<Rightarrow> byte list \<Rightarrow> byte list \<Rightarrow> byte list"
  e_aes_dec :: "byte list \<Rightarrow> byte list \<Rightarrow> byte list \<Rightarrow> byte list"
  e_net_create :: "nat \<Rightarrow> bool"
  e_lbs_connect :: "nat \<Rightarrow> int \<times> string"
  e_net_read :: "nat \<Rightarrow> nat \<Rightarrow> int \<times> byte list"
  e_net_write :: "nat \<Rightarrow> int"
  e_rand :: "nat \<Rightarrow> nat"
  e_md5 :: "byte list \<Rightarrow> byte list"
  e_sha384 :: "byte list \<Rightarrow> byte list"
  e_hmac_code :: "nat \<Rightarrow> int"
  e_hmac_sha384 :: "byte list \<Rightarrow> byte list \<Rightarrow> byte list"
  e_ecp_group_load :: "nat \<Rightarrow> int"
  e_ecdh_make_public :: "nat \<Rightarrow> int \<times> byte list"
  e_ecdh_read_public :: "nat \<Rightarrow> byte list \<Rightarrow> int"
  e_ecdh_calc_secret :: "nat \<Rightarrow> int \<times> byte list"

section \<open>What the program does to its environment\<close>

datatype action =
  Do_extend_start nat "nat option"
| Do_extend_stop nat "nat option"
| Do_extend_event nat ezdev_sdk_kernel_event "nat option"
| Do_event_notice nat ezdev_sdk_kernel_event
| Do_data_route nat ezdev_sdk_kernel_submsg "nat option"
| Do_data_route_v3 nat ezdev_sdk_kernel_submsg_v3 "nat option"
| Do_hub_data_route nat ezdev_sdk_kernel_submsg_v3
| Do_common_handle nat ezdev_sdk_kernel_submsg "nat option"
| Do_sleep nat
| Do_countdown
| Do_net_connect string u16
| Do_mqtt_connect bool string string "byte list"
| Do_mqtt_disconnect
| Do_net_disconnect
| Do_publish string QOS_T "byte list"
| Do_subscribe bool string
| Do_unsubscribe string
| Do_lbs_connect string
| Do_lbs_close
| Do_lbs_write "byte list"
| Do_key_value_save sdk_keyvalue_type "byte list"
| Do_curing_data_save string

section \<open>The state\<close>

record world =
  g_ezdev_sdk_kernel :: ezdev_sdk_kernel
  g_queue_submsg :: "ezdev_sdk_kernel_submsg queque"
  g_queue_pubmsg_exchange :: "ezdev_sdk_kernel_pubmsg_exchange queque"
  g_queue_inner_cb_notic :: "ezdev_sdk_kernel_inner_cb_notic queque"
  g_queue_submsg_v3 :: "ezdev_sdk_kernel_submsg_v3 queque"
  g_queue_pubmsg_exchange_v3 :: "ezdev_sdk_kernel_pubmsg_exchange_v3 queque"
  g_kernel_domains :: "ezdev_sdk_kernel_domain_info list"
  g_kernel_domains_count :: u16
  g_kernel_extend :: "ezdev_sdk_kernel_extend_v3 list"
  g_kernel_extend_count :: u16
  g_kernel_hub_extend :: "ezdev_sdk_kernel_hub_extend list"
  g_kernel_event_notice_cb :: "nat option"
  g_common_module :: ezdev_sdk_kernel_common_module
  g_das_transport_seq :: u32
  g_binding_nic :: string
  g_is_reboot :: bool
  g_DasClient_keepAliveInterval :: u32
  heap :: mem
  env :: env
  tick :: nat
  trace :: "action list"
  fault :: bool

text \<open>The state when the program starts: the initial values of the C globals.\<close>

definition boot_world :: "env \<Rightarrow> world" where
  "boot_world e = \<lparr>g_ezdev_sdk_kernel = zero_kernel,
     g_queue_submsg = zero_queue, g_queue_pubmsg_exchange = zero_queue,
     g_queue_inner_cb_notic = zero_queue, g_queue_submsg_v3 = zero_queue,
     g_queue_pubmsg_exchange_v3 = zero_queue,
     g_kernel_domains = replicate ezdev_sdk_extend_count zero_domain_info,
     g_kernel_domains_count = 0,
     g_kernel_extend = replicate ezdev_sdk_extend_count zero_extend_v3,
     g_kernel_extend_count = 0,
     g_kernel_hub_extend = replicate HUB_EXTEND_MAX_NUM zero_hub_extend,
     g_kernel_event_notice_cb = None,
     g_common_module = \<lparr>cm_domain_id = 0, cm_data_handle = None, cm_pUser = None\<rparr>,
     g_das_transport_seq = 0, g_binding_nic = '''', g_is_reboot = True,
     g_DasClient_keepAliveInterval = 0,
     heap = \<lparr>m_ok = (\<lambda>_. True), m_calls = 0, live = 0\<rparr>,
     env = e, tick = 0, trace = [], fault = False\<rparr>"

text \<open>
  An environment for the concrete runs of the witnesses: every call succeeds at once, the
  cipher is the identity and no JSON or XML text parses.
\<close>

definition calm_env :: env where
  "calm_env = \<lparr>e_mutex = (\<lambda>_. True), e_consume = (\<lambda>_. 0), e_isexpired = (\<lambda>_ _. True),
     e_timer_expired = (\<lambda>_ _. False), e_net_connect = (\<lambda>_. 0), e_net_last_error = (\<lambda>_. 0),
     e_mqtt_connect = (\<lambda>_. 0), e_mqtt_subscribe = (\<lambda>_. 0), e_mqtt_unsubscribe = (\<lambda>_. 0),
     e_mqtt_publish = (\<lambda>_. 0), e_mqtt_disconnect = (\<lambda>_. 0), e_mqtt_yield = (\<lambda>_. (0, [])),
     e_common_handle = (\<lambda>_ _. 1), e_json_create = (\<lambda>_. True), e_json_print_ok = (\<lambda>_. True),
     e_json_print = (\<lambda>_. ''{}''), e_json_parse = (\<lambda>_. None), e_xml_child_txt = (\<lambda>_ _. None),
     e_xml_offline = (\<lambda>s. s), e_aes_setkey = (\<lambda>_. 0), e_aes_crypt = (\<lambda>_. 0),
     e_aes_enc = (\<lambda>_ _ b. b), e_aes_dec = (\<lambda>_ _ b. b), e_net_create = (\<lambda>_. True),
     e_lbs_connect = (\<lambda>_. (0, '''')), e_net_read = (\<lambda>_ n. (0, replicate n 0)), e_net_write = (\<lambda>_. 0),
     e_rand = (\<lambda>_. 0), e_md5 = (\<lambda>_. replicate 16 1), e_sha384 = (\<lambda>_. replicate 48 1),
     e_hmac_code = (\<lambda>_. 0), e_hmac_sha384 = (\<lambda>_ _. replicate 48 1), e_ecp_group_load = (\<lambda>_. 0),
     e_ecdh_make_public = (\<lambda>_. (0, replicate 98 1)), e_ecdh_read_public = (\<lambda>_ _. 0),
     e_ecdh_calc_secret = (\<lambda>_. (0, replicate 48 1))\<rparr>"

definition act :: "action \<Rightarrow> world \<Rightarrow> world" where
  "act a w = w\<lparr>trace := a # trace w\<rparr>"

definition ask :: "(env \<Rightarrow> nat \<Rightarrow> 'a) \<Rightarrow> world \<Rightarrow> 'a \<times> world" where
  "ask f w = (f (env w) (tick w), w\<lparr>tick := Suc (tick w)\<rparr>)"

definition undefined_behaviour :: "world \<Rightarrow> world" where
  "undefined_behaviour w = w\<lparr>fault := True\<rparr>"

text \<open>The kernel object is updated in place through a pointer to the global.\<close>

definition upd_kernel :: "(ezdev_sdk_kernel \<Rightarrow> ezdev_sdk_kernel) \<Rightarrow> world \<Rightarrow> world" where
  "upd_kernel f w = w\<lparr>g_ezdev_sdk_kernel := f (g_ezdev_sdk_kernel w)\<rparr>"

abbreviation cnt :: "world \<Rightarrow> sdk_cloud_cnt_state" where
  "cnt w \<equiv> cnt_state (g_ezdev_sdk_kernel w)"

definition w_malloc :: "world \<Rightarrow> bool \<times> world" where
  "w_malloc w = (case malloc (heap w) of (ok, m) \<Rightarrow> (ok, w\<lparr>heap := m\<rparr>))"

definition w_free :: "world \<Rightarrow> world" where
  "w_free w = w\<lparr>heap := free (heap w)\<rparr>"

definition w_free_opt :: "'a option \<Rightarrow> world \<Rightarrow> world" where
  "w_free_opt p w = w\<lparr>heap := free_opt p (heap w)\<rparr>"

section \<open>The queue macros\<close>

text \<open>
  The macros of ezdev_sdk_kerne_queuel.h, over the global variable \<open>g_queue_<msg>\<close> given by its
  selector and its update, and their expansions for the message types.  Every function of the
  family takes the mutex of its queue first; the argument of the macros that create a queue is
  the platform's answer to the creation of the mutex.
\<close>

type_synonym 'm qvar = "('m queque \<Rightarrow> 'm queque) \<Rightarrow> world \<Rightarrow> world"

definition QUEUE_INIT ::
  "'m qvar \<Rightarrow> u16 \<Rightarrow> world \<Rightarrow> mkernel_internal_error \<times> world" where
  "QUEUE_INIT upd max_size w = (case ask e_mutex w of (ok, w1) \<Rightarrow>
     (case init_queue1 max_size ok of (r, q) \<Rightarrow> (r, upd (\<lambda>_. q) w1)))"

definition QUEUE_FINI :: "(world \<Rightarrow> 'm queque) \<Rightarrow> 'm qvar \<Rightarrow> world \<Rightarrow> world" where
  "QUEUE_FINI sel upd w = (case fini_queue1 (sel w) (heap w) of
     (q, m) \<Rightarrow> (upd (\<lambda>_. q) w)\<lparr>heap := m\<rparr>)"

definition QUEUE_POP ::
  "(world \<Rightarrow> 'm queque) \<Rightarrow> 'm qvar \<Rightarrow> world \<Rightarrow> mkernel_internal_error \<times> 'm option \<times> world" where
  "QUEUE_POP sel upd w = (case pop_queue (sel w) (heap w) of
     (r, x, q, m) \<Rightarrow> (r, x, (upd (\<lambda>_. q) w)\<lparr>heap := m\<rparr>))"

definition QUEUE_GET ::
  "(world \<Rightarrow> 'm queque) \<Rightarrow> 'm qvar \<Rightarrow> world \<Rightarrow> mkernel_internal_error \<times> 'm option \<times> world" where
  "QUEUE_GET sel upd w = (case get_queue (sel w) of (r, x, q) \<Rightarrow> (r, x, upd (\<lambda>_. q) w))"

definition QUEUE_PUSH ::
  "(world \<Rightarrow> 'm queque) \<Rightarrow> 'm qvar \<Rightarrow> 'm \<Rightarrow> world \<Rightarrow> mkernel_internal_error \<times> world" where
  "QUEUE_PUSH sel upd x w = (case push_queue x (sel w) (heap w) of
     (r, q, m) \<Rightarrow> (r, (upd (\<lambda>_. q) w)\<lparr>heap := m\<rparr>))"

definition QUEUE_PUSH_HEAD ::
  "(world \<Rightarrow> 'm queque) \<Rightarrow> 'm qvar \<Rightarrow> 'm \<Rightarrow> world \<Rightarrow> mkernel_internal_error \<times> world" where
  "QUEUE_PUSH_HEAD sel upd x w = (case push_queue_head x (sel w) (heap w) of
     (r, q, m) \<Rightarrow> (r, (upd (\<lambda>_. q) w)\<lparr>heap := m\<rparr>))"

definition init_queue_submsg where
  "init_queue_submsg = QUEUE_INIT g_queue_submsg_update"
definition init_queue_pubmsg_exchange where
  "init_queue_pubmsg_exchange = QUEUE_INIT g_queue_pubmsg_exchange_update"
definition init_queue_inner_cb_notic where
  "init_queue_inner_cb_notic = QUEUE_INIT g_queue_inner_cb_notic_update"
definition init_queue_submsg_v3 where
  "init_queue_submsg_v3 = QUEUE_INIT g_queue_submsg_v3_update"
definition init_queue_pubmsg_exchange_v3 where
  "init_queue_pubmsg_exchange_v3 = QUEUE_INIT g_queue_pubmsg_exchange_v3_update"

definition fini_queue_submsg where
  "fini_queue_submsg = QUEUE_FINI g_queue_submsg g_queue_submsg_update"
definition fini_queue_pubmsg_exchange where
  "fini_queue_pubmsg_exchange = QUEUE_FINI g_queue_pubmsg_exchange g_queue_pubmsg_exchange_update"
definition fini_queue_inner_cb_notic where
  "fini_queue_inner_cb_notic = QUEUE_FINI g_queue_inner_cb_notic g_queue_inner_cb_notic_update"
definition fini_queue_submsg_v3 where
  "fini_queue_submsg_v3 = QUEUE_FINI g_queue_submsg_v3 g_queue_submsg_v3_update"
definition fini_queue_pubmsg_exchange_v3 where
  "fini_queue_pubmsg_exchange_v3 =
     QUEUE_FINI g_queue_pubmsg_exchange_v3 g_queue_pubmsg_exchange_v3_update"

definition pop_queue_submsg where
  "pop_queue_submsg = QUEUE_POP g_queue_submsg g_queue_submsg_update"
definition pop_queue_pubmsg_exchange where
  "pop_queue_pubmsg_exchange = QUEUE_POP g_queue_pubmsg_exchange g_queue_pubmsg_exchange_update"
definition pop_queue_inner_cb_notic where
  "pop_queue_inner_cb_notic = QUEUE_POP g_queue_inner_cb_notic g_queue_inner_cb_notic_update"
definition pop_queue_submsg_v3 where
  "pop_queue_submsg_v3 = QUEUE_POP g_queue_submsg_v3 g_queue_submsg_v3_update"
definition pop_queue_pubmsg_exchange_v3 where
  "pop_queue_pubmsg_exchange_v3 =
     QUEUE_POP g_queue_pubmsg_exchange_v3 g_queue_pubmsg_exchange_v3_update"
definition get_queue_pubmsg_exchange where
  "get_queue_pubmsg_exchange = QUEUE_GET g_queue_pubmsg_exchange g_queue_pubmsg_exchange_update"

definition push_queue_submsg where
  "push_queue_submsg = QUEUE_PUSH g_queue_submsg g_queue_submsg_update"
definition push_queue_pubmsg_exchange where
  "push_queue_pubmsg_exchange = QUEUE_PUSH g_queue_pubmsg_exchange g_queue_pubmsg_exchange_update"
definition push_queue_inner_cb_notic where
  "push_queue_inner_cb_notic = QUEUE_PUSH g_queue_inner_cb_notic g_queue_inner_cb_notic_update"
definition push_queue_submsg_v3 where
  "push_queue_submsg_v3 = QUEUE_PUSH g_queue_submsg_v3 g_queue_submsg_v3_update"
definition push_queue_pubmsg_exchange_v3 where
  "push_queue_pubmsg_exchange_v3 =
     QUEUE_PUSH g_queue_pubmsg_exchange_v3 g_queue_pubmsg_exchange_v3_update"
definition push_queue_head_pubmsg_exchange where
  "push_queue_head_pubmsg_exchange =
     QUEUE_PUSH_HEAD g_queue_pubmsg_exchange g_queue_pubmsg_exchange_update"
definition push_queue_head_pubmsg_exchange_v3 where
  "push_queue_head_pubmsg_exchange_v3 =
     QUEUE_PUSH_HEAD g_queue_pubmsg_exchange_v3 g_queue_pubmsg_exchange_v3_update"

lemmas queue_funs =
  init_queue_submsg_def init_queue_pubmsg_exchange_def init_queue_inner_cb_notic_def
  init_queue_submsg_v3_def init_queue_pubmsg_exchange_v3_def
  fini_queue_submsg_def fini_queue_pubmsg_exchange_def fini_queue_inner_cb_notic_def
  fini_queue_submsg_v3_def fini_queue_pubmsg_exchange_v3_def
  pop_queue_submsg_def pop_queue_pubmsg_exchange_def pop_queue_inner_cb_notic_def
  pop_queue_submsg_v3_def pop_queue_pubmsg_exchange_v3_def get_queue_pubmsg_exchange_def
  push_queue_submsg_def push_queue_pubmsg_exchange_def push_queue_inner_cb_notic_def
  push_queue_submsg_v3_def push_queue_pubmsg_exchange_v3_def
  push_queue_head_pubmsg_exchange_def push_queue_head_pubmsg_exchange_v3_def

section \<open>A queue variable of the state\<close>

text \<open>
  What the clients of a queue variable may use: the laws of its selector and update.  The
  macros then act on the list of its messages and on the heap, and on nothing else.
\<close>

locale queue_var =
  fixes sel :: "world \<Rightarrow> 'm queque" and upd :: "'m qvar"
  assumes sel_upd: "sel (upd f w) = f (sel w)"
    and upd_sel: "upd (\<lambda>_. sel w) w = w"
    and heap_upd: "heap (upd f w) = heap w"
    and sel_heap: "sel (w\<lparr>heap := m\<rparr>) = sel w"
begin

lemma heap_id: "(upd f w)\<lparr>heap := heap w\<rparr> = upd f w"
proof -
  have "(upd f w)\<lparr>heap := heap (upd f w)\<rparr> = upd f w" by simp
  then show ?thesis by (simp only: heap_upd)
qed

lemma qpop_Nil:
  assumes "queue_inv (sel w)" and "qmsgs (sel w) = []"
  shows "\<exists>q. QUEUE_POP sel upd w = (mkernel_internal_queue_empty, None, upd (\<lambda>_. q) w) \<and>
             queue_inv q \<and> qmsgs q = [] \<and> qcap q = qcap (sel w)"
  using mq.pop_Nil [OF assms, of "heap w"] by (auto simp: QUEUE_POP_def heap_id)

lemma qpop_Cons:
  assumes "queue_inv (sel w)" and "qmsgs (sel w) = x # xs"
  shows "\<exists>q. QUEUE_POP sel upd w =
               (mkernel_internal_succ, Some x, (upd (\<lambda>_. q) w)\<lparr>heap := free (heap w)\<rparr>) \<and>
             queue_inv q \<and> qmsgs q = xs \<and> qcap q = qcap (sel w)"
  using mq.pop_Cons [OF assms, of "heap w"] by (auto simp: QUEUE_POP_def heap_id)

lemma push_cases:
  assumes "queue_inv (sel w)"
  obtains q m where
    "QUEUE_PUSH sel upd x w = (mkernel_internal_succ, (upd (\<lambda>_. q) w)\<lparr>heap := m\<rparr>)"
    "queue_inv q" "qmsgs q = qmsgs (sel w) @ [x]" "qcap q = qcap (sel w)"
    "length (qmsgs (sel w)) < qcap (sel w)" "live m = live (heap w) + 1"
  | "QUEUE_PUSH sel upd x w = (mkernel_internal_queue_full, w)"
    "length (qmsgs (sel w)) = qcap (sel w)"
  | m where "QUEUE_PUSH sel upd x w = (mkernel_internal_malloc_error, w\<lparr>heap := m\<rparr>)"
    "live m = live (heap w)" "length (qmsgs (sel w)) < qcap (sel w)"
proof -
  obtain r q m where p: "push_queue x (sel w) (heap w) = (r, q, m)"
    by (cases "push_queue x (sel w) (heap w)")
  have up: "(upd (\<lambda>_. sel w) w)\<lparr>heap := m\<rparr> = w\<lparr>heap := m\<rparr>" for m
    by (simp add: upd_sel)
  note c = mq.push_cases [OF assms p]
  consider "r = mkernel_internal_succ" | "r = mkernel_internal_queue_full"
    | "r = mkernel_internal_malloc_error"
    using c by auto
  then show thesis
  proof cases
    case 1
    then show ?thesis using c p by (intro that(1) [of m q]) (simp_all add: QUEUE_PUSH_def)
  next
    case 2
    then show ?thesis using c p up [of "heap w"] by (intro that(2)) (simp_all add: QUEUE_PUSH_def)
  next
    case 3
    then show ?thesis using c p up [of m] by (intro that(3) [of m]) (simp_all add: QUEUE_PUSH_def)
  qed
qed

lemma push_head_cases:
  assumes "queue_inv (sel w)"
  obtains q m where
    "QUEUE_PUSH_HEAD sel upd x w = (mkernel_internal_succ, (upd (\<lambda>_. q) w)\<lparr>heap := m\<rparr>)"
    "queue_inv q" "qmsgs q = x # qmsgs (sel w)" "qcap q = qcap (sel w)"
    "length (qmsgs (sel w)) < qcap (sel w)" "live m = live (heap w) + 1"
  | "QUEUE_PUSH_HEAD sel upd x w = (mkernel_internal_queue_full, w)"
    "length (qmsgs (sel w)) = qcap (sel w)"
  | m where "QUEUE_PUSH_HEAD sel upd x w = (mkernel_internal_malloc_error, w\<lparr>heap := m\<rparr>)"
    "live m = live (heap w)" "length (qmsgs (sel w)) < qcap (sel w)"
proof -
  obtain r q m where p: "push_queue_head x (sel w) (heap w) = (r, q, m)"
    by (cases "push_queue_head x (sel w) (heap w)")
  have up: "(upd (\<lambda>_. sel w) w)\<lparr>heap := m\<rparr> = w\<lparr>heap := m\<rparr>" for m
    by (simp add: upd_sel)
  note c = mq.push_head_cases [OF assms p]
  consider "r = mkernel_internal_succ" | "r = mkernel_internal_queue_full"
    | "r = mkernel_internal_malloc_error"
    using c by auto
  then show thesis
  proof cases
    case 1
    then show ?thesis using c p by (intro that(1) [of m q]) (simp_all add: QUEUE_PUSH_HEAD_def)
  next
    case 2
    then show ?thesis using c p up [of "heap w"] by (intro that(2)) (simp_all add: QUEUE_PUSH_HEAD_def)
  next
    case 3
    then show ?thesis using c p up [of m] by (intro that(3) [of m]) (simp_all add: QUEUE_PUSH_HEAD_def)
  qed
qed

lemma fini:
  assumes "queue_inv (sel w)"
  shows "\<exists>m. QUEUE_FINI sel upd w = (upd (\<lambda>_. zero_queue) w)\<lparr>heap := m\<rparr> \<and>
             live m = live (heap w) - 2 * int (length (qmsgs (sel w)))"
  using fini_queue1_spec [OF assms, of "heap w"]
  by (auto simp: QUEUE_FINI_def case_prod_beta split: prod.split) (metis fst_conv snd_conv)

end

interpretation submsg: queue_var g_queue_submsg g_queue_submsg_update
  by unfold_locales simp_all
interpretation pubmsg: queue_var g_queue_pubmsg_exchange g_queue_pubmsg_exchange_update
  by unfold_locales simp_all
interpretation notic: queue_var g_queue_inner_cb_notic g_queue_inner_cb_notic_update
  by unfold_locales simp_all
interpretation submsg_v3: queue_var g_queue_submsg_v3 g_queue_submsg_v3_update
  by unfold_locales simp_all
interpretation pubmsg_v3: queue_var g_queue_pubmsg_exchange_v3 g_queue_pubmsg_exchange_v3_update
  by unfold_locales simp_all

end
