(* ===== verification/Interfaces.thy ===== *)
theory Interfaces
  imports World
begin

text \<open>
  Two interfaces between the state and the components: a loop that takes every message off one
  queue (\<open>drain_loop\<close>, over the contract \<open>queue_var\<close> of World), and a table in which modules are
  registered and looked up (\<open>registry\<close>).  The components interpret them on their own functions.
\<close>

section \<open>Loops that empty a queue\<close>

locale drain_loop = queue_var sel upd for sel :: "world \<Rightarrow> 'm queque" and upd :: "'m qvar" +
  fixes handle :: "'m \<Rightarrow> world \<Rightarrow> world" and loop :: "world \<Rightarrow> world"
  assumes sel_handle: "sel (handle x w) = sel w"
    and loop_Nil: "queue_inv (sel w) \<Longrightarrow> qmsgs (sel w) = [] \<Longrightarrow>
      loop w = snd (snd (QUEUE_POP sel upd w))"
    and loop_Cons: "queue_inv (sel w) \<Longrightarrow> qmsgs (sel w) = x # xs \<Longrightarrow>
      loop w = loop (handle x (snd (snd (QUEUE_POP sel upd w))))"
begin

lemma empties:
  assumes "queue_inv (sel w)"
  shows "queue_inv (sel (loop w)) \<and> qmsgs (sel (loop w)) = [] \<and> qcap (sel (loop w)) = qcap (sel w)"
  using assms
proof (induction "qmsgs (sel w)" arbitrary: w)
  case Nil
  then show ?case using qpop_Nil [of w] by (auto simp: loop_Nil sel_upd)
next
  case (Cons x xs)
  obtain q where q: "QUEUE_POP sel upd w =
      (mkernel_internal_succ, Some x, (upd (\<lambda>_. q) w)\<lparr>heap := free (heap w)\<rparr>)"
      "queue_inv q" "qmsgs q = xs" "qcap q = qcap (sel w)"
    using qpop_Cons [of w x xs] Cons.prems Cons.hyps(2) by auto
  let ?w = "handle x ((upd (\<lambda>_. q) w)\<lparr>heap := free (heap w)\<rparr>)"
  have s: "sel ?w = q" by (simp add: sel_handle sel_heap sel_upd)
  have "loop w = loop ?w" using loop_Cons [of w x xs] Cons.prems Cons.hyps(2) q(1) by simp
  then show ?case
    using Cons.hyps(1) [of ?w] q(2-4) s by simp
qed

text \<open>
  The loop seen through an observation of the state that does not look at the queue itself is
  a fold over the messages.
\<close>

lemma observe:
  assumes "queue_inv (sel w)"
    and "\<And>q w. obs (upd (\<lambda>_. q) w) = obs w"
    and "\<And>w. obs (w\<lparr>heap := free (heap w)\<rparr>) = fr (obs w)"
    and "\<And>x w'. x \<in> set (qmsgs (sel w)) \<Longrightarrow> obs (handle x w') = f x (obs w')"
  shows "obs (loop w) = fold (\<lambda>x s. f x (fr s)) (qmsgs (sel w)) (obs w)"
  using assms(1,4)
proof (induction "qmsgs (sel w)" arbitrary: w)
  case Nil
  then show ?case using qpop_Nil [of w] assms(2) by (auto simp: loop_Nil)
next
  case (Cons x xs)
  obtain q where q: "QUEUE_POP sel upd w =
      (mkernel_internal_succ, Some x, (upd (\<lambda>_. q) w)\<lparr>heap := free (heap w)\<rparr>)"
      "queue_inv q" "qmsgs q = xs"
    using qpop_Cons [of w x xs] Cons.prems Cons.hyps(2) by auto
  let ?w = "handle x ((upd (\<lambda>_. q) w)\<lparr>heap := free (heap w)\<rparr>)"
  have s: "sel ?w = q" by (simp add: sel_handle sel_heap sel_upd)
  have "x \<in> set (qmsgs (sel w))" by (simp flip: Cons.hyps(2))
  moreover have "obs ((upd (\<lambda>_. q) w)\<lparr>heap := free (heap w)\<rparr>) = fr (obs w)"
    using assms(3) [of "upd (\<lambda>_. q) w"] by (simp only: heap_upd assms(2))
  ultimately have o: "obs ?w = f x (fr (obs w))" by (simp only: Cons.prems(2))
  have "loop w = loop ?w" using loop_Cons [of w x xs] Cons.prems Cons.hyps(2) q(1) by simp
  then have "obs (loop w) = fold (\<lambda>x s. f x (fr s)) xs (obs ?w)"
    using Cons.hyps(1) [of ?w] q(2,3) s Cons.prems(2) by (simp flip: Cons.hyps(2))
  then show ?case by (simp add: o flip: Cons.hyps(2))
qed

lemma live_loop:
  assumes "queue_inv (sel w)"
    and "\<And>x w'. x \<in> set (qmsgs (sel w)) \<Longrightarrow>
           live (heap (handle x w')) = live (heap w') - int (b x)"
  shows "live (heap (loop w)) = live (heap w) - (\<Sum>x\<leftarrow>qmsgs (sel w). 1 + int (b x))"
proof -
  have "live (heap (loop w)) = fold (\<lambda>x s. (s - 1) - int (b x)) (qmsgs (sel w)) (live (heap w))"
    by (rule observe) (simp_all add: assms heap_upd live_free)
  moreover have "fold (\<lambda>x s. (s - 1) - int (b x)) xs l = l - (\<Sum>x\<leftarrow>xs. 1 + int (b x))" for xs l
    by (induction xs arbitrary: l) simp_all
  ultimately show ?thesis by simp
qed

end

section \<open>The tables of modules\<close>

text \<open>
  A table is in order when its used entries come first, have different keys, and the rest is
  empty (key 0).
\<close>

abbreviation used :: "('e \<Rightarrow> 'k::zero) \<Rightarrow> 'e list \<Rightarrow> 'e list" where
  "used key xs \<equiv> takeWhile (\<lambda>e. key e \<noteq> 0) xs"

definition table_wf :: "('e \<Rightarrow> 'k::zero) \<Rightarrow> 'e list \<Rightarrow> bool" where
  "table_wf key xs \<longleftrightarrow> distinct (map key (used key xs)) \<and>
     key ` set (dropWhile (\<lambda>e. key e \<noteq> 0) xs) \<subseteq> {0}"

lemma find_map: "List.find P (map f xs) = map_option f (List.find (\<lambda>x. P (f x)) xs)"
  by (induction xs) auto

lemma find_append:
  "List.find P (xs @ ys) = (case List.find P xs of None \<Rightarrow> List.find P ys | r \<Rightarrow> r)"
  by (induction xs) auto

lemma find_key_None: "List.find (\<lambda>e. key e = k) xs = None \<longleftrightarrow> k \<notin> key ` set xs"
  by (induction xs) auto

lemma find_upt_nth:
  "map_option ((!) xs) (List.find (\<lambda>i. P (xs ! i)) [0..<length xs]) = List.find P xs"
proof (induction xs)
  case Nil
  then show ?case by simp
next
  case (Cons x xs)
  have "List.find (\<lambda>i. P ((x # xs) ! i)) (map Suc [0..<length xs]) =
        map_option Suc (List.find (\<lambda>i. P (xs ! i)) [0..<length xs])"
    by (simp add: find_map)
  moreover have "[0..<length (x # xs)] = 0 # map Suc [0..<length xs]"
    by (simp add: upt_conv_Cons map_Suc_upt del: upt_Suc)
  ultimately show ?case
    using Cons.IH by (simp add: option.map_comp comp_def del: upt_Suc)
qed

lemma find_used:
  assumes "table_wf key xs" and "k \<noteq> 0"
  shows "List.find (\<lambda>e. key e = k) xs = List.find (\<lambda>e. key e = k) (used key xs)"
proof -
  have "List.find (\<lambda>e. key e = k) (dropWhile (\<lambda>e. key e \<noteq> 0) xs) = None"
    using assms unfolding find_key_None table_wf_def by blast
  then have "List.find (\<lambda>e. key e = k) (used key xs @ dropWhile (\<lambda>e. key e \<noteq> 0) xs) =
             List.find (\<lambda>e. key e = k) (used key xs)"
    by (simp only: find_append split: option.split) simp
  then show ?thesis by simp
qed

lemma table_wf_replicate [simp]: "key z = 0 \<Longrightarrow> table_wf key (replicate n z)"
  by (induction n) (auto simp: table_wf_def)

lemma used_replicate [simp]: "key z = 0 \<Longrightarrow> used key (replicate n z) = []"
  by (cases n) simp_all

text \<open>Writing a new entry behind the used ones.\<close>

lemma table_update:
  fixes key :: "'e \<Rightarrow> 'k::zero"
  assumes wf: "table_wf key xs" and room: "length (used key xs) < length xs"
    and new: "key e \<notin> key ` set (used key xs)" and nz: "key e \<noteq> 0"
  shows "used key (xs[length (used key xs) := e]) = used key xs @ [e]"
    and "table_wf key (xs[length (used key xs) := e])"
proof -
  let ?u = "used key xs"
  obtain z zs where z: "dropWhile (\<lambda>e. key e \<noteq> 0) xs = z # zs"
    using room by (cases "dropWhile (\<lambda>e. key e \<noteq> 0) xs")
      (metis append_Nil2 less_irrefl takeWhile_dropWhile_id, blast)
  have xs: "xs = ?u @ z # zs" by (metis takeWhile_dropWhile_id z)
  have 0: "key ` set zs \<subseteq> {0}" using wf unfolding table_wf_def z by auto
  have upd: "xs[length ?u := e] = ?u @ e # zs"
    by (subst xs) (simp add: list_update_append)
  have all: "\<forall>y \<in> set ?u. key y \<noteq> 0" by (auto dest: set_takeWhileD)
  have tz: "used key zs = []" using 0 by (cases zs) auto
  show u: "used key (xs[length ?u := e]) = ?u @ [e]"
    unfolding upd using all nz tz by simp
  have dz: "dropWhile (\<lambda>e. key e \<noteq> 0) zs = zs" using 0 by (cases zs) auto
  have d: "dropWhile (\<lambda>e. key e \<noteq> 0) (xs[length ?u := e]) = zs"
    unfolding upd using all nz dz by simp
  have "distinct (map key ?u)" using wf by (simp add: table_wf_def)
  then have "distinct (map key (?u @ [e]))" using new by simp
  then show "table_wf key (xs[length ?u := e])"
    unfolding table_wf_def u d using 0 by blast
qed

text \<open>
  The contract of a table of modules, for the code that registers modules and for the code
  that looks them up.
\<close>

locale registry =
  fixes inv :: "world \<Rightarrow> bool"
    and key :: "'e \<Rightarrow> 'k::zero"
    and entries :: "world \<Rightarrow> 'e list"
    and cap :: "world \<Rightarrow> nat"
    and load :: "'e \<Rightarrow> world \<Rightarrow> mkernel_internal_error \<times> world"
    and lookup :: "'k \<Rightarrow> world \<Rightarrow> 'e option"
  assumes distinct_keys: "inv w \<Longrightarrow> distinct (map key (entries w))"
    and nonzero_keys: "inv w \<Longrightarrow> 0 \<notin> key ` set (entries w)"
    and bound: "inv w \<Longrightarrow> length (entries w) \<le> cap w"
    and load_dup: "inv w \<Longrightarrow> key e \<in> key ` set (entries w) \<Longrightarrow>
      load e w = (mkernel_internal_extend_ready, w)"
    and load_full: "inv w \<Longrightarrow> key e \<notin> key ` set (entries w) \<Longrightarrow> length (entries w) = cap w \<Longrightarrow>
      load e w = (mkernel_internal_extend_full, w)"
    and load_new: "inv w \<Longrightarrow> key e \<notin> key ` set (entries w) \<Longrightarrow> key e \<noteq> 0 \<Longrightarrow>
      length (entries w) < cap w \<Longrightarrow>
      \<exists>w'. load e w = (mkernel_internal_succ, w') \<and> inv w' \<and> entries w' = entries w @ [e] \<and>
           cap w' = cap w"
    and lookup_find: "inv w \<Longrightarrow> k \<noteq> 0 \<Longrightarrow> lookup k w = List.find (\<lambda>e. key e = k) (entries w)"
begin

lemma lookup_entry:
  assumes "inv w" and "k \<noteq> 0" and "lookup k w = Some e"
  shows "e \<in> set (entries w)" and "key e = k"
proof -
  have "List.find (\<lambda>e. key e = k) (entries w) = Some e"
    using lookup_find [OF assms(1,2)] assms(3) by simp
  then show "e \<in> set (entries w)" and "key e = k" by (auto simp: find_Some_iff)
qed

text \<open>A load that succeeds is seen by the lookup of its key, and by no other lookup.\<close>

lemma load_lookup:
  assumes "inv w" and "key e \<noteq> 0" and "load e w = (mkernel_internal_succ, w')"
  shows "inv w' \<and> lookup (key e) w' = Some e \<and>
         (\<forall>k. k \<noteq> 0 \<longrightarrow> k \<noteq> key e \<longrightarrow> lookup k w' = lookup k w)"
proof -
  have new: "key e \<notin> key ` set (entries w)" using assms load_dup [of w e] by auto
  moreover have "length (entries w) \<noteq> cap w" using assms new load_full [of w e] by auto
  ultimately obtain w'' where "load e w = (mkernel_internal_succ, w'')" "inv w''"
      "entries w'' = entries w @ [e]"
    using load_new [of w e] assms bound [of w] by auto
  then have w': "inv w'" "entries w' = entries w @ [e]" using assms(3) by auto
  have "List.find (\<lambda>x. key x = key e) (entries w) = None"
    using new by (simp add: find_key_None)
  then show ?thesis
    using w' assms by (auto simp: lookup_find find_append split: option.split)
qed

text \<open>A load fails exactly when the key is taken or the table is full, and changes nothing.\<close>

lemma load_fails:
  assumes "inv w" and "key e \<noteq> 0"
  shows "fst (load e w) = mkernel_internal_succ \<longleftrightarrow>
           lookup (key e) w = None \<and> length (entries w) < cap w"
    and "fst (load e w) \<noteq> mkernel_internal_succ \<Longrightarrow> snd (load e w) = w"
proof -
  have l: "lookup (key e) w = None \<longleftrightarrow> key e \<notin> key ` set (entries w)"
    using assms by (simp add: lookup_find find_key_None)
  consider "key e \<in> key ` set (entries w)" | "key e \<notin> key ` set (entries w)" "length (entries w) = cap w"
    | "key e \<notin> key ` set (entries w)" "length (entries w) < cap w"
    using bound [of w] assms by linarith
  then have "(fst (load e w) = mkernel_internal_succ \<longleftrightarrow>
           lookup (key e) w = None \<and> length (entries w) < cap w) \<and>
        (fst (load e w) \<noteq> mkernel_internal_succ \<longrightarrow> snd (load e w) = w)"
  proof cases
    case 1
    then show ?thesis using assms load_dup [of w e] l by simp
  next
    case 2
    then show ?thesis using assms load_full [of w e] l by simp
  next
    case 3
    then show ?thesis using assms load_new [of w e] l by auto
  qed
  then show "fst (load e w) = mkernel_internal_succ \<longleftrightarrow>
           lookup (key e) w = None \<and> length (entries w) < cap w"
    and "fst (load e w) \<noteq> mkernel_internal_succ \<Longrightarrow> snd (load e w) = w"
    by auto
qed

end

end
