(* ===== verification/Extend.thy ===== *)
theory Extend
  imports Interfaces
begin

text \<open>
  microkernel/src/ezdev_sdk_kernel_extend.c: the tables of registered extension modules and
  the user thread, which takes the messages and events off the queues and hands them to the
  modules; and the last part of ezdev_sdk_kerne_queuel.c, which creates and destroys the
  queues and frees an event.  The tables hold the three kinds of module: business domains of
  protocol 2.0, extensions of protocol 3.0 and hub extensions.
\<close>

section \<open>The tables\<close>

definition extend_init :: "nat option \<Rightarrow> world \<Rightarrow> world" where
  "extend_init kernel_event_notice_cb w =
     w\<lparr>g_kernel_domains_count := word_of_nat ezdev_sdk_extend_count,
       g_kernel_extend_count := word_of_nat ezdev_sdk_extend_count,
       g_kernel_domains := replicate ezdev_sdk_extend_count zero_domain_info,
       g_kernel_extend := replicate ezdev_sdk_extend_count zero_extend_v3,
       g_kernel_event_notice_cb := kernel_event_notice_cb\<rparr>"

text \<open>Only as many entries as the count says are cleared.\<close>

definition extend_fini :: "world \<Rightarrow> world" where
  "extend_fini w =
     w\<lparr>g_kernel_event_notice_cb := None,
       g_kernel_domains :=
         replicate (unat (g_kernel_domains_count w)) zero_domain_info @
         drop (unat (g_kernel_domains_count w)) (g_kernel_domains w),
       g_kernel_extend :=
         replicate (unat (g_kernel_extend_count w)) zero_extend_v3 @
         drop (unat (g_kernel_extend_count w)) (g_kernel_extend w),
       g_kernel_domains_count := 0, g_kernel_extend_count := 0\<rparr>"

text \<open>The lookups return an index into the table, where the code returns a pointer into it.\<close>

definition extend_get :: "u32 \<Rightarrow> world \<Rightarrow> nat option" where
  "extend_get domain_id w =
     List.find (\<lambda>i. ke_domain_id (kernel_extend (g_kernel_domains w ! i)) = domain_id)
       [0..<unat (g_kernel_domains_count w)]"

definition extend_get_by_extend_id :: "u16 \<Rightarrow> world \<Rightarrow> nat option" where
  "extend_get_by_extend_id extend_id w =
     List.find (\<lambda>i. k3_extend_id (g_kernel_extend w ! i) = extend_id)
       [0..<unat (g_kernel_extend_count w)]"

definition sdk_hub_extend_get :: "u16 \<Rightarrow> world \<Rightarrow> nat option" where
  "sdk_hub_extend_get extend_id w =
     List.find (\<lambda>i. extend_id = hub_extend_id (g_kernel_hub_extend w ! i)) [0..<HUB_EXTEND_MAX_NUM]"

text \<open>
  The search of \<open>extend_load\<close> and \<open>extend_load_v3\<close>: the first entry that is empty, unless an
  entry before it has the same key.
\<close>

primrec load_scan :: "('e \<Rightarrow> 'k::zero) \<Rightarrow> 'k \<Rightarrow> 'e list \<Rightarrow> nat \<Rightarrow> mkernel_internal_error + nat" where
  "load_scan key k [] i = Inr i"
| "load_scan key k (e # es) i =
     (if key e = 0 then Inr i
      else if key e = k then Inl mkernel_internal_extend_ready
      else load_scan key k es (Suc i))"

definition extend_load :: "ezdev_sdk_kernel_extend \<Rightarrow> world \<Rightarrow> mkernel_internal_error \<times> world" where
  "extend_load external_extend w =
     (case load_scan (\<lambda>d. ke_domain_id (kernel_extend d)) (ke_domain_id external_extend)
             (take (unat (g_kernel_domains_count w)) (g_kernel_domains w)) 0 of
        Inl r \<Rightarrow> (r, w)
      | Inr i \<Rightarrow>
          if i = unat (g_kernel_domains_count w) then (mkernel_internal_extend_full, w)
          else (mkernel_internal_succ,
                w\<lparr>g_kernel_domains := (g_kernel_domains w)[i := (g_kernel_domains w ! i)
                     \<lparr>kernel_extend := external_extend, domain_risk := sdk_no_risk_control\<rparr>]\<rparr>))"

definition extend_load_v3 ::
  "ezdev_sdk_kernel_extend_v3 \<Rightarrow> world \<Rightarrow> mkernel_internal_error \<times> world" where
  "extend_load_v3 external_extend_v3 w =
     (case load_scan k3_extend_id (k3_extend_id external_extend_v3)
             (take (unat (g_kernel_extend_count w)) (g_kernel_extend w)) 0 of
        Inl r \<Rightarrow> (r, w)
      | Inr i \<Rightarrow>
          if i = unat (g_kernel_extend_count w) then (mkernel_internal_extend_full, w)
          else (mkernel_internal_succ,
                w\<lparr>g_kernel_extend := (g_kernel_extend w)[i := external_extend_v3]\<rparr>))"

text \<open>A hub extension replaces an earlier one of the same key.\<close>

definition sdk_hub_extend_load ::
  "ezdev_sdk_kernel_hub_extend \<Rightarrow> world \<Rightarrow> mkernel_internal_error \<times> world" where
  "sdk_hub_extend_load extend_info w =
     (case List.find (\<lambda>i. hub_extend_id (g_kernel_hub_extend w ! i) = 0 \<or>
                          hub_extend_id extend_info = hub_extend_id (g_kernel_hub_extend w ! i))
             [0..<HUB_EXTEND_MAX_NUM] of
        None \<Rightarrow> (mkernel_internal_extend_full, w)
      | Some i \<Rightarrow> (mkernel_internal_succ,
                  w\<lparr>g_kernel_hub_extend := (g_kernel_hub_extend w)[i := extend_info]\<rparr>))"

definition extend_load_event_notice :: "nat option \<Rightarrow> world \<Rightarrow> world" where
  "extend_load_event_notice kernel_event_notice_cb w =
     w\<lparr>g_kernel_event_notice_cb := kernel_event_notice_cb\<rparr>"

section \<open>Messages from the server\<close>

text \<open>What happens to one message of protocol 3.0 that was taken off its queue.\<close>

definition route_v3 :: "ezdev_sdk_kernel_submsg_v3 \<Rightarrow> world \<Rightarrow> world" where
  "route_v3 m w =
     (if s3_extend_id m \<noteq> sdk_shadow \<and> hub_reg_status (g_ezdev_sdk_kernel w) = 1 \<and>
         s3_sub_serial m \<noteq> '''' \<and> s3_sub_serial m \<noteq> ''global''
      then (case sdk_hub_extend_get (s3_extend_id m) w of
              None \<Rightarrow> w
            | Some i \<Rightarrow> (case hub_data_route (g_kernel_hub_extend w ! i) of
                  None \<Rightarrow> undefined_behaviour w
                | Some f \<Rightarrow> act (Do_hub_data_route f m) w))
      else if s3_extend_id m \<noteq> 0
      then (case extend_get_by_extend_id (s3_extend_id m) w of
              None \<Rightarrow> w
            | Some i \<Rightarrow> (case k3_data_route (g_kernel_extend w ! i) of
                  None \<Rightarrow> undefined_behaviour w
                | Some f \<Rightarrow> act (Do_data_route_v3 f m (k3_pUser (g_kernel_extend w ! i))) w))
      else w)"

text \<open>The message block and its buffer are freed after the callback.\<close>

definition handle_v3 :: "ezdev_sdk_kernel_submsg_v3 \<Rightarrow> world \<Rightarrow> world" where
  "handle_v3 m w = w_free (w_free_opt (s3_buf m) (route_v3 m w))"

definition route_v2 :: "ezdev_sdk_kernel_submsg \<Rightarrow> world \<Rightarrow> world" where
  "route_v2 m w =
     (case extend_get (sm_msg_domain_id m) w of
        None \<Rightarrow> w
      | Some i \<Rightarrow> (case ke_extend_data_route (kernel_extend (g_kernel_domains w ! i)) of
            None \<Rightarrow> undefined_behaviour w
          | Some f \<Rightarrow> act (Do_data_route f m (ke_pUser (kernel_extend (g_kernel_domains w ! i)))) w))"

definition handle_v2 :: "ezdev_sdk_kernel_submsg \<Rightarrow> world \<Rightarrow> world" where
  "handle_v2 m w = w_free (w_free_opt (sm_buf m) (route_v2 m w))"

text \<open>
  Every loop below takes the first message off a queue and goes on until the queue is empty.
  A pop that returns a message makes the store of the queue shorter, so the loops end.
\<close>

lemma pop_queue_store: "pop_queue q m = (r, Some x, q', m') \<Longrightarrow> length (store q') < length (store q)"
  by (auto simp: pop_queue_def Let_def split: option.splits if_splits intro: length_delete_less)

definition backlog :: "world \<Rightarrow> nat" where
  "backlog w = length (store (g_queue_submsg w)) + length (store (g_queue_submsg_v3 w)) +
     length (store (g_queue_pubmsg_exchange w)) + length (store (g_queue_pubmsg_exchange_v3 w)) +
     length (store (g_queue_inner_cb_notic w))"

lemma backlog_pop:
  "pop_queue_submsg w = (r1, Some x1, w1) \<Longrightarrow> backlog w1 < backlog w"
  "pop_queue_submsg_v3 w = (r2, Some x2, w1) \<Longrightarrow> backlog w1 < backlog w"
  "pop_queue_pubmsg_exchange w = (r3, Some x3, w1) \<Longrightarrow> backlog w1 < backlog w"
  "pop_queue_pubmsg_exchange_v3 w = (r4, Some x4, w1) \<Longrightarrow> backlog w1 < backlog w"
  "pop_queue_inner_cb_notic w = (r5, Some x5, w1) \<Longrightarrow> backlog w1 < backlog w"
  by (auto simp: queue_funs QUEUE_POP_def backlog_def split: prod.splits dest: pop_queue_store)

text \<open>What an action, a free or a fault leaves alone.\<close>

lemma backlog_frame [simp]:
  "backlog (act a w) = backlog w" "backlog (w_free w) = backlog w"
  "backlog (w_free_opt p w) = backlog w" "backlog (undefined_behaviour w) = backlog w"
  by (simp_all add: backlog_def act_def w_free_def w_free_opt_def undefined_behaviour_def)

lemma backlog_route [simp]: "backlog (route_v3 m3 w) = backlog w" "backlog (route_v2 m2 w) = backlog w"
  by (simp_all add: route_v3_def route_v2_def split: option.split)

lemma backlog_handle [simp]:
  "backlog (handle_v3 m3 w) = backlog w" "backlog (handle_v2 m2 w) = backlog w"
  by (simp_all add: handle_v3_def handle_v2_def)

function consume_extend_data_v3 :: "world \<Rightarrow> mkernel_internal_error \<times> world" where
  "consume_extend_data_v3 w = (case pop_queue_submsg_v3 w of (r, p, w1) \<Rightarrow>
     if r = mkernel_internal_queue_empty then (r, w1)
     else (case p of None \<Rightarrow> (r, w1) | Some m \<Rightarrow>
       if r \<noteq> mkernel_internal_succ then (r, w1) else consume_extend_data_v3 (handle_v3 m w1)))"
  by pat_completeness auto
termination
  by (relation "measure backlog") (auto dest: backlog_pop [OF sym])

function consume_extend_data :: "world \<Rightarrow> mkernel_internal_error \<times> world" where
  "consume_extend_data w = (case pop_queue_submsg w of (r, p, w1) \<Rightarrow>
     if r = mkernel_internal_queue_empty then (r, w1)
     else (case p of None \<Rightarrow> (r, w1) | Some m \<Rightarrow>
       if r \<noteq> mkernel_internal_succ then (r, w1) else consume_extend_data (handle_v2 m w1)))"
  by pat_completeness auto
termination
  by (relation "measure backlog") (auto dest: backlog_pop [OF sym])

declare consume_extend_data_v3.simps [simp del] consume_extend_data.simps [simp del]


section \<open>Events of the kernel\<close>

text \<open>
  The dispatch of one event goes down the table of business domains and stops at the first
  entry that is empty or lacks the callback.
\<close>

primrec start_domains :: "ezdev_sdk_kernel_domain_info list \<Rightarrow> world \<Rightarrow> world" where
  "start_domains [] w = w"
| "start_domains (d # ds) w =
     (let e = kernel_extend d in
      if ke_domain_id e = 0 then w
      else case ke_extend_start e of None \<Rightarrow> w
           | Some f \<Rightarrow> start_domains ds (act (Do_extend_start f (ke_pUser e)) w))"

primrec stop_domains :: "ezdev_sdk_kernel_domain_info list \<Rightarrow> world \<Rightarrow> world" where
  "stop_domains [] w = w"
| "stop_domains (d # ds) w =
     (let e = kernel_extend d in
      if ke_domain_id e = 0 then w
      else case ke_extend_stop e of None \<Rightarrow> w
           | Some f \<Rightarrow> stop_domains ds (act (Do_extend_stop f (ke_pUser e)) w))"

text \<open>The receipt of a message goes only to the domain that sent it.\<close>

primrec event_domains ::
  "sdk_send_msg_ack_context option \<Rightarrow> ezdev_sdk_kernel_event \<Rightarrow>
   ezdev_sdk_kernel_domain_info list \<Rightarrow> world \<Rightarrow> world" where
  "event_domains ack ev [] w = w"
| "event_domains ack ev (d # ds) w =
     (let e = kernel_extend d in
      if ke_domain_id e = 0 then w
      else case ke_extend_event e of None \<Rightarrow> w
           | Some f \<Rightarrow>
               (case ack of
                  Some a \<Rightarrow> if ke_domain_id e \<noteq> ak_msg_domain_id a then event_domains ack ev ds w
                            else event_domains ack ev ds (act (Do_extend_event f ev (ke_pUser e)) w)
                | None \<Rightarrow> event_domains ack ev ds (act (Do_extend_event f ev (ke_pUser e)) w)))"

text \<open>
  \<open>ptr_ack_ctx\<close> of the code: the receipt an event carries, if it is the run-time error
  \<open>TAG_MSG_ACK\<close>.  The second component tells that a pointer was followed that is null or does
  not point to what the tag says.
\<close>

definition event_ack :: "ezdev_sdk_kernel_event \<Rightarrow> sdk_send_msg_ack_context option \<times> bool" where
  "event_ack ev =
     (if event_type ev = sdk_kernel_event_runtime_err
      then (case event_context ev of
              Some (Ctx_runtime_err c) \<Rightarrow>
                (if err_tag c = TAG_MSG_ACK
                 then (case err_ctx c of None \<Rightarrow> (None, False) | Some (Ack_ctx a) \<Rightarrow> (Some a, False)
                       | Some (Ack_ctx_v3 _) \<Rightarrow> (None, True))
                 else (None, False))
            | _ \<Rightarrow> (None, True))
      else (None, False))"

text \<open>The application itself gets every event that is not a receipt.\<close>

definition dispatch_notic :: "ezdev_sdk_kernel_inner_cb_notic \<Rightarrow> world \<Rightarrow> world" where
  "dispatch_notic n w =
     (case cb_type n of
        extend_cb_start \<Rightarrow> start_domains (g_kernel_domains w) w
      | extend_cb_stop \<Rightarrow> stop_domains (g_kernel_domains w) w
      | extend_cb_event \<Rightarrow>
          (case event_ack (cb_event n) of (ack, bad) \<Rightarrow>
             if bad then undefined_behaviour w
             else
               let w1 = event_domains ack (cb_event n) (g_kernel_domains w) w
               in case ack of Some _ \<Rightarrow> w1
                  | None \<Rightarrow> (case g_kernel_event_notice_cb w1 of
                        None \<Rightarrow> undefined_behaviour w1
                      | Some f \<Rightarrow> act (Do_event_notice f (cb_event n)) w1)))"

text \<open>
  \<open>destroy_inner_cb_notic\<close> of ezdev_sdk_kerne_queuel.c frees the event, its context and, for a
  receipt, the copy of the receipt and the user's data in it.
\<close>

definition destroy_inner_cb_notic :: "ezdev_sdk_kernel_inner_cb_notic option \<Rightarrow> world \<Rightarrow> world" where
  "destroy_inner_cb_notic p w =
     (case p of None \<Rightarrow> w | Some n \<Rightarrow>
        (let w1 =
           (case event_context (cb_event n) of
              Some (Ctx_runtime_err c) \<Rightarrow>
                if event_type (cb_event n) = sdk_kernel_event_runtime_err \<and> cb_type n = extend_cb_event
                then (case err_ctx c of
                        Some (Ack_ctx a) \<Rightarrow>
                          if err_tag c = TAG_MSG_ACK then w_free (w_free_opt (ak_externel_ctx a) w) else w
                      | Some (Ack_ctx_v3 a) \<Rightarrow>
                          if err_tag c = TAG_MSG_ACK_V3 then w_free (w_free_opt (a3_externel_ctx a) w)
                          else w
                      | None \<Rightarrow> w)
                else w
            | _ \<Rightarrow> w)
         in w_free (w_free_opt (event_context (cb_event n)) w1)))"

definition handle_notic :: "ezdev_sdk_kernel_inner_cb_notic \<Rightarrow> world \<Rightarrow> world" where
  "handle_notic n w = destroy_inner_cb_notic (Some n) (dispatch_notic n w)"

definition consume_extend_event :: "world \<Rightarrow> mkernel_internal_error \<times> world" where
  "consume_extend_event w = (case pop_queue_inner_cb_notic w of (r, p, w1) \<Rightarrow>
     if r = mkernel_internal_queue_empty then (r, w1)
     else (case p of None \<Rightarrow> (r, w1) | Some n \<Rightarrow>
       if r \<noteq> mkernel_internal_succ then (r, w1) else (r, handle_notic n w1)))"

lemma backlog_domains [simp]:
  "backlog (start_domains ds w) = backlog w" "backlog (stop_domains ds w) = backlog w"
  by (induction ds arbitrary: w) (simp_all add: Let_def split: option.split)

lemma backlog_event_domains [simp]: "backlog (event_domains ack ev ds w) = backlog w"
  by (cases ack; induction ds arbitrary: w) (simp_all add: Let_def split: option.split)

lemma backlog_notic [simp]: "backlog (handle_notic n w) = backlog w"
  by (simp add: handle_notic_def dispatch_notic_def destroy_inner_cb_notic_def Let_def
      split: extend_cb_type.split option.split prod.split event_ctx.split err_ctx.split)

lemma pop_succ_Some:
  "QUEUE_POP sel upd w = (r, p, w1) \<Longrightarrow> r = mkernel_internal_queue_empty \<and> p = None \<or>
     r = mkernel_internal_succ \<and> p \<noteq> None"
  by (auto simp: QUEUE_POP_def pop_queue_def Let_def split: option.splits)

lemma backlog_event:
  "consume_extend_event w = (mkernel_internal_succ, w1) \<Longrightarrow> backlog w1 < backlog w"
  using pop_succ_Some [of g_queue_inner_cb_notic g_queue_inner_cb_notic_update w]
  by (auto simp: consume_extend_event_def pop_queue_inner_cb_notic_def [symmetric]
      split: prod.splits if_splits option.splits dest: backlog_pop)

section \<open>Emptying the queues\<close>

function clear_queue_pubmsg_exchange :: "world \<Rightarrow> mkernel_internal_error \<times> world" where
  "clear_queue_pubmsg_exchange w = (case pop_queue_pubmsg_exchange w of (r, p, w1) \<Rightarrow>
     (case p of None \<Rightarrow> (mkernel_internal_succ, w1) | Some m \<Rightarrow>
       if r \<noteq> mkernel_internal_succ then (mkernel_internal_succ, w1)
       else clear_queue_pubmsg_exchange
              (w_free (w_free_opt (pm_externel_ctx (msg_conntext m))
                 (w_free_opt (pm_msg_body (msg_conntext m)) w1)))))"
  by pat_completeness auto
termination
  by (relation "measure backlog") (auto dest: backlog_pop [OF sym])

function clear_queue_pubmsg_exchange_v3 :: "world \<Rightarrow> mkernel_internal_error \<times> world" where
  "clear_queue_pubmsg_exchange_v3 w = (case pop_queue_pubmsg_exchange_v3 w of (r, p, w1) \<Rightarrow>
     (case p of None \<Rightarrow> (mkernel_internal_succ, w1) | Some m \<Rightarrow>
       if r \<noteq> mkernel_internal_succ then (mkernel_internal_succ, w1)
       else clear_queue_pubmsg_exchange_v3
              (w_free (w_free_opt (p3_externel_ctx (msg_conntext_v3 m))
                 (w_free_opt (p3_msg_body (msg_conntext_v3 m)) w1)))))"
  by pat_completeness auto
termination
  by (relation "measure backlog") (auto dest: backlog_pop [OF sym])

function clear_queue_submsg :: "world \<Rightarrow> mkernel_internal_error \<times> world" where
  "clear_queue_submsg w = (case pop_queue_submsg w of (r, p, w1) \<Rightarrow>
     (case p of None \<Rightarrow> (mkernel_internal_succ, w1) | Some m \<Rightarrow>
       if r \<noteq> mkernel_internal_succ then (mkernel_internal_succ, w1)
       else clear_queue_submsg (w_free (w_free_opt (sm_buf m) w1))))"
  by pat_completeness auto
termination
  by (relation "measure backlog") (auto dest: backlog_pop [OF sym])

function clear_queue_submsg_v3 :: "world \<Rightarrow> mkernel_internal_error \<times> world" where
  "clear_queue_submsg_v3 w = (case pop_queue_submsg_v3 w of (r, p, w1) \<Rightarrow>
     (case p of None \<Rightarrow> (mkernel_internal_succ, w1) | Some m \<Rightarrow>
       if r \<noteq> mkernel_internal_succ then (mkernel_internal_succ, w1)
       else clear_queue_submsg_v3 (w_free (w_free_opt (s3_buf m) w1))))"
  by pat_completeness auto
termination
  by (relation "measure backlog") (auto dest: backlog_pop [OF sym])

text \<open>The loop of \<open>fini_queue\<close> over the events.\<close>

function clear_queue_inner_cb_notic :: "world \<Rightarrow> world" where
  "clear_queue_inner_cb_notic w = (case pop_queue_inner_cb_notic w of (r, p, w1) \<Rightarrow>
     if r = mkernel_internal_queue_empty then w1
     else (case p of None \<Rightarrow> w1
       | Some n \<Rightarrow> clear_queue_inner_cb_notic (destroy_inner_cb_notic (Some n) w1)))"
  by pat_completeness auto
termination
  by (relation "measure backlog")
    (auto simp: destroy_inner_cb_notic_def Let_def dest!: backlog_pop(5) [OF sym]
      split: option.split event_ctx.split err_ctx.split)

declare clear_queue_pubmsg_exchange.simps [simp del] clear_queue_pubmsg_exchange_v3.simps [simp del]
  clear_queue_submsg.simps [simp del] clear_queue_submsg_v3.simps [simp del]
  clear_queue_inner_cb_notic.simps [simp del]

section \<open>Creating and destroying the queues\<close>

definition init_queue :: "u16 \<Rightarrow> u16 \<Rightarrow> u16 \<Rightarrow> world \<Rightarrow> mkernel_internal_error \<times> world" where
  "init_queue sub_max_size pub_max_size inner_max_size w =
     (let (_, w1) = init_queue_submsg sub_max_size w;
          (_, w2) = init_queue_pubmsg_exchange pub_max_size w1;
          (_, w3) = init_queue_inner_cb_notic inner_max_size w2;
          (_, w4) = init_queue_submsg_v3 sub_max_size w3;
          (_, w5) = init_queue_pubmsg_exchange_v3 pub_max_size w4
      in (mkernel_internal_succ, w5))"

definition fini_queue :: "world \<Rightarrow> world" where
  "fini_queue w =
     (let w1 = snd (clear_queue_submsg w);
          w2 = snd (clear_queue_submsg_v3 w1);
          w3 = snd (clear_queue_pubmsg_exchange_v3 w2);
          w4 = clear_queue_inner_cb_notic w3
      in fini_queue_pubmsg_exchange_v3 (fini_queue_submsg_v3
           (fini_queue_inner_cb_notic (fini_queue_pubmsg_exchange (fini_queue_submsg w4)))))"

section \<open>The user thread\<close>

text \<open>
  \<open>while (mkernel_internal_queue_empty != consume_extend_event ())\<close>.  A pop answers
  \<open>mkernel_internal_succ\<close> or \<open>mkernel_internal_queue_empty\<close> only (\<open>pop_succ_Some\<close>), so the last
  branch is never taken.
\<close>

function consume_all_events :: "world \<Rightarrow> world" where
  "consume_all_events w = (case consume_extend_event w of (r, w1) \<Rightarrow>
     if r = mkernel_internal_queue_empty then w1
     else if r = mkernel_internal_succ then consume_all_events w1 else undefined_behaviour w1)"
  by pat_completeness auto
termination
  by (relation "measure backlog") (auto dest: backlog_event [OF sym])

declare consume_all_events.simps [simp del]

definition extend_yield :: "world \<Rightarrow> mkernel_internal_error \<times> world" where
  "extend_yield w =
     (case my_state (g_ezdev_sdk_kernel w) of
        sdk_stop \<Rightarrow> (mkernel_internal_haven_stop, consume_all_events w)
      | sdk_start \<Rightarrow>
          (let (_, w1) = consume_extend_data w;
               (_, w2) = consume_extend_event w1;
               (r, w3) = consume_extend_data_v3 w2
           in (if r = mkernel_internal_queue_empty then mkernel_internal_succ else r, w3))
      | _ \<Rightarrow> (mkernel_internal_succ, w))"

section \<open>Registration and lookup\<close>

lemma load_scan_eq:
  "load_scan key k xs i =
     (if k \<in> key ` set (used key xs) then Inl mkernel_internal_extend_ready
      else Inr (i + length (used key xs)))"
  by (induction xs arbitrary: i) auto

abbreviation domain_key :: "ezdev_sdk_kernel_domain_info \<Rightarrow> u32" where
  "domain_key d \<equiv> ke_domain_id (kernel_extend d)"

definition domains_wf :: "world \<Rightarrow> bool" where
  "domains_wf w \<longleftrightarrow> table_wf domain_key (g_kernel_domains w) \<and>
     length (g_kernel_domains w) = unat (g_kernel_domains_count w)"

definition domain_extends :: "world \<Rightarrow> ezdev_sdk_kernel_extend list" where
  "domain_extends w = map kernel_extend (used domain_key (g_kernel_domains w))"

definition domain_lookup :: "u32 \<Rightarrow> world \<Rightarrow> ezdev_sdk_kernel_extend option" where
  "domain_lookup k w = map_option (\<lambda>i. kernel_extend (g_kernel_domains w ! i)) (extend_get k w)"

definition extends_wf :: "world \<Rightarrow> bool" where
  "extends_wf w \<longleftrightarrow> table_wf k3_extend_id (g_kernel_extend w) \<and>
     length (g_kernel_extend w) = unat (g_kernel_extend_count w)"

definition extends_v3 :: "world \<Rightarrow> ezdev_sdk_kernel_extend_v3 list" where
  "extends_v3 w = used k3_extend_id (g_kernel_extend w)"

definition extend_lookup_v3 :: "u16 \<Rightarrow> world \<Rightarrow> ezdev_sdk_kernel_extend_v3 option" where
  "extend_lookup_v3 k w = map_option (\<lambda>i. g_kernel_extend w ! i) (extend_get_by_extend_id k w)"

interpretation domains: registry domains_wf ke_domain_id domain_extends
  "\<lambda>w. unat (g_kernel_domains_count w)" extend_load domain_lookup
proof (unfold_locales, goal_cases)
  case (1 w)
  then show ?case by (simp add: domains_wf_def table_wf_def domain_extends_def comp_def)
next
  case (2 w)
  then show ?case by (auto simp: domain_extends_def dest: set_takeWhileD)
next
  case (3 w)
  then show ?case by (simp add: domains_wf_def domain_extends_def) (metis length_takeWhile_le)
next
  case (4 w e)
  then show ?case
    by (simp add: domains_wf_def domain_extends_def extend_load_def load_scan_eq image_image)
next
  case (5 w e)
  then show ?case
    by (simp add: domains_wf_def domain_extends_def extend_load_def load_scan_eq image_image)
next
  case (6 w e)
  let ?u = "used domain_key (g_kernel_domains w)"
  let ?d = "(g_kernel_domains w ! length ?u)\<lparr>kernel_extend := e, domain_risk := sdk_no_risk_control\<rparr>"
  have wf: "table_wf domain_key (g_kernel_domains w)" using 6 by (simp add: domains_wf_def)
  have *: "used domain_key ((g_kernel_domains w)[length ?u := ?d]) = ?u @ [?d]"
    "table_wf domain_key ((g_kernel_domains w)[length ?u := ?d])"
    using table_update [OF wf, of ?d] 6
    by (simp_all add: domains_wf_def domain_extends_def image_image)
  then show ?case
    using 6 by (simp add: domains_wf_def domain_extends_def extend_load_def load_scan_eq image_image)
next
  case (7 w k)
  have "map_option ((!) (g_kernel_domains w)) (extend_get k w) =
        List.find (\<lambda>d. domain_key d = k) (g_kernel_domains w)"
    using 7 find_upt_nth [of "g_kernel_domains w" "\<lambda>d. domain_key d = k"]
    by (simp add: extend_get_def domains_wf_def)
  also have "\<dots> = List.find (\<lambda>d. domain_key d = k) (used domain_key (g_kernel_domains w))"
    using 7 by (simp add: domains_wf_def find_used)
  finally have "map_option kernel_extend (map_option ((!) (g_kernel_domains w)) (extend_get k w)) =
        map_option kernel_extend (List.find (\<lambda>d. domain_key d = k) (used domain_key (g_kernel_domains w)))"
    by (rule arg_cong)
  then show ?case
    by (simp add: domain_lookup_def domain_extends_def find_map option.map_comp comp_def)
qed

interpretation extends: registry extends_wf k3_extend_id extends_v3
  "\<lambda>w. unat (g_kernel_extend_count w)" extend_load_v3 extend_lookup_v3
proof (unfold_locales, goal_cases)
  case (1 w)
  then show ?case by (simp add: extends_wf_def table_wf_def extends_v3_def)
next
  case (2 w)
  then show ?case by (auto simp: extends_v3_def dest: set_takeWhileD)
next
  case (3 w)
  then show ?case by (simp add: extends_wf_def extends_v3_def) (metis length_takeWhile_le)
next
  case (4 w e)
  then show ?case by (simp add: extends_wf_def extends_v3_def extend_load_v3_def load_scan_eq)
next
  case (5 w e)
  then show ?case by (simp add: extends_wf_def extends_v3_def extend_load_v3_def load_scan_eq)
next
  case (6 w e)
  have wf: "table_wf k3_extend_id (g_kernel_extend w)" using 6 by (simp add: extends_wf_def)
  show ?case
    using table_update [OF wf, of e] 6
    by (simp add: extends_wf_def extends_v3_def extend_load_v3_def load_scan_eq)
next
  case (7 w k)
  then show ?case
    using find_upt_nth [of "g_kernel_extend w" "\<lambda>d. k3_extend_id d = k"]
    by (simp add: extend_lookup_v3_def extends_v3_def extend_get_by_extend_id_def extends_wf_def find_used)
qed

section \<open>What the queued messages own\<close>

text \<open>
  The blocks reached from a queued message, the block of the message itself included.  A queue
  holds one more block per message, its element.  \<open>slack\<close> counts the blocks that live outside
  the queues: an operation that keeps it neither leaks nor frees twice.
\<close>

definition blk_submsg :: "ezdev_sdk_kernel_submsg \<Rightarrow> nat" where
  "blk_submsg m = 1 + blk (sm_buf m)"

definition blk_submsg_v3 :: "ezdev_sdk_kernel_submsg_v3 \<Rightarrow> nat" where
  "blk_submsg_v3 m = 1 + blk (s3_buf m)"

definition blk_pubmsg :: "ezdev_sdk_kernel_pubmsg_exchange \<Rightarrow> nat" where
  "blk_pubmsg m = 1 + blk (pm_msg_body (msg_conntext m)) + blk (pm_externel_ctx (msg_conntext m))"

definition blk_pubmsg_v3 :: "ezdev_sdk_kernel_pubmsg_exchange_v3 \<Rightarrow> nat" where
  "blk_pubmsg_v3 m =
     1 + blk (p3_msg_body (msg_conntext_v3 m)) + blk (p3_externel_ctx (msg_conntext_v3 m))"

definition blk_err_ctx :: "err_ctx option \<Rightarrow> nat" where
  "blk_err_ctx p = (case p of None \<Rightarrow> 0 | Some (Ack_ctx a) \<Rightarrow> 1 + blk (ak_externel_ctx a)
                             | Some (Ack_ctx_v3 a) \<Rightarrow> 1 + blk (a3_externel_ctx a))"

definition blk_event_ctx :: "event_ctx option \<Rightarrow> nat" where
  "blk_event_ctx p = (case p of None \<Rightarrow> 0 | Some (Ctx_runtime_err c) \<Rightarrow> 1 + blk_err_ctx (err_ctx c)
                               | Some _ \<Rightarrow> 1)"

definition blk_notic :: "ezdev_sdk_kernel_inner_cb_notic \<Rightarrow> nat" where
  "blk_notic n = 1 + blk_event_ctx (event_context (cb_event n))"

lemmas blk_defs = blk_submsg_def blk_submsg_v3_def blk_pubmsg_def blk_pubmsg_v3_def
  blk_notic_def blk_event_ctx_def blk_err_ctx_def

definition held :: "('m \<Rightarrow> nat) \<Rightarrow> 'm queque \<Rightarrow> int" where
  "held b q = (\<Sum>m\<leftarrow>qmsgs q. 1 + int (b m))"

definition owned :: "world \<Rightarrow> int" where
  "owned w = held blk_submsg (g_queue_submsg w) + held blk_submsg_v3 (g_queue_submsg_v3 w) +
     held blk_pubmsg (g_queue_pubmsg_exchange w) + held blk_pubmsg_v3 (g_queue_pubmsg_exchange_v3 w) +
     held blk_notic (g_queue_inner_cb_notic w)"

definition slack :: "world \<Rightarrow> int" where
  "slack w = live (heap w) - owned w"

text \<open>
  The untyped pointers of an event point to what its type and tag say.
\<close>

definition err_ctx_ok :: "sdk_runtime_err_context \<Rightarrow> bool" where
  "err_ctx_ok c \<longleftrightarrow> (case err_ctx c of None \<Rightarrow> True | Some (Ack_ctx _) \<Rightarrow> err_tag c = TAG_MSG_ACK
                                | Some (Ack_ctx_v3 _) \<Rightarrow> err_tag c = TAG_MSG_ACK_V3)"

definition notic_ok :: "ezdev_sdk_kernel_inner_cb_notic \<Rightarrow> bool" where
  "notic_ok n \<longleftrightarrow>
     (case event_context (cb_event n) of
        Some (Ctx_runtime_err c) \<Rightarrow>
          event_type (cb_event n) = sdk_kernel_event_runtime_err \<and> cb_type n = extend_cb_event \<and>
          err_ctx_ok c
      | _ \<Rightarrow> event_type (cb_event n) = sdk_kernel_event_runtime_err \<longrightarrow> cb_type n \<noteq> extend_cb_event)"

lemma held_append [simp]: "qmsgs q' = qmsgs q @ [x] \<Longrightarrow> held b q' = held b q + 1 + int (b x)"
  by (simp add: held_def)

lemma held_Cons [simp]: "qmsgs q' = x # qmsgs q \<Longrightarrow> held b q' = held b q + 1 + int (b x)"
  by (simp add: held_def)

lemma held_Nil [simp]: "qmsgs q = [] \<Longrightarrow> held b q = 0"
  by (simp add: held_def)

text \<open>Live blocks after the operations on the heap.\<close>

lemma live_w [acct]:
  "live (heap (w_free w)) = live (heap w) - 1"
  "live (heap (w_free_opt p w)) = live (heap w) - int (blk p)"
  "live (heap (snd (w_malloc w))) = live (heap w) + (if fst (w_malloc w) then 1 else 0)"
  by (simp_all add: w_free_def w_free_opt_def w_malloc_def acct split: prod.split) (auto simp: malloc_def Let_def)

lemma heap_route [simp]:
  "heap (act a w) = heap w" "heap (undefined_behaviour w) = heap w"
  "heap (route_v2 m2 w) = heap w" "heap (route_v3 m3 w) = heap w"
  by (simp_all add: act_def undefined_behaviour_def route_v2_def route_v3_def split: option.split)

lemma heap_domains [simp]:
  "heap (start_domains ds w) = heap w" "heap (stop_domains ds w) = heap w"
  by (induction ds arbitrary: w) (simp_all add: Let_def split: option.split)

lemma heap_event_domains [simp]: "heap (event_domains ack ev ds w) = heap w"
  by (cases ack; induction ds arbitrary: w) (simp_all add: Let_def split: option.split)

lemma heap_dispatch [simp]: "heap (dispatch_notic n w) = heap w"
  by (simp add: dispatch_notic_def Let_def split: extend_cb_type.split option.split prod.split)

lemma live_handle [acct]:
  "live (heap (handle_v2 m2 w)) = live (heap w) - int (blk_submsg m2)"
  "live (heap (handle_v3 m3 w)) = live (heap w) - int (blk_submsg_v3 m3)"
  by (simp_all add: handle_v2_def handle_v3_def acct blk_defs)

text \<open>Destroying an event frees every block it owns, if its pointers are what they should be.\<close>

lemma live_destroy [acct]:
  "notic_ok n \<Longrightarrow> live (heap (destroy_inner_cb_notic (Some n) w)) = live (heap w) - int (blk_notic n)"
  by (auto simp: destroy_inner_cb_notic_def Let_def acct blk_defs notic_ok_def err_ctx_ok_def
      split: option.splits event_ctx.splits err_ctx.splits)

lemma live_handle_notic [acct]:
  "notic_ok n \<Longrightarrow> live (heap (handle_notic n w)) = live (heap w) - int (blk_notic n)"
  by (simp add: handle_notic_def acct)

section \<open>The loops of this file as drains\<close>

definition drop_submsg :: "ezdev_sdk_kernel_submsg \<Rightarrow> world \<Rightarrow> world" where
  "drop_submsg m w = w_free (w_free_opt (sm_buf m) w)"
definition drop_submsg_v3 :: "ezdev_sdk_kernel_submsg_v3 \<Rightarrow> world \<Rightarrow> world" where
  "drop_submsg_v3 m w = w_free (w_free_opt (s3_buf m) w)"
definition drop_pubmsg :: "ezdev_sdk_kernel_pubmsg_exchange \<Rightarrow> world \<Rightarrow> world" where
  "drop_pubmsg m w =
     w_free (w_free_opt (pm_externel_ctx (msg_conntext m)) (w_free_opt (pm_msg_body (msg_conntext m)) w))"
definition drop_pubmsg_v3 :: "ezdev_sdk_kernel_pubmsg_exchange_v3 \<Rightarrow> world \<Rightarrow> world" where
  "drop_pubmsg_v3 m w =
     w_free (w_free_opt (p3_externel_ctx (msg_conntext_v3 m))
       (w_free_opt (p3_msg_body (msg_conntext_v3 m)) w))"

lemmas frees = w_free_def w_free_opt_def act_def undefined_behaviour_def

text \<open>Routing and freeing never touch a queue.\<close>

lemma queues_frees [simp]:
  "g_queue_submsg (w_free w) = g_queue_submsg w"
  "g_queue_submsg (w_free_opt p w) = g_queue_submsg w"
  "g_queue_submsg_v3 (w_free w) = g_queue_submsg_v3 w"
  "g_queue_submsg_v3 (w_free_opt p w) = g_queue_submsg_v3 w"
  "g_queue_pubmsg_exchange (w_free w) = g_queue_pubmsg_exchange w"
  "g_queue_pubmsg_exchange (w_free_opt p w) = g_queue_pubmsg_exchange w"
  "g_queue_pubmsg_exchange_v3 (w_free w) = g_queue_pubmsg_exchange_v3 w"
  "g_queue_pubmsg_exchange_v3 (w_free_opt p w) = g_queue_pubmsg_exchange_v3 w"
  "g_queue_inner_cb_notic (w_free w) = g_queue_inner_cb_notic w"
  "g_queue_inner_cb_notic (w_free_opt p w) = g_queue_inner_cb_notic w"
  by (simp_all add: frees)

lemma queues_handle [simp]:
  "g_queue_submsg (handle_v2 m2 w) = g_queue_submsg w"
  "g_queue_submsg_v3 (handle_v3 m3 w) = g_queue_submsg_v3 w"
  by (simp_all add: handle_v2_def handle_v3_def route_v2_def route_v3_def act_def
      undefined_behaviour_def split: option.split)

lemma queues_drop [simp]:
  "g_queue_submsg (drop_submsg m2 w) = g_queue_submsg w"
  "g_queue_submsg_v3 (drop_submsg_v3 m3 w) = g_queue_submsg_v3 w"
  "g_queue_pubmsg_exchange (drop_pubmsg p2 w) = g_queue_pubmsg_exchange w"
  "g_queue_pubmsg_exchange_v3 (drop_pubmsg_v3 p3 w) = g_queue_pubmsg_exchange_v3 w"
  by (simp_all add: drop_submsg_def drop_submsg_v3_def drop_pubmsg_def drop_pubmsg_v3_def)

lemma notics_domains [simp]:
  "g_queue_inner_cb_notic (start_domains ds w) = g_queue_inner_cb_notic w"
  "g_queue_inner_cb_notic (stop_domains ds w) = g_queue_inner_cb_notic w"
  by (induction ds arbitrary: w) (simp_all add: Let_def act_def split: option.split)

lemma notics_event_domains [simp]:
  "g_queue_inner_cb_notic (event_domains ack ev ds w) = g_queue_inner_cb_notic w"
  by (cases ack; induction ds arbitrary: w) (simp_all add: Let_def act_def split: option.split)

lemma notics_destroy [simp]:
  "g_queue_inner_cb_notic (destroy_inner_cb_notic p w) = g_queue_inner_cb_notic w"
  by (simp add: destroy_inner_cb_notic_def Let_def split: option.split event_ctx.split err_ctx.split)

lemma notics_handle [simp]: "g_queue_inner_cb_notic (handle_notic n w) = g_queue_inner_cb_notic w"
  by (simp add: handle_notic_def dispatch_notic_def Let_def act_def undefined_behaviour_def
      split: extend_cb_type.split option.split prod.split)

lemma live_drop [acct]:
  "live (heap (drop_submsg m2 w)) = live (heap w) - int (blk_submsg m2)"
  "live (heap (drop_submsg_v3 m3 w)) = live (heap w) - int (blk_submsg_v3 m3)"
  "live (heap (drop_pubmsg p2 w)) = live (heap w) - int (blk_pubmsg p2)"
  "live (heap (drop_pubmsg_v3 p3 w)) = live (heap w) - int (blk_pubmsg_v3 p3)"
  by (simp_all add: drop_submsg_def drop_submsg_v3_def drop_pubmsg_def drop_pubmsg_v3_def acct blk_defs)

lemmas loop_unfolds = queue_funs drop_submsg_def drop_submsg_v3_def drop_pubmsg_def drop_pubmsg_v3_def

interpretation data: drain_loop g_queue_submsg g_queue_submsg_update handle_v2
  "\<lambda>w. snd (consume_extend_data w)"
proof (unfold_locales, goal_cases)
  case (1 x w)
  then show ?case by simp
next
  case (2 w)
  then show ?case using submsg.qpop_Nil [of w]
    by (auto simp: consume_extend_data.simps [of w] loop_unfolds)
next
  case (3 w x xs)
  then show ?case using submsg.qpop_Cons [of w x xs]
    by (auto simp: consume_extend_data.simps [of w] loop_unfolds)
qed

interpretation data_v3: drain_loop g_queue_submsg_v3 g_queue_submsg_v3_update handle_v3
  "\<lambda>w. snd (consume_extend_data_v3 w)"
proof (unfold_locales, goal_cases)
  case (1 x w)
  then show ?case by simp
next
  case (2 w)
  then show ?case using submsg_v3.qpop_Nil [of w]
    by (auto simp: consume_extend_data_v3.simps [of w] loop_unfolds)
next
  case (3 w x xs)
  then show ?case using submsg_v3.qpop_Cons [of w x xs]
    by (auto simp: consume_extend_data_v3.simps [of w] loop_unfolds)
qed

interpretation clear_sub: drain_loop g_queue_submsg g_queue_submsg_update drop_submsg
  "\<lambda>w. snd (clear_queue_submsg w)"
proof (unfold_locales, goal_cases)
  case (1 x w)
  then show ?case by simp
next
  case (2 w)
  then show ?case using submsg.qpop_Nil [of w]
    by (auto simp: clear_queue_submsg.simps [of w] loop_unfolds)
next
  case (3 w x xs)
  then show ?case using submsg.qpop_Cons [of w x xs]
    by (auto simp: clear_queue_submsg.simps [of w] loop_unfolds)
qed

interpretation clear_sub_v3: drain_loop g_queue_submsg_v3 g_queue_submsg_v3_update drop_submsg_v3
  "\<lambda>w. snd (clear_queue_submsg_v3 w)"
proof (unfold_locales, goal_cases)
  case (1 x w)
  then show ?case by simp
next
  case (2 w)
  then show ?case using submsg_v3.qpop_Nil [of w]
    by (auto simp: clear_queue_submsg_v3.simps [of w] loop_unfolds)
next
  case (3 w x xs)
  then show ?case using submsg_v3.qpop_Cons [of w x xs]
    by (auto simp: clear_queue_submsg_v3.simps [of w] loop_unfolds)
qed

interpretation clear_pub: drain_loop g_queue_pubmsg_exchange g_queue_pubmsg_exchange_update drop_pubmsg
  "\<lambda>w. snd (clear_queue_pubmsg_exchange w)"
proof (unfold_locales, goal_cases)
  case (1 x w)
  then show ?case by simp
next
  case (2 w)
  then show ?case using pubmsg.qpop_Nil [of w]
    by (auto simp: clear_queue_pubmsg_exchange.simps [of w] loop_unfolds)
next
  case (3 w x xs)
  then show ?case using pubmsg.qpop_Cons [of w x xs]
    by (auto simp: clear_queue_pubmsg_exchange.simps [of w] loop_unfolds)
qed

interpretation clear_pub_v3: drain_loop g_queue_pubmsg_exchange_v3 g_queue_pubmsg_exchange_v3_update
  drop_pubmsg_v3 "\<lambda>w. snd (clear_queue_pubmsg_exchange_v3 w)"
proof (unfold_locales, goal_cases)
  case (1 x w)
  then show ?case by simp
next
  case (2 w)
  then show ?case using pubmsg_v3.qpop_Nil [of w]
    by (auto simp: clear_queue_pubmsg_exchange_v3.simps [of w] loop_unfolds)
next
  case (3 w x xs)
  then show ?case using pubmsg_v3.qpop_Cons [of w x xs]
    by (auto simp: clear_queue_pubmsg_exchange_v3.simps [of w] loop_unfolds)
qed

interpretation clear_notic: drain_loop g_queue_inner_cb_notic g_queue_inner_cb_notic_update
  "\<lambda>n. destroy_inner_cb_notic (Some n)" clear_queue_inner_cb_notic
proof (unfold_locales, goal_cases)
  case (1 x w)
  then show ?case by simp
next
  case (2 w)
  then show ?case using notic.qpop_Nil [of w]
    by (auto simp: clear_queue_inner_cb_notic.simps [of w] loop_unfolds)
next
  case (3 w x xs)
  then show ?case using notic.qpop_Cons [of w x xs]
    by (auto simp: clear_queue_inner_cb_notic.simps [of w] loop_unfolds)
qed

interpretation events: drain_loop g_queue_inner_cb_notic g_queue_inner_cb_notic_update
  handle_notic consume_all_events
proof (unfold_locales, goal_cases)
  case (1 x w)
  then show ?case by simp
next
  case (2 w)
  then show ?case using notic.qpop_Nil [of w]
    by (auto simp: consume_all_events.simps [of w] consume_extend_event_def loop_unfolds)
next
  case (3 w x xs)
  then show ?case using notic.qpop_Cons [of w x xs]
    by (auto simp: consume_all_events.simps [of w] consume_extend_event_def loop_unfolds)
qed

section \<open>What is delivered to whom\<close>

definition callbacks_ok :: "ezdev_sdk_kernel_extend \<Rightarrow> bool" where
  "callbacks_ok e \<longleftrightarrow> ke_extend_start e \<noteq> None \<and> ke_extend_stop e \<noteq> None \<and>
     ke_extend_data_route e \<noteq> None \<and> ke_extend_event e \<noteq> None"

text \<open>
  The modules are in order: tables well formed, every callback present.  The registration
  functions of the API keep this.
\<close>

definition modules_ok :: "world \<Rightarrow> bool" where
  "modules_ok w \<longleftrightarrow> domains_wf w \<and> extends_wf w \<and>
     (\<forall>e \<in> set (domain_extends w). callbacks_ok e) \<and>
     (\<forall>e \<in> set (extends_v3 w). k3_data_route e \<noteq> None) \<and>
     g_kernel_event_notice_cb w \<noteq> None"

definition delivery_v2 :: "world \<Rightarrow> ezdev_sdk_kernel_submsg \<Rightarrow> action list" where
  "delivery_v2 w m =
     (case domain_lookup (sm_msg_domain_id m) w of None \<Rightarrow> [] | Some e \<Rightarrow>
        [Do_data_route (the (ke_extend_data_route e)) m (ke_pUser e)])"

definition to_hub :: "world \<Rightarrow> ezdev_sdk_kernel_submsg_v3 \<Rightarrow> bool" where
  "to_hub w m \<longleftrightarrow> s3_extend_id m \<noteq> sdk_shadow \<and> hub_reg_status (g_ezdev_sdk_kernel w) = 1 \<and>
     s3_sub_serial m \<noteq> '''' \<and> s3_sub_serial m \<noteq> ''global''"

definition delivery_v3 :: "world \<Rightarrow> ezdev_sdk_kernel_submsg_v3 \<Rightarrow> action list" where
  "delivery_v3 w m =
     (if to_hub w m
      then (case sdk_hub_extend_get (s3_extend_id m) w of None \<Rightarrow> [] | Some i \<Rightarrow>
              [Do_hub_data_route (the (hub_data_route (g_kernel_hub_extend w ! i))) m])
      else if s3_extend_id m = 0 then []
      else (case extend_lookup_v3 (s3_extend_id m) w of None \<Rightarrow> [] | Some e \<Rightarrow>
              [Do_data_route_v3 (the (k3_data_route e)) m (k3_pUser e)]))"

definition event_actions ::
  "sdk_send_msg_ack_context option \<Rightarrow> ezdev_sdk_kernel_event \<Rightarrow> ezdev_sdk_kernel_extend list \<Rightarrow>
   action list" where
  "event_actions ack ev es =
     map (\<lambda>e. Do_extend_event (the (ke_extend_event e)) ev (ke_pUser e))
       (case ack of None \<Rightarrow> es | Some a \<Rightarrow> filter (\<lambda>e. ke_domain_id e = ak_msg_domain_id a) es)"

definition notic_actions :: "world \<Rightarrow> ezdev_sdk_kernel_inner_cb_notic \<Rightarrow> action list" where
  "notic_actions w n =
     (case cb_type n of
        extend_cb_start \<Rightarrow>
          map (\<lambda>e. Do_extend_start (the (ke_extend_start e)) (ke_pUser e)) (domain_extends w)
      | extend_cb_stop \<Rightarrow>
          map (\<lambda>e. Do_extend_stop (the (ke_extend_stop e)) (ke_pUser e)) (domain_extends w)
      | extend_cb_event \<Rightarrow>
          (let ack = fst (event_ack (cb_event n)) in
           event_actions ack (cb_event n) (domain_extends w) @
           (if ack = None then [Do_event_notice (the (g_kernel_event_notice_cb w)) (cb_event n)] else [])))"

lemma lookups_frame [simp]:
  "extend_get k (w\<lparr>g_queue_submsg := q1\<rparr>) = extend_get k w"
  "extend_get k (w\<lparr>heap := h\<rparr>) = extend_get k w"
  "extend_get k (w\<lparr>trace := t\<rparr>) = extend_get k w"
  "extend_get_by_extend_id i (w\<lparr>g_queue_submsg_v3 := q2\<rparr>) = extend_get_by_extend_id i w"
  "extend_get_by_extend_id i (w\<lparr>heap := h\<rparr>) = extend_get_by_extend_id i w"
  "extend_get_by_extend_id i (w\<lparr>trace := t\<rparr>) = extend_get_by_extend_id i w"
  "sdk_hub_extend_get i (w\<lparr>g_queue_submsg_v3 := q2\<rparr>) = sdk_hub_extend_get i w"
  "sdk_hub_extend_get i (w\<lparr>heap := h\<rparr>) = sdk_hub_extend_get i w"
  "sdk_hub_extend_get i (w\<lparr>trace := t\<rparr>) = sdk_hub_extend_get i w"
  by (simp_all add: extend_get_def extend_get_by_extend_id_def sdk_hub_extend_get_def)

lemma deliveries_frame [simp]:
  "delivery_v2 (w\<lparr>g_queue_submsg := q1\<rparr>) = delivery_v2 w"
  "delivery_v2 (w\<lparr>heap := h\<rparr>) = delivery_v2 w"
  "delivery_v2 (w\<lparr>trace := t\<rparr>) = delivery_v2 w"
  "delivery_v3 (w\<lparr>g_queue_submsg_v3 := q2\<rparr>) = delivery_v3 w"
  "delivery_v3 (w\<lparr>heap := h\<rparr>) = delivery_v3 w"
  "delivery_v3 (w\<lparr>trace := t\<rparr>) = delivery_v3 w"
  by (simp_all add: fun_eq_iff delivery_v2_def delivery_v3_def to_hub_def domain_lookup_def
      extend_lookup_v3_def cong: option.case_cong)

lemma notic_actions_frame [simp]:
  "notic_actions (w\<lparr>g_queue_inner_cb_notic := q3\<rparr>) = notic_actions w"
  "notic_actions (w\<lparr>heap := h\<rparr>) = notic_actions w"
  "notic_actions (w\<lparr>trace := t\<rparr>) = notic_actions w"
  by (simp_all add: fun_eq_iff notic_actions_def domain_extends_def Let_def split: extend_cb_type.split)

lemma modules_frame [simp]:
  "modules_ok (w\<lparr>g_queue_submsg := q1\<rparr>) = modules_ok w"
  "modules_ok (w\<lparr>g_queue_submsg_v3 := q2\<rparr>) = modules_ok w"
  "modules_ok (w\<lparr>g_queue_inner_cb_notic := q3\<rparr>) = modules_ok w"
  "modules_ok (w\<lparr>heap := h\<rparr>) = modules_ok w"
  "modules_ok (w\<lparr>trace := t\<rparr>) = modules_ok w"
  by (simp_all add: modules_ok_def domains_wf_def extends_wf_def domain_extends_def extends_v3_def)

lemma route_v2_eq:
  assumes "modules_ok w" and "sm_msg_domain_id m \<noteq> 0"
  shows "route_v2 m w = w\<lparr>trace := delivery_v2 w m @ trace w\<rparr>"
proof (cases "extend_get (sm_msg_domain_id m) w")
  case None
  then show ?thesis by (simp add: route_v2_def delivery_v2_def domain_lookup_def)
next
  case (Some i)
  let ?e = "kernel_extend (g_kernel_domains w ! i)"
  have "domain_lookup (sm_msg_domain_id m) w = Some ?e" using Some by (simp add: domain_lookup_def)
  moreover have "?e \<in> set (domain_extends w)"
    using calculation domains.lookup_entry(1) assms by (simp add: modules_ok_def)
  ultimately show ?thesis
    using Some assms by (auto simp: route_v2_def delivery_v2_def modules_ok_def callbacks_ok_def act_def)
qed

lemma route_v3_not_hub:
  "\<not> to_hub w m \<Longrightarrow> route_v3 m w =
     (if s3_extend_id m \<noteq> 0
      then (case extend_get_by_extend_id (s3_extend_id m) w of
              None \<Rightarrow> w
            | Some i \<Rightarrow> (case k3_data_route (g_kernel_extend w ! i) of
                  None \<Rightarrow> undefined_behaviour w
                | Some f \<Rightarrow> act (Do_data_route_v3 f m (k3_pUser (g_kernel_extend w ! i))) w))
      else w)"
  unfolding route_v3_def to_hub_def by (rule if_not_P)

lemma route_v3_eq:
  assumes "modules_ok w" and hub: "\<not> to_hub w m"
  shows "route_v3 m w = w\<lparr>trace := delivery_v3 w m @ trace w\<rparr>"
proof (cases "s3_extend_id m = 0 \<or> extend_get_by_extend_id (s3_extend_id m) w = None")
  case True
  then show ?thesis
    unfolding route_v3_not_hub [OF hub] delivery_v3_def if_not_P [OF hub] extend_lookup_v3_def by auto
next
  case False
  then obtain i where i: "extend_get_by_extend_id (s3_extend_id m) w = Some i" "s3_extend_id m \<noteq> 0" by auto
  then have l: "extend_lookup_v3 (s3_extend_id m) w = Some (g_kernel_extend w ! i)"
    by (simp add: extend_lookup_v3_def)
  then have "g_kernel_extend w ! i \<in> set (extends_v3 w)"
    using extends.lookup_entry(1) assms i by (simp add: modules_ok_def)
  then obtain f where "k3_data_route (g_kernel_extend w ! i) = Some f"
    using assms(1) by (auto simp: modules_ok_def)
  then show ?thesis
    unfolding route_v3_not_hub [OF hub] delivery_v3_def if_not_P [OF hub] using i l by (simp add: act_def)
qed

lemma route_v3_hub:
  assumes hub: "to_hub w m" and "\<And>i. sdk_hub_extend_get (s3_extend_id m) w = Some i \<Longrightarrow>
    hub_data_route (g_kernel_hub_extend w ! i) \<noteq> None"
  shows "route_v3 m w = w\<lparr>trace := delivery_v3 w m @ trace w\<rparr>"
  using hub assms(2) unfolding route_v3_def delivery_v3_def to_hub_def
  by (cases "sdk_hub_extend_get (s3_extend_id m) w") (auto simp: act_def)

lemma trace_id [simp]: "w\<lparr>trace := trace w\<rparr> = w" by simp

lemma start_domains_eq:
  assumes "\<forall>d \<in> set (used domain_key ds). callbacks_ok (kernel_extend d)"
  shows "start_domains ds w = w\<lparr>trace := rev (map (\<lambda>e. Do_extend_start (the (ke_extend_start e)) (ke_pUser e))
           (map kernel_extend (used domain_key ds))) @ trace w\<rparr>"
  using assms
proof (induction ds arbitrary: w)
  case (Cons d ds)
  then show ?case by (cases "domain_key d = 0") (auto simp: Let_def callbacks_ok_def act_def)
qed simp

lemma stop_domains_eq:
  assumes "\<forall>d \<in> set (used domain_key ds). callbacks_ok (kernel_extend d)"
  shows "stop_domains ds w = w\<lparr>trace := rev (map (\<lambda>e. Do_extend_stop (the (ke_extend_stop e)) (ke_pUser e))
           (map kernel_extend (used domain_key ds))) @ trace w\<rparr>"
  using assms
proof (induction ds arbitrary: w)
  case (Cons d ds)
  then show ?case by (cases "domain_key d = 0") (auto simp: Let_def callbacks_ok_def act_def)
qed simp

lemma event_domains_eq:
  assumes "\<forall>d \<in> set (used domain_key ds). callbacks_ok (kernel_extend d)"
  shows "event_domains ack ev ds w =
           w\<lparr>trace := rev (event_actions ack ev (map kernel_extend (used domain_key ds))) @ trace w\<rparr>"
  using assms
proof (induction ds arbitrary: w)
  case Nil
  then show ?case by (simp add: event_actions_def split: option.split)
next
  case (Cons d ds)
  show ?case
  proof (cases "domain_key d = 0")
    case True
    then show ?thesis by (simp add: event_actions_def split: option.split)
  next
    case False
    then show ?thesis using Cons
      by (cases ack) (auto simp: Let_def callbacks_ok_def act_def event_actions_def)
  qed
qed

lemma dispatch_notic_eq:
  assumes "modules_ok w" and "notic_ok n"
  shows "dispatch_notic n w = w\<lparr>trace := rev (notic_actions w n) @ trace w\<rparr>"
proof -
  have cb: "\<forall>d \<in> set (used domain_key (g_kernel_domains w)). callbacks_ok (kernel_extend d)"
    using assms(1) by (simp add: modules_ok_def domain_extends_def)
  obtain f where f: "g_kernel_event_notice_cb w = Some f" using assms(1) by (auto simp: modules_ok_def)
  have good: "cb_type n = extend_cb_event \<Longrightarrow> \<not> snd (event_ack (cb_event n))"
    using assms(2)
    by (auto simp: event_ack_def notic_ok_def err_ctx_ok_def split: option.splits event_ctx.splits err_ctx.splits)
  show ?thesis
    using cb f good
    by (cases "cb_type n"; cases "event_ack (cb_event n)")
      (auto simp: dispatch_notic_def notic_actions_def start_domains_eq stop_domains_eq event_domains_eq
        Let_def domain_extends_def act_def split: option.split)
qed

lemma fold_trace:
  assumes "P w" and "\<And>w t. P (w\<lparr>trace := t\<rparr>) = P w"
    and "\<And>w t. g (w\<lparr>trace := t\<rparr>) = g w"
    and "\<And>x w. P w \<Longrightarrow> x \<in> set xs \<Longrightarrow> f x w = w\<lparr>trace := rev (g w x) @ trace w\<rparr>"
  shows "fold f xs w = w\<lparr>trace := rev (concat (map (g w) xs)) @ trace w\<rparr>"
  using assms(1,4)
proof (induction xs arbitrary: w)
  case Nil
  then show ?case by simp
next
  case (Cons x xs)
  have "f x w = w\<lparr>trace := rev (g w x) @ trace w\<rparr>" using Cons.prems by simp
  then show ?case
    using Cons.IH [of "w\<lparr>trace := rev (g w x) @ trace w\<rparr>"] Cons.prems assms(2,3) by simp
qed

section \<open>Functional correctness of the user thread\<close>

lemma rev_delivery [simp]:
  "rev (delivery_v2 w m2) = delivery_v2 w m2" "rev (delivery_v3 w m3) = delivery_v3 w m3"
  by (simp_all add: delivery_v2_def delivery_v3_def split: option.split)

lemma held_sum: "held b q = (\<Sum>m\<leftarrow>qmsgs q. 1 + int (b m))"
  by (simp add: held_def)

lemma act_commute:
  "act a (w\<lparr>g_queue_submsg := q1, heap := h\<rparr>) = (act a w)\<lparr>g_queue_submsg := q1, heap := h\<rparr>"
  "act a (w\<lparr>g_queue_submsg_v3 := q2, heap := h\<rparr>) = (act a w)\<lparr>g_queue_submsg_v3 := q2, heap := h\<rparr>"
  "undefined_behaviour (w\<lparr>g_queue_submsg := q1, heap := h\<rparr>) =
     (undefined_behaviour w)\<lparr>g_queue_submsg := q1, heap := h\<rparr>"
  "undefined_behaviour (w\<lparr>g_queue_submsg_v3 := q2, heap := h\<rparr>) =
     (undefined_behaviour w)\<lparr>g_queue_submsg_v3 := q2, heap := h\<rparr>"
  by (simp_all add: act_def undefined_behaviour_def)

lemma route_commute:
  "route_v2 m2 (w\<lparr>g_queue_submsg := q1, heap := h\<rparr>) =
     (route_v2 m2 w)\<lparr>g_queue_submsg := q1, heap := h\<rparr>"
  "route_v3 m3 (w\<lparr>g_queue_submsg_v3 := q2, heap := h\<rparr>) =
     (route_v3 m3 w)\<lparr>g_queue_submsg_v3 := q2, heap := h\<rparr>"
  unfolding route_v2_def route_v3_def
  by (simp_all add: act_commute option.case_distrib [of "\<lambda>v. v\<lparr>g_queue_submsg := q1, heap := h\<rparr>"]
      option.case_distrib [of "\<lambda>v. v\<lparr>g_queue_submsg_v3 := q2, heap := h\<rparr>"]
      if_distrib [of "\<lambda>v. v\<lparr>g_queue_submsg_v3 := q2, heap := h\<rparr>"] cong: option.case_cong if_cong)

lemma world_eq_submsg:
  "w'\<lparr>g_queue_submsg := qz, heap := hz\<rparr> = w\<lparr>g_queue_submsg := qz, heap := hz, trace := t\<rparr> \<Longrightarrow>
   w' = w\<lparr>g_queue_submsg := g_queue_submsg w', heap := heap w', trace := t\<rparr>"
  by (cases w, cases w') simp

lemma world_eq_submsg_v3:
  "w'\<lparr>g_queue_submsg_v3 := qz, heap := hz\<rparr> = w\<lparr>g_queue_submsg_v3 := qz, heap := hz, trace := t\<rparr> \<Longrightarrow>
   w' = w\<lparr>g_queue_submsg_v3 := g_queue_submsg_v3 w', heap := heap w', trace := t\<rparr>"
  by (cases w, cases w') simp

lemma world_eq_notic:
  "w'\<lparr>g_queue_inner_cb_notic := qz, heap := hz\<rparr> =
     w\<lparr>g_queue_inner_cb_notic := qz, heap := hz, trace := t\<rparr> \<Longrightarrow>
   w' = w\<lparr>g_queue_inner_cb_notic := g_queue_inner_cb_notic w', heap := heap w', trace := t\<rparr>"
  by (cases w, cases w') simp

lemma consume_extend_data_result:
  "queue_inv (g_queue_submsg w) \<Longrightarrow> fst (consume_extend_data w) = mkernel_internal_queue_empty"
proof (induction "qmsgs (g_queue_submsg w)" arbitrary: w)
  case Nil
  then show ?case using submsg.qpop_Nil [of w]
    by (auto simp: consume_extend_data.simps [of w] loop_unfolds)
next
  case (Cons x xs)
  obtain q where q: "QUEUE_POP g_queue_submsg g_queue_submsg_update w =
      (mkernel_internal_succ, Some x, w\<lparr>g_queue_submsg := q, heap := free (heap w)\<rparr>)"
      "queue_inv q" "qmsgs q = xs"
    using submsg.qpop_Cons [of w x xs] Cons.prems Cons.hyps(2) by auto
  then show ?case
    using Cons.hyps(1) [of "handle_v2 x (w\<lparr>g_queue_submsg := q, heap := free (heap w)\<rparr>)"]
    by (simp add: consume_extend_data.simps [of w] pop_queue_submsg_def)
qed

lemma consume_extend_data_v3_result:
  "queue_inv (g_queue_submsg_v3 w) \<Longrightarrow> fst (consume_extend_data_v3 w) = mkernel_internal_queue_empty"
proof (induction "qmsgs (g_queue_submsg_v3 w)" arbitrary: w)
  case Nil
  then show ?case using submsg_v3.qpop_Nil [of w]
    by (auto simp: consume_extend_data_v3.simps [of w] loop_unfolds)
next
  case (Cons x xs)
  obtain q where q: "QUEUE_POP g_queue_submsg_v3 g_queue_submsg_v3_update w =
      (mkernel_internal_succ, Some x, w\<lparr>g_queue_submsg_v3 := q, heap := free (heap w)\<rparr>)"
      "queue_inv q" "qmsgs q = xs"
    using submsg_v3.qpop_Cons [of w x xs] Cons.prems Cons.hyps(2) by auto
  then show ?case
    using Cons.hyps(1) [of "handle_v3 x (w\<lparr>g_queue_submsg_v3 := q, heap := free (heap w)\<rparr>)"]
    by (simp add: consume_extend_data_v3.simps [of w] pop_queue_submsg_v3_def)
qed

lemma consume_data_spec:
  assumes inv: "queue_inv (g_queue_submsg w)" and ok: "modules_ok w"
    and dom: "\<forall>m \<in> set (qmsgs (g_queue_submsg w)). sm_msg_domain_id m \<noteq> 0"
  shows "\<exists>q m. consume_extend_data w = (mkernel_internal_queue_empty,
           w\<lparr>g_queue_submsg := q, heap := m,
             trace := rev (concat (map (delivery_v2 w) (qmsgs (g_queue_submsg w)))) @ trace w\<rparr>) \<and>
         queue_inv q \<and> qmsgs q = [] \<and> qcap q = qcap (g_queue_submsg w) \<and>
         live m = live (heap w) - held blk_submsg (g_queue_submsg w)"
proof -
  let ?ms = "qmsgs (g_queue_submsg w)" and ?w' = "snd (consume_extend_data w)"
  let ?obs = "\<lambda>v. v\<lparr>g_queue_submsg := zero_queue, heap := heap w\<rparr>"
  have "?obs ?w' = fold (\<lambda>x s. route_v2 x s) ?ms (?obs w)"
    by (rule data.observe) (simp_all add: inv handle_v2_def frees route_commute)
  also have "\<dots> = (?obs w)\<lparr>trace := rev (concat (map (delivery_v2 (?obs w)) ?ms)) @ trace (?obs w)\<rparr>"
    by (rule fold_trace [where P = modules_ok]) (use ok dom in \<open>simp_all add: route_v2_eq\<close>)
  finally have eq: "?w' = w\<lparr>g_queue_submsg := g_queue_submsg ?w', heap := heap ?w',
      trace := rev (concat (map (delivery_v2 w) ?ms)) @ trace w\<rparr>"
    by (intro world_eq_submsg [where qz = zero_queue and hz = "heap w"]) simp
  have "live (heap ?w') = live (heap w) - held blk_submsg (g_queue_submsg w)"
    unfolding held_sum by (rule data.live_loop [OF inv]) (simp add: acct)
  then show ?thesis
    using data.empties [OF inv] consume_extend_data_result [OF inv] eq
    by (intro exI [of _ "g_queue_submsg ?w'"] exI [of _ "heap ?w'"]) (simp add: prod_eq_iff)
qed

definition hub_ok :: "world \<Rightarrow> ezdev_sdk_kernel_submsg_v3 \<Rightarrow> bool" where
  "hub_ok w m \<longleftrightarrow> (to_hub w m \<longrightarrow> (case sdk_hub_extend_get (s3_extend_id m) w of None \<Rightarrow> True
     | Some i \<Rightarrow> hub_data_route (g_kernel_hub_extend w ! i) \<noteq> None))"

lemma hub_ok_frame [simp]:
  "hub_ok (w\<lparr>g_queue_submsg_v3 := q2\<rparr>) = hub_ok w" "hub_ok (w\<lparr>heap := h\<rparr>) = hub_ok w"
  "hub_ok (w\<lparr>trace := t\<rparr>) = hub_ok w"
  by (simp_all add: fun_eq_iff hub_ok_def to_hub_def sdk_hub_extend_get_def split: option.split)

lemma route_v3_ok:
  "modules_ok w \<Longrightarrow> hub_ok w m \<Longrightarrow> route_v3 m w = w\<lparr>trace := delivery_v3 w m @ trace w\<rparr>"
  using route_v3_eq [of w m] route_v3_hub [of w m] by (auto simp: hub_ok_def split: option.splits)

lemma consume_data_v3_spec:
  assumes inv: "queue_inv (g_queue_submsg_v3 w)" and ok: "modules_ok w"
    and hub: "\<forall>m \<in> set (qmsgs (g_queue_submsg_v3 w)). hub_ok w m"
  shows "\<exists>q m. consume_extend_data_v3 w = (mkernel_internal_queue_empty,
           w\<lparr>g_queue_submsg_v3 := q, heap := m,
             trace := rev (concat (map (delivery_v3 w) (qmsgs (g_queue_submsg_v3 w)))) @ trace w\<rparr>) \<and>
         queue_inv q \<and> qmsgs q = [] \<and> qcap q = qcap (g_queue_submsg_v3 w) \<and>
         live m = live (heap w) - held blk_submsg_v3 (g_queue_submsg_v3 w)"
proof -
  let ?ms = "qmsgs (g_queue_submsg_v3 w)" and ?w' = "snd (consume_extend_data_v3 w)"
  let ?obs = "\<lambda>v. v\<lparr>g_queue_submsg_v3 := zero_queue, heap := heap w\<rparr>"
  have "?obs ?w' = fold (\<lambda>x s. route_v3 x s) ?ms (?obs w)"
    by (rule data_v3.observe) (simp_all add: inv handle_v3_def frees route_commute)
  also have "\<dots> = (?obs w)\<lparr>trace := rev (concat (map (delivery_v3 (?obs w)) ?ms)) @ trace (?obs w)\<rparr>"
    by (rule fold_trace [where P = "\<lambda>v. modules_ok v \<and> (\<forall>m \<in> set ?ms. hub_ok v m)"])
      (use ok hub in \<open>simp_all add: route_v3_ok\<close>)
  finally have eq: "?w' = w\<lparr>g_queue_submsg_v3 := g_queue_submsg_v3 ?w', heap := heap ?w',
      trace := rev (concat (map (delivery_v3 w) ?ms)) @ trace w\<rparr>"
    by (intro world_eq_submsg_v3 [where qz = zero_queue and hz = "heap w"]) simp
  have "live (heap ?w') = live (heap w) - held blk_submsg_v3 (g_queue_submsg_v3 w)"
    unfolding held_sum by (rule data_v3.live_loop [OF inv]) (simp add: acct)
  then show ?thesis
    using data_v3.empties [OF inv] consume_extend_data_v3_result [OF inv] eq
    by (intro exI [of _ "g_queue_submsg_v3 ?w'"] exI [of _ "heap ?w'"]) (simp add: prod_eq_iff)
qed

lemma consume_event_Nil:
  assumes "queue_inv (g_queue_inner_cb_notic w)" and "qmsgs (g_queue_inner_cb_notic w) = []"
  shows "\<exists>q. consume_extend_event w =
             (mkernel_internal_queue_empty, w\<lparr>g_queue_inner_cb_notic := q\<rparr>) \<and>
           queue_inv q \<and> qmsgs q = [] \<and> qcap q = qcap (g_queue_inner_cb_notic w)"
  using notic.qpop_Nil [OF assms] by (auto simp: consume_extend_event_def pop_queue_inner_cb_notic_def)

lemma destroy_frame:
  "\<exists>h. destroy_inner_cb_notic p w = w\<lparr>heap := h\<rparr>"
  by (auto simp: destroy_inner_cb_notic_def Let_def frees intro: exI [of _ "heap w"]
      split: option.split event_ctx.split err_ctx.split)

lemma consume_event_Cons:
  assumes inv: "queue_inv (g_queue_inner_cb_notic w)" and ms: "qmsgs (g_queue_inner_cb_notic w) = n # ns"
    and ok: "modules_ok w" and n: "notic_ok n"
  shows "\<exists>q m. consume_extend_event w = (mkernel_internal_succ,
             w\<lparr>g_queue_inner_cb_notic := q, heap := m, trace := rev (notic_actions w n) @ trace w\<rparr>) \<and>
           queue_inv q \<and> qmsgs q = ns \<and> qcap q = qcap (g_queue_inner_cb_notic w) \<and>
           live m = live (heap w) - 1 - int (blk_notic n)"
proof -
  obtain q where q: "pop_queue_inner_cb_notic w =
      (mkernel_internal_succ, Some n, w\<lparr>g_queue_inner_cb_notic := q, heap := free (heap w)\<rparr>)"
      "queue_inv q" "qmsgs q = ns" "qcap q = qcap (g_queue_inner_cb_notic w)"
    using notic.qpop_Cons [OF inv ms] by (auto simp: pop_queue_inner_cb_notic_def)
  let ?w1 = "w\<lparr>g_queue_inner_cb_notic := q, heap := free (heap w)\<rparr>"
  have "dispatch_notic n ?w1 = ?w1\<lparr>trace := rev (notic_actions w n) @ trace w\<rparr>"
    using ok n by (simp add: dispatch_notic_eq)
  moreover obtain h where h: "destroy_inner_cb_notic (Some n) (dispatch_notic n ?w1) =
      (dispatch_notic n ?w1)\<lparr>heap := h\<rparr>"
    using destroy_frame by blast
  ultimately have hn: "handle_notic n ?w1 = w\<lparr>g_queue_inner_cb_notic := q, heap := h,
      trace := rev (notic_actions w n) @ trace w\<rparr>"
    by (simp add: handle_notic_def)
  have "live (heap (handle_notic n ?w1)) = live (heap w) - 1 - int (blk_notic n)"
    using n by (simp add: acct)
  then have "live h = live (heap w) - 1 - int (blk_notic n)" by (simp add: hn)
  then show ?thesis using q hn by (auto simp: consume_extend_event_def)
qed

lemma consume_all_events_spec:
  assumes inv: "queue_inv (g_queue_inner_cb_notic w)" and ok: "modules_ok w"
    and ns: "\<forall>n \<in> set (qmsgs (g_queue_inner_cb_notic w)). notic_ok n"
  shows "\<exists>q m. consume_all_events w =
           w\<lparr>g_queue_inner_cb_notic := q, heap := m,
             trace := rev (concat (map (notic_actions w) (qmsgs (g_queue_inner_cb_notic w)))) @ trace w\<rparr> \<and>
         queue_inv q \<and> qmsgs q = [] \<and> qcap q = qcap (g_queue_inner_cb_notic w) \<and>
         live m = live (heap w) - held blk_notic (g_queue_inner_cb_notic w)"
  using assms
proof (induction "qmsgs (g_queue_inner_cb_notic w)" arbitrary: w)
  case Nil
  then obtain q where "consume_extend_event w =
      (mkernel_internal_queue_empty, w\<lparr>g_queue_inner_cb_notic := q\<rparr>)" "queue_inv q" "qmsgs q = []"
      "qcap q = qcap (g_queue_inner_cb_notic w)"
    using consume_event_Nil [of w] by auto
  then show ?case
    using Nil.hyps [symmetric]
    by (intro exI [of _ q] exI [of _ "heap w"]) (simp add: consume_all_events.simps [of w])
next
  case (Cons n ns)
  then obtain q m where e: "consume_extend_event w = (mkernel_internal_succ,
      w\<lparr>g_queue_inner_cb_notic := q, heap := m, trace := rev (notic_actions w n) @ trace w\<rparr>)"
      "queue_inv q" "qmsgs q = ns" "qcap q = qcap (g_queue_inner_cb_notic w)"
      "live m = live (heap w) - 1 - int (blk_notic n)"
    using consume_event_Cons [of w n ns] by (metis list.set_intros(1))
  let ?w = "w\<lparr>g_queue_inner_cb_notic := q, heap := m, trace := rev (notic_actions w n) @ trace w\<rparr>"
  obtain qa ma where a: "consume_all_events ?w = ?w\<lparr>g_queue_inner_cb_notic := qa, heap := ma,
             trace := rev (concat (map (notic_actions ?w) ns)) @ trace ?w\<rparr>"
         "queue_inv qa" "qmsgs qa = []" "qcap qa = qcap (g_queue_inner_cb_notic ?w)"
         "live ma = live (heap ?w) - held blk_notic (g_queue_inner_cb_notic ?w)"
    using Cons.hyps(1) [of ?w] Cons.prems e Cons.hyps(2) [symmetric] by auto
  have "consume_all_events w = consume_all_events ?w"
    by (simp add: consume_all_events.simps [of w] e(1))
  then have "consume_all_events w = w\<lparr>g_queue_inner_cb_notic := qa, heap := ma,
      trace := rev (concat (map (notic_actions w) (n # ns))) @ trace w\<rparr>"
    using a(1) by simp
  moreover have "live ma = live (heap w) - held blk_notic (g_queue_inner_cb_notic w)"
    using a(5) e(3,5) Cons.hyps(2) [symmetric] by (simp add: held_def)
  ultimately show ?case
    using a(2-4) e(4) Cons.hyps(2) by auto
qed

section \<open>Creating and destroying the queues, as a whole\<close>

text \<open>The queues are well formed and the events in them correctly typed.\<close>

definition queues_ok :: "world \<Rightarrow> bool" where
  "queues_ok w \<longleftrightarrow> queue_inv (g_queue_submsg w) \<and> queue_inv (g_queue_pubmsg_exchange w) \<and>
     queue_inv (g_queue_inner_cb_notic w) \<and> queue_inv (g_queue_submsg_v3 w) \<and>
     queue_inv (g_queue_pubmsg_exchange_v3 w) \<and>
     (\<forall>n \<in> set (qmsgs (g_queue_inner_cb_notic w)). notic_ok n)"

lemma drop_frame [simp]:
  "g_queue_inner_cb_notic (drop_submsg m2 w) = g_queue_inner_cb_notic w"
  by (simp add: drop_submsg_def)

lemma clear_submsg_spec:
  assumes inv: "queue_inv (g_queue_submsg w)"
  shows "\<exists>q m. snd (clear_queue_submsg w) = w\<lparr>g_queue_submsg := q, heap := m\<rparr> \<and> queue_inv q \<and>
     qmsgs q = [] \<and> live m = live (heap w) - held blk_submsg (g_queue_submsg w)"
proof -
  let ?w' = "snd (clear_queue_submsg w)"
  let ?obs = "\<lambda>v. v\<lparr>g_queue_submsg := zero_queue, heap := heap w\<rparr>"
  have "?obs ?w' = fold (\<lambda>x s. s) (qmsgs (g_queue_submsg w)) (?obs w)"
    by (rule clear_sub.observe) (simp_all add: inv drop_submsg_def frees)
  then have "?obs ?w' = w\<lparr>g_queue_submsg := zero_queue, heap := heap w, trace := trace w\<rparr>"
    by (simp add: fold_id id_def [symmetric])
  then have "?w' = w\<lparr>g_queue_submsg := g_queue_submsg ?w', heap := heap ?w', trace := trace w\<rparr>"
    by (rule world_eq_submsg)
  moreover have "live (heap ?w') = live (heap w) - held blk_submsg (g_queue_submsg w)"
    unfolding held_sum by (rule clear_sub.live_loop [OF inv]) (simp add: acct)
  ultimately show ?thesis
    using clear_sub.empties [OF inv]
    by (intro exI [of _ "g_queue_submsg ?w'"] exI [of _ "heap ?w'"]) simp
qed

lemma clear_submsg_v3_spec:
  assumes inv: "queue_inv (g_queue_submsg_v3 w)"
  shows "\<exists>q m. snd (clear_queue_submsg_v3 w) = w\<lparr>g_queue_submsg_v3 := q, heap := m\<rparr> \<and> queue_inv q \<and>
     qmsgs q = [] \<and> live m = live (heap w) - held blk_submsg_v3 (g_queue_submsg_v3 w)"
proof -
  let ?w' = "snd (clear_queue_submsg_v3 w)"
  let ?obs = "\<lambda>v. v\<lparr>g_queue_submsg_v3 := zero_queue, heap := heap w\<rparr>"
  have "?obs ?w' = fold (\<lambda>x s. s) (qmsgs (g_queue_submsg_v3 w)) (?obs w)"
    by (rule clear_sub_v3.observe) (simp_all add: inv drop_submsg_v3_def frees)
  then have "?obs ?w' = w\<lparr>g_queue_submsg_v3 := zero_queue, heap := heap w, trace := trace w\<rparr>"
    by (simp add: fold_id id_def [symmetric])
  then have "?w' = w\<lparr>g_queue_submsg_v3 := g_queue_submsg_v3 ?w', heap := heap ?w', trace := trace w\<rparr>"
    by (rule world_eq_submsg_v3)
  moreover have "live (heap ?w') = live (heap w) - held blk_submsg_v3 (g_queue_submsg_v3 w)"
    unfolding held_sum by (rule clear_sub_v3.live_loop [OF inv]) (simp add: acct)
  ultimately show ?thesis
    using clear_sub_v3.empties [OF inv]
    by (intro exI [of _ "g_queue_submsg_v3 ?w'"] exI [of _ "heap ?w'"]) simp
qed

lemma clear_pubmsg_spec:
  assumes inv: "queue_inv (g_queue_pubmsg_exchange w)"
  shows "\<exists>q m. clear_queue_pubmsg_exchange w =
       (mkernel_internal_succ, w\<lparr>g_queue_pubmsg_exchange := q, heap := m\<rparr>) \<and> queue_inv q \<and>
     qmsgs q = [] \<and> qcap q = qcap (g_queue_pubmsg_exchange w) \<and>
     live m = live (heap w) - held blk_pubmsg (g_queue_pubmsg_exchange w)"
proof -
  let ?w' = "snd (clear_queue_pubmsg_exchange w)"
  let ?obs = "\<lambda>v. v\<lparr>g_queue_pubmsg_exchange := zero_queue, heap := heap w\<rparr>"
  have "?obs ?w' = fold (\<lambda>x s. s) (qmsgs (g_queue_pubmsg_exchange w)) (?obs w)"
    by (rule clear_pub.observe) (simp_all add: inv drop_pubmsg_def frees)
  then have "?obs ?w' = ?obs w"
    by (simp add: fold_id id_def [symmetric])
  then have "?w' = w\<lparr>g_queue_pubmsg_exchange := g_queue_pubmsg_exchange ?w', heap := heap ?w'\<rparr>"
    by (cases w, cases ?w') simp
  moreover have "live (heap ?w') = live (heap w) - held blk_pubmsg (g_queue_pubmsg_exchange w)"
    unfolding held_sum by (rule clear_pub.live_loop [OF inv]) (simp add: acct)
  moreover have "fst (clear_queue_pubmsg_exchange w) = mkernel_internal_succ"
    by (induction w rule: clear_queue_pubmsg_exchange.induct)
      (subst clear_queue_pubmsg_exchange.simps, auto split: prod.split option.split)
  ultimately show ?thesis
    using clear_pub.empties [OF inv]
    by (intro exI [of _ "g_queue_pubmsg_exchange ?w'"] exI [of _ "heap ?w'"]) (simp add: prod_eq_iff)
qed

lemma clear_pubmsg_v3_spec:
  assumes inv: "queue_inv (g_queue_pubmsg_exchange_v3 w)"
  shows "\<exists>q m. snd (clear_queue_pubmsg_exchange_v3 w) =
       w\<lparr>g_queue_pubmsg_exchange_v3 := q, heap := m\<rparr> \<and> queue_inv q \<and>
     qmsgs q = [] \<and> live m = live (heap w) - held blk_pubmsg_v3 (g_queue_pubmsg_exchange_v3 w)"
proof -
  let ?w' = "snd (clear_queue_pubmsg_exchange_v3 w)"
  let ?obs = "\<lambda>v. v\<lparr>g_queue_pubmsg_exchange_v3 := zero_queue, heap := heap w\<rparr>"
  have "?obs ?w' = fold (\<lambda>x s. s) (qmsgs (g_queue_pubmsg_exchange_v3 w)) (?obs w)"
    by (rule clear_pub_v3.observe) (simp_all add: inv drop_pubmsg_v3_def frees)
  then have "?obs ?w' = ?obs w"
    by (simp add: fold_id id_def [symmetric])
  then have "?w' = w\<lparr>g_queue_pubmsg_exchange_v3 := g_queue_pubmsg_exchange_v3 ?w', heap := heap ?w'\<rparr>"
    by (cases w, cases ?w') simp
  moreover have "live (heap ?w') = live (heap w) - held blk_pubmsg_v3 (g_queue_pubmsg_exchange_v3 w)"
    unfolding held_sum by (rule clear_pub_v3.live_loop [OF inv]) (simp add: acct)
  ultimately show ?thesis
    using clear_pub_v3.empties [OF inv]
    by (intro exI [of _ "g_queue_pubmsg_exchange_v3 ?w'"] exI [of _ "heap ?w'"]) simp
qed

lemma clear_notic_spec:
  assumes inv: "queue_inv (g_queue_inner_cb_notic w)"
    and ok: "\<forall>n \<in> set (qmsgs (g_queue_inner_cb_notic w)). notic_ok n"
  shows "\<exists>q m. clear_queue_inner_cb_notic w = w\<lparr>g_queue_inner_cb_notic := q, heap := m\<rparr> \<and> queue_inv q \<and>
     qmsgs q = [] \<and> live m = live (heap w) - held blk_notic (g_queue_inner_cb_notic w)"
proof -
  let ?w' = "clear_queue_inner_cb_notic w"
  let ?obs = "\<lambda>v. v\<lparr>g_queue_inner_cb_notic := zero_queue, heap := heap w\<rparr>"
  have d: "?obs (destroy_inner_cb_notic p v) = ?obs v" for p v
  proof -
    obtain h where "destroy_inner_cb_notic p v = v\<lparr>heap := h\<rparr>" using destroy_frame by blast
    then show ?thesis by (cases v) simp
  qed
  have "?obs ?w' = fold (\<lambda>x s. s) (qmsgs (g_queue_inner_cb_notic w)) (?obs w)"
    by (rule clear_notic.observe [where fr = "\<lambda>s. s"]) (simp_all add: inv d)
  then have "?obs ?w' = ?obs w"
    by (simp add: fold_id id_def [symmetric])
  then have "?w' = w\<lparr>g_queue_inner_cb_notic := g_queue_inner_cb_notic ?w', heap := heap ?w'\<rparr>"
    by (cases w, cases ?w') simp
  moreover have "live (heap ?w') = live (heap w) - held blk_notic (g_queue_inner_cb_notic w)"
    unfolding held_sum by (rule clear_notic.live_loop [OF inv]) (use ok in \<open>simp add: acct\<close>)
  ultimately show ?thesis
    using clear_notic.empties [OF inv]
    by (intro exI [of _ "g_queue_inner_cb_notic ?w'"] exI [of _ "heap ?w'"]) simp
qed

lemma fini_queue_spec:
  assumes ok: "queues_ok w"
  shows "\<exists>m. fini_queue w = w\<lparr>g_queue_submsg := zero_queue, g_queue_pubmsg_exchange := zero_queue,
       g_queue_inner_cb_notic := zero_queue, g_queue_submsg_v3 := zero_queue,
       g_queue_pubmsg_exchange_v3 := zero_queue, heap := m\<rparr> \<and>
     live m = live (heap w) - owned w +
       (\<Sum>p\<leftarrow>qmsgs (g_queue_pubmsg_exchange w). int (blk_pubmsg p) - 1)"
proof -
  obtain q1 m1 where 1: "snd (clear_queue_submsg w) = w\<lparr>g_queue_submsg := q1, heap := m1\<rparr>"
      "queue_inv q1" "qmsgs q1 = []" "live m1 = live (heap w) - held blk_submsg (g_queue_submsg w)"
    using clear_submsg_spec [of w] ok by (auto simp: queues_ok_def)
  let ?w1 = "w\<lparr>g_queue_submsg := q1, heap := m1\<rparr>"
  obtain q2 m2 where 2: "snd (clear_queue_submsg_v3 ?w1) = ?w1\<lparr>g_queue_submsg_v3 := q2, heap := m2\<rparr>"
      "queue_inv q2" "qmsgs q2 = []" "live m2 = live m1 - held blk_submsg_v3 (g_queue_submsg_v3 w)"
    using clear_submsg_v3_spec [of ?w1] ok by (auto simp: queues_ok_def)
  let ?w2 = "?w1\<lparr>g_queue_submsg_v3 := q2, heap := m2\<rparr>"
  obtain q3 m3 where 3: "snd (clear_queue_pubmsg_exchange_v3 ?w2) =
      ?w2\<lparr>g_queue_pubmsg_exchange_v3 := q3, heap := m3\<rparr>" "queue_inv q3" "qmsgs q3 = []"
      "live m3 = live m2 - held blk_pubmsg_v3 (g_queue_pubmsg_exchange_v3 w)"
    using clear_pubmsg_v3_spec [of ?w2] ok by (auto simp: queues_ok_def)
  let ?w3 = "?w2\<lparr>g_queue_pubmsg_exchange_v3 := q3, heap := m3\<rparr>"
  obtain q4 m4 where 4: "clear_queue_inner_cb_notic ?w3 = ?w3\<lparr>g_queue_inner_cb_notic := q4, heap := m4\<rparr>"
      "queue_inv q4" "qmsgs q4 = []" "live m4 = live m3 - held blk_notic (g_queue_inner_cb_notic w)"
    using clear_notic_spec [of ?w3] ok by (auto simp: queues_ok_def)
  let ?w4 = "?w3\<lparr>g_queue_inner_cb_notic := q4, heap := m4\<rparr>"
  obtain m5 where 5: "fini_queue_submsg ?w4 = ?w4\<lparr>g_queue_submsg := zero_queue, heap := m5\<rparr>" "live m5 = live m4"
    using submsg.fini [of ?w4] 1 by (auto simp: fini_queue_submsg_def)
  let ?w5 = "?w4\<lparr>g_queue_submsg := zero_queue, heap := m5\<rparr>"
  obtain m6 where 6: "fini_queue_pubmsg_exchange ?w5 = ?w5\<lparr>g_queue_pubmsg_exchange := zero_queue, heap := m6\<rparr>"
      "live m6 = live m5 - 2 * int (length (qmsgs (g_queue_pubmsg_exchange w)))"
    using pubmsg.fini [of ?w5] ok by (auto simp: fini_queue_pubmsg_exchange_def queues_ok_def)
  let ?w6 = "?w5\<lparr>g_queue_pubmsg_exchange := zero_queue, heap := m6\<rparr>"
  obtain m7 where 7: "fini_queue_inner_cb_notic ?w6 = ?w6\<lparr>g_queue_inner_cb_notic := zero_queue, heap := m7\<rparr>"
      "live m7 = live m6"
    using notic.fini [of ?w6] 4 by (auto simp: fini_queue_inner_cb_notic_def)
  let ?w7 = "?w6\<lparr>g_queue_inner_cb_notic := zero_queue, heap := m7\<rparr>"
  obtain m8 where 8: "fini_queue_submsg_v3 ?w7 = ?w7\<lparr>g_queue_submsg_v3 := zero_queue, heap := m8\<rparr>"
      "live m8 = live m7"
    using submsg_v3.fini [of ?w7] 2 by (auto simp: fini_queue_submsg_v3_def)
  let ?w8 = "?w7\<lparr>g_queue_submsg_v3 := zero_queue, heap := m8\<rparr>"
  obtain m9 where 9: "fini_queue_pubmsg_exchange_v3 ?w8 =
      ?w8\<lparr>g_queue_pubmsg_exchange_v3 := zero_queue, heap := m9\<rparr>" "live m9 = live m8"
    using pubmsg_v3.fini [of ?w8] 3 by (auto simp: fini_queue_pubmsg_exchange_v3_def)
  have "fini_queue w = ?w8\<lparr>g_queue_pubmsg_exchange_v3 := zero_queue, heap := m9\<rparr>"
    by (simp only: fini_queue_def Let_def 1(1) 2(1) 3(1) 4(1) 5(1) 6(1) 7(1) 8(1) 9(1))
  also have "\<dots> = w\<lparr>g_queue_submsg := zero_queue, g_queue_pubmsg_exchange := zero_queue,
       g_queue_inner_cb_notic := zero_queue, g_queue_submsg_v3 := zero_queue,
       g_queue_pubmsg_exchange_v3 := zero_queue, heap := m9\<rparr>"
    by (cases w) simp
  finally have w: "fini_queue w = w\<lparr>g_queue_submsg := zero_queue, g_queue_pubmsg_exchange := zero_queue,
       g_queue_inner_cb_notic := zero_queue, g_queue_submsg_v3 := zero_queue,
       g_queue_pubmsg_exchange_v3 := zero_queue, heap := m9\<rparr>" .
  have s: "held blk_pubmsg q = (\<Sum>p\<leftarrow>qmsgs q. int (blk_pubmsg p) - 1) + 2 * int (length (qmsgs q))" for q
    unfolding held_def by (induction "qmsgs q") (simp_all add: sum_list_subtractf sum_list_addf sum_list_triv)
  show ?thesis
    using w 1(4) 2(4) 3(4) 4(4) 5(2) 6(2) 7(2) 8(2) 9(2) s [of "g_queue_pubmsg_exchange w"]
    by (intro exI [of _ m9]) (simp add: owned_def)
qed

section \<open>A registered device for the concrete runs\<close>

definition demo_extend :: ezdev_sdk_kernel_extend where
  "demo_extend = \<lparr>ke_domain_id = 1500, ke_extend_start = Some 1, ke_extend_stop = Some 2,
     ke_extend_data_route = Some 3, ke_extend_event = Some 4, ke_pUser = None,
     ke_extend_module_name = ''demo'', ke_extend_module_version = ''1''\<rparr>"

definition demo_init :: "env \<Rightarrow> world" where
  "demo_init e = snd (init_queue 16 16 64 (extend_init (Some 9) (boot_world e)))"

definition demo_world :: "env \<Rightarrow> world" where
  "demo_world e = snd (extend_load demo_extend (demo_init e))"

definition demo_submsg :: ezdev_sdk_kernel_submsg where
  "demo_submsg = zero_submsg\<lparr>sm_msg_domain_id := 1500, sm_buf := Some [1], sm_buf_len := 1\<rparr>"

lemma take_replicate_Cons [simp]: "replicate 8 x = [x, x, x, x, x, x, x, x]"
  by (simp add: numeral_eq_Suc)

lemma demo_init_simps:
  "demo_init e = (boot_world e)\<lparr>
     g_queue_submsg := snd (init_queue1 16 (e_mutex e 0)),
     g_queue_pubmsg_exchange := snd (init_queue1 16 (e_mutex e 1)),
     g_queue_inner_cb_notic := snd (init_queue1 64 (e_mutex e 2)),
     g_queue_submsg_v3 := snd (init_queue1 16 (e_mutex e 3)),
     g_queue_pubmsg_exchange_v3 := snd (init_queue1 16 (e_mutex e 4)),
     g_kernel_domains_count := 8, g_kernel_extend_count := 8,
     g_kernel_event_notice_cb := Some 9, tick := 5\<rparr>"
  by (simp add: demo_init_def init_queue_def queue_funs QUEUE_INIT_def ask_def extend_init_def
      boot_world_def ezdev_sdk_extend_count_def numeral_eq_Suc split_beta Let_def)

lemma demo_world_simps:
  "demo_world e = (demo_init e)\<lparr>g_kernel_domains :=
     (g_kernel_domains (demo_init e))[0 := zero_domain_info\<lparr>kernel_extend := demo_extend\<rparr>]\<rparr>"
  by (simp add: demo_world_def demo_init_simps extend_load_def boot_world_def
      ezdev_sdk_extend_count_def zero_domain_info_def zero_extend_def demo_extend_def)

lemma demo_tables:
  "domains_wf (demo_world e)" "extends_wf (demo_world e)"
  "domain_extends (demo_world e) = [demo_extend]" "extends_v3 (demo_world e) = []"
  by (simp_all add: demo_world_simps demo_init_simps boot_world_def domains_wf_def extends_wf_def
      domain_extends_def extends_v3_def table_wf_def ezdev_sdk_extend_count_def zero_domain_info_def
      zero_extend_def zero_extend_v3_def demo_extend_def)

lemma demo_modules_ok [simp]: "modules_ok (demo_world e)"
  by (simp add: modules_ok_def demo_tables)
    (simp add: callbacks_ok_def demo_extend_def demo_world_simps demo_init_simps)

lemma demo_queues [simp]:
  "queue_inv (g_queue_submsg (demo_world e))" "qmsgs (g_queue_submsg (demo_world e)) = []"
  "qcap (g_queue_submsg (demo_world e)) = 16"
  "queue_inv (g_queue_submsg_v3 (demo_world e))" "qmsgs (g_queue_submsg_v3 (demo_world e)) = []"
  "qcap (g_queue_submsg_v3 (demo_world e)) = 16"
  "queue_inv (g_queue_pubmsg_exchange (demo_world e))"
  "qmsgs (g_queue_pubmsg_exchange (demo_world e)) = []"
  "qcap (g_queue_pubmsg_exchange (demo_world e)) = 16"
  "queue_inv (g_queue_pubmsg_exchange_v3 (demo_world e))"
  "qmsgs (g_queue_pubmsg_exchange_v3 (demo_world e)) = []"
  "qcap (g_queue_pubmsg_exchange_v3 (demo_world e)) = 16"
  "queue_inv (g_queue_inner_cb_notic (demo_world e))"
  "qmsgs (g_queue_inner_cb_notic (demo_world e)) = []"
  "qcap (g_queue_inner_cb_notic (demo_world e)) = 64"
  by (simp_all add: demo_world_simps demo_init_simps)

lemma demo_push_submsg:
  "\<exists>q m. push_queue_submsg x (demo_world calm_env) =
     (mkernel_internal_succ, (demo_world calm_env)\<lparr>g_queue_submsg := q, heap := m\<rparr>) \<and>
     queue_inv q \<and> qmsgs q = [x] \<and> qcap q = 16"
proof -
  have "fst (malloc (heap (demo_world calm_env)))"
    by (simp add: demo_world_simps demo_init_simps boot_world_def malloc_def Let_def)
  then obtain q where "push_queue x (g_queue_submsg (demo_world calm_env)) (heap (demo_world calm_env)) =
      (mkernel_internal_succ, q, snd (malloc (heap (demo_world calm_env))))"
      "queue_inv q" "qmsgs q = [x]" "qcap q = 16"
    using mq.push_ok [of "g_queue_submsg (demo_world calm_env)" "heap (demo_world calm_env)" x] by auto
  then show ?thesis
    by (intro exI [of _ q] exI [of _ "snd (malloc (heap (demo_world calm_env)))"])
      (simp add: push_queue_submsg_def QUEUE_PUSH_def)
qed

lemma demo_lookup:
  "domain_lookup 1500 (demo_world e) = Some demo_extend"
  using domains.lookup_find [of "demo_world e" 1500]
  by (simp add: demo_tables) (simp add: demo_extend_def)

section \<open>Properties\<close>

text \<open>
  C13: The user thread hands every queued message of the server to the module registered for its
  domain, exactly once and in the order in which the messages were queued; a message of an
  unknown domain is dropped.  All message blocks are freed, nothing but the queue, the heap
  counter and the trace changes, and no null pointer is called.
\<close>

theorem server_messages_delivered:
  assumes "queue_inv (g_queue_submsg w)" and "modules_ok w"
    and "\<forall>m \<in> set (qmsgs (g_queue_submsg w)). sm_msg_domain_id m \<noteq> 0"
  shows "\<exists>q m. consume_extend_data w = (mkernel_internal_queue_empty,
           w\<lparr>g_queue_submsg := q, heap := m,
             trace := rev (concat (map (delivery_v2 w) (qmsgs (g_queue_submsg w)))) @ trace w\<rparr>) \<and>
         queue_inv q \<and> qmsgs q = [] \<and>
         live m = live (heap w) - held blk_submsg (g_queue_submsg w)"
  using consume_data_spec [OF assms] by blast

theorem server_messages_delivered_witness:
  "trace (snd (consume_extend_data (snd (push_queue_submsg demo_submsg (demo_world calm_env))))) =
     [Do_data_route 3 demo_submsg None]"
proof -
  obtain q m where p: "push_queue_submsg demo_submsg (demo_world calm_env) =
      (mkernel_internal_succ, (demo_world calm_env)\<lparr>g_queue_submsg := q, heap := m\<rparr>)"
      "queue_inv q" "qmsgs q = [demo_submsg]"
    using demo_push_submsg by blast
  let ?w = "(demo_world calm_env)\<lparr>g_queue_submsg := q, heap := m\<rparr>"
  have "trace (snd (consume_extend_data ?w)) = rev (concat (map (delivery_v2 ?w) (qmsgs (g_queue_submsg ?w)))) @ trace ?w"
    using server_messages_delivered [of ?w] p by (auto simp: demo_submsg_def)
  then show ?thesis
    using p by (simp add: delivery_v2_def demo_lookup demo_submsg_def)
      (simp add: demo_extend_def demo_world_simps demo_init_simps boot_world_def)
qed

text \<open>
  Who gets a message of protocol 3.0.  While the hub is registered a message for a sub-device, which names
  a serial number other than "global" and is no shadow message, goes to the hub module of its
  extension id; every other message goes to the registered extension of its id; a message nobody is registered for
  goes nowhere.
\<close>

definition names_subdev :: "ezdev_sdk_kernel_submsg_v3 \<Rightarrow> bool" where
  "names_subdev m \<longleftrightarrow> s3_sub_serial m \<notin> {'''', ''global''} \<and> s3_extend_id m \<noteq> sdk_shadow"

inductive routed_v3 :: "world \<Rightarrow> ezdev_sdk_kernel_submsg_v3 \<Rightarrow> action list \<Rightarrow> bool" for w where
  sub_device: "\<lbrakk>names_subdev m; hub_reg_status (g_ezdev_sdk_kernel w) = 1; i < HUB_EXTEND_MAX_NUM;
     hub_extend_id (g_kernel_hub_extend w ! i) = s3_extend_id m;
     \<forall>j < i. hub_extend_id (g_kernel_hub_extend w ! j) \<noteq> s3_extend_id m;
     hub_data_route (g_kernel_hub_extend w ! i) = Some f\<rbrakk> \<Longrightarrow> routed_v3 w m [Do_hub_data_route f m]"
| no_hub_module: "\<lbrakk>names_subdev m; hub_reg_status (g_ezdev_sdk_kernel w) = 1;
     \<forall>j < HUB_EXTEND_MAX_NUM. hub_extend_id (g_kernel_hub_extend w ! j) \<noteq> s3_extend_id m\<rbrakk> \<Longrightarrow> routed_v3 w m []"
| extension: "\<lbrakk>\<not> names_subdev m \<or> hub_reg_status (g_ezdev_sdk_kernel w) \<noteq> 1; e \<in> set (extends_v3 w);
     k3_extend_id e = s3_extend_id m; k3_data_route e = Some f\<rbrakk> \<Longrightarrow> routed_v3 w m [Do_data_route_v3 f m (k3_pUser e)]"
| nobody: "\<lbrakk>\<not> names_subdev m \<or> hub_reg_status (g_ezdev_sdk_kernel w) \<noteq> 1;
     \<forall>e \<in> set (extends_v3 w). k3_extend_id e \<noteq> s3_extend_id m\<rbrakk> \<Longrightarrow> routed_v3 w m []"

lemma to_hub_names: "to_hub w m \<longleftrightarrow> names_subdev m \<and> hub_reg_status (g_ezdev_sdk_kernel w) = 1"
  by (auto simp: to_hub_def names_subdev_def)

lemma find_upt: "List.find p [0..<n] = Some i \<longleftrightarrow> i < n \<and> p i \<and> (\<forall>j<i. \<not> p j)"
  by (auto simp: find_Some_iff)

lemma delivery_routed:
  assumes "modules_ok w" and "hub_ok w m"
  shows "routed_v3 w m (delivery_v3 w m)"
proof (cases "to_hub w m")
  case True
  then have n: "names_subdev m" "hub_reg_status (g_ezdev_sdk_kernel w) = 1" by (simp_all add: to_hub_names)
  show ?thesis
  proof (cases "sdk_hub_extend_get (s3_extend_id m) w")
    case None
    then have "\<forall>j < HUB_EXTEND_MAX_NUM. hub_extend_id (g_kernel_hub_extend w ! j) \<noteq> s3_extend_id m"
      by (auto simp: sdk_hub_extend_get_def find_None_iff)
    then show ?thesis using True None no_hub_module [OF n] by (simp add: delivery_v3_def)
  next
    case (Some i)
    then have i: "i < HUB_EXTEND_MAX_NUM" "hub_extend_id (g_kernel_hub_extend w ! i) = s3_extend_id m"
      "\<forall>j < i. hub_extend_id (g_kernel_hub_extend w ! j) \<noteq> s3_extend_id m"
      by (auto simp: sdk_hub_extend_get_def find_upt)
    obtain f where "hub_data_route (g_kernel_hub_extend w ! i) = Some f" using assms(2) True Some by (auto simp: hub_ok_def)
    then show ?thesis using sub_device [OF n i] True Some by (simp add: delivery_v3_def)
  qed
next
  case False
  then have n: "\<not> names_subdev m \<or> hub_reg_status (g_ezdev_sdk_kernel w) \<noteq> 1" by (simp add: to_hub_names)
  have wf: "extends_wf w" using assms(1) by (simp add: modules_ok_def)
  have keys: "\<forall>e \<in> set (extends_v3 w). k3_extend_id e \<noteq> 0" by (auto simp: extends_v3_def dest: set_takeWhileD)
  show ?thesis
  proof (cases "s3_extend_id m = 0")
    case True
    then have "\<forall>e \<in> set (extends_v3 w). k3_extend_id e \<noteq> s3_extend_id m" using keys by simp
    then show ?thesis using False True nobody [OF n] by (simp add: delivery_v3_def)
  next
    case nz: False
    have l: "extend_lookup_v3 (s3_extend_id m) w = List.find (\<lambda>e. k3_extend_id e = s3_extend_id m) (extends_v3 w)"
      using extends.lookup_find [OF wf nz] .
    show ?thesis
    proof (cases "List.find (\<lambda>e. k3_extend_id e = s3_extend_id m) (extends_v3 w)")
      case None
      then have "\<forall>e \<in> set (extends_v3 w). k3_extend_id e \<noteq> s3_extend_id m" by (simp add: find_None_iff)
      then show ?thesis using False nz l None nobody [OF n] by (simp add: delivery_v3_def)
    next
      case (Some e)
      then have e: "e \<in> set (extends_v3 w)" "k3_extend_id e = s3_extend_id m" by (auto simp: find_Some_iff)
      obtain f where "k3_data_route e = Some f" using assms(1) e(1) by (auto simp: modules_ok_def)
      then show ?thesis using extension [OF n e] False nz l Some by (simp add: delivery_v3_def)
    qed
  qed
qed

definition demo_ext_v3 :: ezdev_sdk_kernel_extend_v3 where
  "demo_ext_v3 = zero_extend_v3\<lparr>k3_extend_id := 5, k3_data_route := Some 6\<rparr>"

definition demo_hub_ext :: ezdev_sdk_kernel_hub_extend where
  "demo_hub_ext = zero_hub_extend\<lparr>hub_extend_id := 5, hub_data_route := Some 8\<rparr>"

text \<open>The hub is registered, with one extension and one hub module of the same id.\<close>

definition demo_hub_world :: world where
  "demo_hub_world = (demo_world calm_env)\<lparr>g_kernel_extend := demo_ext_v3 # replicate 7 zero_extend_v3,
     g_kernel_hub_extend := demo_hub_ext # replicate 15 zero_hub_extend,
     g_ezdev_sdk_kernel := (g_ezdev_sdk_kernel (demo_world calm_env))\<lparr>hub_reg_status := 1\<rparr>\<rparr>"

definition demo_submsg_v3 :: "string \<Rightarrow> ezdev_sdk_kernel_submsg_v3" where
  "demo_submsg_v3 sn = zero_submsg_v3\<lparr>s3_extend_id := 5, s3_sub_serial := sn, s3_buf := Some [1], s3_buf_len := 1\<rparr>"

lemma demo_hub_modules:
  "extends_v3 demo_hub_world = [demo_ext_v3]" "modules_ok demo_hub_world"
proof -
  show e: "extends_v3 demo_hub_world = [demo_ext_v3]"
    by (simp add: extends_v3_def demo_hub_world_def demo_ext_v3_def zero_extend_v3_def takeWhile_replicate)
  have "extends_wf demo_hub_world"
    by (simp add: extends_wf_def table_wf_def ezdev_sdk_extend_count_def demo_hub_world_def demo_ext_v3_def zero_extend_v3_def takeWhile_replicate
      demo_world_simps demo_init_simps boot_world_def)
  moreover have "domains_wf demo_hub_world" "domain_extends demo_hub_world = [demo_extend]"
    "g_kernel_event_notice_cb demo_hub_world = Some 9"
    using demo_tables(1,3) [of calm_env]
    by (simp_all add: domains_wf_def domain_extends_def demo_hub_world_def demo_world_simps demo_init_simps)
  ultimately show "modules_ok demo_hub_world"
    using e by (simp add: modules_ok_def demo_ext_v3_def callbacks_ok_def demo_extend_def)
qed

text \<open>
  C24: The user thread hands every queued message of protocol 3.0, once and in the order of the queue, to the module it is
  routed to, and to nobody else; all message blocks are freed, nothing but the queue, the heap
  counter and the trace changes, and no null pointer is called.
\<close>

theorem server_messages_v3_delivered:
  assumes "queue_inv (g_queue_submsg_v3 w)" and "modules_ok w"
    and "\<forall>m \<in> set (qmsgs (g_queue_submsg_v3 w)). hub_ok w m"
  shows "\<exists>q m ds. consume_extend_data_v3 w = (mkernel_internal_queue_empty,
           w\<lparr>g_queue_submsg_v3 := q, heap := m, trace := rev (concat ds) @ trace w\<rparr>) \<and>
         list_all2 (routed_v3 w) (qmsgs (g_queue_submsg_v3 w)) ds \<and> queue_inv q \<and> qmsgs q = [] \<and>
         live m = live (heap w) - held blk_submsg_v3 (g_queue_submsg_v3 w)"
proof -
  have "list_all2 (routed_v3 w) (qmsgs (g_queue_submsg_v3 w)) (map (delivery_v3 w) (qmsgs (g_queue_submsg_v3 w)))"
    using delivery_routed [OF assms(2)] assms(3) by (simp add: list.rel_map list_all2_same)
  then show ?thesis using consume_data_v3_spec [OF assms] by blast
qed

theorem server_messages_v3_delivered_witness:
  "\<exists>q. let w = demo_hub_world\<lparr>g_queue_submsg_v3 := q\<rparr> in
     qmsgs q = [demo_submsg_v3 ''SUB'', demo_submsg_v3 ''''] \<and>
     trace (snd (consume_extend_data_v3 w)) =
       [Do_data_route_v3 6 (demo_submsg_v3 '''') None, Do_hub_data_route 8 (demo_submsg_v3 ''SUB'')]"
proof -
  let ?a = "demo_submsg_v3 ''SUB''" and ?b = "demo_submsg_v3 ''''"
  obtain q where q: "queue_inv q" "qmsgs q = [?a, ?b]"
    using mq.run_pushes_msgs [of "snd (init_queue1 4 True)" "[?a, ?b]" "\<lparr>m_ok = (\<lambda>_. True), m_calls = 0, live = 0\<rparr>"] by auto
  let ?w = "demo_hub_world\<lparr>g_queue_submsg_v3 := q\<rparr>"
  have t: "g_kernel_hub_extend ?w ! 0 = demo_hub_ext" "hub_reg_status (g_ezdev_sdk_kernel ?w) = 1" "trace ?w = []"
    "extends_v3 ?w = [demo_ext_v3]"
    using demo_hub_modules(1) by (simp_all add: demo_hub_world_def demo_world_simps demo_init_simps boot_world_def extends_v3_def)
  have hub: "sdk_hub_extend_get 5 ?w = Some 0"
    using t(1) by (simp add: sdk_hub_extend_get_def find_upt demo_hub_ext_def HUB_EXTEND_MAX_NUM_def)
  have "hub_ok ?w ?a" "hub_ok ?w ?b"
    using hub t(1) by (simp_all add: hub_ok_def demo_submsg_v3_def demo_hub_ext_def)
  then obtain ds q1 m where c: "consume_extend_data_v3 ?w = (mkernel_internal_queue_empty, ?w\<lparr>g_queue_submsg_v3 := q1, heap := m,
      trace := rev (concat ds) @ trace ?w\<rparr>)" "list_all2 (routed_v3 ?w) [?a, ?b] ds"
    using server_messages_v3_delivered [of ?w] q demo_hub_modules(2) by auto
  then obtain x y where ds: "ds = [x, y]" "routed_v3 ?w ?a x" "routed_v3 ?w ?b y" by (auto simp: list_all2_Cons1)
  have na: "names_subdev ?a" "\<not> names_subdev ?b" by (simp_all add: names_subdev_def demo_submsg_v3_def sdk_shadow_def)
  have id: "s3_extend_id ?a = 5" "s3_extend_id ?b = 5" by (simp_all add: demo_submsg_v3_def)
  have h0: "hub_extend_id (g_kernel_hub_extend ?w ! 0) = 5" "hub_data_route (g_kernel_hub_extend ?w ! 0) = Some 8"
    using t(1) by (simp_all add: demo_hub_ext_def)
  from ds(2) have x: "x = [Do_hub_data_route 8 ?a]"
  proof (cases rule: routed_v3.cases)
    case (sub_device i f)
    then have "i = 0" using h0(1) id(1) by (metis not_gr_zero)
    then show ?thesis using sub_device h0(2) by simp
  next
    case no_hub_module
    then show ?thesis using h0(1) id(1) by (auto simp: HUB_EXTEND_MAX_NUM_def)
  qed (use na(1) t(2) in blast)+
  from ds(3) have y: "y = [Do_data_route_v3 6 ?b None]"
  proof (cases rule: routed_v3.cases)
    case (extension e f)
    then show ?thesis using t(4) by (simp add: demo_ext_v3_def zero_extend_v3_def)
  next
    case nobody
    then show ?thesis using t(4) id(2) by (simp add: demo_ext_v3_def)
  qed (use na(2) in blast)+
  have "trace (snd (consume_extend_data_v3 ?w)) = [Do_data_route_v3 6 ?b None, Do_hub_data_route 8 ?a]"
    unfolding c(1) using ds(1) x y t(3) by simp
  then show ?thesis using q(2) unfolding Let_def by blast
qed

lemma filter_find:
  "distinct (map key es) \<Longrightarrow>
   filter (\<lambda>e. key e = k) es = (case List.find (\<lambda>e. key e = k) es of None \<Rightarrow> [] | Some e \<Rightarrow> [e])"
proof (induction es)
  case (Cons e es)
  show ?case
  proof (cases "key e = k")
    case True
    then have "k \<notin> key ` set es" using Cons.prems by auto
    then have "filter (\<lambda>e. key e = k) es = []" by (auto simp: filter_empty_conv)
    then show ?thesis using True by simp
  qed (use Cons in simp)
qed simp

definition demo_receipt :: ezdev_sdk_kernel_inner_cb_notic where
  "demo_receipt = \<lparr>cb_type = extend_cb_event, cb_event =
     \<lparr>event_type = sdk_kernel_event_runtime_err, event_context = Some (Ctx_runtime_err
       \<lparr>err_tag = TAG_MSG_ACK, err_code = 0, err_ctx = Some (Ack_ctx
         \<lparr>ak_msg_domain_id = 1500, ak_msg_command_id = 7, ak_msg_seq = 1, ak_msg_qos = QOS_T1,
          ak_externel_ctx = None, ak_externel_ctx_len = 0\<rparr>)\<rparr>)\<rparr>\<rparr>"

text \<open>
  C12: The receipt of a message of protocol 2.0 is private: dispatching the event calls the module of the
  domain that sent the message, once, and nobody else; the application does not see it, and without
  such a module nothing happens.
\<close>

theorem receipt_is_private:
  assumes "modules_ok w" and "notic_ok n" and "cb_type n = extend_cb_event"
    and "event_ack (cb_event n) = (Some a, False)" and "ak_msg_domain_id a \<noteq> 0"
  shows "dispatch_notic n w =
    (case List.find (\<lambda>e. ke_domain_id e = ak_msg_domain_id a) (domain_extends w) of None \<Rightarrow> w
     | Some e \<Rightarrow> act (Do_extend_event (the (ke_extend_event e)) (cb_event n) (ke_pUser e)) w)"
proof -
  have "domains_wf w" using assms(1) by (simp add: modules_ok_def)
  then have "notic_actions w n = (case List.find (\<lambda>e. ke_domain_id e = ak_msg_domain_id a) (domain_extends w) of None \<Rightarrow> []
     | Some e \<Rightarrow> [Do_extend_event (the (ke_extend_event e)) (cb_event n) (ke_pUser e)])"
    using assms(3-5) domains.distinct_keys [of w]
    by (simp add: notic_actions_def event_actions_def filter_find split: option.split)
  then show ?thesis using dispatch_notic_eq [OF assms(1,2)] by (simp add: act_def split: option.split)
qed

theorem receipt_is_private_witness:
  "dispatch_notic demo_receipt (demo_world calm_env) = act (Do_extend_event 4 (cb_event demo_receipt) None) (demo_world calm_env)"
proof -
  have "notic_ok demo_receipt" by (simp add: demo_receipt_def notic_ok_def err_ctx_ok_def)
  from receipt_is_private [OF demo_modules_ok this, of "\<lparr>ak_msg_domain_id = 1500, ak_msg_command_id = 7, ak_msg_seq = 1, ak_msg_qos = QOS_T1,
          ak_externel_ctx = None, ak_externel_ctx_len = 0\<rparr>" calm_env]
  show ?thesis by (simp add: demo_receipt_def event_ack_def demo_tables demo_extend_def)
qed

text \<open>
  Registration round trip: a module that was registered successfully is what the lookup of
  its domain finds, lookups of other domains are not affected, and the table stays well formed.
\<close>

theorem module_load_lookup:
  assumes "domains_wf w" and "ke_domain_id e \<noteq> 0"
    and "extend_load e w = (mkernel_internal_succ, w')"
  shows "domains_wf w' \<and> domain_lookup (ke_domain_id e) w' = Some e \<and>
         (\<forall>k. k \<noteq> 0 \<longrightarrow> k \<noteq> ke_domain_id e \<longrightarrow> domain_lookup k w' = domain_lookup k w)"
  using assms by (rule domains.load_lookup)

theorem module_load_lookup_witness:
  "domain_lookup 1501 (snd (extend_load (demo_extend\<lparr>ke_domain_id := 1501\<rparr>) (demo_world calm_env))) =
     Some (demo_extend\<lparr>ke_domain_id := 1501\<rparr>)"
proof -
  let ?e = "demo_extend\<lparr>ke_domain_id := 1501\<rparr>"
  have "fst (extend_load ?e (demo_world calm_env)) = mkernel_internal_succ"
    using domains.load_fails(1) [of "demo_world calm_env" ?e]
      domains.lookup_find [of "demo_world calm_env" 1501]
    by (simp add: demo_tables) (simp add: demo_world_simps demo_init_simps demo_extend_def)
  then obtain w' where w': "extend_load ?e (demo_world calm_env) = (mkernel_internal_succ, w')"
    by (cases "extend_load ?e (demo_world calm_env)") simp
  from module_load_lookup [OF demo_tables(1) _ w'] have "domain_lookup (ke_domain_id ?e) w' = Some ?e"
    by simp
  then show ?thesis using w' by simp
qed

text \<open>
  Registration fails exactly when the domain is taken or all entries are used, and then
  changes nothing.
\<close>

theorem module_load_fails:
  assumes "domains_wf w" and "ke_domain_id e \<noteq> 0"
  shows "(fst (extend_load e w) = mkernel_internal_succ \<longleftrightarrow>
            domain_lookup (ke_domain_id e) w = None \<and>
            length (domain_extends w) < unat (g_kernel_domains_count w)) \<and>
         (fst (extend_load e w) \<noteq> mkernel_internal_succ \<longrightarrow> snd (extend_load e w) = w)"
  using domains.load_fails [OF assms] by blast

theorem module_load_fails_witness:
  "snd (extend_load demo_extend (demo_world calm_env)) = demo_world calm_env"
proof -
  have "fst (extend_load demo_extend (demo_world calm_env)) \<noteq> mkernel_internal_succ"
    using module_load_fails [of "demo_world calm_env" demo_extend] demo_lookup [of calm_env]
    by (simp add: demo_tables) (simp add: demo_extend_def)
  then show ?thesis
    using module_load_fails [of "demo_world calm_env" demo_extend]
    by (simp add: demo_tables) (simp add: demo_extend_def)
qed

text \<open>
  An empty entry of the table answers the lookup of domain 0.  While the table is not full,
  a message of the server for domain 0 therefore makes the user thread call the null pointer in
  that entry.
\<close>

theorem domain_zero_calls_null:
  assumes "domains_wf w" and "length (domain_extends w) < unat (g_kernel_domains_count w)"
    and "\<forall>d \<in> set (g_kernel_domains w). domain_key d = 0 \<longrightarrow> ke_extend_data_route (kernel_extend d) = None"
    and "sm_msg_domain_id m = 0"
  shows "fault (route_v2 m w)"
proof -
  let ?ds = "g_kernel_domains w"
  have len: "length ?ds = unat (g_kernel_domains_count w)" using assms(1) by (simp add: domains_wf_def)
  have "length (used domain_key ?ds) < length ?ds" using assms(2) len by (simp add: domain_extends_def)
  then have "used domain_key ?ds \<noteq> ?ds" by force
  then have "0 \<in> domain_key ` set ?ds" by (force simp: takeWhile_eq_all_conv)
  then obtain d where f: "List.find (\<lambda>d. domain_key d = 0) ?ds = Some d"
    using find_key_None [of domain_key 0 ?ds] by (cases "List.find (\<lambda>d. domain_key d = 0) ?ds") blast+
  then have d: "domain_key d = 0" "d \<in> set ?ds" by (auto simp: find_Some_iff)
  obtain i where i: "extend_get 0 w = Some i" "?ds ! i = d"
    using find_upt_nth [of ?ds "\<lambda>d. domain_key d = 0"] f by (auto simp: extend_get_def len)
  then show ?thesis
    using d assms(3,4) by (simp add: route_v2_def undefined_behaviour_def)
qed

theorem domain_zero_calls_null_witness:
  "fault (route_v2 zero_submsg (demo_world calm_env))"
proof (rule domain_zero_calls_null)
  show "domains_wf (demo_world calm_env)" by (rule demo_tables)
  show "length (domain_extends (demo_world calm_env)) < unat (g_kernel_domains_count (demo_world calm_env))"
    by (simp add: demo_tables) (simp add: demo_world_simps demo_init_simps)
  show "\<forall>d \<in> set (g_kernel_domains (demo_world calm_env)).
      domain_key d = 0 \<longrightarrow> ke_extend_data_route (kernel_extend d) = None"
    by (auto simp: demo_world_simps demo_init_simps boot_world_def ezdev_sdk_extend_count_def
        zero_domain_info_def zero_extend_def demo_extend_def)
  show "sm_msg_domain_id zero_submsg = 0" by (simp add: zero_submsg_def)
qed

text \<open>
  Destroying the queues frees everything they hold except the bodies and user data of the
  messages of protocol 2.0 that are still waiting to be sent, which leak.
\<close>

theorem fini_queue_frees:
  assumes "queues_ok w"
  shows "\<exists>m. fini_queue w = w\<lparr>g_queue_submsg := zero_queue, g_queue_pubmsg_exchange := zero_queue,
       g_queue_inner_cb_notic := zero_queue, g_queue_submsg_v3 := zero_queue,
       g_queue_pubmsg_exchange_v3 := zero_queue, heap := m\<rparr> \<and>
     live m = live (heap w) - owned w +
       (\<Sum>p\<leftarrow>qmsgs (g_queue_pubmsg_exchange w). int (blk_pubmsg p) - 1)"
  using assms by (rule fini_queue_spec)

theorem fini_queue_frees_witness:
  "qmsgs (g_queue_submsg (fini_queue (demo_world calm_env))) = []"
proof -
  have "queues_ok (demo_world calm_env)" by (simp add: queues_ok_def)
  from fini_queue_frees [OF this] show ?thesis by auto
qed

end
