(* ===== verification/Events.thy ===== *)
theory Events
  imports Extend
begin

text \<open>
  microkernel/src/ezdev_sdk_kernel_event.c: the events the kernel thread queues for the user
  thread.  While the kernel thread sleeps because the queue is full, the user thread may take
  events off it; the environment says how many.
\<close>

section \<open>Operations\<close>

definition time_sleep :: "nat \<Rightarrow> world \<Rightarrow> world" where
  "time_sleep ms w = (case ask e_consume w of
     (k, w1) \<Rightarrow> ((\<lambda>v. snd (consume_extend_event v)) ^^ k) (act (Do_sleep ms) w1))"

text \<open>The loop of \<open>push_event_to_queue\<close>; \<open>count\<close> is its counter of attempts.\<close>

function push_event_loop ::
  "nat \<Rightarrow> ezdev_sdk_kernel_inner_cb_notic \<Rightarrow> world \<Rightarrow> mkernel_internal_error \<times> world" where
  "push_event_loop count n w =
     (case push_queue_inner_cb_notic n w of (r, w1) \<Rightarrow>
        if r = mkernel_internal_queue_full
        then (let w2 = time_sleep 10 w1
              in if count > 50 then (r, w2) else push_event_loop (Suc count) n w2)
        else (r, w1))"
  by pat_completeness auto
termination
  by (relation "measure (\<lambda>(count, _, _). 52 - count)") auto

declare push_event_loop.simps [simp del]

definition push_event_to_queue ::
  "ezdev_sdk_kernel_inner_cb_notic option \<Rightarrow> world \<Rightarrow> mkernel_internal_error \<times> world" where
  "push_event_to_queue p w = (case p of
       None \<Rightarrow> (mkernel_internal_input_param_invalid, w)
     | Some n \<Rightarrow> push_event_loop 0 n w)"

definition plain_notic :: "extend_cb_type \<Rightarrow> sdk_kernel_event_type \<Rightarrow> event_ctx option \<Rightarrow>
    ezdev_sdk_kernel_inner_cb_notic" where
  "plain_notic t e c = \<lparr>cb_type = t, cb_event = \<lparr>event_type = e, event_context = c\<rparr>\<rparr>"

definition broadcast_user_start :: "world \<Rightarrow> mkernel_internal_error \<times> world" where
  "broadcast_user_start w = (case w_malloc w of (ok, w1) \<Rightarrow>
     if \<not> ok then (mkernel_internal_malloc_error, w1)
     else push_event_to_queue (Some (plain_notic extend_cb_start sdk_kernel_event_online None)) w1)"

definition broadcast_user_stop :: "world \<Rightarrow> mkernel_internal_error \<times> world" where
  "broadcast_user_stop w = (case w_malloc w of (ok, w1) \<Rightarrow>
     if \<not> ok then (mkernel_internal_malloc_error, w1)
     else push_event_to_queue (Some (plain_notic extend_cb_stop sdk_kernel_event_online None)) w1)"

text \<open>The context is copied into a block of its own.\<close>

definition broadcast_user_event ::
  "sdk_kernel_event_type \<Rightarrow> event_ctx option \<Rightarrow> world \<Rightarrow> mkernel_internal_error \<times> world" where
  "broadcast_user_event ev ctx w = (case w_malloc w of (ok, w1) \<Rightarrow>
     if \<not> ok then (mkernel_internal_malloc_error, w1)
     else (case (if ctx = None then (True, w1) else w_malloc w1) of (ok2, w2) \<Rightarrow>
       if \<not> ok2 then (mkernel_internal_malloc_error, w_free w2)
       else (case push_event_to_queue (Some (plain_notic extend_cb_event ev ctx)) w2 of
         (rv, w3) \<Rightarrow>
           if rv \<noteq> mkernel_internal_succ then (rv, w_free_opt ctx (w_free w3)) else (rv, w3))))"

text \<open>
  The receipt is copied too, but the copy still points to the user's data: the event takes
  that block over when it is queued.
\<close>

definition broadcast_runtime_err ::
  "err_tag_e \<Rightarrow> ezdev_sdk_kernel_error \<Rightarrow> err_ctx option \<Rightarrow> world \<Rightarrow> mkernel_internal_error \<times> world" where
  "broadcast_runtime_err tag code ctx w =
     (case (if ctx = None then (True, w) else w_malloc w) of (ok, w1) \<Rightarrow>
        if \<not> ok then (mkernel_internal_malloc_error, w1)
        else (case broadcast_user_event sdk_kernel_event_runtime_err
                     (Some (Ctx_runtime_err \<lparr>err_tag = tag, err_code = code, err_ctx = ctx\<rparr>)) w1 of
          (rv, w2) \<Rightarrow>
            if rv \<noteq> mkernel_internal_succ then (rv, w_free_opt ctx w2) else (rv, w2)))"

definition broadcast_user_event_reconnect_success :: "world \<Rightarrow> mkernel_internal_error \<times> world" where
  "broadcast_user_event_reconnect_success w = (case w_malloc w of (ok, w1) \<Rightarrow>
     if \<not> ok then (mkernel_internal_malloc_error, w1)
     else push_event_to_queue
            (Some (plain_notic extend_cb_event sdk_kernel_event_reconnect_success None)) w1)"

definition das_keepalive_interval_changed_event_cb :: "int \<Rightarrow> world \<Rightarrow> mkernel_internal_error \<times> world" where
  "das_keepalive_interval_changed_event_cb interval w = (case w_malloc w of (ok, w1) \<Rightarrow>
     if \<not> ok then (mkernel_internal_malloc_error, w1)
     else (case w_malloc w1 of (ok2, w2) \<Rightarrow>
       if \<not> ok2 then (mkernel_internal_malloc_error, w_free w2)
       else push_event_to_queue (Some (plain_notic extend_cb_event
              sdk_kernel_event_heartbeat_interval_changed (Some (Ctx_int interval)))) w2))"

section \<open>What an event operation may change\<close>

text \<open>
  The part of the state the event queue depends on is in order: the queue is well formed, the
  pointers in its events are typed correctly and the modules have their callbacks.
\<close>

definition ev_inv :: "world \<Rightarrow> bool" where
  "ev_inv w \<longleftrightarrow> queue_inv (g_queue_inner_cb_notic w) \<and> modules_ok w \<and>
     (\<forall>n \<in> set (qmsgs (g_queue_inner_cb_notic w)). notic_ok n)"

text \<open>
  \<open>ev_step d w w'\<close>: from \<open>w\<close> to \<open>w'\<close> only the event queue, the heap, the clock and the trace
  changed, the invariant still holds and the blocks outside the queues changed by \<open>d\<close>.
\<close>

definition ev_step :: "int \<Rightarrow> world \<Rightarrow> world \<Rightarrow> bool" where
  "ev_step d w w' \<longleftrightarrow>
     w' = w\<lparr>g_queue_inner_cb_notic := g_queue_inner_cb_notic w', heap := heap w', tick := tick w',
            trace := trace w'\<rparr> \<and>
     qcap (g_queue_inner_cb_notic w') = qcap (g_queue_inner_cb_notic w) \<and>
     ev_inv w' \<and> slack w' = slack w + d"

lemma ev_step_refl [simp]: "ev_inv w \<Longrightarrow> ev_step 0 w w"
  by (simp add: ev_step_def)

lemma ev_step_trans:
  assumes "ev_step d w w1" and "ev_step e w1 w2"
  shows "ev_step (d + e) w w2"
proof -
  have 1: "w1 = w\<lparr>g_queue_inner_cb_notic := g_queue_inner_cb_notic w1, heap := heap w1,
      tick := tick w1, trace := trace w1\<rparr>"
    using assms(1) by (simp add: ev_step_def)
  have "w1\<lparr>g_queue_inner_cb_notic := q, heap := m, tick := k, trace := t\<rparr> =
        w\<lparr>g_queue_inner_cb_notic := q, heap := m, tick := k, trace := t\<rparr>" for q m k t
    by (subst 1) simp
  then show ?thesis using assms by (simp add: ev_step_def)
qed

lemma ev_step_inv: "ev_step d w w' \<Longrightarrow> ev_inv w'"
  by (simp add: ev_step_def)

lemma ev_step_frame:
  assumes "ev_step d w w'"
  shows "g_ezdev_sdk_kernel w' = g_ezdev_sdk_kernel w"
    "g_queue_submsg w' = g_queue_submsg w" "g_queue_submsg_v3 w' = g_queue_submsg_v3 w"
    "g_queue_pubmsg_exchange w' = g_queue_pubmsg_exchange w"
    "g_queue_pubmsg_exchange_v3 w' = g_queue_pubmsg_exchange_v3 w"
    "g_kernel_domains w' = g_kernel_domains w" "g_kernel_domains_count w' = g_kernel_domains_count w"
    "g_kernel_extend w' = g_kernel_extend w" "g_kernel_extend_count w' = g_kernel_extend_count w"
    "g_kernel_hub_extend w' = g_kernel_hub_extend w" "g_common_module w' = g_common_module w"
    "g_kernel_event_notice_cb w' = g_kernel_event_notice_cb w"
    "g_das_transport_seq w' = g_das_transport_seq w" "g_binding_nic w' = g_binding_nic w"
    "g_is_reboot w' = g_is_reboot w"
    "g_DasClient_keepAliveInterval w' = g_DasClient_keepAliveInterval w"
    "env w' = env w" "fault w' = fault w"
proof -
  have "w' = w\<lparr>g_queue_inner_cb_notic := g_queue_inner_cb_notic w', heap := heap w', tick := tick w',
      trace := trace w'\<rparr>"
    using assms by (simp add: ev_step_def)
  note f = arg_cong [OF this]
  show "g_ezdev_sdk_kernel w' = g_ezdev_sdk_kernel w"
    "g_queue_submsg w' = g_queue_submsg w" "g_queue_submsg_v3 w' = g_queue_submsg_v3 w"
    "g_queue_pubmsg_exchange w' = g_queue_pubmsg_exchange w"
    "g_queue_pubmsg_exchange_v3 w' = g_queue_pubmsg_exchange_v3 w"
    "g_kernel_domains w' = g_kernel_domains w" "g_kernel_domains_count w' = g_kernel_domains_count w"
    "g_kernel_extend w' = g_kernel_extend w" "g_kernel_extend_count w' = g_kernel_extend_count w"
    "g_kernel_hub_extend w' = g_kernel_hub_extend w" "g_common_module w' = g_common_module w"
    "g_kernel_event_notice_cb w' = g_kernel_event_notice_cb w"
    "g_das_transport_seq w' = g_das_transport_seq w" "g_binding_nic w' = g_binding_nic w"
    "g_is_reboot w' = g_is_reboot w"
    "g_DasClient_keepAliveInterval w' = g_DasClient_keepAliveInterval w"
    "env w' = env w" "fault w' = fault w"
    using f [of g_ezdev_sdk_kernel] f [of g_queue_submsg] f [of g_queue_submsg_v3]
      f [of g_queue_pubmsg_exchange] f [of g_queue_pubmsg_exchange_v3] f [of g_kernel_domains]
      f [of g_kernel_domains_count] f [of g_kernel_extend] f [of g_kernel_extend_count]
      f [of g_kernel_hub_extend] f [of g_common_module] f [of g_kernel_event_notice_cb]
      f [of g_das_transport_seq] f [of g_binding_nic] f [of g_is_reboot]
      f [of g_DasClient_keepAliveInterval] f [of env] f [of fault]
    by simp_all
qed

lemma owned_frame [simp]:
  "owned (w\<lparr>heap := m\<rparr>) = owned w" "owned (w\<lparr>tick := k\<rparr>) = owned w" "owned (w\<lparr>trace := t\<rparr>) = owned w"
  "owned (w\<lparr>g_queue_inner_cb_notic := q\<rparr>) =
     owned w - held blk_notic (g_queue_inner_cb_notic w) + held blk_notic q"
  by (simp_all add: owned_def)

lemma ev_inv_frame [simp]:
  "ev_inv (w\<lparr>heap := m\<rparr>) = ev_inv w" "ev_inv (w\<lparr>tick := k\<rparr>) = ev_inv w" "ev_inv (w\<lparr>trace := t\<rparr>) = ev_inv w"
  by (simp_all add: ev_inv_def modules_ok_def domains_wf_def extends_wf_def domain_extends_def extends_v3_def)

lemma ev_step_heap:
  "ev_inv w \<Longrightarrow> ev_step (live m - live (heap w)) w (w\<lparr>heap := m\<rparr>)"
  by (simp add: ev_step_def slack_def)

lemma ev_step_malloc:
  "ev_inv w \<Longrightarrow> w_malloc w = (ok, w') \<Longrightarrow> ev_step (if ok then 1 else 0) w w'"
  using ev_step_heap [of w "snd (malloc (heap w))"] live_malloc [of "heap w"]
  by (auto simp: w_malloc_def split: prod.splits)

lemma ev_step_free: "ev_inv w \<Longrightarrow> ev_step (- 1) w (w_free w)"
  using ev_step_heap [of w "free (heap w)"] by (simp add: w_free_def live_free)

lemma ev_step_free_opt: "ev_inv w \<Longrightarrow> ev_step (- int (blk p)) w (w_free_opt p w)"
  using ev_step_heap [of w "free_opt p (heap w)"] by (simp add: w_free_opt_def live_free_opt)

lemma ev_step_consume:
  assumes "ev_inv w"
  shows "ev_step 0 w (snd (consume_extend_event w))"
proof (cases "qmsgs (g_queue_inner_cb_notic w)")
  case Nil
  then obtain q where "consume_extend_event w =
      (mkernel_internal_queue_empty, w\<lparr>g_queue_inner_cb_notic := q\<rparr>)" "queue_inv q" "qmsgs q = []"
      "qcap q = qcap (g_queue_inner_cb_notic w)"
    using consume_event_Nil [of w] assms by (auto simp: ev_inv_def)
  then show ?thesis
    using assms Nil unfolding ev_step_def
    by (auto simp: ev_inv_def slack_def)
next
  case (Cons n ns)
  then obtain q m where e: "consume_extend_event w = (mkernel_internal_succ,
      w\<lparr>g_queue_inner_cb_notic := q, heap := m, trace := rev (notic_actions w n) @ trace w\<rparr>)"
      "queue_inv q" "qmsgs q = ns" "qcap q = qcap (g_queue_inner_cb_notic w)"
      "live m = live (heap w) - 1 - int (blk_notic n)"
    using consume_event_Cons [of w n ns] assms by (auto simp: ev_inv_def)
  have "held blk_notic (g_queue_inner_cb_notic w) = held blk_notic q + 1 + int (blk_notic n)"
    using Cons e by simp
  then show ?thesis
    using assms Cons e unfolding ev_step_def
    by (auto simp: ev_inv_def slack_def)
qed

lemma ev_step_tick_act: "ev_inv w \<Longrightarrow> ev_step 0 w (w\<lparr>tick := k, trace := t\<rparr>)"
  by (simp add: ev_step_def slack_def)

lemma ev_step_sleep:
  assumes "ev_inv w"
  shows "ev_step 0 w (time_sleep ms w)"
proof -
  have "ev_step 0 v (((\<lambda>v. snd (consume_extend_event v)) ^^ k) v)" if "ev_inv v" for v k
  proof (induction k)
    case 0
    then show ?case using that by simp
  next
    case (Suc k)
    then show ?case
      using ev_step_trans [OF Suc ev_step_consume [OF ev_step_inv [OF Suc]]] by simp
  qed
  from this [of "w\<lparr>tick := Suc (tick w), trace := Do_sleep ms # trace w\<rparr>" "e_consume (env w) (tick w)"]
  show ?thesis
    using ev_step_trans [OF ev_step_tick_act [OF assms, where k = "Suc (tick w)" and t = "Do_sleep ms # trace w"]] assms
    by (simp add: time_sleep_def ask_def act_def)
qed

section \<open>Queueing an event\<close>

text \<open>
  An event that is queued hands its blocks to the queue; one that is not leaves everything as
  it was.
\<close>

lemma push_notic_step:
  assumes inv: "ev_inv w" and n: "notic_ok n" and p: "push_queue_inner_cb_notic n w = (r, w')"
  shows "ev_step (if r = mkernel_internal_succ then - int (blk_notic n) else 0) w w' \<and>
         r \<in> {mkernel_internal_succ, mkernel_internal_queue_full, mkernel_internal_malloc_error} \<and>
         (r = mkernel_internal_queue_full \<longleftrightarrow>
            length (qmsgs (g_queue_inner_cb_notic w)) = qcap (g_queue_inner_cb_notic w))"
proof -
  have q: "queue_inv (g_queue_inner_cb_notic w)" using inv by (simp add: ev_inv_def)
  from p show ?thesis unfolding push_queue_inner_cb_notic_def
  proof (cases rule: notic.push_cases [OF q, of n, case_names ok full nomem])
    case (ok q1 m)
    then have w': "w' = w\<lparr>g_queue_inner_cb_notic := q1, heap := m\<rparr>" "r = mkernel_internal_succ"
      using p by (simp_all add: push_queue_inner_cb_notic_def)
    have "held blk_notic q1 = held blk_notic (g_queue_inner_cb_notic w) + 1 + int (blk_notic n)"
      using ok by simp
    moreover have "ev_inv w'"
      using ok inv n unfolding w' by (auto simp: ev_inv_def)
    ultimately show ?thesis
      using ok unfolding ev_step_def w'
      by (auto simp: slack_def)
  next
    case full
    then show ?thesis using p inv by (simp add: push_queue_inner_cb_notic_def)
  next
    case (nomem m)
    then show ?thesis using p inv ev_step_heap [OF inv, of m]
      by (auto simp: push_queue_inner_cb_notic_def)
  qed
qed

lemma push_event_loop_step:
  assumes "ev_inv w" and "notic_ok n" and "push_event_loop count n w = (r, w')"
  shows "ev_step (if r = mkernel_internal_succ then - int (blk_notic n) else 0) w w' \<and>
         r \<in> {mkernel_internal_succ, mkernel_internal_queue_full, mkernel_internal_malloc_error}"
  using assms
proof (induction count n w arbitrary: r w' rule: push_event_loop.induct)
  case (1 count n w)
  obtain r1 w1 where p: "push_queue_inner_cb_notic n w = (r1, w1)"
    by (cases "push_queue_inner_cb_notic n w")
  note s = push_notic_step [OF 1(2,3) p]
  show ?case
  proof (cases "r1 = mkernel_internal_queue_full")
    case False
    then have "r1 = r \<and> w1 = w'" using 1(4) p by (simp add: push_event_loop.simps [of count])
    then show ?thesis using s by blast
  next
    case True
    have s1: "ev_step 0 w w1" using s by (simp add: True)
    have s2: "ev_step 0 w (time_sleep 10 w1)"
      using ev_step_trans [OF s1 ev_step_sleep [OF ev_step_inv [OF s1]]] by simp
    show ?thesis
    proof (cases "count > 50")
      case t: True
      then show ?thesis using 1(4) True p s2 by (simp add: push_event_loop.simps [of count])
    next
      case f: False
      have "push_event_loop (Suc count) n (time_sleep 10 w1) = (r, w')"
        using 1(4) True p f by (simp add: push_event_loop.simps [of count])
      then show ?thesis
        using 1(1) [OF p [symmetric] True refl f ev_step_inv [OF s2] 1(3)] ev_step_trans [OF s2]
        by (metis add_0)
    qed
  qed
qed

lemma push_event_step:
  assumes "ev_inv w" and "notic_ok n" and "push_event_to_queue (Some n) w = (r, w')"
  shows "ev_step (if r = mkernel_internal_succ then - int (blk_notic n) else 0) w w'"
    and "r \<in> {mkernel_internal_succ, mkernel_internal_queue_full, mkernel_internal_malloc_error}"
  using push_event_loop_step [OF assms(1,2), of 0] assms(3) by (simp_all add: push_event_to_queue_def)

text \<open>Each broadcast either hands the event to the queue or leaves no block behind.\<close>

lemma broadcast_user_event_step:
  assumes inv: "ev_inv w" and ok: "notic_ok (plain_notic extend_cb_event ev ctx)"
    and b: "broadcast_user_event ev ctx w = (r, w')"
  shows "ev_step (if r = mkernel_internal_succ then int (blk ctx) - int (blk_event_ctx ctx) else 0) w w'"
proof -
  obtain ok1 w1 where m1: "w_malloc w = (ok1, w1)" by (cases "w_malloc w")
  note s1 = ev_step_malloc [OF inv m1]
  show ?thesis
  proof (cases ok1)
    case False
    then show ?thesis using b m1 s1 by (auto simp: broadcast_user_event_def)
  next
    case True
    then have s1': "ev_step 1 w w1" using s1 by simp
    obtain ok2 w2 where m2: "(if ctx = None then (True, w1) else w_malloc w1) = (ok2, w2)"
      by (cases "if ctx = None then (True, w1) else w_malloc w1")
    have s2: "ev_step (if ok2 then int (blk ctx) else 0) w1 w2"
      using m2 ev_step_malloc [OF ev_step_inv [OF s1'], of ok2 w2] ev_step_inv [OF s1']
      by (cases ctx) auto
    note s12 = ev_step_trans [OF s1' s2]
    show ?thesis
    proof (cases ok2)
      case False
      then show ?thesis
        using b m1 m2 True ev_step_trans [OF s12 ev_step_free [OF ev_step_inv [OF s12]]]
        by (auto simp: broadcast_user_event_def)
    next
      case ok2: True
      obtain r3 w3 where p: "push_event_to_queue (Some (plain_notic extend_cb_event ev ctx)) w2 = (r3, w3)"
        by (cases "push_event_to_queue (Some (plain_notic extend_cb_event ev ctx)) w2")
      note s3 = ev_step_trans [OF s12 push_event_step(1) [OF ev_step_inv [OF s12] ok p]]
      show ?thesis
      proof (cases "r3 = mkernel_internal_succ")
        case True
        then show ?thesis
          using b m1 m2 \<open>ok1\<close> ok2 p s3
          by (auto simp: broadcast_user_event_def blk_notic_def plain_notic_def)
      next
        case False
        note s4 = ev_step_trans [OF s3 ev_step_free [OF ev_step_inv [OF s3]]]
        note s5 = ev_step_trans [OF s4 ev_step_free_opt [OF ev_step_inv [OF s4], of ctx]]
        show ?thesis
          using b m1 m2 \<open>ok1\<close> ok2 p s5 False
          by (auto simp: broadcast_user_event_def)
      qed
    qed
  qed
qed

lemma notic_ok_plain [simp]:
  "notic_ok (plain_notic t e None) = (e = sdk_kernel_event_runtime_err \<longrightarrow> t \<noteq> extend_cb_event)"
  "notic_ok (plain_notic t e (Some (Ctx_sessionkey s))) =
     (e = sdk_kernel_event_runtime_err \<longrightarrow> t \<noteq> extend_cb_event)"
  "notic_ok (plain_notic t e (Some (Ctx_offline o1))) =
     (e = sdk_kernel_event_runtime_err \<longrightarrow> t \<noteq> extend_cb_event)"
  "notic_ok (plain_notic t e (Some (Ctx_switchover o2))) =
     (e = sdk_kernel_event_runtime_err \<longrightarrow> t \<noteq> extend_cb_event)"
  "notic_ok (plain_notic t e (Some (Ctx_int i))) =
     (e = sdk_kernel_event_runtime_err \<longrightarrow> t \<noteq> extend_cb_event)"
  "notic_ok (plain_notic t e (Some (Ctx_runtime_err c))) =
     (e = sdk_kernel_event_runtime_err \<and> t = extend_cb_event \<and> err_ctx_ok c)"
  by (auto simp: notic_ok_def plain_notic_def)

lemma broadcast_runtime_err_step:
  assumes inv: "ev_inv w" and ok: "err_ctx_ok \<lparr>err_tag = tag, err_code = code, err_ctx = ctx\<rparr>"
    and b: "broadcast_runtime_err tag code ctx w = (r, w')"
  shows "ev_step (if r = mkernel_internal_succ then int (blk ctx) - int (blk_err_ctx ctx) else 0) w w'"
proof -
  let ?c = "\<lparr>err_tag = tag, err_code = code, err_ctx = ctx\<rparr>"
  obtain ok1 w1 where m1: "(if ctx = None then (True, w) else w_malloc w) = (ok1, w1)"
    by (cases "if ctx = None then (True, w) else w_malloc w")
  have s1: "ev_step (if ok1 then int (blk ctx) else 0) w w1"
    using m1 ev_step_malloc [OF inv, of ok1 w1] inv by (cases ctx) auto
  show ?thesis
  proof (cases ok1)
    case False
    then show ?thesis using b m1 s1 by (auto simp: broadcast_runtime_err_def)
  next
    case True
    obtain r2 w2 where e: "broadcast_user_event sdk_kernel_event_runtime_err (Some (Ctx_runtime_err ?c)) w1
        = (r2, w2)"
      by (cases "broadcast_user_event sdk_kernel_event_runtime_err (Some (Ctx_runtime_err ?c)) w1")
    have nk: "notic_ok (plain_notic extend_cb_event sdk_kernel_event_runtime_err (Some (Ctx_runtime_err ?c)))"
      using ok by simp
    note s2 = ev_step_trans [OF s1 broadcast_user_event_step [OF ev_step_inv [OF s1] nk e]]
    show ?thesis
    proof (cases "r2 = mkernel_internal_succ")
      case r2: True
      then have "r = r2 \<and> w' = w2" using b m1 True e by (simp add: broadcast_runtime_err_def)
      then show ?thesis using s2 True r2 by (simp add: blk_event_ctx_def)
    next
      case False
      then have "r = r2 \<and> w' = w_free_opt ctx w2" using b m1 True e
        by (simp add: broadcast_runtime_err_def)
      then show ?thesis
        using ev_step_trans [OF s2 ev_step_free_opt [OF ev_step_inv [OF s2], of ctx]] True False by simp
    qed
  qed
qed

text \<open>
  The broadcasts that allocate the event themselves do not free it when the queue stays full.
\<close>

lemma plain_broadcast_step:
  assumes inv: "ev_inv w" and ok: "notic_ok (plain_notic t e None)"
    and b: "(case w_malloc w of (ok, w1) \<Rightarrow>
     if \<not> ok then (mkernel_internal_malloc_error, w1)
     else push_event_to_queue (Some (plain_notic t e None)) w1) = (r, w')"
  shows "\<exists>d. ev_step d w w' \<and> (r = mkernel_internal_succ \<longrightarrow> d = 0) \<and>
             (r = mkernel_internal_queue_full \<longrightarrow> d = 1) \<and> 0 \<le> d \<and> d \<le> 1"
proof -
  obtain ok1 w1 where m1: "w_malloc w = (ok1, w1)" by (cases "w_malloc w")
  note s1 = ev_step_malloc [OF inv m1]
  show ?thesis
  proof (cases ok1)
    case False
    then show ?thesis using b m1 s1 by auto
  next
    case True
    then have p: "push_event_to_queue (Some (plain_notic t e None)) w1 = (r, w')" using b m1 by simp
    have "ev_step (1 + (if r = mkernel_internal_succ then - int (blk_notic (plain_notic t e None)) else 0)) w w'"
      using ev_step_trans [OF s1 push_event_step(1) [OF ev_step_inv [OF s1] ok p]] True by simp
    then show ?thesis
      by (cases "r = mkernel_internal_succ") (auto simp: blk_defs plain_notic_def)
  qed
qed

lemma broadcast_plain_steps:
  assumes "ev_inv w"
  shows "\<exists>d. ev_step d w (snd (broadcast_user_start w)) \<and> 0 \<le> d \<and> d \<le> 1"
    and "\<exists>d. ev_step d w (snd (broadcast_user_stop w)) \<and> 0 \<le> d \<and> d \<le> 1"
    and "\<exists>d. ev_step d w (snd (broadcast_user_event_reconnect_success w)) \<and> 0 \<le> d \<and> d \<le> 1"
proof -
  note p = plain_broadcast_step [OF assms _ prod.collapse [symmetric]]
  show "\<exists>d. ev_step d w (snd (broadcast_user_start w)) \<and> 0 \<le> d \<and> d \<le> 1"
    using p [of extend_cb_start sdk_kernel_event_online] by (auto simp: broadcast_user_start_def)
  show "\<exists>d. ev_step d w (snd (broadcast_user_stop w)) \<and> 0 \<le> d \<and> d \<le> 1"
    using p [of extend_cb_stop sdk_kernel_event_online] by (auto simp: broadcast_user_stop_def)
  show "\<exists>d. ev_step d w (snd (broadcast_user_event_reconnect_success w)) \<and> 0 \<le> d \<and> d \<le> 1"
    using p [of extend_cb_event sdk_kernel_event_reconnect_success]
    by (auto simp: broadcast_user_event_reconnect_success_def)
qed

lemma keepalive_event_step:
  assumes inv: "ev_inv w"
  shows "\<exists>d. ev_step d w (snd (das_keepalive_interval_changed_event_cb i w)) \<and> 0 \<le> d \<and> d \<le> 2"
proof -
  let ?n = "plain_notic extend_cb_event sdk_kernel_event_heartbeat_interval_changed (Some (Ctx_int i))"
  obtain ok1 w1 where m1: "w_malloc w = (ok1, w1)" by (cases "w_malloc w")
  note s1 = ev_step_malloc [OF inv m1]
  obtain ok2 w2 where m2: "w_malloc w1 = (ok2, w2)" by (cases "w_malloc w1")
  note s2 = ev_step_trans [OF s1 ev_step_malloc [OF ev_step_inv [OF s1] m2]]
  note s3 = ev_step_trans [OF s2 ev_step_free [OF ev_step_inv [OF s2]]]
  obtain r3 w3 where p: "push_event_to_queue (Some ?n) w2 = (r3, w3)"
    by (cases "push_event_to_queue (Some ?n) w2")
  have "notic_ok ?n" by simp
  note s4 = ev_step_trans [OF s2 push_event_step(1) [OF ev_step_inv [OF s2] this p]]
  consider "\<not> ok1" | "ok1" "\<not> ok2" | "ok1" "ok2" by blast
  then show ?thesis
  proof cases
    case 1
    then show ?thesis using m1 s1 by (auto simp: das_keepalive_interval_changed_event_cb_def)
  next
    case 2
    then show ?thesis using m1 m2 s3 by (auto simp: das_keepalive_interval_changed_event_cb_def)
  next
    case 3
    then show ?thesis using m1 m2 p s4
      by (auto simp: das_keepalive_interval_changed_event_cb_def blk_defs plain_notic_def split: if_splits)
  qed
qed

section \<open>Properties\<close>

lemma push_event_loop_full:
  assumes "queue_inv (g_queue_inner_cb_notic w)"
    and "length (qmsgs (g_queue_inner_cb_notic w)) = qcap (g_queue_inner_cb_notic w)"
    and "\<And>k. e_consume (env w) k = 0" and "count \<le> 51"
  shows "push_event_loop count n w = (mkernel_internal_queue_full,
           w\<lparr>tick := tick w + (52 - count), trace := replicate (52 - count) (Do_sleep 10) @ trace w\<rparr>)"
  using assms
proof (induction "51 - count" arbitrary: count w)
  case 0
  have p: "push_queue_inner_cb_notic n w = (mkernel_internal_queue_full, w)"
    using mq.push_full [of "g_queue_inner_cb_notic w" n "heap w"] 0
    by (simp add: push_queue_inner_cb_notic_def QUEUE_PUSH_def)
  have "count = 51" using 0 by simp
  then show ?case using p 0 by (simp add: push_event_loop.simps [of 51] time_sleep_def ask_def act_def)
next
  case (Suc c)
  have p: "push_queue_inner_cb_notic n w = (mkernel_internal_queue_full, w)"
    using mq.push_full [of "g_queue_inner_cb_notic w" n "heap w"] Suc
    by (simp add: push_queue_inner_cb_notic_def QUEUE_PUSH_def)
  have c: "\<not> 50 < count" using Suc.hyps(2) by linarith
  let ?w = "time_sleep 10 w"
  have w: "?w = w\<lparr>tick := Suc (tick w), trace := Do_sleep 10 # trace w\<rparr>"
    using Suc.prems by (simp add: time_sleep_def ask_def act_def)
  have "push_event_loop count n w = push_event_loop (Suc count) n ?w"
    using p c by (simp add: push_event_loop.simps [of count] Let_def)
  also have "\<dots> = (mkernel_internal_queue_full,
      ?w\<lparr>tick := tick ?w + (52 - Suc count), trace := replicate (52 - Suc count) (Do_sleep 10) @ trace ?w\<rparr>)"
    using Suc.prems Suc.hyps(2) by (intro Suc.hyps(1)) (simp_all add: w)
  also have "\<dots> = (mkernel_internal_queue_full,
      w\<lparr>tick := tick w + (52 - count), trace := replicate (52 - count) (Do_sleep 10) @ trace w\<rparr>)"
  proof -
    have "52 - count = Suc (52 - Suc count)" using Suc.prems by simp
    then show ?thesis by (simp add: w replicate_app_Cons_same)
  qed
  finally show ?case .
qed

text \<open>
  Queueing an event always ends.  If the queue stays full it is given up after exactly 52
  attempts with a sleep of 10 ms after each, half a second in all, and nothing is queued.
\<close>

theorem push_event_gives_up:
  assumes "queue_inv (g_queue_inner_cb_notic w)"
    and "length (qmsgs (g_queue_inner_cb_notic w)) = qcap (g_queue_inner_cb_notic w)"
    and "\<And>k. e_consume (env w) k = 0"
  shows "push_event_to_queue (Some n) w = (mkernel_internal_queue_full,
           w\<lparr>tick := tick w + 52, trace := replicate 52 (Do_sleep 10) @ trace w\<rparr>)"
  using push_event_loop_full [OF assms, of 0 n] by (simp add: push_event_to_queue_def)

theorem push_event_gives_up_witness:
  "fst (push_event_to_queue (Some demo_receipt) (boot_world calm_env)) = mkernel_internal_queue_full"
proof -
  have "push_event_to_queue (Some demo_receipt) (boot_world calm_env) = (mkernel_internal_queue_full,
      (boot_world calm_env)\<lparr>tick := tick (boot_world calm_env) + 52,
        trace := replicate 52 (Do_sleep 10) @ trace (boot_world calm_env)\<rparr>)"
    by (rule push_event_gives_up) (simp_all add: boot_world_def calm_env_def)
  then show ?thesis by simp
qed

text \<open>
  Reporting a run-time error never leaks.  On success the event owns the copies it needs
  and takes over the user's data of the receipt; on every failure (no memory at any of the
  allocations, queue full) all blocks are freed again and the user's data stays with the
  caller.  Besides the event queue, the heap, the clock and the trace nothing changes, and the
  pointers of all queued events stay correctly typed, also when the user thread runs meanwhile.
\<close>

theorem runtime_err_no_leak:
  assumes "ev_inv w" and "err_ctx_ok \<lparr>err_tag = tag, err_code = code, err_ctx = ctx\<rparr>"
    and "broadcast_runtime_err tag code ctx w = (r, w')"
  shows "ev_step (if r = mkernel_internal_succ then int (blk ctx) - int (blk_err_ctx ctx) else 0) w w'"
  using assms by (rule broadcast_runtime_err_step)

theorem runtime_err_no_leak_witness:
  "\<exists>d. ev_step d (demo_world calm_env) (snd (broadcast_runtime_err TAG_ACCESS 3 None (demo_world calm_env)))"
proof -
  have "ev_inv (demo_world calm_env)" by (simp add: ev_inv_def)
  from runtime_err_no_leak [OF this, of TAG_ACCESS 3 None] show ?thesis
    by (cases "broadcast_runtime_err TAG_ACCESS 3 None (demo_world calm_env)") (auto simp: err_ctx_ok_def)
qed

text \<open>
  An event with a context (a session key, an offline report and so on) is queued with the
  copy of its context or leaves nothing behind.
\<close>

theorem user_event_no_leak:
  assumes "ev_inv w" and "notic_ok (plain_notic extend_cb_event ev ctx)"
    and "broadcast_user_event ev ctx w = (r, w')"
  shows "ev_step (if r = mkernel_internal_succ then int (blk ctx) - int (blk_event_ctx ctx) else 0) w w'"
  using assms by (rule broadcast_user_event_step)

theorem user_event_no_leak_witness:
  "\<exists>d. ev_step d (demo_world calm_env)
     (snd (broadcast_user_event sdk_kernel_event_invaild_authcode None (demo_world calm_env)))"
proof -
  have "ev_inv (demo_world calm_env)" by (simp add: ev_inv_def)
  from user_event_no_leak [OF this, of sdk_kernel_event_invaild_authcode None] show ?thesis
    by (cases "broadcast_user_event sdk_kernel_event_invaild_authcode None (demo_world calm_env)") auto
qed

text \<open>
  The start event is not freed when the queue stays full: the block of the event is then
  lost.  (The same holds for the stop and the reconnect event.)
\<close>

theorem user_start_leaks_when_full:
  assumes "ev_inv w" and "fst (w_malloc w)"
    and "length (qmsgs (g_queue_inner_cb_notic w)) = qcap (g_queue_inner_cb_notic w)"
    and "\<And>k. e_consume (env w) k = 0"
  shows "fst (broadcast_user_start w) = mkernel_internal_queue_full \<and>
         slack (snd (broadcast_user_start w)) = slack w + 1"
proof -
  let ?w = "snd (w_malloc w)"
  have w: "?w = w\<lparr>heap := snd (malloc (heap w))\<rparr>" by (simp add: w_malloc_def split: prod.split)
  have "push_event_to_queue (Some n) ?w = (mkernel_internal_queue_full,
      ?w\<lparr>tick := tick ?w + 52, trace := replicate 52 (Do_sleep 10) @ trace ?w\<rparr>)" for n
    using push_event_loop_full [of ?w 0 n] assms by (simp add: push_event_to_queue_def w ev_inv_def)
  then have b: "broadcast_user_start w = (mkernel_internal_queue_full,
      ?w\<lparr>tick := tick ?w + 52, trace := replicate 52 (Do_sleep 10) @ trace ?w\<rparr>)"
    using assms(2) by (simp add: broadcast_user_start_def split_beta)
  have "live (heap ?w) = live (heap w) + 1" using assms(2) by (simp add: acct)
  then show ?thesis unfolding b by (simp add: slack_def) (simp add: w)
qed

theorem user_start_leaks_when_full_witness:
  "fst (broadcast_user_start ((demo_world calm_env)\<lparr>g_queue_inner_cb_notic := zero_queue\<rparr>)) =
     mkernel_internal_queue_full"
proof -
  let ?w = "(demo_world calm_env)\<lparr>g_queue_inner_cb_notic := zero_queue\<rparr>"
  have "fst (broadcast_user_start ?w) = mkernel_internal_queue_full \<and>
        slack (snd (broadcast_user_start ?w)) = slack ?w + 1"
  proof (rule user_start_leaks_when_full)
    have "modules_ok (?w :: world) = modules_ok (demo_world calm_env)"
      by (simp add: modules_ok_def domains_wf_def extends_wf_def domain_extends_def extends_v3_def)
    then show "ev_inv ?w" by (simp add: ev_inv_def)
    show "fst (w_malloc ?w)"
      by (simp add: w_malloc_def malloc_def Let_def demo_world_simps demo_init_simps boot_world_def)
  qed (simp_all add: demo_world_simps demo_init_simps boot_world_def calm_env_def)
  then show ?thesis by simp
qed

end
