(* ===== verification/Risk.thy ===== *)
theory Risk
  imports Events
begin

text \<open>
  microkernel/src/ezdev_sdk_kernel_risk_control.c, the platform's block list of domains and
  commands, and microkernel/src/ezdev_sdk_kernel_common.c, the single module that sees the
  commands of the common domain before anybody else.
\<close>

section \<open>Risk control\<close>

definition DAS_CMD_DOMAIN :: u32 where "DAS_CMD_DOMAIN = 1000"
definition DAS_CMD_COMMON_FUN :: u32 where "DAS_CMD_COMMON_FUN = 1001"
definition ezdev_sdk_offline_cmd_id :: u32 where "ezdev_sdk_offline_cmd_id = 0x2807"

definition upd_domain ::
  "nat \<Rightarrow> (ezdev_sdk_kernel_domain_info \<Rightarrow> ezdev_sdk_kernel_domain_info) \<Rightarrow> world \<Rightarrow> world" where
  "upd_domain i f w = w\<lparr>g_kernel_domains := (g_kernel_domains w)[i := f (g_kernel_domains w ! i)]\<rparr>"

definition add_access_risk_control :: "world \<Rightarrow> world" where
  "add_access_risk_control = upd_kernel (\<lambda>k. k\<lparr>access_risk := sdk_risk_control\<rparr>)"

definition add_domain_risk_control :: "u32 \<Rightarrow> world \<Rightarrow> world" where
  "add_domain_risk_control domain_id w =
     (case extend_get domain_id w of
        None \<Rightarrow> w
      | Some i \<Rightarrow> upd_domain i (\<lambda>d. d\<lparr>domain_risk := sdk_risk_control\<rparr>) w)"

text \<open>The command goes to the first slot that is 0; when there is none it is dropped.\<close>

definition add_cmd_risk_control :: "u32 \<Rightarrow> u32 \<Rightarrow> world \<Rightarrow> world" where
  "add_cmd_risk_control domain_id cmd_id w =
     (case extend_get domain_id w of
        None \<Rightarrow> w
      | Some i \<Rightarrow> (case List.find (\<lambda>j. cmd_risk_array (g_kernel_domains w ! i) ! j = 0)
                         [0..<ezdev_sdk_risk_control_cmd_max] of
            None \<Rightarrow> w
          | Some j \<Rightarrow>
              upd_domain i (\<lambda>d. d\<lparr>cmd_risk_array := (cmd_risk_array d)[j := cmd_id]\<rparr>) w))"

definition check_access_risk_control :: "world \<Rightarrow> nat" where
  "check_access_risk_control w =
     (if access_risk (g_ezdev_sdk_kernel w) = sdk_no_risk_control then 0 else 1)"

primrec check_cmds :: "u32 \<Rightarrow> u32 list \<Rightarrow> nat" where
  "check_cmds cmd_id [] = 0"
| "check_cmds cmd_id (c # cs) =
     (if c = 0 then 0 else if cmd_id = c then 3 else check_cmds cmd_id cs)"

definition check_cmd_risk_control :: "u32 \<Rightarrow> u32 \<Rightarrow> world \<Rightarrow> nat" where
  "check_cmd_risk_control domain_id cmd_id w =
     (if domain_id = DAS_CMD_COMMON_FUN \<or> domain_id = DAS_CMD_DOMAIN \<or>
         cmd_id = ezdev_sdk_offline_cmd_id then 0
      else case extend_get domain_id w of
        None \<Rightarrow> 1
      | Some i \<Rightarrow>
          if domain_risk (g_kernel_domains w ! i) = sdk_risk_control then 2
          else check_cmds cmd_id
                 (take ezdev_sdk_risk_control_cmd_max (cmd_risk_array (g_kernel_domains w ! i))))"

section \<open>The common module\<close>

definition common_module_init :: "world \<Rightarrow> world" where
  "common_module_init w =
     w\<lparr>g_common_module := \<lparr>cm_domain_id = 0, cm_data_handle = None, cm_pUser = None\<rparr>\<rparr>"

definition common_module_fini :: "world \<Rightarrow> world" where
  "common_module_fini w =
     w\<lparr>g_common_module := \<lparr>cm_domain_id = 0, cm_data_handle = None, cm_pUser = None\<rparr>\<rparr>"

definition common_module_load ::
  "ezdev_sdk_kernel_common_module \<Rightarrow> world \<Rightarrow> mkernel_internal_error \<times> world" where
  "common_module_load m w = (mkernel_internal_succ, w\<lparr>g_common_module := m\<rparr>)"

text \<open>The commands the common module may handle.\<close>

definition common_cmds :: "u32 list" where
  "common_cmds = [0x490B, 0x3061, 0x492B, 0x0001, 0x4967, 0x2864, 0x498D]"

definition common_module_bus_handle :: "ezdev_sdk_kernel_submsg \<Rightarrow> world \<Rightarrow> int \<times> world" where
  "common_module_bus_handle m w =
     (if sm_msg_command_id m \<in> set common_cmds
      then (case cm_data_handle (g_common_module w) of
              Some f \<Rightarrow>
                (case ask e_common_handle
                        (act (Do_common_handle f m (cm_pUser (g_common_module w))) w) of
                   (h, w1) \<Rightarrow> (h m, w1))
            | None \<Rightarrow> (1, w))
      else (1, w))"

section \<open>The block list as a set\<close>

text \<open>
  The array of blocked commands is in order when it has its full length and only zeros follow
  the first zero; its commands are the ones before it.
\<close>

definition risk_wf :: "ezdev_sdk_kernel_domain_info \<Rightarrow> bool" where
  "risk_wf d \<longleftrightarrow> length (cmd_risk_array d) = ezdev_sdk_risk_control_cmd_max \<and>
     set (dropWhile (\<lambda>c. c \<noteq> 0) (cmd_risk_array d)) \<subseteq> {0}"

definition risk_cmds :: "ezdev_sdk_kernel_domain_info \<Rightarrow> u32 list" where
  "risk_cmds d = takeWhile (\<lambda>c. c \<noteq> 0) (cmd_risk_array d)"

definition risks_ok :: "world \<Rightarrow> bool" where
  "risks_ok w \<longleftrightarrow> list_all risk_wf (g_kernel_domains w)"

lemma check_cmds_eq: "check_cmds c cs = (if c \<in> set (takeWhile (\<lambda>c. c \<noteq> 0) cs) then 3 else 0)"
  by (induction cs) auto

lemma risk_wf_zero [simp]: "risk_wf zero_domain_info"
  by (simp add: risk_wf_def zero_domain_info_def ezdev_sdk_risk_control_cmd_max_def)

lemma risks_ok_extend_init [simp]: "risks_ok (extend_init cb w)"
  by (simp add: risks_ok_def extend_init_def list_all_iff)

text \<open>The slot found is the one behind the commands.\<close>

lemma find_zero:
  fixes cs :: "u32 list"
  shows "List.find (\<lambda>j. cs ! j = 0) [0..<length cs] =
    (let n = length (takeWhile (\<lambda>c. c \<noteq> 0) cs) in if n < length cs then Some n else None)"
proof (induction cs)
  case (Cons c cs)
  have "[0..<length (c # cs)] = 0 # map Suc [0..<length cs]"
    by (simp add: upt_conv_Cons map_Suc_upt del: upt_Suc)
  then show ?case using Cons
    by (simp add: find_map comp_def Let_def del: upt_Suc)
qed (simp add: Let_def)

lemma append_slot:
  fixes cs :: "u32 list"
  assumes "set (dropWhile (\<lambda>c. c \<noteq> 0) cs) \<subseteq> {0}" and "c \<noteq> 0"
    and "length (takeWhile (\<lambda>c. c \<noteq> 0) cs) < length cs"
  shows "takeWhile (\<lambda>c. c \<noteq> 0) (cs[length (takeWhile (\<lambda>c. c \<noteq> 0) cs) := c]) =
           takeWhile (\<lambda>c. c \<noteq> 0) cs @ [c]"
    and "set (dropWhile (\<lambda>c. c \<noteq> 0) (cs[length (takeWhile (\<lambda>c. c \<noteq> 0) cs) := c])) \<subseteq> {0}"
proof -
  let ?t = "takeWhile (\<lambda>c. c \<noteq> 0) cs"
  obtain z zs where d: "dropWhile (\<lambda>c. c \<noteq> 0) cs = z # zs"
    using assms(3) by (cases "dropWhile (\<lambda>c. c \<noteq> 0) cs")
      (metis append_Nil2 less_irrefl takeWhile_dropWhile_id, blast)
  then have cs: "cs = ?t @ z # zs" by (metis takeWhile_dropWhile_id)
  have zs: "set zs \<subseteq> {0}" using assms(1) d by auto
  have upd: "cs[length ?t := c] = ?t @ c # zs" by (subst cs) (simp add: list_update_append)
  have all: "\<forall>y \<in> set ?t. y \<noteq> 0" by (auto dest: set_takeWhileD)
  have z: "takeWhile (\<lambda>c. c \<noteq> 0) zs = []" "dropWhile (\<lambda>c. c \<noteq> 0) zs = zs"
    using zs by (cases zs; auto)+
  show "takeWhile (\<lambda>c. c \<noteq> 0) (cs[length ?t := c]) = ?t @ [c]"
    unfolding upd using all assms(2) z by simp
  have "dropWhile (\<lambda>c. c \<noteq> 0) (cs[length ?t := c]) = zs"
    unfolding upd using all assms(2) z by simp
  then show "set (dropWhile (\<lambda>c. c \<noteq> 0) (cs[length ?t := c])) \<subseteq> {0}" using zs by simp
qed

lemma extend_get_bound:
  "extend_get d w = Some i \<Longrightarrow> i < unat (g_kernel_domains_count w) \<and> ke_domain_id (kernel_extend (g_kernel_domains w ! i)) = d"
  by (auto simp: extend_get_def find_Some_iff)

lemma extend_get_upd_domain:
  assumes "\<And>d. kernel_extend (f d) = kernel_extend d" and "i < length (g_kernel_domains w)"
  shows "extend_get d (upd_domain i f w) = extend_get d w"
proof -
  have "kernel_extend ((g_kernel_domains w)[i := f (g_kernel_domains w ! i)] ! j) =
        kernel_extend (g_kernel_domains w ! j)" for j
    using assms by (cases "j = i") simp_all
  then show ?thesis by (simp add: extend_get_def upd_domain_def)
qed

lemma check_cmd_eq:
  assumes "extend_get d w = Some i" and "i < length (g_kernel_domains w)"
    and "risks_ok w"
  shows "check_cmd_risk_control d c w =
     (if d = DAS_CMD_COMMON_FUN \<or> d = DAS_CMD_DOMAIN \<or> c = ezdev_sdk_offline_cmd_id then 0
      else if domain_risk (g_kernel_domains w ! i) = sdk_risk_control then 2
      else if c \<in> set (risk_cmds (g_kernel_domains w ! i)) then 3 else 0)"
proof -
  have "length (cmd_risk_array (g_kernel_domains w ! i)) = ezdev_sdk_risk_control_cmd_max"
    using assms by (simp add: risks_ok_def risk_wf_def list_all_length)
  then show ?thesis
    using assms(1) by (simp add: check_cmd_risk_control_def check_cmds_eq risk_cmds_def)
qed

section \<open>Properties\<close>

text \<open>
  C21: The block list works: once a command of a registered domain is added to it (and a slot is
  free), the command is refused with code 3 (or 2 when the whole domain is blocked), and the
  answer for every other command and domain stays what it was.  The commands of the common and
  the device domain and the offline command are never refused.
\<close>

theorem blocked_command_refused:
  assumes "risks_ok w" and "unat (g_kernel_domains_count w) \<le> length (g_kernel_domains w)"
    and "extend_get d w = Some i" and "c \<noteq> 0"
    and "length (risk_cmds (g_kernel_domains w ! i)) < ezdev_sdk_risk_control_cmd_max"
  shows "risks_ok (add_cmd_risk_control d c w) \<and>
    (\<forall>d' c'. check_cmd_risk_control d' c' (add_cmd_risk_control d c w) =
       (if d' = d \<and> c' = c \<and> d \<notin> {DAS_CMD_COMMON_FUN, DAS_CMD_DOMAIN} \<and> c \<noteq> ezdev_sdk_offline_cmd_id
        then (if domain_risk (g_kernel_domains w ! i) = sdk_risk_control then 2 else 3)
        else check_cmd_risk_control d' c' w))"
proof -
  let ?d = "g_kernel_domains w ! i"
  let ?n = "length (risk_cmds ?d)"
  let ?f = "\<lambda>d. d\<lparr>cmd_risk_array := (cmd_risk_array d)[?n := c]\<rparr>"
  have i: "i < length (g_kernel_domains w)" using extend_get_bound [OF assms(3)] assms(2) by simp
  have wf: "risk_wf ?d" using assms(1) i by (simp add: risks_ok_def list_all_length)
  then have len: "length (cmd_risk_array ?d) = ezdev_sdk_risk_control_cmd_max"
    by (simp add: risk_wf_def)
  have "List.find (\<lambda>j. cmd_risk_array ?d ! j = 0) [0..<ezdev_sdk_risk_control_cmd_max] = Some ?n"
    using find_zero [of "cmd_risk_array ?d"] assms(5) by (simp add: len Let_def risk_cmds_def)
  then have add: "add_cmd_risk_control d c w = upd_domain i ?f w"
    by (simp add: add_cmd_risk_control_def assms(3))
  note slot = append_slot [of "cmd_risk_array ?d" c]
  have wf': "risk_wf (?f ?d)" and cmds': "risk_cmds (?f ?d) = risk_cmds ?d @ [c]"
    using slot wf assms(4,5) len by (simp_all add: risk_wf_def risk_cmds_def)
  have ok: "risks_ok (upd_domain i ?f w)"
    using assms(1) wf' i by (simp add: risks_ok_def upd_domain_def list_all_length nth_list_update)
  have get: "extend_get d' (upd_domain i ?f w) = extend_get d' w" for d'
    using i by (intro extend_get_upd_domain) simp_all
  have "check_cmd_risk_control d' c' (upd_domain i ?f w) =
      (if d' = d \<and> c' = c \<and> d \<notin> {DAS_CMD_COMMON_FUN, DAS_CMD_DOMAIN} \<and> c \<noteq> ezdev_sdk_offline_cmd_id
       then (if domain_risk ?d = sdk_risk_control then 2 else 3)
       else check_cmd_risk_control d' c' w)" for d' c'
  proof (cases "extend_get d' w")
    case None
    then show ?thesis using assms(3) by (auto simp: check_cmd_risk_control_def get)
  next
    case (Some j)
    then have j: "j < length (g_kernel_domains w)" using extend_get_bound [of d' w j] assms(2) by simp
    have len': "length (g_kernel_domains (upd_domain i ?f w)) = length (g_kernel_domains w)"
      by (simp add: upd_domain_def)
    have new: "g_kernel_domains (upd_domain i ?f w) ! j = (if j = i then ?f ?d else g_kernel_domains w ! j)"
      using i by (simp add: upd_domain_def nth_list_update)
    have ij: "j = i \<longleftrightarrow> d' = d"
    proof
      show "d' = d" if "j = i"
        using extend_get_bound [OF Some, THEN conjunct2] extend_get_bound [OF assms(3), THEN conjunct2]
        unfolding that by (rule trans [OF sym])
      show "j = i" if "d' = d" using Some assms(3) unfolding that by (simp only: option.inject)
    qed
    have j': "j < length (g_kernel_domains (upd_domain i ?f w))" using j len' by simp
    note old = check_cmd_eq [OF Some j assms(1), of c']
    note upd = check_cmd_eq [OF trans [OF get Some] j' ok, of c', unfolded new]
    show ?thesis
    proof (cases "d' = d")
      case True
      then have "j = i" using ij by simp
      then show ?thesis unfolding old upd using True by (simp add: cmds')
    next
      case False
      then have "j \<noteq> i" using ij by simp
      then show ?thesis unfolding old upd using False by simp
    qed
  qed
  then show ?thesis by (simp add: add ok)
qed

theorem blocked_command_refused_witness:
  "check_cmd_risk_control 1500 7 (add_cmd_risk_control 1500 7 (demo_world calm_env)) = 3"
proof -
  let ?w = "demo_world calm_env"
  have d: "g_kernel_domains ?w = zero_domain_info\<lparr>kernel_extend := demo_extend\<rparr> # replicate 7 zero_domain_info"
    "g_kernel_domains_count ?w = 8"
    by (simp_all add: demo_world_simps demo_init_simps boot_world_def ezdev_sdk_extend_count_def numeral_eq_Suc)
  have "risk_wf (zero_domain_info\<lparr>kernel_extend := demo_extend\<rparr>)"
    using risk_wf_zero by (simp add: risk_wf_def)
  then have "risks_ok ?w" by (simp add: risks_ok_def d list_all_iff)
  moreover have "extend_get 1500 ?w = Some 0"
    by (simp add: extend_get_def d demo_extend_def upt_conv_Cons)
  ultimately show ?thesis
    using blocked_command_refused [of ?w 1500 0 7]
    by (simp add: d risk_cmds_def zero_domain_info_def ezdev_sdk_risk_control_cmd_max_def
        DAS_CMD_COMMON_FUN_def DAS_CMD_DOMAIN_def ezdev_sdk_offline_cmd_id_def)
qed

end
