(* ===== verification/Crypto.thy ===== *)
theory Crypto
  imports Risk
begin

text \<open>
  microkernel/src/ase_support.c: the padding around AES-128 in CBC mode.  The cipher itself
  (mbedtls) is a parameter: \<open>e_aes_enc\<close> and \<open>e_aes_dec\<close> give what it computes from the key, the
  initial vector and the data, \<open>e_aes_setkey\<close> and \<open>e_aes_crypt\<close> its return codes.
\<close>

section \<open>Operations\<close>

definition calculate_padding_len :: "u32 \<Rightarrow> u32" where
  "calculate_padding_len len = (0x10 - (len AND 0x0F)) + len"

definition aes_iv :: "byte list" where
  "aes_iv = map (\<lambda>i. word_of_nat (i + 0x30)) [0..<8] @ replicate 8 0"

text \<open>The comparison of the last \<open>p\<close> bytes, from the last one backwards.\<close>

primrec padding_scan :: "byte list \<Rightarrow> nat \<Rightarrow> byte \<Rightarrow> nat list \<Rightarrow> byte \<Rightarrow> byte" where
  "padding_scan buf n p [] other = other"
| "padding_scan buf n p (i # is) other =
     (let c = buf ! (n - i) in if c \<noteq> p then c else padding_scan buf n p is c)"

text \<open>
  The result is the code, the output buffer, the new value of \<open>*output_buf_len\<close> where it is
  written, and the state.
\<close>

definition aes_cbc_128_dec_padding ::
  "byte list \<Rightarrow> byte list \<Rightarrow> u32 \<Rightarrow> byte list \<Rightarrow> world \<Rightarrow>
     mkernel_internal_error \<times> byte list \<times> u32 option \<times> world" where
  "aes_cbc_128_dec_padding aes_key input_buf input_length output_buf w =
     (if input_length = 0 \<or> input_length mod 16 \<noteq> 0
      then (mkernel_internal_aes_input_len, output_buf, None, w)
      else case ask e_aes_setkey w of (r1, w1) \<Rightarrow>
        if r1 \<noteq> 0 then (mkernel_internal_casll_mbedtls_setdeckey_error, output_buf, None, w1)
        else case ask e_aes_crypt w1 of (r2, w2) \<Rightarrow>
          if r2 \<noteq> 0 then (mkernel_internal_casll_mbedtls_crypt_error, output_buf, None, w2)
          else
            let n = unat input_length;
                out = e_aes_dec (env w2) aes_key aes_iv (take n input_buf) @ drop n output_buf;
                padding_char = out ! (n - 1)
            in if padding_char > 16 \<or> padding_char = 0
               then (mkernel_internal_aes_padding_unmatched, out, None, w2)
               else if padding_scan out n padding_char [1..<Suc (unat padding_char)] 0 \<noteq> padding_char
               then (mkernel_internal_aes_padding_unmatched, out, None, w2)
               else (mkernel_internal_succ, out, Some (input_length - ucast padding_char), w2))"

definition buf_padding :: "byte list \<Rightarrow> nat \<Rightarrow> nat \<Rightarrow> byte list" where
  "buf_padding buf padding_len len =
     fold (\<lambda>i b. b[i := word_of_int (int padding_len - int len)]) [len..<padding_len] buf"

text \<open>
  The result is the code, the input buffer (the padding is written into it), the output buffer,
  the new value of \<open>*output_length\<close> where it is written, and the state.
\<close>

definition aes_cbc_128_enc_padding ::
  "byte list \<Rightarrow> byte list \<Rightarrow> u32 \<Rightarrow> u32 \<Rightarrow> byte list \<Rightarrow> world \<Rightarrow>
     mkernel_internal_error \<times> byte list \<times> byte list \<times> u32 option \<times> world" where
  "aes_cbc_128_enc_padding aes_key input_buf input_length input_length_padding output_buf w =
     (let padding_char = ucast (input_length_padding - input_length) :: byte;
          n = unat input_length_padding;
          input = fold (\<lambda>i b. b[i := padding_char]) [unat input_length..<n] input_buf
      in case ask e_aes_setkey w of (r1, w1) \<Rightarrow>
        if r1 \<noteq> 0 then (mkernel_internal_casll_mbedtls_setdeckey_error, input, output_buf, None, w1)
        else case ask e_aes_crypt w1 of (r2, w2) \<Rightarrow>
          if r2 \<noteq> 0 then (mkernel_internal_casll_mbedtls_crypt_error, input, output_buf, None, w2)
          else (mkernel_internal_succ, input,
                e_aes_enc (env w2) aes_key aes_iv (take n input) @ drop n output_buf,
                Some input_length_padding, w2))"

section \<open>Lemmas\<close>

lemma padding_len_nat:
  assumes "unat len < 2 ^ 32 - 16"
  shows "unat (calculate_padding_len len) = unat len + (16 - unat len mod 16)"
proof -
  have "len AND 0x0F = len mod 16"
    using take_bit_eq_mod [of 4 len] take_bit_eq_mask [of 4 len] by (simp add: mask_eq_exp_minus_1)
  moreover have m: "unat (len mod 16) = unat len mod 16" by (simp add: unat_mod)
  moreover have "unat (16 - len mod 16) = 16 - unat len mod 16"
    by (subst unat_sub) (simp_all add: m word_le_nat_alt)
  moreover have "unat len mod 16 < 16" by simp
  ultimately show ?thesis
    unfolding calculate_padding_len_def using assms
    by (subst unat_add_lem [THEN iffD1]) (auto simp: diff_le_mono2)
qed

lemma fold_pad:
  "len \<le> n \<Longrightarrow> n \<le> length b \<Longrightarrow>
   fold (\<lambda>i b. b[i := p]) [len..<n] b = take len b @ replicate (n - len) p @ drop n b"
proof (induction "n - len" arbitrary: len b)
  case 0
  then show ?case by simp
next
  case (Suc k)
  then have l: "len < n" by simp
  then have "fold (\<lambda>i b. b[i := p]) [len..<n] b = fold (\<lambda>i b. b[i := p]) [Suc len..<n] (b[len := p])"
    by (simp add: upt_conv_Cons)
  also have "\<dots> = take (Suc len) (b[len := p]) @ replicate (n - Suc len) p @ drop n (b[len := p])"
    using Suc l by (intro Suc.hyps(1)) simp_all
  also have "\<dots> = take len b @ replicate (n - len) p @ drop n b"
  proof -
    have "n - len = Suc (n - Suc len)" using l by simp
    then show ?thesis using l Suc.prems by (simp add: take_Suc_conv_app_nth)
  qed
  finally show ?case .
qed

lemma padding_scan_all:
  "padding_scan buf n p is p = p \<longleftrightarrow> (\<forall>i \<in> set is. buf ! (n - i) = p)"
  by (induction "is") (auto simp: Let_def)

lemma padding_scan_eq:
  assumes "is \<noteq> []"
  shows "padding_scan buf n p is x = p \<longleftrightarrow> (\<forall>i \<in> set is. buf ! (n - i) = p)"
  using assms by (cases "is") (auto simp: Let_def padding_scan_all)

lemma nth_padding: "0 < k \<Longrightarrow> (t @ replicate k p) ! (length t + k - 1) = p"
  by (subst nth_append) auto

text \<open>The padding of the standard PKCS #7: \<open>p\<close> bytes of value \<open>p\<close>.\<close>

definition pkcs7 :: "byte list \<Rightarrow> byte list \<Rightarrow> bool" where
  "pkcs7 plain text \<longleftrightarrow> (\<exists>p. 0 < p \<and> p \<le> 16 \<and> plain = text @ replicate p (word_of_nat p))"

lemma pkcs7_iff_scan:
  assumes n: "16 \<le> n" and len: "length out = n" and p: "out ! (n - 1) = p" "p \<noteq> 0" "p \<le> 16"
  shows "padding_scan (out @ rest) n p [1..<Suc (unat p)] 0 = p \<longleftrightarrow> pkcs7 out (take (n - unat p) out)"
proof -
  have up: "0 < unat p" "unat p \<le> 16" using p by (simp_all add: unat_gt_0 word_le_nat_alt)
  have "padding_scan (out @ rest) n p [1..<Suc (unat p)] 0 = p \<longleftrightarrow>
        (\<forall>i \<in> {1..unat p}. out ! (n - i) = p)"
    using up n len by (subst padding_scan_eq) (auto simp: nth_append simp del: upt_Suc)
  also have "\<dots> \<longleftrightarrow> drop (n - unat p) out = replicate (unat p) p"
  proof
    assume a: "\<forall>i \<in> {1..unat p}. out ! (n - i) = p"
    show "drop (n - unat p) out = replicate (unat p) p"
    proof (rule nth_equalityI)
      show "length (drop (n - unat p) out) = length (replicate (unat p) p)" using up n len by simp
      fix i assume "i < length (drop (n - unat p) out)"
      then have i: "i < unat p" using up n len by simp
      then have "n - unat p + i = n - (unat p - i)" using up n by simp
      have "unat p - i \<in> {1..unat p}" using i by simp
      have "drop (n - unat p) out ! i = out ! (n - unat p + i)" using up n len by simp
      also have "\<dots> = p" unfolding \<open>n - unat p + i = n - (unat p - i)\<close>
        using a \<open>unat p - i \<in> {1..unat p}\<close> by (rule bspec)
      finally show "drop (n - unat p) out ! i = replicate (unat p) p ! i" using i by simp
    qed
  next
    assume d: "drop (n - unat p) out = replicate (unat p) p"
    show "\<forall>i \<in> {1..unat p}. out ! (n - i) = p"
    proof
      fix i assume i: "i \<in> {1..unat p}"
      then have "out ! (n - i) = drop (n - unat p) out ! (unat p - i)" using up n len by simp
      then show "out ! (n - i) = p" using d i by simp
    qed
  qed
  also have "\<dots> \<longleftrightarrow> pkcs7 out (take (n - unat p) out)"
  proof
    assume "drop (n - unat p) out = replicate (unat p) p"
    then have "out = take (n - unat p) out @ replicate (unat p) (word_of_nat (unat p))"
      using append_take_drop_id [of "n - unat p" out] by simp
    then show "pkcs7 out (take (n - unat p) out)" unfolding pkcs7_def using up by blast
  next
    assume "pkcs7 out (take (n - unat p) out)"
    then obtain k where k: "out = take (n - unat p) out @ replicate k (word_of_nat k)" "0 < k" "k \<le> 16"
      unfolding pkcs7_def by blast
    then have "length out = (n - unat p) + k"
      by (metis (no_types, lifting) diff_le_self len length_append length_replicate length_take min_absorb2)
    then have kp: "k = unat p" using len up n by simp
    then have "drop (n - unat p) out = replicate k (word_of_nat k)"
      using arg_cong [OF k(1), of "drop (n - unat p)"] len by simp
    then show "drop (n - unat p) out = replicate (unat p) p" by (simp add: kp)
  qed
  finally show ?thesis .
qed

lemma dec_run:
  assumes ok: "\<And>t. e_aes_setkey (env w) t = 0" "\<And>t. e_aes_crypt (env w) t = 0"
    and n: "16 \<le> unat n" "n mod 16 = 0"
    and plain: "plain = e_aes_dec (env w) key aes_iv (take (unat n) buf)" "length plain = unat n"
  shows "\<exists>w'. aes_cbc_128_dec_padding key buf n out w =
    (if plain ! (unat n - 1) \<noteq> 0 \<and> plain ! (unat n - 1) \<le> 16 \<and>
        pkcs7 plain (take (unat n - unat (plain ! (unat n - 1))) plain)
     then (mkernel_internal_succ, plain @ drop (unat n) out, Some (n - ucast (plain ! (unat n - 1))), w')
     else (mkernel_internal_aes_padding_unmatched, plain @ drop (unat n) out, None, w'))"
proof -
  let ?p = "plain ! (unat n - 1)"
  have n0: "n \<noteq> 0" using n by auto
  have last: "(plain @ drop (unat n) out) ! (unat n - 1) = ?p" using plain(2) n(1) by (simp add: nth_append)
  have scan: "?p \<noteq> 0 \<Longrightarrow> ?p \<le> 16 \<Longrightarrow>
      padding_scan (plain @ drop (unat n) out) (unat n) ?p [1..<Suc (unat ?p)] 0 = ?p \<longleftrightarrow>
      pkcs7 plain (take (unat n - unat ?p) plain)"
    using pkcs7_iff_scan [OF n(1) plain(2) refl] by blast
  have run: "\<exists>w'. aes_cbc_128_dec_padding key buf n out w =
      (if ?p > 16 \<or> ?p = 0 then (mkernel_internal_aes_padding_unmatched, plain @ drop (unat n) out, None, w')
       else if padding_scan (plain @ drop (unat n) out) (unat n) ?p [1..<Suc (unat ?p)] 0 \<noteq> ?p
       then (mkernel_internal_aes_padding_unmatched, plain @ drop (unat n) out, None, w')
       else (mkernel_internal_succ, plain @ drop (unat n) out, Some (n - ucast ?p), w'))"
    using n0 n(2) ok last
    by (simp add: aes_cbc_128_dec_padding_def ask_def Let_def plain(1) [symmetric] del: upt_Suc)
  then obtain w' where "aes_cbc_128_dec_padding key buf n out w =
      (if ?p > 16 \<or> ?p = 0 then (mkernel_internal_aes_padding_unmatched, plain @ drop (unat n) out, None, w')
       else if padding_scan (plain @ drop (unat n) out) (unat n) ?p [1..<Suc (unat ?p)] 0 \<noteq> ?p
       then (mkernel_internal_aes_padding_unmatched, plain @ drop (unat n) out, None, w')
       else (mkernel_internal_succ, plain @ drop (unat n) out, Some (n - ucast ?p), w'))" by blast
  then show ?thesis using scan
    by (intro exI [of _ w']) (auto simp: not_less not_le simp del: upt_Suc)
qed

text \<open>A text with its padding, as both routines see it.\<close>

definition padded :: "byte list \<Rightarrow> byte list" where
  "padded text = (let k = 16 - length text mod 16 in text @ replicate k (word_of_nat k))"

lemma padded_props:
  "length (padded text) = length text + (16 - length text mod 16)" "length (padded text) mod 16 = 0"
  "16 \<le> length (padded text)" "take (length text) (padded text) = text" "pkcs7 (padded text) text"
proof -
  show l: "length (padded text) = length text + (16 - length text mod 16)" by (simp add: padded_def Let_def)
  show "length (padded text) mod 16 = 0" "16 \<le> length (padded text)" unfolding l by presburger+
  show "take (length text) (padded text) = text" by (simp add: padded_def Let_def)
  show "pkcs7 (padded text) text"
    unfolding pkcs7_def padded_def Let_def by (intro exI [of _ "16 - length text mod 16"]) simp
qed

lemma padded_len:
  assumes "length text < 2 ^ 31"
  shows "unat (calculate_padding_len (word_of_nat (length text))) = length (padded text)"
  using padding_len_nat [of "word_of_nat (length text)"] assms by (simp add: unat_of_nat padded_props(1))

lemma enc_run:
  assumes ok: "\<And>t. e_aes_setkey (env w) t = 0" "\<And>t. e_aes_crypt (env w) t = 0"
    and len: "length text < 2 ^ 31" "unat n = length (padded text)"
    and buf: "length buf = unat n" "take (length text) buf = text"
  shows "\<exists>w'. aes_cbc_128_enc_padding key buf (word_of_nat (length text)) n out w =
    (mkernel_internal_succ, padded text, e_aes_enc (env w) key aes_iv (padded text) @ drop (unat n) out, Some n, w') \<and>
    env w' = env w"
proof -
  let ?l = "word_of_nat (length text) :: u32"
  define k where "k = 16 - length text mod 16"
  have k: "0 < k" "k \<le> 16" by (simp_all add: k_def)
  have pad: "padded text = text @ replicate k (word_of_nat k)" by (simp add: padded_def k_def Let_def)
  have ul: "unat ?l = length text" using len(1) by (simp add: unat_of_nat)
  have un: "unat n = length text + k" using len(2) by (simp add: padded_props(1) k_def)
  have "n = word_of_nat (unat n)" by simp
  then have "n - ?l = word_of_nat k" unfolding un by simp
  moreover have "(ucast (word_of_nat k :: u32) :: byte) = word_of_nat k" by transfer simp
  ultimately have pc: "(ucast (n - ?l) :: byte) = word_of_nat k" by simp
  have "fold (\<lambda>i b. b[i := word_of_nat k]) [length text..<length text + k] buf = padded text"
    using fold_pad [of "length text" "length text + k" buf "word_of_nat k"] buf un by (simp add: pad)
  then show ?thesis
    using ok un by (simp add: aes_cbc_128_enc_padding_def ask_def Let_def ul pc pad)
qed

lemma dec_padded:
  assumes ok: "\<And>t. e_aes_setkey (env w) t = 0" "\<And>t. e_aes_crypt (env w) t = 0"
    and n: "unat n = length (padded text)"
    and buf: "e_aes_dec (env w) key aes_iv (take (unat n) buf) = padded text"
  shows "\<exists>w'. aes_cbc_128_dec_padding key buf n out w =
    (mkernel_internal_succ, padded text @ drop (unat n) out, Some (word_of_nat (length text)), w')"
proof -
  define k where "k = 16 - length text mod 16"
  have k: "0 < k" "k \<le> 16" by (simp_all add: k_def)
  have pad: "padded text = text @ replicate k (word_of_nat k)" by (simp add: padded_def k_def Let_def)
  have un: "unat n = length text + k" using n by (simp add: padded_props(1) k_def)
  have "unat (n mod 16) = 0" using padded_props(2) [of "text"] by (simp add: unat_mod n)
  then have nm: "n mod 16 = 0" by (simp add: unat_eq_0)
  have n16: "16 \<le> unat n" using padded_props(3) n by simp
  have pl: "padded text ! (unat n - 1) = word_of_nat k" unfolding un pad by (rule nth_padding [OF k(1)])
  have u8: "unat (word_of_nat k :: byte) = k" using k by (simp add: unat_of_nat)
  have k8: "(word_of_nat k :: byte) \<noteq> 0" "(word_of_nat k :: byte) \<le> 16"
    using u8 k by (auto simp: word_le_nat_alt)
  have pt: "pkcs7 (padded text) (take (unat n - k) (padded text))"
    using padded_props(4,5) [of "text"] by (simp add: un)
  have "(ucast (word_of_nat k :: byte) :: u32) = word_of_nat k"
    using k by (intro unsigned_word_eqI [where 'a = nat]) (simp add: u8 unat_of_nat unsigned_ucast_eq take_bit_eq_mod)
  moreover have "n = word_of_nat (unat n)" by simp
  ultimately have "n - ucast (word_of_nat k :: byte) = word_of_nat (length text)" unfolding un by simp
  then show ?thesis
    using dec_run [OF ok n16 nm refl, of key buf out] buf n k8 pt unfolding buf pl u8 by auto
qed

section \<open>Properties\<close>

text \<open>
  The padded length is the next multiple of 16 above the length, so at least one and at most
  16 bytes are added, for every length for which the sum does not wrap around.
\<close>

theorem padding_len_bounds:
  assumes "unat len < 2 ^ 32 - 16"
  shows "unat (calculate_padding_len len) mod 16 = 0 \<and>
         unat len < unat (calculate_padding_len len) \<and>
         unat (calculate_padding_len len) \<le> unat len + 16"
  using padding_len_nat [OF assms] by presburger

theorem padding_len_bounds_witness:
  "unat (calculate_padding_len 32) mod 16 = 0 \<and> unat (calculate_padding_len 32) \<le> 48"
  using padding_len_bounds [of 32] by simp

text \<open>
  C22: Whatever is encrypted comes back from the decryption, with its length, when the cipher
  inverts itself on whole blocks and keeps their length: the padding loses nothing, also when
  the length already is a multiple of 16.
\<close>

theorem enc_dec_round_trip:
  assumes cipher: "\<And>k iv b. length b mod 16 = 0 \<Longrightarrow> length (e_aes_enc (env w) k iv b) = length b \<and>
      e_aes_dec (env w) k iv (e_aes_enc (env w) k iv b) = b"
    and ok: "\<And>t. e_aes_setkey (env w) t = 0" "\<And>t. e_aes_crypt (env w) t = 0"
    and len: "length text < 2 ^ 31" "n = calculate_padding_len (word_of_nat (length text))"
    and buf: "length buf = unat n" "take (length text) buf = text" "length out1 = unat n"
    and enc: "aes_cbc_128_enc_padding key buf (word_of_nat (length text)) n out1 w = (r1, buf', out2, l, w1)"
    and dec: "aes_cbc_128_dec_padding key out2 n out3 w1 = (r2, out4, l', w2)"
  shows "r1 = mkernel_internal_succ \<and> l = Some n \<and> r2 = mkernel_internal_succ \<and>
         l' = Some (word_of_nat (length text)) \<and> take (length text) out4 = text"
proof -
  have un: "unat n = length (padded text)" using padded_len [OF len(1)] len(2) by simp
  obtain w' where "aes_cbc_128_enc_padding key buf (word_of_nat (length text)) n out1 w =
      (mkernel_internal_succ, padded text, e_aes_enc (env w) key aes_iv (padded text) @ drop (unat n) out1, Some n, w')"
      "env w' = env w"
    using enc_run [OF ok len(1) un buf(1,2)] by blast
  then have 1: "r1 = mkernel_internal_succ" "out2 = e_aes_enc (env w) key aes_iv (padded text)" "l = Some n" "env w1 = env w"
    using enc buf(3) by auto
  have c: "length out2 = unat n" "e_aes_dec (env w1) key aes_iv out2 = padded text"
    using cipher [OF padded_props(2), of key aes_iv "text"] by (simp_all add: 1 un)
  have ok1: "e_aes_setkey (env w1) t = 0" "e_aes_crypt (env w1) t = 0" for t using ok 1(4) by simp_all
  show ?thesis
    using dec_padded [OF ok1 un, of key out2 out3] c dec 1(1,3) padded_props(1,4) [of "text"] by auto
qed

theorem enc_dec_round_trip_witness:
  "\<exists>b out w1 out4 w2. aes_cbc_128_enc_padding (replicate 16 7) [1, 2, 3, 0, 0, 0, 0, 0, 0, 0, 0, 0, 0, 0, 0, 0]
       3 16 (replicate 16 0) (boot_world calm_env) = (mkernel_internal_succ, b, out, Some 16, w1) \<and>
     aes_cbc_128_dec_padding (replicate 16 7) out 16 (replicate 16 0) w1 =
       (mkernel_internal_succ, out4, Some 3, w2) \<and> take 3 out4 = [1, 2, 3]"
proof -
  let ?buf = "[1, 2, 3, 0, 0, 0, 0, 0, 0, 0, 0, 0, 0, 0, 0, 0] :: byte list"
  let ?w = "boot_world calm_env"
  obtain r1 b out l w1 where e: "aes_cbc_128_enc_padding (replicate 16 7) ?buf 3 16 (replicate 16 0) ?w =
      (r1, b, out, l, w1)" by (metis prod_cases5)
  obtain r2 out4 l' w2 where d: "aes_cbc_128_dec_padding (replicate 16 7) out 16 (replicate 16 0) w1 =
      (r2, out4, l', w2)" by (metis prod_cases4)
  have n: "calculate_padding_len 3 = 16" by (simp add: calculate_padding_len_def)
  have "r1 = mkernel_internal_succ \<and> l = Some 16 \<and> r2 = mkernel_internal_succ \<and>
      l' = Some (word_of_nat (length [1, 2, 3 :: byte])) \<and>
      take (length [1, 2, 3 :: byte]) out4 = [1, 2, 3]"
  proof (rule enc_dec_round_trip [of ?w])
    show "aes_cbc_128_enc_padding (replicate 16 7) ?buf (word_of_nat (length [1, 2, 3 :: byte])) 16
        (replicate 16 0) ?w = (r1, b, out, l, w1)"
      using e by simp
  qed (use d n in \<open>simp_all add: boot_world_def calm_env_def\<close>)
  then show ?thesis using e d by (simp add: numeral_eq_Suc)
qed

text \<open>
  Decryption accepts exactly the well padded texts: it succeeds if and only if the
  decrypted blocks end in \<open>p\<close> bytes of value \<open>p\<close> with \<open>p\<close> from 1 to 16, and the length it
  reports is that of the text before them; nothing is read outside the buffer.
\<close>

theorem dec_accepts_exactly_padded:
  assumes ok: "\<And>t. e_aes_setkey (env w) t = 0" "\<And>t. e_aes_crypt (env w) t = 0"
    and n: "16 \<le> unat n" "n mod 16 = 0"
    and plain: "plain = e_aes_dec (env w) key aes_iv (take (unat n) buf)" "length plain = unat n"
    and dec: "aes_cbc_128_dec_padding key buf n out w = (r, out', l, w')"
  shows "(r = mkernel_internal_succ \<longleftrightarrow> (\<exists>text. pkcs7 plain text)) \<and>
         (r = mkernel_internal_succ \<longrightarrow> (\<exists>text. pkcs7 plain text \<and> l = Some (word_of_nat (length text)))) \<and>
         (r \<noteq> mkernel_internal_succ \<longrightarrow> r = mkernel_internal_aes_padding_unmatched \<and> l = None)"
proof -
  let ?p = "plain ! (unat n - 1)"
  let ?t = "take (unat n - unat ?p) plain"
  have pk: "?p \<noteq> 0 \<and> ?p \<le> 16 \<and> t = ?t" if "pkcs7 plain t" for t
  proof -
    from that obtain k where k: "plain = t @ replicate k (word_of_nat k)" "0 < k" "k \<le> 16"
      by (auto simp: pkcs7_def)
    then have un: "unat n = length t + k" using plain(2) by simp
    have p: "?p = word_of_nat k" unfolding un k(1) by (rule nth_padding [OF k(2)])
    have u: "unat (word_of_nat k :: byte) = k" using k(3) by (simp add: unat_of_nat)
    have "?t = t" unfolding p unfolding u un by (simp add: k(1))
    moreover have "(word_of_nat k :: byte) \<noteq> 0" using u k(2) by auto
    moreover have "(word_of_nat k :: byte) \<le> 16" using u k(3) by (simp add: word_le_nat_alt)
    ultimately show ?thesis unfolding p by blast
  qed
  have run: "(r, l) = (if ?p \<noteq> 0 \<and> ?p \<le> 16 \<and> pkcs7 plain ?t
      then (mkernel_internal_succ, Some (n - ucast ?p)) else (mkernel_internal_aes_padding_unmatched, None))"
    using dec_run [OF ok n plain, of out] dec by (auto split: if_splits)
  show ?thesis
  proof (cases "?p \<noteq> 0 \<and> ?p \<le> 16 \<and> pkcs7 plain ?t")
    case True
    then have "unat ?p \<le> 16" by (simp add: word_le_nat_alt)
    then have "n - ucast ?p = word_of_nat (length ?t)"
      using n(1) plain(2)
      by (intro unsigned_word_eqI [where 'a = nat]) (simp add: unat_sub word_le_nat_alt unsigned_ucast_eq unat_of_nat take_bit_eq_mod)
    then show ?thesis
      using run True by auto
  next
    case False
    then have "\<nexists>text. pkcs7 plain text" using pk by blast
    moreover have "(r, l) = (mkernel_internal_aes_padding_unmatched, None)"
      using run unfolding if_not_P [OF False] .
    ultimately show ?thesis by auto
  qed
qed

theorem dec_accepts_exactly_padded_witness:
  "fst (aes_cbc_128_dec_padding [] (replicate 16 17) 16 [] (boot_world calm_env)) \<noteq> mkernel_internal_succ"
proof -
  let ?w = "boot_world calm_env"
  obtain r out' l w' where d: "aes_cbc_128_dec_padding [] (replicate 16 17) 16 [] ?w = (r, out', l, w')"
    by (metis prod_cases4)
  have "\<not> pkcs7 (replicate 16 17) t" for t
  proof
    assume "pkcs7 (replicate 16 (17 :: byte)) t"
    then obtain k where k: "replicate 16 (17 :: byte) = t @ replicate k (word_of_nat k)" "0 < k" "k \<le> 16"
      by (auto simp: pkcs7_def)
    have "word_of_nat k \<in> set (replicate 16 (17 :: byte))" unfolding k(1) using k(2) by simp
    then have "unat (word_of_nat k :: byte) = 17" by simp
    then show False using k(3) by (simp add: unat_of_nat)
  qed
  then show ?thesis
    using dec_accepts_exactly_padded [of ?w 16 "replicate 16 17" "[]" "replicate 16 17" "[]" r out' l w'] d
    by (simp add: boot_world_def calm_env_def)
qed

end
