(* ===== verification/Das_Codec.thy ===== *)
theory Das_Codec
  imports Crypto
begin

text \<open>
  The data formats of microkernel/src/das_transport.c: topics, the length prefix and the common
  part of a payload, and the payload as a whole.  The subset of \<open>sscanf\<close> and \<open>snprintf\<close> the file
  uses is written out.
\<close>

section \<open>Decimal numbers\<close>

definition isdigit :: "char \<Rightarrow> bool" where
  "isdigit c \<longleftrightarrow> 48 \<le> (of_char c :: nat) \<and> (of_char c :: nat) \<le> 57"

definition isspace :: "char \<Rightarrow> bool" where
  "isspace c \<longleftrightarrow> (of_char c :: nat) = 32 \<or> 9 \<le> (of_char c :: nat) \<and> (of_char c :: nat) \<le> 13"

definition digit :: "nat \<Rightarrow> char" where
  "digit d = char_of (48 + d)"

fun string_of_nat :: "nat \<Rightarrow> string" where
  "string_of_nat n = (if n < 10 then [digit n] else string_of_nat (n div 10) @ [digit (n mod 10)])"

declare string_of_nat.simps [simp del]

definition string_of_int :: "int \<Rightarrow> string" where
  "string_of_int i = (if i < 0 then CHR ''-'' # string_of_nat (nat (- i)) else string_of_nat (nat i))"

definition dec :: "string \<Rightarrow> nat" where
  "dec = foldl (\<lambda>a c. 10 * a + (of_char c - 48)) 0"

text \<open>An integer after optional blanks and a sign, and what follows it.\<close>

definition scan_int :: "string \<Rightarrow> (int \<times> string) option" where
  "scan_int s =
     (let s1 = dropWhile isspace s;
          (neg, s2) = (case s1 of c # r \<Rightarrow> if c = CHR ''-'' then (True, r)
                                         else if c = CHR ''+'' then (False, r) else (False, s1)
                       | [] \<Rightarrow> (False, s1));
          ds = takeWhile isdigit s2
      in if ds = [] then None
         else Some (if neg then - int (dec ds) else int (dec ds), dropWhile isdigit s2))"

definition atoi :: "string \<Rightarrow> int" where
  "atoi s = (case scan_int s of None \<Rightarrow> 0 | Some (i, _) \<Rightarrow> i)"

lemma digit_props [simp]:
  assumes "d < 10"
  shows "isdigit (digit d)" "\<not> isspace (digit d)" "(of_char (digit d) :: nat) = 48 + d"
    "digit d \<noteq> CHR ''-''" "digit d \<noteq> CHR ''+''"
proof -
  show c: "(of_char (digit d) :: nat) = 48 + d" using assms by (simp add: digit_def)
  show "isdigit (digit d)" "\<not> isspace (digit d)" using assms by (simp_all add: isdigit_def isspace_def c)
  show "digit d \<noteq> CHR ''-''" "digit d \<noteq> CHR ''+''"
  proof -
    have "(of_char CHR ''-'' :: nat) < 48 + d" "(of_char CHR ''+'' :: nat) < 48 + d" by simp_all
    then show "digit d \<noteq> CHR ''-''" "digit d \<noteq> CHR ''+''" unfolding c [symmetric] by auto
  qed
qed

lemma dec_snoc: "dec (ds @ [digit d]) = 10 * dec ds + d" if "d < 10"
  using that by (simp add: dec_def)

lemma string_of_nat_props:
  "dec (string_of_nat n) = n" "list_all isdigit (string_of_nat n)" "string_of_nat n \<noteq> []"
proof (induction n rule: string_of_nat.induct)
  case (1 n)
  { case 1 then show ?case using "1.IH" by (subst string_of_nat.simps) (simp add: dec_snoc, simp add: dec_def)
  next case 2 then show ?case using "1.IH" by (subst string_of_nat.simps) simp
  next case 3 then show ?case using "1.IH" by (subst string_of_nat.simps) simp }
qed

lemma scan_int_of_int:
  assumes "rest = [] \<or> \<not> isdigit (hd rest)"
  shows "scan_int (string_of_int i @ rest) = Some (i, rest)"
proof -
  have tw: "takeWhile isdigit (string_of_nat n @ rest) = string_of_nat n"
    "dropWhile isdigit (string_of_nat n @ rest) = rest" for n
    using string_of_nat_props(2) [of n] assms
    by (cases rest; auto simp: list_all_iff takeWhile_append dropWhile_append)+
  have hd: "\<exists>d ds. string_of_nat n = digit d # ds \<and> d < 10" for n
  proof (induction n rule: string_of_nat.induct)
    case (1 n)
    show ?case
    proof (cases "n < 10")
      case True
      then show ?thesis by (subst string_of_nat.simps) auto
    next
      case False
      then show ?thesis using 1 by (subst string_of_nat.simps) auto
    qed
  qed
  show ?thesis
  proof (cases "i < 0")
    case True
    have "\<not> isspace CHR ''-''" by (simp add: isspace_def)
    then show ?thesis using True tw string_of_nat_props(1,3)
      by (simp add: scan_int_def string_of_int_def Let_def)
  next
    case False
    obtain d ds where "string_of_nat (nat i) = digit d # ds" "d < 10" using hd by blast
    then show ?thesis using False tw [of "nat i"] string_of_nat_props(1,3) [of "nat i"]
      by (simp add: scan_int_def string_of_int_def Let_def)
  qed
qed

section \<open>The scanner\<close>

datatype directive = Lit char | Conv_set nat char | Conv_int | Conv_str
datatype scanned = Got_str string | Got_int int

fun sscanf :: "directive list \<Rightarrow> string \<Rightarrow> scanned list" where
  "sscanf [] s = []"
| "sscanf (Lit c # ds) s =
     (case s of [] \<Rightarrow> [] | x # s' \<Rightarrow> if x = c then sscanf ds s' else [])"
| "sscanf (Conv_set n c # ds) s =
     (let t = take n (takeWhile (\<lambda>x. x \<noteq> c) s)
      in if t = [] then [] else Got_str t # sscanf ds (drop (length t) s))"
| "sscanf (Conv_int # ds) s =
     (case scan_int s of None \<Rightarrow> [] | Some (i, s') \<Rightarrow> Got_int i # sscanf ds s')"
| "sscanf (Conv_str # ds) s =
     (let s1 = dropWhile isspace s; t = takeWhile (\<lambda>c. \<not> isspace c) s1
      in if t = [] then [] else Got_str t # sscanf ds (drop (length t) s1))"

text \<open>
  The conversions fit the arrays they are stored in, with the terminating NUL, and an integer
  fits an \<open>int\<close>.
\<close>

definition fits :: "nat list \<Rightarrow> scanned list \<Rightarrow> bool" where
  "fits sizes vs = list_all (\<lambda>(n, v). case v of Got_str t \<Rightarrow> length t < n
      | Got_int i \<Rightarrow> - (2 ^ 31) \<le> i \<and> i < 2 ^ 31) (zip sizes vs)"

text \<open>The formats of the topics the server sends.\<close>

definition fmt_v2 :: "directive list" where
  "fmt_v2 = [Lit CHR ''/'', Conv_set 72 CHR ''/'', Lit CHR ''/'', Conv_int, Lit CHR ''/'', Conv_int]"

definition fmt_head :: "directive list" where
  "fmt_head = map Lit ''/iot/'' @ [Conv_set 72 CHR ''/'', Lit CHR ''/'', Conv_set 72 CHR ''/'', Lit CHR ''/'',
     Conv_set 64 CHR ''-'', Lit CHR ''-'', Conv_set 64 CHR ''/'', Lit CHR ''/'']"

definition fmt_v3 :: "directive list" where
  "fmt_v3 = fmt_head @ [Conv_set 64 CHR ''/'', Lit CHR ''/'', Conv_set 64 CHR ''/'']"

definition fmt_model :: "directive list" where
  "fmt_model = fmt_head @ map Lit ''model/'' @ [Conv_set 64 CHR ''/'', Lit CHR ''/'', Conv_set 64 CHR ''/'',
     Lit CHR ''/'', Conv_set 64 CHR ''/'', Lit CHR ''/'', Conv_str]"

definition fmt_basic :: "directive list" where
  "fmt_basic = fmt_head @ map Lit ''basic/'' @ [Conv_set 64 CHR ''/'', Lit CHR ''/'', Conv_set 64 CHR ''/'']"

definition fmt_ota :: "directive list" where
  "fmt_ota = fmt_head @ map Lit ''ota/'' @ [Conv_set 64 CHR ''/'', Lit CHR ''/'', Conv_set 64 CHR ''/'']"

text \<open>
  What becomes of a topic: the message with its addressing filled in, an error, or a string
  that overruns its array (\<open>None\<close>).
\<close>

definition parse_topic_v2 :: "string \<Rightarrow> (mkernel_internal_error + ezdev_sdk_kernel_submsg) option" where
  "parse_topic_v2 topic =
     (if length topic \<ge> 128 then Some (Inl mkernel_internal_platform_appoint_error)
      else let vs = sscanf fmt_v2 (c_str topic) in
        if \<not> fits [72, 0, 0] vs then None
        else case vs of
          [Got_str serial, Got_int domain, Got_int cmd] \<Rightarrow>
            Some (Inr (zero_submsg\<lparr>sm_msg_domain_id := word_of_int domain,
                                   sm_msg_command_id := word_of_int cmd\<rparr>))
        | _ \<Rightarrow> Some (Inl mkernel_internal_platform_appoint_error))"

definition parse_topic_v3 :: "string \<Rightarrow> (mkernel_internal_error + ezdev_sdk_kernel_submsg_v3) option" where
  "parse_topic_v3 topic =
     (if length topic \<ge> ezdev_sdk_recv_topic_len then Some (Inl mkernel_internal_platform_appoint_error)
      else let s = c_str topic; vs = sscanf fmt_v3 s in
        if \<not> fits [72, 72, 64, 64, 64, 64] vs then None
        else case vs of
          [Got_str serial, Got_str sub, Got_str rid, Got_str rtype, Got_str model_name, Got_str model_type] \<Rightarrow>
            (let m = zero_submsg_v3\<lparr>s3_sub_serial := sub, s3_resource_id := rid, s3_resource_type := rtype\<rparr> in
             if model_name = ''model''
             then (let vs2 = sscanf fmt_model s in
                   if \<not> fits [72, 72, 64, 64, 64, 64, 64, 64] vs2 then None
                   else case vs2 of
                     [_, _, _, _, Got_str mtype, Got_str business, Got_str domain, Got_str ident] \<Rightarrow>
                       Some (Inr (m\<lparr>s3_business_type := business, s3_domain_id := domain, s3_identifier := ident,
                                    s3_extend_id := (if mtype = ''service'' then sdk_service
                                                     else if mtype = ''attribute'' then sdk_attribution
                                                     else 0)\<rparr>))
                   | _ \<Rightarrow> Some (Inl mkernel_internal_platform_appoint_error))
             else if model_name = ''basic'' \<and> model_type = ''shadow''
             then (let vs2 = sscanf fmt_basic s in
                   if \<not> fits [72, 72, 64, 64, 64, 64] vs2 then None
                   else case vs2 of
                     [_, _, _, _, Got_str mtype, Got_str business] \<Rightarrow>
                       Some (Inr (m\<lparr>s3_business_type := business, s3_extend_id := sdk_shadow\<rparr>))
                   | _ \<Rightarrow> Some (Inl mkernel_internal_platform_appoint_error))
             else if model_name = ''ota''
             then (let vs2 = sscanf fmt_ota s in
                   if \<not> fits [72, 72, 64, 64, 64, 64] vs2 then None
                   else case vs2 of
                     [_, _, _, _, Got_str ident, Got_str business] \<Rightarrow>
                       Some (Inr (m\<lparr>s3_identifier := ident, s3_business_type := business,
                                    s3_extend_id := sdk_ota\<rparr>))
                   | _ \<Rightarrow> Some (Inl mkernel_internal_platform_appoint_error))
             else Some (Inl mkernel_internal_platform_appoint_error))
        | _ \<Rightarrow> Some (Inl mkernel_internal_platform_appoint_error))"

section \<open>The topics the device publishes to\<close>

definition snprintf :: "nat \<Rightarrow> string \<Rightarrow> string" where
  "snprintf n s = take (n - 1) s"

definition topic_v2 :: "ezdev_sdk_kernel_pubmsg \<Rightarrow> string" where
  "topic_v2 m = snprintf 128 (''/'' @ string_of_int (sint (pm_msg_domain_id m)) @ ''/'' @
     string_of_int (sint (pm_msg_command_id m)))"

definition topic_v3 :: "ezdev_sdk_kernel \<Rightarrow> ezdev_sdk_kernel_pubmsg_v3 \<Rightarrow> string" where
  "topic_v3 k m =
     (let sub = (if hub_reg_status k = 1 \<and> p3_sub_serial m \<noteq> ''''
                 then take (ezdev_sdk_devserial_maxlen - 1) (p3_sub_serial m) else ''global'');
          head = ''/iot/'' @ dev_subserial (dev_info k) @ ''/'' @ sub @ ''/'' @
                 p3_resource_id m @ ''-'' @ p3_resource_type m;
          model = (\<lambda>t. snprintf ezdev_sdk_recv_topic_len (head @ ''/model/'' @ t @ ''/'' @ p3_business_type m @
                 ''/'' @ p3_domain_id m @ ''/'' @ p3_identifier m))
      in if p3_extend_id m = sdk_attribution then model ''attribute''
         else if p3_extend_id m = sdk_event then model ''event''
         else if p3_extend_id m = sdk_service then model ''service''
         else if p3_extend_id m = sdk_shadow
         then snprintf ezdev_sdk_recv_topic_len (head @ ''/basic/shadow/'' @ p3_business_type m)
         else if p3_extend_id m = sdk_ota
         then snprintf ezdev_sdk_recv_topic_len
                (head @ ''/ota/'' @ p3_identifier m @ ''/'' @ p3_business_type m)
         else '''')"

section \<open>The common part of a payload\<close>

definition serialize_short :: "u16 \<Rightarrow> byte list" where
  "serialize_short s = [word_of_nat (unat s div 256), word_of_nat (unat s mod 256)]"

definition deserialize_short :: "byte list \<Rightarrow> u16" where
  "deserialize_short buf = word_of_nat (unat (buf ! 0) * 256 + unat (buf ! 1))"

text \<open>The number nodes the JSON library makes from a \<open>double\<close>: \<open>valueint\<close> saturates.\<close>

definition json_number :: "int \<Rightarrow> bscJSON" where
  "json_number i = JNumber (if i \<ge> 2 ^ 31 - 1 then 2 ^ 31 - 1 else if i \<le> - (2 ^ 31) then - (2 ^ 31) else i) i"

definition common_json :: "int \<Rightarrow> string \<Rightarrow> u32 \<Rightarrow> bscJSON" where
  "common_json msg_type cmd_version msg_seq =
     JObject [(''CmdVer'', JString cmd_version), (''Seq'', json_number (uint msg_seq)),
              (''MsgType'', json_number msg_type)]"

text \<open>A block the JSON library allocates and hands over.\<close>

definition lib_alloc :: "world \<Rightarrow> world" where
  "lib_alloc w = w\<lparr>heap := (heap w)\<lparr>live := live (heap w) + 1\<rparr>\<rparr>"

text \<open>
  The text of a tree, with the code for a text that could not be allocated; and the same with
  the root object made first.
\<close>

definition json_print :: "bscJSON \<Rightarrow> world \<Rightarrow> (mkernel_internal_error + byte list) \<times> world" where
  "json_print j w = (case ask e_json_print_ok w of (ok, w1) \<Rightarrow>
     if \<not> ok then (Inl mkernel_internal_json_format_error, w1)
     else (Inr (bytes_of (c_str (e_json_print (env w1) j))), lib_alloc w1))"

definition print_json :: "bscJSON \<Rightarrow> world \<Rightarrow> (mkernel_internal_error + byte list) \<times> world" where
  "print_json j w = (case ask e_json_create w of (ok, w1) \<Rightarrow>
     if \<not> ok then (Inl mkernel_internal_malloc_error, w1) else json_print j w1)"

definition serialize_payload_common ::
  "int \<Rightarrow> string \<Rightarrow> u32 \<Rightarrow> world \<Rightarrow> (mkernel_internal_error + byte list \<times> u16) \<times> world" where
  "serialize_payload_common msg_type cmd_version msg_seq w =
     (case print_json (common_json msg_type cmd_version msg_seq) w of
        (Inl r, w1) \<Rightarrow> (Inl r, w1)
      | (Inr s, w1) \<Rightarrow> (Inr (s, word_of_nat (length s)), w1))"

text \<open>
  Sequence number and version of a received message.  The parser stops at the end of the first
  JSON value; the length \<open>common_len\<close> is not used.
\<close>

definition deserialize_fields :: "byte list \<Rightarrow> world \<Rightarrow> mkernel_internal_error + string \<times> u32" where
  "deserialize_fields common_buf w =
     (case e_json_parse (env w) (c_str (text_of common_buf)) of
        None \<Rightarrow> Inl mkernel_internal_json_parse_error
      | Some j \<Rightarrow>
          (case (bscJSON_GetObjectItem (Some j) ''Seq'', bscJSON_GetObjectItem (Some j) ''CmdVer'') of
             (Some seq, Some ver) \<Rightarrow>
               if \<not> is_Number seq \<or> \<not> is_String ver then Inl mkernel_internal_json_parse_error
               else Inr (strncpy0 (version_max_len - 1) (the (valuestring ver)), word_of_int (valueint seq))
           | _ \<Rightarrow> Inl mkernel_internal_json_parse_error))"

definition deserialize_common ::
  "byte list \<Rightarrow> ezdev_sdk_kernel_submsg \<Rightarrow> world \<Rightarrow> mkernel_internal_error \<times> ezdev_sdk_kernel_submsg" where
  "deserialize_common common_buf m w =
     (case deserialize_fields common_buf w of
        Inl r \<Rightarrow> (r, m)
      | Inr (ver, seq) \<Rightarrow> (mkernel_internal_succ, m\<lparr>sm_command_ver := ver, sm_msg_seq := seq\<rparr>))"

definition deserialize_common_v3 ::
  "byte list \<Rightarrow> ezdev_sdk_kernel_submsg_v3 \<Rightarrow> world \<Rightarrow> mkernel_internal_error \<times> ezdev_sdk_kernel_submsg_v3" where
  "deserialize_common_v3 common_buf m w =
     (case deserialize_fields common_buf w of
        Inl r \<Rightarrow> (r, m)
      | Inr (ver, seq) \<Rightarrow> (mkernel_internal_succ, m\<lparr>s3_command_ver := ver, s3_msg_seq := seq\<rparr>))"

section \<open>Properties\<close>

lemma short_round_trip [simp]: "deserialize_short (serialize_short s) = s"
proof -
  have "unat s div 256 < 256" using unsigned_less [of s] by (simp add: div_less_iff_less_mult)
  then have "unat (word_of_nat (unat s div 256) :: byte) = unat s div 256"
    "unat (word_of_nat (unat s mod 256) :: byte) = unat s mod 256"
    by (simp_all add: unat_of_nat)
  moreover have "unat s div 256 * 256 + unat s mod 256 = unat s" by simp
  ultimately show ?thesis by (simp add: deserialize_short_def serialize_short_def)
qed

lemma length_serialize_short [simp]: "length (serialize_short s) = 2"
  by (simp add: serialize_short_def)

lemma sscanf_v2:
  assumes "CHR ''/'' \<notin> set serial" and "serial \<noteq> ''''" and "length serial \<le> 72"
  shows "sscanf fmt_v2 (''/'' @ serial @ ''/'' @ string_of_int d @ ''/'' @ string_of_int c) =
         [Got_str serial, Got_int d, Got_int c]"
proof -
  have t: "takeWhile (\<lambda>x. x \<noteq> CHR ''/'') (serial @ CHR ''/'' # r) = serial" for r
    using assms(1) by (subst takeWhile_append2) auto
  have "\<not> isdigit CHR ''/''" by (simp add: isdigit_def)
  then have "scan_int (string_of_int d @ CHR ''/'' # string_of_int c) = Some (d, CHR ''/'' # string_of_int c)"
    by (intro scan_int_of_int) simp
  moreover have "scan_int (string_of_int c) = Some (c, [])"
    using scan_int_of_int [of "[]" c] by simp
  ultimately show ?thesis using assms by (simp add: fmt_v2_def t Let_def)
qed

lemma nul_notin_string_of_int: "CHR 0x00 \<notin> set (string_of_int i)"
proof -
  have "CHR 0x00 \<notin> set (string_of_nat n)" for n
    using string_of_nat_props(2) [of n] by (auto simp: list_all_iff isdigit_def)
  then show ?thesis by (simp add: string_of_int_def)
qed

text \<open>
  A topic of protocol 2.0 is understood: from \<open>/serial/domain/command\<close>, with any serial
  number that fits and any two \<open>int\<close> values in decimal, the message gets exactly that domain
  and that command.
\<close>

theorem topic_v2_understood:
  assumes "CHR ''/'' \<notin> set serial" "CHR 0x00 \<notin> set serial" "serial \<noteq> ''''" "length serial < 72"
    and "- (2 ^ 31) \<le> d" "d < 2 ^ 31" "- (2 ^ 31) \<le> c" "c < 2 ^ 31"
    and "length (''/'' @ serial @ ''/'' @ string_of_int d @ ''/'' @ string_of_int c) < 128"
  shows "parse_topic_v2 (''/'' @ serial @ ''/'' @ string_of_int d @ ''/'' @ string_of_int c) =
    Some (Inr (zero_submsg\<lparr>sm_msg_domain_id := word_of_int d, sm_msg_command_id := word_of_int c\<rparr>))"
proof -
  let ?t = "''/'' @ serial @ ''/'' @ string_of_int d @ ''/'' @ string_of_int c"
  have "c_str ?t = ?t" using assms(2) by (intro c_str_id) (simp add: nul_notin_string_of_int)
  moreover have "sscanf fmt_v2 ?t = [Got_str serial, Got_int d, Got_int c]"
    using assms by (intro sscanf_v2) simp_all
  ultimately show ?thesis
    using assms(4-9) by (simp add: parse_topic_v2_def fits_def del: append.simps)
qed

theorem topic_v2_understood_witness:
  "parse_topic_v2 ''/D123/1500/-7'' =
     Some (Inr (zero_submsg\<lparr>sm_msg_domain_id := 1500, sm_msg_command_id := - 7\<rparr>))"
proof -
  have s: "string_of_int 1500 = ''1500''" "string_of_int (- 7) = ''-7''"
    by code_simp+
  show ?thesis using topic_v2_understood [of "''D123''" 1500 "- 7"] by (simp add: s)
qed

text \<open>
  The arrays for the serial number are as long as the widest text the format lets through,
  without room for the NUL: a server (or whoever can publish to the device) that sends a topic
  with a serial number of 72 characters makes the receive routine write past the array.
\<close>

theorem topic_serial_overruns:
  assumes "CHR ''/'' \<notin> set serial" "CHR 0x00 \<notin> set serial" "length serial = 72"
    and "length (''/'' @ serial @ ''/'' @ string_of_int d @ ''/'' @ string_of_int c) < 128"
  shows "parse_topic_v2 (''/'' @ serial @ ''/'' @ string_of_int d @ ''/'' @ string_of_int c) = None"
proof -
  let ?t = "''/'' @ serial @ ''/'' @ string_of_int d @ ''/'' @ string_of_int c"
  have "c_str ?t = ?t" using assms(2) by (intro c_str_id) (simp add: nul_notin_string_of_int)
  moreover have "sscanf fmt_v2 ?t = [Got_str serial, Got_int d, Got_int c]"
    using assms by (intro sscanf_v2) auto
  ultimately show ?thesis
    using assms(3,4) by (simp add: parse_topic_v2_def fits_def del: append.simps)
qed

theorem topic_serial_overruns_witness:
  "parse_topic_v2 (''/'' @ replicate 72 CHR ''A'' @ ''/7/7'') = None"
proof -
  have s: "string_of_int 7 = ''7''" by code_simp
  show ?thesis using topic_serial_overruns [of "replicate 72 CHR ''A''" 7 7] by (simp add: s)
qed

end
