(* ===== verification/Bus.thy ===== *)
theory Bus
  imports Das_Codec
begin

text \<open>
  microkernel/src/access_domain_bus.c: the commands of the device domain, which the kernel
  handles itself, with the XML parser wrapper of ezdev_sdk_kernel_xml_parser.c and the change of
  the keep-alive interval of das_transport.c.
\<close>

section \<open>Operations\<close>

text \<open>
  \<open>e_xml_child_txt\<close> is the text of the child of the given name in the document: \<open>None\<close> when there
  is no document, \<open>Some None\<close> when it has no such child.  A document of length 0 has no children.
\<close>

definition cenplt2pusetlbsdomainnamebydasreq_xml_parser ::
  "byte list option \<Rightarrow> u32 \<Rightarrow> world \<Rightarrow> mkernel_internal_error + string" where
  "cenplt2pusetlbsdomainnamebydasreq_xml_parser xml_buf len w =
     (case (if len = 0 then Some None
            else e_xml_child_txt (env w) (take (unat len) (case xml_buf of None \<Rightarrow> [] | Some b \<Rightarrow> b)) ''DomainName'') of
        None \<Rightarrow> Inl mkernel_internal_xml_parse_error
      | Some None \<Rightarrow> Inl mkernel_internal_get_error_xml
      | Some (Some t) \<Rightarrow>
          if length (c_str t) \<ge> ezdev_sdk_name_len then Inl mkernel_internal_get_error_xml
          else Inr (c_str t))"

definition das_change_keep_alive_interval :: "u16 \<Rightarrow> world \<Rightarrow> mkernel_internal_error \<times> world" where
  "das_change_keep_alive_interval interval w =
     (mkernel_internal_succ,
      act Do_countdown ((upd_kernel (\<lambda>k. k\<lparr>das_keepalive_interval := ucast interval\<rparr>) w)
        \<lparr>g_DasClient_keepAliveInterval := ucast interval\<rparr>))"

definition bus_handle_domainconfig_keepalive ::
  "bscJSON option \<Rightarrow> world \<Rightarrow> mkernel_internal_error \<times> world" where
  "bus_handle_domainconfig_keepalive json_item w =
     (if json_item = None then (mkernel_internal_json_parse_error, w)
      else case bscJSON_GetObjectItem json_item ''Interval'' of
        None \<Rightarrow> (mkernel_internal_get_error_json, w)
      | Some json_interval \<Rightarrow>
          if \<not> is_Number json_interval then (mkernel_internal_get_error_json, w)
          else
            let i = word_of_int (valueint json_interval) :: u32;
                w1 = upd_kernel (\<lambda>k. k\<lparr>das_keepalive_interval := i\<rparr>) w
            in (mkernel_internal_succ, snd (das_keepalive_interval_changed_event_cb (sint i) w1)))"

definition parse_buf :: "byte list \<Rightarrow> world \<Rightarrow> bscJSON option" where
  "parse_buf buf w = e_json_parse (env w) (c_str (text_of buf))"

text \<open>The time configuration is parsed by nobody.\<close>

definition bus_handle_domainconfig :: "ezdev_sdk_kernel_submsg \<Rightarrow> world \<Rightarrow> mkernel_internal_error \<times> world" where
  "bus_handle_domainconfig m w =
     (case sm_buf m of
        None \<Rightarrow> (mkernel_internal_rev_invalid_packet, w)
      | Some buf \<Rightarrow>
          (case parse_buf buf w of
             None \<Rightarrow> (mkernel_internal_json_parse_error, w)
           | Some json_root \<Rightarrow>
               (mkernel_internal_succ,
                case bscJSON_GetObjectItem (Some json_root) ''KeepAlive'' of
                  None \<Rightarrow> w
                | Some j \<Rightarrow> snd (bus_handle_domainconfig_keepalive (Some j) w))))"

definition bus_handle_set_keeplive_time_rsp ::
  "ezdev_sdk_kernel_submsg \<Rightarrow> world \<Rightarrow> mkernel_internal_error \<times> world" where
  "bus_handle_set_keeplive_time_rsp m w =
     (case sm_buf m of
        None \<Rightarrow> (mkernel_internal_rev_invalid_packet, w)
      | Some buf \<Rightarrow>
          (case parse_buf buf w of
             None \<Rightarrow> (mkernel_internal_rev_invalid_packet, w)
           | Some json_root \<Rightarrow>
               (case (bscJSON_GetObjectItem (Some json_root) ''retcode'',
                      bscJSON_GetObjectItem (Some json_root) ''interval'') of
                  (Some json_result, Some json_interval) \<Rightarrow>
                    if \<not> is_Number json_result \<or> \<not> is_Number json_interval
                    then (mkernel_internal_get_error_json, w)
                    else if valueint json_result = 0
                    then (case das_change_keep_alive_interval (word_of_int (valueint json_interval)) w of
                            (r, w1) \<Rightarrow>
                              (r, snd (das_keepalive_interval_changed_event_cb (valueint json_interval) w1)))
                    else (mkernel_internal_succ, w)
                | _ \<Rightarrow> (mkernel_internal_get_error_json, w))))"

definition bus_handle_dev_redirect :: "ezdev_sdk_kernel_submsg \<Rightarrow> world \<Rightarrow> mkernel_internal_error \<times> world" where
  "bus_handle_dev_redirect m w =
     (case cenplt2pusetlbsdomainnamebydasreq_xml_parser (sm_buf m) (sm_buf_len m) w of
        Inl r \<Rightarrow> (r, w)
      | Inr domain_name \<Rightarrow>
          if server_name (server_info (g_ezdev_sdk_kernel w)) = domain_name then (mkernel_internal_succ, w)
          else (mkernel_internal_succ,
            upd_kernel (\<lambda>k. k\<lparr>entr_state := sdk_entrance_switchover, cnt_state := sdk_cnt_unredirect,
              master_key := replicate ezdev_sdk_masterkey_len 0,
              server_info := (server_info k)\<lparr>server_name := domain_name, server_ip := ''''\<rparr>\<rparr>) w))"

text \<open>
  One entry of the list of blocked domains; \<open>domain_id\<close> keeps its value when an entry has no
  name.  The commands are indexed up to the number of domains, not of commands.
\<close>

definition risk_cmd :: "u32 \<Rightarrow> bscJSON option \<Rightarrow> nat \<Rightarrow> world \<Rightarrow> world" where
  "risk_cmd domain_id json_domain indexb w =
     (case bscJSON_GetArrayItem json_domain indexb of
        None \<Rightarrow> w
      | Some (_, c) \<Rightarrow> add_cmd_risk_control domain_id (word_of_int (valueint c)) w)"

definition risk_domain :: "nat \<Rightarrow> bscJSON option \<Rightarrow> nat \<Rightarrow> u32 \<times> world \<Rightarrow> u32 \<times> world" where
  "risk_domain domain_size json_risk_array indexa s =
     (case s of (domain_id, w) \<Rightarrow>
        (case bscJSON_GetArrayItem json_risk_array indexa of
           None \<Rightarrow> (domain_id, w)
         | Some (name, json_domain) \<Rightarrow>
             (let d = (case name of None \<Rightarrow> domain_id | Some n \<Rightarrow> word_of_int (atoi n)) in
              if bscJSON_GetArraySize (Some json_domain) = 0 then (d, add_domain_risk_control d w)
              else (d, fold (risk_cmd d (Some json_domain)) [0..<domain_size] w))))"

definition bus_handle_dev_risk :: "ezdev_sdk_kernel_submsg \<Rightarrow> world \<Rightarrow> mkernel_internal_error \<times> world" where
  "bus_handle_dev_risk m w =
     (case sm_buf m of
        None \<Rightarrow> (mkernel_internal_rev_invalid_packet, w)
      | Some buf \<Rightarrow>
          (case parse_buf buf w of
             None \<Rightarrow> (mkernel_internal_json_parse_error, w)
           | Some json_root \<Rightarrow>
               (let json_risk_array = bscJSON_GetObjectItem (Some json_root) ''risk'';
                    domain_size = bscJSON_GetArraySize json_risk_array
                in (mkernel_internal_succ,
                    snd (fold (risk_domain domain_size json_risk_array) [0..<domain_size] (0, w))))))"

definition bus_handle_force_offline :: "world \<Rightarrow> mkernel_internal_error \<times> world" where
  "bus_handle_force_offline w =
     (mkernel_internal_succ,
      add_access_risk_control
        (snd (broadcast_runtime_err TAG_ACCESS (mkiE2ezE mkernel_internal_force_offline) None w)))"

definition access_domain_bus_handle :: "ezdev_sdk_kernel_submsg \<Rightarrow> world \<Rightarrow> mkernel_internal_error \<times> world" where
  "access_domain_bus_handle m w =
     (let c = sm_msg_command_id m in
      if c = 0x0001 then bus_handle_domainconfig m w
      else if c = 0x0002 then bus_handle_dev_risk m w
      else if c = 0x0003 then bus_handle_force_offline w
      else if c = 0x3453 then bus_handle_set_keeplive_time_rsp m w
      else if c = 0x3450 then (mkernel_internal_succ, w)
      else if c = 0x3479 \<or> c = 0x491F then bus_handle_dev_redirect m w
      else (mkernel_internal_succ, w))"

section \<open>Lemmas\<close>

lemma fold_upt_nth: "n \<le> length xs \<Longrightarrow> fold (\<lambda>i. f (xs ! i)) [0..<n] = fold f (take n xs)"
proof (induction n)
  case (Suc n)
  then show ?case by (simp add: take_Suc_conv_app_nth)
qed simp

lemma fold_skip: "(\<And>i. i \<in> set is \<Longrightarrow> f i = id) \<Longrightarrow> fold f is = id"
  by (induction "is") simp_all

text \<open>A loop over array items by index is a loop over the children.\<close>

lemma fold_items:
  assumes "\<And>i. f i = (case bscJSON_GetArrayItem (Some j) i of None \<Rightarrow> id | Some c \<Rightarrow> g c)"
  shows "fold f [0..<n] = fold g (take n (children j))"
proof -
  let ?k = "min n (length (children j))"
  have "[0..<n] = [0..<?k] @ [?k..<n]"
    using upt_add_eq_append [of 0 ?k "n - ?k"] by simp
  moreover have "fold f [0..<?k] = fold (\<lambda>i. g (children j ! i)) [0..<?k]"
    by (intro ext fold_cong) (auto simp: assms bscJSON_GetArrayItem_def)
  moreover have "fold f [?k..<n] = id"
    by (rule fold_skip) (auto simp: assms bscJSON_GetArrayItem_def)
  ultimately show ?thesis
    using fold_upt_nth [of ?k "children j" g] by (simp add: min_def split: if_splits)
qed

section \<open>Properties\<close>

text \<open>
  The configuration of blocked commands, item by item: every named domain with an empty list
  is blocked as a whole, and of the commands of a domain only as many are blocked as there are
  domains in the configuration, because the inner loop is bounded by the wrong count.
\<close>

theorem risk_config_applied:
  assumes "sm_buf m = Some buf" and "parse_buf buf w = Some root"
    and "bscJSON_GetObjectItem (Some root) ''risk'' = Some (JObject ds)"
  shows "bus_handle_dev_risk m w = (mkernel_internal_succ,
    fold (\<lambda>(name, j) v.
        if children j = [] then add_domain_risk_control (word_of_int (atoi name)) v
        else fold (\<lambda>(_, c). add_cmd_risk_control (word_of_int (atoi name)) (word_of_int (valueint c)))
               (take (length ds) (children j)) v) ds w)"
proof -
  let ?r = "JObject ds" and ?n = "length ds"
  let ?f = "\<lambda>(name, j) v. if children j = [] then add_domain_risk_control (word_of_int (atoi name)) v
        else fold (\<lambda>(_, c). add_cmd_risk_control (word_of_int (atoi name)) (word_of_int (valueint c)))
               (take ?n (children j)) v"
  let ?g = "\<lambda>(name, j) (d, v). (word_of_int (atoi name) :: u32, ?f (name, j) v)"
  have cmds: "fold (risk_cmd d (Some j)) [0..<?n] =
      fold (\<lambda>(_, c). add_cmd_risk_control d (word_of_int (valueint c))) (take ?n (children j))" for d j
    by (rule fold_items) (auto simp: risk_cmd_def fun_eq_iff split: option.split)
  have "fold (risk_domain ?n (Some ?r)) [0..<?n] =
      fold (\<lambda>(name, j). ?g (the name, j)) (take ?n (children ?r))"
    by (rule fold_items)
      (auto simp: fun_eq_iff risk_domain_def cmds Let_def bscJSON_GetArraySize_def bscJSON_GetArrayItem_def
        children_def split: option.split prod.split)
  moreover have "take ?n (children ?r) = map (\<lambda>(k, x). (Some k, x)) ds" by (simp add: children_def)
  moreover have "fold (\<lambda>(name, j). ?g (the name, j)) (map (\<lambda>(k, x). (Some k, x)) es) = fold ?g es" for es
    by (induction es) auto
  ultimately have f: "fold (risk_domain ?n (Some ?r)) [0..<?n] = fold ?g ds" by simp
  have "snd (fold ?g es (d, v)) = fold ?f es v" for es d v
    by (induction es arbitrary: d v) auto
  then show ?thesis
    using assms f by (simp add: bus_handle_dev_risk_def Let_def bscJSON_GetArraySize_def children_def)
qed

definition demo_risk_env :: env where
  "demo_risk_env = calm_env\<lparr>e_json_parse := \<lambda>_. Some (JObject [(''risk'', JObject
     [(''1500'', JArray [JNumber 7 7, JNumber 8 8])])])\<rparr>"

theorem risk_config_applied_witness:
  "snd (bus_handle_dev_risk (zero_submsg\<lparr>sm_buf := Some [123]\<rparr>) (demo_world demo_risk_env)) =
     add_cmd_risk_control 1500 7 (demo_world demo_risk_env)"
proof -
  let ?ds = "[(''1500'', JArray [JNumber 7 7, JNumber 8 8])]"
  let ?w = "demo_world demo_risk_env"
  have "env ?w = demo_risk_env" by (simp add: demo_world_simps demo_init_simps boot_world_def)
  then have p: "parse_buf [123] ?w = Some (JObject [(''risk'', JObject ?ds)])"
    by (simp add: parse_buf_def demo_risk_env_def)
  have g: "bscJSON_GetObjectItem (Some (JObject [(''risk'', JObject ?ds)])) ''risk'' = Some (JObject ?ds)"
    by (simp add: bscJSON_GetObjectItem_def children_def case_insensitive_strcmp_def)
  have "atoi ''1500'' = 1500" by code_simp
  then show ?thesis
    using risk_config_applied [OF _ p g, of "zero_submsg\<lparr>sm_buf := Some [123]\<rparr>"]
    by (simp add: children_def valueint_def)
qed

text \<open>
  A redirect to another LBS server takes effect completely or not at all: the new name is
  stored, the address and the master key of the old server are forgotten and the connection
  starts again from the redirect; a redirect to the current server, a document that cannot be
  read or a name that does not fit change nothing.
\<close>

theorem redirect_takes_effect:
  assumes "bus_handle_dev_redirect m w = (r, w')"
  shows "w' = w \<or>
    r = mkernel_internal_succ \<and>
    cnt w' = sdk_cnt_unredirect \<and> entr_state (g_ezdev_sdk_kernel w') = sdk_entrance_switchover \<and>
    key_empty (master_key (g_ezdev_sdk_kernel w')) \<and>
    server_name (server_info (g_ezdev_sdk_kernel w')) \<noteq> server_name (server_info (g_ezdev_sdk_kernel w)) \<and>
    length (server_name (server_info (g_ezdev_sdk_kernel w'))) < ezdev_sdk_name_len \<and>
    server_ip (server_info (g_ezdev_sdk_kernel w')) = ''''"
  using assms
  by (auto simp: bus_handle_dev_redirect_def cenplt2pusetlbsdomainnamebydasreq_xml_parser_def upd_kernel_def
      split: sum.splits if_splits option.splits)

theorem redirect_takes_effect_witness:
  "\<exists>w'. bus_handle_dev_redirect (zero_submsg\<lparr>sm_buf := Some [60], sm_buf_len := 1\<rparr>)
      (boot_world (calm_env\<lparr>e_xml_child_txt := \<lambda>_ _. Some (Some ''lbs2'')\<rparr>)) = (mkernel_internal_succ, w') \<and>
    server_name (server_info (g_ezdev_sdk_kernel w')) = ''lbs2'' \<and> cnt w' = sdk_cnt_unredirect"
proof -
  let ?m = "zero_submsg\<lparr>sm_buf := Some [60], sm_buf_len := 1\<rparr>"
  let ?w = "boot_world (calm_env\<lparr>e_xml_child_txt := \<lambda>_ _. Some (Some ''lbs2'')\<rparr>)"
  obtain r w' where b: "bus_handle_dev_redirect ?m ?w = (r, w')" by (cases "bus_handle_dev_redirect ?m ?w")
  have "c_str ''lbs2'' = ''lbs2''" by (simp add: c_str_def)
  then have s: "r = mkernel_internal_succ" "server_name (server_info (g_ezdev_sdk_kernel w')) = ''lbs2''"
    using b by (auto simp: bus_handle_dev_redirect_def cenplt2pusetlbsdomainnamebydasreq_xml_parser_def
        boot_world_def ezdev_sdk_name_len_def upd_kernel_def zero_kernel_def)
  have "server_name (server_info (g_ezdev_sdk_kernel ?w)) = ''''" by (simp add: boot_world_def zero_kernel_def)
  then have "w' \<noteq> ?w" using s(2) by auto
  then show ?thesis using redirect_takes_effect [OF b] b s by auto
qed

text \<open>
  Being forced offline puts the device on the block list, whatever becomes of the event that
  reports it: every later check refuses access, and nothing else of the kernel changes.
\<close>

theorem force_offline_blocks:
  assumes "ev_inv w" and "sm_msg_command_id m = 3"
  shows "check_access_risk_control (snd (access_domain_bus_handle m w)) = 1 \<and>
    g_ezdev_sdk_kernel (snd (access_domain_bus_handle m w)) =
      (g_ezdev_sdk_kernel w)\<lparr>access_risk := sdk_risk_control\<rparr>"
proof -
  let ?c = "mkiE2ezE mkernel_internal_force_offline"
  obtain r w1 where b: "broadcast_runtime_err TAG_ACCESS ?c None w = (r, w1)"
    by (cases "broadcast_runtime_err TAG_ACCESS ?c None w")
  have "err_ctx_ok \<lparr>err_tag = TAG_ACCESS, err_code = ?c, err_ctx = None\<rparr>"
    by (simp add: err_ctx_ok_def)
  from ev_step_frame(1) [OF broadcast_runtime_err_step [OF assms(1) this b]]
  have "g_ezdev_sdk_kernel w1 = g_ezdev_sdk_kernel w" .
  then show ?thesis
    using assms(2) b by (simp add: access_domain_bus_handle_def bus_handle_force_offline_def
        add_access_risk_control_def upd_kernel_def check_access_risk_control_def)
qed

theorem force_offline_blocks_witness:
  "check_access_risk_control
     (snd (access_domain_bus_handle (zero_submsg\<lparr>sm_msg_command_id := 3\<rparr>) (demo_world calm_env))) = 1"
proof -
  have "ev_inv (demo_world calm_env)" by (simp add: ev_inv_def)
  then show ?thesis
    using force_offline_blocks [of "demo_world calm_env" "zero_submsg\<lparr>sm_msg_command_id := 3\<rparr>"] by simp
qed

end
