(* ===== verification/Das_Receive.thy ===== *)
theory Das_Receive
  imports Bus
begin

text \<open>
  The receiving half of microkernel/src/das_transport.c: from an MQTT message to an entry of the
  queue of received messages.
\<close>

section \<open>Operations\<close>

text \<open>A message that no queue took over is freed with its buffer.\<close>

definition handle_sub_msg_v3 :: "ezdev_sdk_kernel_submsg_v3 \<Rightarrow> world \<Rightarrow> world" where
  "handle_sub_msg_v3 m w =
     (case push_queue_submsg_v3 m w of (r, w1) \<Rightarrow>
        if r \<noteq> mkernel_internal_succ then w_free (w_free_opt (s3_buf m) w1) else w1)"

definition handle_sub_msg :: "ezdev_sdk_kernel_submsg \<Rightarrow> world \<Rightarrow> world" where
  "handle_sub_msg m w =
     (case (if sm_msg_domain_id m = DAS_CMD_DOMAIN
            then (True, snd (access_domain_bus_handle m w))
            else if sm_msg_domain_id m = DAS_CMD_COMMON_FUN \<or> sm_msg_command_id m = 0x2864
            then (case common_module_bus_handle m w of (go_on, w1) \<Rightarrow>
                    if go_on \<noteq> 0
                    then (case push_queue_submsg m w1 of (r, w2) \<Rightarrow> (r \<noteq> mkernel_internal_succ, w2))
                    else (True, w1))
            else (case push_queue_submsg m w of (r, w2) \<Rightarrow> (r \<noteq> mkernel_internal_succ, w2))) of
        (is_delete, w3) \<Rightarrow> if is_delete then w_free (w_free_opt (sm_buf m) w3) else w3)"

text \<open>
  The part the two receive routines share, text for text: decrypt the payload, take the common
  part off its front and leave the rest in the buffer.  \<open>deser\<close> and \<open>put\<close> read the common part
  into the message and store the buffer in it.  A length of the common part one byte below
  \<open>output_buf_len\<close> makes the unsigned difference wrap around and the move run off the buffer.
\<close>

definition receive_payload ::
  "(byte list \<Rightarrow> 'm \<Rightarrow> world \<Rightarrow> mkernel_internal_error \<times> 'm) \<Rightarrow>
   (byte list option \<Rightarrow> u32 \<Rightarrow> 'm \<Rightarrow> 'm) \<Rightarrow> byte list \<Rightarrow> 'm \<Rightarrow> world \<Rightarrow>
   mkernel_internal_error \<times> 'm \<times> world" where
  "receive_payload deser put payload m w =
     (case w_malloc w of (ok, w1) \<Rightarrow>
        if \<not> ok then (mkernel_internal_malloc_error, m, w1)
        else case aes_cbc_128_dec_padding (session_key (g_ezdev_sdk_kernel w1)) payload
                    (word_of_nat (length payload)) (replicate (length payload) 0) w1 of
          (r, output_buf, len, w2) \<Rightarrow>
            if r \<noteq> mkernel_internal_succ then (r, m, w_free w2)
            else
              let output_buf_len = (case len of None \<Rightarrow> 0 | Some l \<Rightarrow> l);
                  common_len = deserialize_short (take 2 output_buf)
              in if ucast common_len \<ge> output_buf_len
                 then (mkernel_internal_rev_invalid_packet, m, w_free w2)
                 else (case deser (drop 2 output_buf) m w2 of (r1, m1) \<Rightarrow>
                   if r1 \<noteq> mkernel_internal_succ then (r1, m1, w_free w2)
                   else
                     let rest = output_buf_len - 2 - ucast common_len;
                         cl = 2 + unat common_len
                     in if rest > 0
                        then if unat output_buf_len < cl
                             then (mkernel_internal_succ, m1, undefined_behaviour w2)
                             else (mkernel_internal_succ,
                                   put (Some (take (unat rest) (drop cl output_buf) @ replicate cl 0 @
                                              drop (unat output_buf_len) output_buf)) rest m1, w2)
                        else (mkernel_internal_succ, put None 0 m1, w_free w2)))"

definition das_message_receive_v3 :: "string \<Rightarrow> byte list \<Rightarrow> world \<Rightarrow> world" where
  "das_message_receive_v3 topic payload w =
     (case w_malloc w of (ok, w1) \<Rightarrow>
        if \<not> ok then w1
        else case parse_topic_v3 topic of
          None \<Rightarrow> undefined_behaviour w1
        | Some (Inl r) \<Rightarrow> w_free w1
        | Some (Inr m) \<Rightarrow>
            (case receive_payload deserialize_common_v3 (\<lambda>b n m. m\<lparr>s3_buf := b, s3_buf_len := n\<rparr>) payload m w1 of
               (r, m1, w2) \<Rightarrow> if r = mkernel_internal_succ then handle_sub_msg_v3 m1 w2 else w_free w2))"

definition das_message_receive :: "string \<Rightarrow> byte list \<Rightarrow> world \<Rightarrow> world" where
  "das_message_receive topic payload w =
     (case w_malloc w of (ok, w1) \<Rightarrow>
        if \<not> ok then w1
        else case parse_topic_v2 topic of
          None \<Rightarrow> undefined_behaviour w1
        | Some (Inl r) \<Rightarrow> w_free w1
        | Some (Inr m) \<Rightarrow>
            (case receive_payload deserialize_common (\<lambda>b n m. m\<lparr>sm_buf := b, sm_buf_len := n\<rparr>) payload m w1 of
               (r, m1, w2) \<Rightarrow> if r = mkernel_internal_succ then handle_sub_msg m1 w2 else w_free w2))"

section \<open>Accounting\<close>

lemma slack_simps [simp]:
  "slack (w_free w) = slack w - 1" "slack (w_free_opt p w) = slack w - int (blk p)"
  "slack (w\<lparr>tick := k\<rparr>) = slack w" "slack (w\<lparr>trace := t\<rparr>) = slack w" "slack (w\<lparr>fault := b\<rparr>) = slack w"
  by (simp_all add: slack_def owned_def w_free_def w_free_opt_def acct)

lemma queues_simps [simp]:
  "g_queue_submsg (w_free w) = g_queue_submsg w" "g_queue_submsg (w_free_opt p w) = g_queue_submsg w"
  "g_queue_submsg_v3 (w_free w) = g_queue_submsg_v3 w" "g_queue_submsg_v3 (w_free_opt p w) = g_queue_submsg_v3 w"
  by (simp_all add: w_free_def w_free_opt_def)

lemma slack_malloc: "w_malloc w = (ok, w') \<Longrightarrow> slack w' = slack w + (if ok then 1 else 0)"
  using live_malloc [of "heap w"] by (auto simp: w_malloc_def slack_def owned_def split: prod.splits)

lemma malloc_frame:
  assumes "w_malloc w = (ok, w')"
  shows "w' = w\<lparr>heap := heap w'\<rparr>"
  using assms by (auto simp: w_malloc_def split: prod.splits)

lemma dec_frame:
  assumes "aes_cbc_128_dec_padding k b n o1 w = (r, o2, l, w')"
  shows "\<exists>t. w' = w\<lparr>tick := t\<rparr>"
proof -
  have "w' = w \<or> w' = w\<lparr>tick := Suc (tick w)\<rparr> \<or> w' = w\<lparr>tick := Suc (Suc (tick w))\<rparr>"
    using assms by (simp add: aes_cbc_128_dec_padding_def ask_def Let_def split: if_splits)
  moreover have "w = w\<lparr>tick := tick w\<rparr>" by simp
  ultimately show ?thesis by blast
qed

lemma push_submsg_slack:
  assumes "queue_inv (g_queue_submsg w)" and "push_queue_submsg m w = (r, w')"
  shows "slack w' = slack w - (if r = mkernel_internal_succ then int (blk_submsg m) else 0)"
  using assms(2) unfolding push_queue_submsg_def
proof (cases rule: submsg.push_cases [OF assms(1), of m, case_names ok full nomem])
  case (ok q1 m1)
  then have "w' = w\<lparr>g_queue_submsg := q1, heap := m1\<rparr>" "r = mkernel_internal_succ"
    using assms(2) by (simp_all add: push_queue_submsg_def)
  then show ?thesis using ok by (simp add: slack_def owned_def)
next
  case full
  then show ?thesis using assms(2) by (simp add: push_queue_submsg_def)
next
  case (nomem m1)
  then show ?thesis using assms(2) by (auto simp: push_queue_submsg_def slack_def owned_def)
qed

lemma push_submsg_v3_slack:
  assumes "queue_inv (g_queue_submsg_v3 w)" and "push_queue_submsg_v3 m w = (r, w')"
  shows "slack w' = slack w - (if r = mkernel_internal_succ then int (blk_submsg_v3 m) else 0)"
  using assms(2) unfolding push_queue_submsg_v3_def
proof (cases rule: submsg_v3.push_cases [OF assms(1), of m, case_names ok full nomem])
  case (ok q1 m1)
  then have "w' = w\<lparr>g_queue_submsg_v3 := q1, heap := m1\<rparr>" "r = mkernel_internal_succ"
    using assms(2) by (simp_all add: push_queue_submsg_v3_def)
  then show ?thesis using ok by (simp add: slack_def owned_def)
next
  case full
  then show ?thesis using assms(2) by (simp add: push_queue_submsg_v3_def)
next
  case (nomem m1)
  then show ?thesis using assms(2) by (auto simp: push_queue_submsg_v3_def slack_def owned_def)
qed

text \<open>What decrypting a payload may change, and what it owns afterwards.\<close>

lemma receive_payload_frame:
  assumes "receive_payload deser put payload m w = (r, m1, w2)"
  shows "\<exists>h t f. w2 = w\<lparr>heap := h, tick := t, fault := f\<rparr>"
proof -
  obtain ok w1 where m: "w_malloc w = (ok, w1)" by (cases "w_malloc w")
  obtain r0 out l v where d: "aes_cbc_128_dec_padding (session_key (g_ezdev_sdk_kernel w1)) payload
      (word_of_nat (length payload)) (replicate (length payload) 0) w1 = (r0, out, l, v)"
    by (metis prod_cases4)
  obtain t where "v = w1\<lparr>tick := t\<rparr>" using dec_frame [OF d] by blast
  then have v: "v = w\<lparr>heap := heap w1, tick := t\<rparr>" using malloc_frame [OF m] by simp
  have "w2 = w1 \<or> w2 = w_free v \<or> w2 = v \<or> w2 = undefined_behaviour v"
    using assms m d by (auto simp: receive_payload_def Let_def split: prod.splits if_splits)
  moreover have "w1 = w\<lparr>heap := heap w1, tick := tick w, fault := fault w\<rparr>"
    by (subst malloc_frame [OF m]) simp
  moreover have "w_free v = w\<lparr>heap := free (heap w1), tick := t, fault := fault w\<rparr>"
    "v = w\<lparr>heap := heap w1, tick := t, fault := fault w\<rparr>"
    "undefined_behaviour v = w\<lparr>heap := heap w1, tick := t, fault := True\<rparr>"
    by (simp_all add: v w_free_def undefined_behaviour_def)
  ultimately show ?thesis by metis
qed

lemma receive_payload_slack:
  assumes p: "receive_payload deser put payload m w = (r, m1, w2)" and f: "\<not> fault w2"
    and buf: "\<And>b n x. bufof (put b n x) = b" "\<And>b x v. bufof (snd (deser b x v)) = bufof x" "bufof m = None"
  shows "slack w2 = slack w + (if r = mkernel_internal_succ then int (blk (bufof m1)) else 0)"
proof -
  obtain ok w1 where m: "w_malloc w = (ok, w1)" by (cases "w_malloc w")
  note s1 = slack_malloc [OF m]
  obtain r0 out l v where d: "aes_cbc_128_dec_padding (session_key (g_ezdev_sdk_kernel w1)) payload
      (word_of_nat (length payload)) (replicate (length payload) 0) w1 = (r0, out, l, v)"
    by (metis prod_cases4)
  have v: "slack v = slack w1" using dec_frame [OF d] by auto
  obtain r1 m2 where e: "deser (drop 2 out) m v = (r1, m2)" by (cases "deser (drop 2 out) m v")
  show ?thesis
  proof (cases "ok \<and> r0 = mkernel_internal_succ \<and>
      \<not> ucast (deserialize_short (take 2 out)) \<ge> (case l of None \<Rightarrow> 0 | Some l \<Rightarrow> l) \<and> r1 = mkernel_internal_succ")
    case False
    then show ?thesis
      using p m d e s1 v by (auto simp: receive_payload_def Let_def split: if_splits)
  next
    case True
    let ?rest = "(case l of None \<Rightarrow> 0 | Some l \<Rightarrow> l) - 2 - ucast (deserialize_short (take 2 out))"
    have "(r, m1, w2) = (mkernel_internal_succ, put None 0 m2, w_free v) \<or>
      (\<exists>b. (r, m1, w2) = (mkernel_internal_succ, put (Some b) ?rest m2, v)) \<or> w2 = undefined_behaviour v"
      using p m d e True by (auto simp: receive_payload_def Let_def split: if_splits)
    then show ?thesis
      using f s1 v True buf(1) by (auto simp: undefined_behaviour_def)
  qed
qed

lemma handle_sub_msg_v3_slack:
  assumes "queue_inv (g_queue_submsg_v3 w)"
  shows "slack (handle_sub_msg_v3 m w) = slack w - int (blk_submsg_v3 m)"
  using push_submsg_v3_slack [OF assms, of m] by (auto simp: handle_sub_msg_v3_def blk_defs split: prod.split)

lemma common_module_slack:
  "common_module_bus_handle m w = (g, w') \<Longrightarrow> slack w' = slack w \<and> g_queue_submsg w' = g_queue_submsg w"
  by (auto simp: common_module_bus_handle_def ask_def act_def split: if_splits option.splits)

lemma handle_sub_msg_slack:
  assumes "queue_inv (g_queue_submsg w)" and "sm_msg_domain_id m \<noteq> DAS_CMD_DOMAIN"
  shows "slack (handle_sub_msg m w) = slack w - int (blk_submsg m)"
proof -
  obtain g w1 where c: "common_module_bus_handle m w = (g, w1)" by (cases "common_module_bus_handle m w")
  note c' = common_module_slack [OF c]
  have "queue_inv (g_queue_submsg w1)" using c' assms(1) by simp
  then show ?thesis
    using push_submsg_slack [OF assms(1), of m] push_submsg_slack [of w1 m] c c' assms(2)
    by (auto simp: handle_sub_msg_def blk_defs split: prod.split)
qed

text \<open>The buffer of a message comes from the payload only.\<close>

lemma topic_buf:
  "parse_topic_v2 t = Some (Inr m) \<Longrightarrow> sm_buf m = None"
  "parse_topic_v3 t = Some (Inr m3) \<Longrightarrow> s3_buf m3 = None"
  by (auto simp: parse_topic_v2_def parse_topic_v3_def zero_submsg_def zero_submsg_v3_def Let_def
      split: if_splits list.splits scanned.splits)

lemma deserialize_buf:
  "sm_buf (snd (deserialize_common b m w)) = sm_buf m"
  "s3_buf (snd (deserialize_common_v3 b m3 w)) = s3_buf m3"
  by (auto simp: deserialize_common_def deserialize_common_v3_def split: sum.split)

section \<open>Properties\<close>

text \<open>
  C19: Whatever the server sends on a topic of protocol 3.0, the receive routine keeps the heap in
  balance: the message and its buffer are either in the queue or freed, on every error path (no
  memory, a topic or a payload that is not understood, a full queue), as long as the packet
  does not drive it into undefined behaviour.
\<close>

theorem receive_v3_keeps_balance:
  assumes "queue_inv (g_queue_submsg_v3 w)" and "\<not> fault (das_message_receive_v3 topic payload w)"
  shows "slack (das_message_receive_v3 topic payload w) = slack w"
proof -
  obtain ok w1 where m: "w_malloc w = (ok, w1)" by (cases "w_malloc w")
  note s1 = slack_malloc [OF m]
  have q1: "queue_inv (g_queue_submsg_v3 w1)" using assms(1) malloc_frame [OF m] by (metis world.select_convs(5) world.surjective world.update_convs(18))
  show ?thesis
  proof (cases "ok \<and> (\<exists>m. parse_topic_v3 topic = Some (Inr m))")
    case False
    then show ?thesis using assms(2) m s1
      by (auto simp: das_message_receive_v3_def undefined_behaviour_def split: option.splits sum.splits)
  next
    case True
    then obtain x where x: "parse_topic_v3 topic = Some (Inr x)" by blast
    obtain r y w2 where p: "receive_payload deserialize_common_v3 (\<lambda>b n m. m\<lparr>s3_buf := b, s3_buf_len := n\<rparr>) payload x w1 =
        (r, y, w2)" by (metis prod_cases3)
    obtain h t f where w2: "w2 = w1\<lparr>heap := h, tick := t, fault := f\<rparr>" using receive_payload_frame [OF p] by blast
    have res: "das_message_receive_v3 topic payload w =
        (if r = mkernel_internal_succ then handle_sub_msg_v3 y w2 else w_free w2)"
      using m x p True by (simp add: das_message_receive_v3_def)
    have q2: "queue_inv (g_queue_submsg_v3 w2)" using q1 by (simp add: w2)
    have "fault (handle_sub_msg_v3 y w2) = fault w2" "fault (w_free w2) = fault w2"
      by (auto simp: handle_sub_msg_v3_def push_queue_submsg_v3_def QUEUE_PUSH_def w_free_def w_free_opt_def
          split: prod.split)
    then have "\<not> fault w2" using assms(2) res by (auto split: if_splits)
    from receive_payload_slack [OF p this, of s3_buf] topic_buf(2) [OF x]
    have "slack w2 = slack w1 + (if r = mkernel_internal_succ then int (blk (s3_buf y)) else 0)"
      by (simp add: deserialize_buf)
    then show ?thesis
      using res s1 True handle_sub_msg_v3_slack [OF q2, of y] by (simp add: blk_defs)
  qed
qed

text \<open>A packet for the witnesses: the common part \<open>{}\<close>, the body \<open>A\<close> and 11 bytes of padding.\<close>

definition demo_rx_env :: env where
  "demo_rx_env = calm_env\<lparr>e_json_parse := \<lambda>_. Some (JObject [(''Seq'', JNumber 5 5), (''CmdVer'', JString ''v1'')])\<rparr>"

definition demo_payload :: "byte list" where
  "demo_payload = [0, 2, 123, 125, 65] @ replicate 11 11"

definition demo_topic_v3 :: string where
  "demo_topic_v3 = ''/iot/D1/global/0-Video/model/service/operate/cam/zoom''"

theorem receive_v3_keeps_balance_witness:
  "slack (das_message_receive_v3 demo_topic_v3 demo_payload (demo_world demo_rx_env)) =
     slack (demo_world demo_rx_env)"
proof -
  have "\<not> fault (das_message_receive_v3 demo_topic_v3 demo_payload (demo_world demo_rx_env))"
    by code_simp
  then show ?thesis by (intro receive_v3_keeps_balance) simp_all
qed

text \<open>
  A packet whose length of the common part is one byte below its own length passes the length
  check, and the difference that should give the length of the body wraps around: the routine
  then moves almost 4 GB.  Both receive routines share the flaw.
\<close>

theorem common_len_wraps:
  assumes "w_malloc w = (True, w1)"
    and "aes_cbc_128_dec_padding (session_key (g_ezdev_sdk_kernel w1)) payload
      (word_of_nat (length payload)) (replicate (length payload) 0) w1 = (mkernel_internal_succ, out, Some n, w2)"
    and "unat n = unat (deserialize_short (take 2 out)) + 1"
    and "deser (drop 2 out) m w2 = (mkernel_internal_succ, m1)"
  shows "fault (snd (snd (receive_payload deser put payload m w)))"
proof -
  let ?c = "deserialize_short (take 2 out)"
  have lt: "unat ?c < 2 ^ LENGTH(16)" by (rule unsigned_less)
  then have uc: "unat (ucast ?c :: u32) = unat ?c" by (simp add: unsigned_ucast_eq take_bit_nat_eq_self_iff)
  have "n = ucast ?c + 1"
    by (rule word_unat_eq_iff [THEN iffD2]) (use assms(3) lt in \<open>simp add: unat_plus_if' uc\<close>)
  then have "n - 2 \<noteq> ucast ?c" by (simp add: algebra_simps)
  moreover have "\<not> n \<le> ucast ?c" using assms(3) by (simp add: word_le_nat_alt uc)
  ultimately show ?thesis
    using assms by (simp add: receive_payload_def Let_def undefined_behaviour_def word_gt_0)
qed

definition demo_bad_payload :: "byte list" where
  "demo_bad_payload = [0, 2, 123] @ replicate 13 13"

theorem common_len_wraps_witness:
  "fault (snd (snd (receive_payload deserialize_common_v3 (\<lambda>b n m. m\<lparr>s3_buf := b, s3_buf_len := n\<rparr>)
     demo_bad_payload zero_submsg_v3 (demo_world demo_rx_env))))"
proof -
  let ?w1 = "snd (w_malloc (demo_world demo_rx_env))"
  let ?dec = "aes_cbc_128_dec_padding (session_key (g_ezdev_sdk_kernel ?w1)) demo_bad_payload
      (word_of_nat (length demo_bad_payload)) (replicate (length demo_bad_payload) 0) ?w1"
  let ?w2 = "snd (snd (snd ?dec))"
  have m: "w_malloc (demo_world demo_rx_env) = (True, ?w1)"
    by (intro prod_eqI) (code_simp, simp)
  have d: "?dec = (mkernel_internal_succ, demo_bad_payload, Some 3, ?w2)"
    by (intro prod_eqI) (code_simp, code_simp, code_simp, simp)
  have s: "deserialize_common_v3 (drop 2 demo_bad_payload) zero_submsg_v3 ?w2 =
      (mkernel_internal_succ, snd (deserialize_common_v3 (drop 2 demo_bad_payload) zero_submsg_v3 ?w2))"
    by (intro prod_eqI) (code_simp, simp)
  have "unat (3 :: u32) = unat (deserialize_short (take 2 demo_bad_payload)) + 1" by code_simp
  then show ?thesis
    by (rule common_len_wraps [where deser = deserialize_common_v3 and m = zero_submsg_v3, OF m d _ s])
qed

end
