(* ===== verification/Das_Send.thy ===== *)
theory Das_Send
  imports Das_Receive
begin

text \<open>
  The sending half of microkernel/src/das_transport.c: publishing the queued messages with their
  receipts and retries, logging in and out, and one turn of the connection.
\<close>

section \<open>Publishing\<close>

text \<open>
  The body of \<open>das_send_pubmsg\<close> and \<open>das_send_pubmsg_v3\<close>, which differ in the topic and in the
  width of the variable that holds the padded length (\<open>width\<close>).  \<open>undefined_behaviour\<close> is a copy
  past the end of a buffer.
\<close>

definition publish_payload ::
  "(u32 \<Rightarrow> u32) \<Rightarrow> string \<Rightarrow> QOS_T \<Rightarrow> u8 \<Rightarrow> string \<Rightarrow> u32 \<Rightarrow> byte list option \<Rightarrow> u32 \<Rightarrow> world \<Rightarrow>
   mkernel_internal_error \<times> world" where
  "publish_payload width topic qos response ver seq body body_len w =
     (case serialize_payload_common (if response = 0 then 1 else 2) ver seq w of
        (Inl r, w1) \<Rightarrow> (r, w1)
      | (Inr (common, common_len), w1) \<Rightarrow>
          let total = ucast common_len + 2 + body_len;
              n = width (calculate_padding_len total)
          in case w_malloc w1 of (ok1, w2) \<Rightarrow> case w_malloc w2 of (ok2, w3) \<Rightarrow>
            let fin = (\<lambda>v. let v1 = w_free v; v2 = (if ok1 then w_free v1 else v1)
                          in if ok2 then w_free v2 else v2);
                b = (case body of None \<Rightarrow> [] | Some x \<Rightarrow> x)
            in if \<not> ok1 \<or> \<not> ok2 then (mkernel_internal_malloc_error, fin w3)
               else if unat n < 2 + unat common_len + unat body_len \<or> length b < unat body_len
               then (mkernel_internal_succ, undefined_behaviour w3)
               else
                 let payload = serialize_short common_len @ take (unat common_len) common @
                       take (unat body_len) b @ replicate (unat n - (2 + unat common_len + unat body_len)) 0
                 in case aes_cbc_128_enc_padding (session_key (g_ezdev_sdk_kernel w3)) payload total n
                           (replicate (unat n) 0) w3 of (r, _, out, len, w4) \<Rightarrow>
                   if r \<noteq> mkernel_internal_succ then (r, fin w4)
                   else
                     let p = take (case len of None \<Rightarrow> 0 | Some l \<Rightarrow> unat l) out
                     in case ask e_mqtt_publish (act (Do_publish topic qos p) w4) of (code, w5) \<Rightarrow>
                       (if code = - 2 then mkernel_internal_call_mqtt_buffer_too_short
                        else if code \<noteq> 0 then mkernel_internal_call_mqtt_pub_error
                        else mkernel_internal_succ, fin w5))"

definition das_send_pubmsg :: "ezdev_sdk_kernel_pubmsg \<Rightarrow> world \<Rightarrow> mkernel_internal_error \<times> world" where
  "das_send_pubmsg m w =
     publish_payload (\<lambda>n. ucast (ucast n :: u16)) (topic_v2 m) (pm_msg_qos m) (pm_msg_response m)
       (pm_command_ver m) (pm_msg_seq m) (pm_msg_body m) (pm_msg_body_len m) w"

definition das_send_pubmsg_v3 :: "ezdev_sdk_kernel_pubmsg_v3 \<Rightarrow> world \<Rightarrow> mkernel_internal_error \<times> world" where
  "das_send_pubmsg_v3 m w =
     publish_payload (\<lambda>n. n) (topic_v3 (g_ezdev_sdk_kernel w) m) (p3_msg_qos m) (p3_msg_response m)
       (p3_command_ver m) (p3_msg_seq m) (p3_msg_body m) (p3_msg_body_len m) w"

definition ack_v3 :: "ezdev_sdk_kernel_pubmsg_v3 \<Rightarrow> sdk_send_msg_ack_context_v3" where
  "ack_v3 m = \<lparr>a3_msg_qos = p3_msg_qos m, a3_extend_id = p3_extend_id m, a3_msg_seq = p3_msg_seq m,
     a3_externel_ctx = p3_externel_ctx m, a3_externel_ctx_len = p3_externel_ctx_len m,
     a3_domain_id = take 63 (p3_domain_id m), a3_resource_id = take 63 (p3_resource_id m),
     a3_resource_type = take 63 (p3_resource_type m), a3_business_type = take 63 (p3_business_type m),
     a3_identifier = take 63 (p3_identifier m), a3_sub_serial = take 63 (p3_sub_serial m)\<rparr>"

definition ack_v2 :: "ezdev_sdk_kernel_pubmsg \<Rightarrow> sdk_send_msg_ack_context" where
  "ack_v2 m = \<lparr>ak_msg_domain_id = pm_msg_domain_id m, ak_msg_command_id = pm_msg_command_id m,
     ak_msg_seq = pm_msg_seq m, ak_msg_qos = pm_msg_qos m, ak_externel_ctx = pm_externel_ctx m,
     ak_externel_ctx_len = pm_externel_ctx_len m\<rparr>"

text \<open>
  A publish that failed puts the message back to the head of its queue while it has attempts
  left, and reports nothing; the result of that push is not looked at.  Otherwise the receipt
  with the result goes to the user thread.
\<close>

definition send_message_to_das_v3 :: "world \<Rightarrow> mkernel_internal_error \<times> world" where
  "send_message_to_das_v3 w =
     (case pop_queue_pubmsg_exchange_v3 w of (r, p, w1) \<Rightarrow>
        if r \<noteq> mkernel_internal_succ then (r, w1)
        else case p of None \<Rightarrow> (r, w1) | Some x \<Rightarrow>
          (case das_send_pubmsg_v3 (msg_conntext_v3 x) w1 of (r2, w2) \<Rightarrow>
             if r2 = mkernel_internal_call_mqtt_pub_error \<and> max_send_count_v3 x > 1
             then (mkernel_internal_das_need_reconnect,
                   snd (push_queue_head_pubmsg_exchange_v3
                          (x\<lparr>max_send_count_v3 := max_send_count_v3 x - 1\<rparr>) w2))
             else (case broadcast_runtime_err TAG_MSG_ACK_V3 (mkiE2ezE r2)
                          (Some (Ack_ctx_v3 (ack_v3 (msg_conntext_v3 x)))) w2 of (r3, w3) \<Rightarrow>
                 let w4 = (if r3 \<noteq> mkernel_internal_succ
                           then w_free_opt (p3_externel_ctx (msg_conntext_v3 x)) w3 else w3)
                 in (r2, w_free (w_free_opt (p3_msg_body (msg_conntext_v3 x)) w4)))))"

text \<open>
  The same for protocol 2.0, with the risk control before it.  When the receipt cannot be queued
  the user's data is freed only if there is none.
\<close>

definition send_message_to_das_v2 :: "world \<Rightarrow> mkernel_internal_error \<times> world" where
  "send_message_to_das_v2 w =
     (case pop_queue_pubmsg_exchange w of (r, p, w1) \<Rightarrow>
        if r \<noteq> mkernel_internal_succ then (r, w1)
        else case p of None \<Rightarrow> (r, w1) | Some x \<Rightarrow>
          (let m = msg_conntext x;
               risk = check_cmd_risk_control (pm_msg_domain_id m) (pm_msg_command_id m) w1
           in case (if risk = 0 then das_send_pubmsg m w1
                    else if risk = 1 then (mkernel_internal_extend_no_find, w1)
                    else if risk = 2 then (mkernel_internal_force_domain_risk, w1)
                    else (mkernel_internal_force_cmd_risk, w1)) of (r2, w2) \<Rightarrow>
             if r2 = mkernel_internal_call_mqtt_pub_error \<and> max_send_count x > 1
             then (mkernel_internal_das_need_reconnect,
                   snd (push_queue_head_pubmsg_exchange (x\<lparr>max_send_count := max_send_count x - 1\<rparr>) w2))
             else (case broadcast_runtime_err TAG_MSG_ACK (mkiE2ezE r2) (Some (Ack_ctx (ack_v2 m))) w2 of
               (r3, w3) \<Rightarrow> (r2, w_free (w_free_opt (pm_msg_body m) w3)))))"

definition das_message_send :: "world \<Rightarrow> mkernel_internal_error \<times> world" where
  "das_message_send w =
     (case send_message_to_das_v2 w of (r, w1) \<Rightarrow>
        if r \<noteq> mkernel_internal_succ \<and> r \<noteq> mkernel_internal_queue_empty then (r, w1)
        else send_message_to_das_v3 w1)"

definition das_send_pubmsg_async ::
  "ezdev_sdk_kernel_pubmsg_exchange \<Rightarrow> world \<Rightarrow> mkernel_internal_error \<times> world" where
  "das_send_pubmsg_async = push_queue_pubmsg_exchange"

definition das_send_pubmsg_async_v3 ::
  "ezdev_sdk_kernel_pubmsg_exchange_v3 \<Rightarrow> world \<Rightarrow> mkernel_internal_error \<times> world" where
  "das_send_pubmsg_async_v3 = push_queue_pubmsg_exchange_v3"

section \<open>Logging in and out\<close>

definition DEV_ACCESS_DOMAIN_VERSION :: string where "DEV_ACCESS_DOMAIN_VERSION = ''V2.3.2''"

text \<open>The versions of the modules, the empty table entries included.\<close>

definition extend_serialize_sdk_version :: "world \<Rightarrow> mkernel_internal_error \<times> bscJSON \<times> world" where
  "extend_serialize_sdk_version w = (case ask e_json_create w of (ok, w1) \<Rightarrow>
     if \<not> ok then (mkernel_internal_malloc_error, JNull, w1)
     else (mkernel_internal_succ,
           JObject ((string_of_int (uint DAS_CMD_DOMAIN), JString DEV_ACCESS_DOMAIN_VERSION) #
             map (\<lambda>d. (string_of_int (sint (ke_domain_id (kernel_extend d))),
                       JString (ke_extend_module_version (kernel_extend d)))) (g_kernel_domains w1)), w1))"

text \<open>
  A text encrypted into a block of its own: the common part of \<open>serialize_lightreginfo\<close> and
  \<open>serialize_devinfo\<close>, from the printed text on.
\<close>

definition encrypt_text :: "byte list \<Rightarrow> world \<Rightarrow> (mkernel_internal_error + byte list) \<times> world" where
  "encrypt_text text w =
     (let len = word_of_nat (length text) :: u32; n = calculate_padding_len len in
      case w_malloc w of (ok1, w1) \<Rightarrow> case w_malloc w1 of (ok2, w2) \<Rightarrow>
        let fin = (\<lambda>v. if ok1 then w_free (w_free v) else w_free v) in
        if \<not> ok2 then (Inl mkernel_internal_malloc_error, fin w2)
        else if \<not> ok1 then (Inl mkernel_internal_malloc_error, fin (w_free w2))
        else (case aes_cbc_128_enc_padding (session_key (g_ezdev_sdk_kernel w2))
                     (text @ replicate (unat n - length text) 0) len n (replicate (unat n) 0) w2 of
          (r, _, out, l, w3) \<Rightarrow>
            if r \<noteq> mkernel_internal_succ then (Inl r, fin (w_free w3))
            else (Inr (take (case l of None \<Rightarrow> 0 | Some k \<Rightarrow> unat k) out), fin w3)))"

definition dev_id_text :: "ezdev_sdk_kernel \<Rightarrow> string" where
  "dev_id_text k = c_str (text_of (dev_id k))"

definition serialize_lightreginfo :: "world \<Rightarrow> (mkernel_internal_error + byte list) \<times> world" where
  "serialize_lightreginfo w =
     (let k = g_ezdev_sdk_kernel w in
      case print_json (JObject [(''SubSerial'', JString (dev_subserial (dev_info k))),
                                (''DeviceID'', JString (dev_id_text k))]) w of
        (Inl r, w1) \<Rightarrow> (Inl r, w1)
      | (Inr s, w1) \<Rightarrow> encrypt_text s w1)"

definition devinfo_json :: "ezdev_sdk_kernel \<Rightarrow> bscJSON \<Rightarrow> bscJSON" where
  "devinfo_json k versions = (let d = dev_info k in JObject
     [(''DevSerial'', JString (dev_serial d)), (''SubSerial'', JString (dev_subserial d)),
      (''FirmwareVersion'', JString (dev_firmwareversion d)), (''DevType'', JString (dev_type d)),
      (''DevTypeDisplay'', JString (dev_typedisplay d)), (''MAC'', JString (dev_mac d)),
      (''Status'', json_number (uint (dev_status d))), (''NickName'', JString (dev_nickname d)),
      (''FirmwareIdentificationCode'', JString (dev_firmwareidentificationcode d)),
      (''dev_oeminfo'', json_number (uint (dev_oeminfo d))),
      (''LbsDomain'', JString (server_name (server_info k))), (''RegMode'', json_number (uint (reg_mode k))),
      (''SDKMainVersion'', JString (szMainVersion k)), (''DeviceID'', JString (dev_id_text k)),
      (''SDKVersion'', versions)])"

definition serialize_devinfo :: "world \<Rightarrow> (mkernel_internal_error + byte list) \<times> world" where
  "serialize_devinfo w = (case ask e_json_create w of (ok, w1) \<Rightarrow>
     if \<not> ok then (Inl mkernel_internal_malloc_error, w1)
     else (case extend_serialize_sdk_version w1 of (r, versions, w2) \<Rightarrow>
       if r \<noteq> mkernel_internal_succ then (Inl r, w2)
       else (case json_print (devinfo_json (g_ezdev_sdk_kernel w2) versions) w2 of
         (Inl r2, w3) \<Rightarrow> (Inl r2, w3)
       | (Inr s, w3) \<Rightarrow> encrypt_text s w3)))"

text \<open>
  \<open>MQTTConnect\<close> also sets the keep-alive interval of the client; \<open>das_yield\<close> sets it again before
  it is used.
\<close>

definition das_mqttlogin2das :: "bool \<Rightarrow> world \<Rightarrow> mkernel_internal_error \<times> world" where
  "das_mqttlogin2das light_reg w =
     (let k = g_ezdev_sdk_kernel w;
          i = redirect_das_info k;
          failed = (\<lambda>(r, v). (r, act Do_net_disconnect v))
      in case ask e_net_connect (act (Do_net_connect (das_address i) (das_port i)) w) of (r, w1) \<Rightarrow>
        if r \<noteq> mkernel_internal_succ then failed (r, w1)
        else if key_empty (dev_id k) then failed (mkernel_internal_input_param_invalid, w1)
        else (case (if light_reg then serialize_lightreginfo w1 else serialize_devinfo w1) of
          (Inl r2, w2) \<Rightarrow> failed (r2, w2)
        | (Inr will, w2) \<Rightarrow>
            let topic = snprintf 128 (''/Basic/pu2cenplt/'' @ dev_subserial (dev_info k) @
                          (if g_is_reboot w2 then ''/firstconnect'' else ''/breakconnect''))
            in case ask e_mqtt_connect
                      (act (Do_mqtt_connect light_reg (dev_subserial (dev_info k)) topic will) w2) of
              (code, w3) \<Rightarrow>
                if code = 0 then (mkernel_internal_succ, w_free (w3\<lparr>g_is_reboot := False\<rparr>))
                else failed (if code = - 1 then mkernel_internal_call_mqtt_connect
                             else mkernel_internal_mqtt_error_begin + code, w_free w3)))"

definition das_mqtt_logout2das :: "world \<Rightarrow> mkernel_internal_error \<times> world" where
  "das_mqtt_logout2das w =
     (mkernel_internal_succ,
      act Do_net_disconnect (snd (ask e_mqtt_disconnect (act Do_mqtt_disconnect w))))"

definition das_subscribe_revc_topic :: "bool \<Rightarrow> world \<Rightarrow> mkernel_internal_error \<times> world" where
  "das_subscribe_revc_topic open w =
     (let k = g_ezdev_sdk_kernel w;
          v3 = (v3_reg_status k = sdk_v3_reged);
          t3 = snprintf ezdev_sdk_recv_topic_len (''/iot/'' @ dev_subserial (dev_info k) @ ''/#'');
          t2 = snprintf ezdev_sdk_recv_topic_len (''/'' @ dev_subserial (dev_info k) @ ''/#'')
      in if open
         then (case (if v3 then ask e_mqtt_subscribe (act (Do_subscribe True t3) w) else (0, w)) of (c, w1) \<Rightarrow>
                 if c \<noteq> 0 then (mkernel_internal_call_mqtt_sub_error, w1)
                 else (case ask e_mqtt_subscribe (act (Do_subscribe False t2) w1) of (c2, w2) \<Rightarrow>
                   (if c2 \<noteq> 0 then mkernel_internal_call_mqtt_sub_error else mkernel_internal_succ, w2)))
         else (let w1 = (if v3 then snd (ask e_mqtt_unsubscribe (act (Do_unsubscribe t3) w)) else w)
               in (mkernel_internal_succ, snd (ask e_mqtt_unsubscribe (act (Do_unsubscribe t2) w1)))))"

definition das_object_init :: "world \<Rightarrow> world" where
  "das_object_init w =
     snd (init_queue ezdev_sdk_queue_max ezdev_sdk_queue_max (ezdev_sdk_queue_max * 4) w)"

definition das_object_fini :: "world \<Rightarrow> world" where
  "das_object_fini w = (fini_queue w)\<lparr>g_das_transport_seq := 0\<rparr>"

text \<open>Log in and subscribe; \<open>das_reg\<close>, \<open>das_light_reg_v2\<close> and \<open>das_light_reg_v3\<close> share this text.\<close>

definition login_subscribe :: "bool \<Rightarrow> world \<Rightarrow> mkernel_internal_error \<times> world" where
  "login_subscribe light w =
     (case das_mqttlogin2das light w of (r, w1) \<Rightarrow>
        if r \<noteq> mkernel_internal_succ then (r, w1)
        else (case das_subscribe_revc_topic True w1 of (r2, w2) \<Rightarrow>
          if r2 \<noteq> mkernel_internal_succ then (r2, snd (das_mqtt_logout2das w2)) else (r2, w2)))"

definition das_reg :: "world \<Rightarrow> mkernel_internal_error \<times> world" where
  "das_reg = login_subscribe False"

definition das_light_reg :: "world \<Rightarrow> mkernel_internal_error \<times> world" where
  "das_light_reg w = das_mqttlogin2das True (snd (das_mqtt_logout2das w))"

definition das_light_reg_v2 :: "world \<Rightarrow> mkernel_internal_error \<times> world" where
  "das_light_reg_v2 = login_subscribe True"

definition das_light_reg_v3 :: "world \<Rightarrow> mkernel_internal_error \<times> world" where
  "das_light_reg_v3 = login_subscribe False"

definition das_unreg :: "world \<Rightarrow> mkernel_internal_error \<times> world" where
  "das_unreg w = (mkernel_internal_succ, snd (das_mqtt_logout2das (snd (das_subscribe_revc_topic False w))))"

section \<open>One turn of the connection\<close>

text \<open>
  \<open>MQTTYield\<close> hands the messages that arrived to the routine of their subscription, in order
  (the first component tells protocol 3.0 from 2.0).
\<close>

definition deliver :: "bool \<times> string \<times> byte list \<Rightarrow> world \<Rightarrow> world" where
  "deliver x w = (case x of (v3, topic, payload) \<Rightarrow>
     if v3 then das_message_receive_v3 topic payload w else das_message_receive topic payload w)"

definition das_yield :: "world \<Rightarrow> mkernel_internal_error \<times> world" where
  "das_yield w =
     (case ask e_mqtt_yield w of ((_, msgs), w1) \<Rightarrow>
      case ask e_net_last_error (fold deliver msgs w1) of (err, w2) \<Rightarrow>
        if err = mkernel_internal_net_socket_error \<or> err = mkernel_internal_net_socket_closed
        then (mkernel_internal_das_need_reconnect, w2)
        else
          let interval = das_keepalive_interval (g_ezdev_sdk_kernel w2);
              w3 = w2\<lparr>g_DasClient_keepAliveInterval := interval\<rparr>
          in case ask (\<lambda>e t. e_timer_expired e t (interval * 2000)) w3 of (expired, w4) \<Rightarrow>
            if expired then (mkernel_internal_das_need_reconnect, w4)
            else (case das_message_send w4 of (r, w5) \<Rightarrow>
              (if r = mkernel_internal_das_need_reconnect then r else mkernel_internal_succ, w5)))"

section \<open>What publishing may change\<close>

lemma ev_step_ask: "ev_inv w \<Longrightarrow> ask f w = (x, w') \<Longrightarrow> ev_step 0 w w'"
  by (auto simp: ask_def ev_step_def)

lemma ev_step_act: "ev_inv w \<Longrightarrow> ev_step 0 w (act a w)"
  by (simp add: act_def ev_step_def)

lemma ev_step_lib_alloc: "ev_inv w \<Longrightarrow> ev_step 1 w (lib_alloc w)"
  using ev_step_heap [of w "(heap w)\<lparr>live := live (heap w) + 1\<rparr>"] by (simp add: lib_alloc_def)

lemma json_print_step:
  assumes "ev_inv w" and "json_print j w = (x, w')"
  shows "ev_step (case x of Inl _ \<Rightarrow> 0 | Inr _ \<Rightarrow> 1) w w' \<and> (\<forall>r. x = Inl r \<longrightarrow> r = mkernel_internal_json_format_error)"
proof -
  obtain ok w1 where a: "ask e_json_print_ok w = (ok, w1)" by (cases "ask e_json_print_ok w")
  note s1 = ev_step_ask [OF assms(1) a]
  show ?thesis
    using assms(2) a s1 ev_step_trans [OF s1 ev_step_lib_alloc [OF ev_step_inv [OF s1]]]
    by (auto simp: json_print_def split: if_splits)
qed

lemma print_json_step:
  assumes "ev_inv w" and "print_json j w = (x, w')"
  shows "ev_step (case x of Inl _ \<Rightarrow> 0 | Inr _ \<Rightarrow> 1) w w' \<and>
    (\<forall>r. x = Inl r \<longrightarrow> r = mkernel_internal_json_format_error \<or> r = mkernel_internal_malloc_error)"
proof -
  obtain ok w1 where a: "ask e_json_create w = (ok, w1)" by (cases "ask e_json_create w")
  note s1 = ev_step_ask [OF assms(1) a]
  show ?thesis
  proof (cases ok)
    case True
    then have "json_print j w1 = (x, w')" using assms(2) a by (simp add: print_json_def)
    from json_print_step [OF ev_step_inv [OF s1] this] ev_step_trans [OF s1]
    show ?thesis by (auto split: sum.splits)
  next
    case False
    then show ?thesis using assms(2) a s1 by (auto simp: print_json_def)
  qed
qed

lemma enc_step:
  assumes "ev_inv w" and "aes_cbc_128_enc_padding k i n m o1 w = (r, i', o2, l, w')"
  shows "ev_step 0 w w' \<and> r \<in> {mkernel_internal_succ, mkernel_internal_casll_mbedtls_setdeckey_error,
    mkernel_internal_casll_mbedtls_crypt_error}"
proof -
  have "w' = w\<lparr>tick := Suc (tick w)\<rparr> \<or> w' = w\<lparr>tick := Suc (Suc (tick w))\<rparr>"
    and "r \<in> {mkernel_internal_succ, mkernel_internal_casll_mbedtls_setdeckey_error,
      mkernel_internal_casll_mbedtls_crypt_error}"
    using assms(2) by (auto simp: aes_cbc_128_enc_padding_def ask_def Let_def split: if_splits)
  then show ?thesis using assms(1) by (auto simp: ev_step_def)
qed

text \<open>
  A publish leaves the queues alone and frees what it allocated; its result is never the demand
  for a reconnect.
\<close>

lemma publish_step:
  assumes inv: "ev_inv w" and p: "publish_payload width topic qos response ver seq body n w = (r, w')"
    and f: "\<not> fault w'"
  shows "ev_step 0 w w' \<and> r \<noteq> mkernel_internal_das_need_reconnect \<and> r \<noteq> mkernel_internal_queue_empty"
proof -
  obtain x w1 where s: "serialize_payload_common (if response = 0 then 1 else 2) ver seq w = (x, w1)"
    by (cases "serialize_payload_common (if response = 0 then 1 else 2) ver seq w")
  obtain y where y: "print_json (common_json (if response = 0 then 1 else 2) ver seq) w = (y, w1)"
    "x = (case y of Inl r \<Rightarrow> Inl r | Inr c \<Rightarrow> Inr (c, word_of_nat (length c)))"
    using s by (auto simp: serialize_payload_common_def split: prod.splits sum.splits)
  note s1 = print_json_step [OF inv y(1)]
  show ?thesis
  proof (cases y)
    case (Inl e)
    then show ?thesis using p s y(2) s1 by (auto simp: publish_payload_def)
  next
    case (Inr common)
    then have s1: "ev_step 1 w w1" using s1 by simp
    obtain ok1 w2 where m1: "w_malloc w1 = (ok1, w2)" by (cases "w_malloc w1")
    obtain ok2 w3 where m2: "w_malloc w2 = (ok2, w3)" by (cases "w_malloc w2")
    note s2 = ev_step_trans [OF s1 ev_step_malloc [OF ev_step_inv [OF s1] m1]]
    note s3 = ev_step_trans [OF s2 ev_step_malloc [OF ev_step_inv [OF s2] m2]]
    let ?d = "1 + (if ok1 then 1 else 0) + (if ok2 then 1 else 0) :: int"
    let ?fin = "\<lambda>v. let v1 = w_free v; v2 = (if ok1 then w_free v1 else v1) in if ok2 then w_free v2 else v2"
    have fin: "ev_step 0 w (?fin v)" if v: "ev_step ?d w v" for v
    proof -
      note t1 = ev_step_trans [OF v ev_step_free [OF ev_step_inv [OF v]]]
      note t2 = ev_step_trans [OF t1 ev_step_free [OF ev_step_inv [OF t1]]]
      note t3 = ev_step_trans [OF t2 ev_step_free [OF ev_step_inv [OF t2]]]
      show ?thesis using t1 t2 t3 by (cases ok1; cases ok2; simp add: Let_def)
    qed
    let ?cl = "word_of_nat (length common) :: u16"
    let ?total = "ucast ?cl + 2 + n"
    let ?n = "width (calculate_padding_len ?total)"
    let ?b = "case body of None \<Rightarrow> [] | Some x \<Rightarrow> x"
    let ?payload = "serialize_short ?cl @ take (unat ?cl) common @
        take (unat n) ?b @ replicate (unat ?n - (2 + unat ?cl + unat n)) 0"
    have run: "(r, w') = (if \<not> ok1 \<or> \<not> ok2 then (mkernel_internal_malloc_error, ?fin w3)
        else if unat ?n < 2 + unat ?cl + unat n \<or> length ?b < unat n
        then (mkernel_internal_succ, undefined_behaviour w3)
        else case aes_cbc_128_enc_padding (session_key (g_ezdev_sdk_kernel w3)) ?payload ?total ?n
                           (replicate (unat ?n) 0) w3 of (r, _, out, len, w4) \<Rightarrow>
                   if r \<noteq> mkernel_internal_succ then (r, ?fin w4)
                   else
                     let p = take (case len of None \<Rightarrow> 0 | Some l \<Rightarrow> unat l) out
                     in case ask e_mqtt_publish (act (Do_publish topic qos p) w4) of (code, w5) \<Rightarrow>
                       (if code = - 2 then mkernel_internal_call_mqtt_buffer_too_short
                        else if code \<noteq> 0 then mkernel_internal_call_mqtt_pub_error
                        else mkernel_internal_succ, ?fin w5))"
    proof -
      have s': "serialize_payload_common (if response = 0 then 1 else 2) ver seq w = (Inr (common, ?cl), w1)"
        using s y(2) Inr by simp
      have "(r, w') = publish_payload width topic qos response ver seq body n w" using p by simp
      then show ?thesis unfolding publish_payload_def s' by (simp only: m1 m2 Let_def sum.case prod.case)
    qed
    show ?thesis
    proof (cases "ok1 \<and> ok2 \<and> \<not> (unat ?n < 2 + unat ?cl + unat n \<or> length ?b < unat n)")
      case False
      then show ?thesis
        using run fin [OF s3] f by (auto simp: undefined_behaviour_def split: if_splits)
    next
      case True
      obtain r4 i4 out len w4 where e: "aes_cbc_128_enc_padding (session_key (g_ezdev_sdk_kernel w3)) ?payload
          ?total ?n (replicate (unat ?n) 0) w3 = (r4, i4, out, len, w4)" by (metis prod_cases5)
      note s4 = ev_step_trans [OF s3 conjunct1 [OF enc_step [OF ev_step_inv [OF s3] e]]]
      let ?p = "take (case len of None \<Rightarrow> 0 | Some l \<Rightarrow> unat l) out"
      note s5 = ev_step_trans [OF s4 ev_step_act [OF ev_step_inv [OF s4], of "Do_publish topic qos ?p"]]
      obtain code w5 where a: "ask e_mqtt_publish (act (Do_publish topic qos ?p) w4) = (code, w5)"
        by (cases "ask e_mqtt_publish (act (Do_publish topic qos ?p) w4)")
      note s6 = ev_step_trans [OF s5 ev_step_ask [OF ev_step_inv [OF s5] a]]
      have r: "(r, w') = (if r4 \<noteq> mkernel_internal_succ then (r4, ?fin w4)
          else (if code = - 2 then mkernel_internal_call_mqtt_buffer_too_short
                        else if code \<noteq> 0 then mkernel_internal_call_mqtt_pub_error
                        else mkernel_internal_succ, ?fin w5))"
        using run True e a by (simp add: Let_def)
      have "ev_step 0 w (?fin w4)" "ev_step 0 w (?fin w5)" using s4 s6 by (auto intro!: fin)
      then show ?thesis
        using r conjunct2 [OF enc_step [OF ev_step_inv [OF s3] e]] by (auto split: if_splits)
    qed
  qed
qed

section \<open>Undefined behaviour is never taken back\<close>

lemma fault_frees [simp]:
  "fault (w_free w) = fault w" "fault (w_free_opt p w) = fault w" "fault (act a w) = fault w"
  by (simp_all add: w_free_def w_free_opt_def act_def)

lemma fault_malloc: "w_malloc w = (ok, w') \<Longrightarrow> fault w' = fault w"
  by (auto simp: w_malloc_def split: prod.splits)

lemma fault_domains [simp]:
  "fault (start_domains ds w) = fault w" "fault (stop_domains ds w) = fault w"
  by (induction ds arbitrary: w) (simp_all add: Let_def split: option.split)

lemma fault_event_domains [simp]: "fault (event_domains ack ev ds w) = fault w"
  by (cases ack; induction ds arbitrary: w) (simp_all add: Let_def split: option.split)

lemma fault_notic:
  assumes "fault w"
  shows "fault (handle_notic n w)"
proof -
  have "fault (dispatch_notic n w)"
    using assms by (auto simp: dispatch_notic_def undefined_behaviour_def Let_def
        split: extend_cb_type.split option.split prod.split)
  moreover have "fault (destroy_inner_cb_notic p v) = fault v" for p v
    by (simp add: destroy_inner_cb_notic_def Let_def split: option.split event_ctx.split err_ctx.split)
  ultimately show ?thesis by (simp add: handle_notic_def)
qed

lemma fault_consume:
  assumes "fault w"
  shows "fault (snd (consume_extend_event w))"
proof -
  obtain r p w1 where q: "pop_queue_inner_cb_notic w = (r, p, w1)" by (metis prod_cases3)
  then have "fault w1" using assms by (auto simp: pop_queue_inner_cb_notic_def QUEUE_POP_def split: prod.splits)
  then show ?thesis using q fault_notic by (auto simp: consume_extend_event_def split: option.split)
qed

lemma fault_sleep:
  assumes "fault w"
  shows "fault (time_sleep ms w)"
proof -
  have "fault v \<Longrightarrow> fault (((\<lambda>v. snd (consume_extend_event v)) ^^ k) v)" for v k
    by (induction k) (auto intro: fault_consume)
  then show ?thesis using assms by (simp add: time_sleep_def ask_def)
qed

lemma fault_push_loop:
  "fault w \<Longrightarrow> push_event_loop count n w = (r, w') \<Longrightarrow> fault w'"
proof (induction count n w arbitrary: r w' rule: push_event_loop.induct)
  case (1 count n w)
  obtain r1 w1 where p: "push_queue_inner_cb_notic n w = (r1, w1)" by (cases "push_queue_inner_cb_notic n w")
  have f1: "fault w1"
    using p 1(2) by (auto simp: push_queue_inner_cb_notic_def QUEUE_PUSH_def split: prod.splits)
  have e: "push_event_loop count n w = (if r1 = mkernel_internal_queue_full
      then if count > 50 then (r1, time_sleep 10 w1) else push_event_loop (Suc count) n (time_sleep 10 w1)
      else (r1, w1))"
    by (subst push_event_loop.simps) (simp add: p Let_def)
  show ?case
  proof (cases "r1 = mkernel_internal_queue_full \<and> \<not> count > 50")
    case True
    then have "push_event_loop (Suc count) n (time_sleep 10 w1) = (r, w')" using e 1(3) by simp
    with 1(1) [OF p [symmetric] _ refl] True fault_sleep [OF f1] show ?thesis by blast
  next
    case False
    then show ?thesis using e 1(3) f1 fault_sleep [OF f1] by (auto split: if_splits)
  qed
qed

lemma fault_runtime_err:
  assumes "fault w" and "broadcast_runtime_err tag code ctx w = (r, w')"
  shows "fault w'"
proof -
  obtain ok w1 where m: "(if ctx = None then (True, w) else w_malloc w) = (ok, w1)"
    by (cases "if ctx = None then (True, w) else w_malloc w")
  then have f1: "fault w1" using assms(1) fault_malloc by (auto split: if_splits)
  have "fault (snd (broadcast_user_event ev c w1))" for ev c
  proof -
    obtain ok2 w2 where m2: "w_malloc w1 = (ok2, w2)" by (cases "w_malloc w1")
    obtain ok3 w3 where m3: "(if c = None then (True, w2) else w_malloc w2) = (ok3, w3)"
      by (cases "if c = None then (True, w2) else w_malloc w2")
    have f3: "fault w2" "fault w3" using f1 fault_malloc [OF m2] m3 fault_malloc by (auto split: if_splits)
    obtain r4 w4 where l: "push_event_loop 0 (plain_notic extend_cb_event ev c) w3 = (r4, w4)"
      by (cases "push_event_loop 0 (plain_notic extend_cb_event ev c) w3")
    show ?thesis
      using m2 m3 l f3 fault_push_loop [OF f3(2) l]
      by (auto simp: broadcast_user_event_def push_event_to_queue_def)
  qed
  then show ?thesis using assms(2) m f1 by (auto simp: broadcast_runtime_err_def split: prod.splits if_splits)
     (metis snd_conv fault_frees(2))+
qed

section \<open>Sending one message\<close>

lemma ev_inv_pub [simp]:
  "ev_inv (w\<lparr>g_queue_pubmsg_exchange := q2\<rparr>) = ev_inv w" "ev_inv (w\<lparr>g_queue_pubmsg_exchange_v3 := q3\<rparr>) = ev_inv w"
  by (simp_all add: ev_inv_def modules_ok_def domains_wf_def extends_wf_def domain_extends_def extends_v3_def)

lemma slack_pub [simp]:
  "slack (w\<lparr>g_queue_pubmsg_exchange := q2, heap := m\<rparr>) =
     slack w + (live m - live (heap w)) + held blk_pubmsg (g_queue_pubmsg_exchange w) - held blk_pubmsg q2"
  "slack (w\<lparr>g_queue_pubmsg_exchange_v3 := q3, heap := m\<rparr>) =
     slack w + (live m - live (heap w)) + held blk_pubmsg_v3 (g_queue_pubmsg_exchange_v3 w) - held blk_pubmsg_v3 q3"
  by (simp_all add: slack_def owned_def)

lemma das_send_step:
  assumes "ev_inv w" and "\<not> fault w'"
  shows "das_send_pubmsg m w = (r, w') \<Longrightarrow> ev_step 0 w w' \<and> r \<noteq> mkernel_internal_das_need_reconnect \<and> r \<noteq> mkernel_internal_queue_empty"
    and "das_send_pubmsg_v3 m3 w = (r, w') \<Longrightarrow> ev_step 0 w w' \<and> r \<noteq> mkernel_internal_das_need_reconnect \<and> r \<noteq> mkernel_internal_queue_empty"
  using publish_step [OF assms(1) _ assms(2)] unfolding das_send_pubmsg_def das_send_pubmsg_v3_def by blast+

section \<open>The report of a message\<close>

text \<open>What publishing leaves alone besides: the event queue, and which allocations succeed.\<close>

definition quiet :: "world \<Rightarrow> world \<Rightarrow> bool" where
  "quiet w w' \<longleftrightarrow> g_queue_inner_cb_notic w' = g_queue_inner_cb_notic w \<and> m_ok (heap w') = m_ok (heap w)"

lemma quiet_trans: "quiet w w1 \<Longrightarrow> quiet w1 w2 \<Longrightarrow> quiet w w2"
  by (simp add: quiet_def)

lemma quiet_simps [simp]:
  "quiet w w" "quiet w (w_free v) = quiet w v" "quiet w (act a v) = quiet w v" "quiet w (undefined_behaviour v) = quiet w v"
  "quiet w (w_free_opt p v) = quiet w v"
  by (simp_all add: quiet_def w_free_def act_def undefined_behaviour_def free_def w_free_opt_def free_opt_def split: option.split)

lemma quiet_snd [simp]:
  "quiet w (snd (ask f v)) = quiet w v" "quiet w (snd (w_malloc v)) = quiet w v"
  "quiet w (snd (serialize_payload_common t c n v)) = quiet w v"
  "quiet w (snd (snd (snd (snd (aes_cbc_128_enc_padding k b l p out v))))) = quiet w v"
  by (auto simp: ask_def w_malloc_def malloc_def Let_def quiet_def serialize_payload_common_def print_json_def json_print_def
      lib_alloc_def aes_cbc_128_enc_padding_def split: prod.splits sum.splits if_splits)

lemma publish_quiet: "quiet w (snd (publish_payload width topic qos response ver seq body n w))"
  by (simp add: publish_payload_def Let_def case_prod_beta split: sum.split)

lemma das_send_v3_quiet: "das_send_pubmsg_v3 m w = (r, w') \<Longrightarrow> quiet w w'"
  unfolding das_send_pubmsg_v3_def by (metis publish_quiet snd_conv)

text \<open>With room in the event queue and memory an event is queued at once.\<close>

lemma push_event_succeeds:
  assumes "queue_inv (g_queue_inner_cb_notic w)" and "length (qmsgs (g_queue_inner_cb_notic w)) < qcap (g_queue_inner_cb_notic w)"
    and "\<And>i. m_ok (heap w) i"
  shows "\<exists>q m. push_event_to_queue (Some n) w = (mkernel_internal_succ, w\<lparr>g_queue_inner_cb_notic := q, heap := m\<rparr>) \<and>
    qmsgs q = qmsgs (g_queue_inner_cb_notic w) @ [n]"
proof -
  have "fst (malloc (heap w))" using assms(3) by (simp add: malloc_def Let_def)
  then obtain q where "push_queue n (g_queue_inner_cb_notic w) (heap w) = (mkernel_internal_succ, q, snd (malloc (heap w)))"
    "qmsgs q = qmsgs (g_queue_inner_cb_notic w) @ [n]"
    using mq.push_ok [OF assms(1,2)] by blast
  then show ?thesis
    by (simp add: push_event_to_queue_def push_event_loop.simps [of 0] push_queue_inner_cb_notic_def QUEUE_PUSH_def) blast
qed

definition receipt_v3 :: "mkernel_internal_error \<Rightarrow> ezdev_sdk_kernel_pubmsg_v3 \<Rightarrow> ezdev_sdk_kernel_inner_cb_notic" where
  "receipt_v3 r m = plain_notic extend_cb_event sdk_kernel_event_runtime_err
     (Some (Ctx_runtime_err \<lparr>err_tag = TAG_MSG_ACK_V3, err_code = mkiE2ezE r, err_ctx = Some (Ack_ctx_v3 (ack_v3 m))\<rparr>))"

lemma report_succeeds:
  assumes "queue_inv (g_queue_inner_cb_notic w)" and "length (qmsgs (g_queue_inner_cb_notic w)) < qcap (g_queue_inner_cb_notic w)"
    and "\<And>i. m_ok (heap w) i" and "broadcast_runtime_err TAG_MSG_ACK_V3 (mkiE2ezE r) (Some (Ack_ctx_v3 (ack_v3 m))) w = (r', w')"
  shows "r' = mkernel_internal_succ \<and> qmsgs (g_queue_inner_cb_notic w') = qmsgs (g_queue_inner_cb_notic w) @ [receipt_v3 r m]"
proof -
  obtain w1 where w1: "w_malloc w = (True, w1)" "w1 = w\<lparr>heap := snd (malloc (heap w))\<rparr>"
    using assms(3) by (simp add: w_malloc_def malloc_def Let_def)
  obtain w2 where w2: "w_malloc w1 = (True, w2)" "w2 = w1\<lparr>heap := snd (malloc (heap w1))\<rparr>"
    using assms(3) w1(2) by (simp add: w_malloc_def malloc_def Let_def)
  obtain w3 where w3: "w_malloc w2 = (True, w3)" "w3 = w2\<lparr>heap := snd (malloc (heap w2))\<rparr>"
    using assms(3) w1(2) w2(2) by (simp add: w_malloc_def malloc_def Let_def)
  have "queue_inv (g_queue_inner_cb_notic w3)" "g_queue_inner_cb_notic w3 = g_queue_inner_cb_notic w" "m_ok (heap w3) = m_ok (heap w)"
    using w1(2) w2(2) w3(2) assms(1) by (simp_all add: malloc_def Let_def)
  then obtain q h where "push_event_to_queue (Some (receipt_v3 r m)) w3 = (mkernel_internal_succ, w3\<lparr>g_queue_inner_cb_notic := q, heap := h\<rparr>)"
    "qmsgs q = qmsgs (g_queue_inner_cb_notic w) @ [receipt_v3 r m]"
    using push_event_succeeds [of w3 "receipt_v3 r m"] assms(2,3) by auto
  then show ?thesis using assms(4) w1(1) w2(1) w3(1)
    by (auto simp: broadcast_runtime_err_def broadcast_user_event_def receipt_v3_def)
qed

lemma send_v3_reported:
  assumes inv: "ev_inv w" "queue_inv (g_queue_pubmsg_exchange_v3 w)"
    and q: "qmsgs (g_queue_pubmsg_exchange_v3 w) = x # xs"
    and s: "send_message_to_das_v3 w = (r, w')" and m: "\<And>i. m_ok (heap w) i" and f: "\<not> fault w'"
  shows "r = mkernel_internal_das_need_reconnect \<Longrightarrow>
      qmsgs (g_queue_pubmsg_exchange_v3 w') = x\<lparr>max_send_count_v3 := max_send_count_v3 x - 1\<rparr> # xs"
    and "\<lbrakk>r \<noteq> mkernel_internal_das_need_reconnect; length (qmsgs (g_queue_inner_cb_notic w)) < qcap (g_queue_inner_cb_notic w)\<rbrakk> \<Longrightarrow>
      qmsgs (g_queue_inner_cb_notic w') = qmsgs (g_queue_inner_cb_notic w) @ [receipt_v3 r (msg_conntext_v3 x)]"
proof -
  let ?m = "msg_conntext_v3 x" and ?x = "x\<lparr>max_send_count_v3 := max_send_count_v3 x - 1\<rparr>"
  obtain q1 where p: "pop_queue_pubmsg_exchange_v3 w = (mkernel_internal_succ, Some x,
      w\<lparr>g_queue_pubmsg_exchange_v3 := q1, heap := free (heap w)\<rparr>)"
      and q1: "queue_inv q1" "qmsgs q1 = xs" "qcap q1 = qcap (g_queue_pubmsg_exchange_v3 w)"
    using pubmsg_v3.qpop_Cons [OF inv(2) q] by (auto simp: pop_queue_pubmsg_exchange_v3_def)
  let ?w1 = "w\<lparr>g_queue_pubmsg_exchange_v3 := q1, heap := free (heap w)\<rparr>"
  obtain r2 w2 where d: "das_send_pubmsg_v3 ?m ?w1 = (r2, w2)" by (cases "das_send_pubmsg_v3 ?m ?w1")
  have qu: "g_queue_inner_cb_notic w2 = g_queue_inner_cb_notic w" "\<And>i. m_ok (heap w2) i"
    using das_send_v3_quiet [OF d] m by (simp_all add: quiet_def free_def)
  have qi: "queue_inv (g_queue_inner_cb_notic w2)" using inv(1) qu(1) by (simp add: ev_inv_def)
  obtain r3 w3 where b: "broadcast_runtime_err TAG_MSG_ACK_V3 (mkiE2ezE r2) (Some (Ack_ctx_v3 (ack_v3 ?m))) w2 = (r3, w3)" by force
  let ?w4 = "if r3 \<noteq> mkernel_internal_succ then w_free_opt (p3_externel_ctx ?m) w3 else w3"
  let ?retry = "r2 = mkernel_internal_call_mqtt_pub_error \<and> max_send_count_v3 x > 1"
  have run: "(r, w') = (if ?retry
      then (mkernel_internal_das_need_reconnect, snd (push_queue_head_pubmsg_exchange_v3 ?x w2))
      else (r2, w_free (w_free_opt (p3_msg_body ?m) (if r3 \<noteq> mkernel_internal_succ then w_free_opt (p3_externel_ctx ?m) w3 else w3))))"
    unfolding s [symmetric] by (simp add: send_message_to_das_v3_def p d b Let_def)
  have f2: "\<not> fault w2"
  proof (cases ?retry)
    case True
    then have "w' = snd (push_queue_head_pubmsg_exchange_v3 ?x w2)" using run by simp
    then show ?thesis using f by (simp add: push_queue_head_pubmsg_exchange_v3_def QUEUE_PUSH_HEAD_def split: prod.splits)
  next
    case False
    then have "w' = w_free (w_free_opt (p3_msg_body ?m) ?w4)" using run [unfolded if_not_P [OF False]] by (simp only: prod.inject)
    then have "\<not> fault w3" using f by (auto split: if_splits)
    then show ?thesis using fault_runtime_err [OF _ b] by blast
  qed
  show "qmsgs (g_queue_pubmsg_exchange_v3 w') = ?x # xs" if n: "r = mkernel_internal_das_need_reconnect"
  proof -
    have s2: "ev_step 0 ?w1 w2" "r2 \<noteq> mkernel_internal_das_need_reconnect"
      using das_send_step(2) [OF _ f2 d] inv(1) by (simp_all add: slack_def)
    then have k2: "g_queue_pubmsg_exchange_v3 w2 = q1" using ev_step_frame(5) [OF s2(1)] by simp
    have "?retry" using run n s2(2) by (simp split: if_splits)
    then have w': "w' = snd (push_queue_head_pubmsg_exchange_v3 ?x w2)" using run by simp
    have "length xs < qcap q1" using queue_inv_bound [OF inv(2)] q q1 by simp
    moreover have "fst (malloc (heap w2))" using qu(2) by (simp add: malloc_def Let_def)
    ultimately obtain q2 where "push_queue_head ?x q1 (heap w2) = (mkernel_internal_succ, q2, snd (malloc (heap w2)))" "qmsgs q2 = ?x # xs"
      using mq.push_head_ok [OF q1(1), of "heap w2" ?x] q1(2) by auto
    then show ?thesis using k2 by (simp add: w' push_queue_head_pubmsg_exchange_v3_def QUEUE_PUSH_HEAD_def)
  qed
  show "qmsgs (g_queue_inner_cb_notic w') = qmsgs (g_queue_inner_cb_notic w) @ [receipt_v3 r ?m]"
    if n: "r \<noteq> mkernel_internal_das_need_reconnect" and room: "length (qmsgs (g_queue_inner_cb_notic w)) < qcap (g_queue_inner_cb_notic w)"
  proof -
    have "\<not> ?retry" using run n by (simp split: if_splits)
    then have w': "r = r2" "w' = w_free (w_free_opt (p3_msg_body ?m) (if r3 \<noteq> mkernel_internal_succ then w_free_opt (p3_externel_ctx ?m) w3 else w3))"
      using run by (simp_all only: if_False prod.inject)
    have "r3 = mkernel_internal_succ \<and> qmsgs (g_queue_inner_cb_notic w3) = qmsgs (g_queue_inner_cb_notic w2) @ [receipt_v3 r2 ?m]"
      using report_succeeds [OF qi _ qu(2) b] room qu(1) by simp
    then show ?thesis using w' qu(1) by (simp add: w_free_def w_free_opt_def)
  qed
qed

text \<open>The queue and the blocks after a message was taken from the queue of protocol 3.0.\<close>

lemma settled_v3:
  assumes inv: "ev_inv w" "queue_inv (g_queue_pubmsg_exchange_v3 w)"
    and q: "qmsgs (g_queue_pubmsg_exchange_v3 w) = x # xs"
    and s: "send_message_to_das_v3 w = (r, w')" and f: "\<not> fault w'"
  shows "ev_inv w' \<and> queue_inv (g_queue_pubmsg_exchange_v3 w') \<and>
    (if r = mkernel_internal_das_need_reconnect
     then max_send_count_v3 x > 1 \<and>
       (qmsgs (g_queue_pubmsg_exchange_v3 w') = x\<lparr>max_send_count_v3 := max_send_count_v3 x - 1\<rparr> # xs \<and>
          slack w' = slack w \<or>
        qmsgs (g_queue_pubmsg_exchange_v3 w') = xs \<and> slack w' = slack w + int (blk_pubmsg_v3 x))
     else qmsgs (g_queue_pubmsg_exchange_v3 w') = xs \<and> slack w' = slack w)"
proof -
  let ?m = "msg_conntext_v3 x" and ?x = "x\<lparr>max_send_count_v3 := max_send_count_v3 x - 1\<rparr>"
  obtain q1 where p: "pop_queue_pubmsg_exchange_v3 w = (mkernel_internal_succ, Some x,
      w\<lparr>g_queue_pubmsg_exchange_v3 := q1, heap := free (heap w)\<rparr>)"
      and q1: "queue_inv q1" "qmsgs q1 = xs" "qcap q1 = qcap (g_queue_pubmsg_exchange_v3 w)"
    using pubmsg_v3.qpop_Cons [OF inv(2) q] by (auto simp: pop_queue_pubmsg_exchange_v3_def)
  let ?w1 = "w\<lparr>g_queue_pubmsg_exchange_v3 := q1, heap := free (heap w)\<rparr>"
  have h1: "slack ?w1 = slack w + int (blk_pubmsg_v3 x)" "ev_inv ?w1"
    using inv(1) q q1 by (simp_all add: live_free held_def)
  obtain r2 w2 where d: "das_send_pubmsg_v3 ?m ?w1 = (r2, w2)" by (cases "das_send_pubmsg_v3 ?m ?w1")
  obtain r3 w3 where b: "broadcast_runtime_err TAG_MSG_ACK_V3 (mkiE2ezE r2) (Some (Ack_ctx_v3 (ack_v3 ?m))) w2 =
      (r3, w3)" by (cases "broadcast_runtime_err TAG_MSG_ACK_V3 (mkiE2ezE r2) (Some (Ack_ctx_v3 (ack_v3 ?m))) w2")
  let ?retry = "r2 = mkernel_internal_call_mqtt_pub_error \<and> max_send_count_v3 x > 1"
  let ?w4 = "if r3 \<noteq> mkernel_internal_succ then w_free_opt (p3_externel_ctx ?m) w3 else w3"
  have run: "(r, w') = (if ?retry
      then (mkernel_internal_das_need_reconnect, snd (push_queue_head_pubmsg_exchange_v3 ?x w2))
      else (r2, w_free (w_free_opt (p3_msg_body ?m) ?w4)))"
  proof -
    have "(r, w') = send_message_to_das_v3 w" using s by simp
    then show ?thesis by (simp add: send_message_to_das_v3_def p d b Let_def)
  qed
  have f2: "\<not> fault w2"
  proof (cases ?retry)
    case True
    then have "w' = snd (push_queue_head_pubmsg_exchange_v3 ?x w2)" using run by simp
    moreover have "fault (snd (push_queue_head_pubmsg_exchange_v3 ?x w2)) = fault w2"
      by (simp add: push_queue_head_pubmsg_exchange_v3_def QUEUE_PUSH_HEAD_def split: prod.split)
    ultimately show ?thesis using f by simp
  next
    case False
    then have "w' = w_free (w_free_opt (p3_msg_body ?m) ?w4)"
      using run [unfolded if_not_P [OF False]] by (simp only: prod.inject)
    then have f3: "\<not> fault w3" using f by (auto split: if_splits)
    show ?thesis
    proof
      assume "fault w2"
      then have "fault w3" using b by (rule fault_runtime_err)
      then show False using f3 by simp
    qed
  qed
  have s2: "ev_step 0 ?w1 w2" and r2: "r2 \<noteq> mkernel_internal_das_need_reconnect"
    using das_send_step(2) [OF h1(2) f2 d] by simp_all
  have k2: "g_queue_pubmsg_exchange_v3 w2 = q1" "slack w2 = slack w + int (blk_pubmsg_v3 x)" "ev_inv w2"
    using ev_step_frame(5) [OF s2] s2 h1 by (simp_all add: ev_step_def)
  show ?thesis
  proof (cases ?retry)
    case True
    then have rw: "r = mkernel_internal_das_need_reconnect" "w' = snd (push_queue_head_pubmsg_exchange_v3 ?x w2)"
      using run by simp_all
    have qi: "queue_inv (g_queue_pubmsg_exchange_v3 w2)" using q1 k2 by simp
    have bx: "blk_pubmsg_v3 ?x = blk_pubmsg_v3 x" by (simp add: blk_pubmsg_v3_def)
    have room: "length xs < qcap q1" using queue_inv_bound [OF inv(2)] q q1 by simp
    show ?thesis
    proof (cases rule: pubmsg_v3.push_head_cases [OF qi, of ?x, case_names ok full nomem])
      case (ok q2 m2)
      then have "w' = w2\<lparr>g_queue_pubmsg_exchange_v3 := q2, heap := m2\<rparr>"
        using rw by (simp add: push_queue_head_pubmsg_exchange_v3_def)
      then show ?thesis using ok rw True k2 q1 bx by (simp add: held_def)
    next
      case full
      then show ?thesis using room k2 q1 by simp
    next
      case (nomem m2)
      then have "w' = w2\<lparr>heap := m2\<rparr>" using rw by (simp add: push_queue_head_pubmsg_exchange_v3_def)
      moreover have "slack (w2\<lparr>heap := m2\<rparr>) = slack w2" using nomem by (simp add: slack_def)
      ultimately show ?thesis using rw True k2 q1 by simp
    qed
  next
    case False
    then have rw: "r = r2" "w' = w_free (w_free_opt (p3_msg_body ?m) ?w4)"
      using run [unfolded if_not_P [OF False]] by (simp_all only: prod.inject)
    have "err_ctx_ok \<lparr>err_tag = TAG_MSG_ACK_V3, err_code = mkiE2ezE r2, err_ctx = Some (Ack_ctx_v3 (ack_v3 ?m))\<rparr>"
      by (simp add: err_ctx_ok_def)
    note s3 = broadcast_runtime_err_step [OF k2(3) this b]
    have "ev_step (- int (blk (p3_externel_ctx ?m))) w2 ?w4"
      using s3 ev_step_trans [OF s3 ev_step_free_opt [OF ev_step_inv [OF s3], of "p3_externel_ctx ?m"]]
      by (auto simp: blk_err_ctx_def ack_v3_def)
    note s4 = this
    note s5 = ev_step_trans [OF s4 ev_step_free_opt [OF ev_step_inv [OF s4], of "p3_msg_body ?m"]]
    note s6 = ev_step_trans [OF s5 ev_step_free [OF ev_step_inv [OF s5]]]
    have "g_queue_pubmsg_exchange_v3 w' = q1" using ev_step_frame(5) [OF s6] rw k2 by simp
    moreover have "slack w' = slack w"
      using s6 rw k2 unfolding ev_step_def by (simp add: blk_pubmsg_v3_def)
    moreover have "ev_inv w'" using s6 rw by (simp add: ev_step_def)
    ultimately show ?thesis using rw r2 q1 by simp
  qed
qed

text \<open>
  C20: The fate of the message at the head of the queue of protocol 3.0.  When its publish failed
  and it has attempts left, it goes back to the head with one attempt less and the caller is told
  to reconnect.  In every other case it is gone from the queue, everything it owned was freed or handed to
  its receipt, and the receipt, an event with the result code, the kind of acknowledgement and the copied names of
  the message, is the last event of the queue of the user thread, unless that queue is full or memory runs out.
  Only when memory runs out is the message that should go back lost, with the blocks it owns.
\<close>

theorem message_v3_settled:
  assumes inv: "ev_inv w" "queue_inv (g_queue_pubmsg_exchange_v3 w)"
    and q: "qmsgs (g_queue_pubmsg_exchange_v3 w) = x # xs"
    and s: "send_message_to_das_v3 w = (r, w')" and f: "\<not> fault w'"
  shows "ev_inv w' \<and> queue_inv (g_queue_pubmsg_exchange_v3 w') \<and>
    (if r = mkernel_internal_das_need_reconnect
     then max_send_count_v3 x > 1 \<and>
       (qmsgs (g_queue_pubmsg_exchange_v3 w') = x\<lparr>max_send_count_v3 := max_send_count_v3 x - 1\<rparr> # xs \<and>
          slack w' = slack w \<or>
        (\<exists>i. \<not> m_ok (heap w) i) \<and> qmsgs (g_queue_pubmsg_exchange_v3 w') = xs \<and> slack w' = slack w + int (blk_pubmsg_v3 x))
     else qmsgs (g_queue_pubmsg_exchange_v3 w') = xs \<and> slack w' = slack w \<and>
       (qmsgs (g_queue_inner_cb_notic w') = qmsgs (g_queue_inner_cb_notic w) @ [receipt_v3 r (msg_conntext_v3 x)] \<or>
        length (qmsgs (g_queue_inner_cb_notic w)) = qcap (g_queue_inner_cb_notic w) \<or> (\<exists>i. \<not> m_ok (heap w) i)))"
proof -
  have "length (qmsgs (g_queue_inner_cb_notic w)) \<le> qcap (g_queue_inner_cb_notic w)"
    using inv(1) by (simp add: ev_inv_def queue_inv_bound)
  then show ?thesis
    using settled_v3 [OF inv q s f] send_v3_reported [OF inv q s _ f]
    by (cases "\<forall>i. m_ok (heap w) i"; cases "r = mkernel_internal_das_need_reconnect") (auto simp: le_eq_less_or_eq)
qed

text \<open>
  The same for protocol 2.0, except that the user's data is lost when the receipt cannot be
  queued (\<open>r3\<close> is the result of queueing it).
\<close>

lemma send_v2_cases:
  assumes inv: "ev_inv w" "queue_inv (g_queue_pubmsg_exchange w)"
    and q: "qmsgs (g_queue_pubmsg_exchange w) = x # xs"
    and s: "send_message_to_das_v2 w = (r, w')" and f: "\<not> fault w'"
  shows "ev_inv w' \<and> queue_inv (g_queue_pubmsg_exchange w') \<and>
    g_queue_pubmsg_exchange_v3 w' = g_queue_pubmsg_exchange_v3 w \<and> r \<noteq> mkernel_internal_queue_empty \<and>
    (if r = mkernel_internal_das_need_reconnect
     then max_send_count x > 1 \<and>
       (qmsgs (g_queue_pubmsg_exchange w') = x\<lparr>max_send_count := max_send_count x - 1\<rparr> # xs \<and>
          slack w' = slack w \<or>
        qmsgs (g_queue_pubmsg_exchange w') = xs \<and> slack w' = slack w + int (blk_pubmsg x))
     else qmsgs (g_queue_pubmsg_exchange w') = xs \<and>
       (\<exists>w2 r3. r3 = fst (broadcast_runtime_err TAG_MSG_ACK (mkiE2ezE r)
              (Some (Ack_ctx (ack_v2 (msg_conntext x)))) w2) \<and>
          (check_cmd_risk_control (pm_msg_domain_id (msg_conntext x)) (pm_msg_command_id (msg_conntext x)) w \<noteq> 0 \<longrightarrow>
             g_queue_inner_cb_notic w2 = g_queue_inner_cb_notic w \<and> env w2 = env w) \<and>
          slack w' = slack w + (if r3 = mkernel_internal_succ then 0
                                else int (blk (pm_externel_ctx (msg_conntext x))))))"
proof -
  let ?m = "msg_conntext x" and ?x = "x\<lparr>max_send_count := max_send_count x - 1\<rparr>"
  obtain q1 where p: "pop_queue_pubmsg_exchange w = (mkernel_internal_succ, Some x,
      w\<lparr>g_queue_pubmsg_exchange := q1, heap := free (heap w)\<rparr>)"
      and q1: "queue_inv q1" "qmsgs q1 = xs" "qcap q1 = qcap (g_queue_pubmsg_exchange w)"
    using pubmsg.qpop_Cons [OF inv(2) q] by (auto simp: pop_queue_pubmsg_exchange_def)
  let ?w1 = "w\<lparr>g_queue_pubmsg_exchange := q1, heap := free (heap w)\<rparr>"
  let ?risk = "check_cmd_risk_control (pm_msg_domain_id ?m) (pm_msg_command_id ?m) ?w1"
  have risk: "?risk = check_cmd_risk_control (pm_msg_domain_id ?m) (pm_msg_command_id ?m) w"
    by (simp add: check_cmd_risk_control_def extend_get_def split: option.split)
  have h1: "slack ?w1 = slack w + int (blk_pubmsg x)" "ev_inv ?w1"
    using inv(1) q q1 by (simp_all add: live_free held_def)
  obtain r2 w2 where d: "(if ?risk = 0 then das_send_pubmsg ?m ?w1
      else if ?risk = 1 then (mkernel_internal_extend_no_find, ?w1)
      else if ?risk = 2 then (mkernel_internal_force_domain_risk, ?w1)
      else (mkernel_internal_force_cmd_risk, ?w1)) = (r2, w2)"
    by (cases "if ?risk = 0 then das_send_pubmsg ?m ?w1
      else if ?risk = 1 then (mkernel_internal_extend_no_find, ?w1)
      else if ?risk = 2 then (mkernel_internal_force_domain_risk, ?w1)
      else (mkernel_internal_force_cmd_risk, ?w1)")
  obtain r3 w3 where b: "broadcast_runtime_err TAG_MSG_ACK (mkiE2ezE r2) (Some (Ack_ctx (ack_v2 ?m))) w2 =
      (r3, w3)" by (cases "broadcast_runtime_err TAG_MSG_ACK (mkiE2ezE r2) (Some (Ack_ctx (ack_v2 ?m))) w2")
  let ?retry = "r2 = mkernel_internal_call_mqtt_pub_error \<and> max_send_count x > 1"
  have run: "(r, w') = (if ?retry
      then (mkernel_internal_das_need_reconnect, snd (push_queue_head_pubmsg_exchange ?x w2))
      else (r2, w_free (w_free_opt (pm_msg_body ?m) w3)))"
  proof -
    have "(r, w') = send_message_to_das_v2 w" using s by simp
    then show ?thesis unfolding send_message_to_das_v2_def p
      by (simp only: Let_def prod.case option.case d b if_False if_True simp_thms)
  qed
  have f2: "\<not> fault w2"
  proof (cases ?retry)
    case True
    then have "w' = snd (push_queue_head_pubmsg_exchange ?x w2)" using run by simp
    moreover have "fault (snd (push_queue_head_pubmsg_exchange ?x w2)) = fault w2"
      by (simp add: push_queue_head_pubmsg_exchange_def QUEUE_PUSH_HEAD_def split: prod.split)
    ultimately show ?thesis using f by simp
  next
    case False
    then have "w' = w_free (w_free_opt (pm_msg_body ?m) w3)"
      using run [unfolded if_not_P [OF False]] by (simp only: prod.inject)
    then have f3: "\<not> fault w3" using f by simp
    show ?thesis
    proof
      assume "fault w2"
      then have "fault w3" using b by (rule fault_runtime_err)
      then show False using f3 by simp
    qed
  qed
  have "ev_step 0 ?w1 w2 \<and> r2 \<noteq> mkernel_internal_das_need_reconnect \<and> r2 \<noteq> mkernel_internal_queue_empty"
  proof (cases "?risk = 0")
    case True
    then show ?thesis using d das_send_step(1) [OF h1(2) f2, of ?m r2] by simp
  next
    case False
    then show ?thesis using d h1(2) by (auto split: if_splits)
  qed
  then have s2: "ev_step 0 ?w1 w2" and r2: "r2 \<noteq> mkernel_internal_das_need_reconnect" "r2 \<noteq> mkernel_internal_queue_empty"
    by simp_all
  have k2: "g_queue_pubmsg_exchange w2 = q1" "slack w2 = slack w + int (blk_pubmsg x)" "ev_inv w2"
    "g_queue_pubmsg_exchange_v3 w2 = g_queue_pubmsg_exchange_v3 w"
    using ev_step_frame(4,5) [OF s2] s2 h1 by (simp_all add: ev_step_def)
  show ?thesis
  proof (cases ?retry)
    case True
    then have rw: "r = mkernel_internal_das_need_reconnect" "w' = snd (push_queue_head_pubmsg_exchange ?x w2)"
      using run by simp_all
    have qi: "queue_inv (g_queue_pubmsg_exchange w2)" using q1 k2 by simp
    have bx: "blk_pubmsg ?x = blk_pubmsg x" by (simp add: blk_pubmsg_def)
    have room: "length xs < qcap q1" using queue_inv_bound [OF inv(2)] q q1 by simp
    show ?thesis
    proof (cases rule: pubmsg.push_head_cases [OF qi, of ?x, case_names ok full nomem])
      case (ok q2 m2)
      then have "w' = w2\<lparr>g_queue_pubmsg_exchange := q2, heap := m2\<rparr>"
        using rw by (simp add: push_queue_head_pubmsg_exchange_def)
      then show ?thesis using ok rw True k2 q1 bx by (simp add: held_def)
    next
      case full
      then show ?thesis using room k2 q1 by simp
    next
      case (nomem m2)
      then have "w' = w2\<lparr>heap := m2\<rparr>" using rw by (simp add: push_queue_head_pubmsg_exchange_def)
      moreover have "slack (w2\<lparr>heap := m2\<rparr>) = slack w2" using nomem by (simp add: slack_def)
      ultimately show ?thesis using rw True k2 q1 by simp
    qed
  next
    case False
    then have rw: "r = r2" "w' = w_free (w_free_opt (pm_msg_body ?m) w3)"
      using run [unfolded if_not_P [OF False]] by (simp_all only: prod.inject)
    have "err_ctx_ok \<lparr>err_tag = TAG_MSG_ACK, err_code = mkiE2ezE r2, err_ctx = Some (Ack_ctx (ack_v2 ?m))\<rparr>"
      by (simp add: err_ctx_ok_def)
    note s3 = broadcast_runtime_err_step [OF k2(3) this b]
    note s5 = ev_step_trans [OF s3 ev_step_free_opt [OF ev_step_inv [OF s3], of "pm_msg_body ?m"]]
    note s6 = ev_step_trans [OF s5 ev_step_free [OF ev_step_inv [OF s5]]]
    have g: "g_queue_pubmsg_exchange w' = q1" "g_queue_pubmsg_exchange_v3 w' = g_queue_pubmsg_exchange_v3 w"
      using ev_step_frame(4,5) [OF s6] rw k2 by simp_all
    moreover have sl: "slack w' = slack w + (if r3 = mkernel_internal_succ then 0 else int (blk (pm_externel_ctx ?m)))"
      using s6 rw k2 unfolding ev_step_def by (simp add: blk_pubmsg_def blk_err_ctx_def ack_v2_def)
    moreover have r3: "r3 = fst (broadcast_runtime_err TAG_MSG_ACK (mkiE2ezE r) (Some (Ack_ctx (ack_v2 ?m))) w2)"
      using b rw by simp
    moreover have "?risk \<noteq> 0 \<longrightarrow> w2 = ?w1" using d by (auto split: if_splits)
    then have kk: "check_cmd_risk_control (pm_msg_domain_id ?m) (pm_msg_command_id ?m) w \<noteq> 0 \<longrightarrow>
        g_queue_inner_cb_notic w2 = g_queue_inner_cb_notic w \<and> env w2 = env w" by (auto simp: risk)
    moreover have iv: "ev_inv w'" using s6 rw by (simp add: ev_step_def)
    have ne: "r \<noteq> mkernel_internal_das_need_reconnect" "r \<noteq> mkernel_internal_queue_empty" using rw r2 by simp_all
    have "qmsgs (g_queue_pubmsg_exchange w') = xs" using g q1 by simp
    moreover have ex: "\<exists>w2 r3. r3 = fst (broadcast_runtime_err TAG_MSG_ACK (mkiE2ezE r)
              (Some (Ack_ctx (ack_v2 ?m))) w2) \<and>
          (check_cmd_risk_control (pm_msg_domain_id ?m) (pm_msg_command_id ?m) w \<noteq> 0 \<longrightarrow>
             g_queue_inner_cb_notic w2 = g_queue_inner_cb_notic w \<and> env w2 = env w) \<and>
          slack w' = slack w + (if r3 = mkernel_internal_succ then 0 else int (blk (pm_externel_ctx ?m)))"
      by (intro exI conjI; (rule r3 kk sl))
    ultimately show ?thesis using ex by (simp only: iv ne g q1 if_False simp_thms)
  qed
qed

lemma runtime_err_full:
  assumes "queue_inv (g_queue_inner_cb_notic w)"
    and "length (qmsgs (g_queue_inner_cb_notic w)) = qcap (g_queue_inner_cb_notic w)"
    and "\<And>k. e_consume (env w) k = 0"
  shows "fst (broadcast_runtime_err tag code ctx w) \<noteq> mkernel_internal_succ"
proof -
  have m: "g_queue_inner_cb_notic v' = g_queue_inner_cb_notic v \<and> env v' = env v" if "w_malloc v = (ok, v')" for v v' ok
    using that by (auto simp: w_malloc_def split: prod.splits)
  obtain ok w1 where m1: "(if ctx = None then (True, w) else w_malloc w) = (ok, w1)"
    by (cases "if ctx = None then (True, w) else w_malloc w")
  then have k1: "g_queue_inner_cb_notic w1 = g_queue_inner_cb_notic w" "env w1 = env w"
    using m by (auto split: if_splits)
  have "fst (broadcast_user_event ev c w1) \<noteq> mkernel_internal_succ" for ev c
  proof -
    obtain ok2 w2 where m2: "w_malloc w1 = (ok2, w2)" by (cases "w_malloc w1")
    obtain ok3 w3 where m3: "(if c = None then (True, w2) else w_malloc w2) = (ok3, w3)"
      by (cases "if c = None then (True, w2) else w_malloc w2")
    have k3: "g_queue_inner_cb_notic w3 = g_queue_inner_cb_notic w" "env w3 = env w"
      using k1 m [OF m2] m3 m by (auto split: if_splits)
    have "fst (push_event_to_queue (Some n) w3) = mkernel_internal_queue_full" for n
      using push_event_loop_full [of w3 0 n] assms k3 by (simp add: push_event_to_queue_def)
    then show ?thesis using m2 m3
      by (auto simp: broadcast_user_event_def split: prod.split) (metis fst_conv zero_neq_numeral)
  qed
  then show ?thesis using m1 by (auto simp: broadcast_runtime_err_def split: prod.split) (metis fst_conv)
qed

section \<open>Properties of refused messages\<close>

definition demo_pubmsg_v3 :: ezdev_sdk_kernel_pubmsg_exchange_v3 where
  "demo_pubmsg_v3 = \<lparr>max_send_count_v3 = 3, msg_conntext_v3 = \<lparr>p3_msg_qos = QOS_T1, p3_msg_response = 0,
     p3_msg_seq = 1, p3_msg_body_len = 1, p3_externel_ctx = Some [9], p3_externel_ctx_len = 1,
     p3_extend_id = sdk_service, p3_msg_body = Some [65], p3_command_ver = ''v1'', p3_domain_id = ''d'',
     p3_resource_id = ''0'', p3_resource_type = ''Video'', p3_business_type = ''operate'',
     p3_identifier = ''zoom'', p3_sub_serial = ''global''\<rparr>\<rparr>"

definition demo_pubmsg :: ezdev_sdk_kernel_pubmsg_exchange where
  "demo_pubmsg = \<lparr>max_send_count = 3, msg_conntext = \<lparr>pm_msg_response = 0, pm_msg_qos = QOS_T1,
     pm_msg_seq = 1, pm_msg_body = Some [65], pm_msg_body_len = 1, pm_msg_domain_id = 1234,
     pm_msg_command_id = 7, pm_externel_ctx = Some [9], pm_externel_ctx_len = 1, pm_command_ver = ''v1''\<rparr>\<rparr>"

lemma modules_ok_pub [simp]:
  "modules_ok (w\<lparr>g_queue_pubmsg_exchange_v3 := q\<rparr>) = modules_ok w"
  "modules_ok (w\<lparr>g_queue_pubmsg_exchange := q'\<rparr>) = modules_ok w"
  "modules_ok (w\<lparr>heap := h\<rparr>) = modules_ok w"
  "modules_ok (w\<lparr>g_queue_inner_cb_notic := q''\<rparr>) = modules_ok w"
  by (simp_all add: modules_ok_def domains_wf_def extends_wf_def domain_extends_def extends_v3_def)

lemma demo_push_pubmsg_v3:
  "\<exists>q m. push_queue_pubmsg_exchange_v3 x (demo_world e) =
     (mkernel_internal_succ, (demo_world e)\<lparr>g_queue_pubmsg_exchange_v3 := q, heap := m\<rparr>) \<and>
     queue_inv q \<and> qmsgs q = [x] \<and> qcap q = 16 \<and> m_ok m = m_ok (heap (demo_world e))"
proof -
  have "fst (malloc (heap (demo_world e)))"
    by (simp add: demo_world_simps demo_init_simps boot_world_def malloc_def Let_def)
  then obtain q where "push_queue x (g_queue_pubmsg_exchange_v3 (demo_world e)) (heap (demo_world e)) =
      (mkernel_internal_succ, q, snd (malloc (heap (demo_world e))))"
      "queue_inv q" "qmsgs q = [x]" "qcap q = 16"
    using mq.push_ok [of "g_queue_pubmsg_exchange_v3 (demo_world e)" "heap (demo_world e)" x] by auto
  then show ?thesis
    by (intro exI [of _ q] exI [of _ "snd (malloc (heap (demo_world e)))"])
      (simp add: push_queue_pubmsg_exchange_v3_def QUEUE_PUSH_def malloc_def Let_def)
qed

lemma demo_push_pubmsg:
  "\<exists>q m. push_queue_pubmsg_exchange x (demo_world e) =
     (mkernel_internal_succ, (demo_world e)\<lparr>g_queue_pubmsg_exchange := q, heap := m\<rparr>) \<and>
     queue_inv q \<and> qmsgs q = [x] \<and> qcap q = 16"
proof -
  have "fst (malloc (heap (demo_world e)))"
    by (simp add: demo_world_simps demo_init_simps boot_world_def malloc_def Let_def)
  then obtain q where "push_queue x (g_queue_pubmsg_exchange (demo_world e)) (heap (demo_world e)) =
      (mkernel_internal_succ, q, snd (malloc (heap (demo_world e))))"
      "queue_inv q" "qmsgs q = [x]" "qcap q = 16"
    using mq.push_ok [of "g_queue_pubmsg_exchange (demo_world e)" "heap (demo_world e)" x] by auto
  then show ?thesis
    by (intro exI [of _ q] exI [of _ "snd (malloc (heap (demo_world e)))"])
      (simp add: push_queue_pubmsg_exchange_def QUEUE_PUSH_def)
qed

theorem message_v3_settled_witness:
  "\<exists>w'. send_message_to_das_v3 (snd (push_queue_pubmsg_exchange_v3 demo_pubmsg_v3 (demo_world calm_env))) =
      (mkernel_internal_succ, w') \<and>
     qmsgs (g_queue_pubmsg_exchange_v3 w') = [] \<and>
     qmsgs (g_queue_inner_cb_notic w') = [receipt_v3 mkernel_internal_succ (msg_conntext_v3 demo_pubmsg_v3)] \<and>
     slack w' = slack (snd (push_queue_pubmsg_exchange_v3 demo_pubmsg_v3 (demo_world calm_env)))"
proof -
  let ?w = "snd (push_queue_pubmsg_exchange_v3 demo_pubmsg_v3 (demo_world calm_env))"
  obtain q m where p: "?w = (demo_world calm_env)\<lparr>g_queue_pubmsg_exchange_v3 := q, heap := m\<rparr>"
      "queue_inv q" "qmsgs q = [demo_pubmsg_v3]" "m_ok m = m_ok (heap (demo_world calm_env))"
    using demo_push_pubmsg_v3 [of demo_pubmsg_v3 calm_env] by auto
  have "ev_inv ?w" by (simp add: p ev_inv_def)
  moreover have "queue_inv (g_queue_pubmsg_exchange_v3 ?w)" "qmsgs (g_queue_pubmsg_exchange_v3 ?w) = [demo_pubmsg_v3]"
    using p(2,3) by (simp_all add: p(1))
  moreover have r: "send_message_to_das_v3 ?w = (mkernel_internal_succ, snd (send_message_to_das_v3 ?w))"
    by (intro prod_eqI) (code_simp, simp)
  moreover have "\<not> fault (snd (send_message_to_das_v3 ?w))" by code_simp
  moreover have "qmsgs (g_queue_inner_cb_notic ?w) = []" "qcap (g_queue_inner_cb_notic ?w) \<noteq> 0" "\<And>i. m_ok (heap ?w) i"
    unfolding p(1) using p(4) by (simp_all add: demo_world_simps demo_init_simps boot_world_def)
  ultimately have "qmsgs (g_queue_pubmsg_exchange_v3 (snd (send_message_to_das_v3 ?w))) = [] \<and>
      qmsgs (g_queue_inner_cb_notic (snd (send_message_to_das_v3 ?w))) = [receipt_v3 mkernel_internal_succ (msg_conntext_v3 demo_pubmsg_v3)] \<and>
      slack (snd (send_message_to_das_v3 ?w)) = slack ?w"
    using message_v3_settled [of ?w demo_pubmsg_v3 "[]" mkernel_internal_succ "snd (send_message_to_das_v3 ?w)"]
    by simp
  then show ?thesis using r by blast
qed

text \<open>
  C36: A message of protocol 2.0 that the risk control refuses while the queue of events stays full
  is taken off its queue and freed, but the user's data it carries is lost: one block leaks if
  there is one.
\<close>

theorem refused_message_leaks_context:
  assumes "ev_inv w" "queue_inv (g_queue_pubmsg_exchange w)" "qmsgs (g_queue_pubmsg_exchange w) = x # xs"
    and risk: "check_cmd_risk_control (pm_msg_domain_id (msg_conntext x)) (pm_msg_command_id (msg_conntext x)) w \<noteq> 0"
    and full: "length (qmsgs (g_queue_inner_cb_notic w)) = qcap (g_queue_inner_cb_notic w)"
      "\<And>k. e_consume (env w) k = 0"
    and s: "send_message_to_das_v2 w = (r, w')" and f: "\<not> fault w'"
  shows "qmsgs (g_queue_pubmsg_exchange w') = xs \<and>
         slack w' = slack w + int (blk (pm_externel_ctx (msg_conntext x)))"
proof -
  obtain w1 where p: "pop_queue_pubmsg_exchange w = (mkernel_internal_succ, Some x, w1)"
      and w1: "g_kernel_domains w1 = g_kernel_domains w" "g_kernel_domains_count w1 = g_kernel_domains_count w"
    using pubmsg.qpop_Cons [OF assms(2,3)] by (auto simp: pop_queue_pubmsg_exchange_def)
  have "check_cmd_risk_control d c w1 = check_cmd_risk_control d c w" for d c
    by (simp add: check_cmd_risk_control_def extend_get_def w1 split: option.split)
  then have "r \<noteq> mkernel_internal_das_need_reconnect"
    using s risk unfolding send_message_to_das_v2_def by (auto simp: p Let_def split: prod.splits if_splits)
  moreover have "fst (broadcast_runtime_err t c y w2) \<noteq> mkernel_internal_succ"
    if "g_queue_inner_cb_notic w2 = g_queue_inner_cb_notic w \<and> env w2 = env w" for t c y w2
    using runtime_err_full [of w2 t c y] that full assms(1) by (simp add: ev_inv_def)
  ultimately show ?thesis using send_v2_cases [OF assms(1-3) s f] risk by auto
qed

theorem refused_message_leaks_context_witness:
  "\<exists>w w'. send_message_to_das_v2 w = (mkernel_internal_extend_no_find, w') \<and>
     qmsgs (g_queue_pubmsg_exchange w) = [demo_pubmsg] \<and> qmsgs (g_queue_pubmsg_exchange w') = [] \<and>
     slack w' = slack w + 1"
proof -
  let ?v = "snd (push_queue_pubmsg_exchange demo_pubmsg (demo_world calm_env))"
  let ?w = "?v\<lparr>g_queue_inner_cb_notic := zero_queue\<rparr>"
  let ?w' = "snd (send_message_to_das_v2 ?w)"
  obtain q m where p: "?v = (demo_world calm_env)\<lparr>g_queue_pubmsg_exchange := q, heap := m\<rparr>"
      "queue_inv q" "qmsgs q = [demo_pubmsg]"
    using demo_push_pubmsg [of demo_pubmsg calm_env] by auto
  have q: "qmsgs (g_queue_pubmsg_exchange ?w) = [demo_pubmsg]" using p(3) by (simp add: p(1))
  have r: "send_message_to_das_v2 ?w = (mkernel_internal_extend_no_find, ?w')"
    by (intro prod_eqI) (code_simp, simp)
  have "qmsgs (g_queue_pubmsg_exchange ?w') = [] \<and>
      slack ?w' = slack ?w + int (blk (pm_externel_ctx (msg_conntext demo_pubmsg)))"
  proof (rule refused_message_leaks_context [OF _ _ q _ _ _ r])
    show "ev_inv ?w" by (simp add: p ev_inv_def)
    show "queue_inv (g_queue_pubmsg_exchange ?w)" using p(2) by (simp add: p(1))
    show "check_cmd_risk_control (pm_msg_domain_id (msg_conntext demo_pubmsg))
        (pm_msg_command_id (msg_conntext demo_pubmsg)) ?w \<noteq> 0" by code_simp
    show "length (qmsgs (g_queue_inner_cb_notic ?w)) = qcap (g_queue_inner_cb_notic ?w)" by simp
    have "env (demo_world calm_env) = calm_env" by (simp add: demo_world_simps demo_init_simps boot_world_def)
    then show "e_consume (env ?w) k = 0" for k by (simp add: p(1)) (simp add: calm_env_def)
    show "\<not> fault ?w'" by code_simp
  qed
  then show ?thesis using q r by (intro exI [of _ ?w] exI [of _ ?w']) (simp add: demo_pubmsg_def blk_defs)
qed

end
