(* ===== verification/Das_Publish.thy ===== *)
theory Das_Publish
  imports Das_Send
begin

text \<open>What the publishing of a message puts on the wire, and what the receiver makes of it.\<close>

section \<open>What is published\<close>

text \<open>
  The environment does what its documentation says: memory and JSON library do not fail, the
  cipher inverts itself on whole blocks, and the parser reads back what the printer wrote,
  whatever follows it.
\<close>

definition rt_env :: "bscJSON \<Rightarrow> env \<Rightarrow> bool" where
  "rt_env j e \<longleftrightarrow> (\<forall>t. e_json_create e t) \<and> (\<forall>t. e_json_print_ok e t) \<and>
     (\<forall>t. e_aes_setkey e t = 0) \<and> (\<forall>t. e_aes_crypt e t = 0) \<and>
     (\<forall>k iv b. length b mod 16 = 0 \<longrightarrow> length (e_aes_enc e k iv b) = length b \<and>
        e_aes_dec e k iv (e_aes_enc e k iv b) = b) \<and>
     CHR 0x00 \<notin> set (e_json_print e j) \<and> length (e_json_print e j) < 2 ^ 16 \<and>
     (\<forall>rest. e_json_parse e (e_json_print e j @ rest) = Some j)"

text \<open>The plain text of a payload: length of the common part, common part, body.\<close>

definition plain_payload :: "env \<Rightarrow> bscJSON \<Rightarrow> byte list \<Rightarrow> byte list" where
  "plain_payload e j body = serialize_short (word_of_nat (length (e_json_print e j))) @
     bytes_of (e_json_print e j) @ body"

lemma length_plain [simp]: "length (plain_payload e j body) = 2 + length (e_json_print e j) + length body"
  by (simp add: plain_payload_def)

lemma enc_into:
  fixes total n :: u32
  assumes "\<And>t. e_aes_setkey (env w) t = 0" "\<And>t. e_aes_crypt (env w) t = 0"
    and "total = word_of_nat (length plain)" "length plain < 2 ^ 31" "unat n = length (padded plain)"
    and "length buf = unat n" "take (length plain) buf = plain"
    and "length (e_aes_enc (env w) key aes_iv (padded plain)) = length (padded plain)"
  shows "\<exists>w'. aes_cbc_128_enc_padding key buf total n (replicate (unat n) 0) w =
    (mkernel_internal_succ, padded plain, e_aes_enc (env w) key aes_iv (padded plain), Some n, w')"
  using enc_run [of w plain n buf key "replicate (unat n) 0"] assms by auto

lemma publish_publishes:
  fixes n :: u32
  assumes e: "rt_env j (env w)" and j: "j = common_json (if response = 0 then 1 else 2) ver seq"
    and n: "unat n = length body" "length body < 2 ^ 30"
    and p: "publish_payload (\<lambda>n. n) topic qos response ver seq (Some body) n w = (r, w')"
    and ok: "r = mkernel_internal_succ"
  shows "trace w' = Do_publish topic qos
    (e_aes_enc (env w) (session_key (g_ezdev_sdk_kernel w)) aes_iv (padded (plain_payload (env w) j body))) # trace w"
proof -
  let ?s = "e_json_print (env w) j" and ?plain = "plain_payload (env w) j body"
  let ?cl = "word_of_nat (length ?s) :: u16"
  have s: "c_str ?s = ?s" using e by (intro c_str_id) (simp add: rt_env_def)
  have ls: "length ?s < 2 ^ 16" using e by (simp add: rt_env_def)
  let ?w1 = "lib_alloc (w\<lparr>tick := Suc (Suc (tick w))\<rparr>)"
  have ser: "serialize_payload_common (if response = 0 then 1 else 2) ver seq w = (Inr (bytes_of ?s, ?cl), ?w1)"
    using e s by (simp add: serialize_payload_common_def print_json_def json_print_def ask_def rt_env_def
        j [symmetric] del: j)
  have cl: "unat ?cl = length ?s" using ls by (simp add: unat_of_nat)
  have uc: "(ucast ?cl :: u32) = word_of_nat (length ?s)"
    using ls by (intro unsigned_word_eqI [where 'a = nat]) (simp add: unsigned_ucast_eq unat_of_nat take_bit_nat_eq_self_iff)
  have "n = word_of_nat (unat n)" by simp
  then have nn: "n = word_of_nat (length body)" by (simp add: n(1))
  let ?total = "ucast ?cl + 2 + n"
  have total: "?total = word_of_nat (length ?plain)"
    unfolding uc nn by (simp add: ac_simps)
  have lp: "length ?plain < 2 ^ 31" using ls n(2) by simp
  let ?n = "calculate_padding_len ?total"
  have un: "unat ?n = length (padded ?plain)" unfolding total by (rule padded_len [OF lp])
  obtain ok1 w2 where m1: "w_malloc ?w1 = (ok1, w2)" by (cases "w_malloc ?w1")
  obtain ok2 w3 where m2: "w_malloc w2 = (ok2, w3)" by (cases "w_malloc w2")
  have w3: "w3 = ?w1\<lparr>heap := heap w3\<rparr>" using malloc_frame [OF m1] malloc_frame [OF m2] by (metis world.surjective world.update_convs(18))
  have e3: "env w3 = env w" "session_key (g_ezdev_sdk_kernel w3) = session_key (g_ezdev_sdk_kernel w)" "trace w3 = trace w"
    by (subst w3, simp add: lib_alloc_def)+
  let ?pl = "serialize_short ?cl @ take (unat ?cl) (bytes_of ?s) @ take (unat n) body @
      replicate (unat ?n - (2 + unat ?cl + unat n)) 0"
  have pl: "?pl = ?plain @ replicate (unat ?n - length ?plain) 0"
    by (simp add: plain_payload_def cl n(1))
  have le: "length ?plain \<le> unat ?n" unfolding un using padded_props(1) [of ?plain] by simp
  have "length ?pl = unat ?n" unfolding pl using le by (simp only: length_append length_replicate)
  moreover have "take (length ?plain) ?pl = ?plain" unfolding pl by simp
  moreover have "e_aes_setkey (env w3) t = 0" "e_aes_crypt (env w3) t = 0" for t
    using e by (simp_all add: e3 rt_env_def)
  ultimately obtain w4 where enc: "aes_cbc_128_enc_padding (session_key (g_ezdev_sdk_kernel w)) ?pl ?total ?n
      (replicate (unat ?n) 0) w3 = (mkernel_internal_succ, padded ?plain,
      e_aes_enc (env w) (session_key (g_ezdev_sdk_kernel w)) aes_iv (padded ?plain), Some ?n, w4)"
    using enc_into [OF _ _ total lp un, of w3 ?pl "session_key (g_ezdev_sdk_kernel w)"] e e3 unfolding rt_env_def
    by (metis padded_props(2))
  have t4: "trace w4 = trace w"
    using enc e3 by (auto simp: aes_cbc_128_enc_padding_def ask_def Let_def split: if_splits)
  have lc: "length (e_aes_enc (env w) (session_key (g_ezdev_sdk_kernel w)) aes_iv (padded ?plain)) = unat ?n"
    using e padded_props(2) [of ?plain] un by (simp add: rt_env_def)
  have fit: "\<not> (unat ?n < 2 + unat ?cl + unat n \<or> length body < unat n)"
    using padded_props(1) [of ?plain] un cl n(1) by simp
  have run: "(r, w') = publish_payload (\<lambda>n. n) topic qos response ver seq (Some body) n w" using p by simp
  have both: "ok1 \<and> ok2"
  proof (rule ccontr)
    assume "\<not> (ok1 \<and> ok2)"
    then have "r = mkernel_internal_malloc_error"
      using run unfolding publish_payload_def ser by (simp add: m1 m2 Let_def)
    then show False using ok by simp
  qed
  then have b: "ok1 = True" "ok2 = True" by simp_all
  have run': "(r, w') = (case ask e_mqtt_publish (act (Do_publish topic qos (take (unat ?n)
      (e_aes_enc (env w) (session_key (g_ezdev_sdk_kernel w)) aes_iv (padded ?plain)))) w4) of (code, w5) \<Rightarrow>
      (if code = - 2 then mkernel_internal_call_mqtt_buffer_too_short
       else if code \<noteq> 0 then mkernel_internal_call_mqtt_pub_error
       else mkernel_internal_succ, w_free (w_free (w_free w5))))"
    using run unfolding publish_payload_def ser
    by (simp only: m1 m2 Let_def sum.case prod.case option.case fit e3 enc b if_False if_True simp_thms)
  then show ?thesis by (simp add: ask_def act_def t4 lc w_free_def)
qed

section \<open>What is received\<close>

lemma text_of_append: "text_of (a @ b) = text_of a @ text_of b"
  by (simp add: text_of_def)

lemma c_str_append: "CHR 0x00 \<notin> set a \<Longrightarrow> c_str (a @ b) = a @ c_str b"
  unfolding c_str_def by (rule takeWhile_append2) auto

lemma common_json_items:
  "bscJSON_GetObjectItem (Some (common_json t ver seq)) ''Seq'' = Some (json_number (uint seq))"
  "bscJSON_GetObjectItem (Some (common_json t ver seq)) ''CmdVer'' = Some (JString ver)"
  by (simp_all add: common_json_def GetObjectItem_miss tolower_def)

text \<open>What the receiver reads of the common part is what the sender put in.\<close>

lemma deserialize_printed:
  assumes e: "rt_env (common_json t ver seq) (env v)"
    and ver: "CHR 0x00 \<notin> set ver" "length ver < version_max_len" and seq: "uint seq < 2 ^ 31 - 1"
  shows "deserialize_common (bytes_of (e_json_print (env v) (common_json t ver seq)) @ rest) m v =
    (mkernel_internal_succ, m\<lparr>sm_command_ver := ver, sm_msg_seq := seq\<rparr>)"
proof -
  let ?s = "e_json_print (env v) (common_json t ver seq)"
  have "c_str (text_of (bytes_of ?s @ rest)) = ?s @ c_str (text_of rest)"
    using e by (simp add: text_of_append c_str_append rt_env_def)
  then have p: "e_json_parse (env v) (c_str (text_of (bytes_of ?s @ rest))) = Some (common_json t ver seq)"
    using e by (simp add: rt_env_def)
  have "strncpy0 (version_max_len - 1) ver = ver" using ver by (simp add: strncpy0_def c_str_id)
  moreover have "0 \<le> uint seq" by simp
  then have "\<not> uint seq \<le> - 2147483648" by linarith
  then have "valueint (json_number (uint seq)) = uint seq" "is_Number (json_number (uint seq))"
    using seq by (simp_all add: json_number_def valueint_def is_Number_def)
  ultimately show ?thesis
    by (simp add: deserialize_common_def deserialize_fields_def p common_json_items valuestring_def is_String_def)
qed

lemma receive_published:
  fixes n :: u32
  assumes e: "rt_env (common_json t ver seq) (env v)" and m: "w_malloc v = (True, v1)"
    and k: "key = session_key (g_ezdev_sdk_kernel v)"
    and n: "unat n = length body" "length body < 2 ^ 30" "body \<noteq> []"
    and ver: "CHR 0x00 \<notin> set ver" "length ver < version_max_len" and seq: "uint seq < 2 ^ 31 - 1"
    and p: "p = e_aes_enc (env v) key aes_iv (padded (plain_payload (env v) (common_json t ver seq) body))"
  shows "\<exists>buf v'. receive_payload deserialize_common put p x v =
      (mkernel_internal_succ, put (Some buf) n (x\<lparr>sm_command_ver := ver, sm_msg_seq := seq\<rparr>), v') \<and>
      take (unat n) buf = body"
proof -
  let ?j = "common_json t ver seq"
  let ?s = "e_json_print (env v) ?j" and ?plain = "plain_payload (env v) ?j body"
  let ?cl = "word_of_nat (length ?s) :: u16" and ?N = "word_of_nat (length p) :: u32"
  have ls: "length ?s < 2 ^ 16" using e by (simp add: rt_env_def)
  have cl: "unat ?cl = length ?s" using ls by (simp add: unat_of_nat)
  have uc: "(ucast ?cl :: u32) = word_of_nat (length ?s)"
    using ls by (intro unsigned_word_eqI [where 'a = nat]) (simp add: unsigned_ucast_eq unat_of_nat take_bit_nat_eq_self_iff)
  have v1: "env v1 = env v" "g_ezdev_sdk_kernel v1 = g_ezdev_sdk_kernel v"
    by (subst malloc_frame [OF m], simp)+
  have enc: "length p = length (padded ?plain)" "e_aes_dec (env v) key aes_iv p = padded ?plain"
    using e padded_props(2) [of ?plain] unfolding p rt_env_def by auto
  have lp: "length ?plain = 2 + length ?s + length body" by simp
  have un: "unat ?N = length (padded ?plain)"
    using ls n(2) lp padded_props(1) [of ?plain] by (simp only: enc(1) unat_of_nat) (simp add: mod_less)
  obtain v2 where d: "aes_cbc_128_dec_padding key p ?N (replicate (length p) 0) v1 =
      (mkernel_internal_succ, padded ?plain, Some (word_of_nat (length ?plain)), v2)"
    using dec_padded [of v1 ?N ?plain key p "replicate (length p) 0"] e enc un
    by (auto simp: v1 rt_env_def)
  have v2: "env v2 = env v" using dec_frame [OF d] v1 by auto
  obtain pad where pad: "padded ?plain = ?plain @ pad" by (simp add: padded_def Let_def)
  have t2: "deserialize_short (take 2 (padded ?plain)) = ?cl"
    unfolding pad by (simp add: plain_payload_def)
  have dr: "drop 2 (padded ?plain) = bytes_of ?s @ body @ pad" unfolding pad by (simp add: plain_payload_def)
  have e2: "rt_env ?j (env v2)" using e v2 by simp
  have ds: "deserialize_common (drop 2 (padded ?plain)) x v2 =
      (mkernel_internal_succ, x\<lparr>sm_command_ver := ver, sm_msg_seq := seq\<rparr>)"
    using deserialize_printed [OF e2 ver seq, of "body @ pad" x] unfolding dr v2 .
  have "n = word_of_nat (unat n)" by simp
  then have nn: "n = word_of_nat (length body)" by (simp add: n(1))
  have rest: "word_of_nat (length ?plain) - 2 - ucast ?cl = n" unfolding uc nn lp by simp
  have "length ?plain < 2 ^ 32" using ls n(2) by simp
  then have ul: "unat (word_of_nat (length ?plain) :: u32) = length ?plain"
    by (simp only: unat_of_nat) simp
  have lt: "\<not> word_of_nat (length ?plain) \<le> (ucast ?cl :: u32)"
    using ls unfolding uc word_le_nat_alt ul by (simp add: unat_of_nat)
  have pos: "0 < n" using n(1,3) by (simp add: word_less_nat_alt)
  have cp: "\<not> unat (word_of_nat (length ?plain) :: u32) < 2 + unat ?cl" unfolding ul cl by simp
  have "drop (2 + unat ?cl) (padded ?plain) = body @ pad"
    unfolding cl pad by (simp add: plain_payload_def)
  then have body: "take (unat n) (drop (2 + unat ?cl) (padded ?plain)) = body" by (simp add: n(1))
  show ?thesis
    unfolding receive_payload_def m k [symmetric] prod.case v1
    by (simp only: d prod.case Let_def option.case t2 ds lt rest pos cp body if_True if_False simp_thms)
       (intro exI conjI, rule refl, simp add: n(1))
qed


section \<open>Sender and receiver\<close>

text \<open>
  What one side publishes the other side reads: with the same session key, the packet that
  \<open>das_send_pubmsg\<close> hands to the MQTT client is taken apart by the receiving routine into the
  version, the sequence number and the body the sender put in, for every body that is not empty
  (below 2^30 bytes), every version text that fits its field and every sequence number below
  2^31 - 1.
\<close>

lemma published_is_received:
  fixes n :: u32
  assumes e: "rt_env (common_json (if response = 0 then 1 else 2) ver seq) (env w)"
    and same: "env v = env w" "session_key (g_ezdev_sdk_kernel v) = session_key (g_ezdev_sdk_kernel w)"
    and n: "unat n = length body" "length body < 2 ^ 30" "body \<noteq> []"
    and ver: "CHR 0x00 \<notin> set ver" "length ver < version_max_len" and seq: "uint seq < 2 ^ 31 - 1"
    and pub: "publish_payload (\<lambda>n. n) topic qos response ver seq (Some body) n w = (mkernel_internal_succ, w')"
    and mem: "fst (w_malloc v)"
  shows "\<exists>p buf v'. trace w' = Do_publish topic qos p # trace w \<and>
    receive_payload deserialize_common (\<lambda>b k m. m\<lparr>sm_buf := b, sm_buf_len := k\<rparr>) p m v =
      (mkernel_internal_succ, m\<lparr>sm_command_ver := ver, sm_msg_seq := seq, sm_buf := Some buf, sm_buf_len := n\<rparr>, v') \<and>
    take (unat n) buf = body"
proof -
  let ?j = "common_json (if response = 0 then 1 else 2) ver seq"
  let ?p = "e_aes_enc (env w) (session_key (g_ezdev_sdk_kernel w)) aes_iv (padded (plain_payload (env w) ?j body))"
  have t: "trace w' = Do_publish topic qos ?p # trace w"
    by (rule publish_publishes [OF e refl n(1,2) pub refl])
  have e': "rt_env ?j (env v)" using e same by simp
  have mem': "w_malloc v = (True, snd (w_malloc v))" using mem by (simp add: prod_eq_iff)
  obtain buf v' where "receive_payload deserialize_common (\<lambda>b k m. m\<lparr>sm_buf := b, sm_buf_len := k\<rparr>) ?p m v =
      (mkernel_internal_succ, (m\<lparr>sm_command_ver := ver, sm_msg_seq := seq\<rparr>)\<lparr>sm_buf := Some buf, sm_buf_len := n\<rparr>, v') \<and>
      take (unat n) buf = body"
    using receive_published [OF e' mem' same(2) [symmetric] n ver seq, of ?p
        "\<lambda>b k m. m\<lparr>sm_buf := b, sm_buf_len := k\<rparr>" m] same(1) by metis
  then show ?thesis using t by (intro exI [of _ ?p] exI [of _ buf] exI [of _ v']) simp
qed

end
