(* ===== verification/Json_Parser.thy ===== *)
theory Json_Parser
  imports Das_Publish
begin

text \<open>
  microkernel/src/json_parser.c: the configuration of the device and the answers of the LBS
  server about the DAS and STUN servers.  A routine returns the code and the structure it
  filled, or \<open>None\<close> where its behaviour is undefined (a null pointer, a copy past an array).
\<close>

section \<open>Operations\<close>

definition ezdev_sdk_productkey_len :: nat where "ezdev_sdk_productkey_len = 32"
definition ezdev_sdk_identificationcode_max_len :: nat where "ezdev_sdk_identificationcode_max_len = 256"

record stun_info =
  stun_interval :: u16
  stun1_port :: u16
  stun2_port :: u16
  stun1_address :: string
  stun1_domain :: string
  stun2_address :: string
  stun2_domain :: string

text \<open>
  What \<open>strncpy (a, s, strlen (s))\<close> makes of an array that holds the text \<open>old\<close>, zeroes behind it:
  no NUL is written.
\<close>

definition overlay :: "string \<Rightarrow> string \<Rightarrow> string" where
  "overlay s old = s @ drop (length s) old"

text \<open>The text of a string node, as \<open>strlen\<close> and \<open>strncpy\<close> see it.\<close>

definition chars :: "bscJSON \<Rightarrow> string" where
  "chars j = (case valuestring j of None \<Rightarrow> '''' | Some s \<Rightarrow> c_str s)"

text \<open>
  The last copy takes one character less than the text has: none for a text of one character, and
  a size that wraps around for the empty one.  Its target is an array of one character.
\<close>

definition json_parse_sap_devinfo ::
  "bscJSON \<Rightarrow> dev_basic_info \<Rightarrow> (mkernel_internal_error \<times> dev_basic_info) option" where
  "json_parse_sap_devinfo json_root d =
     (let get = bscJSON_GetObjectItem (Some json_root); err = Some (mkernel_internal_get_error_json, d)
      in case (get ''dev_status'', get ''dev_subserial'', get ''dev_verification_code'', get ''dev_serial'') of
        (Some status, Some subserial, Some verification_code, Some serial) \<Rightarrow>
          (case (get ''dev_firmwareversion'', get ''dev_type'', get ''dev_typedisplay'', get ''dev_mac'') of
             (Some firmwareversion, Some type, Some typedisplay, Some mac) \<Rightarrow>
               (case (get ''dev_nickname'', get ''dev_firmwareidentificationcode'', get ''dev_oeminfo'') of
                  (Some nickname, Some code, Some oeminfo) \<Rightarrow>
                    if \<not> is_Number status \<or> \<not> is_Number oeminfo \<or>
                       \<not> list_all is_String [subserial, serial, verification_code, firmwareversion, type,
                            typedisplay, mac, nickname, code]
                    then err
                    else if length (chars subserial) \<ge> ezdev_sdk_devserial_maxlen \<or>
                       length (chars serial) \<ge> ezdev_sdk_devserial_maxlen \<or>
                       length (chars verification_code) \<ge> ezdev_sdk_verify_code_maxlen \<or>
                       length (chars firmwareversion) \<ge> ezdev_sdk_name_len \<or>
                       length (chars type) \<ge> ezdev_sdk_name_len \<or>
                       length (chars typedisplay) \<ge> ezdev_sdk_name_len \<or>
                       length (chars mac) \<ge> ezdev_sdk_name_len \<or>
                       length (chars nickname) \<ge> ezdev_sdk_name_len \<or>
                       length (chars code) \<ge> ezdev_sdk_identificationcode_max_len
                    then err
                    else if valuedouble oeminfo < 0 \<or> valuedouble oeminfo \<ge> 2 ^ 32 then None
                    else if length (chars code) = 0 \<or> length (chars code) - 1 > 1 then None
                    else Some (mkernel_internal_succ,
                      d\<lparr>dev_status := word_of_int (valueint status),
                        dev_oeminfo := word_of_int (valuedouble oeminfo),
                        dev_subserial := overlay (chars subserial) (dev_subserial d),
                        dev_verification_code := overlay (chars verification_code) (dev_verification_code d),
                        dev_serial := overlay (chars serial) (dev_serial d),
                        dev_firmwareversion := overlay (chars firmwareversion) (dev_firmwareversion d),
                        dev_type := overlay (chars type) (dev_type d),
                        dev_typedisplay := overlay (chars typedisplay) (dev_typedisplay d),
                        dev_mac := overlay (chars mac) (dev_mac d),
                        dev_nickname := overlay (chars nickname) (dev_nickname d),
                        dev_firmwareidentificationcode :=
                          overlay (butlast (chars code)) (dev_firmwareidentificationcode d)\<rparr>)
                | _ \<Rightarrow> err)
           | _ \<Rightarrow> err)
      | _ \<Rightarrow> err)"

text \<open>
  The serial number becomes \<open>product key:device name\<close>, the type the product key.  Whether the
  license and the MAC are texts is tested through their pointers only.
\<close>

definition json_parse_license_devinfo ::
  "bscJSON \<Rightarrow> dev_basic_info \<Rightarrow> (mkernel_internal_error \<times> dev_basic_info) option" where
  "json_parse_license_devinfo json_root d =
     (let get = bscJSON_GetObjectItem (Some json_root); err = Some (mkernel_internal_get_error_json, d)
      in case (get ''dev_productKey'', get ''dev_deviceName'', get ''dev_deviceLicense'') of
        (Some productKey, Some deviceName, Some deviceLicense) \<Rightarrow>
          (case (get ''dev_firmwareversion'', get ''dev_mac'', get ''dev_nickname'') of
             (Some firmwareversion, Some mac, Some nickname) \<Rightarrow>
               if \<not> is_String productKey \<or> \<not> is_String deviceName \<or> valuestring deviceLicense = None \<or>
                  \<not> is_String firmwareversion \<or> valuestring mac = None \<or> \<not> is_String nickname
               then err
               else if length (chars productKey) \<ge> ezdev_sdk_productkey_len \<or>
                  length (chars deviceName) \<ge> ezdev_sdk_productkey_len \<or>
                  length (chars deviceLicense) \<ge> ezdev_sdk_verify_code_maxlen \<or>
                  length (chars firmwareversion) \<ge> ezdev_sdk_name_len \<or>
                  length (chars mac) \<ge> ezdev_sdk_name_len \<or> length (chars nickname) \<ge> ezdev_sdk_name_len
               then err
               else let subserial = chars productKey @ '':'' @ chars deviceName;
                        type = overlay (chars productKey) (dev_type d)
                    in Some (mkernel_internal_succ,
                      d\<lparr>dev_status := 1, dev_subserial := subserial,
                        dev_verification_code := overlay (chars deviceLicense) (dev_verification_code d),
                        dev_serial := overlay subserial (dev_serial d),
                        dev_firmwareversion := overlay (chars firmwareversion) (dev_firmwareversion d),
                        dev_type := type,
                        dev_typedisplay := overlay type (dev_typedisplay d),
                        dev_mac := overlay (chars mac) (dev_mac d),
                        dev_nickname := overlay (chars nickname) (dev_nickname d)\<rparr>)
           | _ \<Rightarrow> err)
      | _ \<Rightarrow> err)"

definition json_parse_devinfo ::
  "(string \<Rightarrow> bscJSON option) \<Rightarrow> string \<Rightarrow> dev_basic_info \<Rightarrow> (mkernel_internal_error \<times> dev_basic_info) option" where
  "json_parse_devinfo bscJSON_Parse dev_config_info d =
     (case bscJSON_Parse dev_config_info of
        None \<Rightarrow> Some (mkernel_internal_json_parse_error, d)
      | Some json_root \<Rightarrow>
          let auth = (case bscJSON_GetObjectItem (Some json_root) ''dev_auth_mode'' of
                 None \<Rightarrow> sdk_dev_auth_sap
               | Some m \<Rightarrow> if is_Number m \<and> valueint m = 1 then sdk_dev_auth_license else sdk_dev_auth_sap);
              access = (case bscJSON_GetObjectItem (Some json_root) ''dev_access_mode'' of
                 None \<Rightarrow> 0 | Some m \<Rightarrow> if is_Number m then word_of_int (valueint m) else 0);
              d' = d\<lparr>dev_auth_mode := auth, dev_access_mode := access\<rparr>
          in if auth = sdk_dev_auth_license then json_parse_license_devinfo json_root d'
             else json_parse_sap_devinfo json_root d')"

text \<open>The type tag both answers of the LBS server start with.\<close>

definition check_type :: "bscJSON \<Rightarrow> string \<Rightarrow> mkernel_internal_error" where
  "check_type json_item name =
     (case bscJSON_GetObjectItem (Some json_item) ''Type'' of
        None \<Rightarrow> mkernel_internal_json_parse_error
      | Some t \<Rightarrow> if \<not> is_String t then mkernel_internal_json_parse_error
                   else if chars t \<noteq> name then mkernel_internal_get_error_json else mkernel_internal_succ)"

text \<open>The address is tested nowhere for being there; it is read when all other tests passed.\<close>

definition json_parse_das_server_info ::
  "(string \<Rightarrow> bscJSON option) \<Rightarrow> string \<Rightarrow> das_info \<Rightarrow> (mkernel_internal_error \<times> das_info) option" where
  "json_parse_das_server_info bscJSON_Parse jsonstring i =
     (case bscJSON_Parse jsonstring of
        None \<Rightarrow> Some (mkernel_internal_json_parse_error, i)
      | Some json_item \<Rightarrow>
          if check_type json_item ''DAS'' \<noteq> mkernel_internal_succ
          then Some (check_type json_item ''DAS'', i)
          else case bscJSON_GetObjectItem (Some json_item) ''DasInfo'' of
            None \<Rightarrow> Some (mkernel_internal_get_error_json, i)
          | Some dasinfo \<Rightarrow>
              let get = bscJSON_GetObjectItem (Some dasinfo)
              in case (get ''Port'', get ''UdpPort'', get ''Domain'', get ''ServerID'') of
                (Some port, Some udpport, Some domain, Some serverid) \<Rightarrow>
                  if \<not> is_Number port \<or> \<not> is_Number udpport \<or> \<not> is_String serverid \<or> \<not> is_String domain
                  then Some (mkernel_internal_get_error_json, i)
                  else (case get ''Address'' of
                    None \<Rightarrow> None
                  | Some address \<Rightarrow>
                      if \<not> is_String address then Some (mkernel_internal_get_error_json, i)
                      else if length (chars address) \<ge> ezdev_sdk_ip_max_len
                      then Some (mkernel_internal_platform_appoint_error, i)
                      else
                        let i1 = i\<lparr>das_address := overlay (chars address) (das_address i)\<rparr>
                        in if length (chars domain) \<ge> ezdev_sdk_ip_max_len
                           then Some (mkernel_internal_platform_appoint_error, i1)
                           else
                             let i2 = i1\<lparr>das_domain := overlay (chars domain) (das_domain i)\<rparr>
                             in if length (chars serverid) \<ge> ezdev_sdk_name_len
                                then Some (mkernel_internal_platform_appoint_error, i2)
                                else Some (mkernel_internal_succ,
                                  i2\<lparr>das_serverid := overlay (chars serverid) (das_serverid i),
                                     das_port := word_of_int (valueint port),
                                     das_udp_port := word_of_int (valueint udpport)\<rparr>))
              | _ \<Rightarrow> Some (mkernel_internal_get_error_json, i))"

definition json_parse_stun_server_info ::
  "(string \<Rightarrow> bscJSON option) \<Rightarrow> string \<Rightarrow> stun_info \<Rightarrow> mkernel_internal_error \<times> stun_info" where
  "json_parse_stun_server_info bscJSON_Parse jsonstring i =
     (case bscJSON_Parse jsonstring of
        None \<Rightarrow> (mkernel_internal_json_parse_error, i)
      | Some json_item \<Rightarrow>
          if check_type json_item ''STUN'' \<noteq> mkernel_internal_succ
          then (check_type json_item ''STUN'', i)
          else case bscJSON_GetObjectItem (Some json_item) ''Interval'' of
            None \<Rightarrow> (mkernel_internal_get_error_json, i)
          | Some interval \<Rightarrow>
              if \<not> is_Number interval then (mkernel_internal_get_error_json, i)
              else
                let i0 = i\<lparr>stun_interval := word_of_int (valueint interval)\<rparr>;
                    stuninfo = bscJSON_GetObjectItem (Some json_item) ''StunInfo'';
                    get = (\<lambda>n. bscJSON_GetObjectItem (map_option snd (bscJSON_GetArrayItem stuninfo n)))
                in if bscJSON_GetArraySize stuninfo \<noteq> 2 then (mkernel_internal_get_error_json, i0)
                   else case (get 0 ''Address'', get 0 ''Port'', get 0 ''Domain'',
                              get 1 ''Address'', get 1 ''Port'', get 1 ''Domain'') of
                     (Some a1, Some p1, Some d1, Some a2, Some p2, Some d2) \<Rightarrow>
                       if \<not> is_Number p1 \<or> \<not> is_String a1 \<or> \<not> is_String d1 \<or>
                          \<not> is_Number p2 \<or> \<not> is_String a2 \<or> \<not> is_String d2
                       then (mkernel_internal_get_error_json, i0)
                       else if length (chars a1) \<ge> ezdev_sdk_ip_max_len
                       then (mkernel_internal_platform_appoint_error, i0)
                       else
                         let i1 = i0\<lparr>stun1_address := overlay (chars a1) (stun1_address i)\<rparr>
                         in if length (chars d1) \<ge> ezdev_sdk_ip_max_len
                            then (mkernel_internal_platform_appoint_error, i1)
                            else
                              let i2 = i1\<lparr>stun1_domain := overlay (chars d1) (stun1_domain i),
                                    stun1_port := word_of_int (valueint p1)\<rparr>
                              in if length (chars a2) \<ge> ezdev_sdk_ip_max_len
                                 then (mkernel_internal_platform_appoint_error, i2)
                                 else
                                   let i3 = i2\<lparr>stun2_address := overlay (chars a2) (stun2_address i)\<rparr>
                                   in if length (chars d2) \<ge> ezdev_sdk_ip_max_len
                                      then (mkernel_internal_platform_appoint_error, i3)
                                      else (mkernel_internal_succ,
                                        i3\<lparr>stun2_domain := overlay (chars d2) (stun2_domain i),
                                           stun2_port := word_of_int (valueint p2)\<rparr>)
                   | _ \<Rightarrow> (mkernel_internal_get_error_json, i0))"

section \<open>Properties\<close>

lemma overlay_simps [simp]:
  "overlay s '''' = s" "length (overlay s old) = max (length s) (length old)"
  by (auto simp: overlay_def)

text \<open>Every text of the structure leaves room for its NUL.\<close>

definition das_info_fits :: "das_info \<Rightarrow> bool" where
  "das_info_fits i \<longleftrightarrow> length (das_address i) < ezdev_sdk_ip_max_len \<and>
     length (das_domain i) < ezdev_sdk_ip_max_len \<and> length (das_serverid i) < ezdev_sdk_name_len"

lemma das_info_fits_zero [simp]: "das_info_fits zero_das_info"
  by (simp add: das_info_fits_def zero_das_info_def ezdev_sdk_ip_max_len_def ezdev_sdk_name_len_def)

text \<open>
  C38: Reading the DAS server's address never writes past an array, whatever text the LBS server
  sends: on every path, errors included, the texts of the structure still leave room for their NUL.
  The only undefined step is the null pointer that is followed when the answer has no address.
\<close>

theorem das_server_info_safe:
  assumes "das_info_fits i"
  shows "(case json_parse_das_server_info parse s i of
      Some (r, i') \<Rightarrow> das_info_fits i'
    | None \<Rightarrow> (\<exists>j d. parse s = Some j \<and> bscJSON_GetObjectItem (Some j) ''DasInfo'' = Some d \<and>
                 bscJSON_GetObjectItem (Some d) ''Address'' = None))"
  using assms unfolding json_parse_das_server_info_def das_info_fits_def
  by (auto simp: Let_def split: option.split)

definition demo_das_json :: bscJSON where
  "demo_das_json = JObject [(''Type'', JString ''DAS''), (''DasInfo'', JObject [(''Address'', JString ''10.0.0.1''),
     (''Port'', JNumber 8666 8666), (''UdpPort'', JNumber 8667 8667), (''Domain'', JString ''das''),
     (''ServerID'', JString ''7'')])]"

theorem das_server_info_safe_witness:
  "\<exists>i. json_parse_das_server_info (\<lambda>_. Some demo_das_json) '''' zero_das_info = Some (mkernel_internal_succ, i) \<and>
     das_info_fits i \<and> das_port i = 8666"
proof -
  let ?r = "json_parse_das_server_info (\<lambda>_. Some demo_das_json) '''' zero_das_info"
  have r: "?r = Some (mkernel_internal_succ, \<lparr>das_port = 8666, das_udp_port = 8667, das_address = ''10.0.0.1'',
      das_domain = ''das'', das_serverid = ''7''\<rparr>)"
    by (simp add: json_parse_das_server_info_def demo_das_json_def check_type_def GetObjectItem_miss tolower_def
        is_String_def is_Number_def valuestring_def valueint_def chars_def c_str_def zero_das_info_def
        ezdev_sdk_ip_max_len_def ezdev_sdk_name_len_def)
  show ?thesis
    using das_server_info_safe [of zero_das_info "\<lambda>_. Some demo_das_json" "''''"] unfolding r by simp
qed

text \<open>
  The array for the firmware identification code has one character, though the check lets 255
  through: the parser of a SAP configuration returns success only for codes of one or two
  characters, and the last character is lost; every other code that passes the checks is copied
  past the array.
\<close>

theorem sap_code_overflow:
  assumes "json_parse_sap_devinfo j d = Some (mkernel_internal_succ, d')"
    and "bscJSON_GetObjectItem (Some j) ''dev_firmwareidentificationcode'' = Some code"
    and "dev_firmwareidentificationcode d = ''''"
  shows "0 < length (chars code) \<and> length (chars code) \<le> 2 \<and>
         dev_firmwareidentificationcode d' = butlast (chars code)"
  using assms unfolding json_parse_sap_devinfo_def
  by (auto simp: Let_def split: option.splits if_splits)

definition demo_sap_json :: "string \<Rightarrow> bscJSON" where
  "demo_sap_json code = JObject [(''dev_status'', JNumber 1 1), (''dev_subserial'', JString ''D1''),
     (''dev_verification_code'', JString ''V''), (''dev_serial'', JString ''S1''),
     (''dev_firmwareversion'', JString ''1.0''), (''dev_type'', JString ''T''), (''dev_typedisplay'', JString ''T''),
     (''dev_mac'', JString ''M''), (''dev_nickname'', JString ''N''),
     (''dev_firmwareidentificationcode'', JString code), (''dev_oeminfo'', JNumber 0 0)]"

theorem sap_code_overflow_witness:
  "\<exists>d. json_parse_sap_devinfo (demo_sap_json ''AB'') zero_dev_info = Some (mkernel_internal_succ, d) \<and>
     dev_firmwareidentificationcode d = ''A'' \<and> json_parse_sap_devinfo (demo_sap_json ''ABC'') zero_dev_info = None"
proof -
  have c: "bscJSON_GetObjectItem (Some (demo_sap_json s)) ''dev_firmwareidentificationcode'' = Some (JString s)" for s
    by (simp add: demo_sap_json_def GetObjectItem_miss tolower_def)
  note items = demo_sap_json_def GetObjectItem_miss tolower_def is_String_def is_Number_def valuestring_def
    valueint_def valuedouble_def chars_def c_str_def json_parse_sap_devinfo_def
    ezdev_sdk_devserial_maxlen_def ezdev_sdk_verify_code_maxlen_def ezdev_sdk_name_len_def
    ezdev_sdk_identificationcode_max_len_def
  have "\<exists>d. json_parse_sap_devinfo (demo_sap_json ''AB'') zero_dev_info = Some (mkernel_internal_succ, d)"
    by (simp add: items)
  then obtain d where d: "json_parse_sap_devinfo (demo_sap_json ''AB'') zero_dev_info = Some (mkernel_internal_succ, d)" ..
  have "dev_firmwareidentificationcode d = butlast (chars (JString ''AB''))"
    using sap_code_overflow [OF d c] by (simp add: zero_dev_info_def)
  moreover have "butlast (chars (JString ''AB'')) = ''A''" by (simp add: chars_def valuestring_def c_str_def)
  moreover have "json_parse_sap_devinfo (demo_sap_json ''ABC'') zero_dev_info = None" by (simp add: items)
  ultimately show ?thesis using d by simp
qed

end
