(* ===== verification/Lbs_Packet.thy ===== *)
theory Lbs_Packet
  imports Json_Parser
begin

text \<open>
  The packets of the LBS protocol (first half of microkernel/src/lbs_transport.c) and the key
  agreement of microkernel/src/ezdev_ecdh_support.c: the state of one exchange with the
  server, headers and their length field, signatures, sending and receiving.
\<close>

section \<open>The state of an exchange\<close>

definition lbs_send_buf_max :: nat where "lbs_send_buf_max = 1024 * 2"
definition lbs_recv_buf_max :: nat where "lbs_recv_buf_max = 1024 * 2"
definition ezdev_sdk_total_len :: nat where "ezdev_sdk_total_len = 128"
definition ezdev_sdk_sharekey_len :: nat where "ezdev_sdk_sharekey_len = 32"
definition ezdev_sdk_sharekey_salt :: string where "ezdev_sdk_sharekey_salt = ''www.88075998.com''"

text \<open>The lengths of the two buffers of a packet are those of the lists.\<close>

record lbs_packet =
  head_buf :: "byte list option"
  head_buf_off :: nat
  payload_buf :: "byte list"
  payload_buf_off :: nat

record lbs_affair =
  la_random_1 :: u8
  la_random_2 :: u8
  la_random_3 :: u8
  la_random_4 :: u8
  la_dev_access_mode :: u16
  la_dev_auth_mode :: sdk_dev_auth_mode
  la_dev_subserial :: string
  la_master_key :: "byte list"
  la_dev_id :: "byte list"
  la_session_key :: "byte list"
  la_share_key :: "byte list"
  la_share_key_len :: u16
  global_out_packet :: lbs_packet
  global_in_packet :: lbs_packet
  lbs_net_work :: bool

definition zero_packet :: lbs_packet where
  "zero_packet = \<lparr>head_buf = None, head_buf_off = 0, payload_buf = [], payload_buf_off = 0\<rparr>"

definition zero_affair :: lbs_affair where
  "zero_affair = \<lparr>la_random_1 = 0, la_random_2 = 0, la_random_3 = 0, la_random_4 = 0,
     la_dev_access_mode = 0, la_dev_auth_mode = sdk_dev_auth_sap, la_dev_subserial = '''',
     la_master_key = replicate ezdev_sdk_masterkey_len 0, la_dev_id = replicate ezdev_sdk_devid_len 0,
     la_session_key = replicate ezdev_sdk_sessionkey_len 0, la_share_key = replicate ezdev_sdk_sharekey_len 0,
     la_share_key_len = 0, global_out_packet = zero_packet, global_in_packet = zero_packet,
     lbs_net_work = False\<rparr>"

text \<open>The local variables of a redirect routine together with the program's state.\<close>

record lbs_run =
  affair :: lbs_affair
  revc_das_info :: das_info
  revc_stun_info :: stun_info
  lw :: world

definition upd_lw :: "(world \<Rightarrow> world) \<Rightarrow> lbs_run \<Rightarrow> lbs_run" where
  "upd_lw f s = s\<lparr>lw := f (lw s)\<rparr>"

definition upd_affair :: "(lbs_affair \<Rightarrow> lbs_affair) \<Rightarrow> lbs_run \<Rightarrow> lbs_run" where
  "upd_affair f s = s\<lparr>affair := f (affair s)\<rparr>"

text \<open>
  Steps one after the other until one of them fails; for steps that always return and for steps
  that may wait forever (\<open>None\<close>).
\<close>

fun run_steps :: "('s \<Rightarrow> mkernel_internal_error \<times> 's) list \<Rightarrow> 's \<Rightarrow> mkernel_internal_error \<times> 's" where
  "run_steps [] s = (mkernel_internal_succ, s)"
| "run_steps (f # fs) s = (case f s of (r, s1) \<Rightarrow> if r \<noteq> mkernel_internal_succ then (r, s1) else run_steps fs s1)"

fun run_waits ::
  "('s \<Rightarrow> (mkernel_internal_error \<times> 's) option) list \<Rightarrow> 's \<Rightarrow> (mkernel_internal_error \<times> 's) option" where
  "run_waits [] s = Some (mkernel_internal_succ, s)"
| "run_waits (f # fs) s = (case f s of None \<Rightarrow> None
     | Some (r, s1) \<Rightarrow> if r \<noteq> mkernel_internal_succ then Some (r, s1) else run_waits fs s1)"

section \<open>Keys\<close>

definition hexdigit :: "bool \<Rightarrow> nat \<Rightarrow> byte" where
  "hexdigit upper n = word_of_nat (if n < 10 then 48 + n else (if upper then 55 else 87) + n)"

definition hexdump :: "bool \<Rightarrow> byte list \<Rightarrow> byte list" where
  "hexdump upper bs = concat (map (\<lambda>b. [hexdigit upper (unat b div 16), hexdigit upper (unat b mod 16)]) bs)"

definition generate_sharekey :: "u8 \<Rightarrow> lbs_run \<Rightarrow> lbs_run" where
  "generate_sharekey nUpper s =
     (let k = g_ezdev_sdk_kernel (lw s); md5 = e_md5 (env (lw s));
          src = bytes_of (dev_verification_code (dev_info k)) @ bytes_of (dev_subserial (dev_info k));
          hex1 = hexdump (nUpper \<noteq> 0) (md5 src);
          hex2 = hexdump True (md5 (hex1 @ bytes_of ezdev_sdk_sharekey_salt));
          hex3 = hexdump True (md5 hex2)
      in upd_affair (\<lambda>a. a\<lparr>la_share_key := hex3, la_share_key_len := word_of_nat ezdev_sdk_sharekey_len\<rparr>) s)"

text \<open>
  The Diffie-Hellman exchange.  The library writes the length of a public key in front of it,
  and the server's key gets that length byte back.
\<close>

definition ezdev_sdk_ecdh_key_len :: u32 where "ezdev_sdk_ecdh_key_len = 97"
definition ezdev_sdk_ecdh_publickey_len :: byte where "ezdev_sdk_ecdh_publickey_len = 0x61"

definition generate_public_key :: "world \<Rightarrow> (mkernel_internal_error + byte list) \<times> world" where
  "generate_public_key w = (case ask e_ecp_group_load w of (r1, w1) \<Rightarrow>
     if r1 \<noteq> 0 then (Inl mkernel_internal_bscomptls_ecp_group_load_err, w1)
     else case ask e_ecdh_make_public w1 of ((r2, buf), w2) \<Rightarrow>
       if r2 \<noteq> 0 then (Inl mkernel_internal_bscomptls_ecdh_read_public_err, w2)
       else if buf = [] \<or> length buf > 128 then (Inr [], undefined_behaviour w2)
       else (Inr (tl buf), w2))"

definition generate_master_key ::
  "byte list \<Rightarrow> u32 \<Rightarrow> world \<Rightarrow> (mkernel_internal_error + byte list) \<times> world" where
  "generate_master_key peer_pubkey peer_pubkey_len w =
     (if peer_pubkey_len \<noteq> ezdev_sdk_ecdh_key_len then (Inl mkernel_internal_input_param_invalid, w)
      else case ask e_ecdh_read_public w of (read, w1) \<Rightarrow>
        if read (ezdev_sdk_ecdh_publickey_len # take (unat peer_pubkey_len) peer_pubkey) \<noteq> 0
        then (Inl mkernel_internal_bscomptls_ecdh_read_public_err, w1)
        else case ask e_ecdh_calc_secret w1 of ((r2, secret), w2) \<Rightarrow>
          if r2 \<noteq> 0 then (Inl mkernel_internal_bscomptls_ecdh_calc_secret_err, w2)
          else (Inr secret, w2))"

section \<open>Setting up and tearing down\<close>

definition fresh_packet :: "byte list \<Rightarrow> lbs_packet" where
  "fresh_packet payload = \<lparr>head_buf = Some (replicate 16 0), head_buf_off = 0, payload_buf = payload,
     payload_buf_off = 0\<rparr>"

definition draw_randoms :: "lbs_run \<Rightarrow> lbs_run" where
  "draw_randoms s = (case ask e_rand (lw s) of (x1, w1) \<Rightarrow> case ask e_rand w1 of (x2, w2) \<Rightarrow>
     case ask e_rand w2 of (x3, w3) \<Rightarrow> case ask e_rand w3 of (x4, w4) \<Rightarrow>
       upd_affair (\<lambda>a. a\<lparr>la_random_1 := word_of_nat (x1 mod 256), la_random_2 := word_of_nat (x2 mod 256),
         la_random_3 := word_of_nat (x3 mod 256), la_random_4 := word_of_nat (x4 mod 256)\<rparr>) (s\<lparr>lw := w4\<rparr>))"

text \<open>What both set-up routines copy from the kernel object.\<close>

definition copy_identity :: "u8 \<Rightarrow> lbs_run \<Rightarrow> lbs_run" where
  "copy_identity nUpper s =
     (let k = g_ezdev_sdk_kernel (lw s)
      in upd_affair (\<lambda>a. a\<lparr>lbs_net_work := False\<rparr>) (generate_sharekey nUpper
           (upd_affair (\<lambda>a. a\<lparr>la_dev_auth_mode := dev_auth_mode (dev_info k),
              la_dev_subserial := dev_subserial (dev_info k), la_dev_id := dev_id k,
              la_master_key := master_key k, la_dev_access_mode := dev_access_mode (dev_info k)\<rparr>) s)))"

text \<open>
  The second test looks at the outgoing packet, which was set a moment ago: without memory for
  the head of the incoming one the routine writes through a null pointer.
\<close>

definition init_lbs_affair :: "u8 \<Rightarrow> lbs_run \<Rightarrow> mkernel_internal_error \<times> lbs_run" where
  "init_lbs_affair nUpper s =
     (let s1 = draw_randoms s in case w_malloc (lw s1) of (ok1, w1) \<Rightarrow>
        if \<not> ok1 then (mkernel_internal_mem_lack, s1\<lparr>lw := w1\<rparr>)
        else
          let s2 = upd_affair (\<lambda>a. a\<lparr>global_out_packet := fresh_packet (replicate lbs_send_buf_max 0)\<rparr>) (s1\<lparr>lw := w1\<rparr>)
          in case w_malloc w1 of (ok2, w2) \<Rightarrow>
            if \<not> ok2 then (mkernel_internal_succ, s2\<lparr>lw := undefined_behaviour w2\<rparr>)
            else (mkernel_internal_succ, copy_identity nUpper
              (upd_affair (\<lambda>a. a\<lparr>global_in_packet := fresh_packet (replicate lbs_recv_buf_max 0)\<rparr>) (s2\<lparr>lw := w2\<rparr>))))"

definition fini_lbs_affair :: "lbs_run \<Rightarrow> lbs_run" where
  "fini_lbs_affair s =
     s\<lparr>lw := w_free_opt (head_buf (global_in_packet (affair s)))
               (w_free_opt (head_buf (global_out_packet (affair s))) (lw s)), affair := zero_affair\<rparr>"

definition clear_packet :: "nat \<Rightarrow> lbs_packet \<Rightarrow> lbs_packet" where
  "clear_packet n p = p\<lparr>head_buf := map_option (\<lambda>_. replicate 16 0) (head_buf p), head_buf_off := 0,
     payload_buf := replicate n 0, payload_buf_off := 0\<rparr>"

definition clear_lbs_affair_buf :: "lbs_run \<Rightarrow> lbs_run" where
  "clear_lbs_affair_buf = upd_affair (\<lambda>a. a\<lparr>
     global_out_packet := clear_packet lbs_send_buf_max (global_out_packet a),
     global_in_packet := clear_packet lbs_recv_buf_max (global_in_packet a)\<rparr>)"

text \<open>The second version allocates the payload buffers too, and tests no allocation.\<close>

definition init_lbs_affair_v2 :: "u8 \<Rightarrow> lbs_run \<Rightarrow> lbs_run" where
  "init_lbs_affair_v2 nUpper s =
     (let s1 = draw_randoms s in
      case w_malloc (lw s1) of (ok1, w1) \<Rightarrow> case w_malloc w1 of (ok2, w2) \<Rightarrow>
      case w_malloc w2 of (ok3, w3) \<Rightarrow> case w_malloc w3 of (ok4, w4) \<Rightarrow>
        if \<not> (ok1 \<and> ok2 \<and> ok3 \<and> ok4) then s1\<lparr>lw := undefined_behaviour w4\<rparr>
        else copy_identity nUpper
          (upd_affair (\<lambda>a. a\<lparr>global_out_packet := fresh_packet (replicate lbs_send_buf_max 0),
             global_in_packet := fresh_packet (replicate lbs_recv_buf_max 0)\<rparr>) (s1\<lparr>lw := w4\<rparr>)))"

definition fini_packet_v2 :: "lbs_packet \<Rightarrow> world \<Rightarrow> world" where
  "fini_packet_v2 p w = (let w1 = w_free_opt (head_buf p) w in if payload_buf p \<noteq> [] then w_free w1 else w1)"

definition fini_lbs_affair_v2 :: "lbs_run \<Rightarrow> lbs_run" where
  "fini_lbs_affair_v2 s =
     s\<lparr>lw := fini_packet_v2 (global_in_packet (affair s)) (fini_packet_v2 (global_out_packet (affair s)) (lw s)),
       affair := zero_affair\<rparr>"

definition clear_lbs_affair_buf_v2 :: "lbs_run \<Rightarrow> lbs_run" where
  "clear_lbs_affair_buf_v2 = clear_lbs_affair_buf"

section \<open>Outgoing packets\<close>

text \<open>A copy behind what the packet holds; the routines do not look for the end of the buffer.\<close>

definition put_out :: "byte list \<Rightarrow> lbs_run \<Rightarrow> lbs_run" where
  "put_out bs s =
     (let p = global_out_packet (affair s); off = payload_buf_off p
      in if length (payload_buf p) < off + length bs then upd_lw undefined_behaviour s
         else upd_affair (\<lambda>a. a\<lparr>global_out_packet := p\<lparr>
           payload_buf := take off (payload_buf p) @ bs @ drop (off + length bs) (payload_buf p),
           payload_buf_off := off + length bs\<rparr>\<rparr>) s)"

text \<open>The length field: seven bits a byte, low ones first, at most four bytes.\<close>

function remaining_bytes :: "nat \<Rightarrow> u32 \<Rightarrow> byte list" where
  "remaining_bytes remaining_count payload_len =
     (let byte_2 = ucast (payload_len mod 128); rest = payload_len div 128
      in if rest > 0
         then (byte_2 OR 0x80) # (if remaining_count + 1 < 4 then remaining_bytes (remaining_count + 1) rest else [])
         else [byte_2])"
  by pat_completeness auto
termination by (relation "measure (\<lambda>(k, n). 4 - k)") auto

declare remaining_bytes.simps [simp del]

definition header_bytes :: "byte \<Rightarrow> u32 \<Rightarrow> u32 \<Rightarrow> byte list" where
  "header_bytes flags cmd remain_len =
     (push_bit 4 (ucast (cmd AND 0x0F)) OR flags) # remaining_bytes 0 remain_len"

definition put_head :: "byte list \<Rightarrow> lbs_run \<Rightarrow> mkernel_internal_error \<times> lbs_run" where
  "put_head bs s =
     (let p = global_out_packet (affair s); off = head_buf_off p
      in case head_buf p of
        None \<Rightarrow> (mkernel_internal_succ, upd_lw undefined_behaviour s)
      | Some h \<Rightarrow>
          if length h < 5 then (mkernel_internal_mem_lack, s)
          else if length h < off + length bs then (mkernel_internal_succ, upd_lw undefined_behaviour s)
          else (mkernel_internal_succ, upd_affair (\<lambda>a. a\<lparr>global_out_packet := p\<lparr>
            head_buf := Some (take off h @ bs @ drop (off + length bs) h), head_buf_off := off + length bs\<rparr>\<rparr>) s))"

definition header_serialize :: "u32 \<Rightarrow> lbs_run \<Rightarrow> mkernel_internal_error \<times> lbs_run" where
  "header_serialize cmd s =
     put_head (header_bytes 0x2 cmd (word_of_nat (payload_buf_off (global_out_packet (affair s))))) s"

definition header_serialize_old :: "u32 \<Rightarrow> lbs_run \<Rightarrow> mkernel_internal_error \<times> lbs_run" where
  "header_serialize_old cmd s =
     put_head (header_bytes 0 cmd (word_of_nat (payload_buf_off (global_out_packet (affair s))))) s"

definition DEV_PROTOCOL_LBS_FORM_VERSION :: byte where "DEV_PROTOCOL_LBS_FORM_VERSION = 0x01"
definition DEV_PROTOCOL_LBS_LOW_TYPE_VERSION :: byte where "DEV_PROTOCOL_LBS_LOW_TYPE_VERSION = 0x01"
definition DEV_PROTOCOL_LBS_LOW_TYPE_VERSION_LICENSE :: byte where
  "DEV_PROTOCOL_LBS_LOW_TYPE_VERSION_LICENSE = 0x02"
definition DEV_PROTOCOL_LBS_HIGH_TYPE_VERSION :: byte where "DEV_PROTOCOL_LBS_HIGH_TYPE_VERSION = 0x00"

definition common_serialize :: "byte \<Rightarrow> byte \<Rightarrow> byte \<Rightarrow> lbs_run \<Rightarrow> mkernel_internal_error \<times> lbs_run" where
  "common_serialize form low high s =
     (if payload_buf_off (global_out_packet (affair s)) + 3 > length (payload_buf (global_out_packet (affair s)))
      then (mkernel_internal_mem_lack, s)
      else (mkernel_internal_succ, put_out [form, low, high] s))"

text \<open>
  The signature: the keyed SHA-384 of the SHA-384 of the text.  The first routine appends it, the
  second compares it with the one received.
\<close>

definition sign_sha384 :: "byte list \<Rightarrow> byte list \<Rightarrow> world \<Rightarrow> (mkernel_internal_error + byte list) \<times> world" where
  "sign_sha384 key src w = (case ask e_hmac_code w of (r, w1) \<Rightarrow>
     if r \<noteq> 0 then (Inl mkernel_internal_hmac_error, w1)
     else (Inr (take 48 (e_hmac_sha384 (env w) key (take 48 (e_sha384 (env w) src)))), w1))"

definition digital_sign_serialize_sha384 :: "byte list \<Rightarrow> lbs_run \<Rightarrow> mkernel_internal_error \<times> lbs_run" where
  "digital_sign_serialize_sha384 sign_src s =
     (if payload_buf_off (global_out_packet (affair s)) + 64 > length (payload_buf (global_out_packet (affair s)))
      then (mkernel_internal_mem_lack, s)
      else if length sign_src > ezdev_sdk_total_len then (mkernel_internal_input_param_invalid, s)
      else case sign_sha384 (la_master_key (affair s)) sign_src (lw s) of
        (Inl r, w1) \<Rightarrow> (r, s\<lparr>lw := w1\<rparr>)
      | (Inr mac, w1) \<Rightarrow> (mkernel_internal_succ, put_out mac (s\<lparr>lw := w1\<rparr>)))"

definition digital_sign_serialize_and_check_sha384 ::
  "byte list \<Rightarrow> u16 \<Rightarrow> byte list \<Rightarrow> lbs_run \<Rightarrow> mkernel_internal_error \<times> lbs_run" where
  "digital_sign_serialize_and_check_sha384 target_sign target_sign_len sign_src s =
     (if length sign_src > 128 then (mkernel_internal_input_param_invalid, s)
      else if target_sign_len \<noteq> 48 then (mkernel_internal_sign_check_error, s)
      else case sign_sha384 (la_master_key (affair s)) sign_src (lw s) of
        (Inl r, w1) \<Rightarrow> (r, s\<lparr>lw := w1\<rparr>)
      | (Inr mac, w1) \<Rightarrow>
          (if take 48 target_sign \<noteq> mac then mkernel_internal_hmac_compare_error else mkernel_internal_succ,
           s\<lparr>lw := w1\<rparr>))"

section \<open>The connection\<close>

definition net_read :: "nat \<Rightarrow> world \<Rightarrow> mkernel_internal_error \<times> byte list \<times> world" where
  "net_read n w = (case ask e_net_read w of (f, w1) \<Rightarrow> case f n of (r, bs) \<Rightarrow>
     (r, take n (bs @ replicate n 0), w1))"

definition net_write :: "byte list \<Rightarrow> world \<Rightarrow> mkernel_internal_error \<times> world" where
  "net_write bs w = ask e_net_write (act (Do_lbs_write bs) w)"

text \<open>The length of a packet, a byte at a time until one without the continuation bit: no bound.\<close>

partial_function (option) read_remain_len ::
  "u32 \<Rightarrow> u32 \<Rightarrow> world \<Rightarrow> (mkernel_internal_error \<times> u32 \<times> world) option" where
  "read_remain_len remain_len remain_mult w =
     (case net_read 1 w of (r, bs, w1) \<Rightarrow>
        if r \<noteq> mkernel_internal_succ then Some (r, remain_len, w1)
        else let byte_2 = hd bs; len = remain_len + ucast (byte_2 AND 0x7F) * remain_mult
             in if byte_2 AND 0x80 \<noteq> 0 then read_remain_len len (remain_mult * 128) w1
                else Some (mkernel_internal_succ, len, w1))"

text \<open>The command and the length of the next packet, its contents in the incoming buffer.\<close>

definition wait_assign_response :: "lbs_run \<Rightarrow> (mkernel_internal_error \<times> u32 \<times> u32 \<times> lbs_run) option" where
  "wait_assign_response s = (case net_read 1 (lw s) of (r, bs, w1) \<Rightarrow>
     if r \<noteq> mkernel_internal_succ then Some (r, 0, 0, s\<lparr>lw := w1\<rparr>)
     else
       let rev_cmd = ucast (drop_bit 4 (hd bs AND 0xF0))
       in case read_remain_len 0 1 w1 of None \<Rightarrow> None
         | Some (r2, remain_len, w2) \<Rightarrow>
             let p = global_in_packet (affair s)
             in if r2 \<noteq> mkernel_internal_succ then Some (r2, rev_cmd, remain_len, s\<lparr>lw := w2\<rparr>)
                else if unat remain_len > length (payload_buf p)
                then Some (mkernel_internal_mem_lack, rev_cmd, remain_len, s\<lparr>lw := w2\<rparr>)
                else case net_read (unat remain_len) w2 of (r3, data, w3) \<Rightarrow>
                  Some (r3, rev_cmd, remain_len,
                    upd_affair (\<lambda>a. a\<lparr>global_in_packet := p\<lparr>
                      payload_buf := data @ drop (unat remain_len) (payload_buf p)\<rparr>\<rparr>) (s\<lparr>lw := w3\<rparr>)))"

definition send_lbs_msg :: "lbs_run \<Rightarrow> mkernel_internal_error \<times> lbs_run" where
  "send_lbs_msg s =
     (let p = global_out_packet (affair s); head = (case head_buf p of None \<Rightarrow> [] | Some h \<Rightarrow> h)
      in case net_write (take (head_buf_off p) head) (lw s) of (r, w1) \<Rightarrow>
        if r \<noteq> mkernel_internal_succ then (r, s\<lparr>lw := w1\<rparr>)
        else case net_write (take (payload_buf_off p) (payload_buf p)) w1 of (r2, w2) \<Rightarrow> (r2, s\<lparr>lw := w2\<rparr>))"

text \<open>What the routines that wait for one certain packet do.\<close>

definition wait_for ::
  "u32 \<Rightarrow> (u32 \<Rightarrow> lbs_run \<Rightarrow> mkernel_internal_error \<times> lbs_run) \<Rightarrow> lbs_run \<Rightarrow>
   (mkernel_internal_error \<times> lbs_run) option" where
  "wait_for cmd parse s = (case wait_assign_response s of None \<Rightarrow> None
     | Some (r, rev_cmd, remain_len, s1) \<Rightarrow>
         Some (if r \<noteq> mkernel_internal_succ then (r, s1)
               else if rev_cmd \<noteq> cmd then (mkernel_internal_net_read_error_request, s1)
               else parse remain_len s1))"

section \<open>Properties of the length field\<close>

definition answer :: "nat \<Rightarrow> int \<times> byte list \<Rightarrow> mkernel_internal_error \<times> byte list" where
  "answer n x = (fst x, take n (snd x @ replicate n 0))"

lemma net_read_answer:
  "net_read n w = (fst (answer n (e_net_read (env w) (tick w) n)),
     snd (answer n (e_net_read (env w) (tick w) n)), w\<lparr>tick := Suc (tick w)\<rparr>)"
  by (simp add: net_read_def ask_def answer_def split_beta)

text \<open>An answer ends the length field: an error, or a byte without the continuation bit.\<close>

definition ends_length :: "int \<times> byte list \<Rightarrow> bool" where
  "ends_length x \<longleftrightarrow> fst x \<noteq> 0 \<or> hd (snd (answer 1 x)) AND 0x80 = 0"

lemma read_remain_len_step:
  "read_remain_len len mult w =
     (let x = e_net_read (env w) (tick w) 1; b = hd (snd (answer 1 x)); w1 = w\<lparr>tick := Suc (tick w)\<rparr>;
          len1 = len + ucast (b AND 0x7F) * mult
      in if fst x \<noteq> 0 then Some (fst x, len, w1)
         else if b AND 0x80 \<noteq> 0 then read_remain_len len1 (mult * 128) w1 else Some (mkernel_internal_succ, len1, w1))"
  by (subst read_remain_len.simps) (simp add: net_read_answer Let_def answer_def)

lemma read_remain_len_returns:
  "ends_length (e_net_read (env w) (tick w + i) 1) \<Longrightarrow> \<exists>y. read_remain_len len mult w = Some y"
proof (induction i arbitrary: len mult w)
  case 0
  then show ?case by (subst read_remain_len_step) (auto simp: ends_length_def Let_def)
next
  case (Suc i)
  have "ends_length (e_net_read (env (w\<lparr>tick := Suc (tick w)\<rparr>)) (tick (w\<lparr>tick := Suc (tick w)\<rparr>) + i) 1)"
    using Suc.prems by simp
  from Suc.IH [OF this] show ?case by (subst read_remain_len_step) (auto simp: Let_def)
qed

lemma read_remain_len_ends:
  assumes "read_remain_len len mult w = Some y"
  shows "\<exists>i. ends_length (e_net_read (env w) (tick w + i) 1)"
proof (rule read_remain_len.raw_induct [OF _ assms])
  fix f :: "u32 \<Rightarrow> u32 \<Rightarrow> world \<Rightarrow> _" and len mult :: u32 and w :: world and y
  let ?x = "e_net_read (env w) (tick w) 1"
  assume IH: "\<And>len mult w y. f len mult w = Some y \<Longrightarrow> \<exists>i. ends_length (e_net_read (env w) (tick w + i) 1)"
    and run: "(case net_read 1 w of (r, bs, w1) \<Rightarrow>
        if r \<noteq> mkernel_internal_succ then Some (r, len, w1)
        else let byte_2 = hd bs; len' = len + ucast (byte_2 AND 0x7F) * mult
             in if byte_2 AND 0x80 \<noteq> 0 then f len' (mult * 128) w1
                else Some (mkernel_internal_succ, len', w1)) = Some y"
  show "\<exists>i. ends_length (e_net_read (env w) (tick w + i) 1)"
  proof (cases "ends_length ?x")
    case True
    then show ?thesis by (intro exI [of _ 0]) simp
  next
    case False
    then have "f (len + ucast (hd (snd (answer 1 ?x)) AND 0x7F) * mult) (mult * 128) (w\<lparr>tick := Suc (tick w)\<rparr>) = Some y"
      using run by (simp add: net_read_answer ends_length_def Let_def) (simp add: answer_def)
    from IH [OF this] obtain i where "ends_length (e_net_read (env w) (tick w + Suc i) 1)" by auto
    then show ?thesis ..
  qed
qed

text \<open>
  Reading the length of a packet ends exactly if the connection fails or the server sends a
  byte without the continuation bit at some time.  There is no limit of four bytes: a server that
  keeps sending continuation bytes holds the caller for ever.
\<close>

theorem length_reader_returns_iff:
  "(\<exists>y. read_remain_len len mult w = Some y) \<longleftrightarrow> (\<exists>i. ends_length (e_net_read (env w) (tick w + i) 1))"
  using read_remain_len_returns read_remain_len_ends by blast

lemma and_7F_id:
  fixes b :: byte
  assumes "b < 128"
  shows "b AND 0x7F = b" "b AND 0x80 = 0"
proof -
  have t: "take_bit 7 b = b"
    using assms by (intro unsigned_word_eqI [where 'a = nat]) (simp add: take_bit_eq_mod unat_mod word_less_nat_alt)
  have "b AND mask 7 = b" using t by (simp add: take_bit_eq_mask)
  then show "b AND 0x7F = b" by (simp add: mask_eq_exp_minus_1)
  have "\<not> bit b 7" using t by (metis bit_take_bit_iff less_irrefl)
  then have "b AND 2 ^ 7 = 0" by (rule and_exp_eq_0_iff_not_bit [THEN iffD2])
  then show "b AND 0x80 = 0" by simp
qed

lemma continued_byte:
  fixes b :: byte
  assumes "b < 128"
  shows "(b OR 0x80) AND 0x7F = b" "(b OR 0x80) AND 0x80 \<noteq> 0"
proof -
  show "(b OR 0x80) AND 0x7F = b" using and_7F_id [OF assms] by (simp add: bit.conj_disj_distrib2)
  show "(b OR 0x80) AND 0x80 \<noteq> 0" by (simp add: bit.conj_disj_distrib2)
qed

text \<open>The connection hands over these bytes, one at a time.\<close>

definition feeds :: "byte list \<Rightarrow> world \<Rightarrow> bool" where
  "feeds bs w \<longleftrightarrow> (\<forall>i < length bs. e_net_read (env w) (tick w + i) 1 = (mkernel_internal_succ, [bs ! i]))"

lemma feeds_Cons:
  "feeds (b # bs) w \<longleftrightarrow> e_net_read (env w) (tick w) 1 = (mkernel_internal_succ, [b]) \<and>
     feeds bs (w\<lparr>tick := Suc (tick w)\<rparr>)"
  by (simp only: feeds_def length_Cons All_less_Suc2) simp

lemma read_remain_len_feed:
  assumes "e_net_read (env w) (tick w) 1 = (mkernel_internal_succ, [b])"
  shows "read_remain_len len mult w =
    (if b AND 0x80 \<noteq> 0 then read_remain_len (len + ucast (b AND 0x7F) * mult) (mult * 128) (w\<lparr>tick := Suc (tick w)\<rparr>)
     else Some (mkernel_internal_succ, len + ucast (b AND 0x7F) * mult, w\<lparr>tick := Suc (tick w)\<rparr>))"
  by (subst read_remain_len_step) (simp add: assms [unfolded One_nat_def] answer_def Let_def)

lemma mod_128_props:
  fixes n :: u32
  shows "(ucast (n mod 128) :: byte) < 128" "(ucast (ucast (n mod 128) :: byte) :: u32) = n mod 128"
proof -
  have m: "unat (n mod 128) < 128" by (simp add: unat_mod)
  then have u: "unat (ucast (n mod 128) :: byte) = unat (n mod 128)"
    by (simp add: unsigned_ucast_eq unsigned_take_bit_eq take_bit_nat_eq_self_iff)
  then show "(ucast (n mod 128) :: byte) < 128" using m by (simp add: word_less_nat_alt)
  show "(ucast (ucast (n mod 128) :: byte) :: u32) = n mod 128"
    using m by (intro unsigned_word_eqI [where 'a = nat]) (simp add: unsigned_ucast_eq unsigned_take_bit_eq u take_bit_nat_eq_self_iff)
qed

lemma read_remaining_bytes:
  assumes "unat n < 128 ^ (4 - k)" "k < 4" "feeds (remaining_bytes k n) w"
  shows "read_remain_len len mult w = Some (mkernel_internal_succ, len + n * mult,
    w\<lparr>tick := tick w + length (remaining_bytes k n)\<rparr>)"
  using assms
proof (induction k n arbitrary: len mult w rule: remaining_bytes.induct)
  case (1 k n)
  let ?b = "ucast (n mod 128) :: byte" and ?rest = "n div 128"
  note b = and_7F_id [OF mod_128_props(1)] continued_byte [OF mod_128_props(1)] mod_128_props(2)
  show ?case
  proof (cases "?rest > 0")
    case False
    then have z: "?rest = 0" by (simp add: word_gt_0)
    have "n = ?rest * 128 + n mod 128" by (rule div_mult_mod_eq [symmetric])
    then have n: "n mod 128 = n" using z by simp
    have rb: "remaining_bytes k n = [?b]" by (subst remaining_bytes.simps) (simp add: z)
    then have "e_net_read (env w) (tick w) 1 = (mkernel_internal_succ, [?b])"
      using "1.prems"(3) by (simp only: feeds_Cons)
    from read_remain_len_feed [OF this, of len mult]
    have "read_remain_len len mult w = Some (mkernel_internal_succ, len + n mod 128 * mult, w\<lparr>tick := Suc (tick w)\<rparr>)"
      by (simp only: b) simp
    then show ?thesis by (simp add: rb n)
  next
    case True
    have u: "unat ?rest = unat n div 128" by (simp add: unat_div)
    have "?rest \<noteq> 0" using True by (simp add: word_gt_0)
    then have "128 \<le> unat n" using u by (auto simp: word_unat_eq_iff)
    then have k: "k + 1 < 4" using "1.prems"(1,2) by (cases "k = 3") auto
    have s: "4 - k = Suc (4 - (k + 1))" using k by simp
    have lt: "unat ?rest < 128 ^ (4 - (k + 1))"
      unfolding u using "1.prems"(1) unfolding s power_Suc by (simp add: div_less_iff_less_mult mult.commute)
    have rb: "remaining_bytes k n = (?b OR 0x80) # remaining_bytes (k + 1) ?rest"
      using True k by (subst remaining_bytes.simps) (simp add: Let_def)
    then have r: "e_net_read (env w) (tick w) 1 = (mkernel_internal_succ, [?b OR 0x80])"
        "feeds (remaining_bytes (k + 1) ?rest) (w\<lparr>tick := Suc (tick w)\<rparr>)"
      using "1.prems"(3) by (simp_all only: feeds_Cons)
    have "len + n mod 128 * mult + ?rest * (mult * 128) = len + (?rest * 128 + n mod 128) * mult"
      by (simp add: algebra_simps)
    also have "?rest * 128 + n mod 128 = n" by (rule div_mult_mod_eq)
    finally have sum: "len + n mod 128 * mult + ?rest * (mult * 128) = len + n * mult" .
    have "read_remain_len len mult w = read_remain_len (len + n mod 128 * mult) (mult * 128) (w\<lparr>tick := Suc (tick w)\<rparr>)"
      using read_remain_len_feed [OF r(1), of len mult] by (simp add: b)
    also have "\<dots> = Some (mkernel_internal_succ, len + n * mult,
        w\<lparr>tick := tick w + length (remaining_bytes k n)\<rparr>)"
      using "1.IH" [OF refl refl True k lt k r(2), of "len + n mod 128 * mult" "mult * 128"] by (simp add: sum rb)
    finally show ?thesis .
  qed
qed

text \<open>
  C23: The length field the sender writes is the one the receiver reads, for every length below
  2^28, and exactly its bytes are consumed.
\<close>

theorem length_field_round_trip:
  assumes "unat n < 2 ^ 28" and "feeds (remaining_bytes 0 n) w"
  shows "read_remain_len 0 1 w =
    Some (mkernel_internal_succ, n, w\<lparr>tick := tick w + length (remaining_bytes 0 n)\<rparr>)"
  using read_remaining_bytes [of n 0 w 0 1] assms by simp

theorem length_field_round_trip_witness:
  "read_remain_len 0 1 (boot_world (calm_env\<lparr>e_net_read := \<lambda>t n. (0, [if t = 0 then 0xE5 else 0x0E])\<rparr>)) =
     Some (mkernel_internal_succ, 1893, (boot_world (calm_env\<lparr>e_net_read := \<lambda>t n. (0, [if t = 0 then 0xE5 else 0x0E])\<rparr>))
       \<lparr>tick := 2\<rparr>)"
proof -
  have rb: "remaining_bytes 0 1893 = [0xE5, 0x0E]" by code_simp
  let ?w = "boot_world (calm_env\<lparr>e_net_read := \<lambda>t n. (0, [if t = 0 then 0xE5 else 0x0E])\<rparr>)"
  have f: "feeds (remaining_bytes 0 1893) ?w"
    unfolding rb by (simp add: feeds_Cons) (simp add: feeds_def boot_world_def)
  show ?thesis using length_field_round_trip [OF _ f] by (simp add: rb) (simp add: boot_world_def)
qed

end
