(* ===== verification/Lbs.thy ===== *)
theory Lbs
  imports Lbs_Packet
begin

text \<open>
  The exchanges with the LBS server (second half of microkernel/src/lbs_transport.c): the packets
  one by one and the four routines that string them together.
\<close>

definition DEV_PROTOCOL_AUTHENTICATION_I :: u32 where "DEV_PROTOCOL_AUTHENTICATION_I = 0x1"
definition DEV_PROTOCOL_AUTHENTICATION_II :: u32 where "DEV_PROTOCOL_AUTHENTICATION_II = 0x2"
definition DEV_PROTOCOL_REFRESHSESSIONKEY_REQ :: u32 where "DEV_PROTOCOL_REFRESHSESSIONKEY_REQ = 0x4"
definition DEV_PROTOCOL_REFRESHSESSIONKEY_RSP :: u32 where "DEV_PROTOCOL_REFRESHSESSIONKEY_RSP = 0x6"
definition DEV_PROTOCOL_REQUEST_DEVID :: u32 where "DEV_PROTOCOL_REQUEST_DEVID = 0x7"
definition DEV_PROTOCOL_RESPONSE_DEVID :: u32 where "DEV_PROTOCOL_RESPONSE_DEVID = 0x8"
definition DEV_PROTOCOL_APPLY_DEVID_CFM :: u32 where "DEV_PROTOCOL_APPLY_DEVID_CFM = 0x9"
definition DEV_PROTOCOL_CRYPTO_DATA_REQ :: u32 where "DEV_PROTOCOL_CRYPTO_DATA_REQ = 0xA"
definition DEV_PROTOCOL_CRYPTO_DATA_RSP :: u32 where "DEV_PROTOCOL_CRYPTO_DATA_RSP = 0xB"
definition DEV_PROTOCOL_STUN_REFRESHSESSIONKEY_I :: u32 where "DEV_PROTOCOL_STUN_REFRESHSESSIONKEY_I = 0xC"
definition DEV_PROTOCOL_STUN_REFRESHSESSIONKEY_II :: u32 where "DEV_PROTOCOL_STUN_REFRESHSESSIONKEY_II = 0xD"
definition DEV_PROTOCOL_STUN_REFRESHSESSIONKEY_III :: u32 where "DEV_PROTOCOL_STUN_REFRESHSESSIONKEY_III = 0xE"

section \<open>Sending\<close>

definition authentication_i_serialize :: "lbs_run \<Rightarrow> mkernel_internal_error \<times> lbs_run" where
  "authentication_i_serialize s =
     (let serial = bytes_of (la_dev_subserial (affair s)); n = word_of_nat (length serial) :: byte;
          mode = (case la_dev_auth_mode (affair s) of sdk_dev_auth_sap \<Rightarrow> 0 | sdk_dev_auth_license \<Rightarrow> 1)
      in (mkernel_internal_succ, put_out (take (unat n) serial) (put_out [n] (put_out [mode] s))))"

text \<open>When the encryption fails its output buffer is lost.\<close>

definition aes_128_encrypt_pubkey ::
  "byte list \<Rightarrow> byte list \<Rightarrow> world \<Rightarrow> (mkernel_internal_error + byte list) \<times> world" where
  "aes_128_encrypt_pubkey share_key input w =
     (if input = [] then (Inl mkernel_internal_input_param_invalid, w)
      else
        let len = word_of_nat (length input); n = calculate_padding_len len
        in case w_malloc w of (ok, w1) \<Rightarrow>
          if \<not> ok then (Inl mkernel_internal_malloc_error, w1)
          else if unat n > ezdev_sdk_total_len then (Inr [], undefined_behaviour w1)
          else case aes_cbc_128_enc_padding (take 16 share_key)
                      (input @ replicate (ezdev_sdk_total_len - length input) 0) len n (replicate (unat n) 0) w1 of
            (r, _, out, _, w2) \<Rightarrow>
              if r \<noteq> mkernel_internal_succ then (Inl r, w2) else (Inr out, w_free w2))"

definition append_encrypt_data :: "byte list \<Rightarrow> lbs_run \<Rightarrow> mkernel_internal_error \<times> lbs_run" where
  "append_encrypt_data bs s = (mkernel_internal_succ, put_out bs s)"

definition send_pubkey :: "lbs_run \<Rightarrow> mkernel_internal_error \<times> lbs_run" where
  "send_pubkey s = (case generate_public_key (lw s) of
       (Inl r, w1) \<Rightarrow> (r, s\<lparr>lw := w1\<rparr>)
     | (Inr pubkey, w1) \<Rightarrow> (case aes_128_encrypt_pubkey (la_share_key (affair s)) pubkey w1 of
          (Inl r, w2) \<Rightarrow> (r, s\<lparr>lw := w2\<rparr>)
        | (Inr data, w2) \<Rightarrow> append_encrypt_data data (s\<lparr>lw := w2\<rparr>)))"

definition send_authentication_i :: "lbs_run \<Rightarrow> mkernel_internal_error \<times> lbs_run" where
  "send_authentication_i = run_steps
     [common_serialize DEV_PROTOCOL_LBS_FORM_VERSION DEV_PROTOCOL_LBS_LOW_TYPE_VERSION_LICENSE
        DEV_PROTOCOL_LBS_HIGH_TYPE_VERSION,
      authentication_i_serialize, send_pubkey, header_serialize DEV_PROTOCOL_AUTHENTICATION_I, send_lbs_msg]"

definition common_version :: "lbs_run \<Rightarrow> mkernel_internal_error \<times> lbs_run" where
  "common_version = common_serialize DEV_PROTOCOL_LBS_FORM_VERSION DEV_PROTOCOL_LBS_LOW_TYPE_VERSION
     DEV_PROTOCOL_LBS_HIGH_TYPE_VERSION"

text \<open>All routines but the first drop the result of sending.\<close>

definition send_anyway :: "lbs_run \<Rightarrow> mkernel_internal_error \<times> lbs_run" where
  "send_anyway s = (mkernel_internal_succ, snd (send_lbs_msg s))"

definition authentication_iii_serialize_serial_sha384 :: "lbs_run \<Rightarrow> mkernel_internal_error \<times> lbs_run" where
  "authentication_iii_serialize_serial_sha384 s =
     digital_sign_serialize_sha384 (bytes_of (la_dev_subserial (affair s))) s"

definition send_sessionkey_req_serialize :: "lbs_run \<Rightarrow> mkernel_internal_error \<times> lbs_run" where
  "send_sessionkey_req_serialize s =
     authentication_iii_serialize_serial_sha384
       (put_out (la_dev_id (affair s)) (put_out [word_of_nat ezdev_sdk_devid_len] s))"

definition send_update_sessionkey_req :: "lbs_run \<Rightarrow> mkernel_internal_error \<times> lbs_run" where
  "send_update_sessionkey_req = run_steps
     [common_version, send_sessionkey_req_serialize, header_serialize DEV_PROTOCOL_REFRESHSESSIONKEY_REQ, send_anyway]"

definition send_authentication_creat_dev_id :: "lbs_run \<Rightarrow> mkernel_internal_error \<times> lbs_run" where
  "send_authentication_creat_dev_id = run_steps
     [common_version, authentication_iii_serialize_serial_sha384, header_serialize DEV_PROTOCOL_REQUEST_DEVID,
      send_anyway]"

text \<open>A random number, encrypted with the master key in one block.\<close>

definition put_random :: "u8 \<Rightarrow> lbs_run \<Rightarrow> mkernel_internal_error \<times> lbs_run" where
  "put_random x s =
     (case aes_cbc_128_enc_padding (la_master_key (affair s)) (x # replicate 15 0) 1 16 (replicate 16 0) (lw s) of
        (r, _, out, len, w1) \<Rightarrow>
          if r \<noteq> mkernel_internal_succ then (r, s\<lparr>lw := w1\<rparr>)
          else (mkernel_internal_succ, put_out (take (case len of None \<Rightarrow> 0 | Some n \<Rightarrow> unat n) out) (s\<lparr>lw := w1\<rparr>)))"

definition refreshsessionkey_i_serialize :: "lbs_run \<Rightarrow> mkernel_internal_error \<times> lbs_run" where
  "refreshsessionkey_i_serialize s =
     (let a = affair s; serial = bytes_of (la_dev_subserial a); n = word_of_nat (length serial) :: byte
      in put_random (la_random_1 a)
           (put_out (la_dev_id a) (put_out [word_of_nat ezdev_sdk_devid_len]
             (put_out (take (unat n) serial) (put_out [n] s)))))"

definition send_refreshsessionkey_i :: "lbs_run \<Rightarrow> mkernel_internal_error \<times> lbs_run" where
  "send_refreshsessionkey_i = run_steps
     [common_version, refreshsessionkey_i_serialize, header_serialize_old DEV_PROTOCOL_REQUEST_DEVID, send_anyway]"

definition send_stun_refreshsessionkey_i :: "lbs_run \<Rightarrow> mkernel_internal_error \<times> lbs_run" where
  "send_stun_refreshsessionkey_i = run_steps
     [common_version, refreshsessionkey_i_serialize, header_serialize_old DEV_PROTOCOL_STUN_REFRESHSESSIONKEY_I,
      send_anyway]"

definition refreshsessionkey_iii_serialize :: "lbs_run \<Rightarrow> mkernel_internal_error \<times> lbs_run" where
  "refreshsessionkey_iii_serialize s = put_random (la_random_2 (affair s)) s"

definition send_refreshsessionkey_iii :: "lbs_run \<Rightarrow> mkernel_internal_error \<times> lbs_run" where
  "send_refreshsessionkey_iii = run_steps
     [common_version, refreshsessionkey_iii_serialize, header_serialize_old DEV_PROTOCOL_APPLY_DEVID_CFM, send_anyway]"

definition send_stun_refreshsessionkey_iii :: "lbs_run \<Rightarrow> mkernel_internal_error \<times> lbs_run" where
  "send_stun_refreshsessionkey_iii = run_steps
     [common_version, refreshsessionkey_iii_serialize, header_serialize_old DEV_PROTOCOL_STUN_REFRESHSESSIONKEY_III,
      send_anyway]"

text \<open>
  The question for a server.  A text too long for the printer's buffer is copied to one of its
  own; without memory for that one the text is lost.
\<close>

definition ezdev_sdk_json_default_size :: nat where "ezdev_sdk_json_default_size = 1024"

definition crypto_data_req :: "bscJSON \<Rightarrow> lbs_run \<Rightarrow> mkernel_internal_error \<times> lbs_run" where
  "crypto_data_req root s = (case print_json root (lw s) of
       (Inl r, w1) \<Rightarrow> (r, s\<lparr>lw := w1\<rparr>)
     | (Inr json, w1) \<Rightarrow>
         let len = word_of_nat (length json); n = calculate_padding_len len;
             own = \<not> unat n < ezdev_sdk_json_default_size;
             buf = json @ replicate ((if own then unat n else ezdev_sdk_json_default_size) - length json) 0
         in case (if own then w_malloc w1 else (True, w1)) of (ok1, w2) \<Rightarrow>
           if \<not> ok1 then (mkernel_internal_malloc_error, s\<lparr>lw := w2\<rparr>)
           else let w3 = (if own then w_free w2 else w2) in case w_malloc w3 of (ok2, w4) \<Rightarrow>
             if \<not> ok2 then (mkernel_internal_malloc_error, s\<lparr>lw := w_free w4\<rparr>)
             else case aes_cbc_128_enc_padding (la_session_key (affair s)) buf len n (replicate (unat n) 0) w4 of
               (r, _, out, olen, w5) \<Rightarrow>
                 if r \<noteq> mkernel_internal_succ then (r, s\<lparr>lw := w_free (w_free w5)\<rparr>)
                 else (mkernel_internal_succ, upd_lw (w_free \<circ> w_free)
                   (put_out (take (case olen of None \<Rightarrow> 0 | Some k \<Rightarrow> unat k) out) (s\<lparr>lw := w5\<rparr>))))"

definition crypto_data_req_das_serialize :: "lbs_run \<Rightarrow> mkernel_internal_error \<times> lbs_run" where
  "crypto_data_req_das_serialize s = crypto_data_req (JObject
     [(''DevSerial'', JString (la_dev_subserial (affair s))), (''Type'', JString ''DAS''),
      (''Mode'', json_number (uint (la_dev_access_mode (affair s))))]) s"

definition crypto_data_req_stun_serialize :: "lbs_run \<Rightarrow> mkernel_internal_error \<times> lbs_run" where
  "crypto_data_req_stun_serialize s = crypto_data_req (JObject
     [(''DevSerial'', JString (la_dev_subserial (affair s))), (''Type'', JString ''STUN'')]) s"

definition send_crypto_data_req :: "u8 \<Rightarrow> lbs_run \<Rightarrow> mkernel_internal_error \<times> lbs_run" where
  "send_crypto_data_req server_type = run_steps
     [common_version, if server_type = 0 then crypto_data_req_stun_serialize else crypto_data_req_das_serialize,
      header_serialize_old DEV_PROTOCOL_CRYPTO_DATA_REQ, send_anyway]"

section \<open>Receiving\<close>

text \<open>The offset into the incoming packet moves on; the next byte, and what is left.\<close>

definition skip_in :: "nat \<Rightarrow> lbs_run \<Rightarrow> lbs_run" where
  "skip_in n = upd_affair (\<lambda>a. a\<lparr>global_in_packet := (global_in_packet a)
     \<lparr>payload_buf_off := payload_buf_off (global_in_packet a) + n\<rparr>\<rparr>)"

definition in_rest :: "lbs_run \<Rightarrow> byte list" where
  "in_rest s = drop (payload_buf_off (global_in_packet (affair s))) (payload_buf (global_in_packet (affair s)))"

definition in_left :: "u32 \<Rightarrow> lbs_run \<Rightarrow> u32" where
  "in_left remain_len s = remain_len - word_of_nat (payload_buf_off (global_in_packet (affair s)))"

text \<open>
  Every answer starts with three bytes of version and a result code, which is signed; the codes
  other than zero become errors of the platform.
\<close>

definition in_result :: "(lbs_run \<Rightarrow> mkernel_internal_error \<times> lbs_run) \<Rightarrow> lbs_run \<Rightarrow> mkernel_internal_error \<times> lbs_run" where
  "in_result rest s =
     (let s1 = skip_in 3 s; result_code = sint (hd (in_rest s1)); s2 = skip_in 1 s1
      in if result_code \<noteq> 0 then (mkernel_internal_platform_error + result_code, s2) else rest s2)"

text \<open>
  The server's public key is decrypted into an array of 128 bytes; its length comes from the
  packet, cut to a byte.  \<open>overrun\<close>: the decryption wrote \<open>n\<close> bytes into an array of \<open>m\<close>.
\<close>

definition overrun :: "u32 \<Rightarrow> nat \<Rightarrow> mkernel_internal_error \<Rightarrow> world \<Rightarrow> world" where
  "overrun n m r w = (if m < unat n \<and> r \<noteq> mkernel_internal_aes_input_len \<and>
     r \<noteq> mkernel_internal_casll_mbedtls_setdeckey_error then undefined_behaviour w else w)"

definition aes_128_decrypt_peer_pubkey ::
  "u32 \<Rightarrow> lbs_run \<Rightarrow> (mkernel_internal_error + byte list \<times> u32) \<times> lbs_run" where
  "aes_128_decrypt_peer_pubkey remain_len s =
     (if remain_len = 0 then (Inl mkernel_internal_input_param_invalid, s)
      else
        let n = ucast (ucast (in_left remain_len s) :: byte) :: u32
        in case aes_cbc_128_dec_padding (take 16 (la_share_key (affair s))) (in_rest s) n
                  (replicate ezdev_sdk_total_len 0) (lw s) of
          (r, out, len, w1) \<Rightarrow>
            let s1 = s\<lparr>lw := overrun n ezdev_sdk_total_len r w1\<rparr>
            in if r \<noteq> mkernel_internal_succ then (Inl r, s1)
               else (Inr (out, case len of None \<Rightarrow> 0 | Some k \<Rightarrow> k), s1))"

definition parse_authentication_ii :: "u32 \<Rightarrow> lbs_run \<Rightarrow> mkernel_internal_error \<times> lbs_run" where
  "parse_authentication_ii remain_len = in_result (\<lambda>s.
     case aes_128_decrypt_peer_pubkey remain_len s of
       (Inl r, s1) \<Rightarrow> (r, s1)
     | (Inr (peer, n), s1) \<Rightarrow> (case generate_master_key peer n (lw s1) of
         (Inl r, w2) \<Rightarrow> (r, s1\<lparr>lw := w2\<rparr>)
       | (Inr key, w2) \<Rightarrow>
           (mkernel_internal_succ, upd_affair (\<lambda>a. a\<lparr>la_master_key := hexdump True (take 8 (e_md5 (env w2) key))\<rparr>)
             (s1\<lparr>lw := if length key > 48 then undefined_behaviour w2 else w2\<rparr>))))"

definition wait_authentication_ii :: "lbs_run \<Rightarrow> (mkernel_internal_error \<times> lbs_run) option" where
  "wait_authentication_ii = wait_for DEV_PROTOCOL_AUTHENTICATION_II parse_authentication_ii"

text \<open>
  A field of an answer: its length, which must be \<open>n\<close>, and that many bytes, which are decrypted
  into an array of \<open>m\<close> bytes and must give a text of \<open>m\<close>.  Both fields of the answer are longer
  than their arrays, so the decryption writes past them.
\<close>

definition in_field :: "byte \<Rightarrow> u32 \<Rightarrow> lbs_run \<Rightarrow> (mkernel_internal_error + byte list) \<times> lbs_run" where
  "in_field n m s =
     (let s1 = skip_in 1 s
      in if hd (in_rest s) \<noteq> n then (Inl mkernel_internal_platform_appoint_error, s1)
         else case aes_cbc_128_dec_padding (la_master_key (affair s1)) (in_rest s1) (ucast n)
                     (replicate (unat m) 0) (lw s1) of
           (r, out, len, w1) \<Rightarrow>
             let s2 = s1\<lparr>lw := overrun (ucast n) (unat m) r w1\<rparr>
             in if r \<noteq> mkernel_internal_succ then (Inl r, s2)
                else if len \<noteq> Some m then (Inl mkernel_internal_platform_appoint_error, s2)
                else (Inr (take (unat m) out), skip_in (unat n) s2))"

definition parse_authentication_create_dev_id :: "u32 \<Rightarrow> lbs_run \<Rightarrow> mkernel_internal_error \<times> lbs_run" where
  "parse_authentication_create_dev_id remain_len = in_result (\<lambda>s.
     case in_field 48 32 s of
       (Inl r, s1) \<Rightarrow> (r, s1)
     | (Inr did, s1) \<Rightarrow> (case in_field 32 16 (upd_affair (\<lambda>a. a\<lparr>la_dev_id := did\<rparr>) s1) of
         (Inl r, s2) \<Rightarrow> (r, s2)
       | (Inr skey, s2) \<Rightarrow>
           let s3 = upd_affair (\<lambda>a. a\<lparr>la_session_key := skey\<rparr>) s2
           in digital_sign_serialize_and_check_sha384 (in_rest s3) (ucast (in_left remain_len s3))
                (bytes_of (la_dev_subserial (affair s3))) s3))"

definition wait_update_sessionkey_rsp :: "lbs_run \<Rightarrow> (mkernel_internal_error \<times> lbs_run) option" where
  "wait_update_sessionkey_rsp = wait_for DEV_PROTOCOL_REFRESHSESSIONKEY_RSP parse_authentication_create_dev_id"

definition wait_authentication_creat_dev_id :: "lbs_run \<Rightarrow> (mkernel_internal_error \<times> lbs_run) option" where
  "wait_authentication_creat_dev_id = wait_for DEV_PROTOCOL_RESPONSE_DEVID parse_authentication_create_dev_id"

text \<open>The answer must return the first random number; it brings the second and the session key.\<close>

definition parse_refreshsessionkey_ii :: "u32 \<Rightarrow> lbs_run \<Rightarrow> mkernel_internal_error \<times> lbs_run" where
  "parse_refreshsessionkey_ii remain_len = in_result (\<lambda>s.
     let n = ucast (in_left remain_len s) :: byte
     in if n \<noteq> 32 then (mkernel_internal_platform_appoint_error, s)
        else case aes_cbc_128_dec_padding (la_master_key (affair s)) (in_rest s) (ucast n) (replicate 32 0) (lw s) of
          (r, out, _, w1) \<Rightarrow>
            if r \<noteq> mkernel_internal_succ then (r, s\<lparr>lw := w1\<rparr>)
            else
              let s1 = skip_in (unat n) (s\<lparr>lw := w1\<rparr>)
              in if out ! 0 \<noteq> la_random_1 (affair s) then (mkernel_internal_random1_check_error, s1)
                 else (mkernel_internal_succ, upd_affair (\<lambda>a. a\<lparr>la_random_2 := out ! 1,
                   la_session_key := take ezdev_sdk_sessionkey_len (drop 2 out)\<rparr>) s1))"

definition wait_refreshsessionkey_ii :: "lbs_run \<Rightarrow> (mkernel_internal_error \<times> lbs_run) option" where
  "wait_refreshsessionkey_ii = wait_for DEV_PROTOCOL_RESPONSE_DEVID parse_refreshsessionkey_ii"

definition wait_stun_refreshsessionkey_ii :: "lbs_run \<Rightarrow> (mkernel_internal_error \<times> lbs_run) option" where
  "wait_stun_refreshsessionkey_ii = wait_for DEV_PROTOCOL_STUN_REFRESHSESSIONKEY_II parse_refreshsessionkey_ii"

text \<open>The answer about a server, decrypted to a block of its own and read by \<open>parse\<close>.\<close>

definition crypto_data_rsp ::
  "(string \<Rightarrow> lbs_run \<Rightarrow> mkernel_internal_error \<times> lbs_run) \<Rightarrow> u32 \<Rightarrow> lbs_run \<Rightarrow> mkernel_internal_error \<times> lbs_run" where
  "crypto_data_rsp parse remain_len = in_result (\<lambda>s.
     let n = in_left remain_len s
     in case w_malloc (lw s) of (ok, w1) \<Rightarrow>
       if \<not> ok then (mkernel_internal_malloc_error, s\<lparr>lw := w1\<rparr>)
       else case aes_cbc_128_dec_padding (la_session_key (affair s)) (in_rest s) n (replicate (unat n) 0) w1 of
         (r, de_dst, _, w2) \<Rightarrow>
           if r \<noteq> mkernel_internal_succ then (r, s\<lparr>lw := w_free w2\<rparr>)
           else (case parse (c_str (text_of de_dst)) (s\<lparr>lw := w2\<rparr>) of (r2, s2) \<Rightarrow> (r2, upd_lw w_free s2)))"

definition parse_crypto_data_rsp_das :: "u32 \<Rightarrow> lbs_run \<Rightarrow> mkernel_internal_error \<times> lbs_run" where
  "parse_crypto_data_rsp_das = crypto_data_rsp (\<lambda>json s.
     case json_parse_das_server_info (e_json_parse (env (lw s))) json (revc_das_info s) of
       None \<Rightarrow> (mkernel_internal_succ, upd_lw undefined_behaviour s)
     | Some (r, i) \<Rightarrow> (r, s\<lparr>revc_das_info := i\<rparr>))"

definition parse_crypto_data_rsp_stun :: "u32 \<Rightarrow> lbs_run \<Rightarrow> mkernel_internal_error \<times> lbs_run" where
  "parse_crypto_data_rsp_stun = crypto_data_rsp (\<lambda>json s.
     case json_parse_stun_server_info (e_json_parse (env (lw s))) json (revc_stun_info s) of
       (r, i) \<Rightarrow> (r, s\<lparr>revc_stun_info := i\<rparr>))"

definition wait_crypto_data_rsp_das :: "lbs_run \<Rightarrow> (mkernel_internal_error \<times> lbs_run) option" where
  "wait_crypto_data_rsp_das = wait_for DEV_PROTOCOL_CRYPTO_DATA_RSP parse_crypto_data_rsp_das"

definition wait_crypto_data_rsp_stun :: "lbs_run \<Rightarrow> (mkernel_internal_error \<times> lbs_run) option" where
  "wait_crypto_data_rsp_stun = wait_for DEV_PROTOCOL_CRYPTO_DATA_RSP parse_crypto_data_rsp_stun"

section \<open>The connection\<close>

definition set_server_ip :: "string \<Rightarrow> world \<Rightarrow> world" where
  "set_server_ip ip w = w\<lparr>g_ezdev_sdk_kernel := (g_ezdev_sdk_kernel w)
     \<lparr>server_info := (server_info (g_ezdev_sdk_kernel w))\<lparr>server_ip := strncpy0 (ezdev_sdk_ip_max_len - 1) ip\<rparr>\<rparr>\<rparr>"

definition net_create :: "lbs_run \<Rightarrow> mkernel_internal_error \<times> lbs_run" where
  "net_create s = (case ask e_net_create (lw s) of (ok, w1) \<Rightarrow>
     (if ok then mkernel_internal_succ else mkernel_internal_net_connect_error,
      upd_affair (\<lambda>a. a\<lparr>lbs_net_work := ok\<rparr>) (s\<lparr>lw := w1\<rparr>)))"

definition net_connect :: "string \<Rightarrow> lbs_run \<Rightarrow> mkernel_internal_error \<times> lbs_run" where
  "net_connect host s = (case ask e_lbs_connect (act (Do_lbs_connect host) (lw s)) of ((r, ip), w1) \<Rightarrow>
     (r, s\<lparr>lw := if r = mkernel_internal_succ then set_server_ip ip w1 else w1\<rparr>))"

definition lbs_close :: "lbs_run \<Rightarrow> lbs_run" where
  "lbs_close s = (if lbs_net_work (affair s)
     then upd_affair (\<lambda>a. a\<lparr>lbs_net_work := False\<rparr>) (upd_lw (act Do_lbs_close) s) else s)"

text \<open>The server by its name, then by the address it had last time.\<close>

definition lbs_connect :: "lbs_run \<Rightarrow> mkernel_internal_error \<times> lbs_run" where
  "lbs_connect s =
     (let info = server_info (g_ezdev_sdk_kernel (lw s)) in case net_create s of (r0, s0) \<Rightarrow>
        if r0 \<noteq> mkernel_internal_succ then (r0, s0)
        else case net_connect (server_name info) s0 of (r, s1) \<Rightarrow>
          if r = mkernel_internal_succ then (r, s1)
          else case net_create (lbs_close s1) of (r2, s2) \<Rightarrow>
            if r2 \<noteq> mkernel_internal_succ then (r2, s2)
            else if server_ip info = '''' then (r, s2)
            else case net_connect (server_ip info) s2 of (r3, s3) \<Rightarrow>
              (if r3 = mkernel_internal_succ \<or> r3 = mkernel_internal_net_gethostbyname_error then r3
               else mkernel_internal_net_connect_error, s3))"

section \<open>The exchanges\<close>

definition take_keys :: "lbs_run \<Rightarrow> lbs_run" where
  "take_keys s = (let a = affair s in upd_lw (upd_kernel (\<lambda>k. k\<lparr>dev_id := la_dev_id a,
     master_key := la_master_key a, session_key := la_session_key a\<rparr>)) s)"

definition save_key_value :: "lbs_run \<Rightarrow> lbs_run" where
  "save_key_value s = (let a = affair s in
     upd_lw (act (Do_key_value_save sdk_keyvalue_masterkey (la_master_key a)) \<circ>
             act (Do_key_value_save sdk_keyvalue_devid (la_dev_id a))) (take_keys s))"

definition save_das_info :: "lbs_run \<Rightarrow> lbs_run" where
  "save_das_info s = upd_lw (upd_kernel (\<lambda>k. k\<lparr>redirect_das_info := revc_das_info s\<rparr>)) s"

definition zero_stun_info :: stun_info where
  "zero_stun_info = \<lparr>stun_interval = 0, stun1_port = 0, stun2_port = 0, stun1_address = '''',
     stun1_domain = '''', stun2_address = '''', stun2_domain = ''''\<rparr>"

definition start_run :: "world \<Rightarrow> lbs_run" where
  "start_run w = \<lparr>affair = zero_affair, revc_das_info = zero_das_info, revc_stun_info = zero_stun_info, lw = w\<rparr>"

definition fini_run :: "lbs_run \<Rightarrow> lbs_run" where
  "fini_run s = fini_lbs_affair (lbs_close s)"

text \<open>A step that returns, and one that cannot fail, as steps that may wait.\<close>

definition step :: "(lbs_run \<Rightarrow> mkernel_internal_error \<times> lbs_run) \<Rightarrow> lbs_run \<Rightarrow> (mkernel_internal_error \<times> lbs_run) option" where
  "step f s = Some (f s)"

definition just :: "(lbs_run \<Rightarrow> lbs_run) \<Rightarrow> lbs_run \<Rightarrow> (mkernel_internal_error \<times> lbs_run) option" where
  "just f s = Some (mkernel_internal_succ, f s)"

definition finish :: "(lbs_run \<Rightarrow> lbs_run) \<Rightarrow> (mkernel_internal_error \<times> lbs_run) option \<Rightarrow> (mkernel_internal_error \<times> lbs_run) option" where
  "finish f = map_option (\<lambda>(r, s). (r, f s))"

definition lbs_redirect_with_auth :: "u8 \<Rightarrow> world \<Rightarrow> (mkernel_internal_error \<times> world) option" where
  "lbs_redirect_with_auth nUpper w = map_option (\<lambda>(r, s). (r, lw s)) (finish fini_run (run_waits
     [step (init_lbs_affair nUpper), step lbs_connect, step send_authentication_i, wait_authentication_ii,
      just clear_lbs_affair_buf, step send_update_sessionkey_req, wait_update_sessionkey_rsp,
      just clear_lbs_affair_buf, step (send_crypto_data_req 1), wait_crypto_data_rsp_das,
      just save_key_value, just save_das_info] (start_run w)))"

definition lbs_redirect_createdevid_with_auth :: "u8 \<Rightarrow> world \<Rightarrow> (mkernel_internal_error \<times> world) option" where
  "lbs_redirect_createdevid_with_auth nUpper w = map_option (\<lambda>(r, s). (r, lw s)) (finish fini_run (run_waits
     [step (init_lbs_affair nUpper), step lbs_connect, step send_authentication_i, wait_authentication_ii,
      just clear_lbs_affair_buf, step send_authentication_creat_dev_id, wait_authentication_creat_dev_id,
      just clear_lbs_affair_buf, step (send_crypto_data_req 1), wait_crypto_data_rsp_das,
      just save_key_value, just save_das_info] (start_run w)))"

definition lbs_redirect :: "world \<Rightarrow> (mkernel_internal_error \<times> world) option" where
  "lbs_redirect w = map_option (\<lambda>(r, s). (r, lw s)) (finish fini_run (run_waits
     [step (init_lbs_affair 1), step lbs_connect, step send_refreshsessionkey_i, wait_refreshsessionkey_ii,
      just clear_lbs_affair_buf, step send_refreshsessionkey_iii,
      just clear_lbs_affair_buf, step (send_crypto_data_req 1), wait_crypto_data_rsp_das,
      just take_keys, just save_das_info] (start_run w)))"

definition lbs_getstun :: "stun_info \<Rightarrow> world \<Rightarrow> (mkernel_internal_error \<times> stun_info \<times> world) option" where
  "lbs_getstun i w = map_option (\<lambda>(r, s). (r, revc_stun_info s, lw s)) (finish (fini_lbs_affair_v2 \<circ> lbs_close)
     (run_waits
       [just (init_lbs_affair_v2 1), step lbs_connect, step send_stun_refreshsessionkey_i,
        wait_stun_refreshsessionkey_ii, just clear_lbs_affair_buf_v2, step send_stun_refreshsessionkey_iii,
        just clear_lbs_affair_buf_v2, step (send_crypto_data_req 0), wait_crypto_data_rsp_stun]
       ((start_run w)\<lparr>revc_stun_info := i\<rparr>)))"

end
