(* ===== verification/Lbs_Frame.thy ===== *)
theory Lbs_Frame
  imports Lbs
begin

text \<open>
  What the exchanges with the LBS server leave alone, and when they change the kernel object.
\<close>

section \<open>The frame\<close>

text \<open>
  The state without what every call may change: the heap, the clock, the trace, the fault flag
  and the cached address of the server.
\<close>

definition norm :: "world \<Rightarrow> world" where
  "norm w = w\<lparr>heap := \<lparr>m_ok = (\<lambda>_. True), m_calls = 0, live = 0\<rparr>, tick := 0, trace := [], fault := False,
     g_ezdev_sdk_kernel := (g_ezdev_sdk_kernel w)
       \<lparr>server_info := (server_info (g_ezdev_sdk_kernel w))\<lparr>server_ip := ''''\<rparr>\<rparr>\<rparr>"

lemma norm_simps [simp]:
  "norm (w\<lparr>heap := h\<rparr>) = norm w" "norm (w\<lparr>tick := t\<rparr>) = norm w" "norm (w\<lparr>trace := tr\<rparr>) = norm w"
  "norm (w\<lparr>fault := b\<rparr>) = norm w" "norm (set_server_ip ip w) = norm w"
  "norm (w_free w) = norm w" "norm (w_free_opt p w) = norm w" "norm (act a w) = norm w"
  "norm (undefined_behaviour w) = norm w" "norm (lib_alloc w) = norm w"
  by (simp_all add: norm_def set_server_ip_def w_free_def w_free_opt_def act_def undefined_behaviour_def lib_alloc_def)

lemma fault_simps [simp]:
  "fault (set_server_ip ip w) = fault w" "fault (lib_alloc w) = fault w" "fault (act a w) = fault w"
  "fault (undefined_behaviour w) = True"
  by (simp_all add: set_server_ip_def lib_alloc_def act_def undefined_behaviour_def)

text \<open>A step that keeps the frame and forgets no undefined behaviour.\<close>

definition wkeeps :: "world \<Rightarrow> world \<Rightarrow> bool" where
  "wkeeps w w' \<longleftrightarrow> norm w' = norm w \<and> (fault w \<longrightarrow> fault w')"

definition keeps :: "lbs_run \<Rightarrow> lbs_run \<Rightarrow> bool" where
  "keeps s s' \<longleftrightarrow> wkeeps (lw s) (lw s')"

lemma wkeeps_refl [simp]: "wkeeps w w"
  by (simp add: wkeeps_def)

lemma wkeeps_trans: "wkeeps w1 w2 \<Longrightarrow> wkeeps w2 w3 \<Longrightarrow> wkeeps w1 w3"
  by (simp add: wkeeps_def)

lemma wkeeps_simps [simp]:
  "wkeeps w (w'\<lparr>heap := h\<rparr>) = wkeeps w w'" "wkeeps w (w'\<lparr>tick := t\<rparr>) = wkeeps w w'"
  "wkeeps w (set_server_ip ip w') = wkeeps w w'" "wkeeps w (w_free w') = wkeeps w w'"
  "wkeeps w (w_free_opt p w') = wkeeps w w'" "wkeeps w (act a w') = wkeeps w w'"
  "wkeeps w (lib_alloc w') = wkeeps w w'"
  by (simp_all add: wkeeps_def)

lemma wkeeps_fault [intro!]: "wkeeps w w' \<Longrightarrow> wkeeps w (undefined_behaviour w')"
  by (simp add: wkeeps_def)

lemma wkeeps_malloc: "w_malloc w1 = (ok, w2) \<Longrightarrow> wkeeps w w1 \<Longrightarrow> wkeeps w w2"
  by (auto simp: w_malloc_def split: prod.splits)

lemma wkeeps_enc: "aes_cbc_128_enc_padding k b l n out w1 = (r, b', out', l', w2) \<Longrightarrow> wkeeps w w1 \<Longrightarrow> wkeeps w w2"
  by (auto simp: aes_cbc_128_enc_padding_def ask_def Let_def split: if_splits)

lemma wkeeps_dec: "aes_cbc_128_dec_padding k b n out w1 = (r, out', l, w2) \<Longrightarrow> wkeeps w w1 \<Longrightarrow> wkeeps w w2"
  by (auto simp: aes_cbc_128_dec_padding_def ask_def Let_def split: if_splits)

lemma wkeeps_print: "print_json j w1 = (x, w2) \<Longrightarrow> wkeeps w w1 \<Longrightarrow> wkeeps w w2"
  by (auto simp: print_json_def json_print_def ask_def split: if_splits)

lemma wkeeps_sign: "sign_sha384 k b w1 = (x, w2) \<Longrightarrow> wkeeps w w1 \<Longrightarrow> wkeeps w w2"
  by (auto simp: sign_sha384_def ask_def split: if_splits)

lemma wkeeps_pubkey: "generate_public_key w1 = (x, w2) \<Longrightarrow> wkeeps w w1 \<Longrightarrow> wkeeps w w2"
  by (auto simp: generate_public_key_def ask_def split: if_splits prod.splits)

lemma wkeeps_master: "generate_master_key p n w1 = (x, w2) \<Longrightarrow> wkeeps w w1 \<Longrightarrow> wkeeps w w2"
  by (auto simp: generate_master_key_def ask_def split: if_splits prod.splits)

lemma wkeeps_encrypt: "aes_128_encrypt_pubkey k b w1 = (x, w2) \<Longrightarrow> wkeeps w w1 \<Longrightarrow> wkeeps w w2"
  by (auto simp: aes_128_encrypt_pubkey_def Let_def split: if_splits prod.splits elim!: wkeeps_malloc wkeeps_enc)

lemma wkeeps_read: "net_read n w1 = (r, bs, w2) \<Longrightarrow> wkeeps w w1 \<Longrightarrow> wkeeps w w2"
  by (auto simp: net_read_def ask_def split: prod.splits)

lemma wkeeps_write: "net_write bs w1 = (r, w2) \<Longrightarrow> wkeeps w w1 \<Longrightarrow> wkeeps w w2"
  by (auto simp: net_write_def ask_def)

lemma wkeeps_overrun [intro!]: "wkeeps w w1 \<Longrightarrow> wkeeps w (overrun n m r w1)"
  by (auto simp: overrun_def)

lemmas wkeeps_elims = wkeeps_malloc wkeeps_enc wkeeps_dec wkeeps_print wkeeps_sign wkeeps_pubkey wkeeps_master
  wkeeps_encrypt wkeeps_read wkeeps_write

section \<open>The steps\<close>

lemma keeps_refl [simp]: "keeps s s"
  by (simp add: keeps_def)

lemma keeps_trans: "keeps s1 s2 \<Longrightarrow> keeps s2 s3 \<Longrightarrow> keeps s1 s3"
  unfolding keeps_def by (rule wkeeps_trans)

lemma keeps_simps [simp]:
  "keeps s (upd_affair f s') = keeps s s'" "keeps s (s'\<lparr>lw := w\<rparr>) = wkeeps (lw s) w"
  "keeps s (s'\<lparr>revc_das_info := i\<rparr>) = keeps s s'" "keeps s (s'\<lparr>revc_stun_info := j\<rparr>) = keeps s s'"
  "keeps s (skip_in n s') = keeps s s'"
  by (simp_all add: keeps_def upd_affair_def skip_in_def)

lemma keeps_lw: "keeps s s' \<Longrightarrow> wkeeps (lw s) (lw s')"
  by (simp add: keeps_def)

lemma keeps_put_out [intro!]: "keeps s s' \<Longrightarrow> keeps s (put_out bs s')"
  by (auto simp: put_out_def Let_def upd_lw_def keeps_lw)

definition keeper :: "(lbs_run \<Rightarrow> mkernel_internal_error \<times> lbs_run) \<Rightarrow> bool" where
  "keeper f \<longleftrightarrow> (\<forall>s. keeps s (snd (f s)))"

definition wait_keeper :: "(lbs_run \<Rightarrow> (mkernel_internal_error \<times> lbs_run) option) \<Rightarrow> bool" where
  "wait_keeper f \<longleftrightarrow> (\<forall>s r s'. f s = Some (r, s') \<longrightarrow> keeps s s')"

lemma keeper_run: "list_all keeper fs \<Longrightarrow> keeper (run_steps fs)"
proof (induction fs)
  case (Cons f fs)
  then have f: "keeps s (snd (f s))" "keeps s (snd (run_steps fs s))" for s by (simp_all add: keeper_def)
  show ?case
    unfolding keeper_def
  proof
    fix s
    show "keeps s (snd (run_steps (f # fs) s))"
      using f(1) [of s] f(2) [of "snd (f s)"] by (auto split: prod.split intro: keeps_trans)
  qed
qed (simp add: keeper_def)

lemma wait_keeper_run: "list_all wait_keeper fs \<Longrightarrow> wait_keeper (run_waits fs)"
proof (induction fs)
  case (Cons f fs)
  then have f: "wait_keeper f" "wait_keeper (run_waits fs)" by simp_all
  show ?case
    unfolding wait_keeper_def
    using f by (auto simp: wait_keeper_def split: option.splits prod.splits if_splits) (blast intro: keeps_trans)
qed (simp add: wait_keeper_def)

lemma keeps_upd_lw: "wkeeps (lw s') (f (lw s')) \<Longrightarrow> keeps s s' \<Longrightarrow> keeps s (upd_lw f s')"
  by (simp add: keeps_def upd_lw_def wkeeps_def)

lemma keeper_simple:
  "keeper (common_serialize a b c)" "keeper authentication_i_serialize" "keeper (append_encrypt_data bs)"
  "keeper (put_head bs)" "keeper (header_serialize cmd)" "keeper (header_serialize_old cmd)" "keeper common_version"
  by (auto simp: keeper_def common_serialize_def authentication_i_serialize_def append_encrypt_data_def Let_def
      put_head_def header_serialize_def header_serialize_old_def common_version_def
      intro!: keeps_upd_lw split: option.split)

lemma keeper_sends: "keeper send_lbs_msg" "keeper send_anyway"
  by (auto simp: keeper_def send_lbs_msg_def send_anyway_def Let_def elim!: wkeeps_elims split: prod.split)

lemma keeper_signs:
  "keeper (digital_sign_serialize_sha384 b)" "keeper (digital_sign_serialize_and_check_sha384 t n b)"
  "keeper authentication_iii_serialize_serial_sha384"
  by (auto simp: keeper_def digital_sign_serialize_sha384_def digital_sign_serialize_and_check_sha384_def
      authentication_iii_serialize_serial_sha384_def elim!: wkeeps_elims split: prod.split sum.split)

lemma keeperD: "keeper f \<Longrightarrow> keeps s s1 \<Longrightarrow> f s1 = (r, s2) \<Longrightarrow> keeps s s2"
  by (auto simp: keeper_def intro: keeps_trans) (metis keeps_trans snd_conv)

lemma keeper_after: "keeper f \<Longrightarrow> keeps s s1 \<Longrightarrow> keeps s (snd (f s1))"
  by (auto simp: keeper_def intro: keeps_trans)

lemma keeper_session_req: "keeper send_sessionkey_req_serialize"
  unfolding keeper_def send_sessionkey_req_serialize_def by (auto intro!: keeper_after keeper_signs)

lemma keeper_random: "keeper (put_random x)"
  by (auto simp: keeper_def put_random_def elim!: wkeeps_elims split: prod.split)

lemma keeper_refresh: "keeper refreshsessionkey_i_serialize" "keeper refreshsessionkey_iii_serialize"
  by (auto simp: keeper_def refreshsessionkey_i_serialize_def refreshsessionkey_iii_serialize_def Let_def
      intro!: keeper_after [OF keeper_random])

lemma keeper_pubkey: "keeper send_pubkey"
  by (auto simp: keeper_def send_pubkey_def append_encrypt_data_def elim!: wkeeps_elims split: prod.split sum.split)

lemma keeper_crypto: "keeper (crypto_data_req j)"
  unfolding keeper_def crypto_data_req_def Let_def
  by (auto split: prod.split sum.split elim!: wkeeps_elims intro!: keeps_upd_lw)

lemmas keepers = keeper_simple keeper_sends keeper_signs keeper_session_req keeper_random keeper_refresh
  keeper_pubkey keeper_crypto

lemma keeper_crypto_reqs: "keeper crypto_data_req_das_serialize" "keeper crypto_data_req_stun_serialize"
  using keeper_crypto by (simp_all add: keeper_def crypto_data_req_das_serialize_def crypto_data_req_stun_serialize_def)

lemma keeper_messages:
  "keeper send_authentication_i" "keeper send_update_sessionkey_req" "keeper send_authentication_creat_dev_id"
  "keeper send_refreshsessionkey_i" "keeper send_stun_refreshsessionkey_i" "keeper send_refreshsessionkey_iii"
  "keeper send_stun_refreshsessionkey_iii" "keeper (send_crypto_data_req t)"
  unfolding send_authentication_i_def send_update_sessionkey_req_def send_authentication_creat_dev_id_def
    send_refreshsessionkey_i_def send_stun_refreshsessionkey_i_def send_refreshsessionkey_iii_def
    send_stun_refreshsessionkey_iii_def send_crypto_data_req_def
  by (intro keeper_run; simp add: keepers keeper_crypto_reqs)+

lemma read_remain_len_keeps:
  assumes "read_remain_len len mult w = Some y"
  shows "wkeeps w (snd (snd y))"
proof (rule read_remain_len.raw_induct [OF _ assms])
  fix f :: "u32 \<Rightarrow> u32 \<Rightarrow> world \<Rightarrow> _" and len mult :: u32 and w :: world and y
  assume IH: "\<And>len mult w y. f len mult w = Some y \<Longrightarrow> wkeeps w (snd (snd y))"
    and run: "(case net_read 1 w of (r, bs, w1) \<Rightarrow>
        if r \<noteq> mkernel_internal_succ then Some (r, len, w1)
        else let byte_2 = hd bs; len' = len + ucast (byte_2 AND 0x7F) * mult
             in if byte_2 AND 0x80 \<noteq> 0 then f len' (mult * 128) w1
                else Some (mkernel_internal_succ, len', w1)) = Some y"
  obtain r bs w1 where n: "net_read 1 w = (r, bs, w1)" by (cases "net_read 1 w")
  then have "wkeeps w w1" by (auto elim!: wkeeps_read)
  then show "wkeeps w (snd (snd y))"
    using run n by (auto simp: Let_def split: if_splits dest!: IH intro: wkeeps_trans)
qed

lemma wait_assign_keeps: "wait_assign_response s = Some (r, c, n, s') \<Longrightarrow> keeps s s'"
proof -
  have rd: "read_remain_len len mult w1 = Some (r, n, w2) \<Longrightarrow> wkeeps w w1 \<Longrightarrow> wkeeps w w2" for len mult w w1 r n w2
    using read_remain_len_keeps [of len mult w1 "(r, n, w2)"] by (auto intro: wkeeps_trans)
  show "wait_assign_response s = Some (r, c, n, s') \<Longrightarrow> keeps s s'"
    by (auto simp: wait_assign_response_def Let_def split: prod.splits option.splits if_splits
        elim!: wkeeps_elims rd)
qed

lemma wait_for_keeps: "(\<And>n. keeper (parse n)) \<Longrightarrow> wait_keeper (wait_for cmd parse)"
  unfolding wait_keeper_def wait_for_def
  by (auto split: option.splits prod.splits if_splits dest: wait_assign_keeps)
    (metis keeperD wait_assign_keeps)

lemma keeper_result: "keeper f \<Longrightarrow> keeper (in_result f)"
  by (auto simp: keeper_def in_result_def Let_def intro: keeper_after)

lemma lw_simps [simp]: "lw (skip_in n s) = lw s" "lw (upd_affair f s) = lw s"
  by (simp_all add: skip_in_def upd_affair_def)

lemma field_keeps: "in_field n m s = (x, s2) \<Longrightarrow> keeps s1 s \<Longrightarrow> keeps s1 s2"
  by (auto simp: in_field_def Let_def dest: keeps_lw split: if_splits prod.splits elim!: wkeeps_dec)

lemma peer_keeps: "aes_128_decrypt_peer_pubkey n s = (x, s2) \<Longrightarrow> keeps s1 s \<Longrightarrow> keeps s1 s2"
  by (auto simp: aes_128_decrypt_peer_pubkey_def Let_def dest: keeps_lw elim!: wkeeps_dec
      split: if_splits prod.splits)

lemma peer_wkeeps: "aes_128_decrypt_peer_pubkey n s = (x, s2) \<Longrightarrow> wkeeps (lw s) (lw s2)"
  using peer_keeps [of n s x s2 s] by (simp add: keeps_def)

lemma keeper_parsers:
  "keeper (parse_authentication_ii n)" "keeper (parse_authentication_create_dev_id n)"
  "keeper (parse_refreshsessionkey_ii n)" "keeper (parse_crypto_data_rsp_das n)" "keeper (parse_crypto_data_rsp_stun n)"
proof -
  show "keeper (parse_authentication_ii n)"
    unfolding parse_authentication_ii_def
  proof (rule keeper_result, unfold keeper_def, intro allI)
    fix s
    obtain x s1 where p: "aes_128_decrypt_peer_pubkey n s = (x, s1)" by (cases "aes_128_decrypt_peer_pubkey n s")
    from peer_wkeeps [OF p] show "keeps s (snd (case aes_128_decrypt_peer_pubkey n s of
        (Inl r, s1) \<Rightarrow> (r, s1)
      | (Inr (peer, n), s1) \<Rightarrow> (case generate_master_key peer n (lw s1) of
          (Inl r, w2) \<Rightarrow> (r, s1\<lparr>lw := w2\<rparr>)
        | (Inr key, w2) \<Rightarrow>
            (mkernel_internal_succ, upd_affair (\<lambda>a. a\<lparr>la_master_key := hexdump True (take 8 (e_md5 (env w2) key))\<rparr>)
              (s1\<lparr>lw := if length key > 48 then undefined_behaviour w2 else w2\<rparr>)))))"
      unfolding p by (auto simp: keeps_def split: sum.split prod.split elim!: wkeeps_master)
  qed
  show "keeper (parse_authentication_create_dev_id n)"
    unfolding parse_authentication_create_dev_id_def
    by (rule keeper_result)
      (auto simp: keeper_def Let_def split: prod.split sum.split elim!: field_keeps
        intro!: keeper_after [OF keeper_signs(2)])
  show "keeper (parse_refreshsessionkey_ii n)"
    unfolding parse_refreshsessionkey_ii_def
    by (rule keeper_result) (auto simp: keeper_def Let_def split: prod.split elim!: wkeeps_elims)
  have data: "keeper (crypto_data_rsp parse n)" if k: "\<And>t. keeper (parse t)" for parse n
  proof -
    have p: "parse t s1 = (r, s2) \<Longrightarrow> keeps s s1 \<Longrightarrow> keeps s s2" for t s s1 r s2 by (rule keeperD [OF k])
    show ?thesis
      unfolding crypto_data_rsp_def
      by (intro keeper_result) (auto simp: keeper_def Let_def split: prod.split elim!: wkeeps_elims p
          intro!: keeps_upd_lw dest: keeps_lw)
  qed
  show "keeper (parse_crypto_data_rsp_das n)"
    unfolding parse_crypto_data_rsp_das_def
    by (rule data) (auto intro!: keeps_upd_lw simp: keeper_def split: option.split)
  show "keeper (parse_crypto_data_rsp_stun n)"
    unfolding parse_crypto_data_rsp_stun_def
    by (rule data) (auto simp: keeper_def split: prod.split)
qed

lemma wait_keepers:
  "wait_keeper wait_authentication_ii" "wait_keeper wait_update_sessionkey_rsp"
  "wait_keeper wait_authentication_creat_dev_id" "wait_keeper wait_refreshsessionkey_ii"
  "wait_keeper wait_stun_refreshsessionkey_ii" "wait_keeper wait_crypto_data_rsp_das"
  "wait_keeper wait_crypto_data_rsp_stun"
  unfolding wait_authentication_ii_def wait_update_sessionkey_rsp_def wait_authentication_creat_dev_id_def
    wait_refreshsessionkey_ii_def wait_stun_refreshsessionkey_ii_def wait_crypto_data_rsp_das_def
    wait_crypto_data_rsp_stun_def
  by (rule wait_for_keeps, rule keeper_parsers)+

lemma keeper_set_up: "keeper (init_lbs_affair u)" "keeper lbs_connect" "keeps s (clear_lbs_affair_buf s)"
proof -
  have d: "keeps s (draw_randoms s)" for s by (simp add: draw_randoms_def ask_def)
  have c: "keeps s (copy_identity u s') = keeps s s'" for s s'
    by (simp add: copy_identity_def Let_def generate_sharekey_def)
  show "keeper (init_lbs_affair u)"
    by (auto simp: keeper_def init_lbs_affair_def Let_def c elim!: wkeeps_malloc intro!: keeps_lw d split: prod.split)
  have n: "keeper net_create" "keeper (net_connect h)" for h
    by (simp_all add: keeper_def net_create_def net_connect_def ask_def keeps_def split: prod.split)
  have nD: "net_create s1 = (r, s2) \<Longrightarrow> keeps s s1 \<Longrightarrow> keeps s s2"
    "net_connect h s1 = (r, s2) \<Longrightarrow> keeps s s1 \<Longrightarrow> keeps s s2" for h s s1 r s2
    using n by (blast intro: keeperD)+
  have cl: "keeps s (lbs_close s') = keeps s s'" for s s'
    by (simp add: lbs_close_def keeps_def upd_lw_def)
  show "keeper lbs_connect"
    by (auto simp: keeper_def lbs_connect_def Let_def split: prod.split
        elim!: nD intro!: cl [THEN iffD2])
  show "keeps s (clear_lbs_affair_buf s)" by (simp add: clear_lbs_affair_buf_def)
qed

section \<open>Properties\<close>

lemma wait_keeper_lift: "keeper f \<Longrightarrow> wait_keeper (step f)" "(\<And>s. keeps s (g s)) \<Longrightarrow> wait_keeper (just g)"
  by (auto simp: wait_keeper_def step_def just_def keeper_def) (metis snd_conv)

text \<open>The exchange up to the point where its results are stored, and the tearing down.\<close>

lemma run_waits_append:
  "run_waits (fs @ gs) s = (case run_waits fs s of None \<Rightarrow> None
     | Some (r, s1) \<Rightarrow> if r \<noteq> mkernel_internal_succ then Some (r, s1) else run_waits gs s1)"
  by (induction fs arbitrary: s) (auto split: option.split)

lemma fini_run_keeps: "keeps s (fini_run s') = keeps s s'"
  by (simp add: fini_run_def fini_lbs_affair_def lbs_close_def upd_lw_def keeps_def)

lemma fini_run_kernel: "g_ezdev_sdk_kernel (lw (fini_run s)) = g_ezdev_sdk_kernel (lw s)"
  by (simp add: fini_run_def fini_lbs_affair_def lbs_close_def upd_lw_def w_free_opt_def act_def)

lemma norm_upd:
  "norm (w\<lparr>trace := t, g_ezdev_sdk_kernel := (g_ezdev_sdk_kernel w)
     \<lparr>dev_id := i, master_key := m, session_key := sk, redirect_das_info := d\<rparr>\<rparr>) =
   (norm w)\<lparr>g_ezdev_sdk_kernel := (g_ezdev_sdk_kernel (norm w))
     \<lparr>dev_id := i, master_key := m, session_key := sk, redirect_das_info := d\<rparr>\<rparr>"
  by (simp add: norm_def)

lemma exchange_atomic:
  assumes ks: "list_all wait_keeper fs"
    and sv: "\<And>s. run_waits gs s = Some (mkernel_internal_succ, sv s)"
    and st: "\<And>s. \<exists>i m sk d. lw (sv s) = (lw s)\<lparr>trace := trace (lw (sv s)), g_ezdev_sdk_kernel := (g_ezdev_sdk_kernel (lw s))
        \<lparr>dev_id := i, master_key := m, session_key := sk, redirect_das_info := d\<rparr>\<rparr>"
    and run: "map_option (\<lambda>(r, s). (r, lw s)) (finish fini_run (run_waits (fs @ gs) (start_run w))) = Some (r, w')"
  shows "if r = mkernel_internal_succ
    then \<exists>i m sk d. norm w' = norm (w\<lparr>g_ezdev_sdk_kernel := (g_ezdev_sdk_kernel w)
        \<lparr>dev_id := i, master_key := m, session_key := sk, redirect_das_info := d\<rparr>\<rparr>)
    else norm w' = norm w"
proof -
  have f: "norm (lw (fini_run s)) = norm (lw s)" for s
    using fini_run_keeps [of s s] by (simp add: keeps_def wkeeps_def)
  obtain r1 s1 where s1: "run_waits fs (start_run w) = Some (r1, s1)"
    using run by (cases "run_waits fs (start_run w)") (auto simp: finish_def run_waits_append)
  have k: "norm (lw s1) = norm w"
    using wait_keeper_run [OF ks] s1 by (auto simp: wait_keeper_def keeps_def wkeeps_def start_run_def)
  show ?thesis
  proof (cases "r1 = mkernel_internal_succ")
    case False
    then have "r = r1" "w' = lw (fini_run s1)" using run s1 by (auto simp: finish_def run_waits_append)
    then show ?thesis using False k f by simp
  next
    case True
    then have r: "r = mkernel_internal_succ" "w' = lw (fini_run (sv s1))"
      using run s1 sv by (auto simp: finish_def run_waits_append)
    obtain i m sk d where "lw (sv s1) = (lw s1)\<lparr>trace := trace (lw (sv s1)),
        g_ezdev_sdk_kernel := (g_ezdev_sdk_kernel (lw s1))
        \<lparr>dev_id := i, master_key := m, session_key := sk, redirect_das_info := d\<rparr>\<rparr>" using st by blast
    from arg_cong [OF this, of norm] have "norm (lw (sv s1)) = (norm (lw s1))\<lparr>g_ezdev_sdk_kernel :=
        (g_ezdev_sdk_kernel (norm (lw s1)))\<lparr>dev_id := i, master_key := m, session_key := sk, redirect_das_info := d\<rparr>\<rparr>"
      unfolding norm_upd .
    then have "norm w' = norm (w\<lparr>trace := [], g_ezdev_sdk_kernel := (g_ezdev_sdk_kernel w)
        \<lparr>dev_id := i, master_key := m, session_key := sk, redirect_das_info := d\<rparr>\<rparr>)"
      unfolding norm_upd r f k .
    then have "norm w' = norm (w\<lparr>g_ezdev_sdk_kernel := (g_ezdev_sdk_kernel w)
        \<lparr>dev_id := i, master_key := m, session_key := sk, redirect_das_info := d\<rparr>\<rparr>)"
      by (simp add: norm_def)
    then show ?thesis using r by auto
  qed
qed

lemmas all_keepers = keeper_set_up(1,2) keeper_messages wait_keepers

lemma save_steps:
  "lw (save_das_info (save_key_value s)) = (lw s)\<lparr>
     trace := trace (lw (save_das_info (save_key_value s))), g_ezdev_sdk_kernel := (g_ezdev_sdk_kernel (lw s))
       \<lparr>dev_id := la_dev_id (affair s), master_key := la_master_key (affair s),
        session_key := la_session_key (affair s), redirect_das_info := revc_das_info s\<rparr>\<rparr>"
  "lw (save_das_info (take_keys s)) = (lw s)\<lparr>
     trace := trace (lw (save_das_info (take_keys s))), g_ezdev_sdk_kernel := (g_ezdev_sdk_kernel (lw s))
       \<lparr>dev_id := la_dev_id (affair s), master_key := la_master_key (affair s),
        session_key := la_session_key (affair s), redirect_das_info := revc_das_info s\<rparr>\<rparr>"
  by (simp_all add: save_das_info_def save_key_value_def take_keys_def upd_lw_def upd_kernel_def act_def Let_def)

text \<open>
  The contract of a redirect: when it fails nothing of the program's state has changed but the
  cached address of the server (and the heap, the clock and the trace); when it succeeds the
  three keys and the DAS server's data have changed besides, and nothing else.
\<close>

definition redirect_contract :: "world \<Rightarrow> mkernel_internal_error \<Rightarrow> world \<Rightarrow> bool" where
  "redirect_contract w r w' \<longleftrightarrow>
     (if r = mkernel_internal_succ
      then \<exists>i m sk d. norm w' = norm (w\<lparr>g_ezdev_sdk_kernel := (g_ezdev_sdk_kernel w)
        \<lparr>dev_id := i, master_key := m, session_key := sk, redirect_das_info := d\<rparr>\<rparr>)
      else norm w' = norm w)"

lemmas keeper_lifts = wait_keeper_lift(1) wait_keeper_lift(2) [OF keeper_set_up(3)]

lemma stores1: "run_waits [just save_key_value, just save_das_info] s = Some (mkernel_internal_succ, save_das_info (save_key_value s))"
  by (simp add: just_def)

lemma stores2: "run_waits [just take_keys, just save_das_info] s = Some (mkernel_internal_succ, save_das_info (take_keys s))"
  by (simp add: just_def)

lemma save_step1:
  "\<exists>i m sk d. lw (save_das_info (save_key_value s)) = (lw s)\<lparr>trace := trace (lw (save_das_info (save_key_value s))),
     g_ezdev_sdk_kernel := (g_ezdev_sdk_kernel (lw s))
       \<lparr>dev_id := i, master_key := m, session_key := sk, redirect_das_info := d\<rparr>\<rparr>"
  by (intro exI, rule save_steps)

lemma save_step2:
  "\<exists>i m sk d. lw (save_das_info (take_keys s)) = (lw s)\<lparr>trace := trace (lw (save_das_info (take_keys s))),
     g_ezdev_sdk_kernel := (g_ezdev_sdk_kernel (lw s))
       \<lparr>dev_id := i, master_key := m, session_key := sk, redirect_das_info := d\<rparr>\<rparr>"
  by (intro exI, rule save_steps)

lemma lbs_redirect_contract: "lbs_redirect w = Some (r, w') \<Longrightarrow> redirect_contract w r w'"
proof -
  let ?fs = "[step (init_lbs_affair 1), step lbs_connect, step send_refreshsessionkey_i, wait_refreshsessionkey_ii,
    just clear_lbs_affair_buf, step send_refreshsessionkey_iii,
    just clear_lbs_affair_buf, step (send_crypto_data_req 1), wait_crypto_data_rsp_das]"
  let ?gs = "[just take_keys, just save_das_info]"
  assume "lbs_redirect w = Some (r, w')"
  then have run: "map_option (\<lambda>(r, s). (r, lw s)) (finish fini_run (run_waits (?fs @ ?gs) (start_run w))) = Some (r, w')"
    by (simp only: lbs_redirect_def append_Cons append_Nil)
  have ks: "list_all wait_keeper ?fs" by (simp add: all_keepers keeper_lifts)
  show ?thesis
    unfolding redirect_contract_def by (rule exchange_atomic [OF ks stores2 save_step2 run])
qed

lemma lbs_redirect_with_auth_contract: "lbs_redirect_with_auth u w = Some (r, w') \<Longrightarrow> redirect_contract w r w'"
proof -
  let ?fs = "[step (init_lbs_affair u), step lbs_connect, step send_authentication_i, wait_authentication_ii,
    just clear_lbs_affair_buf, step send_update_sessionkey_req, wait_update_sessionkey_rsp,
    just clear_lbs_affair_buf, step (send_crypto_data_req 1), wait_crypto_data_rsp_das]"
  let ?gs = "[just save_key_value, just save_das_info]"
  assume "lbs_redirect_with_auth u w = Some (r, w')"
  then have run: "map_option (\<lambda>(r, s). (r, lw s)) (finish fini_run (run_waits (?fs @ ?gs) (start_run w))) = Some (r, w')"
    by (simp only: lbs_redirect_with_auth_def append_Cons append_Nil)
  have ks: "list_all wait_keeper ?fs" by (simp add: all_keepers keeper_lifts)
  show ?thesis
    unfolding redirect_contract_def by (rule exchange_atomic [OF ks stores1 save_step1 run])
qed

lemma lbs_redirect_createdevid_with_auth_contract: "lbs_redirect_createdevid_with_auth u w = Some (r, w') \<Longrightarrow> redirect_contract w r w'"
proof -
  let ?fs = "[step (init_lbs_affair u), step lbs_connect, step send_authentication_i, wait_authentication_ii,
    just clear_lbs_affair_buf, step send_authentication_creat_dev_id, wait_authentication_creat_dev_id,
    just clear_lbs_affair_buf, step (send_crypto_data_req 1), wait_crypto_data_rsp_das]"
  let ?gs = "[just save_key_value, just save_das_info]"
  assume "lbs_redirect_createdevid_with_auth u w = Some (r, w')"
  then have run: "map_option (\<lambda>(r, s). (r, lw s)) (finish fini_run (run_waits (?fs @ ?gs) (start_run w))) = Some (r, w')"
    by (simp only: lbs_redirect_createdevid_with_auth_def append_Cons append_Nil)
  have ks: "list_all wait_keeper ?fs" by (simp add: all_keepers keeper_lifts)
  show ?thesis
    unfolding redirect_contract_def by (rule exchange_atomic [OF ks stores1 save_step1 run])
qed

lemma field_fails: "in_field n m s = (Inl r, s2) \<Longrightarrow> r \<noteq> mkernel_internal_succ"
  by (auto simp: in_field_def Let_def split: if_splits prod.splits)

lemma field_overruns:
  "in_field n m s = (Inr x, s2) \<Longrightarrow> unat m < unat (ucast n :: u32) \<Longrightarrow> fault (lw s2)"
  by (auto simp: in_field_def Let_def overrun_def split: if_splits prod.splits)

lemma keeps_fault: "keeps s s' \<Longrightarrow> fault (lw s) \<Longrightarrow> fault (lw s')"
  by (simp add: keeps_def wkeeps_def)

lemma create_dev_id_overruns:
  assumes "parse_authentication_create_dev_id n s = (mkernel_internal_succ, s')"
  shows "fault (lw s')"
proof -
  define s0 where "s0 = skip_in 1 (skip_in 3 s)"
  let ?k = "\<lambda>did. upd_affair (\<lambda>a. a\<lparr>la_dev_id := did\<rparr>)" and ?m = "\<lambda>skey. upd_affair (\<lambda>a. a\<lparr>la_session_key := skey\<rparr>)"
  have zero: "mkernel_internal_platform_error + sint b \<noteq> 0" for b :: byte
    using sint_ge [of b] by simp
  obtain did s1 where f1: "in_field 48 32 s0 = (Inr did, s1)"
    using assms zero by (cases "in_field 48 32 s0"; cases "fst (in_field 48 32 s0)")
      (auto simp: parse_authentication_create_dev_id_def in_result_def Let_def s0_def dest: field_fails split: if_splits)
  then obtain skey s2 where f2: "in_field 32 16 (?k did s1) = (Inr skey, s2)"
    using assms zero by (cases "in_field 32 16 (?k did s1)"; cases "fst (in_field 32 16 (?k did s1))")
      (auto simp: parse_authentication_create_dev_id_def in_result_def Let_def s0_def dest: field_fails split: if_splits)
  have "fault (lw s1)" using f1 by (rule field_overruns) simp
  moreover have "keeps s1 s2" using field_keeps [OF f2, of s1] by simp
  ultimately have "fault (lw (?m skey s2))" by (auto dest: keeps_fault)
  moreover have "s' = snd (digital_sign_serialize_and_check_sha384 (in_rest (?m skey s2))
      (ucast (in_left n (?m skey s2))) (bytes_of (la_dev_subserial (affair (?m skey s2)))) (?m skey s2))"
    using assms f1 f2 zero by (auto simp: parse_authentication_create_dev_id_def in_result_def Let_def s0_def split: if_splits)
  moreover have "keeps s1 (snd (digital_sign_serialize_and_check_sha384 t k b s1))" for t k b s1
    using keeper_signs(2) by (simp add: keeper_def)
  ultimately show ?thesis
    using keeps_fault by blast
qed

text \<open>
  C14: A redirect changes the kernel object in one go.  If it fails, whatever went wrong and at
  whatever step, the keys, the device id, the data of the DAS server, the states, the queues and
  the tables are what they were, and at most the cached address of the LBS server is new; if it
  succeeds, the three keys and the DAS server's data are new and nothing else.
\<close>

theorem redirect_atomic:
  assumes "f \<in> {lbs_redirect, lbs_redirect_with_auth u, lbs_redirect_createdevid_with_auth u}"
    and "f w = Some (r, w')"
  shows "redirect_contract w r w'"
  using assms lbs_redirect_contract lbs_redirect_with_auth_contract lbs_redirect_createdevid_with_auth_contract
  by blast

theorem redirect_atomic_witness:
  "\<exists>r w'. lbs_redirect (boot_world (calm_env\<lparr>e_net_create := \<lambda>_. False\<rparr>)) = Some (r, w') \<and>
     r \<noteq> mkernel_internal_succ \<and> redirect_contract (boot_world (calm_env\<lparr>e_net_create := \<lambda>_. False\<rparr>)) r w'"
proof -
  let ?x = "boot_world (calm_env\<lparr>e_net_create := \<lambda>_. False\<rparr>)"
  obtain w' where r: "lbs_redirect ?x = Some (mkernel_internal_net_connect_error, w')"
    by (simp add: lbs_redirect_def step_def init_lbs_affair_def draw_randoms_def ask_def Let_def start_run_def
        w_malloc_def malloc_def boot_world_def calm_env_def copy_identity_def generate_sharekey_def upd_affair_def
        lbs_connect_def net_create_def finish_def)
  show ?thesis
    using redirect_atomic [of lbs_redirect, OF _ r] r by simp
qed

text \<open>
  C37: Every answer that the routine which reads a new device id and session key accepts has
  already damaged the stack: the encrypted id is 48 bytes and the encrypted key 32, and both are
  decrypted in arrays of the length of the plain text, 32 and 16 bytes.
\<close>

theorem accepted_dev_id_overruns:
  assumes "parse_authentication_create_dev_id n s = (mkernel_internal_succ, s')"
  shows "fault (lw s')"
  using assms by (rule create_dev_id_overruns)

definition demo_dev_id_answer :: "byte list" where
  "demo_dev_id_answer = [1, 1, 0, 0, 48] @ replicate 32 7 @ replicate 16 16 @ [32] @ replicate 16 9 @ replicate 16 16 @ replicate 48 1"

definition demo_run :: lbs_run where
  "demo_run = upd_affair (\<lambda>a. a\<lparr>global_in_packet := fresh_packet demo_dev_id_answer\<rparr>) (start_run (boot_world calm_env))"

theorem accepted_dev_id_overruns_witness:
  "\<exists>s'. parse_authentication_create_dev_id 134 demo_run = (mkernel_internal_succ, s') \<and> fault (lw s') \<and>
     \<not> fault (lw demo_run) \<and> la_dev_id (affair s') = replicate 32 7"
proof -
  have "fst (parse_authentication_create_dev_id 134 demo_run) = mkernel_internal_succ"
    "la_dev_id (affair (snd (parse_authentication_create_dev_id 134 demo_run))) = replicate 32 7"
    "\<not> fault (lw demo_run)"
    by code_simp+
  then show ?thesis
    using accepted_dev_id_overruns [of 134 demo_run] by (metis prod.collapse)
qed

end
