(* ===== verification/Access.thy ===== *)
theory Access
  imports Lbs_Frame
begin

text \<open>
  microkernel/src/ezdev_sdk_kernel_access.c: the state machine of the connection.  Its state is
  \<open>cnt_state\<close> with two counters of failures; one turn either waits for its timer, or makes one
  attempt in its state.  A turn that redirects may wait for the LBS server for ever: then the
  result is \<open>None\<close>.
\<close>

section \<open>Redirecting\<close>

text \<open>The routine depends on which keys the device has.\<close>

definition lbs_redirect_by_keys :: "u8 \<Rightarrow> world \<Rightarrow> (mkernel_internal_error \<times> world) option" where
  "lbs_redirect_by_keys nUpper w =
     (if key_empty (dev_id (g_ezdev_sdk_kernel w)) then lbs_redirect_createdevid_with_auth nUpper w
      else if key_empty (master_key (g_ezdev_sdk_kernel w)) then lbs_redirect_with_auth nUpper w
      else lbs_redirect w)"

text \<open>A device id or a master key the platform disowns is forgotten.\<close>

definition forget_keys :: "mkernel_internal_error \<Rightarrow> world \<Rightarrow> world" where
  "forget_keys r = upd_kernel (\<lambda>k. k\<lparr>
     dev_id := (if r = mkernel_internal_platform_devid_inconformity then replicate ezdev_sdk_devid_len 0 else dev_id k),
     master_key := (if r = mkernel_internal_platform_masterkey_invalid
                    then replicate ezdev_sdk_masterkey_len 0 else master_key k)\<rparr>)"

text \<open>A wrong signature is tried once more, with the digests in lower case.\<close>

function cnt_state_lbs_redirect :: "u8 \<Rightarrow> world \<Rightarrow> (mkernel_internal_error \<times> world) option" where
  "cnt_state_lbs_redirect nUpper w = (case lbs_redirect_by_keys nUpper w of
       None \<Rightarrow> None
     | Some (r, w1) \<Rightarrow>
         let w2 = forget_keys r w1
         in if r = mkernel_internal_platform_lbs_signcheck_error \<and> nUpper \<noteq> 0
            then cnt_state_lbs_redirect 0 w2 else Some (r, w2))"
  by pat_completeness auto
termination
  by (relation "measure (\<lambda>(nUpper, w). if nUpper = 0 then 0 else 1)") auto

declare cnt_state_lbs_redirect.simps [simp del]

section \<open>Registering\<close>

definition cnt_state_das_reged :: "world \<Rightarrow> mkernel_internal_error \<times> world" where
  "cnt_state_das_reged w = das_reg (snd (das_unreg w))"

definition cnt_state_das_fast_reg :: "world \<Rightarrow> mkernel_internal_error \<times> world" where
  "cnt_state_das_fast_reg = das_light_reg_v2"

definition cnt_state_das_fast_reg_v3 :: "world \<Rightarrow> mkernel_internal_error \<times> world" where
  "cnt_state_das_fast_reg_v3 = das_light_reg_v3"

definition cnt_state_das_work :: "world \<Rightarrow> mkernel_internal_error \<times> world" where
  "cnt_state_das_work = das_yield"

definition cnt_state_das_retry :: "world \<Rightarrow> mkernel_internal_error \<times> world" where
  "cnt_state_das_retry = das_light_reg"

section \<open>The turn in each state\<close>

definition not_expired :: "u32 \<Rightarrow> world \<Rightarrow> bool \<times> world" where
  "not_expired ms w = (case ask (\<lambda>e t. e_isexpired e t ms) w of (expired, w1) \<Rightarrow> (\<not> expired, w1))"

text \<open>The three assignments that follow every change of the state.\<close>

definition settle :: "sdk_cloud_cnt_state \<Rightarrow> world \<Rightarrow> world" where
  "settle c = upd_kernel (\<lambda>k. k\<lparr>cnt_state := c, lbs_redirect_times := 0, das_retry_times := 0\<rparr>)"

definition report_access :: "mkernel_internal_error \<Rightarrow> world \<Rightarrow> world" where
  "report_access r w = snd (broadcast_runtime_err TAG_ACCESS (mkiE2ezE r) None w)"

definition tell :: "sdk_kernel_event_type \<Rightarrow> event_ctx \<Rightarrow> world \<Rightarrow> world" where
  "tell ev c w = snd (broadcast_user_event ev (Some c) w)"

definition sessionkey_context :: "ezdev_sdk_kernel \<Rightarrow> event_ctx" where
  "sessionkey_context k = (let i = redirect_das_info k in Ctx_sessionkey
     \<lparr>sk_das_port = das_port i, sk_das_udp_port = das_udp_port i, sk_das_ip = das_address i,
      sk_lbs_ip = server_ip (server_info k), sk_session_key = session_key k, sk_das_socket = 0,
      sk_das_domain = das_domain i, sk_das_serverid = das_serverid i\<rparr>)"

definition switchover_context :: "ezdev_sdk_kernel \<Rightarrow> event_ctx" where
  "switchover_context k = (let i = redirect_das_info k in Ctx_switchover
     \<lparr>sw_das_udp_port = das_udp_port i, sw_das_ip = das_address i, sw_lbs_ip = server_ip (server_info k),
      sw_session_key = session_key k, sw_lbs_domain = server_name (server_info k)\<rparr>)"

definition offline_context :: "mkernel_internal_error \<Rightarrow> ezdev_sdk_kernel \<Rightarrow> event_ctx" where
  "offline_context r k = Ctx_offline \<lparr>of_last_error = word_of_int r, of_das_ip = das_address (redirect_das_info k),
     of_lbs_ip = server_ip (server_info k)\<rparr>"

definition lbs_must_wait :: "world \<Rightarrow> bool \<times> world" where
  "lbs_must_wait w =
     (let k = g_ezdev_sdk_kernel w in
      if entr_state k = sdk_entrance_authcode_invalid
      then (case not_expired (ucast (secretkey_interval k) * 1000) w of
              (wait, w1) \<Rightarrow> (wait \<or> secretkey_duration k < ucast (lbs_redirect_times k), w1))
      else if lbs_redirect_times k \<noteq> 0 then not_expired (ucast (lbs_redirect_times k) * 2000) w
      else (False, w))"

definition count_lbs_failure :: "mkernel_internal_error \<Rightarrow> u8 \<Rightarrow> u8" where
  "count_lbs_failure r n =
     (if r = mkernel_internal_net_connect_error \<or> r = mkernel_internal_net_gethostbyname_error then 1
      else if n + 1 \<ge> 60 then 60 else n + 1)"

definition cnt_lbs_redirect_do :: "world \<Rightarrow> (mkernel_internal_error \<times> world) option" where
  "cnt_lbs_redirect_do w = (case lbs_must_wait w of (wait, w1) \<Rightarrow>
     if wait then Some (mkernel_internal_succ, w1)
     else case cnt_state_lbs_redirect 1 (act Do_countdown w1) of None \<Rightarrow> None
       | Some (r, w2) \<Rightarrow> Some (r,
           if r = mkernel_internal_succ then settle sdk_cnt_redirected w2
           else upd_kernel (\<lambda>k. k\<lparr>lbs_redirect_times := count_lbs_failure r (lbs_redirect_times k)\<rparr>)
                  (report_access r w2)))"

definition das_must_wait :: "u32 \<Rightarrow> world \<Rightarrow> bool \<times> world" where
  "das_must_wait step_ms w =
     (let n = das_retry_times (g_ezdev_sdk_kernel w)
      in if n \<noteq> 0 then not_expired (ucast n * step_ms) w else (False, w))"

text \<open>One more failure of the DAS server; the result tells whether there were \<open>n\<close> before it.\<close>

definition count_das_failure :: "u8 \<Rightarrow> world \<Rightarrow> bool \<times> world" where
  "count_das_failure n w =
     (let t = das_retry_times (g_ezdev_sdk_kernel w)
      in (t \<ge> n, upd_kernel (\<lambda>k. k\<lparr>das_retry_times := t + 1\<rparr>) w))"

definition cnt_das_reg_do :: "world \<Rightarrow> mkernel_internal_error \<times> world" where
  "cnt_das_reg_do w = (case das_must_wait 2000 w of (wait, w1) \<Rightarrow>
     if wait then (mkernel_internal_succ, w1)
     else case cnt_state_das_reged (act Do_countdown w1) of (r1, w2) \<Rightarrow>
       case (if r1 = mkernel_internal_mqtt_session_exist then cnt_state_das_fast_reg w2 else (r1, w2)) of (r, w3) \<Rightarrow>
         (r, if r = mkernel_internal_succ
             then let w4 = settle sdk_cnt_das_reged w3; k = g_ezdev_sdk_kernel w4
                  in if entr_state k = sdk_entrance_switchover
                     then upd_kernel (\<lambda>k. k\<lparr>entr_state := sdk_entrance_normal\<rparr>)
                            (tell sdk_kernel_event_switchover (switchover_context k) w4)
                     else tell sdk_kernel_event_online (sessionkey_context k) w4
             else case count_das_failure 5 (report_access r w3) of (many, w4) \<Rightarrow>
                    if many then settle sdk_cnt_unredirect w4 else w4))"

definition cnt_das_work_do :: "world \<Rightarrow> mkernel_internal_error \<times> world" where
  "cnt_das_work_do w = (case cnt_state_das_work w of (r, w1) \<Rightarrow>
     (r, if r \<noteq> mkernel_internal_succ \<and> r \<noteq> mkernel_internal_queue_empty
         then let w2 = report_access r w1
              in if r = mkernel_internal_das_need_reconnect
                 then upd_kernel (\<lambda>k. k\<lparr>cnt_state := sdk_cnt_das_break\<rparr>) w2 else w2
         else w1))"

definition cnt_das_retry_do :: "world \<Rightarrow> mkernel_internal_error \<times> world" where
  "cnt_das_retry_do w = (case das_must_wait 1000 w of (wait, w1) \<Rightarrow>
     if wait then (mkernel_internal_succ, w1)
     else case cnt_state_das_retry (act Do_countdown w1) of (r, w2) \<Rightarrow>
       (r, if r = mkernel_internal_succ
           then snd (broadcast_user_event_reconnect_success (settle sdk_cnt_das_reged w2))
           else case count_das_failure 3 (report_access r w2) of (many, w3) \<Rightarrow>
                  if many then settle sdk_cnt_unredirect
                    (tell sdk_kernel_event_break (offline_context r (g_ezdev_sdk_kernel w3)) w3)
                  else w3))"

text \<open>At most \<open>n\<close> attempts, until one succeeds.\<close>

fun attempts :: "nat \<Rightarrow> (world \<Rightarrow> mkernel_internal_error \<times> world) \<Rightarrow> world \<Rightarrow> mkernel_internal_error \<times> world" where
  "attempts 0 f w = (mkernel_internal_succ, w)"
| "attempts (Suc n) f w = (case f w of (r, w1) \<Rightarrow>
     if r = mkernel_internal_succ \<or> n = 0 then (r, w1) else attempts n f w1)"

text \<open>The two routines for a fast registration differ in the registration only.\<close>

definition fast_do :: "(world \<Rightarrow> mkernel_internal_error \<times> world) \<Rightarrow> world \<Rightarrow> mkernel_internal_error \<times> world" where
  "fast_do reg w = (case attempts 3 reg w of (r, w1) \<Rightarrow>
     (r, if r = mkernel_internal_succ
         then let w2 = settle sdk_cnt_das_reged w1
              in tell sdk_kernel_event_fast_reg_online (sessionkey_context (g_ezdev_sdk_kernel w2)) w2
         else settle sdk_cnt_unredirect (report_access r w1)))"

definition cnt_das_reg_fast_do :: "world \<Rightarrow> mkernel_internal_error \<times> world" where
  "cnt_das_reg_fast_do = fast_do cnt_state_das_fast_reg"

definition cnt_das_reg_v3_fast_do :: "world \<Rightarrow> mkernel_internal_error \<times> world" where
  "cnt_das_reg_v3_fast_do = fast_do cnt_state_das_fast_reg_v3"

section \<open>One turn\<close>

text \<open>What follows the turn: a device in the black list stays out, a lost session starts again.\<close>

definition after_turn :: "mkernel_internal_error \<Rightarrow> world \<Rightarrow> world" where
  "after_turn r w =
     (if r = mkernel_internal_mqtt_blacklist then add_access_risk_control w
      else if r = mkernel_internal_mqtt_redirect
      then settle sdk_cnt_unredirect
             (tell sdk_kernel_event_break (offline_context r (g_ezdev_sdk_kernel w)) w)
      else w)"

definition turn :: "world \<Rightarrow> (mkernel_internal_error \<times> world) option" where
  "turn w = (case cnt w of
       sdk_cnt_unredirect \<Rightarrow> cnt_lbs_redirect_do w
     | sdk_cnt_redirected \<Rightarrow> Some (cnt_das_reg_do w)
     | sdk_cnt_das_reged \<Rightarrow> Some (cnt_das_work_do w)
     | sdk_cnt_das_break \<Rightarrow> Some (cnt_das_retry_do w)
     | sdk_cnt_das_fast_reg \<Rightarrow> Some (cnt_das_reg_fast_do w)
     | sdk_cnt_das_fast_reg_v3 \<Rightarrow> Some (cnt_das_reg_v3_fast_do w))"

definition cnt_state_yield :: "world \<Rightarrow> (mkernel_internal_error \<times> world) option" where
  "cnt_state_yield w =
     (if check_access_risk_control w \<noteq> 0 then Some (mkernel_internal_force_offline, w)
      else map_option (\<lambda>(r, w1). (r, after_turn r w1)) (turn w))"

definition stop_yield :: "world \<Rightarrow> mkernel_internal_error \<times> world" where
  "stop_yield w = (case das_unreg w of (r, w1) \<Rightarrow> (r, upd_kernel (\<lambda>k. k\<lparr>cnt_state := sdk_cnt_unredirect\<rparr>) w1))"

definition access_server_yield :: "world \<Rightarrow> (mkernel_internal_error \<times> world) option" where
  "access_server_yield = cnt_state_yield"

end
