(* ===== verification/Stays.thy ===== *)
theory Stays
  imports Access
begin

text \<open>
  What every operation below the API may change.  \<open>state_ok\<close> is the well-formedness of the state's
  data structures; \<open>stays\<close> says that a step keeps it and changes the kernel object in the few ways
  the messages of the server can bring about.
\<close>

section \<open>The invariant of the data structures\<close>

definition tables_ok :: "world \<Rightarrow> bool" where
  "tables_ok w \<longleftrightarrow> domains_wf w \<and> extends_wf w \<and>
     (\<forall>e \<in> set (domain_extends w). callbacks_ok e) \<and> (\<forall>e \<in> set (extends_v3 w). k3_data_route e \<noteq> None) \<and>
     length (g_kernel_hub_extend w) = HUB_EXTEND_MAX_NUM \<and> risks_ok w"

definition state_ok :: "world \<Rightarrow> bool" where
  "state_ok w \<longleftrightarrow> queues_ok w \<and> tables_ok w"

text \<open>The part of the kernel object that no message of the server can change.\<close>

definition kcore :: "ezdev_sdk_kernel \<Rightarrow> ezdev_sdk_kernel" where
  "kcore k = k\<lparr>das_keepalive_interval := 0, entr_state := sdk_entrance_normal, cnt_state := sdk_cnt_unredirect,
     master_key := [], server_info := server_info zero_kernel, access_risk := sdk_no_risk_control\<rparr>"

definition kstays :: "ezdev_sdk_kernel \<Rightarrow> ezdev_sdk_kernel \<Rightarrow> bool" where
  "kstays k k' \<longleftrightarrow> kcore k' = kcore k \<and> (cnt_state k' = cnt_state k \<or> cnt_state k' = sdk_cnt_unredirect) \<and>
     (master_key k' = master_key k \<or> master_key k' = replicate ezdev_sdk_masterkey_len 0) \<and>
     (access_risk k = sdk_risk_control \<longrightarrow> access_risk k' = sdk_risk_control)"

definition stays :: "world \<Rightarrow> world \<Rightarrow> bool" where
  "stays w w' \<longleftrightarrow> (state_ok w \<longrightarrow> state_ok w') \<and> kstays (g_ezdev_sdk_kernel w) (g_ezdev_sdk_kernel w')"

lemma kstays_refl [simp]: "kstays k k"
  by (simp add: kstays_def)

lemma kstays_trans: "kstays k1 k2 \<Longrightarrow> kstays k2 k3 \<Longrightarrow> kstays k1 k3"
  by (auto simp: kstays_def)

lemma stays_refl [simp]: "stays w w"
  by (simp add: stays_def)

lemma stays_trans: "stays w1 w2 \<Longrightarrow> stays w2 w3 \<Longrightarrow> stays w1 w3"
  by (auto simp: stays_def intro: kstays_trans)

section \<open>Fields that do not matter\<close>

lemmas tables_ok_defs = tables_ok_def domains_wf_def extends_wf_def domain_extends_def extends_v3_def risks_ok_def

lemma tables_ok_simps [simp]:
  "tables_ok (w\<lparr>heap := h\<rparr>) = tables_ok w" "tables_ok (w\<lparr>tick := t\<rparr>) = tables_ok w"
  "tables_ok (w\<lparr>trace := tr\<rparr>) = tables_ok w" "tables_ok (w\<lparr>fault := b\<rparr>) = tables_ok w"
  "tables_ok (w\<lparr>g_is_reboot := b\<rparr>) = tables_ok w" "tables_ok (w\<lparr>g_DasClient_keepAliveInterval := i\<rparr>) = tables_ok w"
  "tables_ok (w\<lparr>g_das_transport_seq := s\<rparr>) = tables_ok w" "tables_ok (w\<lparr>g_ezdev_sdk_kernel := k\<rparr>) = tables_ok w"
  "tables_ok (w\<lparr>g_common_module := c\<rparr>) = tables_ok w" "tables_ok (w\<lparr>g_binding_nic := n\<rparr>) = tables_ok w"
  "tables_ok (w\<lparr>g_kernel_event_notice_cb := f\<rparr>) = tables_ok w"
  "tables_ok (w\<lparr>g_queue_submsg := q1\<rparr>) = tables_ok w" "tables_ok (w\<lparr>g_queue_submsg_v3 := q2\<rparr>) = tables_ok w"
  "tables_ok (w\<lparr>g_queue_pubmsg_exchange := q3\<rparr>) = tables_ok w"
  "tables_ok (w\<lparr>g_queue_pubmsg_exchange_v3 := q4\<rparr>) = tables_ok w"
  "tables_ok (w\<lparr>g_queue_inner_cb_notic := q5\<rparr>) = tables_ok w"
  by (simp_all add: tables_ok_defs)

lemma queues_ok_simps [simp]:
  "queues_ok (w\<lparr>heap := h\<rparr>) = queues_ok w" "queues_ok (w\<lparr>tick := t\<rparr>) = queues_ok w"
  "queues_ok (w\<lparr>trace := tr\<rparr>) = queues_ok w" "queues_ok (w\<lparr>fault := b\<rparr>) = queues_ok w"
  "queues_ok (w\<lparr>g_is_reboot := b\<rparr>) = queues_ok w" "queues_ok (w\<lparr>g_DasClient_keepAliveInterval := i\<rparr>) = queues_ok w"
  "queues_ok (w\<lparr>g_das_transport_seq := s\<rparr>) = queues_ok w" "queues_ok (w\<lparr>g_ezdev_sdk_kernel := k\<rparr>) = queues_ok w"
  "queues_ok (w\<lparr>g_common_module := c\<rparr>) = queues_ok w" "queues_ok (w\<lparr>g_binding_nic := n\<rparr>) = queues_ok w"
  "queues_ok (w\<lparr>g_kernel_event_notice_cb := f\<rparr>) = queues_ok w"
  "queues_ok (w\<lparr>g_kernel_domains := d\<rparr>) = queues_ok w" "queues_ok (w\<lparr>g_kernel_extend := x\<rparr>) = queues_ok w"
  "queues_ok (w\<lparr>g_kernel_hub_extend := y\<rparr>) = queues_ok w"
  "queues_ok (w\<lparr>g_kernel_domains_count := c1\<rparr>) = queues_ok w" "queues_ok (w\<lparr>g_kernel_extend_count := c2\<rparr>) = queues_ok w"
  by (simp_all add: queues_ok_def)

lemma state_ok_simps [simp]:
  "state_ok (w\<lparr>heap := h\<rparr>) = state_ok w" "state_ok (w\<lparr>tick := t\<rparr>) = state_ok w"
  "state_ok (w\<lparr>trace := tr\<rparr>) = state_ok w" "state_ok (w\<lparr>fault := b\<rparr>) = state_ok w"
  "state_ok (w\<lparr>g_is_reboot := b\<rparr>) = state_ok w" "state_ok (w\<lparr>g_DasClient_keepAliveInterval := i\<rparr>) = state_ok w"
  "state_ok (w\<lparr>g_das_transport_seq := s\<rparr>) = state_ok w" "state_ok (w\<lparr>g_ezdev_sdk_kernel := k\<rparr>) = state_ok w"
  "state_ok (w\<lparr>g_common_module := c\<rparr>) = state_ok w" "state_ok (w\<lparr>g_binding_nic := n\<rparr>) = state_ok w"
  "state_ok (w\<lparr>g_kernel_event_notice_cb := f\<rparr>) = state_ok w"
  by (simp_all add: state_ok_def)

lemma stays_simps [simp]:
  "stays w (w'\<lparr>heap := h\<rparr>) = stays w w'" "stays w (w'\<lparr>tick := t\<rparr>) = stays w w'"
  "stays w (w'\<lparr>trace := tr\<rparr>) = stays w w'" "stays w (w'\<lparr>fault := b\<rparr>) = stays w w'"
  "stays w (w'\<lparr>g_is_reboot := b\<rparr>) = stays w w'" "stays w (w'\<lparr>g_DasClient_keepAliveInterval := i\<rparr>) = stays w w'"
  "stays w (w'\<lparr>g_das_transport_seq := s\<rparr>) = stays w w'"
  "stays w (w_free w') = stays w w'" "stays w (w_free_opt p w') = stays w w'" "stays w (act a w') = stays w w'"
  "stays w (undefined_behaviour w') = stays w w'" "stays w (lib_alloc w') = stays w w'"
  by (simp_all add: stays_def w_free_def w_free_opt_def act_def undefined_behaviour_def lib_alloc_def)

lemma kernel_simps [simp]:
  "g_ezdev_sdk_kernel (w_free w) = g_ezdev_sdk_kernel w" "g_ezdev_sdk_kernel (w_free_opt p w) = g_ezdev_sdk_kernel w"
  "g_ezdev_sdk_kernel (act a w) = g_ezdev_sdk_kernel w" "g_ezdev_sdk_kernel (undefined_behaviour w) = g_ezdev_sdk_kernel w"
  "g_ezdev_sdk_kernel (lib_alloc w) = g_ezdev_sdk_kernel w"
  by (simp_all add: w_free_def w_free_opt_def act_def undefined_behaviour_def lib_alloc_def)

lemma stays_ask: "ask f w1 = (x, w2) \<Longrightarrow> stays w w1 \<Longrightarrow> stays w w2"
  by (auto simp: ask_def)

lemma stays_malloc: "w_malloc w1 = (ok, w2) \<Longrightarrow> stays w w1 \<Longrightarrow> stays w w2"
  by (auto simp: w_malloc_def split: prod.splits)

lemma stays_enc: "aes_cbc_128_enc_padding k b l n out w1 = (r, b', out', l', w2) \<Longrightarrow> stays w w1 \<Longrightarrow> stays w w2"
  by (auto simp: aes_cbc_128_enc_padding_def ask_def Let_def split: if_splits)

lemma stays_dec: "aes_cbc_128_dec_padding k b n out w1 = (r, out', l, w2) \<Longrightarrow> stays w w1 \<Longrightarrow> stays w w2"
  by (auto simp: aes_cbc_128_dec_padding_def ask_def Let_def split: if_splits)

lemma stays_json: "json_print j w1 = (x, w2) \<Longrightarrow> stays w w1 \<Longrightarrow> stays w w2"
  by (auto simp: json_print_def ask_def split: if_splits)

lemma stays_print: "print_json j w1 = (x, w2) \<Longrightarrow> stays w w1 \<Longrightarrow> stays w w2"
  by (auto simp: print_json_def split: if_splits prod.splits elim: stays_json stays_ask)

section \<open>Queues\<close>

lemma state_ok_queues:
  "state_ok w \<Longrightarrow> queue_inv q1 \<Longrightarrow> state_ok (w\<lparr>g_queue_submsg := q1\<rparr>)"
  "state_ok w \<Longrightarrow> queue_inv q2 \<Longrightarrow> state_ok (w\<lparr>g_queue_submsg_v3 := q2\<rparr>)"
  "state_ok w \<Longrightarrow> queue_inv q3 \<Longrightarrow> state_ok (w\<lparr>g_queue_pubmsg_exchange := q3\<rparr>)"
  "state_ok w \<Longrightarrow> queue_inv q4 \<Longrightarrow> state_ok (w\<lparr>g_queue_pubmsg_exchange_v3 := q4\<rparr>)"
  "state_ok w \<Longrightarrow> queue_inv q5 \<Longrightarrow> \<forall>n \<in> set (qmsgs q5). notic_ok n \<Longrightarrow> state_ok (w\<lparr>g_queue_inner_cb_notic := q5\<rparr>)"
  by (simp_all add: state_ok_def queues_ok_def)

lemma state_ok_invs:
  assumes "state_ok w"
  shows "queue_inv (g_queue_submsg w)" "queue_inv (g_queue_submsg_v3 w)" "queue_inv (g_queue_pubmsg_exchange w)"
    "queue_inv (g_queue_pubmsg_exchange_v3 w)" "queue_inv (g_queue_inner_cb_notic w)"
    "\<forall>n \<in> set (qmsgs (g_queue_inner_cb_notic w)). notic_ok n"
  using assms by (simp_all add: state_ok_def queues_ok_def)

text \<open>Every queue operation of the five queues keeps the invariant, whatever the queue holds.\<close>

lemma pop_ok:
  assumes "queue_inv q" and p: "pop_queue q m = (r, x, q', m')"
  shows "queue_inv q' \<and> set (qmsgs q') \<subseteq> set (qmsgs q)"
proof (cases "qmsgs q")
  case Nil
  obtain q2 where "pop_queue q m = (mkernel_internal_queue_empty, None, q2, m)" "queue_inv q2" "qmsgs q2 = []"
    using pop_Nil [OF assms(1) Nil, of m] by blast
  then show ?thesis using p by simp
next
  case (Cons y ys)
  obtain q2 where "pop_queue q m = (mkernel_internal_succ, Some y, q2, free m)" "queue_inv q2" "qmsgs q2 = ys"
    using pop_Cons [OF assms(1) Cons, of m] by blast
  then show ?thesis using p Cons by auto
qed

lemma get_ok:
  assumes "queue_inv q" and g: "get_queue q = (r, x, q')"
  shows "queue_inv q'"
proof (cases "qmsgs q")
  case Nil
  obtain q2 where "get_queue q = (mkernel_internal_queue_empty, None, q2)" "queue_inv q2"
    using get_Nil [OF assms(1) Nil] by blast
  then show ?thesis using g by simp
next
  case (Cons y ys)
  from get_Cons [OF assms(1) Cons] show ?thesis using g assms(1) by simp
qed

lemma push_ok':
  assumes "queue_inv q" and "push_queue x q m = (r, q', m')"
  shows "queue_inv q' \<and> set (qmsgs q') \<subseteq> insert x (set (qmsgs q))"
  using mq.push_cases [OF assms] by auto

lemma push_head_ok':
  assumes "queue_inv q" and "push_queue_head x q m = (r, q', m')"
  shows "queue_inv q' \<and> set (qmsgs q') \<subseteq> insert x (set (qmsgs q))"
  using mq.push_head_cases [OF assms] by auto

lemmas pop_invs = state_ok_invs(1-4) [THEN pop_ok, THEN conjunct1, rotated] state_ok_invs(3) [THEN get_ok, rotated]
lemmas push_invs = state_ok_invs(1-5) [THEN push_ok', THEN conjunct1, rotated]
  state_ok_invs(1-5) [THEN push_head_ok', THEN conjunct1, rotated]

lemma stays_submsg: "pop_queue_submsg w1 = (r, x, w2) \<Longrightarrow> stays w w1 \<Longrightarrow> stays w w2"
  "push_queue_submsg m w1 = (r, w2) \<Longrightarrow> stays w w1 \<Longrightarrow> stays w w2"
  unfolding queue_funs QUEUE_POP_def QUEUE_PUSH_def stays_def
  by (auto split: prod.splits intro!: state_ok_queues(1) elim!: pop_invs(1) push_invs(1))

lemma stays_submsg_v3: "pop_queue_submsg_v3 w1 = (r, x, w2) \<Longrightarrow> stays w w1 \<Longrightarrow> stays w w2"
  "push_queue_submsg_v3 m w1 = (r, w2) \<Longrightarrow> stays w w1 \<Longrightarrow> stays w w2"
  unfolding queue_funs QUEUE_POP_def QUEUE_PUSH_def stays_def
  by (auto split: prod.splits intro!: state_ok_queues(2) elim!: pop_invs(2) push_invs(2))

lemma stays_pubmsg: "pop_queue_pubmsg_exchange w1 = (r, x, w2) \<Longrightarrow> stays w w1 \<Longrightarrow> stays w w2"
  "get_queue_pubmsg_exchange w1 = (r, x, w2) \<Longrightarrow> stays w w1 \<Longrightarrow> stays w w2"
  "push_queue_pubmsg_exchange m w1 = (r, w2) \<Longrightarrow> stays w w1 \<Longrightarrow> stays w w2"
  "push_queue_head_pubmsg_exchange m w1 = (r, w2) \<Longrightarrow> stays w w1 \<Longrightarrow> stays w w2"
  unfolding queue_funs QUEUE_POP_def QUEUE_GET_def QUEUE_PUSH_def QUEUE_PUSH_HEAD_def stays_def
  by (auto split: prod.splits intro!: state_ok_queues(3) elim!: pop_invs(3,5) push_invs(3,8))

lemma stays_pubmsg_v3: "pop_queue_pubmsg_exchange_v3 w1 = (r, x, w2) \<Longrightarrow> stays w w1 \<Longrightarrow> stays w w2"
  "push_queue_pubmsg_exchange_v3 m w1 = (r, w2) \<Longrightarrow> stays w w1 \<Longrightarrow> stays w w2"
  "push_queue_head_pubmsg_exchange_v3 m w1 = (r, w2) \<Longrightarrow> stays w w1 \<Longrightarrow> stays w w2"
  unfolding queue_funs QUEUE_POP_def QUEUE_PUSH_def QUEUE_PUSH_HEAD_def stays_def
  by (auto split: prod.splits intro!: state_ok_queues(4) elim!: pop_invs(4) push_invs(4,9))

lemma stays_pop_notic:
  assumes "pop_queue_inner_cb_notic w1 = (r, x, w2)" and "stays w w1"
  shows "stays w w2"
proof -
  obtain q m where p: "pop_queue (g_queue_inner_cb_notic w1) (heap w1) = (r, x, q, m)"
    "w2 = w1\<lparr>g_queue_inner_cb_notic := q, heap := m\<rparr>"
    using assms(1) by (auto simp: queue_funs QUEUE_POP_def split: prod.splits)
  have "state_ok w2" if "state_ok w1"
    using that pop_ok [OF state_ok_invs(5) [OF that] p(1)] state_ok_invs(6) [OF that]
    unfolding p(2) by (auto intro: state_ok_queues(5))
  then show ?thesis using assms(2) p(2) by (auto simp: stays_def)
qed

lemma stays_push_notic:
  assumes "push_queue_inner_cb_notic n w1 = (r, w2)" and "notic_ok n" and "stays w w1"
  shows "stays w w2"
proof -
  obtain q m where p: "push_queue n (g_queue_inner_cb_notic w1) (heap w1) = (r, q, m)"
    "w2 = w1\<lparr>g_queue_inner_cb_notic := q, heap := m\<rparr>"
    using assms(1) by (auto simp: queue_funs QUEUE_PUSH_def split: prod.splits)
  have "state_ok w2" if "state_ok w1"
    using that push_ok' [OF state_ok_invs(5) [OF that] p(1)] state_ok_invs(6) [OF that] assms(2)
    unfolding p(2) by (auto intro: state_ok_queues(5))
  then show ?thesis using assms(3) p(2) by (auto simp: stays_def)
qed

section \<open>Events\<close>

lemma stays_domains [simp]:
  "stays w (start_domains ds w1) = stays w w1" "stays w (stop_domains ds w1) = stays w w1"
  by (induction ds arbitrary: w1) (simp_all add: Let_def split: option.split)

lemma stays_event_domains [simp]: "stays w (event_domains ack ev ds w1) = stays w w1"
  by (cases ack; induction ds arbitrary: w1) (simp_all add: Let_def split: option.split)

lemma stays_destroy [simp]: "stays w (destroy_inner_cb_notic p w1) = stays w w1"
  by (simp add: destroy_inner_cb_notic_def Let_def split: option.split event_ctx.split err_ctx.split)

lemma stays_handle_notic [simp]: "stays w (handle_notic n w1) = stays w w1"
  by (simp add: handle_notic_def dispatch_notic_def Let_def split: extend_cb_type.split option.split prod.split)

lemma stays_consume_event: "stays w w1 \<Longrightarrow> stays w (snd (consume_extend_event w1))"
  by (auto simp: consume_extend_event_def split: prod.split option.split elim: stays_pop_notic)

lemma stays_sleep: "stays w w1 \<Longrightarrow> stays w (time_sleep ms w1)"
proof -
  have "stays w v \<Longrightarrow> stays w (((\<lambda>v. snd (consume_extend_event v)) ^^ k) v)" for v k
    by (induction k) (auto intro: stays_consume_event)
  then show "stays w w1 \<Longrightarrow> stays w (time_sleep ms w1)"
    by (simp add: time_sleep_def ask_def)
qed

lemma stays_push_loop: "notic_ok n \<Longrightarrow> stays w w1 \<Longrightarrow> stays w (snd (push_event_loop count n w1))"
proof (induction count n w1 rule: push_event_loop.induct)
  case (1 count n w1)
  obtain r w2 where p: "push_queue_inner_cb_notic n w1 = (r, w2)" by (cases "push_queue_inner_cb_notic n w1")
  have s: "stays w (time_sleep 10 w2)" "stays w w2"
    using stays_push_notic [OF p 1(2,3)] by (auto intro: stays_sleep)
  show ?case
    using 1(1) [OF p [symmetric] _ refl _ 1(2) s(1)] s by (subst push_event_loop.simps) (simp add: p Let_def)
qed

lemma stays_push_event: "notic_ok n \<Longrightarrow> stays w w1 \<Longrightarrow> stays w (snd (push_event_to_queue (Some n) w1))"
  by (simp add: push_event_to_queue_def stays_push_loop)

lemma stays_pushed: "push_event_to_queue (Some n) w1 = (r, w2) \<Longrightarrow> notic_ok n \<Longrightarrow> stays w w1 \<Longrightarrow> stays w w2"
  using stays_push_event [of n w w1] by simp

lemma stays_user_event:
  assumes "notic_ok (plain_notic extend_cb_event ev ctx)" and "stays w w1"
  shows "stays w (snd (broadcast_user_event ev ctx w1))"
  using assms by (auto simp: broadcast_user_event_def split: prod.split elim!: stays_malloc dest!: stays_pushed)

lemma stays_told: "broadcast_user_event ev ctx w1 = (r, w2) \<Longrightarrow> notic_ok (plain_notic extend_cb_event ev ctx) \<Longrightarrow>
    stays w w1 \<Longrightarrow> stays w w2"
  using stays_user_event [of ev ctx w w1] by simp

lemma stays_runtime_err:
  assumes "err_ctx_ok \<lparr>err_tag = tag, err_code = code, err_ctx = ctx\<rparr>" and "stays w w1"
  shows "stays w (snd (broadcast_runtime_err tag code ctx w1))"
  using assms by (auto simp: broadcast_runtime_err_def split: prod.split elim!: stays_malloc stays_told)

lemma stays_err: "broadcast_runtime_err tag code ctx w1 = (r, w2) \<Longrightarrow>
    err_ctx_ok \<lparr>err_tag = tag, err_code = code, err_ctx = ctx\<rparr> \<Longrightarrow> stays w w1 \<Longrightarrow> stays w w2"
  using stays_runtime_err [of tag code ctx w w1] by simp

lemma stays_broadcasts:
  assumes "stays w w1"
  shows "stays w (snd (broadcast_user_start w1))" "stays w (snd (broadcast_user_stop w1))"
    "stays w (snd (broadcast_user_event_reconnect_success w1))"
    "stays w (snd (das_keepalive_interval_changed_event_cb i w1))"
  using assms
  by (auto simp: broadcast_user_start_def broadcast_user_stop_def broadcast_user_event_reconnect_success_def
      das_keepalive_interval_changed_event_cb_def split: prod.split elim!: stays_malloc intro!: stays_push_event)

section \<open>Commands of the server\<close>

lemma used_kernel_extends:
  "map kernel_extend (used domain_key ds) = takeWhile (\<lambda>e. ke_domain_id e \<noteq> 0) (map kernel_extend ds)"
  "domain_key ` set (dropWhile (\<lambda>d. domain_key d \<noteq> 0) ds) =
     ke_domain_id ` set (dropWhile (\<lambda>e. ke_domain_id e \<noteq> 0) (map kernel_extend ds))"
  by (induction ds) (auto simp: image_image)

lemma table_wf_kernel_extends:
  "table_wf domain_key ds \<longleftrightarrow> table_wf ke_domain_id (map kernel_extend ds)"
proof -
  have "map domain_key (used domain_key ds) = map ke_domain_id (map kernel_extend (used domain_key ds))" by simp
  then show ?thesis unfolding table_wf_def used_kernel_extends by simp
qed

lemma tables_ok_domains:
  assumes "tables_ok w" and "map kernel_extend ds = map kernel_extend (g_kernel_domains w)" and "list_all risk_wf ds"
  shows "tables_ok (w\<lparr>g_kernel_domains := ds\<rparr>)"
proof -
  have "length ds = length (g_kernel_domains w)" using arg_cong [OF assms(2), of length] by simp
  then show ?thesis
    using assms unfolding tables_ok_defs table_wf_kernel_extends used_kernel_extends by simp
qed

lemma upd_domain_ok:
  assumes "state_ok w" and "\<And>d. kernel_extend (f d) = kernel_extend d" and "risk_wf (f (g_kernel_domains w ! i))"
    and "i < length (g_kernel_domains w)"
  shows "state_ok (upd_domain i f w)"
proof -
  have m: "map kernel_extend ((g_kernel_domains w)[i := f (g_kernel_domains w ! i)]) = map kernel_extend (g_kernel_domains w)"
    using assms(4) by (intro nth_equalityI) (auto simp: nth_list_update assms(2))
  have "list_all risk_wf ((g_kernel_domains w)[i := f (g_kernel_domains w ! i)])"
    using assms(1,3) set_update_subset_insert [of "g_kernel_domains w" i "f (g_kernel_domains w ! i)"]
    by (auto simp: list_all_iff state_ok_def tables_ok_defs)
  from tables_ok_domains [OF _ m this] show ?thesis
    using assms(1) by (simp add: state_ok_def upd_domain_def)
qed

lemma found_domain:
  assumes "state_ok w" and "extend_get d w = Some i"
  shows "i < length (g_kernel_domains w)" "risk_wf (g_kernel_domains w ! i)"
proof -
  show "i < length (g_kernel_domains w)"
    using extend_get_bound [OF assms(2)] assms(1) by (simp add: state_ok_def tables_ok_defs)
  then show "risk_wf (g_kernel_domains w ! i)"
    using assms(1) by (simp add: state_ok_def tables_ok_defs list_all_length)
qed

lemma risk_wf_block:
  assumes "risk_wf d" and "List.find (\<lambda>j. cmd_risk_array d ! j = 0) [0..<ezdev_sdk_risk_control_cmd_max] = Some j"
  shows "risk_wf (d\<lparr>cmd_risk_array := (cmd_risk_array d)[j := c]\<rparr>)"
proof -
  let ?n = "length (takeWhile (\<lambda>c. c \<noteq> 0) (cmd_risk_array d))"
  have len: "length (cmd_risk_array d) = ezdev_sdk_risk_control_cmd_max" using assms(1) by (simp add: risk_wf_def)
  have "(if ?n < length (cmd_risk_array d) then Some ?n else None) = Some j"
    using find_zero [of "cmd_risk_array d"] assms(2) by (simp add: len Let_def)
  then have j: "j = ?n" "?n < length (cmd_risk_array d)" by (simp_all split: if_splits)
  have 0: "cmd_risk_array d ! j = 0" using assms(2) by (auto simp: find_Some_iff)
  show ?thesis
  proof (cases "c = 0")
    case True
    then have "(cmd_risk_array d)[j := c] = cmd_risk_array d" using 0 by (metis list_update_id)
    then show ?thesis using assms(1) by simp
  next
    case False
    then show ?thesis
      using append_slot(2) [of "cmd_risk_array d" c] assms(1) j by (simp add: risk_wf_def)
  qed
qed

lemma risk_wf_domain [simp]: "risk_wf (d\<lparr>domain_risk := x\<rparr>) = risk_wf d"
  by (simp add: risk_wf_def)

lemma stays_risk:
  assumes "stays w w1"
  shows "stays w (add_domain_risk_control d w1)" "stays w (add_cmd_risk_control d c w1)"
    "stays w (add_access_risk_control w1)"
proof -
  have 1: "state_ok (add_domain_risk_control d w1) \<and> state_ok (add_cmd_risk_control d c w1)" if "state_ok w1"
    using that unfolding add_domain_risk_control_def add_cmd_risk_control_def
    by (auto split: option.split intro!: upd_domain_ok risk_wf_block dest: found_domain)
  moreover have "g_ezdev_sdk_kernel (add_domain_risk_control d w1) = g_ezdev_sdk_kernel w1"
    "g_ezdev_sdk_kernel (add_cmd_risk_control d c w1) = g_ezdev_sdk_kernel w1"
    by (simp_all add: add_domain_risk_control_def add_cmd_risk_control_def upd_domain_def split: option.split)
  ultimately show "stays w (add_domain_risk_control d w1)" "stays w (add_cmd_risk_control d c w1)"
    using assms by (auto simp: stays_def)
  show "stays w (add_access_risk_control w1)"
    using assms by (auto simp: stays_def add_access_risk_control_def World.upd_kernel_def kstays_def kcore_def)
qed

text \<open>The commands of the device domain.\<close>

lemma stays_bus: "stays w w1 \<Longrightarrow> stays w (snd (access_domain_bus_handle m w1))"
proof -
  assume s: "stays w w1"
  have ka: "stays w w2 \<Longrightarrow> stays w (upd_kernel (\<lambda>k. k\<lparr>das_keepalive_interval := i\<rparr>) w2)" for i w2
    by (simp add: stays_def upd_kernel_def kstays_def kcore_def)
  have conf: "stays w (snd (bus_handle_domainconfig m w1))"
    using s by (auto simp: bus_handle_domainconfig_def bus_handle_domainconfig_keepalive_def Let_def
        split: option.split intro!: stays_broadcasts(4) ka)
  have rsp: "stays w (snd (bus_handle_set_keeplive_time_rsp m w1))"
    using s by (auto simp: bus_handle_set_keeplive_time_rsp_def das_change_keep_alive_interval_def
        split: option.split intro!: stays_broadcasts(4) ka)
  have redir: "stays w (snd (bus_handle_dev_redirect m w1))"
    using s by (auto simp: bus_handle_dev_redirect_def stays_def upd_kernel_def kstays_def kcore_def split: sum.split)
  have cmds: "stays w (fold (risk_cmd d j) is w2)" if "stays w w2" for d j "is" w2
    using that by (induction "is" arbitrary: w2) (auto simp: risk_cmd_def intro: stays_risk(2) split: option.split)
  have dom: "stays w (snd (risk_domain n j i (d, w2)))" if "stays w w2" for n j i d w2
    using that by (auto simp: risk_domain_def Let_def split: option.split intro!: stays_risk(1) cmds)
  have doms: "stays w (snd (fold (risk_domain n j) is (d, w2)))" if "stays w w2" for n j "is" d w2
    using that
  proof (induction "is" arbitrary: d w2)
    case (Cons i "is")
    then show ?case using dom [of w2 n j i d] by (cases "risk_domain n j i (d, w2)") simp
  qed simp
  have risk: "stays w (snd (bus_handle_dev_risk m w1))"
    using s by (auto simp: bus_handle_dev_risk_def Let_def split: option.split intro!: doms)
  have off: "stays w (snd (bus_handle_force_offline w1))"
    using s by (auto simp: bus_handle_force_offline_def err_ctx_ok_def intro!: stays_risk(3) stays_runtime_err)
  show ?thesis
    unfolding access_domain_bus_handle_def Let_def using s conf rsp redir risk off by simp
qed

section \<open>Receiving\<close>

lemma stays_common: "common_module_bus_handle m w1 = (h, w2) \<Longrightarrow> stays w w1 \<Longrightarrow> stays w w2"
  by (auto simp: common_module_bus_handle_def split: if_splits option.splits prod.splits elim!: stays_ask)

lemma stays_handle_sub: "stays w w1 \<Longrightarrow> stays w (handle_sub_msg m w1)" "stays w w1 \<Longrightarrow> stays w (handle_sub_msg_v3 m3 w1)"
  by (auto simp: handle_sub_msg_def handle_sub_msg_v3_def split: prod.split elim!: stays_common stays_submsg(2) stays_submsg_v3(2)
      intro!: stays_bus)

lemma stays_receive_payload:
  "receive_payload deser put payload m w1 = (r, m', w2) \<Longrightarrow> stays w w1 \<Longrightarrow> stays w w2"
  by (auto simp: receive_payload_def Let_def split: prod.splits if_splits elim!: stays_malloc stays_dec)

lemma stays_receive:
  "stays w w1 \<Longrightarrow> stays w (das_message_receive topic payload w1)"
  "stays w w1 \<Longrightarrow> stays w (das_message_receive_v3 topic payload w1)"
  by (auto simp: das_message_receive_def das_message_receive_v3_def split: prod.split option.split sum.split
      elim!: stays_malloc stays_receive_payload intro!: stays_handle_sub)

lemma stays_deliver: "stays w w1 \<Longrightarrow> stays w (fold deliver msgs w1)"
  by (induction msgs arbitrary: w1) (auto simp: deliver_def split: prod.split intro: stays_receive)

section \<open>Sending\<close>

lemma stays_publish:
  "publish_payload width topic qos response ver seq body n w1 = (r, w2) \<Longrightarrow> stays w w1 \<Longrightarrow> stays w w2"
  by (auto simp: publish_payload_def serialize_payload_common_def Let_def
      split: prod.splits sum.splits if_splits elim!: stays_print stays_malloc stays_enc stays_ask)

lemma stays_send: "das_send_pubmsg m w1 = (r, w2) \<Longrightarrow> stays w w1 \<Longrightarrow> stays w w2"
  "das_send_pubmsg_v3 m3 w1 = (r, w2) \<Longrightarrow> stays w w1 \<Longrightarrow> stays w w2"
  using stays_publish by (simp_all add: das_send_pubmsg_def das_send_pubmsg_v3_def)

lemma stays_push_head: "stays w w1 \<Longrightarrow> stays w (snd (push_queue_head_pubmsg_exchange m w1))"
  "stays w w1 \<Longrightarrow> stays w (snd (push_queue_head_pubmsg_exchange_v3 m3 w1))"
  using stays_pubmsg(4) [of m w1] stays_pubmsg_v3(3) [of m3 w1] by (metis prod.collapse)+

lemma stays_send_messages:
  "send_message_to_das_v3 w1 = (r, w2) \<Longrightarrow> stays w w1 \<Longrightarrow> stays w w2"
  "send_message_to_das_v2 w1 = (r, w2) \<Longrightarrow> stays w w1 \<Longrightarrow> stays w w2"
  by (auto simp: send_message_to_das_v3_def send_message_to_das_v2_def Let_def err_ctx_ok_def
      split: prod.splits option.splits if_splits
      elim!: stays_send stays_pubmsg(1) stays_pubmsg_v3(1) stays_err intro!: stays_push_head)

lemma stays_message_send: "das_message_send w1 = (r, w2) \<Longrightarrow> stays w w1 \<Longrightarrow> stays w w2"
  by (auto simp: das_message_send_def split: prod.splits if_splits elim!: stays_send_messages)

section \<open>The connection\<close>

lemma stays_texts:
  "encrypt_text t w1 = (x, w2) \<Longrightarrow> stays w w1 \<Longrightarrow> stays w w2"
  "extend_serialize_sdk_version w1 = (r, v, w2) \<Longrightarrow> stays w w1 \<Longrightarrow> stays w w2"
  by (auto simp: encrypt_text_def extend_serialize_sdk_version_def Let_def split: prod.splits if_splits
      elim!: stays_malloc stays_enc stays_ask)

lemma stays_infos:
  "serialize_lightreginfo w1 = (x, w2) \<Longrightarrow> stays w w1 \<Longrightarrow> stays w w2"
  "serialize_devinfo w1 = (x, w2) \<Longrightarrow> stays w w1 \<Longrightarrow> stays w w2"
  by (auto simp: serialize_lightreginfo_def serialize_devinfo_def Let_def split: prod.splits sum.splits if_splits
      elim!: stays_print stays_json stays_texts stays_ask)

lemma stays_login: "das_mqttlogin2das light w1 = (r, w2) \<Longrightarrow> stays w w1 \<Longrightarrow> stays w w2"
  by (cases light) (auto simp: das_mqttlogin2das_def Let_def split: prod.splits sum.splits if_splits
      elim!: stays_ask stays_infos)

lemma stays_logout [simp]: "stays w (snd (das_mqtt_logout2das w1)) = stays w w1"
  by (simp add: das_mqtt_logout2das_def ask_def)

lemma stays_subscribe: "das_subscribe_revc_topic open w1 = (r, w2) \<Longrightarrow> stays w w1 \<Longrightarrow> stays w w2"
  by (auto simp: das_subscribe_revc_topic_def ask_def Let_def split: if_splits)

lemma stays_login_subscribe: "login_subscribe light w1 = (r, w2) \<Longrightarrow> stays w w1 \<Longrightarrow> stays w w2"
  by (auto simp: login_subscribe_def split: prod.splits if_splits elim!: stays_login stays_subscribe)

lemma stays_registrations:
  "das_reg w1 = (r, w2) \<Longrightarrow> stays w w1 \<Longrightarrow> stays w w2"
  "das_light_reg w1 = (r, w2) \<Longrightarrow> stays w w1 \<Longrightarrow> stays w w2"
  "das_light_reg_v2 w1 = (r, w2) \<Longrightarrow> stays w w1 \<Longrightarrow> stays w w2"
  "das_light_reg_v3 w1 = (r, w2) \<Longrightarrow> stays w w1 \<Longrightarrow> stays w w2"
  "das_unreg w1 = (r, w2) \<Longrightarrow> stays w w1 \<Longrightarrow> stays w w2"
proof -
  show "das_unreg w1 = (r, w2) \<Longrightarrow> stays w w1 \<Longrightarrow> stays w w2"
    using stays_subscribe [of False w1] by (auto simp: das_unreg_def) (metis prod.collapse)
qed (auto simp: das_reg_def das_light_reg_def das_light_reg_v2_def das_light_reg_v3_def
      elim!: stays_login_subscribe stays_login)

lemma stays_yield: "das_yield w1 = (r, w2) \<Longrightarrow> stays w w1 \<Longrightarrow> stays w w2"
  by (auto simp: das_yield_def Let_def split: prod.splits if_splits
      elim!: stays_ask stays_message_send intro!: stays_deliver)

section \<open>The user thread\<close>

lemma stays_handlers [simp]: "stays w (handle_v2 m w1) = stays w w1" "stays w (handle_v3 m3 w1) = stays w w1"
  by (simp_all add: handle_v2_def handle_v3_def route_v2_def route_v3_def split: option.split)

lemma stays_consume_data: "stays w w1 \<Longrightarrow> stays w (snd (consume_extend_data w1))"
proof (induction w1 rule: consume_extend_data.induct)
  case (1 w1)
  obtain r p w2 where q: "pop_queue_submsg w1 = (r, p, w2)" by (metis prod_cases3)
  from stays_submsg(1) [OF q 1(2)] show ?case
    using 1(1) [OF q [symmetric] refl] by (subst consume_extend_data.simps) (auto simp: q split: option.split)
qed

lemma stays_consume_data_v3: "stays w w1 \<Longrightarrow> stays w (snd (consume_extend_data_v3 w1))"
proof (induction w1 rule: consume_extend_data_v3.induct)
  case (1 w1)
  obtain r p w2 where q: "pop_queue_submsg_v3 w1 = (r, p, w2)" by (metis prod_cases3)
  from stays_submsg_v3(1) [OF q 1(2)] show ?case
    using 1(1) [OF q [symmetric] refl] by (subst consume_extend_data_v3.simps) (auto simp: q split: option.split)
qed

lemma stays_consume_all: "stays w w1 \<Longrightarrow> stays w (consume_all_events w1)"
proof (induction w1 rule: consume_all_events.induct)
  case (1 w1)
  obtain r w2 where e: "consume_extend_event w1 = (r, w2)" by (cases "consume_extend_event w1")
  have "stays w w2" using stays_consume_event [OF 1(2)] by (simp add: e)
  then show ?case using 1(1) [OF e [symmetric]] by (subst consume_all_events.simps) (simp add: e)
qed

lemma stays_extend_yield: "stays w w1 \<Longrightarrow> stays w (snd (extend_yield w1))"
  by (auto simp: extend_yield_def Let_def case_prod_beta split: sdk_state.split
      intro!: stays_consume_data stays_consume_data_v3 stays_consume_event stays_consume_all)

lemma stays_clear_pubmsg: "stays w w1 \<Longrightarrow> stays w (snd (clear_queue_pubmsg_exchange w1))"
proof (induction w1 rule: clear_queue_pubmsg_exchange.induct)
  case (1 w1)
  obtain r p w2 where q: "pop_queue_pubmsg_exchange w1 = (r, p, w2)" by (metis prod_cases3)
  from stays_pubmsg(1) [OF q 1(2)] show ?case
    using 1(1) [OF q [symmetric] refl] by (subst clear_queue_pubmsg_exchange.simps) (auto simp: q split: option.split)
qed

end
