(* ===== verification/Machine.thy ===== *)
theory Machine
  imports Stays
begin

text \<open>
  The state machine of the connection: which changes of state one turn can bring about, how its
  two counters move, and that it gives up a server after a bounded number of failures.
\<close>

section \<open>What a redirect may change\<close>

text \<open>The kernel object without the keys and the addresses of the servers.\<close>

definition kfix :: "ezdev_sdk_kernel \<Rightarrow> ezdev_sdk_kernel" where
  "kfix k = k\<lparr>dev_id := [], master_key := [], session_key := [], redirect_das_info := zero_das_info,
     server_info := server_info zero_kernel\<rparr>"

definition redirects :: "world \<Rightarrow> world \<Rightarrow> bool" where
  "redirects w w' \<longleftrightarrow> (state_ok w \<longrightarrow> state_ok w') \<and> kfix (g_ezdev_sdk_kernel w') = kfix (g_ezdev_sdk_kernel w)"

lemma redirects_trans: "redirects w1 w2 \<Longrightarrow> redirects w2 w3 \<Longrightarrow> redirects w1 w3"
  by (simp add: redirects_def)

lemma redirects_norm: "norm w' = norm v \<Longrightarrow> redirects w v \<Longrightarrow> redirects w w'"
proof -
  assume n: "norm w' = norm v" and r: "redirects w v"
  have s: "state_ok (norm u) = state_ok u" for u by (simp add: norm_def)
  have "kfix (g_ezdev_sdk_kernel (norm u)) = kfix (g_ezdev_sdk_kernel u)" for u
    by (simp add: norm_def kfix_def)
  from this [of w'] this [of v] have "kfix (g_ezdev_sdk_kernel w') = kfix (g_ezdev_sdk_kernel v)" using n by simp
  then show ?thesis using r s [of w'] s [of v] n by (simp add: redirects_def)
qed

lemma redirect_frame:
  assumes "lbs_redirect_by_keys u w = Some (r, w')"
  shows "redirects w w'"
proof -
  have "redirect_contract w r w'"
    using assms lbs_redirect_contract lbs_redirect_with_auth_contract lbs_redirect_createdevid_with_auth_contract
    by (auto simp: lbs_redirect_by_keys_def split: if_splits)
  moreover have "redirects w (w\<lparr>g_ezdev_sdk_kernel := (g_ezdev_sdk_kernel w)
        \<lparr>dev_id := i, master_key := m, session_key := sk, redirect_das_info := d\<rparr>\<rparr>)" for i m sk d
    by (simp add: redirects_def kfix_def)
  moreover have "redirects w w" by (simp add: redirects_def)
  ultimately show ?thesis by (auto simp: redirect_contract_def intro: redirects_norm split: if_splits)
qed

lemma lbs_frame: "cnt_state_lbs_redirect u w = Some (r, w') \<Longrightarrow> redirects w w'"
proof (induction u w rule: cnt_state_lbs_redirect.induct)
  case (1 u w)
  have f: "redirects v (forget_keys e v)" for e v
    by (simp add: redirects_def forget_keys_def upd_kernel_def kfix_def)
  obtain e w1 where e: "lbs_redirect_by_keys u w = Some (e, w1)"
    using 1(2) by (subst (asm) cnt_state_lbs_redirect.simps) (auto split: option.splits)
  have w2: "redirects w (forget_keys e w1)" using redirects_trans [OF redirect_frame [OF e] f] .
  then show ?case
    using 1(2) 1(1) [OF e refl refl] by (subst (asm) cnt_state_lbs_redirect.simps)
      (auto simp: e Let_def split: if_splits intro: redirects_trans)
qed

section \<open>One turn\<close>

text \<open>The changes of state that may happen.\<close>

inductive cnt_next :: "sdk_cloud_cnt_state \<Rightarrow> sdk_cloud_cnt_state \<Rightarrow> bool" where
  redirected: "cnt_next sdk_cnt_unredirect sdk_cnt_redirected"
| registered: "cnt_next sdk_cnt_redirected sdk_cnt_das_reged"
| broken: "cnt_next sdk_cnt_das_reged sdk_cnt_das_break"
| reconnected: "cnt_next sdk_cnt_das_break sdk_cnt_das_reged"
| fast: "cnt_next sdk_cnt_das_fast_reg sdk_cnt_das_reged"
| fast_v3: "cnt_next sdk_cnt_das_fast_reg_v3 sdk_cnt_das_reged"
| given_up: "s \<noteq> sdk_cnt_unredirect \<Longrightarrow> cnt_next s sdk_cnt_unredirect"

code_pred cnt_next .

inductive_simps cnt_next_from [simp]:
  "cnt_next sdk_cnt_unredirect s" "cnt_next sdk_cnt_redirected s" "cnt_next sdk_cnt_das_reged s"
  "cnt_next sdk_cnt_das_break s" "cnt_next sdk_cnt_das_fast_reg s" "cnt_next sdk_cnt_das_fast_reg_v3 s"

lemma cnt_next_unredirect [simp]: "cnt_next s sdk_cnt_unredirect \<longleftrightarrow> s \<noteq> sdk_cnt_unredirect"
  by (cases s) auto

text \<open>The bounds of the two counters of failures.\<close>

definition counters_ok :: "ezdev_sdk_kernel \<Rightarrow> bool" where
  "counters_ok k \<longleftrightarrow> lbs_redirect_times k \<le> 60 \<and> das_retry_times k \<le> 5"

text \<open>
  What one turn does to the kernel object: the state changes along \<open>cnt_next\<close> only, a new server
  is entered only by a turn that succeeded, the counters stay within their bounds, and the life
  cycle, the device's data and a block of the device stay as they are.
\<close>

definition turns :: "mkernel_internal_error \<Rightarrow> ezdev_sdk_kernel \<Rightarrow> ezdev_sdk_kernel \<Rightarrow> bool" where
  "turns r k k' \<longleftrightarrow> (cnt_state k' \<noteq> cnt_state k \<longrightarrow> cnt_next (cnt_state k) (cnt_state k') \<and>
        (cnt_state k' \<in> {sdk_cnt_redirected, sdk_cnt_das_reged} \<longrightarrow> r = mkernel_internal_succ)) \<and>
     (counters_ok k \<longrightarrow> counters_ok k') \<and> my_state k' = my_state k \<and> dev_info k' = dev_info k \<and>
     (access_risk k = sdk_risk_control \<longrightarrow> access_risk k' = sdk_risk_control)"

lemma kstays_fields:
  assumes "kstays k k'"
  shows "lbs_redirect_times k' = lbs_redirect_times k" "das_retry_times k' = das_retry_times k"
    "my_state k' = my_state k" "dev_info k' = dev_info k" "cnt_state k' = cnt_state k \<or> cnt_state k' = sdk_cnt_unredirect"
    "access_risk k = sdk_risk_control \<Longrightarrow> access_risk k' = sdk_risk_control"
proof -
  have c: "kcore k' = kcore k" using assms by (simp add: kstays_def)
  show "lbs_redirect_times k' = lbs_redirect_times k" "das_retry_times k' = das_retry_times k"
    "my_state k' = my_state k" "dev_info k' = dev_info k"
    using arg_cong [OF c, of lbs_redirect_times] arg_cong [OF c, of das_retry_times] arg_cong [OF c, of my_state]
      arg_cong [OF c, of dev_info] by (simp_all add: kcore_def)
  show "cnt_state k' = cnt_state k \<or> cnt_state k' = sdk_cnt_unredirect"
    "access_risk k = sdk_risk_control \<Longrightarrow> access_risk k' = sdk_risk_control"
    using assms by (auto simp: kstays_def)
qed

lemma kfix_fields:
  assumes "kfix k' = kfix k"
  shows "lbs_redirect_times k' = lbs_redirect_times k" "das_retry_times k' = das_retry_times k"
    "my_state k' = my_state k" "dev_info k' = dev_info k" "cnt_state k' = cnt_state k"
    "access_risk k' = access_risk k" "entr_state k' = entr_state k"
  using arg_cong [OF assms, of lbs_redirect_times] arg_cong [OF assms, of das_retry_times]
    arg_cong [OF assms, of my_state] arg_cong [OF assms, of dev_info] arg_cong [OF assms, of cnt_state]
    arg_cong [OF assms, of access_risk] arg_cong [OF assms, of entr_state]
  by (simp_all add: kfix_def)

section \<open>The turn keeps its contract\<close>

text \<open>The common part of all steps: the counters, the life cycle and the device stay, no block is lifted.\<close>

definition kbase :: "ezdev_sdk_kernel \<Rightarrow> ezdev_sdk_kernel \<Rightarrow> bool" where
  "kbase k k' \<longleftrightarrow> lbs_redirect_times k' = lbs_redirect_times k \<and> das_retry_times k' = das_retry_times k \<and>
     my_state k' = my_state k \<and> dev_info k' = dev_info k \<and>
     (cnt_state k' = cnt_state k \<or> cnt_state k' = sdk_cnt_unredirect) \<and>
     (access_risk k = sdk_risk_control \<longrightarrow> access_risk k' = sdk_risk_control)"

lemma kbase_refl [simp]: "kbase k k"
  by (simp add: kbase_def)

lemma kbase_trans: "kbase k1 k2 \<Longrightarrow> kbase k2 k3 \<Longrightarrow> kbase k1 k3"
  by (auto simp: kbase_def)

lemma stays_kbase: "stays w w' \<Longrightarrow> kbase (g_ezdev_sdk_kernel w) (g_ezdev_sdk_kernel w')"
  using kstays_fields [of "g_ezdev_sdk_kernel w" "g_ezdev_sdk_kernel w'"] by (simp add: stays_def kbase_def)

lemma redirects_kbase: "redirects w w' \<Longrightarrow> kbase (g_ezdev_sdk_kernel w) (g_ezdev_sdk_kernel w')"
  using kfix_fields [of "g_ezdev_sdk_kernel w'" "g_ezdev_sdk_kernel w"] by (simp add: redirects_def kbase_def)

lemma turns_base: "kbase k k' \<Longrightarrow> turns r k k'"
  by (auto simp: kbase_def turns_def counters_ok_def)

lemma turns_settled:
  assumes "kbase k k2" and "kbase (k2\<lparr>cnt_state := c, lbs_redirect_times := 0, das_retry_times := 0\<rparr>) k'"
    and "c = cnt_state k \<or> cnt_next (cnt_state k) c"
    and "c \<in> {sdk_cnt_redirected, sdk_cnt_das_reged} \<Longrightarrow> r = mkernel_internal_succ"
  shows "turns r k k'"
proof -
  have "cnt_state k' = c \<or> cnt_state k' = sdk_cnt_unredirect" using assms(2) by (simp add: kbase_def)
  then show ?thesis
    using assms by (auto simp: kbase_def turns_def counters_ok_def)
qed

lemma turns_counted:
  assumes "kbase k k2" and "kbase (k2\<lparr>das_retry_times := n\<rparr>) k'" and "counters_ok k \<Longrightarrow> n \<le> 5"
  shows "turns r k k'"
  using assms by (auto simp: kbase_def turns_def counters_ok_def)

lemma turns_lbs_counted:
  assumes "kbase k k2" and "kbase (k2\<lparr>lbs_redirect_times := n\<rparr>) k'" and "counters_ok k \<Longrightarrow> n \<le> 60"
  shows "turns r k k'"
  using assms by (auto simp: kbase_def turns_def counters_ok_def)

text \<open>The pieces the turns are made of.\<close>

lemma kernel_settle [simp]:
  "g_ezdev_sdk_kernel (settle c w) =
     (g_ezdev_sdk_kernel w)\<lparr>cnt_state := c, lbs_redirect_times := 0, das_retry_times := 0\<rparr>"
  by (simp add: settle_def upd_kernel_def)

lemma state_ok_kernel [simp]: "state_ok (settle c w) = state_ok w" "state_ok (upd_kernel f w) = state_ok w"
  "g_ezdev_sdk_kernel (upd_kernel f w) = f (g_ezdev_sdk_kernel w)"
  by (simp_all add: settle_def upd_kernel_def)

lemma stays_reports: "stays w (report_access r w)"
  "notic_ok (plain_notic extend_cb_event ev (Some c)) \<Longrightarrow> stays w (tell ev c w)"
  by (auto simp: report_access_def tell_def err_ctx_ok_def intro!: stays_runtime_err stays_user_event)

lemma stays_ok: "stays w w' \<Longrightarrow> state_ok w \<Longrightarrow> state_ok w'"
  by (simp add: stays_def)

lemma notic_contexts [simp]:
  "notic_ok (plain_notic t e (Some (sessionkey_context k))) = (e = sdk_kernel_event_runtime_err \<longrightarrow> t \<noteq> extend_cb_event)"
  "notic_ok (plain_notic t e (Some (switchover_context k))) = (e = sdk_kernel_event_runtime_err \<longrightarrow> t \<noteq> extend_cb_event)"
  "notic_ok (plain_notic t e (Some (offline_context r k))) = (e = sdk_kernel_event_runtime_err \<longrightarrow> t \<noteq> extend_cb_event)"
  by (simp_all add: sessionkey_context_def switchover_context_def offline_context_def Let_def)

lemma not_expired_stays: "not_expired ms w = (b, w1) \<Longrightarrow> stays w w1"
  by (auto simp: not_expired_def ask_def)

lemma lbs_wait_stays: "lbs_must_wait w = (b, w1) \<Longrightarrow> stays w w1"
  unfolding lbs_must_wait_def Let_def
  by (auto split: if_split_asm prod.split_asm dest: not_expired_stays)

lemma das_wait_stays: "das_must_wait ms w = (b, w1) \<Longrightarrow> stays w w1"
  unfolding das_must_wait_def Let_def by (auto split: if_split_asm dest: not_expired_stays)

lemma count_lbs_bound: "count_lbs_failure r n \<le> 60"
  by (auto simp: count_lbs_failure_def intro: less_imp_le)

definition turn_ok :: "world \<Rightarrow> mkernel_internal_error \<Rightarrow> world \<Rightarrow> bool" where
  "turn_ok w r w' \<longleftrightarrow> (state_ok w \<longrightarrow> state_ok w') \<and> turns r (g_ezdev_sdk_kernel w) (g_ezdev_sdk_kernel w')"

lemma lbs_turn:
  assumes "cnt w = sdk_cnt_unredirect" and "cnt_lbs_redirect_do w = Some (r, w')"
  shows "turn_ok w r w'"
proof -
  obtain b w1 where 1: "lbs_must_wait w = (b, w1)" by (cases "lbs_must_wait w")
  note s1 = lbs_wait_stays [OF 1]
  show ?thesis
  proof (cases b)
    case True
    then show ?thesis
      using assms(2) 1 s1 stays_kbase [OF s1] by (auto simp: cnt_lbs_redirect_do_def turn_ok_def turns_base stays_ok)
  next
    case False
    then obtain w2 where 2: "cnt_state_lbs_redirect 1 (act Do_countdown w1) = Some (r, w2)"
      and w': "w' = (if r = mkernel_internal_succ then settle sdk_cnt_redirected w2
           else upd_kernel (\<lambda>k. k\<lparr>lbs_redirect_times := count_lbs_failure r (lbs_redirect_times k)\<rparr>) (report_access r w2))"
      using assms(2) 1 by (auto simp: cnt_lbs_redirect_do_def split: option.splits)
    have s0: "stays w (act Do_countdown w1)" using s1 by simp
    have k: "kbase (g_ezdev_sdk_kernel w) (g_ezdev_sdk_kernel w2)"
      using kbase_trans [OF stays_kbase [OF s0] redirects_kbase [OF lbs_frame [OF 2]]] .
    have ok: "state_ok w \<Longrightarrow> state_ok w2" using stays_ok [OF s0] lbs_frame [OF 2] by (simp add: redirects_def)
    show ?thesis
    proof (cases "r = mkernel_internal_succ")
      case True
      then show ?thesis
        using w' ok turns_settled [OF k kbase_refl, of sdk_cnt_redirected r] assms(1) by (simp add: turn_ok_def)
    next
      case False
      have k3: "kbase (g_ezdev_sdk_kernel w) (g_ezdev_sdk_kernel (report_access r w2))"
        using kbase_trans [OF k stays_kbase [OF stays_reports(1)]] .
      then show ?thesis
        using w' ok turns_lbs_counted [OF k3 kbase_refl count_lbs_bound] stays_ok [OF stays_reports(1)] False
        by (simp add: turn_ok_def)
    qed
  qed
qed

lemma turn_stays: "stays w w' \<Longrightarrow> turn_ok w r w'"
  by (simp add: turn_ok_def stays_ok turns_base stays_kbase)

lemma turn_settled:
  assumes "stays w w2" and "stays (settle c w2) w'"
    and "c = cnt w \<or> cnt_next (cnt w) c"
    and "c \<in> {sdk_cnt_redirected, sdk_cnt_das_reged} \<Longrightarrow> r = mkernel_internal_succ"
  shows "turn_ok w r w'"
proof -
  note k = stays_kbase [OF assms(1)]
  have "kbase ((g_ezdev_sdk_kernel w2)\<lparr>cnt_state := c, lbs_redirect_times := 0, das_retry_times := 0\<rparr>) (g_ezdev_sdk_kernel w')"
    using stays_kbase [OF assms(2)] by simp
  from turns_settled [OF k this assms(3,4)] show ?thesis
    using stays_ok [OF assms(1)] stays_ok [OF assms(2)] by (simp add: turn_ok_def)
qed

text \<open>A failure is reported and counted; too many of them give the server up.\<close>

lemma turn_counted:
  assumes "stays w w2" and "count_das_failure n w2 = (many, w3)" and "n \<le> 5" and "cnt w \<noteq> sdk_cnt_unredirect"
    and "stays w3 w4" and "w' = (if many then settle sdk_cnt_unredirect w4 else w3)"
  shows "turn_ok w r w'"
proof -
  let ?k = "g_ezdev_sdk_kernel w2" and ?t = "das_retry_times (g_ezdev_sdk_kernel w2)"
  have w3: "w3 = upd_kernel (\<lambda>k. k\<lparr>das_retry_times := ?t + 1\<rparr>) w2" "many \<longleftrightarrow> ?t \<ge> n"
    using assms(2) by (auto simp: count_das_failure_def Let_def)
  note k = stays_kbase [OF assms(1)]
  show ?thesis
  proof (cases many)
    case True
    then have w4: "stays w3 w4" "w' = settle sdk_cnt_unredirect w4" using assms(5,6) by simp_all
    have "kbase (?k\<lparr>das_retry_times := ?t + 1\<rparr>) (g_ezdev_sdk_kernel w4)" using stays_kbase [OF w4(1)] w3 by simp
    then have "turns r (g_ezdev_sdk_kernel w) (g_ezdev_sdk_kernel w')"
      using k w4(2) assms(4) by (auto simp: turns_def kbase_def counters_ok_def)
    then show ?thesis using w4 w3 stays_ok [OF assms(1)] stays_ok [OF w4(1)] by (simp add: turn_ok_def)
  next
    case False
    then have "?t + 1 \<le> 5" using w3(2) assms(3) by (metis inc_le not_le order.trans)
    then show ?thesis
      using False assms(6) w3 turns_counted [OF k kbase_refl] stays_ok [OF assms(1)] by (simp add: turn_ok_def)
  qed
qed

lemma reg_turn:
  assumes "cnt w = sdk_cnt_redirected" and "cnt_das_reg_do w = (r, w')"
  shows "turn_ok w r w'"
proof -
  obtain b w1 where 1: "das_must_wait 2000 w = (b, w1)" by (cases "das_must_wait 2000 w")
  note s1 = das_wait_stays [OF 1]
  obtain r1 w2 where 2: "cnt_state_das_reged (act Do_countdown w1) = (r1, w2)"
    by (cases "cnt_state_das_reged (act Do_countdown w1)")
  obtain v where v: "das_unreg (act Do_countdown w1) = v" "das_reg (snd v) = (r1, w2)"
    using 2 by (auto simp: cnt_state_das_reged_def)
  have s2: "stays w w2"
    using v s1 by (cases v) (auto elim!: stays_registrations(1,5))
  obtain r2 w3 where 3: "(if r1 = mkernel_internal_mqtt_session_exist then cnt_state_das_fast_reg w2 else (r1, w2)) = (r2, w3)"
    by (cases "if r1 = mkernel_internal_mqtt_session_exist then cnt_state_das_fast_reg w2 else (r1, w2)")
  have s3: "stays w w3" using 3 s2 by (auto simp: cnt_state_das_fast_reg_def split: if_splits elim: stays_registrations(3))
  show ?thesis
  proof (cases b)
    case True
    then show ?thesis using assms(2) 1 s1 by (auto simp: cnt_das_reg_do_def turn_stays)
  next
    case False
    note run = assms(2) [unfolded cnt_das_reg_do_def 1, simplified False 2 3 prod.case if_False, simplified]
    show ?thesis
    proof (cases "r2 = mkernel_internal_succ")
      case True
      have e: "stays v (upd_kernel (\<lambda>k. k\<lparr>entr_state := sdk_entrance_normal\<rparr>) v')" if "stays v v'" for v v'
        using that by (simp add: stays_def kstays_def kcore_def)
      have "stays (settle sdk_cnt_das_reged w3) w' \<and> r = r2"
        using run True by (auto simp: Let_def intro!: e stays_reports(2) split: if_splits)
      then show ?thesis using turn_settled [OF s3, of sdk_cnt_das_reged w' r] assms(1) True by simp
    next
      case f: False
      obtain many w4 where c: "count_das_failure 5 (report_access r2 w3) = (many, w4)"
        by (cases "count_das_failure 5 (report_access r2 w3)")
      have "w' = (if many then settle sdk_cnt_unredirect w4 else w4)" using run f c by auto
      then show ?thesis
        using turn_counted [OF stays_trans [OF s3 stays_reports(1)] c _ _ stays_refl] assms(1) by simp
    qed
  qed
qed

lemma work_turn:
  assumes "cnt w = sdk_cnt_das_reged" and "cnt_das_work_do w = (r, w')"
  shows "turn_ok w r w'"
proof -
  obtain w1 where 1: "das_yield w = (r, w1)"
    using assms(2) by (auto simp: cnt_das_work_do_def cnt_state_das_work_def split: prod.splits)
  have s1: "stays w w1" using stays_yield [OF 1] by simp
  have s2: "stays w (report_access r w1)" using stays_trans [OF s1 stays_reports(1)] .
  have w': "w' = (if r \<noteq> mkernel_internal_succ \<and> r \<noteq> mkernel_internal_queue_empty
      then if r = mkernel_internal_das_need_reconnect
           then upd_kernel (\<lambda>k. k\<lparr>cnt_state := sdk_cnt_das_break\<rparr>) (report_access r w1) else report_access r w1
      else w1)"
    using assms(2) 1 by (auto simp: cnt_das_work_do_def cnt_state_das_work_def Let_def)
  have "turn_ok w r (upd_kernel (\<lambda>k. k\<lparr>cnt_state := sdk_cnt_das_break\<rparr>) (report_access r w1))"
    using stays_kbase [OF s2] stays_ok [OF s2] assms(1) by (auto simp: turn_ok_def turns_def kbase_def counters_ok_def)
  then show ?thesis using w' s1 s2 by (auto simp: turn_stays)
qed

lemma retry_turn:
  assumes "cnt w = sdk_cnt_das_break" and "cnt_das_retry_do w = (r, w')"
  shows "turn_ok w r w'"
proof -
  obtain b w1 where 1: "das_must_wait 1000 w = (b, w1)" by (cases "das_must_wait 1000 w")
  note s1 = das_wait_stays [OF 1]
  obtain r2 w2 where 2: "cnt_state_das_retry (act Do_countdown w1) = (r2, w2)"
    by (cases "cnt_state_das_retry (act Do_countdown w1)")
  have s2: "stays w w2" using 2 s1 by (auto simp: cnt_state_das_retry_def elim!: stays_registrations(2))
  show ?thesis
  proof (cases b)
    case True
    then show ?thesis using assms(2) 1 s1 by (auto simp: cnt_das_retry_do_def turn_stays)
  next
    case False
    note run = assms(2) [unfolded cnt_das_retry_do_def 1, simplified False 2 prod.case if_False, simplified]
    show ?thesis
    proof (cases "r2 = mkernel_internal_succ")
      case True
      have "stays (settle sdk_cnt_das_reged w2) w' \<and> r = r2"
        using run True by (auto intro!: stays_broadcasts(3))
      then show ?thesis using turn_settled [OF s2, of sdk_cnt_das_reged w' r] assms(1) True by simp
    next
      case f: False
      obtain many w3 where c: "count_das_failure 3 (report_access r2 w2) = (many, w3)"
        by (cases "count_das_failure 3 (report_access r2 w2)")
      have "w' = (if many then settle sdk_cnt_unredirect
          (tell sdk_kernel_event_break (offline_context r2 (g_ezdev_sdk_kernel w3)) w3) else w3)"
        using run f c by auto
      then show ?thesis
        using turn_counted [OF stays_trans [OF s2 stays_reports(1)] c _ _ stays_reports(2)] assms(1) by simp
    qed
  qed
qed

lemma stays_attempts:
  assumes "\<And>v r v'. f v = (r, v') \<Longrightarrow> stays v v'"
  shows "attempts n f w = (r, w') \<Longrightarrow> stays w w'"
proof (induction n arbitrary: w)
  case (Suc n)
  then show ?case by (auto split: prod.splits if_splits dest!: assms intro: stays_trans)
qed simp

lemma fast_turn:
  assumes "cnt_next (cnt w) sdk_cnt_das_reged" and "\<And>v r v'. f v = (r, v') \<Longrightarrow> stays v v'" and "fast_do f w = (r, w')"
  shows "turn_ok w r w'"
proof -
  obtain r1 w1 where 1: "attempts 3 f w = (r1, w1)" by (cases "attempts 3 f w")
  have s1: "stays w w1" using stays_attempts [OF assms(2) 1] .
  show ?thesis
  proof (cases "r1 = mkernel_internal_succ")
    case True
    then have "stays (settle sdk_cnt_das_reged w1) w' \<and> r = r1"
      using assms(3) 1 by (auto simp: fast_do_def Let_def intro!: stays_reports(2))
    then show ?thesis using turn_settled [OF s1, of sdk_cnt_das_reged w' r] assms(1) True by simp
  next
    case False
    then have "w' = settle sdk_cnt_unredirect (report_access r1 w1)" using assms(3) 1 by (auto simp: fast_do_def)
    then show ?thesis
      using turn_settled [OF stays_trans [OF s1 stays_reports(1) [of w1 r1]], of sdk_cnt_unredirect w' r] by (cases "cnt w") auto
  qed
qed

lemma turn_turns:
  assumes "turn w = Some (r, w')"
  shows "turn_ok w r w'"
proof (cases "cnt w")
  case sdk_cnt_unredirect
  then show ?thesis using assms lbs_turn by (simp add: turn_def)
next
  case sdk_cnt_redirected
  then show ?thesis using assms reg_turn by (simp add: turn_def)
next
  case sdk_cnt_das_reged
  then show ?thesis using assms work_turn by (simp add: turn_def)
next
  case sdk_cnt_das_break
  then show ?thesis using assms retry_turn by (simp add: turn_def)
next
  case sdk_cnt_das_fast_reg
  have "cnt_next (cnt w) sdk_cnt_das_reged" using sdk_cnt_das_fast_reg by simp
  then show ?thesis
    using assms sdk_cnt_das_fast_reg fast_turn [of w cnt_state_das_fast_reg r w'] stays_registrations(3)
    by (simp add: turn_def cnt_das_reg_fast_do_def cnt_state_das_fast_reg_def)
next
  case sdk_cnt_das_fast_reg_v3
  have "cnt_next (cnt w) sdk_cnt_das_reged" using sdk_cnt_das_fast_reg_v3 by simp
  then show ?thesis
    using assms sdk_cnt_das_fast_reg_v3 fast_turn [of w cnt_state_das_fast_reg_v3 r w'] stays_registrations(4)
    by (simp add: turn_def cnt_das_reg_v3_fast_do_def cnt_state_das_fast_reg_v3_def)
qed

lemma after_turn_ok:
  assumes "turn_ok w r w1"
  shows "turn_ok w r (after_turn r w1)"
proof -
  let ?k = "g_ezdev_sdk_kernel w" and ?k1 = "g_ezdev_sdk_kernel w1"
  have 1: "turn_ok w r (add_access_risk_control w1)"
    using assms by (auto simp: turn_ok_def turns_def add_access_risk_control_def counters_ok_def)
  define w2 where "w2 = tell sdk_kernel_event_break (offline_context r ?k1) w1"
  have s: "stays w1 w2" unfolding w2_def by (rule stays_reports) simp
  have "turn_ok w r (settle sdk_cnt_unredirect w2)"
    using assms stays_kbase [OF s] stays_ok [OF s]
    by (auto simp: turn_ok_def turns_def kbase_def counters_ok_def)
  then show ?thesis using 1 assms by (auto simp: after_turn_def w2_def)
qed

lemma yield_turns:
  assumes "access_server_yield w = Some (r, w')"
  shows "turn_ok w r w'"
proof (cases "check_access_risk_control w = 0")
  case False
  then show ?thesis using assms by (simp add: access_server_yield_def cnt_state_yield_def turn_stays)
next
  case True
  then obtain w1 where "turn w = Some (r, w1)" "w' = after_turn r w1"
    using assms by (auto simp: access_server_yield_def cnt_state_yield_def)
  then show ?thesis using after_turn_ok turn_turns by simp
qed

section \<open>Properties\<close>

text \<open>
  C2: One turn of the connection, from any state and whatever the servers and the platform answer:
  the connection changes along the allowed transitions only, it enters a redirected or registered
  state only by a turn that reports success, the failure counters stay within 60 and 5 (so the
  8-bit counters never wrap), and the life cycle, the device's data and a block of the device are
  not touched.
\<close>

theorem connection_state_machine:
  assumes "access_server_yield w = Some (r, w')"
  shows "turns r (g_ezdev_sdk_kernel w) (g_ezdev_sdk_kernel w')"
  using yield_turns [OF assms] by (simp add: turn_ok_def)

lemma das_retry_report: "das_retry_times (g_ezdev_sdk_kernel (report_access r w)) = das_retry_times (g_ezdev_sdk_kernel w)"
  using stays_reports(1) [of w r] by (intro kstays_fields(2)) (simp add: stays_def)

theorem connection_state_machine_witness:
  "\<exists>w'. access_server_yield (settle sdk_cnt_redirected (boot_world calm_env)) = Some (mkernel_internal_input_param_invalid, w') \<and>
     turns mkernel_internal_input_param_invalid (g_ezdev_sdk_kernel (settle sdk_cnt_redirected (boot_world calm_env)))
       (g_ezdev_sdk_kernel w') \<and> das_retry_times (g_ezdev_sdk_kernel w') = 1"
proof -
  let ?x = "settle sdk_cnt_redirected (boot_world calm_env)"
  define w1 where "w1 = act Do_countdown ?x"
  have k: "g_ezdev_sdk_kernel w1 = zero_kernel\<lparr>cnt_state := sdk_cnt_redirected\<rparr>" "env w1 = calm_env"
    by (simp_all add: w1_def settle_def boot_world_def zero_kernel_def upd_kernel_def act_def)
  define w2 where "w2 = snd (das_unreg w1)"
  have w2: "g_ezdev_sdk_kernel w2 = g_ezdev_sdk_kernel w1" "env w2 = env w1"
    by (simp_all add: w2_def das_unreg_def das_mqtt_logout2das_def das_subscribe_revc_topic_def ask_def Let_def act_def)
  have ke: "key_empty (dev_id (g_ezdev_sdk_kernel w2))"
    using w2 k by (simp add: zero_kernel_def key_empty_def ezdev_sdk_devid_len_def numeral_eq_Suc)
  define w3 where "w3 = snd (cnt_state_das_reged w1)"
  have w3: "cnt_state_das_reged w1 = (mkernel_internal_input_param_invalid, w3)"
      "g_ezdev_sdk_kernel w3 = g_ezdev_sdk_kernel w1"
    using w2 k ke by (simp_all add: w3_def cnt_state_das_reged_def w2_def [symmetric] das_reg_def login_subscribe_def
        das_mqttlogin2das_def ask_def Let_def calm_env_def act_def)
  have "das_must_wait 2000 ?x = (False, ?x)"
    by (simp add: das_must_wait_def settle_def boot_world_def zero_kernel_def)
  then have d: "cnt_das_reg_do ?x = (mkernel_internal_input_param_invalid,
      snd (count_das_failure 5 (report_access mkernel_internal_input_param_invalid w3)))"
    using w3 k by (simp add: cnt_das_reg_do_def w1_def [symmetric] count_das_failure_def das_retry_report zero_kernel_def)
  have "map_option (\<lambda>(r, w'). (r, das_retry_times (g_ezdev_sdk_kernel w'))) (access_server_yield ?x) =
      Some (mkernel_internal_input_param_invalid, 1)"
    using d w3(2) k by (simp add: access_server_yield_def cnt_state_yield_def turn_def check_access_risk_control_def
        after_turn_def count_das_failure_def das_retry_report settle_def boot_world_def zero_kernel_def)
  then obtain w' where y: "access_server_yield ?x = Some (mkernel_internal_input_param_invalid, w')"
      "das_retry_times (g_ezdev_sdk_kernel w') = 1"
    by auto
  then show ?thesis using connection_state_machine [OF y(1)] by blast
qed

end
