(* ===== verification/Sending.thy ===== *)
theory Sending
  imports Access
begin

text \<open>
  The messages of the device on their way into the publish queues: \<open>ezdev_sdk_kernel_send\<close> and
  \<open>ezdev_sdk_kernel_send_v3\<close> (microkernel/src/ezdev_sdk_kernel.c), the message of
  \<open>ezdev_sdk_kernel_set_keepalive_interval\<close> (ezdev_sdk_kernel_ex.c) and the message that takes the
  device off line (ezdev_sdk_kernel_access.c).
\<close>

section \<open>Sending\<close>

definition ezdev_sdk_domain_id :: u32 where "ezdev_sdk_domain_id = 1100"
definition ezdev_sdk_cmd_version :: string where "ezdev_sdk_cmd_version = ''v1.0.0''"
definition SendISAPIReq :: u32 where "SendISAPIReq = 0x00004D01"
definition SendISAPIRsp :: u32 where "SendISAPIRsp = 0x00004D02"
definition SendISAPIEventReq :: u32 where "SendISAPIEventReq = 0x00004D03"
definition SendISAPIEventRsp :: u32 where "SendISAPIEventRsp = 0x00004D03"
definition DAS_CMD_PU2CENPLTSETKEEPALIVETIMEREQ :: u32 where "DAS_CMD_PU2CENPLTSETKEEPALIVETIMEREQ = 0x3452"

text \<open>The next sequence number; zero comes up again after the largest one.\<close>

definition genaral_seq :: "world \<Rightarrow> u32 \<times> world" where
  "genaral_seq w = (let s = g_das_transport_seq w + 1 in (s, w\<lparr>g_das_transport_seq := s\<rparr>))"

text \<open>
  The copy of a caller's buffer: \<open>n\<close> bytes are taken whatever the buffer's true length is.
\<close>

definition copy_buf :: "nat \<Rightarrow> byte list option \<Rightarrow> world \<Rightarrow> byte list \<times> world" where
  "copy_buf n p w = (let b = (case p of None \<Rightarrow> [] | Some b \<Rightarrow> b)
     in if length b < n then (take n (b @ replicate n 0), undefined_behaviour w) else (take n b, w))"

text \<open>The caller's context, copied into a block of its own; \<open>None\<close>: there was no memory.\<close>

definition copy_ctx :: "byte list option \<Rightarrow> u32 \<Rightarrow> world \<Rightarrow> (byte list option \<times> u32) option \<times> world" where
  "copy_ctx ctx len w =
     (if ctx = None \<or> len = 0 then (Some (None, 0), w)
      else case w_malloc w of (ok, w1) \<Rightarrow>
        if \<not> ok then (None, w1)
        else case copy_buf (unat len) ctx w1 of (b, w2) \<Rightarrow> (Some (Some b, len), w2))"

text \<open>
  The body that the two routines of protocol 2.0 and 3.0 have in common, from the first block on:
  a record for the message, a copy of its text, a sequence number for a request, a copy of the
  user's context, and the push on the queue; whatever fails, the blocks so far are freed.
  \<open>build\<close> makes the record from the text, the number and the context, \<open>push\<close> queues it.
\<close>

definition queue_message ::
  "(byte list \<Rightarrow> u32 \<Rightarrow> byte list option \<Rightarrow> u32 \<Rightarrow> 'm) \<Rightarrow> ('m \<Rightarrow> world \<Rightarrow> mkernel_internal_error \<times> world) \<Rightarrow>
   u8 \<Rightarrow> u32 \<Rightarrow> byte list option \<Rightarrow> u32 \<Rightarrow> byte list option \<Rightarrow> u32 \<Rightarrow> world \<Rightarrow>
   ezdev_sdk_kernel_error \<times> u32 \<times> world" where
  "queue_message build push response seq0 body len ctx ctx_len w =
     (case w_malloc w of (ok, w1) \<Rightarrow>
        if \<not> ok then (ezdev_sdk_kernel_memory, seq0, w1)
        else case w_malloc w1 of (ok2, w2) \<Rightarrow>
          if \<not> ok2 then (ezdev_sdk_kernel_memory, seq0, w_free w2)
          else case copy_buf (unat len) body w2 of (b, w3) \<Rightarrow>
            let b2 = buf_padding b (unat len) (unat len)
            in case (if response = 0 then genaral_seq w3 else (seq0, w3)) of (s, w4) \<Rightarrow>
              (case copy_ctx ctx ctx_len w4 of
                 (None, w5) \<Rightarrow> (ezdev_sdk_kernel_memory, s, w_free (w_free w5))
               | (Some (c, c_len), w5) \<Rightarrow>
                   (case push (build b2 s c c_len) w5 of (r, w6) \<Rightarrow>
                      let e = mkiE2ezE r
                      in (e, s, if e \<noteq> ezdev_sdk_kernel_succ then w_free (w_free_opt c (w_free w6)) else w6))))"

text \<open>
  The caller's message gets its sequence number back.  The second test on the length can refuse
  what the first lets through, but not the other way round.
\<close>

definition ezdev_sdk_kernel_send ::
  "ezdev_sdk_kernel_pubmsg \<Rightarrow> world \<Rightarrow> ezdev_sdk_kernel_error \<times> ezdev_sdk_kernel_pubmsg \<times> world" where
  "ezdev_sdk_kernel_send m w =
     (if my_state (g_ezdev_sdk_kernel w) \<noteq> sdk_start then (ezdev_sdk_kernel_invald_call, m, w)
      else if pm_msg_body m = None \<or> pm_msg_body_len m = 0 then (ezdev_sdk_kernel_params_invalid, m, w)
      else if pm_msg_command_id m \<notin> {SendISAPIReq, SendISAPIRsp, SendISAPIEventReq, SendISAPIEventRsp} \<and>
              pm_msg_body_len m > ezdev_sdk_com_msg_max_buf then (ezdev_sdk_kernel_data_len_range, m, w)
      else if pm_msg_body_len m > ezdev_sdk_send_buf_max then (ezdev_sdk_kernel_data_len_range, m, w)
      else
        let risk = check_cmd_risk_control (pm_msg_domain_id m) (pm_msg_command_id m) w
        in if risk = 1 then (mkiE2ezE mkernel_internal_extend_no_find, m, w)
           else if risk = 2 then (mkiE2ezE mkernel_internal_force_domain_risk, m, w)
           else if risk = 3 then (mkiE2ezE mkernel_internal_force_cmd_risk, m, w)
           else case queue_message
               (\<lambda>b s c c_len. \<lparr>max_send_count = ezdev_sdk_max_publish_count, msg_conntext =
                  \<lparr>pm_msg_response = pm_msg_response m, pm_msg_qos = pm_msg_qos m, pm_msg_seq = s,
                   pm_msg_body = Some b, pm_msg_body_len = pm_msg_body_len m,
                   pm_msg_domain_id = pm_msg_domain_id m, pm_msg_command_id = pm_msg_command_id m,
                   pm_externel_ctx = c, pm_externel_ctx_len = c_len,
                   pm_command_ver = strncpy0 (version_max_len - 1) (pm_command_ver m)\<rparr>\<rparr>)
               das_send_pubmsg_async (pm_msg_response m) (pm_msg_seq m) (pm_msg_body m) (pm_msg_body_len m)
               (pm_externel_ctx m) (pm_externel_ctx_len m) w of
             (e, s, w1) \<Rightarrow> (e, m\<lparr>pm_msg_seq := s\<rparr>, w1))"

definition ezdev_sdk_kernel_send_v3 ::
  "ezdev_sdk_kernel_pubmsg_v3 \<Rightarrow> world \<Rightarrow> ezdev_sdk_kernel_error \<times> ezdev_sdk_kernel_pubmsg_v3 \<times> world" where
  "ezdev_sdk_kernel_send_v3 m w =
     (if my_state (g_ezdev_sdk_kernel w) \<noteq> sdk_start then (ezdev_sdk_kernel_invald_call, m, w)
      else if p3_msg_body m = None \<or> p3_msg_body_len m = 0 then (ezdev_sdk_kernel_params_invalid, m, w)
      else if p3_msg_body_len m > ezdev_sdk_send_buf_max then (ezdev_sdk_kernel_data_len_range, m, w)
      else case queue_message
          (\<lambda>b s c c_len. \<lparr>max_send_count_v3 = ezdev_sdk_max_publish_count, msg_conntext_v3 =
             \<lparr>p3_msg_qos = p3_msg_qos m, p3_msg_response = p3_msg_response m, p3_msg_seq = s,
              p3_msg_body_len = p3_msg_body_len m, p3_externel_ctx = c, p3_externel_ctx_len = c_len,
              p3_extend_id = p3_extend_id m, p3_msg_body = Some b,
              p3_command_ver = strncpy0 (version_max_len - 1) (p3_command_ver m),
              p3_domain_id = strncpy0 63 (p3_domain_id m), p3_resource_id = strncpy0 63 (p3_resource_id m),
              p3_resource_type = strncpy0 63 (p3_resource_type m),
              p3_business_type = strncpy0 63 (p3_business_type m),
              p3_identifier = strncpy0 63 (p3_identifier m), p3_sub_serial = strncpy0 71 (p3_sub_serial m)\<rparr>\<rparr>)
          das_send_pubmsg_async_v3 (p3_msg_response m) (p3_msg_seq m) (p3_msg_body m) (p3_msg_body_len m)
          (p3_externel_ctx m) (p3_externel_ctx_len m) w of
        (e, s, w1) \<Rightarrow> (e, m\<lparr>p3_msg_seq := s\<rparr>, w1))"

section \<open>The kernel's own messages\<close>

definition ezdev_sdk_kernel_inner_send ::
  "ezdev_sdk_kernel_pubmsg \<Rightarrow> world \<Rightarrow> mkernel_internal_error \<times> world" where
  "ezdev_sdk_kernel_inner_send m w =
     (if pm_msg_body m = None \<or> pm_msg_body_len m = 0 then (mkernel_internal_input_param_invalid, w)
      else if pm_msg_body_len m > ezdev_sdk_send_buf_max then (mkernel_internal_msg_len_overrange, w)
      else case w_malloc w of (ok, w1) \<Rightarrow>
        if \<not> ok then (mkernel_internal_malloc_error, w1)
        else case w_malloc w1 of (ok2, w2) \<Rightarrow>
          if \<not> ok2 then (mkernel_internal_malloc_error, w_free w2)
          else case copy_buf (unat (pm_msg_body_len m)) (pm_msg_body m) w2 of (b, w3) \<Rightarrow>
            let b2 = buf_padding b (unat (pm_msg_body_len m)) (unat (pm_msg_body_len m))
            in case das_send_pubmsg_async \<lparr>max_send_count = 1, msg_conntext =
                  \<lparr>pm_msg_response = pm_msg_response m, pm_msg_qos = pm_msg_qos m, pm_msg_seq = pm_msg_seq m,
                   pm_msg_body = Some b2, pm_msg_body_len = pm_msg_body_len m,
                   pm_msg_domain_id = pm_msg_domain_id m, pm_msg_command_id = pm_msg_command_id m,
                   pm_externel_ctx = None, pm_externel_ctx_len = 0,
                   pm_command_ver = strncpy0 (version_max_len - 1) (pm_command_ver m)\<rparr>\<rparr> w3 of
              (r, w4) \<Rightarrow> (r, if r \<noteq> mkernel_internal_succ then w_free (w_free w4) else w4))"

section \<open>The device's data\<close>

definition g_default_value :: string where "g_default_value = ''invalidkey''"

definition inner_get :: "string \<Rightarrow> world \<Rightarrow> string" where
  "inner_get key w =
     (let d = dev_info (g_ezdev_sdk_kernel w) in
      if key = ''dev_subserial'' then dev_subserial d
      else if key = ''dev_serial'' then dev_serial d
      else if key = ''dev_firmwareversion'' then dev_firmwareversion d
      else if key = ''dev_type'' then dev_type d
      else if key = ''dev_typedisplay'' then dev_typedisplay d
      else if key = ''dev_mac'' then dev_mac d
      else if key = ''dev_nickname'' then dev_nickname d
      else if key = ''dev_firmwareidentificationcode'' then dev_firmwareidentificationcode d
      else if key = ''dev_verification_code'' then dev_verification_code d
      else if key = ''dev_binding_nic'' then g_binding_nic w
      else g_default_value)"

definition ezdev_sdk_kernel_getdevinfo_bykey :: "string \<Rightarrow> world \<Rightarrow> string" where
  "ezdev_sdk_kernel_getdevinfo_bykey key w =
     (if my_state (g_ezdev_sdk_kernel w) = sdk_idle0 then g_default_value else inner_get key w)"

text \<open>The XML library returns the text in a block that the caller frees.\<close>

definition send_offline_msg_to_platform :: "u32 \<Rightarrow> world \<Rightarrow> mkernel_internal_error \<times> world" where
  "send_offline_msg_to_platform seq w =
     (let body = bytes_of (e_xml_offline (env w) (ezdev_sdk_kernel_getdevinfo_bykey ''dev_subserial'' w))
      in case ezdev_sdk_kernel_inner_send
            \<lparr>pm_msg_response = 0, pm_msg_qos = QOS_T1, pm_msg_seq = seq, pm_msg_body = Some body,
             pm_msg_body_len = word_of_nat (length body), pm_msg_domain_id = ezdev_sdk_domain_id,
             pm_msg_command_id = ezdev_sdk_offline_cmd_id, pm_externel_ctx = None, pm_externel_ctx_len = 0,
             pm_command_ver = strncpy0 (version_max_len - 1) ezdev_sdk_cmd_version\<rparr> (lib_alloc w) of
        (r, w1) \<Rightarrow> (r, w_free w1))"

text \<open>
  The request for another keep-alive interval goes to the head of the queue.  When only the JSON
  object is missing, the clean-up follows a pointer in a block that was never initialised; and the
  code of the queue is returned as it is, without translation.
\<close>

definition ezdev_sdk_kernel_set_keepalive_interval ::
  "u16 \<Rightarrow> u16 \<Rightarrow> world \<Rightarrow> ezdev_sdk_kernel_error \<times> world" where
  "ezdev_sdk_kernel_set_keepalive_interval internal timeout_s w =
     (if my_state (g_ezdev_sdk_kernel w) \<noteq> sdk_start then (ezdev_sdk_kernel_invald_call, w)
      else case ask e_json_create w of (ok, w1) \<Rightarrow> case w_malloc w1 of (ok2, w2) \<Rightarrow>
        if \<not> ok2 then (ezdev_sdk_kernel_memory, w2)
        else if \<not> ok then (ezdev_sdk_kernel_memory, undefined_behaviour w2)
        else case json_print (JObject [(''interval'', json_number (uint internal))]) w2 of
          (Inl _, w3) \<Rightarrow> (ezdev_sdk_kernel_memory, w_free w3)
        | (Inr json, w3) \<Rightarrow> (case w_malloc w3 of (ok3, w4) \<Rightarrow>
            if \<not> ok3 then (ezdev_sdk_kernel_memory, w_free (w_free w4))
            else case push_queue_head_pubmsg_exchange \<lparr>max_send_count = ezdev_sdk_max_publish_count, msg_conntext =
                  \<lparr>pm_msg_response = 0, pm_msg_qos = QOS_T0, pm_msg_seq = 0, pm_msg_body = Some json,
                   pm_msg_body_len = word_of_nat (length json), pm_msg_domain_id = DAS_CMD_DOMAIN,
                   pm_msg_command_id = DAS_CMD_PU2CENPLTSETKEEPALIVETIMEREQ, pm_externel_ctx = None,
                   pm_externel_ctx_len = 0, pm_command_ver = ''''\<rparr>\<rparr> w4 of
              (rv, w5) \<Rightarrow> (rv, if rv \<noteq> ezdev_sdk_kernel_succ then w_free (w_free (w_free w5)) else w_free w5)))"

end
