(* ===== verification/Kernel.thy ===== *)
theory Kernel
  imports Sending
begin

text \<open>
  The functions the application calls: microkernel/src/ezdev_sdk_kernel.c, ezdev_sdk_kernel_ex.c
  and ezdev_sdk_kernel_inner.c.
\<close>

section \<open>Starting and ending\<close>

record ezdev_sdk_srv_info_t =
  svr_name :: "string option"
  svr_port :: u16

record ezdev_sdk_dev_info_t =
  di_auth_mode :: sdk_dev_auth_mode
  di_dev_subserial :: string
  di_dev_verification_code :: string
  di_dev_serial :: string
  di_dev_firmwareversion :: string
  di_dev_type :: string
  di_dev_typedisplay :: string
  di_dev_mac :: string
  di_dev_nickname :: string
  di_dev_id :: "byte list"
  di_dev_master_key :: "byte list"

definition init_dev_info :: "ezdev_sdk_dev_info_t \<Rightarrow> dev_basic_info" where
  "init_dev_info d = zero_dev_info\<lparr>dev_auth_mode := di_auth_mode d, dev_status := 1, dev_oeminfo := 0,
     dev_subserial := strncpy0 (ezdev_sdk_devserial_maxlen - 1) (di_dev_subserial d),
     dev_verification_code := strncpy0 (ezdev_sdk_verify_code_maxlen - 1) (di_dev_verification_code d),
     dev_serial := strncpy0 (ezdev_sdk_devserial_maxlen - 1) (di_dev_serial d),
     dev_firmwareversion := strncpy0 (ezdev_sdk_name_len - 1) (di_dev_firmwareversion d),
     dev_type := strncpy0 (ezdev_sdk_name_len - 1) (di_dev_type d),
     dev_typedisplay := strncpy0 (ezdev_sdk_name_len - 1) (di_dev_typedisplay d),
     dev_mac := strncpy0 (ezdev_sdk_name_len - 1) (di_dev_mac d),
     dev_nickname := strncpy0 (ezdev_sdk_name_len - 1) (di_dev_nickname d)\<rparr>"

definition init_kernel :: "string \<Rightarrow> u16 \<Rightarrow> ezdev_sdk_dev_info_t \<Rightarrow> ezdev_sdk_kernel" where
  "init_kernel name port d = zero_kernel\<lparr>das_keepalive_interval := ezdev_sdk_das_default_keepaliveinterval,
     server_info := \<lparr>server_name = strncpy0 (ezdev_sdk_name_len - 1) name, server_ip = '''', server_port = port\<rparr>,
     dev_info := init_dev_info d,
     master_key := strncpy_key ezdev_sdk_masterkey_len (di_dev_master_key d),
     dev_id := strncpy_key ezdev_sdk_devid_len (di_dev_id d), reg_mode := 1\<rparr>"

text \<open>
  The object is cleared before the arguments are looked at.  \<open>platform\<close> tells whether the
  platform's functions were given.
\<close>

definition ezdev_sdk_kernel_init ::
  "ezdev_sdk_srv_info_t option \<Rightarrow> ezdev_sdk_dev_info_t option \<Rightarrow> bool \<Rightarrow> nat option \<Rightarrow> world \<Rightarrow>
   ezdev_sdk_kernel_error \<times> world" where
  "ezdev_sdk_kernel_init psrv_info pdev_info platform kernel_event_notice_cb w =
     (if my_state (g_ezdev_sdk_kernel w) \<noteq> sdk_idle0 \<and> my_state (g_ezdev_sdk_kernel w) \<noteq> sdk_idle2
      then (ezdev_sdk_kernel_invald_call, w)
      else
        let w1 = w\<lparr>g_ezdev_sdk_kernel := zero_kernel\<rparr>
        in case (psrv_info, pdev_info) of
          (Some s, Some d) \<Rightarrow>
            if \<not> platform \<or> kernel_event_notice_cb = None then (ezdev_sdk_kernel_params_invalid, w1)
            else (case svr_name s of None \<Rightarrow> (ezdev_sdk_kernel_params_invalid, w1)
              | Some name \<Rightarrow>
                  if \<not> length (c_str name) < ezdev_sdk_name_len then (ezdev_sdk_kernel_params_invalid, w1)
                  else
                    let w2 = w1\<lparr>g_ezdev_sdk_kernel := init_kernel name (svr_port s) d\<rparr>;
                        w3 = das_object_init (extend_init kernel_event_notice_cb w2)
                    in (ezdev_sdk_kernel_succ,
                        upd_kernel (\<lambda>k. k\<lparr>my_state := sdk_idle\<rparr>) (w3\<lparr>g_das_transport_seq := 0\<rparr>)))
        | _ \<Rightarrow> (ezdev_sdk_kernel_params_invalid, w1))"

definition ezdev_sdk_kernel_fini :: "world \<Rightarrow> ezdev_sdk_kernel_error \<times> world" where
  "ezdev_sdk_kernel_fini w =
     (if my_state (g_ezdev_sdk_kernel w) \<noteq> sdk_idle \<and> my_state (g_ezdev_sdk_kernel w) \<noteq> sdk_stop
      then (ezdev_sdk_kernel_invald_call, w)
      else (ezdev_sdk_kernel_succ,
            (common_module_fini (extend_fini (das_object_fini w)))\<lparr>g_ezdev_sdk_kernel := zero_kernel\<rparr>))"

section \<open>Loading modules\<close>

definition loading :: "world \<Rightarrow> bool" where
  "loading w \<longleftrightarrow> my_state (g_ezdev_sdk_kernel w) = sdk_idle \<or> my_state (g_ezdev_sdk_kernel w) = sdk_start"

definition translated :: "mkernel_internal_error \<times> world \<Rightarrow> ezdev_sdk_kernel_error \<times> world" where
  "translated x = (mkiE2ezE (fst x), snd x)"

definition ezdev_sdk_kernel_extend_load ::
  "ezdev_sdk_kernel_extend option \<Rightarrow> world \<Rightarrow> ezdev_sdk_kernel_error \<times> world" where
  "ezdev_sdk_kernel_extend_load external_extend w =
     (if \<not> loading w then (ezdev_sdk_kernel_invald_call, w)
      else case external_extend of None \<Rightarrow> (ezdev_sdk_kernel_params_invalid, w)
        | Some e \<Rightarrow>
            if ke_extend_data_route e = None \<or> ke_extend_start e = None \<or> ke_extend_event e = None \<or>
               ke_extend_stop e = None then (ezdev_sdk_kernel_params_invalid, w)
            else translated (extend_load e w))"

definition ezdev_sdk_kernel_extend_load_v3 ::
  "ezdev_sdk_kernel_extend_v3 option \<Rightarrow> world \<Rightarrow> ezdev_sdk_kernel_error \<times> world" where
  "ezdev_sdk_kernel_extend_load_v3 external_extend_v3 w =
     (if \<not> loading w then (ezdev_sdk_kernel_invald_call, w)
      else case external_extend_v3 of None \<Rightarrow> (ezdev_sdk_kernel_params_invalid, w)
        | Some e \<Rightarrow>
            if k3_data_route e = None then (ezdev_sdk_kernel_params_invalid, w)
            else translated (extend_load_v3 e (upd_kernel (\<lambda>k. k\<lparr>v3_reg_status := sdk_v3_reged\<rparr>) w)))"

definition ezdev_sdk_kernel_common_module_load ::
  "ezdev_sdk_kernel_common_module option \<Rightarrow> world \<Rightarrow> ezdev_sdk_kernel_error \<times> world" where
  "ezdev_sdk_kernel_common_module_load common_module w =
     (if my_state (g_ezdev_sdk_kernel w) \<noteq> sdk_idle then (ezdev_sdk_kernel_invald_call, w)
      else case common_module of None \<Rightarrow> (ezdev_sdk_kernel_params_invalid, w)
        | Some m \<Rightarrow> if cm_data_handle m = None then (ezdev_sdk_kernel_params_invalid, w)
                    else translated (common_module_load m w))"

text \<open>The argument is not tested here, and the status is set whatever the result.\<close>

definition ezdev_sdk_kernel_hub_extend_load ::
  "ezdev_sdk_kernel_hub_extend \<Rightarrow> world \<Rightarrow> ezdev_sdk_kernel_error \<times> world" where
  "ezdev_sdk_kernel_hub_extend_load extend_info w =
     (if \<not> loading w then (ezdev_sdk_kernel_invald_call, w)
      else case translated (sdk_hub_extend_load extend_info w) of
        (e, w1) \<Rightarrow> (e, upd_kernel (\<lambda>k. k\<lparr>hub_reg_status := 1\<rparr>) w1))"

section \<open>Running\<close>

definition ezdev_sdk_kernel_start :: "world \<Rightarrow> ezdev_sdk_kernel_error \<times> world" where
  "ezdev_sdk_kernel_start w =
     (if my_state (g_ezdev_sdk_kernel w) \<noteq> sdk_idle \<and> my_state (g_ezdev_sdk_kernel w) \<noteq> sdk_stop
      then (ezdev_sdk_kernel_invald_call, w)
      else (ezdev_sdk_kernel_succ,
            snd (broadcast_user_start (upd_kernel (\<lambda>k. k\<lparr>my_state := sdk_start\<rparr>) w))))"

text \<open>
  The loop that waits for the message that takes the device off line.  Its counter is tested the
  wrong way round.
\<close>

partial_function (option) stop_loop :: "nat \<Rightarrow> world \<Rightarrow> world option" where
  "stop_loop wait4times w =
     (if cnt w \<noteq> sdk_cnt_das_reged then Some w
      else case access_server_yield w of None \<Rightarrow> None
        | Some (r, w1) \<Rightarrow>
            if r \<noteq> mkernel_internal_succ then Some w1
            else case get_queue_pubmsg_exchange w1 of (r2, _, w2) \<Rightarrow>
              if r2 = mkernel_internal_queue_empty then Some w2
              else let w3 = time_sleep 100 w2
                   in if wait4times < 3 then Some w3 else stop_loop (wait4times + 1) w3)"

definition ezdev_sdk_kernel_stop :: "world \<Rightarrow> (ezdev_sdk_kernel_error \<times> world) option" where
  "ezdev_sdk_kernel_stop w =
     (if my_state (g_ezdev_sdk_kernel w) \<noteq> sdk_start then Some (ezdev_sdk_kernel_invald_call, w)
      else if check_access_risk_control w \<noteq> 0 then Some (ezdev_sdk_kernel_das_force_dev_risk, w)
      else
        let w1 = snd (clear_queue_pubmsg_exchange (upd_kernel (\<lambda>k. k\<lparr>my_state := sdk_stop\<rparr>) w))
        in case genaral_seq w1 of (seq, w2) \<Rightarrow>
          map_option (\<lambda>w4. (ezdev_sdk_kernel_succ, snd (stop_yield w4)))
            (stop_loop 0 (snd (send_offline_msg_to_platform seq w2))))"

definition ezdev_sdk_kernel_yield :: "world \<Rightarrow> (ezdev_sdk_kernel_error \<times> world) option" where
  "ezdev_sdk_kernel_yield w =
     (if my_state (g_ezdev_sdk_kernel w) \<noteq> sdk_start then Some (ezdev_sdk_kernel_invald_call, w)
      else map_option translated (access_server_yield w))"

definition ezdev_sdk_kernel_yield_user :: "world \<Rightarrow> ezdev_sdk_kernel_error \<times> world" where
  "ezdev_sdk_kernel_yield_user w =
     (if my_state (g_ezdev_sdk_kernel w) \<noteq> sdk_start then (ezdev_sdk_kernel_invald_call, w)
      else translated (extend_yield w))"

section \<open>Options and information\<close>

text \<open>
  Option 1 binds a network card, option 3 asks for a reconnection.  The length is an \<open>int\<close> and is
  compared as an unsigned number of 64 bits, so -1 passes the test, and the copy then has no end.
\<close>

definition ezdev_sdk_kernel_set_net_option ::
  "int \<Rightarrow> byte list option \<Rightarrow> int \<Rightarrow> world \<Rightarrow> ezdev_sdk_kernel_error \<times> world" where
  "ezdev_sdk_kernel_set_net_option optname optval optlen w =
     (if optname = 1
      then (if optval = None then (ezdev_sdk_kernel_buffer_too_small, w)
            else if optlen = 2 ^ 31 - 1 then (ezdev_sdk_kernel_succ, undefined_behaviour w)
            else if optlen + 1 < 0 \<or> optlen + 1 > int ezdev_sdk_name_len then (ezdev_sdk_kernel_buffer_too_small, w)
            else if optlen < 0 then (ezdev_sdk_kernel_succ, undefined_behaviour w)
            else case copy_buf (nat optlen) optval w of
              (b, w1) \<Rightarrow> (ezdev_sdk_kernel_succ, w1\<lparr>g_binding_nic := c_str (text_of b)\<rparr>))
      else if optname = 3
      then (ezdev_sdk_kernel_succ,
            if cnt w = sdk_cnt_das_reged then upd_kernel (\<lambda>k. k\<lparr>cnt_state := sdk_cnt_das_break\<rparr>) w else w)
      else (ezdev_sdk_kernel_params_invalid, w))"

definition ezdev_sdk_kernel_set_sdk_main_version :: "string \<Rightarrow> world \<Rightarrow> ezdev_sdk_kernel_error \<times> world" where
  "ezdev_sdk_kernel_set_sdk_main_version version w =
     (ezdev_sdk_kernel_succ, upd_kernel (\<lambda>k. k\<lparr>szMainVersion := strncpy0 (version_max_len - 1) version\<rparr>) w)"

text \<open>The build date is given by the compiler as a month's name, a day and a year.\<close>

definition two_digits :: "int \<Rightarrow> string" where
  "two_digits i = (let s = string_of_int i in if length s < 2 then ''0'' @ s else s)"

definition month_names :: "string list" where
  "month_names = [''Jan'', ''Feb'', ''Mar'', ''Apr'', ''May'', ''Jun'', ''Jul'', ''Aug'', ''Sep'', ''Oct'', ''Nov'', ''Dec'']"

definition get_module_build_date :: "string \<Rightarrow> int \<Rightarrow> int \<Rightarrow> string" where
  "get_module_build_date month_name day year =
     (let month = length (takeWhile (\<lambda>m. m \<noteq> month_name) month_names) + 1
      in '' build '' @ two_digits (year - 2000) @ two_digits (int month) @ two_digits day)"

text \<open>
  The text, the new length and the state; the text is written with its NUL into a buffer of the
  length the caller gave, which the test compares as an unsigned number.
\<close>

definition ezdev_sdk_kernel_get_sdk_version ::
  "string \<Rightarrow> bool \<Rightarrow> int option \<Rightarrow> world \<Rightarrow> ezdev_sdk_kernel_error \<times> string option \<times> int option \<times> world" where
  "ezdev_sdk_kernel_get_sdk_version date pbuf pbuflen w =
     (case pbuflen of None \<Rightarrow> (ezdev_sdk_kernel_params_invalid, None, None, w)
      | Some n \<Rightarrow>
          let t = DEV_ACCESS_DOMAIN_VERSION @ date; len = int (length t)
          in if \<not> pbuf then (ezdev_sdk_kernel_succ, None, Some len, w)
             else if 0 \<le> n \<and> n < len then (ezdev_sdk_kernel_buffer_too_small, None, Some n, w)
             else (ezdev_sdk_kernel_succ, Some t, Some len, if n \<le> len then undefined_behaviour w else w))"

record server_info_s =
  si_lbs_domain :: string
  si_lbs_ip :: string
  si_lbs_port :: u16
  si_das_domain :: string
  si_das_ip :: string
  si_das_port :: u16
  si_das_udp_port :: u16
  si_das_socket :: int
  si_session_key :: "byte list"

text \<open>\<open>das_socket\<close> is the platform's answer; \<open>strncpy\<close> leaves the last byte of an array as it was.\<close>

definition ezdev_sdk_kernel_get_server_info ::
  "int \<Rightarrow> server_info_s option \<Rightarrow> int option \<Rightarrow> world \<Rightarrow>
   ezdev_sdk_kernel_error \<times> server_info_s option \<times> int option" where
  "ezdev_sdk_kernel_get_server_info das_socket ptr_server_info ptr_count w =
     (if my_state (g_ezdev_sdk_kernel w) \<noteq> sdk_start then (ezdev_sdk_kernel_invald_call, ptr_server_info, ptr_count)
      else case ptr_count of None \<Rightarrow> (ezdev_sdk_kernel_params_invalid, ptr_server_info, ptr_count)
        | Some count \<Rightarrow>
            (case ptr_server_info of None \<Rightarrow> (ezdev_sdk_kernel_succ, None, Some 1)
             | Some _ \<Rightarrow>
                 if 1 > count then (ezdev_sdk_kernel_params_invalid, ptr_server_info, ptr_count)
                 else
                   let k = g_ezdev_sdk_kernel w; s = server_info k; d = redirect_das_info k;
                       cp = strncpy0 (ezdev_sdk_ip_max_len - 1)
                   in (ezdev_sdk_kernel_succ,
                       Some \<lparr>si_lbs_domain = cp (server_name s), si_lbs_ip = cp (server_ip s),
                         si_lbs_port = server_port s, si_das_domain = cp (das_domain d), si_das_ip = cp (das_address d),
                         si_das_port = das_port d, si_das_udp_port = das_udp_port d, si_das_socket = das_socket,
                         si_session_key = session_key k\<rparr>, Some 1)))"

record showkey_info =
  sh_master_key :: "byte list"
  sh_dev_id :: "byte list"
  sh_dev_verification_code :: string

text \<open>The test on the length of a key only asks whether its first byte is zero.\<close>

definition ezdev_sdk_kernel_show_key_info :: "bool \<Rightarrow> world \<Rightarrow> ezdev_sdk_kernel_error \<times> showkey_info option" where
  "ezdev_sdk_kernel_show_key_info ptr_showkey_info w =
     (if my_state (g_ezdev_sdk_kernel w) \<noteq> sdk_start then (ezdev_sdk_kernel_invald_call, None)
      else if \<not> ptr_showkey_info then (ezdev_sdk_kernel_params_invalid, None)
      else let k = g_ezdev_sdk_kernel w in
        (ezdev_sdk_kernel_succ, Some
          \<lparr>sh_master_key = strncpy_key ezdev_sdk_masterkey_len (master_key k) @ [0],
           sh_dev_id = strncpy_key ezdev_sdk_devid_len (dev_id k) @ [0],
           sh_dev_verification_code = strncpy0 ezdev_sdk_verify_code_maxlen (dev_verification_code (dev_info k))\<rparr>))"

text \<open>The cache is a static variable of the function: an argument and a result.\<close>

definition ezdev_sdk_kernel_get_stun ::
  "bool \<Rightarrow> bool \<Rightarrow> stun_info \<Rightarrow> world \<Rightarrow> (ezdev_sdk_kernel_error \<times> stun_info option \<times> stun_info \<times> world) option" where
  "ezdev_sdk_kernel_get_stun ptr_stun bforce_refresh cache w =
     (if my_state (g_ezdev_sdk_kernel w) \<noteq> sdk_start then Some (ezdev_sdk_kernel_invald_call, None, cache, w)
      else if \<not> ptr_stun then Some (ezdev_sdk_kernel_params_invalid, None, cache, w)
      else if \<not> bforce_refresh then Some (ezdev_sdk_kernel_succ, Some cache, cache, w)
      else case lbs_getstun zero_stun_info w of None \<Rightarrow> None
        | Some (r, i, w1) \<Rightarrow>
            let rv = mkiE2ezE r
            in Some (rv, Some i, if rv = ezdev_sdk_kernel_succ then i else cache, w1))"

end
