(* ===== verification/Frames.thy ===== *)
theory Frames
  imports Machine Kernel
begin

text \<open>
  The frames of the operations behind the API: what sending, loading modules, the refresh of the
  STUN address, setting up and tearing down may change.
\<close>

section \<open>Sending\<close>

lemma stays_genaral_seq: "genaral_seq w1 = (s, w2) \<Longrightarrow> stays w w1 \<Longrightarrow> stays w w2"
  by (auto simp: genaral_seq_def Let_def)

lemma stays_copy: "copy_buf n p w1 = (b, w2) \<Longrightarrow> stays w w1 \<Longrightarrow> stays w w2"
  "copy_ctx ctx len w1 = (c, w2) \<Longrightarrow> stays w w1 \<Longrightarrow> stays w w2"
  by (auto simp: copy_buf_def copy_ctx_def Let_def split: if_splits prod.splits elim!: stays_malloc)

lemma stays_queue_message:
  assumes "\<And>m v r v'. push m v = (r, v') \<Longrightarrow> stays w v \<Longrightarrow> stays w v'"
    and "queue_message build push resp s0 b n c cn w1 = (e, s, w2)" and "stays w w1"
  shows "stays w w2"
  using assms(2,3)
  by (auto simp: queue_message_def Let_def split: if_splits prod.splits option.splits
      elim!: stays_malloc stays_copy stays_genaral_seq assms(1))

lemma stays_sends:
  "ezdev_sdk_kernel_send m w1 = (e, m', w2) \<Longrightarrow> stays w w1 \<Longrightarrow> stays w w2"
  "ezdev_sdk_kernel_send_v3 m3 w1 = (e, m3', w2) \<Longrightarrow> stays w w1 \<Longrightarrow> stays w w2"
  using stays_pubmsg(3) stays_pubmsg_v3(2)
  by (auto simp: ezdev_sdk_kernel_send_def ezdev_sdk_kernel_send_v3_def Let_def das_send_pubmsg_async_def
      das_send_pubmsg_async_v3_def split: if_splits prod.splits elim!: stays_queue_message [rotated])

lemma stays_inner_send: "ezdev_sdk_kernel_inner_send m w1 = (r, w2) \<Longrightarrow> stays w w1 \<Longrightarrow> stays w w2"
  by (auto simp: ezdev_sdk_kernel_inner_send_def Let_def das_send_pubmsg_async_def split: if_splits prod.splits
      elim!: stays_malloc stays_copy stays_pubmsg(3))

lemma stays_offline: "stays w w1 \<Longrightarrow> stays w (snd (send_offline_msg_to_platform s w1))"
  by (auto simp: send_offline_msg_to_platform_def Let_def split: prod.splits elim!: stays_inner_send)

lemma stays_keepalive: "ezdev_sdk_kernel_set_keepalive_interval i t w1 = (r, w2) \<Longrightarrow> stays w w1 \<Longrightarrow> stays w w2"
  by (auto simp: ezdev_sdk_kernel_set_keepalive_interval_def split: if_splits prod.splits sum.splits
      elim!: stays_malloc stays_ask stays_json stays_pubmsg(4))

section \<open>The STUN address\<close>

text \<open>The exchange stores nothing in the state of the program but the cached address of the server.\<close>

lemma keeper_set_up_v2: "keeps s (init_lbs_affair_v2 u s)" "keeps s (fini_lbs_affair_v2 s') = keeps s s'"
  "keeps s (lbs_close s') = keeps s s'"
proof -
  have c: "keeps s (copy_identity u s') = keeps s s'" for s s'
    by (simp add: copy_identity_def Let_def generate_sharekey_def)
  have d: "keeps s (draw_randoms s)" for s by (simp add: draw_randoms_def ask_def)
  show "keeps s (init_lbs_affair_v2 u s)"
    by (auto simp: init_lbs_affair_v2_def Let_def c split: prod.split elim!: wkeeps_malloc intro!: keeps_lw d)
  show "keeps s (fini_lbs_affair_v2 s') = keeps s s'" "keeps s (lbs_close s') = keeps s s'"
    by (simp_all add: fini_lbs_affair_v2_def fini_packet_v2_def Let_def keeps_def lbs_close_def upd_lw_def)
qed

lemma stun_frame:
  assumes "lbs_getstun i w = Some (r, i', w')"
  shows "redirects w w'"
proof -
  let ?fs = "[just (init_lbs_affair_v2 1), step lbs_connect, step send_stun_refreshsessionkey_i,
        wait_stun_refreshsessionkey_ii, just clear_lbs_affair_buf_v2, step send_stun_refreshsessionkey_iii,
        just clear_lbs_affair_buf_v2, step (send_crypto_data_req 0), wait_crypto_data_rsp_stun]"
  have "list_all wait_keeper ?fs"
    using all_keepers keeper_lifts wait_keeper_lift(2) [OF keeper_set_up_v2(1)] by (simp add: clear_lbs_affair_buf_v2_def)
  then have k: "wait_keeper (run_waits ?fs)" by (rule wait_keeper_run)
  obtain s where s: "run_waits ?fs ((start_run w)\<lparr>revc_stun_info := i\<rparr>) = Some (r, s)"
      "w' = lw (fini_lbs_affair_v2 (lbs_close s))"
    using assms by (auto simp: lbs_getstun_def finish_def split: option.splits)
  have "keeps ((start_run w)\<lparr>revc_stun_info := i\<rparr>) (fini_lbs_affair_v2 (lbs_close s))"
    using k s(1) by (auto simp: wait_keeper_def keeper_set_up_v2)
  then have "norm w' = norm w" using s(2) by (simp add: keeps_def wkeeps_def start_run_def)
  then show ?thesis by (rule redirects_norm) (simp add: redirects_def)
qed

section \<open>Modules\<close>

text \<open>Writing an entry of key 0 behind the used ones.\<close>

lemma table_zero:
  fixes key :: "'e \<Rightarrow> 'k::zero"
  assumes "table_wf key xs" and "key e = 0" and "length (used key xs) < length xs"
  shows "used key (xs[length (used key xs) := e]) = used key xs" "table_wf key (xs[length (used key xs) := e])"
proof -
  let ?u = "used key xs"
  obtain z zs where z: "dropWhile (\<lambda>e. key e \<noteq> 0) xs = z # zs"
    using assms(3) by (cases "dropWhile (\<lambda>e. key e \<noteq> 0) xs")
      (metis append_Nil2 less_irrefl takeWhile_dropWhile_id, blast)
  have xs: "xs = ?u @ z # zs" by (metis takeWhile_dropWhile_id z)
  have upd: "xs[length ?u := e] = ?u @ e # zs" by (subst xs) (simp add: list_update_append)
  have all: "\<forall>y \<in> set ?u. key y \<noteq> 0" by (auto dest: set_takeWhileD)
  show u: "used key (xs[length ?u := e]) = ?u" unfolding upd using all assms(2) by simp
  have d: "dropWhile (\<lambda>e. key e \<noteq> 0) (xs[length ?u := e]) = e # zs" unfolding upd using all assms(2) by simp
  show "table_wf key (xs[length ?u := e])"
    using assms(1,2) unfolding table_wf_def u d z by simp
qed

lemma risk_wf_load: "list_all risk_wf ds \<Longrightarrow>
  list_all risk_wf (ds[i := (ds ! i)\<lparr>kernel_extend := e, domain_risk := x\<rparr>])"
proof (cases "i < length ds")
  case True
  assume "list_all risk_wf ds"
  moreover from this True have "risk_wf ((ds ! i)\<lparr>kernel_extend := e, domain_risk := x\<rparr>)"
    by (simp add: list_all_length risk_wf_def)
  ultimately show ?thesis
    using set_update_subset_insert [of ds i] by (fastforce simp: list_all_iff)
next
  case False
  then have "ds[i := (ds ! i)\<lparr>kernel_extend := e, domain_risk := x\<rparr>] = ds" by (intro list_update_beyond) simp
  then show "list_all risk_wf ds \<Longrightarrow> ?thesis" by (simp only:)
qed

lemma load_ok:
  assumes "tables_ok w" and "callbacks_ok e"
  shows "tables_ok (snd (extend_load e w))"
proof -
  let ?u = "used domain_key (g_kernel_domains w)"
  let ?d = "(g_kernel_domains w ! length ?u)\<lparr>kernel_extend := e, domain_risk := sdk_no_risk_control\<rparr>"
  let ?ds = "(g_kernel_domains w)[length ?u := ?d]"
  have wf: "table_wf domain_key (g_kernel_domains w)" "length (g_kernel_domains w) = unat (g_kernel_domains_count w)"
    using assms(1) by (simp_all add: tables_ok_defs)
  have run: "extend_load e w = (if ke_domain_id e \<in> domain_key ` set ?u then (mkernel_internal_extend_ready, w)
      else if length ?u = length (g_kernel_domains w) then (mkernel_internal_extend_full, w)
      else (mkernel_internal_succ, w\<lparr>g_kernel_domains := ?ds\<rparr>))"
    using wf(2) by (simp add: extend_load_def load_scan_eq)
  have "tables_ok (w\<lparr>g_kernel_domains := ?ds\<rparr>)"
    if new: "ke_domain_id e \<notin> domain_key ` set ?u" and room: "length ?u \<noteq> length (g_kernel_domains w)"
  proof -
    have l: "length ?u < length (g_kernel_domains w)" using room length_takeWhile_le le_neq_implies_less by blast
    have "table_wf domain_key ?ds \<and> set (used domain_key ?ds) \<subseteq> insert ?d (set ?u)"
    proof (cases "ke_domain_id e = 0")
      case True
      then show ?thesis using table_zero [OF wf(1) _ l, of ?d] by auto
    next
      case False
      then show ?thesis using table_update [OF wf(1) l, of ?d] new by simp
    qed
    then have "table_wf domain_key ?ds" "\<forall>d \<in> set (used domain_key ?ds). callbacks_ok (kernel_extend d)"
      using assms by (auto simp: tables_ok_defs)
    then show ?thesis
      using assms(1) risk_wf_load [of "g_kernel_domains w" "length ?u" sdk_no_risk_control e] by (simp add: tables_ok_defs)
  qed
  then show ?thesis using run assms(1) by simp
qed

lemma load_v3_ok:
  assumes "tables_ok w" and "k3_data_route e \<noteq> None"
  shows "tables_ok (snd (extend_load_v3 e w))"
proof -
  let ?u = "used k3_extend_id (g_kernel_extend w)"
  let ?es = "(g_kernel_extend w)[length ?u := e]"
  have wf: "table_wf k3_extend_id (g_kernel_extend w)" "length (g_kernel_extend w) = unat (g_kernel_extend_count w)"
    using assms(1) by (simp_all add: tables_ok_defs)
  have run: "extend_load_v3 e w = (if k3_extend_id e \<in> k3_extend_id ` set ?u then (mkernel_internal_extend_ready, w)
      else if length ?u = length (g_kernel_extend w) then (mkernel_internal_extend_full, w)
      else (mkernel_internal_succ, w\<lparr>g_kernel_extend := ?es\<rparr>))"
    using wf(2) by (simp add: extend_load_v3_def load_scan_eq)
  have "tables_ok (w\<lparr>g_kernel_extend := ?es\<rparr>)"
    if new: "k3_extend_id e \<notin> k3_extend_id ` set ?u" and room: "length ?u \<noteq> length (g_kernel_extend w)"
  proof -
    have l: "length ?u < length (g_kernel_extend w)" using room length_takeWhile_le le_neq_implies_less by blast
    have "table_wf k3_extend_id ?es \<and> set (used k3_extend_id ?es) \<subseteq> insert e (set ?u)"
    proof (cases "k3_extend_id e = 0")
      case True
      then show ?thesis using table_zero [OF wf(1) True l] by auto
    next
      case False
      then show ?thesis using table_update [OF wf(1) l new False] by simp
    qed
    then have "table_wf k3_extend_id ?es" "\<forall>x \<in> set (used k3_extend_id ?es). k3_data_route x \<noteq> None"
      using assms by (auto simp: tables_ok_defs)
    then show ?thesis using assms(1) by (simp add: tables_ok_defs)
  qed
  then show ?thesis using run assms(1) by simp
qed

lemma hub_load_ok: "tables_ok w \<Longrightarrow> tables_ok (snd (sdk_hub_extend_load e w))"
  by (auto simp: sdk_hub_extend_load_def tables_ok_defs split: option.split)

section \<open>Setting up and tearing down\<close>

lemma init_queue_ok: "queues_ok (snd (init_queue a b c w))"
  by (simp add: init_queue_def queue_funs QUEUE_INIT_def ask_def split_beta queues_ok_def Let_def)

lemma init_queue_frame:
  "g_ezdev_sdk_kernel (snd (init_queue a b c w)) = g_ezdev_sdk_kernel w"
  "tables_ok (snd (init_queue a b c w)) = tables_ok w"
  by (simp_all add: init_queue_def queue_funs QUEUE_INIT_def ask_def split_beta Let_def)

lemma extend_init_ok: "length (g_kernel_hub_extend w) = HUB_EXTEND_MAX_NUM \<Longrightarrow> tables_ok (extend_init cb w)"
  by (simp add: tables_ok_def domains_wf_def extends_wf_def domain_extends_def extends_v3_def)
    (simp add: extend_init_def ezdev_sdk_extend_count_def zero_domain_info_def zero_extend_def zero_extend_v3_def
      del: take_replicate_Cons)

end
