(* ===== verification/System.thy ===== *)
theory System
  imports Frames
begin

text \<open>
  The whole program: the calls of the application, in any order and with any arguments, from the
  state in which the program is loaded.
\<close>

section \<open>The calls\<close>

datatype api_call =
    Init "ezdev_sdk_srv_info_t option" "ezdev_sdk_dev_info_t option" bool "nat option"
  | Fini
  | Extend_load "ezdev_sdk_kernel_extend option"
  | Extend_load_v3 "ezdev_sdk_kernel_extend_v3 option"
  | Common_module_load "ezdev_sdk_kernel_common_module option"
  | Hub_extend_load ezdev_sdk_kernel_hub_extend
  | Start
  | Stop
  | Yield
  | Yield_user
  | Send ezdev_sdk_kernel_pubmsg
  | Send_v3 ezdev_sdk_kernel_pubmsg_v3
  | Set_net_option int "byte list option" int
  | Set_sdk_main_version string
  | Set_keepalive_interval u16 u16
  | Get_sdk_version string bool "int option"
  | Get_stun bool bool stun_info

text \<open>One call; \<open>None\<close> when it does not return.\<close>

fun api :: "api_call \<Rightarrow> world \<Rightarrow> (ezdev_sdk_kernel_error \<times> world) option" where
  "api (Init s d p f) w = Some (ezdev_sdk_kernel_init s d p f w)"
| "api Fini w = Some (ezdev_sdk_kernel_fini w)"
| "api (Extend_load e) w = Some (ezdev_sdk_kernel_extend_load e w)"
| "api (Extend_load_v3 e) w = Some (ezdev_sdk_kernel_extend_load_v3 e w)"
| "api (Common_module_load m) w = Some (ezdev_sdk_kernel_common_module_load m w)"
| "api (Hub_extend_load e) w = Some (ezdev_sdk_kernel_hub_extend_load e w)"
| "api Start w = Some (ezdev_sdk_kernel_start w)"
| "api Stop w = ezdev_sdk_kernel_stop w"
| "api Yield w = ezdev_sdk_kernel_yield w"
| "api Yield_user w = Some (ezdev_sdk_kernel_yield_user w)"
| "api (Send m) w = (case ezdev_sdk_kernel_send m w of (e, _, w') \<Rightarrow> Some (e, w'))"
| "api (Send_v3 m) w = (case ezdev_sdk_kernel_send_v3 m w of (e, _, w') \<Rightarrow> Some (e, w'))"
| "api (Set_net_option n v l) w = Some (ezdev_sdk_kernel_set_net_option n v l w)"
| "api (Set_sdk_main_version v) w = Some (ezdev_sdk_kernel_set_sdk_main_version v w)"
| "api (Set_keepalive_interval i t) w = Some (ezdev_sdk_kernel_set_keepalive_interval i t w)"
| "api (Get_sdk_version d b n) w = (case ezdev_sdk_kernel_get_sdk_version d b n w of (e, _, _, w') \<Rightarrow> Some (e, w'))"
| "api (Get_stun p b c) w = map_option (\<lambda>(e, _, _, w'). (e, w')) (ezdev_sdk_kernel_get_stun p b c w)"

text \<open>A run: calls one after the other, all of which return.\<close>

fun run :: "api_call list \<Rightarrow> world \<Rightarrow> world option" where
  "run [] w = Some w"
| "run (c # cs) w = (case api c w of None \<Rightarrow> None | Some (_, w') \<Rightarrow> run cs w')"

inductive reachable :: "world \<Rightarrow> bool" where
  booted: "reachable ((boot_world e)\<lparr>heap := h\<rparr>)"
| called: "reachable w \<Longrightarrow> api c w = Some (r, w') \<Longrightarrow> reachable w'"

section \<open>The invariant of the program\<close>

definition tables_clear :: "world \<Rightarrow> bool" where
  "tables_clear w \<longleftrightarrow> set (g_kernel_domains w) \<subseteq> {zero_domain_info} \<and> set (g_kernel_extend w) \<subseteq> {zero_extend_v3} \<and>
     g_kernel_domains_count w = 0 \<and> g_kernel_extend_count w = 0"

text \<open>
  An object that was not initialised is zero but for the version the application may have set;
  an object that was initialised has well formed tables; only a started device has a connection.
\<close>

definition kernel_inv :: "world \<Rightarrow> bool" where
  "kernel_inv w \<longleftrightarrow> (let k = g_ezdev_sdk_kernel w in
     queues_ok w \<and> length (g_kernel_hub_extend w) = HUB_EXTEND_MAX_NUM \<and> counters_ok k \<and>
     cnt_state k \<notin> {sdk_cnt_das_fast_reg, sdk_cnt_das_fast_reg_v3} \<and>
     (my_state k \<noteq> sdk_start \<longrightarrow> cnt_state k = sdk_cnt_unredirect) \<and> my_state k \<noteq> sdk_idle2 \<and>
     (if my_state k = sdk_idle0 then k = zero_kernel\<lparr>szMainVersion := szMainVersion k\<rparr> \<and> tables_clear w
      else tables_ok w))"

lemma kernel_inv_live:
  "my_state (g_ezdev_sdk_kernel w) \<noteq> sdk_idle0 \<Longrightarrow> kernel_inv w \<longleftrightarrow> state_ok w \<and> counters_ok (g_ezdev_sdk_kernel w) \<and>
     cnt w \<notin> {sdk_cnt_das_fast_reg, sdk_cnt_das_fast_reg_v3} \<and>
     (my_state (g_ezdev_sdk_kernel w) \<noteq> sdk_start \<longrightarrow> cnt w = sdk_cnt_unredirect) \<and> my_state (g_ezdev_sdk_kernel w) \<noteq> sdk_idle2"
  by (auto simp: kernel_inv_def Let_def state_ok_def tables_ok_def)

lemma stays_inv:
  assumes "stays w w'" and "kernel_inv w" and "my_state (g_ezdev_sdk_kernel w) \<noteq> sdk_idle0"
  shows "kernel_inv w'"
proof -
  have k: "kstays (g_ezdev_sdk_kernel w) (g_ezdev_sdk_kernel w')" and s: "state_ok w \<Longrightarrow> state_ok w'"
    using assms(1) by (simp_all add: stays_def)
  note f = kstays_fields(1-5) [OF k]
  show ?thesis
    using assms(2,3) f s kernel_inv_live [of w] kernel_inv_live [of w'] by (auto simp: counters_ok_def)
qed

lemma redirects_inv:
  assumes "redirects w w'" and "kernel_inv w" and "my_state (g_ezdev_sdk_kernel w) \<noteq> sdk_idle0"
  shows "kernel_inv w'"
proof -
  have k: "kfix (g_ezdev_sdk_kernel w') = kfix (g_ezdev_sdk_kernel w)" and s: "state_ok w \<Longrightarrow> state_ok w'"
    using assms(1) by (simp_all add: redirects_def)
  note f = kfix_fields [OF k]
  show ?thesis
    using assms(2,3) f s kernel_inv_live [of w] kernel_inv_live [of w'] by (simp add: counters_ok_def)
qed

lemma turn_inv:
  assumes "access_server_yield w = Some (r, w')" and "kernel_inv w" and "my_state (g_ezdev_sdk_kernel w) = sdk_start"
  shows "kernel_inv w' \<and> my_state (g_ezdev_sdk_kernel w') = sdk_start"
proof -
  have t: "turns r (g_ezdev_sdk_kernel w) (g_ezdev_sdk_kernel w')" "state_ok w \<Longrightarrow> state_ok w'"
    using yield_turns [OF assms(1)] by (simp_all add: turn_ok_def)
  have "cnt w' \<notin> {sdk_cnt_das_fast_reg, sdk_cnt_das_fast_reg_v3}"
    if "cnt w \<notin> {sdk_cnt_das_fast_reg, sdk_cnt_das_fast_reg_v3}"
    using t(1) that by (cases "cnt w' = cnt w") (auto simp: turns_def elim: cnt_next.cases)
  then show ?thesis
    using t assms(2,3) kernel_inv_live [of w] kernel_inv_live [of w'] by (auto simp: turns_def)
qed

section \<open>Stopping\<close>

text \<open>A registered device always gets an answer from its turn.\<close>

lemma reged_returns: "cnt w = sdk_cnt_das_reged \<Longrightarrow> \<exists>r w'. access_server_yield w = Some (r, w')"
  by (simp add: access_server_yield_def cnt_state_yield_def turn_def split_beta)

lemma stop_loop_ends:
  "\<exists>w'. stop_loop 0 w = Some w' \<and> (w' = w \<or> (\<exists>r w1. access_server_yield w = Some (r, w1) \<and> stays w1 w'))"
proof (cases "cnt w = sdk_cnt_das_reged")
  case False
  then show ?thesis by (simp add: stop_loop.simps)
next
  case True
  obtain r w1 where y: "access_server_yield w = Some (r, w1)" using reged_returns [OF True] by auto
  obtain r2 x w2 where g: "get_queue_pubmsg_exchange w1 = (r2, x, w2)" by (metis prod_cases3)
  have "stays w1 w2" by (rule stays_pubmsg(2) [OF g]) simp
  moreover from this have "stays w1 (time_sleep 100 w2)" by (rule stays_sleep)
  ultimately show ?thesis using True y g by (subst stop_loop.simps) (simp add: Let_def)
qed

text \<open>The state in between: well formed, with a connection or without.\<close>

definition in_order :: "world \<Rightarrow> bool" where
  "in_order w \<longleftrightarrow> state_ok w \<and> counters_ok (g_ezdev_sdk_kernel w) \<and>
     cnt w \<notin> {sdk_cnt_das_fast_reg, sdk_cnt_das_fast_reg_v3}"

lemma stays_in_order: "stays w w' \<Longrightarrow> in_order w \<Longrightarrow> in_order w' \<and> my_state (g_ezdev_sdk_kernel w') = my_state (g_ezdev_sdk_kernel w)"
  using kstays_fields(1-5) [of "g_ezdev_sdk_kernel w" "g_ezdev_sdk_kernel w'"]
  by (auto simp: stays_def in_order_def counters_ok_def)

lemma turn_in_order:
  assumes "access_server_yield w = Some (r, w')" and "in_order w"
  shows "in_order w' \<and> my_state (g_ezdev_sdk_kernel w') = my_state (g_ezdev_sdk_kernel w)"
proof -
  have t: "turns r (g_ezdev_sdk_kernel w) (g_ezdev_sdk_kernel w')" "state_ok w \<Longrightarrow> state_ok w'"
    using yield_turns [OF assms(1)] by (simp_all add: turn_ok_def)
  have "cnt w' \<notin> {sdk_cnt_das_fast_reg, sdk_cnt_das_fast_reg_v3}"
    using t(1) assms(2) by (cases "cnt w' = cnt w") (auto simp: turns_def in_order_def elim: cnt_next.cases)
  then show ?thesis using t assms(2) by (auto simp: turns_def in_order_def)
qed

lemma stop_loop_in_order:
  assumes "stop_loop 0 w = Some w'" and "in_order w"
  shows "in_order w' \<and> my_state (g_ezdev_sdk_kernel w') = my_state (g_ezdev_sdk_kernel w)"
  using stop_loop_ends [of w] assms turn_in_order stays_in_order by fastforce

definition stop_sent :: "world \<Rightarrow> world" where
  "stop_sent w =
     (let w1 = snd (clear_queue_pubmsg_exchange (upd_kernel (\<lambda>k. k\<lparr>my_state := sdk_stop\<rparr>) w))
      in case genaral_seq w1 of (seq, w2) \<Rightarrow> snd (send_offline_msg_to_platform seq w2))"

lemma stop_sent_stays: "stays (upd_kernel (\<lambda>k. k\<lparr>my_state := sdk_stop\<rparr>) w) (stop_sent w)"
  unfolding stop_sent_def Let_def
  by (auto split: prod.split intro!: stays_offline elim!: stays_genaral_seq intro: stays_clear_pubmsg)

lemma stop_runs:
  assumes "my_state (g_ezdev_sdk_kernel w) = sdk_start" and "check_access_risk_control w = 0"
  shows "\<exists>w'. stop_loop 0 (stop_sent w) = Some w' \<and> ezdev_sdk_kernel_stop w = Some (ezdev_sdk_kernel_succ, snd (stop_yield w'))"
proof -
  obtain w' where w': "stop_loop 0 (stop_sent w) = Some w'" using stop_loop_ends by blast
  then have "ezdev_sdk_kernel_stop w = Some (ezdev_sdk_kernel_succ, snd (stop_yield w'))"
    using assms by (simp add: ezdev_sdk_kernel_stop_def stop_sent_def Let_def split_beta)
  then show ?thesis using w' by blast
qed

lemma stop_yield_stays: "stays w (snd (das_unreg w))"
  using stays_registrations(5) [of w "fst (das_unreg w)" "snd (das_unreg w)" w] by simp

lemma kernel_stop_yield:
  "g_ezdev_sdk_kernel (snd (stop_yield w)) = (g_ezdev_sdk_kernel (snd (das_unreg w)))\<lparr>cnt_state := sdk_cnt_unredirect\<rparr>"
  "state_ok (snd (stop_yield w)) = state_ok (snd (das_unreg w))"
  by (simp_all add: stop_yield_def split_beta upd_kernel_def)

lemma stop_inv:
  assumes "my_state (g_ezdev_sdk_kernel w) = sdk_start" and "check_access_risk_control w = 0" and "kernel_inv w"
    and "ezdev_sdk_kernel_stop w = Some (r, w')"
  shows "kernel_inv w' \<and> my_state (g_ezdev_sdk_kernel w') = sdk_stop"
proof -
  obtain w2 where w2: "stop_loop 0 (stop_sent w) = Some w2" "w' = snd (stop_yield w2)"
    using stop_runs [OF assms(1,2)] assms(4) by auto
  let ?w1 = "upd_kernel (\<lambda>k. k\<lparr>my_state := sdk_stop\<rparr>) w"
  have "in_order ?w1"
    using assms(1,3) kernel_inv_live [of w] by (simp add: in_order_def counters_ok_def upd_kernel_def)
  then have "in_order (stop_sent w) \<and> my_state (g_ezdev_sdk_kernel (stop_sent w)) = sdk_stop"
    using stays_in_order [OF stop_sent_stays] by (simp add: upd_kernel_def)
  then have "in_order w2 \<and> my_state (g_ezdev_sdk_kernel w2) = sdk_stop"
    using stop_loop_in_order [OF w2(1)] by simp
  then have "in_order (snd (das_unreg w2)) \<and> my_state (g_ezdev_sdk_kernel (snd (das_unreg w2))) = sdk_stop"
    using stays_in_order [OF stop_yield_stays] by simp
  then show ?thesis
    unfolding w2(2) by (simp add: kernel_inv_live kernel_stop_yield in_order_def counters_ok_def)
qed

section \<open>Every call keeps the invariant\<close>

lemma inv_frame [simp]:
  "kernel_inv (undefined_behaviour w) = kernel_inv w" "kernel_inv (w\<lparr>g_binding_nic := n\<rparr>) = kernel_inv w"
  "kernel_inv (w\<lparr>g_common_module := m\<rparr>) = kernel_inv w"
  by (simp_all add: kernel_inv_def undefined_behaviour_def tables_clear_def)

lemma zero_kernel_fields [simp]:
  "my_state zero_kernel = sdk_idle0" "cnt_state zero_kernel = sdk_cnt_unredirect" "counters_ok zero_kernel"
  by (simp_all add: zero_kernel_def counters_ok_def)

lemma inv_copy: "copy_buf n p w = (b, w') \<Longrightarrow> kernel_inv w' = kernel_inv w"
  by (auto simp: copy_buf_def Let_def split: if_splits)

lemma init_inv:
  assumes "kernel_inv w" and "ezdev_sdk_kernel_init s d p f w = (r, w')"
  shows "kernel_inv w'"
proof -
  let ?w1 = "w\<lparr>g_ezdev_sdk_kernel := zero_kernel\<rparr>"
  have 1: "kernel_inv ?w1" if "my_state (g_ezdev_sdk_kernel w) = sdk_idle0"
    using assms(1) that by (simp add: kernel_inv_def tables_clear_def Let_def)
  have 2: "kernel_inv (upd_kernel (\<lambda>k. k\<lparr>my_state := sdk_idle\<rparr>)
      (das_object_init (extend_init f (?w1\<lparr>g_ezdev_sdk_kernel := init_kernel n port di\<rparr>))\<lparr>g_das_transport_seq := 0\<rparr>))"
    for n port di
  proof -
    let ?w = "das_object_init (extend_init f (?w1\<lparr>g_ezdev_sdk_kernel := init_kernel n port di\<rparr>))"
    have "length (g_kernel_hub_extend w) = HUB_EXTEND_MAX_NUM" using assms(1) by (simp add: kernel_inv_def Let_def)
    then have "tables_ok ?w" by (simp add: das_object_init_def init_queue_frame extend_init_ok)
    moreover have "queues_ok ?w" by (simp add: das_object_init_def init_queue_ok)
    moreover have "g_ezdev_sdk_kernel ?w = init_kernel n port di"
      by (simp add: das_object_init_def init_queue_frame extend_init_def)
    ultimately show ?thesis
      by (simp add: kernel_inv_live state_ok_def upd_kernel_def init_kernel_def counters_ok_def zero_kernel_def)
  qed
  have "my_state (g_ezdev_sdk_kernel w) \<noteq> sdk_idle2" using assms(1) by (simp add: kernel_inv_def Let_def)
  then show ?thesis
    using assms 1 2 by (auto simp: ezdev_sdk_kernel_init_def Let_def split: if_splits option.splits)
qed

lemma fini_inv:
  assumes "kernel_inv w" and "ezdev_sdk_kernel_fini w = (r, w')"
  shows "kernel_inv w'"
proof (cases "my_state (g_ezdev_sdk_kernel w) = sdk_idle \<or> my_state (g_ezdev_sdk_kernel w) = sdk_stop")
  case True
  then have i: "queues_ok w" "tables_ok w" using assms(1) by (auto simp: kernel_inv_def Let_def)
  obtain m where m: "fini_queue w = w\<lparr>g_queue_submsg := zero_queue, g_queue_pubmsg_exchange := zero_queue,
       g_queue_inner_cb_notic := zero_queue, g_queue_submsg_v3 := zero_queue,
       g_queue_pubmsg_exchange_v3 := zero_queue, heap := m\<rparr>" using fini_queue_spec [OF i(1)] by blast
  have w': "w' = (common_module_fini (extend_fini (das_object_fini w)))\<lparr>g_ezdev_sdk_kernel := zero_kernel\<rparr>"
    using True assms(2) by (auto simp: ezdev_sdk_kernel_fini_def)
  have "queues_ok w'"
    by (simp add: w' common_module_fini_def extend_fini_def das_object_fini_def m) (simp add: queues_ok_def)
  moreover have "tables_clear w'" "length (g_kernel_hub_extend w') = HUB_EXTEND_MAX_NUM"
    using i(2) by (auto simp: set_replicate_conv_if w' common_module_fini_def extend_fini_def das_object_fini_def m tables_clear_def tables_ok_defs)
  moreover have "g_ezdev_sdk_kernel w' = zero_kernel" by (simp add: w')
  ultimately show ?thesis by (simp add: kernel_inv_def)
next
  case False
  then show ?thesis using assms by (simp add: ezdev_sdk_kernel_fini_def)
qed

lemma loaded_inv:
  assumes "kernel_inv w" and "my_state (g_ezdev_sdk_kernel w) \<noteq> sdk_idle0" and "tables_ok w'" and "queues_ok w' = queues_ok w"
    and "kcore (g_ezdev_sdk_kernel w')\<lparr>v3_reg_status := v, hub_reg_status := h\<rparr> =
         kcore (g_ezdev_sdk_kernel w)\<lparr>v3_reg_status := v, hub_reg_status := h\<rparr>"
    and "cnt w' = cnt w"
  shows "kernel_inv w'"
proof -
  have "my_state (g_ezdev_sdk_kernel w') = my_state (g_ezdev_sdk_kernel w)"
    "counters_ok (g_ezdev_sdk_kernel w') = counters_ok (g_ezdev_sdk_kernel w)"
    using arg_cong [OF assms(5), of my_state] arg_cong [OF assms(5), of lbs_redirect_times]
      arg_cong [OF assms(5), of das_retry_times] by (simp_all add: kcore_def counters_ok_def)
  then show ?thesis
    using assms kernel_inv_live [of w] kernel_inv_live [of w'] by (simp add: state_ok_def)
qed

lemma load_kernel:
  "g_ezdev_sdk_kernel (snd (extend_load e w)) = g_ezdev_sdk_kernel w" "queues_ok (snd (extend_load e w)) = queues_ok w"
  "g_ezdev_sdk_kernel (snd (extend_load_v3 e3 w)) = g_ezdev_sdk_kernel w" "queues_ok (snd (extend_load_v3 e3 w)) = queues_ok w"
  "g_ezdev_sdk_kernel (snd (sdk_hub_extend_load h w)) = g_ezdev_sdk_kernel w"
  "queues_ok (snd (sdk_hub_extend_load h w)) = queues_ok w"
  by (simp_all add: extend_load_def extend_load_v3_def sdk_hub_extend_load_def split: sum.split option.split)

lemma load_inv:
  assumes i: "kernel_inv w"
  shows "ezdev_sdk_kernel_extend_load e w = (r, w') \<Longrightarrow> kernel_inv w'"
    and "ezdev_sdk_kernel_extend_load_v3 e3 w = (r, w') \<Longrightarrow> kernel_inv w'"
    and "ezdev_sdk_kernel_common_module_load m w = (r, w') \<Longrightarrow> kernel_inv w'"
    and "ezdev_sdk_kernel_hub_extend_load h w = (r, w') \<Longrightarrow> kernel_inv w'"
proof -
  have t: "loading w \<Longrightarrow> tables_ok w \<and> my_state (g_ezdev_sdk_kernel w) \<noteq> sdk_idle0"
    using i by (auto simp: loading_def kernel_inv_def Let_def)
  note l = loaded_inv [OF i, of _ "hub_reg_status (g_ezdev_sdk_kernel w)" "v3_reg_status (g_ezdev_sdk_kernel w)"]
  show "ezdev_sdk_kernel_extend_load e w = (r, w') \<Longrightarrow> kernel_inv w'"
    using t i by (auto simp: ezdev_sdk_kernel_extend_load_def translated_def callbacks_ok_def load_kernel
        intro!: l load_ok split: if_splits option.splits)
  show "ezdev_sdk_kernel_extend_load_v3 e3 w = (r, w') \<Longrightarrow> kernel_inv w'"
    using t i by (auto simp: ezdev_sdk_kernel_extend_load_v3_def translated_def load_kernel upd_kernel_def kcore_def
        intro!: l load_v3_ok split: if_splits option.splits)
  show "ezdev_sdk_kernel_common_module_load m w = (r, w') \<Longrightarrow> kernel_inv w'"
    using i by (auto simp: ezdev_sdk_kernel_common_module_load_def translated_def common_module_load_def
        split: if_splits option.splits)
  show "ezdev_sdk_kernel_hub_extend_load h w = (r, w') \<Longrightarrow> kernel_inv w'"
    using t i by (auto simp: ezdev_sdk_kernel_hub_extend_load_def translated_def load_kernel upd_kernel_def kcore_def
        hub_load_ok intro!: l split: if_splits option.splits prod.splits)
qed

lemma kernel_inv_stun:
  "kernel_inv w \<Longrightarrow> ezdev_sdk_kernel_get_stun p b c w = Some (e, i, c', w') \<Longrightarrow> kernel_inv w'"
  using redirects_inv [OF stun_frame] by (fastforce simp: ezdev_sdk_kernel_get_stun_def Let_def split: if_splits option.splits)

lemma net_option_inv:
  "kernel_inv w \<Longrightarrow> ezdev_sdk_kernel_set_net_option n v l w = (r, w') \<Longrightarrow> kernel_inv w'"
  by (auto simp: ezdev_sdk_kernel_set_net_option_def inv_copy split: if_splits prod.splits)
    (auto simp: kernel_inv_def upd_kernel_def counters_ok_def Let_def)

lemma start_inv:
  assumes "kernel_inv w" and "ezdev_sdk_kernel_start w = (r, w')"
  shows "kernel_inv w'"
proof (cases "my_state (g_ezdev_sdk_kernel w) = sdk_idle \<or> my_state (g_ezdev_sdk_kernel w) = sdk_stop")
  case True
  let ?w = "upd_kernel (\<lambda>k. k\<lparr>my_state := sdk_start\<rparr>) w"
  have "kernel_inv ?w"
    using True assms(1) by (auto simp: kernel_inv_live upd_kernel_def counters_ok_def)
  then show ?thesis
    using True assms(2) stays_inv [OF stays_broadcasts(1) [OF stays_refl], of ?w]
    by (auto simp: ezdev_sdk_kernel_start_def upd_kernel_def)
next
  case False
  then show ?thesis using assms by (simp add: ezdev_sdk_kernel_start_def)
qed

lemma version_upd:
  "k = zero_kernel\<lparr>szMainVersion := szMainVersion k\<rparr> \<Longrightarrow> k\<lparr>szMainVersion := x\<rparr> = zero_kernel\<lparr>szMainVersion := x\<rparr>"
  by (drule arg_cong [where f = "\<lambda>k. k\<lparr>szMainVersion := x\<rparr>"]) simp

lemma main_version_inv: "kernel_inv w \<Longrightarrow> kernel_inv (snd (ezdev_sdk_kernel_set_sdk_main_version v w))"
proof -
  assume i: "kernel_inv w"
  let ?k = "g_ezdev_sdk_kernel w" and ?v = "strncpy0 (version_max_len - 1) v"
  have "?k\<lparr>szMainVersion := ?v\<rparr> = zero_kernel\<lparr>szMainVersion := ?v\<rparr>" if "my_state ?k = sdk_idle0"
    by (rule version_upd) (use i that in \<open>simp add: kernel_inv_def Let_def\<close>)
  then show ?thesis
    using i unfolding kernel_inv_def ezdev_sdk_kernel_set_sdk_main_version_def upd_kernel_def Let_def
    by (simp add: counters_ok_def tables_clear_def split: if_splits)
qed

lemma started_inv:
  assumes "kernel_inv w" and "my_state (g_ezdev_sdk_kernel w) = sdk_start" and "stays w w'"
  shows "kernel_inv w'"
  using assms stays_inv by simp

lemma send_invs:
  assumes "kernel_inv w"
  shows "ezdev_sdk_kernel_send m w = (e, m', w') \<Longrightarrow> kernel_inv w'"
    and "ezdev_sdk_kernel_send_v3 m3 w = (e, m3', w') \<Longrightarrow> kernel_inv w'"
    and "ezdev_sdk_kernel_set_keepalive_interval i t w = (e, w') \<Longrightarrow> kernel_inv w'"
    and "ezdev_sdk_kernel_yield_user w = (e, w') \<Longrightarrow> kernel_inv w'"
proof -
  note s = started_inv [OF assms]
  have idle: "ezdev_sdk_kernel_send m w = (ezdev_sdk_kernel_invald_call, m, w)"
    "ezdev_sdk_kernel_send_v3 m3 w = (ezdev_sdk_kernel_invald_call, m3, w)"
    "ezdev_sdk_kernel_set_keepalive_interval i t w = (ezdev_sdk_kernel_invald_call, w)"
    "ezdev_sdk_kernel_yield_user w = (ezdev_sdk_kernel_invald_call, w)"
    if "my_state (g_ezdev_sdk_kernel w) \<noteq> sdk_start"
    using that by (simp_all add: ezdev_sdk_kernel_send_def ezdev_sdk_kernel_send_v3_def
        ezdev_sdk_kernel_set_keepalive_interval_def ezdev_sdk_kernel_yield_user_def)
  show "ezdev_sdk_kernel_send m w = (e, m', w') \<Longrightarrow> kernel_inv w'"
    using s stays_sends(1) [of m w e m' w' w] idle assms by (cases "my_state (g_ezdev_sdk_kernel w) = sdk_start") auto
  show "ezdev_sdk_kernel_send_v3 m3 w = (e, m3', w') \<Longrightarrow> kernel_inv w'"
    using s stays_sends(2) [of m3 w e m3' w' w] idle assms by (cases "my_state (g_ezdev_sdk_kernel w) = sdk_start") auto
  show "ezdev_sdk_kernel_set_keepalive_interval i t w = (e, w') \<Longrightarrow> kernel_inv w'"
    using s stays_keepalive [of i t w e w' w] idle assms by (cases "my_state (g_ezdev_sdk_kernel w) = sdk_start") auto
  show "ezdev_sdk_kernel_yield_user w = (e, w') \<Longrightarrow> kernel_inv w'"
    using s stays_extend_yield [of w w] idle assms
    by (cases "my_state (g_ezdev_sdk_kernel w) = sdk_start") (auto simp: ezdev_sdk_kernel_yield_user_def translated_def)
qed

lemma yield_inv: "kernel_inv w \<Longrightarrow> ezdev_sdk_kernel_yield w = Some (r, w') \<Longrightarrow> kernel_inv w'"
  using turn_inv by (fastforce simp: ezdev_sdk_kernel_yield_def translated_def split: if_splits)

lemma stop_keeps: "kernel_inv w \<Longrightarrow> ezdev_sdk_kernel_stop w = Some (r, w') \<Longrightarrow> kernel_inv w'"
  using stop_inv [of w r w'] by (cases "my_state (g_ezdev_sdk_kernel w) = sdk_start \<and> check_access_risk_control w = 0")
    (auto simp: ezdev_sdk_kernel_stop_def split: if_splits)

lemma version_inv: "ezdev_sdk_kernel_get_sdk_version d b n w = (e, t, l, w') \<Longrightarrow> kernel_inv w' = kernel_inv w"
  by (auto simp: ezdev_sdk_kernel_get_sdk_version_def Let_def split: if_splits option.splits)

lemma api_inv: "api c w = Some (r, w') \<Longrightarrow> kernel_inv w \<Longrightarrow> kernel_inv w'"
  by (cases c) (auto split: prod.splits dest: init_inv fini_inv load_inv start_inv stop_keeps yield_inv send_invs
      net_option_inv kernel_inv_stun version_inv main_version_inv simp: ezdev_sdk_kernel_set_sdk_main_version_def)

lemma boot_inv: "kernel_inv ((boot_world e)\<lparr>heap := h\<rparr>)"
  by (simp add: kernel_inv_def boot_world_def queues_ok_def tables_clear_def HUB_EXTEND_MAX_NUM_def set_replicate_conv_if)

lemma reachable_inv: "reachable w \<Longrightarrow> kernel_inv w"
  by (induction rule: reachable.induct) (auto intro: boot_inv api_inv)

lemma reachable_run: "run cs w = Some w' \<Longrightarrow> reachable w \<Longrightarrow> reachable w'"
  by (induction cs arbitrary: w) (auto split: option.splits intro: reachable.called)

section \<open>A blocked device\<close>

definition blocked :: "world \<Rightarrow> bool" where
  "blocked w \<longleftrightarrow> my_state (g_ezdev_sdk_kernel w) = sdk_start \<and> access_risk (g_ezdev_sdk_kernel w) = sdk_risk_control"

lemma stays_blocked: "stays w w' \<Longrightarrow> blocked w \<Longrightarrow> blocked w'"
  using kstays_fields(3,6) [of "g_ezdev_sdk_kernel w" "g_ezdev_sdk_kernel w'"] by (auto simp: stays_def blocked_def)

lemma redirects_blocked: "redirects w w' \<Longrightarrow> blocked w \<Longrightarrow> blocked w'"
  using kfix_fields(3,6) [of "g_ezdev_sdk_kernel w'" "g_ezdev_sdk_kernel w"] by (auto simp: redirects_def blocked_def)

lemma stun_cases:
  "ezdev_sdk_kernel_get_stun p b c w = Some (e, i, c', w') \<Longrightarrow> w' = w \<or> (\<exists>r i'. lbs_getstun zero_stun_info w = Some (r, i', w'))"
  by (auto simp: ezdev_sdk_kernel_get_stun_def Let_def split: if_splits option.splits)

lemma blocked_answers:
  assumes "blocked w"
  shows "ezdev_sdk_kernel_yield w = Some (mkiE2ezE mkernel_internal_force_offline, w)"
    and "ezdev_sdk_kernel_stop w = Some (ezdev_sdk_kernel_das_force_dev_risk, w)"
    and "ezdev_sdk_kernel_fini w = (ezdev_sdk_kernel_invald_call, w)"
    and "ezdev_sdk_kernel_init s d p f w = (ezdev_sdk_kernel_invald_call, w)"
    and "ezdev_sdk_kernel_start w = (ezdev_sdk_kernel_invald_call, w)"
  using assms by (simp_all add: blocked_def ezdev_sdk_kernel_yield_def access_server_yield_def cnt_state_yield_def
      check_access_risk_control_def translated_def ezdev_sdk_kernel_stop_def ezdev_sdk_kernel_fini_def
      ezdev_sdk_kernel_init_def ezdev_sdk_kernel_start_def)

lemma api_blocked:
  assumes "api c w = Some (r, w')" and "blocked w"
  shows "blocked w'"
proof (cases c)
  case (Send m)
  then show ?thesis using assms stays_blocked [OF stays_sends(1) [OF _ stays_refl]] by (auto split: prod.splits)
next
  case (Send_v3 m)
  then show ?thesis using assms stays_blocked [OF stays_sends(2) [OF _ stays_refl]] by (auto split: prod.splits)
next
  case (Set_keepalive_interval i t)
  then show ?thesis using assms stays_blocked [OF stays_keepalive [OF _ stays_refl]] by auto
next
  case Yield_user
  then show ?thesis
    using assms stays_blocked [OF stays_extend_yield [OF stays_refl], of w]
    by (auto simp: ezdev_sdk_kernel_yield_user_def translated_def blocked_def split: if_splits)
next
  case (Get_stun p b s)
  then show ?thesis
    using assms by (auto dest!: stun_cases intro: redirects_blocked stun_frame)
next
  case (Extend_load e)
  then show ?thesis using assms by (auto simp: ezdev_sdk_kernel_extend_load_def translated_def blocked_def load_kernel
      split: if_splits option.splits)
next
  case (Extend_load_v3 e)
  then show ?thesis using assms by (auto simp: ezdev_sdk_kernel_extend_load_v3_def translated_def blocked_def load_kernel
      upd_kernel_def split: if_splits option.splits)
next
  case (Hub_extend_load e)
  then show ?thesis using assms by (auto simp: ezdev_sdk_kernel_hub_extend_load_def translated_def blocked_def load_kernel
      upd_kernel_def split: if_splits prod.splits)
next
  case (Common_module_load e)
  then show ?thesis using assms by (auto simp: ezdev_sdk_kernel_common_module_load_def translated_def blocked_def
      common_module_load_def split: if_splits option.splits)
next
  case (Set_net_option n v l)
  then show ?thesis using assms by (auto simp: ezdev_sdk_kernel_set_net_option_def blocked_def copy_buf_def upd_kernel_def
      Let_def split: if_splits option.splits prod.splits)
next
  case (Set_sdk_main_version v)
  then show ?thesis using assms by (auto simp: ezdev_sdk_kernel_set_sdk_main_version_def blocked_def upd_kernel_def)
next
  case (Get_sdk_version d b n)
  then show ?thesis using assms by (auto simp: ezdev_sdk_kernel_get_sdk_version_def blocked_def Let_def
      split: if_splits option.splits prod.splits)
qed (use assms blocked_answers in auto)

lemma run_blocked: "run cs w = Some w' \<Longrightarrow> blocked w \<Longrightarrow> blocked w'"
  by (induction cs arbitrary: w) (auto split: option.splits dest: api_blocked)

section \<open>Properties\<close>

text \<open>
  C1: Whatever the application calls, in any order and with any arguments, and whatever the
  servers, the platform and the memory answer, the program stays in order: the five queues are
  well formed, the module tables are clear before and well formed after the initialisation, the
  life cycle is in one of four states, only a started device has a connection, the counters of
  failures are bounded, and the two states for a fast registration are never entered.
\<close>

theorem reachable_in_order:
  assumes "reachable w"
  shows "kernel_inv w"
  using assms by (rule reachable_inv)

definition demo_dev :: ezdev_sdk_dev_info_t where
  "demo_dev = \<lparr>di_auth_mode = sdk_dev_auth_license, di_dev_subserial = ''D12345678'', di_dev_verification_code = ''ABCDEF'',
     di_dev_serial = ''D12345678'', di_dev_firmwareversion = ''V1'', di_dev_type = ''demo'', di_dev_typedisplay = ''demo'',
     di_dev_mac = ''00'', di_dev_nickname = ''demo'', di_dev_id = [], di_dev_master_key = []\<rparr>"

definition demo_calls :: "api_call list" where
  "demo_calls = [Init (Some \<lparr>svr_name = Some ''lbs'', svr_port = 8666\<rparr>) (Some demo_dev) True (Some 9),
     Extend_load (Some demo_extend), Start]"

theorem reachable_in_order_witness:
  "\<exists>w. run demo_calls (boot_world calm_env) = Some w \<and> kernel_inv w \<and> my_state (g_ezdev_sdk_kernel w) = sdk_start"
proof -
  let ?b = "boot_world calm_env"
  have b: "?b = ?b\<lparr>heap := heap ?b\<rparr>" by simp
  have "my_state (g_ezdev_sdk_kernel ?b) = sdk_idle0" by (simp add: boot_world_def)
  then obtain w1 where 1: "api (demo_calls ! 0) ?b = Some (ezdev_sdk_kernel_succ, w1)" "my_state (g_ezdev_sdk_kernel w1) = sdk_idle"
    by (simp add: demo_calls_def ezdev_sdk_kernel_init_def c_str_def ezdev_sdk_name_len_def Let_def upd_kernel_def)
  obtain r w2 where 2: "api (demo_calls ! 1) w1 = Some (r, w2)" "my_state (g_ezdev_sdk_kernel w2) = sdk_idle"
    using 1(2) by (simp add: demo_calls_def ezdev_sdk_kernel_extend_load_def loading_def demo_extend_def translated_def load_kernel)
  obtain w3 where 3: "api (demo_calls ! 2) w2 = Some (ezdev_sdk_kernel_succ, w3)" "my_state (g_ezdev_sdk_kernel w3) = sdk_start"
  proof -
    let ?w = "upd_kernel (\<lambda>k. k\<lparr>my_state := sdk_start\<rparr>) w2"
    have "my_state (g_ezdev_sdk_kernel (snd (broadcast_user_start ?w))) = my_state (g_ezdev_sdk_kernel ?w)"
      using stays_broadcasts(1) [OF stays_refl, of ?w] kstays_fields(3) by (auto simp: stays_def)
    then show ?thesis using that 2(2) by (simp add: demo_calls_def ezdev_sdk_kernel_start_def upd_kernel_def)
  qed
  have "demo_calls = [demo_calls ! 0, demo_calls ! 1, demo_calls ! 2]" by (simp add: demo_calls_def)
  then have r: "run demo_calls ?b = Some w3" using 1(1) 2(1) 3(1) by (metis run.simps option.simps(5) case_prod_conv)
  have "reachable ?b" using reachable.booted [of "heap ?b" calm_env] by simp
  from reachable_in_order [OF reachable_run [OF r this]] show ?thesis using r 3(2) by blast
qed

text \<open>
  C5: A started device that the platform has put in the black list stays blocked whatever the
  application calls: the connection refuses every turn, the device cannot be stopped, and so it
  can neither be finalised nor initialised again.
\<close>

theorem blocked_for_good:
  assumes "blocked w" and "run cs w = Some w'"
  shows "blocked w' \<and> ezdev_sdk_kernel_yield w' = Some (mkiE2ezE mkernel_internal_force_offline, w') \<and>
     ezdev_sdk_kernel_stop w' = Some (ezdev_sdk_kernel_das_force_dev_risk, w') \<and>
     ezdev_sdk_kernel_fini w' = (ezdev_sdk_kernel_invald_call, w') \<and>
     ezdev_sdk_kernel_init s d p f w' = (ezdev_sdk_kernel_invald_call, w') \<and>
     ezdev_sdk_kernel_start w' = (ezdev_sdk_kernel_invald_call, w')"
  using run_blocked [OF assms(2,1)] blocked_answers by simp

theorem blocked_for_good_witness:
  "ezdev_sdk_kernel_fini (add_access_risk_control (upd_kernel (\<lambda>k. k\<lparr>my_state := sdk_start\<rparr>) (boot_world calm_env))) =
     (ezdev_sdk_kernel_invald_call, add_access_risk_control (upd_kernel (\<lambda>k. k\<lparr>my_state := sdk_start\<rparr>) (boot_world calm_env)))"
proof -
  let ?w = "add_access_risk_control (upd_kernel (\<lambda>k. k\<lparr>my_state := sdk_start\<rparr>) (boot_world calm_env))"
  have b: "blocked ?w" by (simp add: blocked_def add_access_risk_control_def upd_kernel_def)
  then have "run [Yield, Stop, Start] ?w = Some ?w" using blocked_answers by simp
  from blocked_for_good [OF b this] show ?thesis by blast
qed

text \<open>
  C15: Stopping always returns, whatever the network does: a started device that is not blocked is
  stopped and without a connection afterwards, after at most one more turn; any other call is
  refused and changes nothing.
\<close>

theorem stop_always_returns:
  "\<exists>r w'. ezdev_sdk_kernel_stop w = Some (r, w') \<and>
     (if my_state (g_ezdev_sdk_kernel w) = sdk_start \<and> access_risk (g_ezdev_sdk_kernel w) = sdk_no_risk_control
      then r = ezdev_sdk_kernel_succ \<and> my_state (g_ezdev_sdk_kernel w') = sdk_stop \<and> cnt w' = sdk_cnt_unredirect
      else r \<noteq> ezdev_sdk_kernel_succ \<and> w' = w)"
proof (cases "my_state (g_ezdev_sdk_kernel w) = sdk_start \<and> check_access_risk_control w = 0")
  case True
  obtain w2 where w2: "stop_loop 0 (stop_sent w) = Some w2" "ezdev_sdk_kernel_stop w = Some (ezdev_sdk_kernel_succ, snd (stop_yield w2))"
    using stop_runs True by blast
  have "my_state (g_ezdev_sdk_kernel (stop_sent w)) = sdk_stop"
    using stop_sent_stays [of w] kstays_fields(3) by (fastforce simp: stays_def upd_kernel_def)
  moreover have "my_state (g_ezdev_sdk_kernel w2) = my_state (g_ezdev_sdk_kernel (stop_sent w))"
    using stop_loop_ends [of "stop_sent w"] w2(1) kstays_fields(3)
    by (fastforce simp: stays_def dest: yield_turns simp: turn_ok_def turns_def)
  moreover have "my_state (g_ezdev_sdk_kernel (snd (das_unreg w2))) = my_state (g_ezdev_sdk_kernel w2)"
    using stop_yield_stays [of w2] kstays_fields(3) by (fastforce simp: stays_def)
  ultimately show ?thesis
    using True w2(2) by (simp add: kernel_stop_yield check_access_risk_control_def split: if_splits)
next
  case False
  then show ?thesis
    by (cases "access_risk (g_ezdev_sdk_kernel w)") (auto simp: ezdev_sdk_kernel_stop_def check_access_risk_control_def)
qed


end
