(* ===== verification/Queued.thy ===== *)
theory Queued
  imports System
begin

text \<open>
  What becomes of a message handed to \<open>ezdev_sdk_kernel_send\<close> and \<open>ezdev_sdk_kernel_send_v3\<close>: it
  waits at the end of its queue, or nothing is left of it.
\<close>

section \<open>Building the message\<close>

text \<open>The steps before the push change the heap, the sequence number and the fault flag only.\<close>

definition unprepared :: "world \<Rightarrow> world" where
  "unprepared w = w\<lparr>heap := \<lparr>m_ok = (\<lambda>_. True), m_calls = 0, live = 0\<rparr>, g_das_transport_seq := 0, fault := False\<rparr>"

definition prepared :: "world \<Rightarrow> int \<Rightarrow> world \<Rightarrow> bool" where
  "prepared w n v \<longleftrightarrow> unprepared v = unprepared w \<and> live (heap v) = live (heap w) + n"

lemma unprepared_simps [simp]:
  "unprepared (v\<lparr>heap := m\<rparr>) = unprepared v" "unprepared (v\<lparr>g_das_transport_seq := s\<rparr>) = unprepared v"
  "unprepared (v\<lparr>fault := f\<rparr>) = unprepared v"
  by (simp_all add: unprepared_def)

lemma prepared_refl [simp]: "prepared w 0 w"
  by (simp add: prepared_def)

lemma prepared_steps:
  "prepared w n v \<Longrightarrow> w_malloc v = (ok, v') \<Longrightarrow> prepared w (n + (if ok then 1 else 0)) v'"
  "prepared w n v \<Longrightarrow> prepared w (n - 1) (w_free v)"
  "prepared w n v \<Longrightarrow> genaral_seq v = (s, v') \<Longrightarrow> prepared w n v'"
  "prepared w n v \<Longrightarrow> copy_buf k p v = (b, v') \<Longrightarrow> prepared w n v'"
proof -
  show "prepared w n v \<Longrightarrow> w_malloc v = (ok, v') \<Longrightarrow> prepared w (n + (if ok then 1 else 0)) v'"
    using live_malloc [of "heap v"] by (auto simp: prepared_def w_malloc_def split: prod.splits)
qed (auto simp: prepared_def w_free_def live_free genaral_seq_def copy_buf_def undefined_behaviour_def Let_def
    split: if_splits)

lemma prepared_ctx:
  assumes "prepared w n v" and "copy_ctx ctx len v = (c, v')"
  shows "prepared w (case c of None \<Rightarrow> n | Some (d, _) \<Rightarrow> n + int (blk d)) v'"
proof (cases "ctx = None \<or> len = 0")
  case True
  then show ?thesis using assms by (auto simp: copy_ctx_def)
next
  case False
  obtain ok v1 where 1: "w_malloc v = (ok, v1)" by (cases "w_malloc v")
  obtain b v2 where 2: "copy_buf (unat len) ctx v1 = (b, v2)" by (cases "copy_buf (unat len) ctx v1")
  note p1 = prepared_steps(1) [OF assms(1) 1]
  then show ?thesis
    using False assms(2) 1 2 prepared_steps(4) [OF p1 2] by (cases ok) (auto simp: copy_ctx_def)
qed

lemma prepared_free_opt: "prepared w n v \<Longrightarrow> prepared w (n - int (blk p)) (w_free_opt p v)"
  by (cases p) (simp_all add: prepared_def w_free_opt_def acct)

lemma copy_buf_bytes: "copy_buf n p w = (b, w') \<Longrightarrow> p = Some t \<Longrightarrow> n \<le> length t \<Longrightarrow> b = take n t"
  by (auto simp: copy_buf_def split: if_splits)

text \<open>Either a block is missing and everything is freed, or the finished message is pushed.\<close>

lemma queue_message_cases:
  assumes "queue_message build push resp s0 body len ctx ctx_len w = (e, s, w')"
  obtains "e = ezdev_sdk_kernel_memory" "prepared w 0 w'"
  | b c c_len v r v' where "push (build b s c c_len) v = (r, v')" "prepared w (2 + int (blk c)) v"
      "e = mkiE2ezE r" "w' = (if e \<noteq> ezdev_sdk_kernel_succ then w_free (w_free_opt c (w_free v')) else v')"
      "\<And>t. body = Some t \<Longrightarrow> unat len \<le> length t \<Longrightarrow> b = take (unat len) t" "resp \<noteq> 0 \<Longrightarrow> s = s0"
proof -
  obtain ok1 w1 where 1: "w_malloc w = (ok1, w1)" by (cases "w_malloc w")
  obtain ok2 w2 where 2: "w_malloc w1 = (ok2, w2)" by (cases "w_malloc w1")
  obtain b w3 where 3: "copy_buf (unat len) body w2 = (b, w3)" by (cases "copy_buf (unat len) body w2")
  obtain q w4 where 4: "(if resp = 0 then genaral_seq w3 else (s0, w3)) = (q, w4)"
    by (cases "if resp = 0 then genaral_seq w3 else (s0, w3)")
  obtain c w5 where 5: "copy_ctx ctx ctx_len w4 = (c, w5)" by (cases "copy_ctx ctx ctx_len w4")
  have p: "buf_padding b (unat len) (unat len) = b" by (simp add: buf_padding_def)
  have f1: "prepared w (if ok1 then 1 else 0) w1" using prepared_steps(1) [OF prepared_refl 1] by simp
  note f2 = prepared_steps(1) [OF f1 2]
  note f3 = prepared_steps(4) [OF f2 3]
  have f4: "prepared w ((if ok1 then 1 else 0) + (if ok2 then 1 else 0)) w4"
    using f3 4 prepared_steps(3) by (auto split: if_splits)
  note f5 = prepared_ctx [OF f4 5]
  show thesis
  proof (cases "ok1 \<and> ok2 \<and> c \<noteq> None")
    case False
    have "e = ezdev_sdk_kernel_memory \<and> prepared w 0 w'"
    proof (cases "ok1 \<and> ok2")
      case True
      then have "c = None" using False by (cases c) auto
      then show ?thesis
        using True assms 1 2 3 4 5 f5 prepared_steps(2) [OF prepared_steps(2) [of w 2 w5]]
        by (simp add: queue_message_def Let_def)
    next
      case no: False
      then show ?thesis
        using assms 1 2 f1 f2 prepared_steps(2) [of w 1 w2] by (auto simp: queue_message_def split: if_splits)
    qed
    then show thesis using that(1) by blast
  next
    case True
    then obtain d dl where c: "c = Some (d, dl)" by (cases c) auto
    obtain r v' where u: "push (build b q d dl) w5 = (r, v')" by (cases "push (build b q d dl) w5")
    have "e = mkiE2ezE r" "s = q" "w' = (if e \<noteq> ezdev_sdk_kernel_succ then w_free (w_free_opt d (w_free v')) else v')"
      using assms True 1 2 3 4 5 u unfolding c by (auto simp: queue_message_def Let_def p)
    moreover have "prepared w (2 + int (blk d)) w5" using f5 True c by simp
    moreover have "resp \<noteq> 0 \<Longrightarrow> q = s0" using 4 by simp
    ultimately show thesis using that(2) [of b d dl w5 r v'] u copy_buf_bytes [OF 3] by blast
  qed
qed

lemma prepared_state:
  assumes "prepared w n v"
  shows "g_queue_pubmsg_exchange v = g_queue_pubmsg_exchange w" "g_queue_pubmsg_exchange_v3 v = g_queue_pubmsg_exchange_v3 w"
    "slack v = slack w + n"
proof -
  have n: "unprepared v = unprepared w" "live (heap v) = live (heap w) + n" using assms by (simp_all add: prepared_def)
  note q = arg_cong [OF n(1), of g_queue_submsg] arg_cong [OF n(1), of g_queue_submsg_v3]
    arg_cong [OF n(1), of g_queue_pubmsg_exchange] arg_cong [OF n(1), of g_queue_pubmsg_exchange_v3]
    arg_cong [OF n(1), of g_queue_inner_cb_notic]
  then show "g_queue_pubmsg_exchange v = g_queue_pubmsg_exchange w" "g_queue_pubmsg_exchange_v3 v = g_queue_pubmsg_exchange_v3 w"
    by (simp_all add: unprepared_def)
  show "slack v = slack w + n" using q n(2) by (simp add: slack_def owned_def unprepared_def)
qed

lemma freed_state:
  "g_queue_pubmsg_exchange (w_free w) = g_queue_pubmsg_exchange w" "g_queue_pubmsg_exchange_v3 (w_free w) = g_queue_pubmsg_exchange_v3 w"
  "g_queue_pubmsg_exchange (w_free_opt p w) = g_queue_pubmsg_exchange w"
  "g_queue_pubmsg_exchange_v3 (w_free_opt p w) = g_queue_pubmsg_exchange_v3 w"
  by (simp_all add: w_free_def w_free_opt_def)

section \<open>The two queues\<close>

text \<open>
  The outcome of a push in terms of the queue's messages and the blocks outside the queues; \<open>sel\<close>
  is the queue and \<open>own\<close> what one of its messages owns.
\<close>

definition settles :: "(world \<Rightarrow> 'm queque) \<Rightarrow> ('m \<Rightarrow> bool) \<Rightarrow> world \<Rightarrow> ezdev_sdk_kernel_error \<Rightarrow> world \<Rightarrow> bool" where
  "settles sel P w e w' \<longleftrightarrow> queue_inv (sel w') \<and> slack w' = slack w \<and>
     (if e = ezdev_sdk_kernel_succ then \<exists>x. qmsgs (sel w') = qmsgs (sel w) @ [x] \<and> P x
      else qmsgs (sel w') = qmsgs (sel w))"

lemma push_v2:
  assumes "queue_inv (g_queue_pubmsg_exchange v)" and "das_send_pubmsg_async x v = (r, v')"
  shows "queue_inv (g_queue_pubmsg_exchange v') \<and> (if r = mkernel_internal_succ
      then qmsgs (g_queue_pubmsg_exchange v') = qmsgs (g_queue_pubmsg_exchange v) @ [x] \<and> slack v' = slack v - int (blk_pubmsg x)
      else qmsgs (g_queue_pubmsg_exchange v') = qmsgs (g_queue_pubmsg_exchange v) \<and> slack v' = slack v)"
proof -
  have u: "QUEUE_PUSH g_queue_pubmsg_exchange g_queue_pubmsg_exchange_update x v = (r, v')"
    using assms(2) by (simp add: das_send_pubmsg_async_def push_queue_pubmsg_exchange_def)
  show ?thesis
    by (rule pubmsg.push_cases [OF assms(1), of x]) (use u assms(1) in \<open>auto simp: slack_def owned_def held_def\<close>)
qed

lemma push_v3:
  assumes "queue_inv (g_queue_pubmsg_exchange_v3 v)" and "das_send_pubmsg_async_v3 x v = (r, v')"
  shows "queue_inv (g_queue_pubmsg_exchange_v3 v') \<and> (if r = mkernel_internal_succ
      then qmsgs (g_queue_pubmsg_exchange_v3 v') = qmsgs (g_queue_pubmsg_exchange_v3 v) @ [x] \<and> slack v' = slack v - int (blk_pubmsg_v3 x)
      else qmsgs (g_queue_pubmsg_exchange_v3 v') = qmsgs (g_queue_pubmsg_exchange_v3 v) \<and> slack v' = slack v)"
proof -
  have u: "QUEUE_PUSH g_queue_pubmsg_exchange_v3 g_queue_pubmsg_exchange_v3_update x v = (r, v')"
    using assms(2) by (simp add: das_send_pubmsg_async_v3_def push_queue_pubmsg_exchange_v3_def)
  show ?thesis
    by (rule pubmsg_v3.push_cases [OF assms(1), of x]) (use u assms(1) in \<open>auto simp: slack_def owned_def held_def\<close>)
qed

lemma message_v2_settles:
  assumes "queue_inv (g_queue_pubmsg_exchange w)"
    and b: "\<And>d s c n. pm_msg_body (msg_conntext (build d s c n)) = Some d \<and> pm_externel_ctx (msg_conntext (build d s c n)) = c"
    and "queue_message build das_send_pubmsg_async resp s0 (Some t) len ctx ctx_len w = (e, s, w')"
    and "unat len \<le> length t"
  shows "settles g_queue_pubmsg_exchange (\<lambda>x. \<exists>c n. x = build (take (unat len) t) s c n) w e w'"
  using assms(3)
proof (cases rule: queue_message_cases)
  case 1
  then show ?thesis using assms(1) prepared_state [of w 0 w'] by (simp add: settles_def)
next
  case (2 d c n v r v')
  note p = prepared_state [OF 2(2)]
  have "queue_inv (g_queue_pubmsg_exchange v)" using assms(1) p by simp
  note u = push_v2 [OF this 2(1)]
  have "blk_pubmsg (build d s c n) = 2 + blk c" using b by (simp add: blk_pubmsg_def)
  moreover have "d = take (unat len) t" using 2(5) assms(4) by simp
  moreover have "e = ezdev_sdk_kernel_succ \<longleftrightarrow> r = mkernel_internal_succ" using 2(3) mkiE2ezE_eq_succ_iff by simp
  ultimately show ?thesis
    using u p 2(4) by (auto simp: settles_def freed_state split: if_splits)
qed

lemma message_v3_settles:
  assumes "queue_inv (g_queue_pubmsg_exchange_v3 w)"
    and b: "\<And>d s c n. p3_msg_body (msg_conntext_v3 (build d s c n)) = Some d \<and> p3_externel_ctx (msg_conntext_v3 (build d s c n)) = c"
    and "queue_message build das_send_pubmsg_async_v3 resp s0 (Some t) len ctx ctx_len w = (e, s, w')"
    and "unat len \<le> length t"
  shows "settles g_queue_pubmsg_exchange_v3 (\<lambda>x. \<exists>c n. x = build (take (unat len) t) s c n) w e w'"
  using assms(3)
proof (cases rule: queue_message_cases)
  case 1
  then show ?thesis using assms(1) prepared_state [of w 0 w'] by (simp add: settles_def)
next
  case (2 d c n v r v')
  note p = prepared_state [OF 2(2)]
  have "queue_inv (g_queue_pubmsg_exchange_v3 v)" using assms(1) p by simp
  note u = push_v3 [OF this 2(1)]
  have "blk_pubmsg_v3 (build d s c n) = 2 + blk c" using b by (simp add: blk_pubmsg_v3_def)
  moreover have "d = take (unat len) t" using 2(5) assms(4) by simp
  moreover have "e = ezdev_sdk_kernel_succ \<longleftrightarrow> r = mkernel_internal_succ" using 2(3) mkiE2ezE_eq_succ_iff by simp
  ultimately show ?thesis
    using u p 2(4) by (auto simp: settles_def freed_state split: if_splits)
qed

lemma settles_mono: "settles sel P w e w' \<Longrightarrow> (\<And>x. P x \<Longrightarrow> Q x) \<Longrightarrow> settles sel Q w e w'"
  by (auto simp: settles_def)

lemma settles_refused: "queue_inv (sel w) \<Longrightarrow> e \<noteq> ezdev_sdk_kernel_succ \<Longrightarrow> settles sel P w e w"
  by (simp add: settles_def)

section \<open>Properties\<close>

text \<open>
  C4: What \<open>ezdev_sdk_kernel_send\<close> does with a message whose text is as long as the caller says:
  when it answers success the message waits at the end of the publish queue with its bytes, its
  addresses, the sequence number the caller is told and two attempts to publish it; whatever
  else it answers, the queue is as before and every block it took was freed.
\<close>

theorem send_settles:
  assumes "queue_inv (g_queue_pubmsg_exchange w)" and "pm_msg_body m = Some t" and "unat (pm_msg_body_len m) \<le> length t"
    and "ezdev_sdk_kernel_send m w = (e, m', w')"
  shows "settles g_queue_pubmsg_exchange (\<lambda>x. max_send_count x = 2 \<and>
       pm_msg_body (msg_conntext x) = Some (take (unat (pm_msg_body_len m)) t) \<and>
       pm_msg_body_len (msg_conntext x) = pm_msg_body_len m \<and> pm_msg_seq (msg_conntext x) = pm_msg_seq m' \<and>
       pm_msg_domain_id (msg_conntext x) = pm_msg_domain_id m \<and> pm_msg_command_id (msg_conntext x) = pm_msg_command_id m \<and>
       pm_msg_qos (msg_conntext x) = pm_msg_qos m \<and> pm_msg_response (msg_conntext x) = pm_msg_response m) w e w'"
proof (cases "fst (ezdev_sdk_kernel_send m w) = e \<and> w' = w \<and> e \<noteq> ezdev_sdk_kernel_succ")
  case True
  then show ?thesis using assms(1) by (simp add: settles_refused)
next
  case False
  let ?build = "\<lambda>b s c n. \<lparr>max_send_count = ezdev_sdk_max_publish_count, msg_conntext =
      \<lparr>pm_msg_response = pm_msg_response m, pm_msg_qos = pm_msg_qos m, pm_msg_seq = s, pm_msg_body = Some b,
       pm_msg_body_len = pm_msg_body_len m, pm_msg_domain_id = pm_msg_domain_id m,
       pm_msg_command_id = pm_msg_command_id m, pm_externel_ctx = c, pm_externel_ctx_len = n,
       pm_command_ver = strncpy0 (version_max_len - 1) (pm_command_ver m)\<rparr>\<rparr>"
  obtain s where "queue_message ?build das_send_pubmsg_async (pm_msg_response m) (pm_msg_seq m) (Some t) (pm_msg_body_len m)
      (pm_externel_ctx m) (pm_externel_ctx_len m) w = (e, s, w')" and s: "pm_msg_seq m' = s"
    using assms(2,4) False
    by (auto simp: ezdev_sdk_kernel_send_def Let_def mkiE2ezE_eq_succ_iff split: if_splits prod.splits)
  from message_v2_settles [OF assms(1) _ this(1) assms(3)] show ?thesis
    by (rule settles_mono) (auto simp: s ezdev_sdk_max_publish_count_def)
qed

definition demo_pubmsg :: ezdev_sdk_kernel_pubmsg where
  "demo_pubmsg = \<lparr>pm_msg_response = 0, pm_msg_qos = QOS_T1, pm_msg_seq = 0, pm_msg_body = Some [7, 8, 9],
     pm_msg_body_len = 2, pm_msg_domain_id = DAS_CMD_DOMAIN, pm_msg_command_id = 1, pm_externel_ctx = None,
     pm_externel_ctx_len = 0, pm_command_ver = []\<rparr>"

definition demo_started :: world where
  "demo_started = upd_kernel (\<lambda>k. k\<lparr>my_state := sdk_start\<rparr>) (demo_init calm_env)"

lemma demo_started_queues:
  "queue_inv (g_queue_pubmsg_exchange demo_started)" "qmsgs (g_queue_pubmsg_exchange demo_started) = []"
  "qcap (g_queue_pubmsg_exchange demo_started) = 16" "queue_inv (g_queue_pubmsg_exchange_v3 demo_started)"
  by (simp_all add: demo_started_def demo_init_simps upd_kernel_def)

lemma demo_push:
  "queue_inv q \<Longrightarrow> length (qmsgs q) < qcap q \<Longrightarrow> \<forall>n. m_ok m n \<Longrightarrow> fst (push_queue x q m) = mkernel_internal_succ"
  using mq.push_ok [of q m x] by (auto simp: malloc_def Let_def)

theorem send_settles_witness:
  "\<exists>w' x. ezdev_sdk_kernel_send demo_pubmsg demo_started = (ezdev_sdk_kernel_succ, demo_pubmsg\<lparr>pm_msg_seq := 1\<rparr>, w') \<and>
     qmsgs (g_queue_pubmsg_exchange w') = [x] \<and> pm_msg_body (msg_conntext x) = Some [7, 8]"
proof -
  have r: "fst (ezdev_sdk_kernel_send demo_pubmsg demo_started) = ezdev_sdk_kernel_succ \<and>
      fst (snd (ezdev_sdk_kernel_send demo_pubmsg demo_started)) = demo_pubmsg\<lparr>pm_msg_seq := 1\<rparr>"
    unfolding ezdev_sdk_kernel_send_def queue_message_def
    by (simp add: demo_started_def demo_init_simps boot_world_def demo_pubmsg_def upd_kernel_def Let_def
        ezdev_sdk_com_msg_max_buf_def ezdev_sdk_send_buf_max_def check_cmd_risk_control_def w_malloc_def malloc_def
        copy_buf_def copy_ctx_def genaral_seq_def buf_padding_def das_send_pubmsg_async_def push_queue_pubmsg_exchange_def
        QUEUE_PUSH_def split_beta demo_push)
  obtain w' where s: "ezdev_sdk_kernel_send demo_pubmsg demo_started = (ezdev_sdk_kernel_succ, demo_pubmsg\<lparr>pm_msg_seq := 1\<rparr>, w')"
    using r by (metis prod.collapse)
  have "pm_msg_body demo_pubmsg = Some [7, 8, 9]" "unat (pm_msg_body_len demo_pubmsg) \<le> length [7, 8, 9 :: byte]"
    by (simp_all add: demo_pubmsg_def)
  from send_settles [OF demo_started_queues(1) this s] show ?thesis
    using s demo_started_queues(2) by (auto simp: settles_def demo_pubmsg_def)
qed

text \<open>
  The same for a message of protocol 3.0 and its queue.
\<close>

theorem send_v3_settles:
  assumes "queue_inv (g_queue_pubmsg_exchange_v3 w)" and "p3_msg_body m = Some t" and "unat (p3_msg_body_len m) \<le> length t"
    and "ezdev_sdk_kernel_send_v3 m w = (e, m', w')"
  shows "settles g_queue_pubmsg_exchange_v3 (\<lambda>x. max_send_count_v3 x = 2 \<and>
       p3_msg_body (msg_conntext_v3 x) = Some (take (unat (p3_msg_body_len m)) t) \<and>
       p3_msg_body_len (msg_conntext_v3 x) = p3_msg_body_len m \<and> p3_msg_seq (msg_conntext_v3 x) = p3_msg_seq m' \<and>
       p3_extend_id (msg_conntext_v3 x) = p3_extend_id m \<and> p3_domain_id (msg_conntext_v3 x) = strncpy0 63 (p3_domain_id m) \<and>
       p3_sub_serial (msg_conntext_v3 x) = strncpy0 71 (p3_sub_serial m) \<and>
       p3_msg_qos (msg_conntext_v3 x) = p3_msg_qos m \<and> p3_msg_response (msg_conntext_v3 x) = p3_msg_response m) w e w'"
proof (cases "fst (ezdev_sdk_kernel_send_v3 m w) = e \<and> w' = w \<and> e \<noteq> ezdev_sdk_kernel_succ")
  case True
  then show ?thesis using assms(1) by (simp add: settles_refused)
next
  case False
  let ?build = "\<lambda>b s c n. \<lparr>max_send_count_v3 = ezdev_sdk_max_publish_count, msg_conntext_v3 =
      \<lparr>p3_msg_qos = p3_msg_qos m, p3_msg_response = p3_msg_response m, p3_msg_seq = s,
       p3_msg_body_len = p3_msg_body_len m, p3_externel_ctx = c, p3_externel_ctx_len = n,
       p3_extend_id = p3_extend_id m, p3_msg_body = Some b,
       p3_command_ver = strncpy0 (version_max_len - 1) (p3_command_ver m),
       p3_domain_id = strncpy0 63 (p3_domain_id m), p3_resource_id = strncpy0 63 (p3_resource_id m),
       p3_resource_type = strncpy0 63 (p3_resource_type m), p3_business_type = strncpy0 63 (p3_business_type m),
       p3_identifier = strncpy0 63 (p3_identifier m), p3_sub_serial = strncpy0 71 (p3_sub_serial m)\<rparr>\<rparr>"
  obtain s where "queue_message ?build das_send_pubmsg_async_v3 (p3_msg_response m) (p3_msg_seq m) (Some t) (p3_msg_body_len m)
      (p3_externel_ctx m) (p3_externel_ctx_len m) w = (e, s, w')" and s: "p3_msg_seq m' = s"
    using assms(2,4) False
    by (auto simp: ezdev_sdk_kernel_send_v3_def Let_def split: if_splits prod.splits)
  from message_v3_settles [OF assms(1) _ this(1) assms(3)] show ?thesis
    by (rule settles_mono) (auto simp: s ezdev_sdk_max_publish_count_def)
qed

definition demo_pubmsg_v3 :: ezdev_sdk_kernel_pubmsg_v3 where
  "demo_pubmsg_v3 = \<lparr>p3_msg_qos = QOS_T1, p3_msg_response = 1, p3_msg_seq = 5, p3_msg_body_len = 2, p3_externel_ctx = None,
     p3_externel_ctx_len = 0, p3_extend_id = 1, p3_msg_body = Some [7, 8, 9], p3_command_ver = [], p3_domain_id = ''d'',
     p3_resource_id = [], p3_resource_type = [], p3_business_type = [], p3_identifier = [], p3_sub_serial = []\<rparr>"

theorem send_v3_settles_witness:
  "\<exists>w' x. ezdev_sdk_kernel_send_v3 demo_pubmsg_v3 demo_started = (ezdev_sdk_kernel_succ, demo_pubmsg_v3, w') \<and>
     qmsgs (g_queue_pubmsg_exchange_v3 w') = [x] \<and> p3_msg_seq (msg_conntext_v3 x) = 5"
proof -
  have q: "qmsgs (g_queue_pubmsg_exchange_v3 demo_started) = []"
    by (simp add: demo_started_def demo_init_simps upd_kernel_def)
  have r: "fst (ezdev_sdk_kernel_send_v3 demo_pubmsg_v3 demo_started) = ezdev_sdk_kernel_succ \<and>
      fst (snd (ezdev_sdk_kernel_send_v3 demo_pubmsg_v3 demo_started)) = demo_pubmsg_v3"
    unfolding ezdev_sdk_kernel_send_v3_def queue_message_def
    by (simp add: demo_started_def demo_init_simps boot_world_def demo_pubmsg_v3_def upd_kernel_def Let_def
        ezdev_sdk_send_buf_max_def w_malloc_def malloc_def
        copy_buf_def copy_ctx_def buf_padding_def das_send_pubmsg_async_v3_def push_queue_pubmsg_exchange_v3_def
        QUEUE_PUSH_def split_beta demo_push)
  obtain w' where s: "ezdev_sdk_kernel_send_v3 demo_pubmsg_v3 demo_started = (ezdev_sdk_kernel_succ, demo_pubmsg_v3, w')"
    using r by (metis prod.collapse)
  have "p3_msg_body demo_pubmsg_v3 = Some [7, 8, 9]" "unat (p3_msg_body_len demo_pubmsg_v3) \<le> length [7, 8, 9 :: byte]"
    by (simp_all add: demo_pubmsg_v3_def)
  from send_v3_settles [OF demo_started_queues(4) this s] show ?thesis
    using s q by (auto simp: settles_def demo_pubmsg_v3_def)
qed

end
