(* ===== verification/Progress.thy ===== *)
theory Progress
  imports Machine
begin

text \<open>
  A device does not stay with a server that refuses it: after a bounded number of turns that fail
  it asks the LBS server again.
\<close>

section \<open>One turn that fails\<close>

text \<open>
  Failures that count.  A device in the black list is not counted down: it is blocked instead
  (\<open>mkernel_internal_mqtt_blacklist\<close>, \<open>mkernel_internal_force_offline\<close>).
\<close>

definition counts :: "mkernel_internal_error \<Rightarrow> bool" where
  "counts r \<longleftrightarrow> r \<notin> {mkernel_internal_succ, mkernel_internal_force_offline, mkernel_internal_mqtt_blacklist}"

definition counted :: "u8 \<Rightarrow> ezdev_sdk_kernel \<Rightarrow> ezdev_sdk_kernel \<Rightarrow> bool" where
  "counted n k k' \<longleftrightarrow> cnt_state k' = sdk_cnt_unredirect \<or>
     cnt_state k' = cnt_state k \<and> das_retry_times k < n \<and> das_retry_times k' = das_retry_times k + 1"

lemma counted_failure:
  assumes "stays w w2" and "count_das_failure n w2 = (many, w3)"
    and "w' = (if many then settle sdk_cnt_unredirect w4 else w3)"
  shows "counted n (g_ezdev_sdk_kernel w) (g_ezdev_sdk_kernel w')"
  using kstays_fields(2,5) [of "g_ezdev_sdk_kernel w" "g_ezdev_sdk_kernel w2"] assms
  by (auto simp: count_das_failure_def Let_def counted_def stays_def)

lemma reg_counted:
  assumes "cnt_das_reg_do w = (r, w')" and "r \<noteq> mkernel_internal_succ"
  shows "counted 5 (g_ezdev_sdk_kernel w) (g_ezdev_sdk_kernel w')"
proof -
  obtain b w1 where 1: "das_must_wait 2000 w = (b, w1)" by (cases "das_must_wait 2000 w")
  note s1 = das_wait_stays [OF 1]
  obtain r1 w2 where 2: "cnt_state_das_reged (act Do_countdown w1) = (r1, w2)"
    by (cases "cnt_state_das_reged (act Do_countdown w1)")
  obtain v where v: "das_unreg (act Do_countdown w1) = v" "das_reg (snd v) = (r1, w2)"
    using 2 by (auto simp: cnt_state_das_reged_def)
  have s2: "stays w w2" using v s1 by (cases v) (auto elim!: stays_registrations(1,5))
  obtain r3 w3 where 3: "(if r1 = mkernel_internal_mqtt_session_exist then cnt_state_das_fast_reg w2 else (r1, w2)) = (r3, w3)"
    by (cases "if r1 = mkernel_internal_mqtt_session_exist then cnt_state_das_fast_reg w2 else (r1, w2)")
  have s3: "stays w w3"
    using 3 s2 by (auto simp: cnt_state_das_fast_reg_def split: if_splits elim!: stays_registrations(3))
  obtain many w4 where c: "count_das_failure 5 (report_access r3 w3) = (many, w4)"
    by (cases "count_das_failure 5 (report_access r3 w3)")
  have "\<not> b" using assms 1 by (auto simp: cnt_das_reg_do_def)
  then have "r = r3" "w' = (if many then settle sdk_cnt_unredirect w4 else w4)"
    using assms 1 2 3 c by (auto simp: cnt_das_reg_do_def split: if_splits)
  then show ?thesis using counted_failure [OF stays_trans [OF s3 stays_reports(1)] c] by simp
qed

lemma retry_counted:
  assumes "cnt_das_retry_do w = (r, w')" and "r \<noteq> mkernel_internal_succ"
  shows "counted 3 (g_ezdev_sdk_kernel w) (g_ezdev_sdk_kernel w')"
proof -
  obtain b w1 where 1: "das_must_wait 1000 w = (b, w1)" by (cases "das_must_wait 1000 w")
  note s1 = das_wait_stays [OF 1]
  obtain r2 w2 where 2: "cnt_state_das_retry (act Do_countdown w1) = (r2, w2)"
    by (cases "cnt_state_das_retry (act Do_countdown w1)")
  have s2: "stays w w2" using 2 s1 by (auto simp: cnt_state_das_retry_def elim!: stays_registrations(2))
  obtain many w3 where c: "count_das_failure 3 (report_access r2 w2) = (many, w3)"
    by (cases "count_das_failure 3 (report_access r2 w2)")
  have "\<not> b" using assms 1 by (auto simp: cnt_das_retry_do_def)
  then have "r = r2" "w' = (if many then settle sdk_cnt_unredirect
          (tell sdk_kernel_event_break (offline_context r2 (g_ezdev_sdk_kernel w3)) w3) else w3)"
    using assms 1 2 c by (auto simp: cnt_das_retry_do_def split: if_splits)
  then show ?thesis using counted_failure [OF stays_trans [OF s2 stays_reports(1)] c] by simp
qed

lemma turn_counted_down:
  assumes "access_server_yield w = Some (r, w')" and "counts r" and "cnt w \<in> {sdk_cnt_redirected, sdk_cnt_das_break}"
  shows "counted 5 (g_ezdev_sdk_kernel w) (g_ezdev_sdk_kernel w')"
proof -
  have ok: "check_access_risk_control w = 0" and r: "r \<noteq> mkernel_internal_succ"
    using assms(1,2) by (auto simp: access_server_yield_def cnt_state_yield_def counts_def split: if_splits)
  then obtain w1 where t: "turn w = Some (r, w1)" "w' = after_turn r w1"
    using assms(1) by (auto simp: access_server_yield_def cnt_state_yield_def)
  have "counted 5 (g_ezdev_sdk_kernel w) (g_ezdev_sdk_kernel w1)"
  proof (cases "cnt w = sdk_cnt_redirected")
    case True
    then show ?thesis using reg_counted [of w r w1] r t(1) by (simp add: turn_def)
  next
    case False
    then have "counted 3 (g_ezdev_sdk_kernel w) (g_ezdev_sdk_kernel w1)"
      using retry_counted [of w r w1] r t(1) assms(3) by (simp add: turn_def)
    then show ?thesis by (auto simp: counted_def intro: less_trans)
  qed
  then show ?thesis using t(2) assms(2) by (auto simp: after_turn_def counts_def counted_def)
qed

section \<open>Properties\<close>

text \<open>
  C6: A device that is about to register, or that has lost its session, and whose turns all fail,
  asks the LBS server again after at most six of them.
\<close>

theorem gives_server_up:
  assumes "cnt (w 0) \<in> {sdk_cnt_redirected, sdk_cnt_das_break}"
    and "\<And>i. i < 6 \<Longrightarrow> access_server_yield (w i) = Some (r i, w (Suc i))" and "\<And>i. i < 6 \<Longrightarrow> counts (r i)"
  shows "\<exists>i \<le> 6. cnt (w i) = sdk_cnt_unredirect"
proof (rule ccontr)
  assume "\<not> ?thesis"
  then have n: "cnt (w i) \<noteq> sdk_cnt_unredirect" if "i \<le> 6" for i using that by auto
  have "cnt (w i) = cnt (w 0) \<and> i \<le> unat (das_retry_times (g_ezdev_sdk_kernel (w i))) \<and>
      unat (das_retry_times (g_ezdev_sdk_kernel (w i))) \<le> 5 + (if i = 0 then 255 else 0)" if "i \<le> 6" for i
    using that
  proof (induction i)
    case 0
    have "unat (das_retry_times (g_ezdev_sdk_kernel (w 0))) < 2 ^ LENGTH(8)" by (rule unsigned_less)
    then show ?case by simp
  next
    case (Suc i)
    let ?t = "das_retry_times (g_ezdev_sdk_kernel (w i))"
    have c: "cnt (w i) = cnt (w 0)" "i \<le> unat ?t" using Suc by simp_all
    have "counted 5 (g_ezdev_sdk_kernel (w i)) (g_ezdev_sdk_kernel (w (Suc i)))"
      using turn_counted_down [of "w i" "r i" "w (Suc i)"] assms c(1) Suc.prems by simp
    then have d: "cnt (w (Suc i)) = cnt (w i)" "?t < 5" "das_retry_times (g_ezdev_sdk_kernel (w (Suc i))) = ?t + 1"
      using n [OF Suc.prems] by (auto simp: counted_def)
    have "unat ?t < 5" using d(2) by (simp add: word_less_nat_alt)
    moreover from this have "unat (?t + 1) = Suc (unat ?t)" by (simp add: unat_add_lem [THEN iffD1])
    ultimately show ?case using c d by simp
  qed
  from this [of 6] have "6 \<le> unat (das_retry_times (g_ezdev_sdk_kernel (w 6))) \<and>
    unat (das_retry_times (g_ezdev_sdk_kernel (w 6))) \<le> 5" by simp
  then show False by linarith
qed

text \<open>A device without an id cannot log in, so every registration fails.\<close>

lemma report_quiet:
  assumes "ev_inv w"
  shows "ev_step 0 w (report_access r w)"
  using broadcast_runtime_err_step [OF assms, of TAG_ACCESS "mkiE2ezE r" None]
  by (cases "broadcast_runtime_err TAG_ACCESS (mkiE2ezE r) None w")
    (simp add: report_access_def err_ctx_ok_def blk_err_ctx_def split: if_splits)

definition unlucky :: "world \<Rightarrow> bool" where
  "unlucky w \<longleftrightarrow> ev_inv w \<and> env w = calm_env \<and> key_empty (dev_id (g_ezdev_sdk_kernel w)) \<and>
     cnt w = sdk_cnt_redirected \<and> access_risk (g_ezdev_sdk_kernel w) = sdk_no_risk_control"

lemma unlucky_registration:
  assumes "ev_inv w" and "env w = calm_env" and "key_empty (dev_id (g_ezdev_sdk_kernel w))"
  shows "\<exists>w'. cnt_state_das_reged w = (mkernel_internal_input_param_invalid, w') \<and> env w' = env w \<and>
    ev_inv w' \<and> g_ezdev_sdk_kernel w' = g_ezdev_sdk_kernel w"
proof -
  define v where "v = snd (das_unreg w)"
  have v: "g_ezdev_sdk_kernel v = g_ezdev_sdk_kernel w" "env v = env w" "ev_inv v"
    using assms(1) by (simp_all add: v_def das_unreg_def das_mqtt_logout2das_def das_subscribe_revc_topic_def ask_def
        Let_def act_def)
  have c: "e_net_connect calm_env n = 0" for n by (simp add: calm_env_def)
  show ?thesis
    using v assms(2,3) by (simp add: cnt_state_das_reged_def v_def [symmetric] das_reg_def login_subscribe_def
        das_mqttlogin2das_def ask_def Let_def act_def c)
qed

lemma unlucky_turn:
  assumes "unlucky w" and "das_retry_times (g_ezdev_sdk_kernel w) = of_nat i" and "i < 6"
  shows "\<exists>w'. access_server_yield w = Some (mkernel_internal_input_param_invalid, w') \<and>
    (if i < 5 then unlucky w' \<and> das_retry_times (g_ezdev_sdk_kernel w') = of_nat (Suc i) else cnt w' = sdk_cnt_unredirect)"
proof -
  let ?k = "g_ezdev_sdk_kernel w"
  have e: "env w = calm_env" and inv: "ev_inv w" and k: "key_empty (dev_id ?k)" "cnt w = sdk_cnt_redirected"
      "access_risk ?k = sdk_no_risk_control"
    using assms(1) by (simp_all add: unlucky_def)
  define w1 where "w1 = snd (das_must_wait 2000 w)"
  have x: "e_isexpired calm_env t n" for t n by (simp add: calm_env_def)
  have 1: "das_must_wait 2000 w = (False, w1)" "g_ezdev_sdk_kernel w1 = ?k" "env w1 = calm_env" "ev_inv w1"
    using e inv by (simp_all add: w1_def das_must_wait_def not_expired_def ask_def Let_def x)
  obtain w2 where 2: "cnt_state_das_reged (act Do_countdown w1) = (mkernel_internal_input_param_invalid, w2)"
      "env w2 = calm_env" "ev_inv w2" "g_ezdev_sdk_kernel w2 = ?k"
    using unlucky_registration [of "act Do_countdown w1"] 1 k(1) by (auto simp: act_def)
  define v where "v = report_access mkernel_internal_input_param_invalid w2"
  have s: "ev_step 0 w2 v" unfolding v_def by (rule report_quiet [OF 2(3)])
  have v: "g_ezdev_sdk_kernel v = ?k" "env v = calm_env" "ev_inv v"
    using ev_step_frame [OF s] ev_step_inv [OF s] 2 by simp_all
  have y: "access_server_yield w = Some (mkernel_internal_input_param_invalid,
      case count_das_failure 5 v of (many, w4) \<Rightarrow> if many then settle sdk_cnt_unredirect w4 else w4)"
    using k(2,3) 1(1) 2(1)
    by (simp add: access_server_yield_def cnt_state_yield_def turn_def cnt_das_reg_do_def check_access_risk_control_def
        after_turn_def v_def split_beta)
  have n: "5 \<le> (of_nat i :: u8) \<longleftrightarrow> \<not> i < 5"
    using assms(3) by (auto simp: word_le_nat_alt unat_of_nat)
  show ?thesis
    unfolding y using v k assms(2,3) e n by (auto simp: count_das_failure_def Let_def unlucky_def ev_inv_def modules_ok_def
        domains_wf_def extends_wf_def domain_extends_def extends_v3_def upd_kernel_def)
qed

theorem gives_server_up_witness:
  "\<exists>w r. cnt (w 0) = sdk_cnt_redirected \<and> (\<forall>i \<in> {..<6 :: nat}. access_server_yield (w i) = Some (r i, w (Suc i)) \<and> counts (r i)) \<and>
     (\<exists>i \<le> 6. cnt (w i) = sdk_cnt_unredirect)"
proof -
  define w where "w = rec_nat (settle sdk_cnt_redirected (demo_world calm_env)) (\<lambda>_ v. snd (the (access_server_yield v)))"
  have "ev_inv (demo_world calm_env)" by (simp add: ev_inv_def)
  then have "ev_inv (settle sdk_cnt_redirected (demo_world calm_env))"
    by (simp add: settle_def upd_kernel_def ev_inv_def modules_ok_def
        domains_wf_def extends_wf_def domain_extends_def extends_v3_def)
  moreover have "env (demo_world calm_env) = calm_env" "key_empty (dev_id (g_ezdev_sdk_kernel (demo_world calm_env)))"
    "access_risk (g_ezdev_sdk_kernel (demo_world calm_env)) = sdk_no_risk_control"
    by (simp_all add: demo_world_simps demo_init_simps boot_world_def zero_kernel_def key_empty_def numeral_eq_Suc
        ezdev_sdk_devid_len_def)
  ultimately have 0: "unlucky (w 0)" "das_retry_times (g_ezdev_sdk_kernel (w 0)) = 0"
    by (simp_all add: w_def unlucky_def) (simp add: settle_def upd_kernel_def)
  have s: "w (Suc i) = snd (the (access_server_yield (w i)))" for i by (simp add: w_def)
  have u: "unlucky (w i) \<and> das_retry_times (g_ezdev_sdk_kernel (w i)) = of_nat i" if "i < 6" for i
    using that
  proof (induction i)
    case (Suc i)
    then show ?case using unlucky_turn [of "w i" i] s [of i] by auto
  qed (use 0 in simp)
  have y: "access_server_yield (w i) = Some (mkernel_internal_input_param_invalid, w (Suc i))" if "i < 6" for i
    using unlucky_turn [of "w i" i] u [OF that] s [of i] that by auto
  have c: "counts mkernel_internal_input_param_invalid" by (simp add: counts_def)
  have "cnt (w 0) \<in> {sdk_cnt_redirected, sdk_cnt_das_break}" using 0(1) by (simp add: unlucky_def)
  from gives_server_up [of w "\<lambda>_. mkernel_internal_input_param_invalid", OF this y c]
  have "\<exists>i \<le> 6. cnt (w i) = sdk_cnt_unredirect" .
  then show ?thesis using y c 0(1) by (intro exI [of _ w] exI [of _ "\<lambda>_. mkernel_internal_input_param_invalid"]) (simp add: unlucky_def)
qed

end
