(* ===== verification/User_Thread.thy ===== *)
theory User_Thread
  imports Kernel
begin

text \<open>
  The loop of the user thread, which calls \<open>ezdev_sdk_kernel_yield_user\<close> again and again while the
  kernel runs: each turn hands over all queued messages of the server but only one event.
\<close>

section \<open>One turn\<close>

definition user_turn :: "world \<Rightarrow> world" where
  "user_turn w = snd (ezdev_sdk_kernel_yield_user w)"

text \<open>The kernel runs and everything that is queued can be handed over.\<close>

definition thread_ready :: "world \<Rightarrow> bool" where
  "thread_ready w \<longleftrightarrow> my_state (g_ezdev_sdk_kernel w) = sdk_start \<and> modules_ok w \<and>
     queue_inv (g_queue_submsg w) \<and> queue_inv (g_queue_inner_cb_notic w) \<and> queue_inv (g_queue_submsg_v3 w) \<and>
     (\<forall>m \<in> set (qmsgs (g_queue_submsg w)). sm_msg_domain_id m \<noteq> 0) \<and>
     (\<forall>n \<in> set (qmsgs (g_queue_inner_cb_notic w)). notic_ok n) \<and>
     (\<forall>m \<in> set (qmsgs (g_queue_submsg_v3 w)). hub_ok w m)"

definition turn_calls :: "world \<Rightarrow> action list" where
  "turn_calls w = concat (map (delivery_v2 w) (qmsgs (g_queue_submsg w))) @
     concat (map (notic_actions w) (take 1 (qmsgs (g_queue_inner_cb_notic w)))) @
     concat (map (delivery_v3 w) (qmsgs (g_queue_submsg_v3 w)))"

definition turn_blocks :: "world \<Rightarrow> int" where
  "turn_blocks w = held blk_submsg (g_queue_submsg w) + held blk_submsg_v3 (g_queue_submsg_v3 w) +
     (\<Sum>n \<leftarrow> take 1 (qmsgs (g_queue_inner_cb_notic w)). 1 + int (blk_notic n))"

lemma hub_ok_frames [simp]:
  "hub_ok (w\<lparr>g_queue_submsg := q1\<rparr>) = hub_ok w" "hub_ok (w\<lparr>g_queue_inner_cb_notic := q3\<rparr>) = hub_ok w"
  by (simp_all add: fun_eq_iff hub_ok_def to_hub_def sdk_hub_extend_get_def split: option.split)

lemma deliveries_frames [simp]:
  "delivery_v2 (w\<lparr>g_queue_inner_cb_notic := q3\<rparr>) = delivery_v2 w" "delivery_v2 (w\<lparr>g_queue_submsg_v3 := q2\<rparr>) = delivery_v2 w"
  "delivery_v3 (w\<lparr>g_queue_inner_cb_notic := q3\<rparr>) = delivery_v3 w" "delivery_v3 (w\<lparr>g_queue_submsg := q1\<rparr>) = delivery_v3 w"
  "notic_actions (w\<lparr>g_queue_submsg := q1\<rparr>) = notic_actions w" "notic_actions (w\<lparr>g_queue_submsg_v3 := q2\<rparr>) = notic_actions w"
  by (simp_all add: fun_eq_iff delivery_v2_def delivery_v3_def notic_actions_def domain_extends_def to_hub_def domain_lookup_def
      extend_lookup_v3_def extend_get_def extend_get_by_extend_id_def sdk_hub_extend_get_def Let_def split: extend_cb_type.split
      cong: option.case_cong)

lemma consume_event_turn:
  assumes "queue_inv (g_queue_inner_cb_notic w)" and "modules_ok w" and "\<forall>n \<in> set (qmsgs (g_queue_inner_cb_notic w)). notic_ok n"
  shows "\<exists>q m. snd (consume_extend_event w) = w\<lparr>g_queue_inner_cb_notic := q, heap := m,
       trace := rev (concat (map (notic_actions w) (take 1 (qmsgs (g_queue_inner_cb_notic w))))) @ trace w\<rparr> \<and>
     queue_inv q \<and> qmsgs q = tl (qmsgs (g_queue_inner_cb_notic w)) \<and>
     live m = live (heap w) - (\<Sum>n \<leftarrow> take 1 (qmsgs (g_queue_inner_cb_notic w)). 1 + int (blk_notic n))"
proof (cases "qmsgs (g_queue_inner_cb_notic w)")
  case Nil
  then obtain q where "snd (consume_extend_event w) = w\<lparr>g_queue_inner_cb_notic := q\<rparr>" "queue_inv q" "qmsgs q = []"
    using consume_event_Nil [OF assms(1)] by auto
  then show ?thesis using Nil by (intro exI [of _ q] exI [of _ "heap w"]) simp
next
  case (Cons n ns)
  then obtain q m where "consume_extend_event w = (mkernel_internal_succ,
      w\<lparr>g_queue_inner_cb_notic := q, heap := m, trace := rev (notic_actions w n) @ trace w\<rparr>)" "queue_inv q" "qmsgs q = ns"
      "live m = live (heap w) - 1 - int (blk_notic n)"
    using consume_event_Cons [OF assms(1) Cons assms(2)] assms(3) by auto
  then show ?thesis using Cons by (intro exI [of _ q] exI [of _ m]) simp
qed

lemma one_turn:
  assumes "thread_ready w"
  shows "\<exists>q1 q2 q3 h. user_turn w = w\<lparr>g_queue_submsg := q1, g_queue_inner_cb_notic := q2, g_queue_submsg_v3 := q3, heap := h,
       trace := rev (turn_calls w) @ trace w\<rparr> \<and> queue_inv q1 \<and> queue_inv q2 \<and> queue_inv q3 \<and>
     qmsgs q1 = [] \<and> qmsgs q2 = tl (qmsgs (g_queue_inner_cb_notic w)) \<and> qmsgs q3 = [] \<and>
     live h = live (heap w) - turn_blocks w"
proof -
  note r = assms [unfolded thread_ready_def]
  obtain q1 h1 where c1: "consume_extend_data w = (mkernel_internal_queue_empty, w\<lparr>g_queue_submsg := q1, heap := h1,
      trace := rev (concat (map (delivery_v2 w) (qmsgs (g_queue_submsg w)))) @ trace w\<rparr>)"
      "queue_inv q1" "qmsgs q1 = []" "live h1 = live (heap w) - held blk_submsg (g_queue_submsg w)"
    using consume_data_spec [of w] r by blast
  let ?w1 = "w\<lparr>g_queue_submsg := q1, heap := h1, trace := rev (concat (map (delivery_v2 w) (qmsgs (g_queue_submsg w)))) @ trace w\<rparr>"
  obtain q2 h2 where c2: "snd (consume_extend_event ?w1) = ?w1\<lparr>g_queue_inner_cb_notic := q2, heap := h2,
       trace := rev (concat (map (notic_actions w) (take 1 (qmsgs (g_queue_inner_cb_notic w))))) @ trace ?w1\<rparr>"
     "queue_inv q2" "qmsgs q2 = tl (qmsgs (g_queue_inner_cb_notic w))"
     "live h2 = live h1 - (\<Sum>n \<leftarrow> take 1 (qmsgs (g_queue_inner_cb_notic w)). 1 + int (blk_notic n))"
    using consume_event_turn [of ?w1] r by auto
  let ?w2 = "snd (consume_extend_event ?w1)"
  obtain q3 h3 where c3: "consume_extend_data_v3 ?w2 = (mkernel_internal_queue_empty, ?w2\<lparr>g_queue_submsg_v3 := q3, heap := h3,
      trace := rev (concat (map (delivery_v3 w) (qmsgs (g_queue_submsg_v3 w)))) @ trace ?w2\<rparr>)"
      "queue_inv q3" "qmsgs q3 = []" "live h3 = live h2 - held blk_submsg_v3 (g_queue_submsg_v3 w)"
    using consume_data_v3_spec [of ?w2] r unfolding c2(1) by auto
  have "user_turn w = snd (consume_extend_data_v3 ?w2)"
    using r c1(1) c3(1) by (simp add: user_turn_def ezdev_sdk_kernel_yield_user_def translated_def extend_yield_def case_prod_beta Let_def)
  then show ?thesis using c1(2-4) c2 c3
    by (intro exI [of _ q1] exI [of _ q2] exI [of _ q3] exI [of _ h3]) (simp add: turn_calls_def turn_blocks_def)
qed

section \<open>The loop\<close>

lemma turns_spec:
  assumes "thread_ready w"
  shows "\<exists>q1 q2 q3 h. (user_turn ^^ Suc n) w = w\<lparr>g_queue_submsg := q1, g_queue_inner_cb_notic := q2, g_queue_submsg_v3 := q3, heap := h,
       trace := rev (concat (map (notic_actions w) (take n (tl (qmsgs (g_queue_inner_cb_notic w)))))) @ rev (turn_calls w) @ trace w\<rparr> \<and>
     queue_inv q1 \<and> queue_inv q2 \<and> queue_inv q3 \<and>
     qmsgs q1 = [] \<and> qmsgs q2 = drop (Suc n) (qmsgs (g_queue_inner_cb_notic w)) \<and> qmsgs q3 = [] \<and>
     live h = live (heap w) - turn_blocks w - (\<Sum>n \<leftarrow> take n (tl (qmsgs (g_queue_inner_cb_notic w))). 1 + int (blk_notic n))"
proof (induction n)
  case 0
  then show ?case using one_turn [OF assms] by (simp add: drop_Suc)
next
  case (Suc n)
  let ?ns = "qmsgs (g_queue_inner_cb_notic w)" and ?t = "\<lambda>n. rev (concat (map (notic_actions w) (take n (tl (qmsgs (g_queue_inner_cb_notic w))))))"
  obtain q1 q2 q3 h where i: "(user_turn ^^ Suc n) w = w\<lparr>g_queue_submsg := q1, g_queue_inner_cb_notic := q2, g_queue_submsg_v3 := q3,
       heap := h, trace := ?t n @ rev (turn_calls w) @ trace w\<rparr>"
     "queue_inv q1" "queue_inv q2" "queue_inv q3" "qmsgs q1 = []" "qmsgs q2 = drop (Suc n) ?ns" "qmsgs q3 = []"
     "live h = live (heap w) - turn_blocks w - (\<Sum>n \<leftarrow> take n (tl ?ns). 1 + int (blk_notic n))"
    using Suc.IH by blast
  let ?v = "w\<lparr>g_queue_submsg := q1, g_queue_inner_cb_notic := q2, g_queue_submsg_v3 := q3,
       heap := h, trace := ?t n @ rev (turn_calls w) @ trace w\<rparr>"
  have r: "thread_ready ?v" using assms i by (auto simp: thread_ready_def dest: in_set_dropD)
  obtain p1 p2 p3 g where o: "user_turn ?v = ?v\<lparr>g_queue_submsg := p1, g_queue_inner_cb_notic := p2, g_queue_submsg_v3 := p3, heap := g,
       trace := rev (turn_calls ?v) @ trace ?v\<rparr>" "queue_inv p1" "queue_inv p2" "queue_inv p3"
     "qmsgs p1 = []" "qmsgs p2 = tl (qmsgs q2)" "qmsgs p3 = []" "live g = live h - turn_blocks ?v"
    using one_turn [OF r] by auto
  have split: "take (Suc n) (tl ?ns) = take n (tl ?ns) @ take 1 (qmsgs q2)"
    by (cases "n < length (tl ?ns)") (auto simp: i(6) take_Suc_conv_app_nth drop_Suc simp flip: Cons_nth_drop_Suc)
  have "turn_calls ?v = concat (map (notic_actions w) (take 1 (qmsgs q2)))"
    "turn_blocks ?v = (\<Sum>n \<leftarrow> take 1 (qmsgs q2). 1 + int (blk_notic n))"
    using i by (simp_all add: turn_calls_def turn_blocks_def)
  moreover have "(user_turn ^^ Suc (Suc n)) w = user_turn ?v" using i(1) by simp
  moreover have "qmsgs p2 = drop (Suc (Suc n)) ?ns" using o(6) i(6) by (simp add: drop_Suc tl_drop)
  ultimately show ?case using o i(8)
    by (intro exI [of _ p1] exI [of _ p2] exI [of _ p3] exI [of _ g]) (simp add: split)
qed

lemma dispatch_fold:
  assumes "modules_ok w" and "\<forall>n \<in> set ns. notic_ok n"
  shows "fold dispatch_notic ns w = w\<lparr>trace := rev (concat (map (notic_actions w) ns)) @ trace w\<rparr>"
  by (rule fold_trace [where P = modules_ok]) (use assms in \<open>simp_all add: dispatch_notic_eq\<close>)

lemma route_fold:
  assumes "modules_ok w"
  shows "\<forall>m \<in> set ms. sm_msg_domain_id m \<noteq> 0 \<Longrightarrow>
      fold route_v2 ms w = w\<lparr>trace := rev (concat (map (delivery_v2 w) ms)) @ trace w\<rparr>"
    and "\<forall>m \<in> set ms3. hub_ok w m \<Longrightarrow>
      fold route_v3 ms3 w = w\<lparr>trace := rev (concat (map (delivery_v3 w) ms3)) @ trace w\<rparr>"
  by (rule fold_trace [where P = modules_ok], use assms in \<open>simp_all add: route_v2_eq\<close>)
    (rule fold_trace [where P = "\<lambda>v. modules_ok v \<and> (\<forall>m \<in> set ms3. hub_ok v m)"], use assms in \<open>simp_all add: route_v3_ok\<close>)

text \<open>
  C35: The loop of the user thread empties its three queues.  The first turn calls the modules for every queued message of
  protocol 2.0, for the first event and for every message of protocol 3.0, in this order; each further turn handles exactly
  one more event, so after as many turns as there are events nothing is queued.  The calls are those of the
  handlers applied to the queued items one after the other, each once, no null pointer is called, and all blocks of what was handled
  are freed.
\<close>

theorem user_thread_delivers:
  assumes "thread_ready w" and "qmsgs (g_queue_inner_cb_notic w) = ns"
  shows "\<exists>w'. (user_turn ^^ Suc n) w = w' \<and> thread_ready w' \<and>
    qmsgs (g_queue_submsg w') = [] \<and> qmsgs (g_queue_submsg_v3 w') = [] \<and> qmsgs (g_queue_inner_cb_notic w') = drop (Suc n) ns \<and>
    trace w' = trace (fold dispatch_notic (take n (tl ns)) (fold route_v3 (qmsgs (g_queue_submsg_v3 w))
       (fold dispatch_notic (take 1 ns) (fold route_v2 (qmsgs (g_queue_submsg w)) w)))) \<and>
    fault w' = fault w \<and>
    live (heap w') = live (heap w) - held blk_submsg (g_queue_submsg w) - held blk_submsg_v3 (g_queue_submsg_v3 w) -
       (\<Sum>e \<leftarrow> take (Suc n) ns. 1 + int (blk_notic e))"
proof -
  note r = assms(1) [unfolded thread_ready_def]
  have ok: "modules_ok w" "\<forall>e \<in> set (take k ns). notic_ok e" "\<forall>e \<in> set (take k (tl ns)). notic_ok e" for k
  proof -
    have "set (take k ns) \<subseteq> set ns" "set (take k (tl ns)) \<subseteq> set ns" using set_take_subset [of k "tl ns"] set_take_subset [of k ns]
      by (cases ns; fastforce)+
    then show "modules_ok w" "\<forall>e \<in> set (take k ns). notic_ok e" "\<forall>e \<in> set (take k (tl ns)). notic_ok e" using r assms(2) by blast+
  qed
  obtain q1 q2 q3 h where t: "(user_turn ^^ Suc n) w = w\<lparr>g_queue_submsg := q1, g_queue_inner_cb_notic := q2, g_queue_submsg_v3 := q3,
       heap := h, trace := rev (concat (map (notic_actions w) (take n (tl ns)))) @ rev (turn_calls w) @ trace w\<rparr>"
     "queue_inv q1" "queue_inv q2" "queue_inv q3" "qmsgs q1 = []" "qmsgs q2 = drop (Suc n) ns" "qmsgs q3 = []"
     "live h = live (heap w) - turn_blocks w - (\<Sum>n \<leftarrow> take n (tl ns). 1 + int (blk_notic n))"
    using turns_spec [OF assms(1), of n] assms(2) by auto
  let ?w' = "(user_turn ^^ Suc n) w"
  have "thread_ready ?w'" unfolding t(1) using r t assms(2) by (auto simp: thread_ready_def dest: in_set_dropD)
  moreover have "(\<Sum>e \<leftarrow> take (Suc n) ns. 1 + int (blk_notic e)) =
      (\<Sum>e \<leftarrow> take 1 ns. 1 + int (blk_notic e)) + (\<Sum>e \<leftarrow> take n (tl ns). 1 + int (blk_notic e))"
    by (cases ns) simp_all
  moreover have "trace ?w' = trace (fold dispatch_notic (take n (tl ns)) (fold route_v3 (qmsgs (g_queue_submsg_v3 w))
       (fold dispatch_notic (take 1 ns) (fold route_v2 (qmsgs (g_queue_submsg w)) w))))"
    unfolding t(1) using ok r assms(2) by (simp add: route_fold dispatch_fold turn_calls_def)
  ultimately show ?thesis using t(2-8) assms(2) by (intro exI [of _ ?w']) (simp add: t(1) turn_blocks_def del: funpow.simps)
qed

definition demo_start :: ezdev_sdk_kernel_inner_cb_notic where
  "demo_start = \<lparr>cb_type = extend_cb_start, cb_event = \<lparr>event_type = sdk_kernel_event_online, event_context = None\<rparr>\<rparr>"

definition demo_running :: "ezdev_sdk_kernel_submsg queque \<Rightarrow> ezdev_sdk_kernel_inner_cb_notic queque \<Rightarrow>
    ezdev_sdk_kernel_submsg_v3 queque \<Rightarrow> world" where
  "demo_running q1 q2 q3 = demo_hub_world\<lparr>g_queue_submsg := q1, g_queue_inner_cb_notic := q2, g_queue_submsg_v3 := q3,
     g_ezdev_sdk_kernel := (g_ezdev_sdk_kernel demo_hub_world)\<lparr>my_state := sdk_start\<rparr>\<rparr>"

lemma demo_running_modules:
  "domain_extends (demo_running q1 q2 q3) = [demo_extend]" "extends_v3 (demo_running q1 q2 q3) = [demo_ext_v3]"
  "modules_ok (demo_running q1 q2 q3)" "sdk_hub_extend_get 5 (demo_running q1 q2 q3) = Some 0"
  "g_kernel_hub_extend (demo_running q1 q2 q3) ! 0 = demo_hub_ext" "trace (demo_running q1 q2 q3) = []"
  "my_state (g_ezdev_sdk_kernel (demo_running q1 q2 q3)) = sdk_start" "hub_reg_status (g_ezdev_sdk_kernel (demo_running q1 q2 q3)) = 1"
  "domain_lookup 1500 (demo_running q1 q2 q3) = Some demo_extend"
proof -
  show d: "domain_extends (demo_running q1 q2 q3) = [demo_extend]"
    using demo_tables(3) [of calm_env] by (simp add: domain_extends_def demo_running_def demo_hub_world_def)
  show "extends_v3 (demo_running q1 q2 q3) = [demo_ext_v3]" using demo_hub_modules(1) by (simp add: extends_v3_def demo_running_def)
  show m: "modules_ok (demo_running q1 q2 q3)"
    using demo_hub_modules(2) by (simp add: modules_ok_def domains_wf_def extends_wf_def extends_v3_def domain_extends_def demo_running_def)
  show "sdk_hub_extend_get 5 (demo_running q1 q2 q3) = Some 0"
    by (simp add: sdk_hub_extend_get_def find_upt demo_hub_ext_def HUB_EXTEND_MAX_NUM_def demo_running_def demo_hub_world_def)
  have "domains_wf (demo_running q1 q2 q3)" using m by (simp add: modules_ok_def)
  then show "domain_lookup 1500 (demo_running q1 q2 q3) = Some demo_extend"
    using domains.lookup_find [of "demo_running q1 q2 q3" 1500] d by (simp add: demo_extend_def)
qed (simp_all add: demo_running_def demo_hub_world_def demo_world_simps demo_init_simps boot_world_def)

lemma demo_queue:
  assumes "length xs \<le> 4"
  obtains q where "queue_inv q" "qmsgs q = xs"
  using mq.run_pushes_msgs [of "snd (init_queue1 4 True)" xs "\<lparr>m_ok = (\<lambda>_. True), m_calls = 0, live = 0\<rparr>"] assms by auto

theorem user_thread_delivers_witness:
  "\<exists>w. qmsgs (g_queue_submsg w) = [demo_submsg] \<and> qmsgs (g_queue_inner_cb_notic w) = [demo_receipt, demo_start] \<and>
     qmsgs (g_queue_submsg_v3 w) = [demo_submsg_v3 ''SUB''] \<and> trace w = [] \<and>
     trace (user_turn (user_turn w)) = [Do_extend_start 1 None, Do_hub_data_route 8 (demo_submsg_v3 ''SUB''),
       Do_extend_event 4 (cb_event demo_receipt) None, Do_data_route 3 demo_submsg None]"
proof -
  let ?s = "demo_submsg_v3 ''SUB''"
  obtain q1 where q1: "queue_inv q1" "qmsgs q1 = [demo_submsg]" by (rule demo_queue [of "[demo_submsg]"]) simp
  obtain q2 where q2: "queue_inv q2" "qmsgs q2 = [demo_receipt, demo_start]" by (rule demo_queue [of "[demo_receipt, demo_start]"]) simp
  obtain q3 where q3: "queue_inv q3" "qmsgs q3 = [?s]" by (rule demo_queue [of "[?s]"]) simp
  note q = q1 q2 q3
  let ?w = "demo_running q1 q2 q3"
  have f: "g_queue_submsg ?w = q1" "g_queue_inner_cb_notic ?w = q2" "g_queue_submsg_v3 ?w = q3" by (simp_all add: demo_running_def)
  have ok: "sm_msg_domain_id demo_submsg \<noteq> 0" "notic_ok demo_receipt" "notic_ok demo_start" "hub_ok ?w ?s"
    by (simp_all add: demo_submsg_def demo_receipt_def demo_start_def notic_ok_def err_ctx_ok_def hub_ok_def demo_submsg_v3_def
        demo_running_modules demo_hub_ext_def)
  have r: "thread_ready ?w" using q ok by (simp add: thread_ready_def f demo_running_modules)
  have hub: "to_hub ?w ?s" by (simp add: to_hub_def demo_running_modules demo_submsg_v3_def sdk_shadow_def)
  have dels: "delivery_v2 ?w demo_submsg = [Do_data_route 3 demo_submsg None]" "delivery_v3 ?w ?s = [Do_hub_data_route 8 ?s]"
    "notic_actions ?w demo_receipt = [Do_extend_event 4 (cb_event demo_receipt) None]"
    "notic_actions ?w demo_start = [Do_extend_start 1 None]"
    using hub
    by (simp_all add: delivery_v2_def delivery_v3_def notic_actions_def event_actions_def demo_running_modules demo_submsg_def demo_extend_def
        demo_receipt_def demo_start_def event_ack_def demo_submsg_v3_def demo_hub_ext_def)
  have "trace (user_turn (user_turn ?w)) = trace (fold dispatch_notic [demo_start] (fold route_v3 [?s]
       (fold dispatch_notic [demo_receipt] (fold route_v2 [demo_submsg] ?w))))"
    using user_thread_delivers [OF r, of "[demo_receipt, demo_start]" 1] q f by (simp add: numeral_2_eq_2 del: fold_simps)
  also have "\<dots> = [Do_extend_start 1 None, Do_hub_data_route 8 ?s,
       Do_extend_event 4 (cb_event demo_receipt) None, Do_data_route 3 demo_submsg None]"
    using ok dels by (simp add: route_v2_eq route_v3_ok dispatch_notic_eq demo_running_modules)
  finally show ?thesis using q f demo_running_modules(6) by (intro exI [of _ ?w]) simp
qed

end
