(* ===== verification/Doubles.thy ===== *)
theory Doubles
  imports Prelude "HOL-Library.Log_Nat"
begin

text \<open>
  The \<open>double\<close> of the C compiler, an IEEE-754 binary64 number, and what the sources use of it:
  comparison, subtraction, multiplication, division, the conversions from and to \<open>int\<close>, \<open>strtod\<close>
  and the formats \<open>%d\<close> and \<open>%1.15f\<close> of \<open>sprintf\<close>.  A finite number is its exact value, a
  rational; the two zeroes are one, since no routine of the model tells them apart.  Results are
  rounded to the nearest number, ties to the even one.
\<close>

section \<open>Numbers and rounding\<close>

datatype double = Fin rat | Inf bool | NaN

definition pow2 :: "int \<Rightarrow> rat" where
  "pow2 e = (if 0 \<le> e then 2 ^ nat e else 1 / 2 ^ nat (- e))"

definition round_even :: "rat \<Rightarrow> int" where
  "round_even x = (let n = \<lfloor>x\<rfloor>; r = x - of_int n in
     if r < 1 / 2 \<or> r = 1 / 2 \<and> even n then n else n + 1)"

text \<open>The exponent \<open>e\<close> with \<open>2 ^ e \<le> \<bar>x\<bar> < 2 ^ (e + 1)\<close>.\<close>

definition exponent :: "rat \<Rightarrow> int" where
  "exponent x = (case quotient_of \<bar>x\<bar> of (p, q) \<Rightarrow>
     let k = bitlen p - bitlen q in if pow2 k \<le> \<bar>x\<bar> then k else k - 1)"

text \<open>
  53 bits of mantissa, down to the unit \<open>2 ^ -1074\<close> of the denormal numbers; infinite from
  \<open>2 ^ 1024\<close> on.  The flag of \<open>Inf\<close> is its sign.
\<close>

definition to_double :: "rat \<Rightarrow> double" where
  "to_double x = (if x = 0 then Fin 0 else
     let u = pow2 (max (- 1074) (exponent x - 52)); y = of_int (round_even (x / u)) * u in
     if pow2 1024 \<le> \<bar>y\<bar> then Inf (x < 0) else Fin y)"

section \<open>Operations\<close>

definition d_of_int :: "int \<Rightarrow> double" where
  "d_of_int i = Fin (of_int i)"

fun d_neg :: "double \<Rightarrow> double" where
  "d_neg (Fin x) = Fin (- x)"
| "d_neg (Inf s) = Inf (\<not> s)"
| "d_neg NaN = NaN"

fun d_plus :: "double \<Rightarrow> double \<Rightarrow> double" where
  "d_plus (Fin x) (Fin y) = to_double (x + y)"
| "d_plus (Inf s) (Inf t) = (if s = t then Inf s else NaN)"
| "d_plus (Inf s) (Fin _) = Inf s"
| "d_plus (Fin _) (Inf t) = Inf t"
| "d_plus _ _ = NaN"

definition d_minus :: "double \<Rightarrow> double \<Rightarrow> double" where
  "d_minus a b = d_plus a (d_neg b)"

fun d_times :: "double \<Rightarrow> double \<Rightarrow> double" where
  "d_times (Fin x) (Fin y) = to_double (x * y)"
| "d_times (Inf s) (Inf t) = Inf (s \<noteq> t)"
| "d_times (Inf s) (Fin y) = (if y = 0 then NaN else Inf (s \<noteq> (y < 0)))"
| "d_times (Fin x) (Inf t) = (if x = 0 then NaN else Inf (t \<noteq> (x < 0)))"
| "d_times _ _ = NaN"

text \<open>Division is only used with a divisor other than zero.\<close>

fun d_divide :: "double \<Rightarrow> double \<Rightarrow> double" where
  "d_divide (Fin x) (Fin y) = to_double (x / y)"
| "d_divide (Fin _) (Inf _) = Fin 0"
| "d_divide (Inf s) (Fin y) = Inf (s \<noteq> (y < 0))"
| "d_divide _ _ = NaN"

fun d_abs :: "double \<Rightarrow> double" where
  "d_abs (Fin x) = Fin \<bar>x\<bar>"
| "d_abs (Inf _) = Inf False"
| "d_abs NaN = NaN"

fun d_le :: "double \<Rightarrow> double \<Rightarrow> bool" where
  "d_le (Fin x) (Fin y) = (x \<le> y)"
| "d_le (Inf s) (Inf t) = (s \<or> \<not> t)"
| "d_le (Inf s) (Fin _) = s"
| "d_le (Fin _) (Inf t) = (\<not> t)"
| "d_le _ _ = False"

text \<open>The operators \<open>==\<close> and \<open><\<close> of C; \<open>NaN\<close> is unequal to itself.\<close>

definition d_eq :: "double \<Rightarrow> double \<Rightarrow> bool" where
  "d_eq a b = (d_le a b \<and> d_le b a)"

definition d_less :: "double \<Rightarrow> double \<Rightarrow> bool" where
  "d_less a b = (d_le a b \<and> \<not> d_le b a)"

definition trunc :: "rat \<Rightarrow> int" where
  "trunc x = (if 0 \<le> x then \<lfloor>x\<rfloor> else \<lceil>x\<rceil>)"

definition INT_MAX :: int where "INT_MAX = 2147483647"
definition INT_MIN :: int where "INT_MIN = - 2147483648"
definition DBL_EPSILON :: double where "DBL_EPSILON = Fin (1 / 2 ^ 52)"

text \<open>The conversion \<open>(int) d\<close>, undefined where the truncated value is no \<open>int\<close>.\<close>

fun int_of_double :: "double \<Rightarrow> int option" where
  "int_of_double (Fin x) = (let i = trunc x in if INT_MIN \<le> i \<and> i \<le> INT_MAX then Some i else None)"
| "int_of_double _ = None"

section \<open>Decimal texts\<close>

definition code :: "char \<Rightarrow> nat" where "code c = of_char c"

definition dec_digit :: "char \<Rightarrow> bool" where
  "dec_digit c = (48 \<le> code c \<and> code c \<le> 57)"

definition dec_value :: "string \<Rightarrow> nat" where
  "dec_value s = foldl (\<lambda>n c. 10 * n + (code c - 48)) 0 s"

fun dec_text :: "nat \<Rightarrow> string" where
  "dec_text n = (if n < 10 then [] else dec_text (n div 10)) @ [char_of (48 + n mod 10)]"

declare dec_text.simps [simp del]

text \<open>
  \<open>strtod\<close> on a text of digits, signs, points and the letters \<open>e\<close> and \<open>E\<close>: the value of the
  longest prefix that is a number, and what follows it.  A text no prefix of which is a number
  is returned whole.
\<close>

definition sign_of :: "string \<Rightarrow> bool \<times> string" where
  "sign_of s = (case s of c # t \<Rightarrow>
     if c = CHR ''-'' then (True, t) else if c = CHR ''+'' then (False, t) else (False, s)
   | [] \<Rightarrow> (False, s))"

definition strtod_exponent :: "string \<Rightarrow> int \<times> string" where
  "strtod_exponent s = (case s of c # t \<Rightarrow>
     if c = CHR ''e'' \<or> c = CHR ''E'' then
       (case sign_of t of (neg, u) \<Rightarrow> let ds = takeWhile dec_digit u in
          if ds = [] then (0, s)
          else ((if neg then - int (dec_value ds) else int (dec_value ds)), dropWhile dec_digit u))
     else (0, s)
   | [] \<Rightarrow> (0, s))"

definition pow10 :: "int \<Rightarrow> rat" where
  "pow10 e = (if 0 \<le> e then 10 ^ nat e else 1 / 10 ^ nat (- e))"

definition strtod :: "string \<Rightarrow> double \<times> string" where
  "strtod s = (case sign_of s of (neg, s1) \<Rightarrow>
     let ds = takeWhile dec_digit s1; s2 = dropWhile dec_digit s1;
         point = (s2 \<noteq> [] \<and> hd s2 = CHR ''.'');
         fs = (if point then takeWhile dec_digit (tl s2) else []);
         s3 = (if point then dropWhile dec_digit (tl s2) else s2)
     in if ds = [] \<and> fs = [] then (Fin 0, s)
        else (case strtod_exponent s3 of (e, s4) \<Rightarrow>
          let x = of_nat (dec_value (ds @ fs)) * pow10 (e - int (length fs))
          in (to_double (if neg then - x else x), s4)))"

text \<open>\<open>sprintf (b, "%d", i)\<close> and \<open>sprintf (b, "%1.15f", x)\<close>.\<close>

definition format_d :: "int \<Rightarrow> string" where
  "format_d i = (if i < 0 then [CHR ''-''] else []) @ dec_text (nat \<bar>i\<bar>)"

definition pad15 :: "string \<Rightarrow> string" where
  "pad15 s = replicate (15 - length s) (CHR ''0'') @ s"

definition format_15f :: "rat \<Rightarrow> string" where
  "format_15f x = (let n = nat (round_even (\<bar>x\<bar> * 10 ^ 15)) in
     (if x < 0 then [CHR ''-''] else []) @ dec_text (n div 10 ^ 15) @ [CHR ''.''] @
     pad15 (dec_text (n mod 10 ^ 15)))"

section \<open>Lemmas\<close>

lemma code_char_of [simp]: "n < 256 \<Longrightarrow> code (char_of n) = n"
  by (simp add: code_def)

lemma dec_value_Nil [simp]: "dec_value [] = 0"
  by (simp add: dec_value_def)

lemma dec_value_snoc [simp]: "dec_value (s @ [c]) = 10 * dec_value s + (code c - 48)"
  by (simp add: dec_value_def)

lemma dec_value_dec_text [simp]: "dec_value (dec_text n) = n"
  by (induction n rule: dec_text.induct, subst dec_text.simps) auto

lemma dec_text_digits: "c \<in> set (dec_text n) \<Longrightarrow> dec_digit c"
proof (induction n rule: dec_text.induct)
  case (1 n)
  have "c \<in> set (if n < 10 then [] else dec_text (n div 10)) \<or> c = char_of (48 + n mod 10)"
    using 1(2) by (subst (asm) dec_text.simps) auto
  then show ?case using 1(1) by (auto simp: dec_digit_def split: if_splits)
qed

lemma dec_text_not_Nil [simp]: "dec_text n \<noteq> []"
  by (subst dec_text.simps) simp

lemma length_dec_text: "n < 10 ^ k \<Longrightarrow> 0 < k \<Longrightarrow> length (dec_text n) \<le> k"
proof (induction n arbitrary: k rule: dec_text.induct)
  case (1 n)
  show ?case
  proof (cases "n < 10")
    case True
    then show ?thesis using 1(3) by (subst dec_text.simps) simp
  next
    case False
    obtain k' where k: "k = Suc k'" using 1(3) by (cases k) auto
    with False 1(2) have "n div 10 < 10 ^ k'" and "0 < k'"
      by (auto simp: less_mult_imp_div_less intro!: Suc_leI gr0I)
    from 1(1) [OF False this] show ?thesis using False k by (subst dec_text.simps) simp
  qed
qed

lemma length_dec_text_ge: "10 ^ k \<le> n \<Longrightarrow> k < length (dec_text n)"
proof (induction n arbitrary: k rule: dec_text.induct)
  case (1 n)
  show ?case
  proof (cases "k = 0")
    case True
    then show ?thesis by (subst dec_text.simps) simp
  next
    case False
    then obtain k' where k: "k = Suc k'" by (cases k) auto
    have "10 * 1 \<le> 10 * (10 :: nat) ^ k'" by (intro mult_le_mono2) simp
    also have "\<dots> \<le> n" using 1(2) by (simp add: k)
    finally have n: "\<not> n < 10" by simp
    moreover have "10 ^ k' \<le> n div 10" using 1(2) k by (simp add: less_eq_div_iff_mult_less_eq mult.commute)
    ultimately show ?thesis using 1(1) [of k'] k by (subst dec_text.simps) simp
  qed
qed

lemma round_even_of_int [simp]: "round_even (of_int i) = i"
  by (simp add: round_even_def)

lemma round_even_bounds: "\<bar>of_int (round_even x) - x\<bar> \<le> 1 / 2"
proof -
  define y where "y = x - of_int \<lfloor>x\<rfloor>"
  then have x: "x = of_int \<lfloor>x\<rfloor> + y" and y: "0 \<le> y" "y < 1" by linarith+
  show ?thesis
  proof (cases "y < 1 / 2 \<or> y = 1 / 2 \<and> even \<lfloor>x\<rfloor>")
    case True
    then have "round_even x = \<lfloor>x\<rfloor>" by (simp add: round_even_def Let_def y_def)
    with True y x show ?thesis by auto
  next
    case False
    then have "round_even x = \<lfloor>x\<rfloor> + 1" by (auto simp: round_even_def Let_def y_def)
    with False y x show ?thesis by auto
  qed
qed

lemma pow2_pos [simp]: "0 < pow2 e"
  by (simp add: pow2_def)

lemma pow2_Suc: "pow2 (e + 1) = 2 * pow2 e"
proof (cases "0 \<le> e")
  case True
  then show ?thesis by (simp add: pow2_def nat_add_distrib)
next
  case False
  then have "nat (- e) = Suc (nat (- (e + 1)))" by simp
  then show ?thesis using False by (auto simp: pow2_def)
qed

lemma pow2_add_nat: "pow2 (e + int n) = 2 ^ n * pow2 e"
proof (induction n)
  case (Suc n)
  have "pow2 (e + int (Suc n)) = pow2 (e + int n + 1)" by (simp add: add_ac)
  also have "\<dots> = 2 ^ Suc n * pow2 e" unfolding pow2_Suc Suc by simp
  finally show ?case .
qed simp

lemma pow2_mono: "d \<le> e \<Longrightarrow> pow2 d \<le> pow2 e"
proof -
  assume "d \<le> e"
  then have e: "e = d + int (nat (e - d))" by simp
  have "1 * pow2 d \<le> 2 ^ nat (e - d) * pow2 d" by (rule mult_right_mono) (simp_all add: less_imp_le)
  then show ?thesis by (subst e, subst pow2_add_nat) simp
qed

lemma bitlen_pow2: "0 < p \<Longrightarrow> pow2 (bitlen p - 1) \<le> of_int p \<and> of_int p < pow2 (bitlen p)"
proof -
  assume p: "0 < p"
  then have b: "0 < bitlen p" by (simp add: bitlen_def floorlog_eq_zero_iff flip: neq0_conv)
  have "2 ^ nat (bitlen p - 1) \<le> p" and "p < 2 ^ nat (bitlen p)"
    using bitlen_bounds [OF p] by simp_all
  then have "(of_int (2 ^ nat (bitlen p - 1)) :: rat) \<le> of_int p \<and> (of_int p :: rat) < of_int (2 ^ nat (bitlen p))"
    by (simp only: of_int_le_iff of_int_less_iff)
  then show ?thesis using b by (simp add: pow2_def)
qed

lemma pow2_add: "pow2 (d + e) = pow2 d * pow2 e"
proof -
  have le: "pow2 (d + e) = pow2 d * pow2 e" if "0 \<le> e" for d e
    using pow2_add_nat [of d "nat e"] that by (simp add: pow2_def mult.commute)
  show ?thesis
  proof (cases "0 \<le> e")
    case False
    then have "pow2 ((d + e) + - e) = pow2 (d + e) * pow2 (- e)" by (intro le) simp
    moreover have "pow2 (- e) * pow2 e = 1" using False by (simp add: pow2_def)
    ultimately show ?thesis by (simp add: mult.assoc)
  qed (rule le)
qed

lemma pow2_diff: "pow2 (d - e) = pow2 d / pow2 e"
proof -
  have "pow2 e \<noteq> 0" by (metis pow2_pos less_irrefl)
  then show ?thesis using pow2_add [of "d - e" e] by (simp add: field_simps)
qed

lemma exponent_bounds:
  assumes "x \<noteq> 0"
  shows "pow2 (exponent x) \<le> \<bar>x\<bar> \<and> \<bar>x\<bar> < pow2 (exponent x + 1)"
proof -
  obtain p q where pq: "quotient_of \<bar>x\<bar> = (p, q)" by force
  then have q: "0 < q" and x: "\<bar>x\<bar> = of_int p / of_int q"
    using quotient_of_denom_pos quotient_of_div by auto
  with assms have p: "0 < p" by (metis of_int_0_less_iff zero_less_abs_iff zero_less_divide_iff
    less_asym)
  let ?k = "bitlen p - bitlen q"
  have "\<bar>x\<bar> < pow2 (bitlen p) / pow2 (bitlen q - 1)"
    unfolding x using bitlen_pow2 [OF p] bitlen_pow2 [OF q] q
    by (intro frac_less) (auto simp: p less_imp_le)
  then have up: "\<bar>x\<bar> < pow2 (?k + 1)" by (simp add: pow2_diff [symmetric] algebra_simps)
  have "pow2 (bitlen p - 1) / pow2 (bitlen q) \<le> \<bar>x\<bar>"
    unfolding x using bitlen_pow2 [OF p] bitlen_pow2 [OF q] q p
    by (intro frac_le) (auto simp: less_imp_le)
  then have lo: "pow2 (?k - 1) \<le> \<bar>x\<bar>" by (simp add: pow2_diff [symmetric] algebra_simps)
  show ?thesis using up lo by (auto simp: exponent_def pq Let_def)
qed

text \<open>Rounding: every integer below \<open>2 ^ 53\<close> is a number, and no result is off by more than half a unit.\<close>

lemma to_double_int:
  assumes "\<bar>i\<bar> < 2 ^ 53"
  shows "to_double (of_int i) = Fin (of_int i)"
proof (cases "i = 0")
  case False
  let ?x = "of_int i :: rat"
  have "pow2 (exponent ?x) \<le> \<bar>?x\<bar>" using exponent_bounds [of ?x] False by simp
  also have "\<bar>?x\<bar> = of_int \<bar>i\<bar>" by simp
  also have "(of_int \<bar>i\<bar> :: rat) < of_int (2 ^ 53)" using assms by (simp only: of_int_less_iff)
  also have "\<dots> = pow2 53" by (simp add: pow2_def)
  finally have "exponent ?x < 53" using pow2_mono [of 53 "exponent ?x"] by (meson leD not_le)
  then have "max (- 1074) (exponent ?x - 52) \<le> 0" by simp
  then obtain n where n: "max (- 1074) (exponent ?x - 52) = - int n"
    by (metis minus_minus neg_0_le_iff_le nonneg_int_cases)
  have "?x / pow2 (- int n) = of_int (i * 2 ^ n)" by (cases "n = 0") (simp_all add: pow2_def)
  then have "of_int (round_even (?x / pow2 (- int n))) * pow2 (- int n) = ?x"
    by (cases "n = 0") (simp_all only: round_even_of_int, simp_all add: pow2_def)
  moreover have "\<bar>?x\<bar> < pow2 1024"
    using \<open>\<bar>?x\<bar> = of_int \<bar>i\<bar>\<close> \<open>of_int \<bar>i\<bar> < of_int (2 ^ 53)\<close> \<open>of_int (2 ^ 53) = pow2 53\<close>
      pow2_mono [of 53 1024] by linarith
  ultimately show ?thesis using False by (simp add: to_double_def n Let_def)
qed (simp add: to_double_def)

lemma to_double_error:
  assumes "to_double x = Fin y"
  shows "\<bar>y - x\<bar> \<le> pow2 (max (- 1074) (exponent x - 52)) / 2"
proof (cases "x = 0")
  case False
  define u where "u = pow2 (max (- 1074) (exponent x - 52))"
  have u: "0 < u" by (simp add: u_def)
  have "y = of_int (round_even (x / u)) * u"
    using assms False by (auto simp: to_double_def Let_def u_def split: if_splits)
  then have "y - x = (of_int (round_even (x / u)) - x / u) * u" using u by (simp add: field_simps)
  then have "\<bar>y - x\<bar> = \<bar>of_int (round_even (x / u)) - x / u\<bar> * u" using u by (simp add: abs_mult)
  also have "\<dots> \<le> 1 / 2 * u" using u by (intro mult_right_mono round_even_bounds) simp
  finally show ?thesis by (simp add: u_def)
qed (use assms in \<open>simp add: to_double_def less_imp_le\<close>)

end
