(* ===== verification/Bsc_Parse.thy ===== *)
theory Bsc_Parse
  imports Doubles Json "HOL-Library.Sublist"
begin

text \<open>
  The parser of microkernel/src/bscJSON.c.  A node is a \<open>bscJSON\<close> struct of the heap; its type tag
  and the members that go with it are a constructor, \<open>next\<close> and \<open>prev\<close> the list it stands in.

  A \<open>parse_buffer\<close> is what is left of the text from \<open>offset\<close> on, without the NUL that ends it:
  at the end the code reads that NUL, which starts no token.  \<open>buffer_skip_whitespace\<close> takes the
  NUL for a blank, moves behind it and then one back, so it stops at the NUL as well.  \<open>depth\<close> is
  counted down from \<open>bscJSON_NESTING_LIMIT\<close>.  The hooks are those of a program that does not call
  \<open>bscJSON_InitHooks\<close>, \<open>malloc\<close>, \<open>realloc\<close> and \<open>free\<close>.
\<close>

section \<open>Nodes\<close>

datatype jnode =
  BNull | BFalse | BTrue | BNumber int double | BString string | BRaw string
| BArray "jnode list" | BObject "(string \<times> jnode) list"

text \<open>The blocks a node owns: itself, its text, its name and its children.\<close>

fun bscJSON_Delete :: "jnode \<Rightarrow> mem \<Rightarrow> mem" where
  "bscJSON_Delete (BString s) m = free (free m)"
| "bscJSON_Delete (BRaw s) m = free (free m)"
| "bscJSON_Delete (BArray js) m = free (fold bscJSON_Delete js m)"
| "bscJSON_Delete (BObject ms) m = free (fold (\<lambda>(name, j) m. free (bscJSON_Delete j m)) ms m)"
| "bscJSON_Delete _ m = free m"

definition delete_members :: "(string \<times> jnode) list \<Rightarrow> mem \<Rightarrow> mem" where
  "delete_members = fold (\<lambda>(name, j) m. free (bscJSON_Delete j m))"

section \<open>Numbers\<close>

definition number_char :: "char \<Rightarrow> bool" where
  "number_char c = (dec_digit c \<or> c \<in> {CHR ''+'', CHR ''-'', CHR ''e'', CHR ''E'', CHR ''.''})"

text \<open>The conversion of \<open>valuedouble\<close> to \<open>valueint\<close>; a \<open>double\<close> that is no number does not come up.\<close>

definition saturate :: "double \<Rightarrow> int option" where
  "saturate d = (if d_le (d_of_int INT_MAX) d then Some INT_MAX
                 else if d_le d (d_of_int INT_MIN) then Some INT_MIN else int_of_double d)"

type_synonym parsed = "(jnode \<times> string) option \<times> mem"

definition parse_number :: "string \<Rightarrow> mem \<Rightarrow> parsed" where
  "parse_number s m =
     (let number_c_string = take 63 (takeWhile number_char s);
          (number, after_end) = strtod number_c_string
      in if after_end = number_c_string then (None, m)
         else (case saturate number of
                 None \<Rightarrow> (None, m)
               | Some i \<Rightarrow> (Some (BNumber i number, drop (length number_c_string - length after_end) s), m)))"

section \<open>Strings\<close>

definition hex_digit :: "char \<Rightarrow> nat option" where
  "hex_digit c = (let n = code c in
     if 48 \<le> n \<and> n \<le> 57 then Some (n - 48)
     else if 65 \<le> n \<and> n \<le> 70 then Some (10 + n - 65)
     else if 97 \<le> n \<and> n \<le> 102 then Some (10 + n - 97) else None)"

fun parse_hex4_loop :: "string \<Rightarrow> u32 \<Rightarrow> u32" where
  "parse_hex4_loop [] h = h"
| "parse_hex4_loop (c # cs) h = (case hex_digit c of None \<Rightarrow> 0
     | Some n \<Rightarrow> let h' = h + word_of_nat n in parse_hex4_loop cs (if cs = [] then h' else push_bit 4 h'))"

definition parse_hex4 :: "string \<Rightarrow> u32" where
  "parse_hex4 s = parse_hex4_loop (take 4 s) 0"

text \<open>The bytes the loop writes from the last to the second, six bits each, then the first.\<close>

fun utf8_loop :: "nat \<Rightarrow> u32 \<Rightarrow> byte list \<Rightarrow> u32 \<times> byte list" where
  "utf8_loop 0 cp out = (cp, out)"
| "utf8_loop (Suc p) cp out = utf8_loop p (drop_bit 6 cp) (ucast ((cp OR 0x80) AND 0xBF) # out)"

definition utf8_encode :: "u32 \<Rightarrow> byte list option" where
  "utf8_encode codepoint =
     (let enc = (\<lambda>len mark. case utf8_loop (len - 1) codepoint [] of (cp, out) \<Rightarrow>
            Some (ucast ((cp OR mark) AND 0xFF) # out))
      in if codepoint < 0x80 then Some [ucast (codepoint AND 0x7F)]
         else if codepoint < 0x800 then enc 2 0xC0
         else if codepoint < 0x10000 then enc 3 0xE0
         else if codepoint \<le> 0x10FFFF then enc 4 0xF0 else None)"

text \<open>
  The text starts with the backslash of a \<open>\u\<close> and ends where the string does.  The result is the
  bytes and the length of the sequence.
\<close>

definition utf16_literal_to_utf8 :: "string \<Rightarrow> (byte list \<times> nat) option" where
  "utf16_literal_to_utf8 s =
     (if length s < 6 then None
      else let first_code = parse_hex4 (drop 2 s) in
        if 0xDC00 \<le> first_code \<and> first_code \<le> 0xDFFF then None
        else if 0xD800 \<le> first_code \<and> first_code \<le> 0xDBFF then
          (let second = drop 6 s in
             if length second < 6 \<or> second ! 0 \<noteq> CHR 0x5C \<or> second ! 1 \<noteq> CHR ''u'' then None
             else let second_code = parse_hex4 (drop 2 second) in
               if second_code < 0xDC00 \<or> 0xDFFF < second_code then None
               else map_option (\<lambda>bs. (bs, 12))
                 (utf8_encode (0x10000 + (push_bit 10 (first_code AND 0x3FF) OR (second_code AND 0x3FF)))))
        else map_option (\<lambda>bs. (bs, 6)) (utf8_encode first_code))"

text \<open>
  The first pass: the text up to the closing quote, what follows the quote, and the number of
  bytes skipped for escapes.
\<close>

fun scan_string :: "string \<Rightarrow> (string \<times> string \<times> nat) option" where
  "scan_string [] = None"
| "scan_string (c # s) =
     (if c = CHR 0x22 then Some ([], s, 0)
      else if c = CHR 0x5C then
        (case s of [] \<Rightarrow> None
         | c' # s' \<Rightarrow> map_option (\<lambda>(b, r, k). (c # c' # b, r, Suc k)) (scan_string s'))
      else map_option (\<lambda>(b, r, k). (c # b, r, k)) (scan_string s))"

text \<open>
  The second pass, on the text before the closing quote.  An escape there of one character is one
  the first pass read as the end of another escape: its second character is the quote itself.
\<close>

definition simple_escape :: "char \<Rightarrow> char option" where
  "simple_escape c =
     (if c = CHR ''b'' then Some (CHR 0x08) else if c = CHR ''f'' then Some (CHR 0x0C)
      else if c = CHR ''n'' then Some (CHR 0x0A) else if c = CHR ''r'' then Some (CHR 0x0D)
      else if c = CHR ''t'' then Some (CHR 0x09)
      else if c \<in> {CHR 0x22, CHR 0x5C, CHR ''/''} then Some c else None)"

function unescape :: "string \<Rightarrow> string option" where
  "unescape s = (case s of [] \<Rightarrow> Some []
     | c # t \<Rightarrow>
       if c \<noteq> CHR 0x5C then map_option (Cons c) (unescape t)
       else let e = (case t of [] \<Rightarrow> CHR 0x22 | c' # _ \<Rightarrow> c') in
         if e = CHR ''u'' then
           (case utf16_literal_to_utf8 s of None \<Rightarrow> None
            | Some (bs, n) \<Rightarrow> map_option (append (text_of bs)) (unescape (drop (n - 1) t)))
         else (case simple_escape e of None \<Rightarrow> None
            | Some x \<Rightarrow> map_option (Cons x) (unescape (drop 1 t))))"
  by pat_completeness auto
termination by (relation "measure length") auto

declare unescape.simps [simp del]

text \<open>
  The block is \<open>allocation_length\<close> and one byte for the NUL.  What later reads of the output sees
  is its text up to the first NUL, which may be one a \<open>\u0000\<close> put there.
\<close>

definition allocation_length :: "string \<Rightarrow> nat \<Rightarrow> nat" where
  "allocation_length body skipped_bytes = length body + 1 - skipped_bytes"

definition parse_string :: "string \<Rightarrow> mem \<Rightarrow> (string \<times> string) option \<times> mem" where
  "parse_string s m = (case s of [] \<Rightarrow> (None, m) | c # t \<Rightarrow>
     if c \<noteq> CHR 0x22 then (None, m)
     else (case scan_string t of None \<Rightarrow> (None, m)
       | Some (body, rest, skipped_bytes) \<Rightarrow>
         (case malloc m of (ok, m1) \<Rightarrow>
            if \<not> ok then (None, m1)
            else (case unescape body of None \<Rightarrow> (None, free m1)
                  | Some output \<Rightarrow> (Some (c_str output, rest), m1)))))"

section \<open>Values\<close>

definition buffer_skip_whitespace :: "string \<Rightarrow> string" where
  "buffer_skip_whitespace s = dropWhile (\<lambda>c. code c \<le> 32) s"

definition starts :: "char \<Rightarrow> string \<Rightarrow> bool" where
  "starts c s = (s \<noteq> [] \<and> hd s = c)"

text \<open>
  The loops over the elements of an array and the members of an object, from the character the
  element starts at; \<open>acc\<close> holds what is parsed already, from \<open>head\<close> to \<open>current_item\<close>.  An element
  has at least one character, so the length of the text is fuel enough.
\<close>

fun parse_elements ::
  "(string \<Rightarrow> mem \<Rightarrow> parsed) \<Rightarrow> nat \<Rightarrow> jnode list \<Rightarrow> string \<Rightarrow> mem \<Rightarrow> parsed" where
  "parse_elements pv 0 acc s m = (None, fold bscJSON_Delete acc m)"
| "parse_elements pv (Suc n) acc s m =
     (case malloc m of (ok, m1) \<Rightarrow>
        if \<not> ok then (None, fold bscJSON_Delete acc m1)
        else (case pv (buffer_skip_whitespace s) m1 of
          (None, m2) \<Rightarrow> (None, free (fold bscJSON_Delete acc m2))
        | (Some (j, s1), m2) \<Rightarrow>
            let s2 = buffer_skip_whitespace s1 in
            if starts (CHR '','') s2 then parse_elements pv n (acc @ [j]) (tl s2) m2
            else if starts (CHR '']'') s2 then (Some (BArray (acc @ [j]), tl s2), m2)
            else (None, fold bscJSON_Delete (acc @ [j]) m2)))"

definition parse_array :: "(string \<Rightarrow> mem \<Rightarrow> parsed) \<Rightarrow> string \<Rightarrow> mem \<Rightarrow> parsed" where
  "parse_array pv s m =
     (if \<not> starts (CHR ''['') s then (None, m)
      else let s1 = buffer_skip_whitespace (tl s) in
        if starts (CHR '']'') s1 then (Some (BArray [], tl s1), m)
        else parse_elements pv (length s) [] s1 m)"

fun parse_members ::
  "(string \<Rightarrow> mem \<Rightarrow> parsed) \<Rightarrow> nat \<Rightarrow> (string \<times> jnode) list \<Rightarrow> string \<Rightarrow> mem \<Rightarrow> parsed" where
  "parse_members pv 0 acc s m = (None, delete_members acc m)"
| "parse_members pv (Suc n) acc s m =
     (case malloc m of (ok, m1) \<Rightarrow>
        if \<not> ok then (None, delete_members acc m1)
        else (case parse_string (buffer_skip_whitespace s) m1 of
          (None, m2) \<Rightarrow> (None, free (delete_members acc m2))
        | (Some (name, s1), m2) \<Rightarrow>
            let s2 = buffer_skip_whitespace s1 in
            if \<not> starts (CHR '':'') s2 then (None, free (free (delete_members acc m2)))
            else (case pv (buffer_skip_whitespace (tl s2)) m2 of
              (None, m3) \<Rightarrow> (None, free (free (delete_members acc m3)))
            | (Some (j, s3), m3) \<Rightarrow>
                let s4 = buffer_skip_whitespace s3 in
                if starts (CHR '','') s4 then parse_members pv n (acc @ [(name, j)]) (tl s4) m3
                else if starts (CHR ''}'') s4 then (Some (BObject (acc @ [(name, j)]), tl s4), m3)
                else (None, delete_members (acc @ [(name, j)]) m3))))"

definition parse_object :: "(string \<Rightarrow> mem \<Rightarrow> parsed) \<Rightarrow> string \<Rightarrow> mem \<Rightarrow> parsed" where
  "parse_object pv s m =
     (if \<not> starts (CHR ''{'') s then (None, m)
      else let s1 = buffer_skip_whitespace (tl s) in
        if starts (CHR ''}'') s1 then (Some (BObject [], tl s1), m)
        else parse_members pv (length s) [] s1 m)"

text \<open>
  One value, given how many arrays and objects may still be opened; with none left both routines
  return false before they look at the text.
\<close>

definition parse_value1 :: "(string \<Rightarrow> mem \<Rightarrow> parsed) option \<Rightarrow> string \<Rightarrow> mem \<Rightarrow> parsed" where
  "parse_value1 inner s m =
     (if take 4 s = ''null'' then (Some (BNull, drop 4 s), m)
      else if take 5 s = ''false'' then (Some (BFalse, drop 5 s), m)
      else if take 4 s = ''true'' then (Some (BTrue, drop 4 s), m)
      else if starts (CHR 0x22) s then
        (case parse_string s m of (r, m1) \<Rightarrow> (map_option (\<lambda>(t, s1). (BString t, s1)) r, m1))
      else if starts (CHR ''-'') s \<or> s \<noteq> [] \<and> dec_digit (hd s) then parse_number s m
      else if starts (CHR ''['') s then (case inner of None \<Rightarrow> (None, m) | Some pv \<Rightarrow> parse_array pv s m)
      else if starts (CHR ''{'') s then (case inner of None \<Rightarrow> (None, m) | Some pv \<Rightarrow> parse_object pv s m)
      else (None, m))"

primrec parse_value :: "nat \<Rightarrow> string \<Rightarrow> mem \<Rightarrow> parsed" where
  "parse_value 0 = parse_value1 None"
| "parse_value (Suc k) = parse_value1 (Some (parse_value k))"

definition bscJSON_NESTING_LIMIT :: nat where "bscJSON_NESTING_LIMIT = 1000"

definition skip_utf8_bom :: "string \<Rightarrow> string" where
  "skip_utf8_bom s = (if 4 \<le> length s \<and> take 3 s = [CHR 0xEF, CHR 0xBB, CHR 0xBF] then drop 3 s else s)"

text \<open>The text is the C string \<open>value\<close>; the second result is \<open>*return_parse_end\<close>.\<close>

definition bscJSON_ParseWithOpts :: "string \<Rightarrow> bool \<Rightarrow> mem \<Rightarrow> parsed" where
  "bscJSON_ParseWithOpts value require_null_terminated m =
     (case malloc m of (ok, m1) \<Rightarrow>
        if \<not> ok then (None, m1)
        else (case parse_value bscJSON_NESTING_LIMIT (buffer_skip_whitespace (skip_utf8_bom value)) m1 of
          (None, m2) \<Rightarrow> (None, free m2)
        | (Some (j, s), m2) \<Rightarrow>
            if require_null_terminated then
              (let s' = buffer_skip_whitespace s in
               if s' \<noteq> [] then (None, bscJSON_Delete j m2) else (Some (j, s'), m2))
            else (Some (j, s), m2)))"

definition bscJSON_Parse :: "string \<Rightarrow> mem \<Rightarrow> jnode option \<times> mem" where
  "bscJSON_Parse value m =
     (case bscJSON_ParseWithOpts value False m of (r, m') \<Rightarrow> (map_option fst r, m'))"

section \<open>The heap\<close>

text \<open>The number of blocks of a node, itself included.\<close>

fun blocks :: "jnode \<Rightarrow> nat" where
  "blocks (BString s) = 2"
| "blocks (BRaw s) = 2"
| "blocks (BArray js) = Suc (sum_list (map blocks js))"
| "blocks (BObject ms) = Suc (sum_list (map (\<lambda>(name, j). Suc (blocks j)) ms))"
| "blocks _ = 1"

lemma live_fold:
  assumes "\<And>x m. x \<in> set xs \<Longrightarrow> live (f x m) = live m - int (g x)"
  shows "live (fold f xs m) = live m - int (sum_list (map g xs))"
  using assms by (induction xs arbitrary: m) simp_all

lemma live_Delete [acct]: "live (bscJSON_Delete j m) = live m - int (blocks j)"
proof (induction j arbitrary: m)
  case (BArray js)
  have "live (fold bscJSON_Delete js m) = live m - int (sum_list (map blocks js))"
    using BArray by (intro live_fold) auto
  then show ?case by (simp add: acct)
next
  case (BObject ms)
  have "live (fold (\<lambda>(name, j) m. free (bscJSON_Delete j m)) ms m) =
      live m - int (sum_list (map (\<lambda>(name, j). Suc (blocks j)) ms))"
    using BObject by (intro live_fold) (auto simp: acct)
  then show ?case by (simp add: acct)
qed (simp_all add: acct)

lemma live_Delete_list [acct]:
  "live (fold bscJSON_Delete js m) = live m - int (sum_list (map blocks js))"
  by (rule live_fold) (rule live_Delete)

lemma live_delete_members [acct]:
  "live (delete_members ms m) = live m - int (sum_list (map (\<lambda>(name, j). Suc (blocks j)) ms))"
  unfolding delete_members_def by (rule live_fold) (auto simp: acct)

section \<open>What a parser of values promises\<close>

text \<open>
  A parsed tree: numbers with their \<open>valueint\<close>, texts without a NUL, no raw node, and at most
  \<open>k\<close> arrays and objects inside one another.
\<close>

fun typed :: "nat \<Rightarrow> jnode \<Rightarrow> bool" where
  "typed k (BNumber i d) = (saturate d = Some i)"
| "typed k (BString s) = (CHR 0x00 \<notin> set s)"
| "typed k (BRaw s) = False"
| "typed k (BArray js) = (case k of 0 \<Rightarrow> False | Suc k' \<Rightarrow> list_all (typed k') js)"
| "typed k (BObject ms) = (case k of 0 \<Rightarrow> False | Suc k' \<Rightarrow>
     list_all (\<lambda>(name, j). CHR 0x00 \<notin> set name \<and> typed k' j) ms)"
| "typed k _ = True"

definition gained :: "(jnode \<times> string) option \<Rightarrow> int" where
  "gained r = (case r of None \<Rightarrow> 0 | Some (j, _) \<Rightarrow> int (blocks j) - 1)"

lemma gained_simps [simp]: "gained None = 0" "gained (Some (j, s)) = int (blocks j) - 1"
  by (simp_all add: gained_def)

lemma length_skip: "length (buffer_skip_whitespace s) \<le> length s"
  by (simp add: buffer_skip_whitespace_def length_dropWhile_le)

lemma starts_length: "starts c s \<Longrightarrow> Suc (length (tl s)) = length s"
  by (cases s) (simp_all add: starts_def)

lemma parse_string_live:
  "parse_string s m = (r, m') \<Longrightarrow> live m' = live m + (case r of None \<Rightarrow> 0 | Some _ \<Rightarrow> 1)"
  by (auto simp: parse_string_def acct malloc_def Let_def
      split: list.splits if_splits option.splits prod.splits)

lemma scan_string_length: "scan_string s = Some (body, rest, k) \<Longrightarrow> length s = Suc (length body + length rest)"
  by (induction s arbitrary: body rest k rule: scan_string.induct)
    (auto split: if_splits list.splits)

lemma parse_string_result:
  "parse_string s m = (Some (t, rest), m') \<Longrightarrow> CHR 0x00 \<notin> set t \<and> length rest < length s"
  by (auto simp: parse_string_def dest!: scan_string_length
      split: list.splits if_splits option.splits prod.splits)

locale value_parser =
  fixes pv :: "string \<Rightarrow> mem \<Rightarrow> parsed" and k :: nat
  assumes shorter: "pv s m = (Some (j, s'), m') \<Longrightarrow> length s' < length s"
    and balanced: "pv s m = (r, m') \<Longrightarrow> live m' = live m + gained r"
    and result: "pv s m = (Some (j, s'), m') \<Longrightarrow> typed k j"
begin

lemma elements_shorter:
  "parse_elements pv n acc s m = (Some (j, s'), m') \<Longrightarrow> length s' < length s"
proof (induction n arbitrary: acc s m)
  case (Suc n)
  obtain m1 j1 s1 m2 where m1: "malloc m = (True, m1)"
    and pv: "pv (buffer_skip_whitespace s) m1 = (Some (j1, s1), m2)"
    using Suc.prems by (auto split: prod.splits if_splits option.splits)
  let ?s2 = "buffer_skip_whitespace s1"
  have le: "length (tl ?s2) < length s"
    using shorter [OF pv] length_skip [of s] length_skip [of s1] by simp
  show ?case
    using Suc.prems Suc.IH [of "acc @ [j1]" "tl ?s2" m2] le m1 pv
    by (auto simp: Let_def split: if_splits)
qed simp

lemma elements_live:
  "parse_elements pv n acc s m = (r, m') \<Longrightarrow>
   live m' = live m + gained r - int (sum_list (map blocks acc))"
proof (induction n arbitrary: acc s m)
  case (Suc n)
  obtain ok m1 where m1: "malloc m = (ok, m1)" by force
  obtain x m2 where pv: "pv (buffer_skip_whitespace s) m1 = (x, m2)" by force
  have lm: "live m1 = live m + (if ok then 1 else 0)" using live_malloc [of m] m1 by simp
  show ?case
  proof (cases "ok \<and> x \<noteq> None")
    case False
    then show ?thesis using Suc.prems m1 pv lm balanced [OF pv]
      by (cases x) (auto simp: acct split: if_splits)
  next
    case True
    then obtain j1 s1 where x: "x = Some (j1, s1)" by auto
    show ?thesis
      using Suc.prems Suc.IH [of "acc @ [j1]" "tl (buffer_skip_whitespace s1)" m2] True m1 pv x lm balanced [OF pv]
      by (auto simp: Let_def acct split: if_splits option.splits)
  qed
qed (auto simp: acct)

lemma elements_typed:
  "parse_elements pv n acc s m = (Some (j, s'), m') \<Longrightarrow> list_all (typed k) acc \<Longrightarrow> typed (Suc k) j"
proof (induction n arbitrary: acc s m)
  case (Suc n)
  obtain m1 j1 s1 m2 where m1: "malloc m = (True, m1)"
    and pv: "pv (buffer_skip_whitespace s) m1 = (Some (j1, s1), m2)"
    using Suc.prems by (auto split: prod.splits if_splits option.splits)
  show ?case
    using Suc.prems Suc.IH [of "acc @ [j1]" "tl (buffer_skip_whitespace s1)" m2] result [OF pv] m1 pv
    by (auto simp: Let_def split: if_splits)
qed simp

lemma members_shorter:
  "parse_members pv n acc s m = (Some (j, s'), m') \<Longrightarrow> length s' < length s"
proof (induction n arbitrary: acc s m)
  case (Suc n)
  obtain m1 name s1 m2 where m1: "malloc m = (True, m1)"
    and ps: "parse_string (buffer_skip_whitespace s) m1 = (Some (name, s1), m2)"
    using Suc.prems by (auto split: prod.splits if_splits option.splits)
  let ?s2 = "buffer_skip_whitespace s1"
  obtain j1 s3 m3 where c: "starts (CHR '':'') ?s2"
    and pv: "pv (buffer_skip_whitespace (tl ?s2)) m2 = (Some (j1, s3), m3)"
    using Suc.prems m1 ps by (auto simp: Let_def split: prod.splits if_splits option.splits)
  have "length (tl (buffer_skip_whitespace s3)) < length s"
    using shorter [OF pv] length_skip [of s] length_skip [of s1] length_skip [of s3]
      length_skip [of "tl ?s2"] starts_length [OF c] conjunct2 [OF parse_string_result [OF ps]]
    unfolding length_tl by linarith
  then show ?case
    using Suc.prems Suc.IH [of "acc @ [(name, j1)]" "tl (buffer_skip_whitespace s3)" m3] m1 ps c pv
    by (auto simp: Let_def split: if_splits)
qed simp

lemma members_live:
  "parse_members pv n acc s m = (r, m') \<Longrightarrow>
   live m' = live m + gained r - int (sum_list (map (\<lambda>(name, j). Suc (blocks j)) acc))"
proof (induction n arbitrary: acc s m)
  case (Suc n)
  obtain ok m1 where m1: "malloc m = (ok, m1)" by force
  obtain x m2 where ps: "parse_string (buffer_skip_whitespace s) m1 = (x, m2)" by force
  have lm: "live m1 = live m + (if ok then 1 else 0)" using live_malloc [of m] m1 by simp
  show ?case
  proof (cases "ok \<and> x \<noteq> None")
    case False
    then show ?thesis
      using Suc.prems m1 ps lm parse_string_live [OF ps]
      by (cases x) (auto simp: acct split: if_splits)
  next
    case True
    then obtain name s1 where x: "x = Some (name, s1)" by auto
    let ?s2 = "buffer_skip_whitespace s1"
    obtain y m3 where pv: "pv (buffer_skip_whitespace (tl ?s2)) m2 = (y, m3)" by force
    show ?thesis
    proof (cases "starts (CHR '':'') ?s2 \<and> y \<noteq> None")
      case False
      then show ?thesis
        using Suc.prems True m1 ps x lm parse_string_live [OF ps] pv balanced [OF pv]
        by (cases y) (auto simp: Let_def acct split: if_splits)
    next
      case ok: True
      then obtain j1 s3 where y: "y = Some (j1, s3)" by auto
      show ?thesis
        using Suc.prems Suc.IH [of "acc @ [(name, j1)]" "tl (buffer_skip_whitespace s3)" m3]
          True ok m1 ps x y lm parse_string_live [OF ps] pv balanced [OF pv]
        by (auto simp: Let_def acct split: if_splits)
    qed
  qed
qed (auto simp: acct)

lemma members_typed:
  "parse_members pv n acc s m = (Some (j, s'), m') \<Longrightarrow>
   list_all (\<lambda>(name, j). CHR 0x00 \<notin> set name \<and> typed k j) acc \<Longrightarrow> typed (Suc k) j"
proof (induction n arbitrary: acc s m)
  case (Suc n)
  obtain m1 name s1 m2 where m1: "malloc m = (True, m1)"
    and ps: "parse_string (buffer_skip_whitespace s) m1 = (Some (name, s1), m2)"
    using Suc.prems by (auto split: prod.splits if_splits option.splits)
  let ?s2 = "buffer_skip_whitespace s1"
  obtain j1 s3 m3 where c: "starts (CHR '':'') ?s2"
    and pv: "pv (buffer_skip_whitespace (tl ?s2)) m2 = (Some (j1, s3), m3)"
    using Suc.prems m1 ps by (auto simp: Let_def split: prod.splits if_splits option.splits)
  show ?case
    using Suc.prems Suc.IH [of "acc @ [(name, j1)]" "tl (buffer_skip_whitespace s3)" m3] m1 ps c pv
      result [OF pv] parse_string_result [OF ps]
    by (auto simp: Let_def split: if_splits)
qed simp

lemma elements_fuel:
  "length s < n \<Longrightarrow> length s < n' \<Longrightarrow> parse_elements pv n acc s m = parse_elements pv n' acc s m"
proof (induction n arbitrary: n' acc s m)
  case (Suc n)
  then obtain l where l: "n' = Suc l" by (cases n') auto
  have "parse_elements pv n (acc @ [j]) (tl (buffer_skip_whitespace s1)) m2 =
      parse_elements pv l (acc @ [j]) (tl (buffer_skip_whitespace s1)) m2"
    if "pv (buffer_skip_whitespace s) m1 = (Some (j, s1), m2)" for j s1 m1 m2
    using shorter [OF that] length_skip [of s] length_skip [of s1] Suc.prems l by (intro Suc.IH) auto
  then show ?case by (auto simp: l Let_def split: prod.splits option.splits)
qed simp

lemma members_fuel:
  "length s < n \<Longrightarrow> length s < n' \<Longrightarrow> parse_members pv n acc s m = parse_members pv n' acc s m"
proof (induction n arbitrary: n' acc s m)
  case (Suc n)
  then obtain l where l: "n' = Suc l" by (cases n') auto
  have "parse_members pv n (acc @ [(name, j)]) (tl (buffer_skip_whitespace s3)) m3 =
      parse_members pv l (acc @ [(name, j)]) (tl (buffer_skip_whitespace s3)) m3"
    if "parse_string (buffer_skip_whitespace s) m1 = (Some (name, s1), m2)"
      and "pv (buffer_skip_whitespace (tl (buffer_skip_whitespace s1))) m2 = (Some (j, s3), m3)"
    for name j s1 s3 m1 m2 m3
    using shorter [OF that(2)] parse_string_result [OF that(1)] length_skip [of s] length_skip [of s1]
      length_skip [of s3] length_skip [of "tl (buffer_skip_whitespace s1)"] Suc.prems l
    by (intro Suc.IH) auto
  then show ?case by (auto simp: l Let_def split: prod.splits option.splits)
qed simp

lemma array_result:
  assumes "parse_array pv s m = (Some (j, s'), m')"
  shows "length s' < length s \<and> typed (Suc k) j"
proof (cases "starts (CHR '']'') (buffer_skip_whitespace (tl s))")
  case True
  moreover from this assms have "starts (CHR ''['') s" by (auto simp: parse_array_def split: if_splits)
  ultimately show ?thesis using assms length_skip [of "tl s"] starts_length [of "CHR ''[''" s]
    by (auto simp: parse_array_def Let_def)
next
  case False
  then have "starts (CHR ''['') s"
    and e: "parse_elements pv (length s) [] (buffer_skip_whitespace (tl s)) m = (Some (j, s'), m')"
    using assms by (auto simp: parse_array_def Let_def split: if_splits)
  then show ?thesis
    using elements_shorter [OF e] elements_typed [OF e] length_skip [of "tl s"] starts_length [of _ s] by auto
qed

lemma array_live: "parse_array pv s m = (r, m') \<Longrightarrow> live m' = live m + gained r"
  by (auto simp: parse_array_def Let_def split: if_splits dest!: elements_live)

lemma object_result:
  assumes "parse_object pv s m = (Some (j, s'), m')"
  shows "length s' < length s \<and> typed (Suc k) j"
proof (cases "starts (CHR ''}'') (buffer_skip_whitespace (tl s))")
  case True
  moreover from this assms have "starts (CHR ''{'') s" by (auto simp: parse_object_def split: if_splits)
  ultimately show ?thesis using assms length_skip [of "tl s"] starts_length [of "CHR ''{''" s]
    by (auto simp: parse_object_def Let_def)
next
  case False
  then have "starts (CHR ''{'') s"
    and e: "parse_members pv (length s) [] (buffer_skip_whitespace (tl s)) m = (Some (j, s'), m')"
    using assms by (auto simp: parse_object_def Let_def split: if_splits)
  then show ?thesis
    using members_shorter [OF e] members_typed [OF e] length_skip [of "tl s"] starts_length [of _ s] by auto
qed

lemma object_live: "parse_object pv s m = (r, m') \<Longrightarrow> live m' = live m + gained r"
  by (auto simp: parse_object_def Let_def split: if_splits dest!: members_live)

end

section \<open>Numbers and strings consume text\<close>

lemma sign_of_suffix: "sign_of s = (neg, t) \<Longrightarrow> suffix t s"
  by (cases s) (auto simp: sign_of_def suffix_Cons split: if_splits)

lemma exponent_suffix:
  assumes "strtod_exponent s = (e, t)"
  shows "suffix t s"
proof (cases s)
  case (Cons c u)
  obtain neg v where v: "sign_of u = (neg, v)" by force
  have "suffix (dropWhile dec_digit v) s"
    using sign_of_suffix [OF v] suffix_order.trans [OF suffix_dropWhile] by (auto simp: Cons suffix_Cons)
  then show ?thesis using assms Cons v by (auto simp: strtod_exponent_def Let_def split: if_splits)
qed (use assms in \<open>auto simp: strtod_exponent_def\<close>)

lemma strtod_suffix:
  assumes "strtod s = (x, t)"
  shows "suffix t s"
proof -
  obtain neg s1 where s1: "sign_of s = (neg, s1)" by force
  let ?s2 = "dropWhile dec_digit s1"
  let ?point = "?s2 \<noteq> [] \<and> hd ?s2 = CHR ''.''"
  let ?s3 = "if ?point then dropWhile dec_digit (tl ?s2) else ?s2"
  obtain e s4 where s4: "strtod_exponent ?s3 = (e, s4)" by force
  have "suffix s4 ?s3" by (rule exponent_suffix [OF s4])
  also have "suffix ?s3 ?s2" by (auto intro: suffix_order.trans [OF suffix_dropWhile suffix_tl])
  also have "suffix ?s2 s1" by (rule suffix_dropWhile)
  also have "suffix s1 s" by (rule sign_of_suffix [OF s1])
  finally show ?thesis using assms s1 s4 by (auto simp: strtod_def Let_def split: if_splits)
qed

lemma saturate_finite: "saturate (Fin x) \<noteq> None"
proof -
  have "trunc x \<le> INT_MAX" if "x \<le> of_int INT_MAX"
    using that by (auto simp: trunc_def floor_le_iff ceiling_le_iff)
  moreover have "INT_MIN \<le> trunc x" if "of_int INT_MIN \<le> x"
    using that by (auto simp: trunc_def le_floor_iff le_ceiling_iff)
  ultimately show ?thesis
    by (auto simp: saturate_def d_of_int_def Let_def)
qed

lemma parse_number_result:
  assumes "parse_number s m = (r, m')"
  shows "m' = m \<and> (\<forall>j s'. r = Some (j, s') \<longrightarrow> length s' < length s \<and> typed k j \<and> blocks j = 1)"
proof -
  let ?b = "take 63 (takeWhile number_char s)"
  obtain d t where st: "strtod ?b = (d, t)" by force
  obtain p where p: "?b = p @ t" using strtod_suffix [OF st] by (auto simp: suffix_def)
  have "length ?b \<le> length s" by (simp add: length_takeWhile_le le_trans [OF min.cobounded1] min.coboundedI2)
  then have "p \<noteq> [] \<Longrightarrow> length (drop (length ?b - length t) s) < length s" unfolding p by (cases p) auto
  moreover have "t \<noteq> ?b \<Longrightarrow> p \<noteq> []" using p by auto
  ultimately show ?thesis
    using assms st by (auto simp: parse_number_def Let_def split: if_splits option.splits)
qed

section \<open>The parser of values\<close>

lemma take_eq_Cons_pos: "take n s = c # t \<Longrightarrow> 0 < length s"
  by (cases s) auto

lemma value1_step:
  assumes "\<And>pv. inner = Some pv \<Longrightarrow> k = Suc k' \<and> value_parser pv k'"
  shows "value_parser (parse_value1 inner) k"
proof
  fix s j s' m m'
  assume *: "parse_value1 inner s m = (Some (j, s'), m')"
  have "length s' < length s \<and> typed k j"
  proof (cases inner)
    case None
    then show ?thesis using *
      by (auto simp: parse_value1_def starts_def dest: parse_number_result parse_string_result
          split: if_splits prod.splits intro!: diff_less take_eq_Cons_pos)
  next
    case (Some pv)
    then have k: "k = Suc k'" and v: "value_parser pv k'" using assms by auto
    note a = value_parser.array_result [OF v] value_parser.object_result [OF v]
    show ?thesis using * Some k
      by (auto simp: parse_value1_def starts_def dest: parse_number_result parse_string_result a
          split: if_splits prod.splits intro!: diff_less take_eq_Cons_pos)
  qed
  then show "length s' < length s" and "typed k j" by auto
next
  fix s m r m'
  assume *: "parse_value1 inner s m = (r, m')"
  note l = parse_string_live parse_number_result
  show "live m' = live m + gained r"
  proof (cases inner)
    case None
    then show ?thesis using *
      by (auto simp: parse_value1_def gained_def dest!: l split: if_splits prod.splits option.splits)
  next
    case (Some pv)
    then have v: "value_parser pv k'" using assms by auto
    note a = value_parser.array_live [OF v] value_parser.object_live [OF v]
    show ?thesis using * Some
      by (auto simp: parse_value1_def gained_def dest!: l a split: if_splits prod.splits option.splits)
  qed
qed

lemma parse_value_contract: "value_parser (parse_value k) k"
proof (induction k)
  case 0
  show ?case by (simp, rule value1_step) simp
next
  case (Suc k)
  then show ?case by (simp, intro value1_step) auto
qed

interpretation pv: value_parser "parse_value k" k for k
  by (rule parse_value_contract)

section \<open>The output of a string stays within its block\<close>

text \<open>
  The first pass counts one byte of output for every character or escape it steps over.  The
  second pass may read the text in other pieces, when the four characters of a \<open>\u\<close> hold a
  backslash; \<open>steps\<close> counts the pieces of the first pass from any character on.
\<close>

fun steps :: "string \<Rightarrow> nat" where
  "steps [] = 0"
| "steps [c] = 1"
| "steps (c # c' # s) = (if c = CHR 0x5C then Suc (steps s) else Suc (steps (c' # s)))"

lemma steps_Cons: "steps (c # s) \<le> Suc (steps s) \<and> steps s \<le> steps (c # s)"
proof (induction s arbitrary: c rule: steps.induct)
  case (3 c1 c2 s)
  then show ?case by (auto split: if_splits)
qed auto

lemma steps_plain: "c \<noteq> CHR 0x5C \<Longrightarrow> steps (c # s) = Suc (steps s)"
  by (cases s) auto

lemma steps_escape: "steps (CHR 0x5C # s) = Suc (steps (tl s))"
  by (cases s) auto

lemma steps_append: "steps s \<le> steps (p @ s)"
  by (induction p) (auto intro: le_trans steps_Cons [THEN conjunct2])

lemma steps_drop: "steps (drop n s) \<le> steps s"
  using steps_append [of "drop n s" "take n s"] by simp

lemma scan_string_steps: "scan_string s = Some (body, rest, k) \<Longrightarrow> steps body + k = length body"
proof (induction s arbitrary: body rest k rule: scan_string.induct)
  case (2 c s)
  show ?case
  proof (cases "c = CHR 0x5C")
    case True
    then show ?thesis using 2(1,3) by (cases s) auto
  next
    case False
    then show ?thesis using 2(2,3) by (auto simp: steps_plain split: if_splits)
  qed
qed simp

lemma utf8_loop_length: "utf8_loop n cp out = (cp', out') \<Longrightarrow> length out' = n + length out"
  by (induction n cp out rule: utf8_loop.induct) auto

lemma utf8_length: "utf8_encode cp = Some bs \<Longrightarrow> length bs \<le> (if cp < 0x80 then 1 else if cp < 0x10000 then 3 else 4)"
  by (auto simp: utf8_encode_def Let_def dest!: utf8_loop_length split: if_splits prod.splits)

lemma hex_not_backslash: "hex_digit c \<noteq> None \<Longrightarrow> c \<noteq> CHR 0x5C"
  by (auto simp: hex_digit_def code_def)

lemma parse_hex4_plain:
  assumes "parse_hex4 s \<noteq> 0" and "4 \<le> length s"
  shows "steps s = 4 + steps (drop 4 s)"
proof -
  obtain a b c d t where s: "s = a # b # c # d # t"
    using assms(2) by (auto simp: numeral_eq_Suc Suc_le_length_iff)
  have "hex_digit a \<noteq> None \<and> hex_digit b \<noteq> None \<and> hex_digit c \<noteq> None \<and> hex_digit d \<noteq> None"
    using assms(1) by (auto simp: s parse_hex4_def split: option.splits)
  then show ?thesis by (simp add: s steps_plain hex_not_backslash del: steps.simps)
qed

lemma literal_steps:
  assumes "utf16_literal_to_utf8 (CHR 0x5C # CHR ''u'' # t) = Some (bs, n)"
  shows "length bs + steps (drop (n - 1) (CHR ''u'' # t)) \<le> steps (CHR 0x5C # CHR ''u'' # t)"
proof -
  let ?c1 = "parse_hex4 t" and ?c2 = "parse_hex4 (drop 6 t)"
  have len: "4 \<le> length t" using assms by (auto simp: utf16_literal_to_utf8_def split: if_splits)
  consider (pair) cp where "n = 12" "0xD800 \<le> ?c1" "0xDC00 \<le> ?c2" "10 \<le> length t"
      "t ! 4 = CHR 0x5C" "t ! 5 = CHR ''u''" "utf8_encode cp = Some bs"
    | (one) "n = 6" "utf8_encode ?c1 = Some bs"
    using assms by (auto simp: utf16_literal_to_utf8_def Let_def numeral_eq_Suc split: if_splits)
  then show ?thesis
  proof cases
    case pair
    then have nz: "?c1 \<noteq> 0" "?c2 \<noteq> 0" by auto
    have "drop 4 t = t ! 4 # t ! 5 # drop 6 t"
      using pair(4) by (simp add: Cons_nth_drop_Suc [symmetric] numeral_eq_Suc)
    then have "steps (drop 4 t) = Suc (steps (drop 6 t))" using pair by (simp add: steps_escape del: steps.simps)
    moreover have "steps (drop 6 t) = 4 + steps (drop 10 t)"
      using parse_hex4_plain [OF nz(2)] pair(4) by simp
    moreover have "steps t = 4 + steps (drop 4 t)" by (rule parse_hex4_plain [OF nz(1) len])
    ultimately show ?thesis
      using utf8_length [OF pair(7)] pair(1) by (auto simp: steps_escape simp del: steps.simps split: if_splits)
  next
    case one
    show ?thesis
    proof (cases "?c1 < 0x80")
      case True
      then show ?thesis using utf8_length [OF one(2)] one(1) steps_drop [of 4 t]
        by (simp add: steps_escape del: steps.simps)
    next
      case False
      then have "?c1 \<noteq> 0" by auto
      from parse_hex4_plain [OF this len] have "steps t = 4 + steps (drop 4 t)" .
      then show ?thesis using utf8_length [OF one(2)] one(1)
        by (auto simp: steps_escape simp del: steps.simps split: if_splits)
    qed
  qed
qed

lemma unescape_steps: "unescape s = Some out \<Longrightarrow> length out \<le> steps s"
proof (induction s arbitrary: out rule: unescape.induct)
  case (1 s)
  show ?case
  proof (cases s)
    case Nil
    then show ?thesis using 1(4) by (subst (asm) unescape.simps) simp
  next
    case (Cons c t)
    show ?thesis
    proof (cases "c = CHR 0x5C")
      case False
      then obtain o' where "out = c # o'" "unescape t = Some o'"
        using 1(4) Cons by (subst (asm) unescape.simps) auto
      then show ?thesis using 1(1) [OF Cons] False by (simp add: Cons steps_plain del: steps.simps)
    next
      case True
      define e where "e = (case t of [] \<Rightarrow> CHR 0x22 | c' # _ \<Rightarrow> c')"
      show ?thesis
      proof (cases "e = CHR ''u''")
        case u: True
        then obtain t' where t: "t = CHR ''u'' # t'" by (auto simp: e_def split: list.splits)
        obtain bs n o' where lit: "utf16_literal_to_utf8 s = Some (bs, n)"
          and o': "unescape (drop (n - 1) t) = Some o'" "out = text_of bs @ o'"
          using 1(4) Cons True u unfolding e_def by (subst (asm) unescape.simps) (auto split: option.splits)
        have "length o' \<le> steps (drop (n - 1) t)"
          using 1(2) [OF Cons _ refl _ lit refl o'(1)] True u by (auto simp: e_def)
        then show ?thesis using literal_steps [of t' bs n] lit o' Cons True t
          by (simp add: text_of_def del: steps.simps)
      next
        case False
        then obtain x o' where o': "unescape (drop 1 t) = Some o'" "out = x # o'" and x: "simple_escape e = Some x"
          using 1(4) Cons True unfolding e_def by (subst (asm) unescape.simps) (auto split: option.splits)
        have "length o' \<le> steps (drop 1 t)"
          using 1(3) [OF Cons _ refl _ x [unfolded e_def] o'(1)] True False by (auto simp: e_def)
        then show ?thesis using o' Cons True by (simp add: steps_escape drop_Suc del: steps.simps)
      qed
    qed
  qed
qed

section \<open>Parsing a text\<close>

lemma ParseWithOpts_contract:
  assumes "bscJSON_ParseWithOpts v z m = (r, m')"
  shows "live m' = live m + (case r of None \<Rightarrow> 0 | Some (j, _) \<Rightarrow> int (blocks j))"
    and "r = Some (j, s) \<Longrightarrow> typed bscJSON_NESTING_LIMIT j"
proof -
  obtain ok m1 where m1: "malloc m = (ok, m1)" by force
  obtain x m2 where pv: "parse_value bscJSON_NESTING_LIMIT (buffer_skip_whitespace (skip_utf8_bom v)) m1 = (x, m2)"
    by force
  have lm: "live m1 = live m + (if ok then 1 else 0)" using live_malloc [of m] m1 by simp
  show "live m' = live m + (case r of None \<Rightarrow> 0 | Some (j, _) \<Rightarrow> int (blocks j))"
    using assms m1 pv lm pv.balanced [OF pv]
    by (auto simp: bscJSON_ParseWithOpts_def Let_def acct split: if_splits option.splits)
  show "typed bscJSON_NESTING_LIMIT j" if "r = Some (j, s)"
    using assms m1 pv pv.result that
    by (auto simp: bscJSON_ParseWithOpts_def Let_def split: if_splits option.splits)
qed

section \<open>Properties\<close>

text \<open>
  C26: \<open>bscJSON_Parse\<close> neither leaks nor frees twice and returns well-typed trees only.  Without a
  result the number of live blocks is what it was; a tree owns every block that is new, its
  numbers carry the saturated integer of their value, its texts hold no NUL, and it is nested at
  most 1000 deep.
\<close>

theorem parse_balanced_and_typed:
  assumes "bscJSON_Parse value m = (r, m')"
  shows "case r of None \<Rightarrow> live m' = live m
    | Some j \<Rightarrow> live m' = live m + int (blocks j) \<and> typed bscJSON_NESTING_LIMIT j"
proof -
  obtain x m1 where x: "bscJSON_ParseWithOpts value False m = (x, m1)" by force
  then show ?thesis using assms ParseWithOpts_contract [OF x]
    by (cases x) (auto simp: bscJSON_Parse_def)
qed

theorem parse_balanced_and_typed_witness:
  "live (snd (bscJSON_Parse ''true, no more'' \<lparr>m_ok = \<lambda>_. True, m_calls = 0, live = 5\<rparr>)) = 6"
proof -
  let ?m = "\<lparr>m_ok = \<lambda>_. True, m_calls = 0, live = 5\<rparr>"
  have "parse_value k ''true, no more'' m = (Some (BTrue, '', no more''), m)" for k m
    by (cases k) (simp_all add: parse_value1_def)
  then have "fst (bscJSON_Parse ''true, no more'' ?m) = Some BTrue"
    by (simp add: bscJSON_Parse_def bscJSON_ParseWithOpts_def malloc_def
        skip_utf8_bom_def buffer_skip_whitespace_def code_def)
  then have "bscJSON_Parse ''true, no more'' ?m = (Some BTrue, snd (bscJSON_Parse ''true, no more'' ?m))"
    by (simp add: prod_eq_iff)
  from parse_balanced_and_typed [OF this] show ?thesis by simp
qed

text \<open>
  C27: The unescaped text of a string literal fits the block \<open>parse_string\<close> allocates for it, with its
  NUL, for every literal the first pass accepts.  The second pass may split the literal otherwise
  than the first, when a backslash stands among the four characters of a \<open>\u\<close>.
\<close>

theorem string_within_block:
  assumes "scan_string t = Some (body, rest, skipped_bytes)" and "unescape body = Some output"
  shows "length output + 1 \<le> allocation_length body skipped_bytes"
  using scan_string_steps [OF assms(1)] unescape_steps [OF assms(2)] by (simp add: allocation_length_def)

theorem string_within_block_witness:
  "length [CHR 0x00, CHR 0x22] + 1 \<le> allocation_length [CHR 0x5C, CHR ''u'', CHR ''1'', CHR ''2'', CHR ''3'', CHR 0x5C, CHR 0x5C] 2"
  by (rule string_within_block [where t = "[CHR 0x5C, CHR ''u'', CHR ''1'', CHR ''2'', CHR ''3'', CHR 0x5C, CHR 0x5C, CHR 0x22]"
        and rest = "[]"]) code_simp+

text \<open>
  The parser of values ends on every text: its loops over elements and members have the same
  result with every fuel beyond the length of the text, so the fuel \<open>parse_array\<close> and
  \<open>parse_object\<close> give them, the length of a longer text, is never the reason of a failure.
\<close>

theorem parse_loops_end:
  assumes "length s < n" and "length s < n'"
  shows "parse_elements (parse_value k) n js s m = parse_elements (parse_value k) n' js s m \<and>
    parse_members (parse_value k) n ms s m = parse_members (parse_value k) n' ms s m"
  using pv.elements_fuel [OF assms] pv.members_fuel [OF assms] by simp

theorem parse_loops_end_witness:
  "\<forall>m. parse_elements (parse_value 1) 3 [] ''1]'' m = parse_elements (parse_value 1) 1000 [] ''1]'' m \<and>
    parse_members (parse_value 1) 3 [] ''1]'' m = parse_members (parse_value 1) 1000 [] ''1]'' m"
  by (intro allI, rule parse_loops_end) simp_all

end
