(* ===== verification/Bsc_Print.thy ===== *)
theory Bsc_Print
  imports Bsc_Parse
begin

text \<open>
  The printer of microkernel/src/bscJSON.c.  A \<open>printbuffer\<close> is its block, \<open>None\<close> for a null
  pointer, with \<open>pb_text\<close> the bytes written so far: those before \<open>pb_offset\<close> and the text the last
  routine left behind it.  The outcome \<open>None\<close> is a write outside a block or an array, whose effect
  is undefined; \<open>Some (b, p, m)\<close> is the returned flag with the state after.
\<close>

section \<open>The buffer\<close>

record printbuffer =
  pb_text :: "string option"
  pb_length :: nat
  pb_offset :: nat
  pb_depth :: nat
  pb_noalloc :: bool
  pb_format :: bool

type_synonym printed = "(bool \<times> printbuffer \<times> mem) option"

definition realloc :: "mem \<Rightarrow> bool \<times> mem" where
  "realloc m = (m_ok m (m_calls m), m\<lparr>m_calls := Suc (m_calls m)\<rparr>)"

definition ensure :: "printbuffer \<Rightarrow> nat \<Rightarrow> mem \<Rightarrow> bool \<times> printbuffer \<times> mem" where
  "ensure p needed0 m =
     (let needed = needed0 + pb_offset p + 1 in
      if pb_text p = None then (False, p, m)
      else if 0 < pb_length p \<and> pb_length p \<le> pb_offset p then (False, p, m)
      else if INT_MAX < int needed0 then (False, p, m)
      else if needed \<le> pb_length p then (True, p, m)
      else if pb_noalloc p then (False, p, m)
      else if INT_MAX < int needed then (False, p, m)
      else let newsize = (if INT_MAX div 2 < int needed then nat INT_MAX else needed * 2) in
        (case realloc m of (ok, m1) \<Rightarrow>
           if ok then (True, p\<lparr>pb_length := newsize\<rparr>, m1)
           else (False, p\<lparr>pb_length := 0, pb_text := None\<rparr>, free m1)))"

definition update_offset :: "printbuffer \<Rightarrow> printbuffer" where
  "update_offset p = (case pb_text p of None \<Rightarrow> p | Some t \<Rightarrow> p\<lparr>pb_offset := length t\<rparr>)"

text \<open>
  A write of the characters \<open>s\<close> at the offset, and of a NUL behind them when \<open>nul\<close> is set; the
  offset moves on by \<open>n\<close>.
\<close>

definition put :: "string \<Rightarrow> bool \<Rightarrow> nat \<Rightarrow> printbuffer \<Rightarrow> mem \<Rightarrow> printed" where
  "put s nul n p m =
     (case pb_text p of None \<Rightarrow> None
      | Some t \<Rightarrow>
        if pb_offset p + length s + (if nul then 1 else 0) \<le> pb_length p
        then Some (True, p\<lparr>pb_text := Some (take (pb_offset p) t @ s), pb_offset := pb_offset p + n\<rparr>, m)
        else None)"

text \<open>Reserve \<open>needed\<close> bytes, return false without them, and write.\<close>

definition emit :: "nat \<Rightarrow> string \<Rightarrow> bool \<Rightarrow> nat \<Rightarrow> printbuffer \<Rightarrow> mem \<Rightarrow> printed" where
  "emit needed s nul n p m =
     (case ensure p needed m of (ok, p1, m1) \<Rightarrow>
        if \<not> ok then Some (False, p1, m1) else put s nul n p1 m1)"

definition and_then :: "printed \<Rightarrow> (printbuffer \<Rightarrow> mem \<Rightarrow> printed) \<Rightarrow> printed" where
  "and_then r f = (case r of None \<Rightarrow> None
     | Some (ok, p, m) \<Rightarrow> if ok then f p m else Some (False, p, m))"

section \<open>Values\<close>

text \<open>The array \<open>number_buffer\<close> has 26 bytes; \<open>sprintf\<close> writes what it makes, and a NUL.\<close>

definition number_text :: "int \<Rightarrow> double \<Rightarrow> string" where
  "number_text i d =
     (if \<not> d_eq (d_times d (Fin 0)) (Fin 0) then ''null''
      else case (d_le (d_abs (d_minus (d_of_int i) d)) DBL_EPSILON \<and>
            d_le d (d_of_int INT_MAX) \<and> d_le (d_of_int INT_MIN) d, int_of_double d, d) of
        (True, Some n, _) \<Rightarrow> format_d n
      | (_, _, Fin x) \<Rightarrow> format_15f x
      | _ \<Rightarrow> '''')"

definition print_number :: "int \<Rightarrow> double \<Rightarrow> printbuffer \<Rightarrow> mem \<Rightarrow> printed" where
  "print_number i d p m =
     (let number_buffer = number_text i d in
      if 26 < length number_buffer + 1 then None
      else emit (length number_buffer + 1) number_buffer True (length number_buffer) p m)"

definition hex_char :: "nat \<Rightarrow> char" where
  "hex_char n = char_of (if n < 10 then 48 + n else 87 + n)"

text \<open>What a character is printed as, and the number of additional characters.\<close>

definition escape :: "char \<Rightarrow> string" where
  "escape c =
     (if 31 < code c \<and> c \<noteq> CHR 0x22 \<and> c \<noteq> CHR 0x5C then [c]
      else CHR 0x5C #
       (if c = CHR 0x5C then [CHR 0x5C] else if c = CHR 0x22 then [CHR 0x22]
        else if c = CHR 0x08 then ''b'' else if c = CHR 0x0C then ''f''
        else if c = CHR 0x0A then ''n'' else if c = CHR 0x0D then ''r''
        else if c = CHR 0x09 then ''t''
        else [CHR ''u'', CHR ''0'', CHR ''0'', hex_char (code c div 16), hex_char (code c mod 16)]))"

definition escape_characters :: "string \<Rightarrow> nat" where
  "escape_characters s = sum_list (map (\<lambda>c.
     if c \<in> {CHR 0x22, CHR 0x5C, CHR 0x08, CHR 0x0C, CHR 0x0A, CHR 0x0D, CHR 0x09} then 1
     else if code c < 32 then 5 else 0) s)"

definition print_string_ptr :: "string \<Rightarrow> printbuffer \<Rightarrow> mem \<Rightarrow> printed" where
  "print_string_ptr s p m =
     (let input = c_str s; output_length = length input + escape_characters input;
          output = (if escape_characters input = 0 then input else concat (map escape input))
      in emit (output_length + 3) (CHR 0x22 # output @ [CHR 0x22]) True 0 p m)"

definition deeper :: "printbuffer \<Rightarrow> printbuffer" where
  "deeper p = p\<lparr>pb_depth := pb_depth p + 1\<rparr>"

definition shallower :: "printbuffer \<Rightarrow> printbuffer" where
  "shallower p = p\<lparr>pb_depth := pb_depth p - 1\<rparr>"

definition tabs :: "nat \<Rightarrow> string" where
  "tabs n = replicate n (CHR 0x09)"

abbreviation fmt :: "printbuffer \<Rightarrow> string \<Rightarrow> string" where
  "fmt p s \<equiv> (if pb_format p then s else [])"

fun print_value :: "jnode \<Rightarrow> printbuffer \<Rightarrow> mem \<Rightarrow> printed"
  and print_elements :: "jnode list \<Rightarrow> printbuffer \<Rightarrow> mem \<Rightarrow> printed"
  and print_members :: "(string \<times> jnode) list \<Rightarrow> printbuffer \<Rightarrow> mem \<Rightarrow> printed" where
  "print_value BNull p m = emit 5 ''null'' True 0 p m"
| "print_value BFalse p m = emit 6 ''false'' True 0 p m"
| "print_value BTrue p m = emit 5 ''true'' True 0 p m"
| "print_value (BNumber i d) p m = print_number i d p m"
| "print_value (BRaw s) p m = emit (length (c_str s) + 1) (c_str s) True 0 p m"
| "print_value (BString s) p m = print_string_ptr s p m"
| "print_value (BArray js) p m =
     and_then (emit 1 ''['' False 1 p m) (\<lambda>p m.
     and_then (print_elements js (deeper p) m) (\<lambda>p m.
     and_then (emit 2 '']'' True 0 p m) (\<lambda>p m. Some (True, shallower p, m))))"
| "print_value (BObject ms) p m =
     (let open_text = CHR ''{'' # fmt p [CHR 0x0A] in
      and_then (emit (length open_text + 1) open_text False (length open_text) p m) (\<lambda>p m.
      and_then (print_members ms (deeper p) m) (\<lambda>p m.
      and_then (emit (if pb_format p then pb_depth p + 1 else 2)
         (fmt p (tabs (pb_depth p - 1)) @ ''}'') True 0 p m) (\<lambda>p m.
      Some (True, shallower p, m)))))"
| "print_elements [] p m = Some (True, p, m)"
| "print_elements (j # js) p m =
     and_then (print_value j p m) (\<lambda>p m.
     let p = update_offset p; sep = CHR '','' # fmt p '' '' in
     if js = [] then Some (True, p, m)
     else and_then (emit (length sep + 1) sep True (length sep) p m) (print_elements js))"
| "print_members [] p m = Some (True, p, m)"
| "print_members ((name, j) # ms) p m =
     and_then (if pb_format p then emit (pb_depth p) (tabs (pb_depth p)) False (pb_depth p) p m
               else Some (True, p, m)) (\<lambda>p m.
     and_then (print_string_ptr name p m) (\<lambda>p m.
     let p = update_offset p; colon = CHR '':'' # fmt p [CHR 0x09] in
     and_then (emit (length colon) colon False (length colon) p m) (\<lambda>p m.
     and_then (print_value j p m) (\<lambda>p m.
     let p = update_offset p; sep = (if ms = [] then [] else '','') @ fmt p [CHR 0x0A] in
     and_then (emit (length sep + 1) sep True (length sep) p m) (print_members ms)))))"

section \<open>Printing\<close>

text \<open>
  The text printed, and the heap.  A failure after \<open>print_value\<close> frees the buffer unless \<open>ensure\<close>
  has done so; the last \<open>realloc\<close> cuts the block to the text.
\<close>

definition print :: "jnode \<Rightarrow> bool \<Rightarrow> mem \<Rightarrow> (string option \<times> mem) option" where
  "print item format m =
     (case malloc m of (ok, m1) \<Rightarrow>
        if \<not> ok then Some (None, m1)
        else let p = \<lparr>pb_text = Some [], pb_length = 256, pb_offset = 0, pb_depth = 0,
                      pb_noalloc = False, pb_format = format\<rparr> in
          (case print_value item p m1 of None \<Rightarrow> None
           | Some (False, p, m2) \<Rightarrow> Some (None, free_opt (pb_text p) m2)
           | Some (True, p, m2) \<Rightarrow>
             (case realloc m2 of (ok, m3) \<Rightarrow>
                if ok then Some (pb_text p, m3) else Some (None, free_opt (pb_text p) m3))))"

definition bscJSON_Print :: "jnode \<Rightarrow> mem \<Rightarrow> (string option \<times> mem) option" where
  "bscJSON_Print item m = print item True m"

definition bscJSON_PrintUnformatted :: "jnode \<Rightarrow> mem \<Rightarrow> (string option \<times> mem) option" where
  "bscJSON_PrintUnformatted item m = print item False m"

definition bscJSON_PrintBuffered :: "jnode \<Rightarrow> int \<Rightarrow> bool \<Rightarrow> mem \<Rightarrow> (string option \<times> mem) option" where
  "bscJSON_PrintBuffered item prebuffer format m =
     (if prebuffer < 0 then Some (None, m)
      else case malloc m of (ok, m1) \<Rightarrow>
        if \<not> ok then Some (None, m1)
        else (case print_value item \<lparr>pb_text = Some [], pb_length = nat prebuffer, pb_offset = 0,
                 pb_depth = 0, pb_noalloc = False, pb_format = format\<rparr> m1 of
            None \<Rightarrow> None
          | Some (ok, p, m2) \<Rightarrow> if ok then Some (pb_text p, m2) else Some (None, free_opt (pb_text p) m2)))"

definition bscJSON_PrintPreallocated :: "jnode \<Rightarrow> int \<Rightarrow> bool \<Rightarrow> mem \<Rightarrow> (bool \<times> string \<times> mem) option" where
  "bscJSON_PrintPreallocated item len format m =
     (if len < 0 then Some (False, [], m)
      else case print_value item \<lparr>pb_text = Some [], pb_length = nat len, pb_offset = 0,
             pb_depth = 0, pb_noalloc = True, pb_format = format\<rparr> m of
          None \<Rightarrow> None
        | Some (ok, p, m1) \<Rightarrow> Some (ok, (case pb_text p of None \<Rightarrow> [] | Some t \<Rightarrow> t), m1))"

section \<open>No write leaves the buffer\<close>

lemma ensure_room:
  "ensure p n m = (True, p', m') \<Longrightarrow> n + pb_offset p + 1 \<le> pb_length p' \<and> pb_text p \<noteq> None \<and>
     p' = p\<lparr>pb_length := pb_length p'\<rparr> \<and> live m' = live m"
  by (auto simp: ensure_def realloc_def Let_def INT_MAX_def split: if_splits)

lemma ensure_live:
  "ensure p n m = (ok, p', m') \<Longrightarrow> live m' - int (blk (pb_text p')) = live m - int (blk (pb_text p))"
  by (auto simp: ensure_def realloc_def free_def Let_def split: if_splits)

text \<open>No undefined outcome.\<close>

definition safe :: "printed \<Rightarrow> bool" where
  "safe r = (r \<noteq> None)"

lemma safe_Some [simp]: "safe (Some x)"
  by (simp add: safe_def)

lemma emit_safe:
  assumes "length s + (if nul then 1 else 0) \<le> n + 1"
  shows "safe (emit n s nul k p m)"
proof -
  obtain ok p1 m1 where e: "ensure p n m = (ok, p1, m1)" by (cases "ensure p n m") auto
  show ?thesis
  proof (cases ok)
    case True
    with e have r: "n + pb_offset p + 1 \<le> pb_length p1" "pb_text p \<noteq> None"
      and p1: "p1 = p\<lparr>pb_length := pb_length p1\<rparr>" using ensure_room [of p n m p1 m1] by auto
    have "pb_text p1 = pb_text p" "pb_offset p1 = pb_offset p" by (subst p1, simp)+
    then show ?thesis using r assms True e by (auto simp: emit_def put_def safe_def)
  qed (simp add: emit_def e)
qed

lemma and_then_safe: "safe r \<Longrightarrow> (\<And>p m. safe (f p m)) \<Longrightarrow> safe (and_then r f)"
  by (auto simp: and_then_def safe_def split: option.splits prod.splits)

text \<open>The numbers of a tree that do not overrun \<open>number_buffer\<close>.\<close>

fun fits :: "jnode \<Rightarrow> bool" where
  "fits (BNumber i d) = (length (number_text i d) \<le> 25)"
| "fits (BArray js) = list_all fits js"
| "fits (BObject ms) = list_all (\<lambda>(name, j). fits j) ms"
| "fits _ = True"

lemma length_escape:
  "length (escape c) = 1 + (if c \<in> {CHR 0x22, CHR 0x5C, CHR 0x08, CHR 0x0C, CHR 0x0A, CHR 0x0D, CHR 0x09} then 1
     else if code c < 32 then 5 else 0)"
  by (auto simp: escape_def code_def)

lemma length_escapes: "length (concat (map escape s)) = length s + escape_characters s"
  by (induction s) (simp_all add: escape_characters_def length_escape)

lemma print_string_safe: "safe (print_string_ptr s p m)"
  unfolding print_string_ptr_def Let_def by (rule emit_safe) (simp add: length_escapes)

lemma length_tabs [simp]: "length (tabs n) = n"
  by (simp add: tabs_def)

lemma print_number_safe: "length (number_text i d) \<le> 25 \<Longrightarrow> safe (print_number i d p m)"
  by (auto simp: print_number_def Let_def intro: emit_safe)

lemma print_safe:
  "fits j \<Longrightarrow> safe (print_value j p m)"
  "list_all fits js \<Longrightarrow> safe (print_elements js p m)"
  "list_all (\<lambda>(name, j). fits j) ms \<Longrightarrow> safe (print_members ms p m)"
  by (induction j p m and js p m and ms p m rule: print_value_print_elements_print_members.induct)
    (simp_all add: Let_def print_number_safe print_string_safe and_then_safe emit_safe)

section \<open>The text and the heap\<close>

text \<open>The text of a tree at a nesting depth, with or without the layout of the formatted print.\<close>

definition quoted :: "string \<Rightarrow> string" where
  "quoted s = CHR 0x22 # concat (map escape (c_str s)) @ [CHR 0x22]"

abbreviation lay :: "bool \<Rightarrow> string \<Rightarrow> string" where
  "lay f s \<equiv> (if f then s else [])"

fun json_text :: "bool \<Rightarrow> nat \<Rightarrow> jnode \<Rightarrow> string"
  and elements_text :: "bool \<Rightarrow> nat \<Rightarrow> jnode list \<Rightarrow> string"
  and members_text :: "bool \<Rightarrow> nat \<Rightarrow> (string \<times> jnode) list \<Rightarrow> string" where
  "json_text f n BNull = ''null''"
| "json_text f n BFalse = ''false''"
| "json_text f n BTrue = ''true''"
| "json_text f n (BNumber i d) = number_text i d"
| "json_text f n (BString s) = quoted s"
| "json_text f n (BRaw s) = c_str s"
| "json_text f n (BArray js) = ''['' @ elements_text f (n + 1) js @ '']''"
| "json_text f n (BObject ms) = CHR ''{'' # lay f [CHR 0x0A] @ members_text f (n + 1) ms @ lay f (tabs n) @ ''}''"
| "elements_text f n [] = []"
| "elements_text f n (j # js) =
     json_text f n j @ (if js = [] then [] else CHR '','' # lay f '' '' @ elements_text f n js)"
| "members_text f n [] = []"
| "members_text f n ((name, j) # ms) =
     lay f (tabs n) @ quoted name @ CHR '':'' # lay f [CHR 0x09] @ json_text f n j @
     (if ms = [] then [] else '','') @ lay f [CHR 0x0A] @ members_text f n ms"

text \<open>
  \<open>p'\<close> is \<open>p\<close> after \<open>s\<close> has been written at its offset, the offset left somewhere up to its end;
  \<open>moved\<close> the same with the offset at the end.
\<close>

definition wrote :: "string \<Rightarrow> printbuffer \<Rightarrow> printbuffer \<Rightarrow> bool" where
  "wrote s p p' \<longleftrightarrow> (\<exists>t. pb_text p = Some t \<and> pb_text p' = Some (take (pb_offset p) t @ s)) \<and>
     pb_depth p' = pb_depth p \<and> pb_format p' = pb_format p"

definition moved :: "string \<Rightarrow> printbuffer \<Rightarrow> printbuffer \<Rightarrow> bool" where
  "moved s p p' \<longleftrightarrow> wrote s p p' \<and> (\<forall>t. pb_text p' = Some t \<longrightarrow> pb_offset p' = length t)"

lemma wrote_update: "wrote s p p' \<Longrightarrow> moved s p (update_offset p')"
  by (auto simp: moved_def wrote_def update_offset_def)

lemma moved_wrote:
  assumes "moved s p p1" and "wrote t p1 p2"
  shows "wrote (s @ t) p p2"
proof -
  obtain u where u: "pb_text p = Some u" "pb_text p1 = Some (take (pb_offset p) u @ s)"
    and "pb_offset p1 = length (take (pb_offset p) u @ s)"
    using assms(1) by (auto simp: moved_def wrote_def)
  with assms(2) have "pb_text p2 = Some (take (length (take (pb_offset p) u @ s)) (take (pb_offset p) u @ s) @ t)"
    by (auto simp: wrote_def)
  also have "\<dots> = Some (take (pb_offset p) u @ s @ t)" by (simp only: take_all order_refl append_assoc)
  finally show ?thesis using assms u by (auto simp: wrote_def moved_def)
qed

lemma moved_moved: "moved s p p1 \<Longrightarrow> moved t p1 p2 \<Longrightarrow> moved (s @ t) p p2"
  using moved_wrote by (auto simp: moved_def)

lemma wrote_deeper: "wrote s (deeper p) p' \<Longrightarrow> wrote s p (shallower p')"
  by (auto simp: wrote_def deeper_def shallower_def)

lemma moved_deeper: "moved s (deeper p) p' \<Longrightarrow> moved s p (shallower p')"
  by (auto simp: moved_def dest: wrote_deeper) (auto simp: shallower_def)

lemma wrote_shallower: "wrote s p p' \<Longrightarrow> wrote s (shallower p) (shallower p')"
  by (auto simp: wrote_def shallower_def)

lemma wrote_layout: "wrote s p p' \<Longrightarrow> pb_depth p' = pb_depth p \<and> pb_format p' = pb_format p"
  by (simp add: wrote_def)

lemma moved_layout: "moved s p p' \<Longrightarrow> pb_depth p' = pb_depth p \<and> pb_format p' = pb_format p"
  by (simp add: moved_def wrote_def)

text \<open>The offset lies in the text, or at its end.\<close>

definition inb :: "printbuffer \<Rightarrow> bool" where
  "inb p = (\<forall>t. pb_text p = Some t \<longrightarrow> pb_offset p \<le> length t)"

definition at_end :: "printbuffer \<Rightarrow> bool" where
  "at_end p = (\<exists>t. pb_text p = Some t \<and> pb_offset p = length t)"

lemma at_end_inb: "at_end p \<Longrightarrow> inb p"
  by (auto simp: at_end_def inb_def)

lemma moved_at_end: "moved s p p' \<Longrightarrow> at_end p'"
  by (auto simp: moved_def wrote_def at_end_def)

lemma at_end_moved: "at_end p \<Longrightarrow> moved [] p p"
  by (auto simp: at_end_def moved_def wrote_def)

lemma deeper_simps [simp]:
  "at_end (deeper p) = at_end p" "pb_depth (deeper p) = pb_depth p + 1" "pb_format (deeper p) = pb_format p"
  "pb_offset (deeper p) = pb_offset p" "pb_text (deeper p) = pb_text p"
  by (simp_all add: at_end_def deeper_def)

lemma shallower_simps [simp]: "pb_offset (shallower p) = pb_offset p" "pb_text (shallower p) = pb_text p"
  by (simp_all add: shallower_def)

lemma emit_Some:
  assumes "emit n s nul k p m = Some (ok, p', m')"
  shows "live m' - int (blk (pb_text p')) = live m - int (blk (pb_text p))"
    and "ok \<Longrightarrow> inb p \<Longrightarrow>
      wrote s p p' \<and> (k = length s \<longrightarrow> moved s p p')"
proof -
  obtain b p1 m1 where e: "ensure p n m = (b, p1, m1)" by (cases "ensure p n m") auto
  have "live m' - int (blk (pb_text p')) = live m1 - int (blk (pb_text p1))"
    using assms e by (auto simp: emit_def put_def split: if_splits option.splits)
  then show "live m' - int (blk (pb_text p')) = live m - int (blk (pb_text p))"
    using ensure_live [OF e] by simp
  assume "ok" and le: "inb p"
  then have "b" using assms e by (auto simp: emit_def split: if_splits)
  with e have "pb_text p \<noteq> None" and p1: "p1 = p\<lparr>pb_length := pb_length p1\<rparr>"
    using ensure_room [of p n m p1 m1] by auto
  moreover have "pb_text p1 = pb_text p" "pb_offset p1 = pb_offset p" "pb_depth p1 = pb_depth p"
    "pb_format p1 = pb_format p" by (subst p1, simp)+
  ultimately show "wrote s p p' \<and> (k = length s \<longrightarrow> moved s p p')"
    using assms e \<open>b\<close> le by (auto simp: emit_def put_def wrote_def moved_def inb_def split: if_splits option.splits)
qed

lemma and_then_Some:
  "and_then r f = Some (True, p', m') \<longleftrightarrow> (\<exists>p m. r = Some (True, p, m) \<and> f p m = Some (True, p', m'))"
  by (auto simp: and_then_def split: option.splits prod.splits)

lemmas emit_wrote = emit_Some(2) [THEN conjunct1, OF _ TrueI]

lemma emit_moved: "emit n s nul k p m = Some (True, p', m') \<Longrightarrow> inb p \<Longrightarrow> k = length s \<Longrightarrow> moved s p p'"
  using emit_Some(2) by blast

lemma no_escapes: "escape_characters s = 0 \<Longrightarrow> concat (map escape s) = s"
proof (induction s)
  case (Cons c s)
  then have "escape_characters s = 0" and "length (escape c) = 1"
    by (auto simp: escape_characters_def length_escape split: if_splits)
  then show ?case using Cons.IH by (auto simp: escape_def split: if_splits)
qed simp

lemma print_string_wrote:
  "print_string_ptr s p m = Some (True, p', m') \<Longrightarrow> inb p \<Longrightarrow> wrote (quoted s) p p'"
  using no_escapes [of "c_str s"]
  by (auto simp: print_string_ptr_def Let_def quoted_def dest!: emit_wrote split: if_splits)

lemma print_number_wrote:
  "print_number i d p m = Some (True, p', m') \<Longrightarrow> inb p \<Longrightarrow> wrote (number_text i d) p p'"
  by (auto simp: print_number_def Let_def dest!: emit_wrote split: if_splits)

lemma print_text:
  "print_value j p m = Some (True, p', m') \<Longrightarrow> inb p \<Longrightarrow>
     wrote (json_text (pb_format p) (pb_depth p) j) p p'"
  "print_elements js p m = Some (True, p', m') \<Longrightarrow> at_end p \<Longrightarrow>
     moved (elements_text (pb_format p) (pb_depth p) js) p p'"
  "print_members ms p m = Some (True, p', m') \<Longrightarrow> at_end p \<Longrightarrow>
     moved (members_text (pb_format p) (pb_depth p) ms) p p'"
proof (induction j p m and js p m and ms p m arbitrary: p' m' and p' m' and p' m'
    rule: print_value_print_elements_print_members.induct)
  case (7 js p m)
  then obtain p1 m1 p2 m2 p3 where 1: "emit 1 ''['' False 1 p m = Some (True, p1, m1)"
    and 2: "print_elements js (deeper p1) m1 = Some (True, p2, m2)"
    and 3: "emit 2 '']'' True 0 p2 m2 = Some (True, p3, m')" "p' = shallower p3"
    by (auto simp: and_then_Some)
  have a: "moved ''['' p p1" using emit_moved [OF 1 7(3)] by simp
  have b: "moved (elements_text (pb_format p1) (pb_depth p1 + 1) js) (deeper p1) p2"
    using 7(1) [OF 2] moved_at_end [OF a] by simp
  have c: "wrote '']'' p2 p3" using emit_wrote [OF 3(1)] at_end_inb [OF moved_at_end [OF b]] by simp
  show ?case
    using moved_wrote [OF a moved_wrote [OF moved_deeper [OF b] wrote_shallower [OF c]]] moved_layout [OF a] 3(2)
    by simp
next
  case (8 ms p m)
  let ?o = "CHR ''{'' # fmt p [CHR 0x0A]"
  obtain p1 m1 p2 m2 p3 where 1: "emit (length ?o + 1) ?o False (length ?o) p m = Some (True, p1, m1)"
    and 2: "print_members ms (deeper p1) m1 = Some (True, p2, m2)"
    and 3: "emit (if pb_format p2 then pb_depth p2 + 1 else 2)
       (fmt p2 (tabs (pb_depth p2 - 1)) @ ''}'') True 0 p2 m2 = Some (True, p3, m')" "p' = shallower p3"
    using 8(2) by (auto simp: and_then_Some Let_def)
  have a: "moved ?o p p1" using emit_moved [OF 1 8(3)] by simp
  have b: "moved (members_text (pb_format p1) (pb_depth p1 + 1) ms) (deeper p1) p2"
    using 8(1) [OF refl 2] moved_at_end [OF a] by simp
  have c: "wrote (fmt p2 (tabs (pb_depth p2 - 1)) @ ''}'') p2 p3"
    using emit_wrote [OF 3(1)] at_end_inb [OF moved_at_end [OF b]] by simp
  have "pb_depth p2 = pb_depth p + 1 \<and> pb_format p2 = pb_format p"
    using moved_layout [OF b] moved_layout [OF a] by simp
  then show ?case
    using moved_wrote [OF a moved_wrote [OF moved_deeper [OF b] wrote_shallower [OF c]]] moved_layout [OF a] 3(2)
    by (cases "pb_format p") simp_all
next
  case (10 j js p m)
  then obtain p1 m1 where 1: "print_value j p m = Some (True, p1, m1)" by (auto simp: and_then_Some)
  let ?u = "update_offset p1" and ?sep = "CHR '','' # fmt (update_offset p1) '' ''"
  have a: "moved (json_text (pb_format p) (pb_depth p) j) p ?u"
    using 10(1) [OF 1] 10(4) by (auto intro: wrote_update at_end_inb)
  show ?case
  proof (cases "js = []")
    case True
    then show ?thesis using 10(3) 1 a by (simp add: and_then_def Let_def)
  next
    case False
    then obtain p2 m2 where 2: "emit (length ?sep + 1) ?sep True (length ?sep) ?u m1 = Some (True, p2, m2)"
      and 3: "print_elements js p2 m2 = Some (True, p', m')"
      using 10(3) 1 by (auto simp: and_then_Some Let_def)
    have b: "moved ?sep ?u p2" using emit_moved [OF 2 at_end_inb [OF moved_at_end [OF a]]] by simp
    have c: "moved (elements_text (pb_format p2) (pb_depth p2) js) p2 p'"
      using 10(2) [OF refl refl False 3] moved_at_end [OF b] by simp
    show ?thesis
      using moved_moved [OF a moved_moved [OF b c]] moved_layout [OF a] moved_layout [OF b] False by simp
  qed
next
  case (12 name j ms p m)
  obtain p0 m0 where 0: "(if pb_format p then emit (pb_depth p) (tabs (pb_depth p)) False (pb_depth p) p m
        else Some (True, p, m)) = Some (True, p0, m0)"
    using 12(3) by (auto simp: and_then_Some)
  have a0: "moved (fmt p (tabs (pb_depth p))) p p0"
    using 0 12(4) by (auto intro: emit_moved at_end_inb at_end_moved split: if_splits)
  obtain p1 m1 where 1: "print_string_ptr name p0 m0 = Some (True, p1, m1)"
    using 12(3) 0 by (auto simp: and_then_Some)
  let ?u = "update_offset p1" and ?colon = "CHR '':'' # fmt (update_offset p1) [CHR 0x09]"
  have a1: "moved (quoted name) p0 ?u"
    using print_string_wrote [OF 1 at_end_inb [OF moved_at_end [OF a0]]] by (rule wrote_update)
  obtain p2 m2 where 2: "emit (length ?colon) ?colon False (length ?colon) ?u m1 = Some (True, p2, m2)"
    using 12(3) 0 1 by (auto simp: and_then_Some Let_def)
  have a2: "moved ?colon ?u p2" using emit_moved [OF 2 at_end_inb [OF moved_at_end [OF a1]]] by simp
  obtain p3 m3 where 3: "print_value j p2 m2 = Some (True, p3, m3)"
    using 12(3) 0 1 2 by (auto simp: and_then_Some Let_def)
  have a3: "moved (json_text (pb_format p2) (pb_depth p2) j) p2 (update_offset p3)"
    using 12(1) [OF refl refl 3] moved_at_end [OF a2] by (auto intro: wrote_update at_end_inb)
  let ?v = "update_offset p3"
  let ?sep = "(if ms = [] then [] else '','') @ fmt ?v [CHR 0x0A]"
  obtain p4 m4 where 4: "emit (length ?sep + 1) ?sep True (length ?sep) ?v m3 = Some (True, p4, m4)"
    and 5: "print_members ms p4 m4 = Some (True, p', m')"
    using 12(3) 0 1 2 3 by (auto simp: and_then_Some Let_def)
  have a4: "moved ?sep ?v p4" using emit_moved [OF 4 at_end_inb [OF moved_at_end [OF a3]]] by simp
  have a5: "moved (members_text (pb_format p4) (pb_depth p4) ms) p4 p'"
    using 12(2) [OF refl refl refl refl 5] moved_at_end [OF a4] by simp
  show ?case
    using moved_moved [OF a0 moved_moved [OF a1 moved_moved [OF a2 moved_moved [OF a3 moved_moved [OF a4 a5]]]]]
      moved_layout [OF a0] moved_layout [OF a1] moved_layout [OF a2] moved_layout [OF a3] moved_layout [OF a4]
    by simp
qed (auto simp: at_end_moved intro: emit_wrote print_number_wrote print_string_wrote)

text \<open>The buffer is the only block the routines of the printer give up.\<close>

definition keeps :: "printed \<Rightarrow> printbuffer \<Rightarrow> mem \<Rightarrow> bool" where
  "keeps r p m = (\<forall>ok p' m'. r = Some (ok, p', m') \<longrightarrow>
     live m' - int (blk (pb_text p')) = live m - int (blk (pb_text p)))"

lemma keeps_and_then: "keeps r p m \<Longrightarrow> (\<And>p' m'. keeps (f p' m') p' m') \<Longrightarrow> keeps (and_then r f) p m"
proof -
  assume r: "keeps r p m" and f: "\<And>p' m'. keeps (f p' m') p' m'"
  show ?thesis
  proof (cases r)
    case (Some x)
    obtain ok p1 m1 where x: "x = (ok, p1, m1)" by (cases x) auto
    from r Some x have "live m1 - int (blk (pb_text p1)) = live m - int (blk (pb_text p))"
      by (simp add: keeps_def)
    with f [of p1 m1] show ?thesis by (cases ok) (simp_all add: and_then_def Some x keeps_def)
  qed (simp add: and_then_def keeps_def)
qed

lemma keeps_emit: "keeps (emit n s nul k p m) p m"
  by (auto simp: keeps_def dest: emit_Some(1))

lemma keeps_update: "keeps r (update_offset p) m \<longleftrightarrow> keeps r p m"
  by (simp add: keeps_def update_offset_def split: option.split)

lemma keeps_deeper: "keeps r (deeper p) m \<longleftrightarrow> keeps r p m"
  by (simp add: keeps_def)

lemma keeps_same: "pb_text p' = pb_text p \<Longrightarrow> keeps (Some (ok, p', m)) p m"
  by (simp add: keeps_def)

lemma keeps_leaf: "keeps (print_number i d p m) p m" "keeps (print_string_ptr s p m) p m"
  by (auto simp: print_number_def print_string_ptr_def Let_def keeps_emit) (simp add: keeps_def)

lemma print_keeps:
  "keeps (print_value j p m) p m"
  "keeps (print_elements js p m) p m"
  "keeps (print_members ms p m) p m"
proof (induction j p m and js p m and ms p m rule: print_value_print_elements_print_members.induct)
  case (7 js p m)
  then show ?case by (auto intro!: keeps_and_then keeps_emit keeps_same simp: keeps_deeper)
next
  case (8 ms p m)
  then show ?case by (auto intro!: keeps_and_then keeps_emit keeps_same simp: keeps_deeper Let_def)
next
  case (10 j js p m)
  have "keeps (let p = update_offset p1; sep = CHR '','' # fmt p '' '' in
     if js = [] then Some (True, p, m1)
     else and_then (emit (length sep + 1) sep True (length sep) p m1) (print_elements js)) p1 m1" for p1 m1
    using 10(2) by (subst keeps_update [symmetric]) (simp add: Let_def keeps_and_then keeps_emit keeps_same)
  then show ?case using 10(1) by (simp add: keeps_and_then)
next
  case (12 name j ms p m)
  have v: "keeps (let p = update_offset p1; sep = (if ms = [] then [] else '','') @ fmt p [CHR 0x0A] in
     and_then (emit (length sep + 1) sep True (length sep) p m1) (print_members ms)) p1 m1" for p1 m1
    using 12(2) by (subst keeps_update [symmetric]) (simp add: Let_def keeps_and_then keeps_emit)
  have "keeps (let p = update_offset p1; colon = CHR '':'' # fmt p [CHR 0x09] in
     and_then (emit (length colon) colon False (length colon) p m1) (\<lambda>p m.
     and_then (print_value j p m) (\<lambda>p m.
     let p = update_offset p; sep = (if ms = [] then [] else '','') @ fmt p [CHR 0x0A] in
     and_then (emit (length sep + 1) sep True (length sep) p m) (print_members ms)))) p1 m1" for p1 m1
    using 12(1) v by (subst keeps_update [symmetric]) (simp add: Let_def keeps_and_then keeps_emit)
  then show ?case by (simp add: keeps_and_then keeps_leaf keeps_emit keeps_same)
qed (auto simp: keeps_emit keeps_leaf keeps_same)

section \<open>Printing succeeds\<close>

text \<open>While memory lasts, a buffer that may grow takes every text of less than \<open>INT_MAX\<close> bytes.\<close>

definition capable :: "printbuffer \<Rightarrow> mem \<Rightarrow> bool" where
  "capable p m = (inb p \<and> (\<exists>t. pb_text p = Some t \<and> length t < pb_length p) \<and> \<not> pb_noalloc p \<and>
     (\<forall>n. m_ok m n))"

definition prints :: "printed \<Rightarrow> bool" where
  "prints r = (\<exists>p m. r = Some (True, p, m) \<and> capable p m)"

lemma capable_update: "capable p m \<Longrightarrow> capable (update_offset p) m"
  by (auto simp: capable_def update_offset_def inb_def)

lemma capable_depth: "capable p m \<Longrightarrow> capable (deeper p) m" "capable p m \<Longrightarrow> capable (shallower p) m"
  by (auto simp: capable_def deeper_def shallower_def inb_def)

lemma moved_offset:
  assumes "moved s p p'" and "capable p m"
  shows "pb_offset p' = pb_offset p + length s"
  using assms by (auto simp: moved_def wrote_def capable_def inb_def)

lemma emit_prints:
  assumes c: "capable p m" and l: "length s + (if nul then 1 else 0) \<le> n + 1" "length s \<le> n" "k \<le> length s"
    and i: "int (pb_offset p + n) < INT_MAX"
  shows "prints (emit n s nul k p m)"
proof -
  obtain ok p1 m1 where e: "ensure p n m = (ok, p1, m1)" by (cases "ensure p n m") auto
  have ok: "ok \<and> (\<forall>n. m_ok m1 n)"
    using e c i by (auto simp: ensure_def capable_def inb_def realloc_def Let_def split: if_splits)
  with e have r: "n + pb_offset p + 1 \<le> pb_length p1" and p1: "p1 = p\<lparr>pb_length := pb_length p1\<rparr>"
    using ensure_room [of p n m p1 m1] by auto
  have same: "pb_text p1 = pb_text p" "pb_offset p1 = pb_offset p" "pb_noalloc p1 = pb_noalloc p"
    by (subst p1, simp)+
  show ?thesis
    using c r l ok e by (auto simp: prints_def emit_def put_def same capable_def inb_def)
qed

lemma prints_and_then:
  assumes "prints r" and "\<And>p m. r = Some (True, p, m) \<Longrightarrow> capable p m \<Longrightarrow> prints (f p m)"
  shows "prints (and_then r f)"
  using assms by (auto simp: prints_def and_then_def)

lemma prints_Some: "capable p m \<Longrightarrow> prints (Some (True, p, m))"
  by (simp add: prints_def)

lemma string_prints:
  assumes "capable p m" and "int (pb_offset p + length (quoted s)) + 1 < INT_MAX"
  shows "prints (print_string_ptr s p m)"
  unfolding print_string_ptr_def Let_def using assms
  by (intro emit_prints) (auto simp: quoted_def length_escapes)

lemma number_prints:
  assumes "capable p m" and "length (number_text i d) \<le> 25"
    and "int (pb_offset p + length (number_text i d)) + 1 < INT_MAX"
  shows "prints (print_number i d p m)"
  using assms by (auto simp: print_number_def Let_def intro!: emit_prints)

lemma capable_inb: "capable p m \<Longrightarrow> inb p"
  by (simp add: capable_def)

lemma print_prints:
  "fits j \<Longrightarrow> capable p m \<Longrightarrow>
     int (pb_offset p + length (json_text (pb_format p) (pb_depth p) j)) + 2 < INT_MAX \<Longrightarrow>
     prints (print_value j p m)"
  "list_all fits js \<Longrightarrow> capable p m \<Longrightarrow> at_end p \<Longrightarrow>
     int (pb_offset p + length (elements_text (pb_format p) (pb_depth p) js)) + 2 < INT_MAX \<Longrightarrow>
     prints (print_elements js p m)"
  "list_all (\<lambda>(name, j). fits j) ms \<Longrightarrow> capable p m \<Longrightarrow> at_end p \<Longrightarrow>
     int (pb_offset p + length (members_text (pb_format p) (pb_depth p) ms)) + 2 < INT_MAX \<Longrightarrow>
     prints (print_members ms p m)"
proof (induction j p m and js p m and ms p m rule: print_value_print_elements_print_members.induct)
  case (4 i d p m)
  then show ?case by (simp add: number_prints)
next
  case (6 s p m)
  then show ?case by (simp add: string_prints)
next
  case (7 js p m)
  show ?case unfolding print_value.simps
  proof (intro prints_and_then)
    show "prints (emit 1 ''['' False 1 p m)" using 7 by (intro emit_prints) auto
  next
    fix p1 m1 assume 1: "emit 1 ''['' False 1 p m = Some (True, p1, m1)" and c1: "capable p1 m1"
    have a: "moved ''['' p p1" using emit_moved [OF 1 capable_inb [OF 7(3)]] by simp
    note l1 = moved_layout [OF a] moved_offset [OF a 7(3)]
    show "prints (print_elements js (deeper p1) m1)"
      using 7(2,4) l1 moved_at_end [OF a] by (intro 7(1) capable_depth c1) auto
    fix p2 m2 assume 2: "print_elements js (deeper p1) m1 = Some (True, p2, m2)" and c2: "capable p2 m2"
    have b: "moved (elements_text (pb_format p1) (pb_depth p1 + 1) js) (deeper p1) p2"
      using print_text(2) [OF 2] moved_at_end [OF a] by simp
    show "prints (emit 2 '']'' True 0 p2 m2)"
      using 7(4) l1 moved_offset [OF b capable_depth(1) [OF c1]] by (intro emit_prints c2) auto
  next
    fix p3 m3 assume "capable p3 m3"
    then show "prints (Some (True, shallower p3, m3))" by (auto simp: prints_def capable_depth)
  qed
next
  case (8 ms p m)
  let ?o = "CHR ''{'' # fmt p [CHR 0x0A]"
  show ?case unfolding print_value.simps Let_def
  proof (intro prints_and_then)
    show "prints (emit (length ?o + 1) ?o False (length ?o) p m)" using 8(3,4) by (intro emit_prints) auto
  next
    fix p1 m1 assume 1: "emit (length ?o + 1) ?o False (length ?o) p m = Some (True, p1, m1)"
      and c1: "capable p1 m1"
    have a: "moved ?o p p1" using emit_moved [OF 1 capable_inb [OF 8(3)]] by simp
    note l1 = moved_layout [OF a] moved_offset [OF a 8(3)]
    show "prints (print_members ms (deeper p1) m1)"
      using 8(2,4) l1 moved_at_end [OF a] by (intro 8(1) [OF refl] capable_depth c1) (auto split: if_splits)
    fix p2 m2 assume 2: "print_members ms (deeper p1) m1 = Some (True, p2, m2)" and c2: "capable p2 m2"
    have b: "moved (members_text (pb_format p1) (pb_depth p1 + 1) ms) (deeper p1) p2"
      using print_text(3) [OF 2] moved_at_end [OF a] by simp
    show "prints (emit (if pb_format p2 then pb_depth p2 + 1 else 2)
        (fmt p2 (tabs (pb_depth p2 - 1)) @ ''}'') True 0 p2 m2)"
      using 8(4) l1 moved_layout [OF b] moved_offset [OF b capable_depth(1) [OF c1]]
      by (intro emit_prints c2) (auto split: if_splits)
  next
    fix p3 m3 assume "capable p3 m3"
    then show "prints (Some (True, shallower p3, m3))" by (auto simp: prints_def capable_depth)
  qed
next
  case (10 j js p m)
  show ?case unfolding print_elements.simps
  proof (rule prints_and_then)
    show "prints (print_value j p m)" using 10 by (intro 10(1)) (auto split: if_splits)
  next
    fix p1 m1 assume 1: "print_value j p m = Some (True, p1, m1)" and c1: "capable p1 m1"
    let ?u = "update_offset p1" and ?sep = "CHR '','' # fmt (update_offset p1) '' ''"
    have a: "moved (json_text (pb_format p) (pb_depth p) j) p ?u"
      using print_text(1) [OF 1] capable_inb [OF 10(4)] by (auto intro: wrote_update)
    note cu = capable_update [OF c1] and l1 = moved_layout [OF a] moved_offset [OF a 10(4)]
    have "prints (and_then (emit (length ?sep + 1) ?sep True (length ?sep) ?u m1) (print_elements js))"
      if ne: "js \<noteq> []"
    proof (rule prints_and_then)
      show "prints (emit (length ?sep + 1) ?sep True (length ?sep) ?u m1)"
        using 10(6) ne l1 by (intro emit_prints cu) (auto split: if_splits)
      fix p2 m2 assume 2: "emit (length ?sep + 1) ?sep True (length ?sep) ?u m1 = Some (True, p2, m2)"
        and c2: "capable p2 m2"
      have b: "moved ?sep ?u p2" using emit_moved [OF 2 capable_inb [OF cu]] by simp
      show "prints (print_elements js p2 m2)"
        using 10(3,6) ne l1 moved_layout [OF b] moved_offset [OF b cu] moved_at_end [OF b]
        by (intro 10(2) [OF refl refl ne] c2) (auto split: if_splits)
    qed
    then show "prints (let p = update_offset p1; sep = CHR '','' # fmt p '' ''
        in if js = [] then Some (True, p, m1)
           else and_then (emit (length sep + 1) sep True (length sep) p m1) (print_elements js))"
      using cu by (auto simp: Let_def prints_def)
  qed
next
  case (12 name j ms p m)
  note bound = 12(6) and c = 12(4)
  show ?case unfolding print_members.simps
  proof (rule prints_and_then)
    show "prints (if pb_format p then emit (pb_depth p) (tabs (pb_depth p)) False (pb_depth p) p m
        else Some (True, p, m))"
      using bound c by (auto intro!: emit_prints) (auto simp: prints_def)
  next
    fix p0 m0 assume 0: "(if pb_format p then emit (pb_depth p) (tabs (pb_depth p)) False (pb_depth p) p m
        else Some (True, p, m)) = Some (True, p0, m0)" and c0: "capable p0 m0"
    have a0: "moved (fmt p (tabs (pb_depth p))) p p0"
      using 0 12(5) by (auto intro: emit_moved at_end_inb at_end_moved split: if_splits)
    note l0 = moved_layout [OF a0] moved_offset [OF a0 c]
    show "prints (and_then (print_string_ptr name p0 m0) (\<lambda>p m.
       let p = update_offset p; colon = CHR '':'' # fmt p [CHR 0x09] in
       and_then (emit (length colon) colon False (length colon) p m) (\<lambda>p m.
       and_then (print_value j p m) (\<lambda>p m.
       let p = update_offset p; sep = (if ms = [] then [] else '','') @ fmt p [CHR 0x0A] in
       and_then (emit (length sep + 1) sep True (length sep) p m) (print_members ms)))))"
    proof (rule prints_and_then)
      show "prints (print_string_ptr name p0 m0)"
        using bound l0 by (intro string_prints c0) auto
    next
      fix p1 m1 assume 1: "print_string_ptr name p0 m0 = Some (True, p1, m1)" and c1: "capable p1 m1"
      let ?u = "update_offset p1" and ?colon = "CHR '':'' # fmt (update_offset p1) [CHR 0x09]"
      have a1: "moved (quoted name) p0 ?u"
        using print_string_wrote [OF 1 capable_inb [OF c0]] by (rule wrote_update)
      note cu = capable_update [OF c1] and l1 = moved_layout [OF a1] moved_offset [OF a1 c0]
      show "prints (let p = update_offset p1; colon = CHR '':'' # fmt p [CHR 0x09] in
         and_then (emit (length colon) colon False (length colon) p m1) (\<lambda>p m.
         and_then (print_value j p m) (\<lambda>p m.
         let p = update_offset p; sep = (if ms = [] then [] else '','') @ fmt p [CHR 0x0A] in
         and_then (emit (length sep + 1) sep True (length sep) p m) (print_members ms))))"
        unfolding Let_def
      proof (intro prints_and_then)
        show "prints (emit (length ?colon) ?colon False (length ?colon) ?u m1)"
          using bound l0 l1 by (intro emit_prints cu) auto
      next
        fix p2 m2 assume 2: "emit (length ?colon) ?colon False (length ?colon) ?u m1 = Some (True, p2, m2)"
          and c2: "capable p2 m2"
        have a2: "moved ?colon ?u p2" using emit_moved [OF 2 capable_inb [OF cu]] by simp
        note l2 = moved_layout [OF a2] moved_offset [OF a2 cu]
        show "prints (print_value j p2 m2)"
          using 12(3) bound l0 l1 l2 by (intro 12(1) [OF refl refl] c2) auto
        fix p3 m3 assume 3: "print_value j p2 m2 = Some (True, p3, m3)" and c3: "capable p3 m3"
        let ?v = "update_offset p3"
        let ?sep = "(if ms = [] then [] else '','') @ fmt ?v [CHR 0x0A]"
        have a3: "moved (json_text (pb_format p2) (pb_depth p2) j) p2 ?v"
          using print_text(1) [OF 3] capable_inb [OF c2] by (auto intro: wrote_update)
        note cv = capable_update [OF c3] and l3 = moved_layout [OF a3] moved_offset [OF a3 c2]
        show "prints (emit (length ?sep + 1) ?sep True (length ?sep) ?v m3)"
          using bound l0 l1 l2 l3 by (intro emit_prints cv) auto
        fix p4 m4 assume 4: "emit (length ?sep + 1) ?sep True (length ?sep) ?v m3 = Some (True, p4, m4)"
          and c4: "capable p4 m4"
        have a4: "moved ?sep ?v p4" using emit_moved [OF 4 capable_inb [OF cv]] by simp
        show "prints (print_members ms p4 m4)"
          using 12(3) bound l0 l1 l2 l3 moved_layout [OF a4] moved_offset [OF a4 cv] moved_at_end [OF a4]
          by (intro 12(2) [OF refl refl refl refl] c4) auto
      qed
    qed
  qed
qed (simp_all add: emit_prints prints_Some)

section \<open>The whole text\<close>

lemma print_contract:
  assumes "print j f m = Some (r, m')"
  shows "live m' = live m + (case r of None \<Rightarrow> 0 | Some _ \<Rightarrow> 1)" and "r = Some t \<Longrightarrow> t = json_text f 0 j"
proof -
  obtain ok m1 where m1: "malloc m = (ok, m1)" by force
  have lm: "live m1 = live m + (if ok then 1 else 0)" using live_malloc [of m] m1 by simp
  let ?p = "\<lparr>pb_text = Some [], pb_length = 256, pb_offset = 0, pb_depth = 0,
                      pb_noalloc = False, pb_format = f\<rparr>"
  have "live m' = live m + (case r of None \<Rightarrow> 0 | Some _ \<Rightarrow> 1) \<and> (\<forall>t. r = Some t \<longrightarrow> t = json_text f 0 j)"
  proof (cases ok)
    case True
    with assms m1 obtain b p2 m2 where pv: "print_value j ?p m1 = Some (b, p2, m2)"
      by (auto simp: print_def Let_def split: option.splits)
    have l2: "live m2 - int (blk (pb_text p2)) = live m1 - 1"
      using print_keeps(1) [of j ?p m1] pv by (auto simp: keeps_def)
    show ?thesis
    proof (cases b)
      case False
      then show ?thesis using assms m1 True pv l2 lm
        by (auto simp: print_def Let_def acct split: option.splits)
    next
      case b: True
      then have "wrote (json_text f 0 j) ?p p2" using print_text(1) [of j ?p m1 p2 m2] pv by (simp add: inb_def)
      then have "pb_text p2 = Some (json_text f 0 j)" by (auto simp: wrote_def)
      then show ?thesis using assms m1 True pv l2 lm b
        by (auto simp: print_def Let_def realloc_def acct split: option.splits prod.splits if_splits)
    qed
  qed (use assms m1 lm in \<open>auto simp: print_def\<close>)
  then show "live m' = live m + (case r of None \<Rightarrow> 0 | Some _ \<Rightarrow> 1)" and "r = Some t \<Longrightarrow> t = json_text f 0 j"
    by auto
qed

lemma print_never_undefined:
  assumes "fits j"
  shows "print j f m \<noteq> None"
proof -
  let ?p = "\<lparr>pb_text = Some [], pb_length = 256, pb_offset = 0, pb_depth = 0,
                      pb_noalloc = False, pb_format = f\<rparr>"
  obtain ok m1 where m1: "malloc m = (ok, m1)" by force
  obtain b p2 m2 where pv: "print_value j ?p m1 = Some (b, p2, m2)"
    using print_safe(1) [OF assms, of ?p m1] by (auto simp: safe_def)
  obtain ok' m3 where m3: "realloc m2 = (ok', m3)" by force
  show ?thesis using m1 pv m3 by (cases b) (simp_all add: print_def)
qed

lemma print_succeeds:
  assumes "fits j" and "int (length (json_text f 0 j)) + 2 < INT_MAX" and "\<And>n. m_ok m n"
  shows "\<exists>m'. print j f m = Some (Some (json_text f 0 j), m') \<and> (\<forall>n. m_ok m' n)"
proof -
  let ?p = "\<lparr>pb_text = Some [], pb_length = 256, pb_offset = 0, pb_depth = 0,
                      pb_noalloc = False, pb_format = f\<rparr>"
  obtain m1 where m1: "malloc m = (True, m1)" "\<And>n. m_ok m1 n" using assms(3) by (auto simp: malloc_def Let_def)
  then have "prints (print_value j ?p m1)"
    using assms by (intro print_prints) (auto simp: capable_def inb_def)
  then obtain p2 m2 where pv: "print_value j ?p m1 = Some (True, p2, m2)" "capable p2 m2" by (auto simp: prints_def)
  then have "wrote (json_text f 0 j) ?p p2" using print_text(1) [of j ?p m1 p2 m2] by (simp add: inb_def)
  then show ?thesis using m1 pv by (auto simp: print_def Let_def realloc_def capable_def wrote_def)
qed

section \<open>Numbers that are too long\<close>

lemma long_format:
  assumes "of_int INT_MAX < \<bar>x\<bar>"
  shows "26 \<le> length (format_15f x)"
proof -
  let ?n = "round_even (\<bar>x\<bar> * 10 ^ 15)"
  have "of_int (INT_MAX * 10 ^ 15) \<le> \<bar>x\<bar> * 10 ^ 15" using assms by simp
  moreover have "\<bar>of_int ?n - \<bar>x\<bar> * 10 ^ 15\<bar> \<le> 1 / 2" by (rule round_even_bounds)
  ultimately have "of_int (INT_MAX * 10 ^ 15) - 1 / 2 \<le> (of_int ?n :: rat)" unfolding abs_le_iff by linarith
  then have "of_int (INT_MAX * 10 ^ 15 - 1) < (of_int ?n :: rat)" by simp
  then have "INT_MAX * 10 ^ 15 \<le> ?n" by (simp only: of_int_less_iff)
  then have "2147483647 * 10 ^ 15 \<le> nat ?n" by (simp add: INT_MAX_def)
  then have "2147483647 \<le> nat ?n div 10 ^ 15" by (simp add: less_eq_div_iff_mult_less_eq)
  then have "9 < length (dec_text (nat ?n div 10 ^ 15))" by (intro length_dec_text_ge) simp
  moreover have "15 \<le> length (pad15 (dec_text (nat ?n mod 10 ^ 15)))" by (simp add: pad15_def)
  ultimately show ?thesis
    by (simp only: format_15f_def Let_def length_append list.size)
qed

section \<open>Properties\<close>

text \<open>
  C10: Printing a tree whose numbers fit is defined whatever the allocator does and whatever buffer
  it starts with: no routine writes outside the block \<open>ensure\<close> made, nor outside a buffer of the
  caller.  What \<open>bscJSON_Print\<close> returns is the text of the tree in a block of its own, and when it
  fails it leaves no block behind.
\<close>

theorem print_stays_inside:
  assumes "fits j"
  shows "print_value j p m \<noteq> None \<and> bscJSON_PrintPreallocated j len f m \<noteq> None \<and>
    (\<exists>r m'. print j f m = Some (r, m') \<and> live m' = live m + (case r of None \<Rightarrow> 0 | Some _ \<Rightarrow> 1) \<and>
      (r = None \<or> r = Some (json_text f 0 j)))"
proof -
  have v: "print_value j p m \<noteq> None" for p m using print_safe(1) [OF assms] by (simp add: safe_def)
  have pre: "bscJSON_PrintPreallocated j len f m \<noteq> None"
  proof (cases "len < 0")
    case False
    then show ?thesis
      using v [of "\<lparr>pb_text = Some [], pb_length = nat len, pb_offset = 0, pb_depth = 0, pb_noalloc = True, pb_format = f\<rparr>" m]
      by (auto simp: bscJSON_PrintPreallocated_def)
  qed (simp add: bscJSON_PrintPreallocated_def)
  obtain r m' where r: "print j f m = Some (r, m')" using print_never_undefined [OF assms, of f m] by auto
  have "r = None \<or> r = Some (json_text f 0 j)" using print_contract(2) [OF r] by (cases r) auto
  then show ?thesis using v pre r print_contract(1) [OF r] by blast
qed

theorem print_stays_inside_witness:
  "bscJSON_PrintPreallocated (BArray [BTrue, BString ''a'']) 5 True \<lparr>m_ok = \<lambda>_. True, m_calls = 0, live = 0\<rparr> \<noteq> None"
  using print_stays_inside [of "BArray [BTrue, BString ''a'']"] by simp

text \<open>
  C28: A number outside the range of \<open>int\<close> overruns \<open>number_buffer\<close>: \<open>sprintf\<close> writes at least ten digits,
  a point, fifteen digits and a NUL into its 26 bytes, before the length is checked.
\<close>

theorem large_number_overruns:
  assumes "of_int INT_MAX < x \<or> x < of_int INT_MIN"
  shows "print_value (BNumber i (Fin x)) p m = None"
proof -
  have "\<not> (d_le (Fin x) (d_of_int INT_MAX) \<and> d_le (d_of_int INT_MIN) (Fin x))"
    using assms by (auto simp: d_of_int_def)
  then have "number_text i (Fin x) = format_15f x"
    by (auto simp: number_text_def d_eq_def to_double_def split: option.split)
  moreover have "of_int INT_MAX < \<bar>x\<bar>" using assms by (auto simp: INT_MAX_def INT_MIN_def)
  ultimately show ?thesis using long_format [of x] by (simp add: print_number_def)
qed

theorem large_number_overruns_witness:
  "\<forall>p m. print_value (BNumber INT_MAX (Fin 2147483648)) p m = None"
  by (intro allI, rule large_number_overruns) (simp add: INT_MAX_def)

end
