(* ===== verification/Bsc_Roundtrip.thy ===== *)
theory Bsc_Roundtrip
  imports Bsc_Print
begin

text \<open>
  Parsing what was printed: the tree comes back, whatever follows its text, for trees whose numbers
  are integers of the range of \<open>int\<close>, the only ones the kernel prints.
\<close>

section \<open>Numbers\<close>

lemma number_text_int:
  assumes "INT_MIN \<le> i" and "i \<le> INT_MAX"
  shows "number_text i (Fin (of_int i)) = format_d i"
proof -
  have "int_of_double (Fin (of_int i)) = Some i"
    using assms by (auto simp: trunc_def Let_def)
  then show ?thesis using assms
    by (simp add: number_text_def d_eq_def d_minus_def d_of_int_def to_double_def DBL_EPSILON_def)
qed

lemma format_d_length: "INT_MIN \<le> i \<Longrightarrow> i \<le> INT_MAX \<Longrightarrow> length (format_d i) \<le> 11"
  using length_dec_text [of "nat \<bar>i\<bar>" 10] by (auto simp: format_d_def INT_MIN_def INT_MAX_def nat_less_iff)

lemma takeWhile_id: "(\<And>c. c \<in> set s \<Longrightarrow> P c) \<Longrightarrow> takeWhile P s = s"
  by (induction s) auto

lemma dropWhile_id: "(\<And>c. c \<in> set s \<Longrightarrow> P c) \<Longrightarrow> dropWhile P s = []"
  by simp

lemma strtod_format_d:
  assumes "\<bar>i\<bar> < 2 ^ 53"
  shows "strtod (format_d i) = (Fin (of_int i), [])"
proof -
  let ?ds = "dec_text (nat \<bar>i\<bar>)"
  have t: "takeWhile dec_digit ?ds = ?ds" "dropWhile dec_digit ?ds = []"
    using dec_text_digits by (auto intro: takeWhile_id)
  have "hd ?ds \<in> set ?ds" by simp
  then have "dec_digit (hd ?ds)" by (rule dec_text_digits)
  then have h: "hd ?ds \<noteq> CHR ''-''" "hd ?ds \<noteq> CHR ''+''" by (auto simp: dec_digit_def code_def)
  then have "sign_of ?ds = (False, ?ds)" by (cases ?ds) (simp_all add: sign_of_def)
  moreover have "sign_of (CHR ''-'' # ?ds) = (True, ?ds)" by (simp add: sign_of_def)
  ultimately have s: "sign_of (format_d i) = (i < 0, ?ds)"
    by (cases "i < 0") (simp_all only: format_d_def if_True if_False append_Nil append_Cons)
  show ?thesis using dec_text_digits to_double_int [OF assms]
    by (auto simp: strtod_def s t strtod_exponent_def pow10_def Let_def)
qed

lemma saturate_int: "INT_MIN \<le> i \<Longrightarrow> i \<le> INT_MAX \<Longrightarrow> saturate (Fin (of_int i)) = Some i"
  by (auto simp: saturate_def d_of_int_def trunc_def Let_def)

text \<open>The character after a number is none of its own.\<close>

definition ends_number :: "string \<Rightarrow> bool" where
  "ends_number s = (s = [] \<or> \<not> number_char (hd s))"

lemma parse_number_text:
  assumes i: "INT_MIN \<le> i" "i \<le> INT_MAX" and r: "ends_number rest"
  shows "parse_number (format_d i @ rest) m = (Some (BNumber i (Fin (of_int i)), rest), m)"
proof -
  have n: "number_char c" if "c \<in> set (format_d i)" for c
    using that dec_text_digits by (auto simp: format_d_def number_char_def split: if_splits)
  have "takeWhile number_char (format_d i @ rest) = format_d i"
    using r n by (cases rest) (auto simp: takeWhile_append ends_number_def intro: takeWhile_id)
  then have b: "take 63 (takeWhile number_char (format_d i @ rest)) = format_d i"
    using format_d_length [OF i] by simp
  have s: "strtod (format_d i) = (Fin (of_int i), [])"
    using i by (intro strtod_format_d) (auto simp: INT_MIN_def INT_MAX_def)
  have "format_d i \<noteq> []" by (simp add: format_d_def)
  then show ?thesis by (simp add: parse_number_def b s saturate_int i)
qed

section \<open>Strings\<close>

lemma hex_digit_char: "n < 16 \<Longrightarrow> hex_digit (hex_char n) = Some n"
  by (auto simp: hex_digit_def hex_char_def Let_def)

lemma code_less: "code c < 256"
  using of_char_mod_256 [of c, where 'a = nat] unfolding code_def by (metis mod_less_divisor zero_less_numeral)

lemma char_of_code [simp]: "char_of (code c) = c"
  by (simp add: code_def)

lemma parse_hex4_control:
  assumes "n < 32"
  shows "parse_hex4 (CHR ''0'' # CHR ''0'' # hex_char (n div 16) # hex_char (n mod 16) # t) = word_of_nat n"
proof -
  have z: "hex_digit (CHR ''0'') = Some 0" by (simp add: hex_digit_def code_def)
  have "push_bit 4 (word_of_nat (n div 16)) + word_of_nat (n mod 16) = (word_of_nat (n div 16 * 16 + n mod 16) :: u32)"
    by (simp only: of_nat_add of_nat_mult push_bit_eq_mult) simp
  then show ?thesis using assms by (simp add: parse_hex4_def z hex_digit_char)
qed

lemma utf8_controls: "list_all (\<lambda>n. utf8_encode (word_of_nat n) = Some [word_of_nat n]) [0..<32]"
  by code_simp

lemma utf8_control: "n < 32 \<Longrightarrow> utf8_encode (word_of_nat n) = Some [word_of_nat n]"
  using utf8_controls by (simp add: list_all_iff)

lemma unescape_plain: "c \<noteq> CHR 0x5C \<Longrightarrow> unescape (c # t) = map_option (Cons c) (unescape t)"
  by (subst unescape.simps) simp

lemma unescape_simple:
  "simple_escape e = Some x \<Longrightarrow> e \<noteq> CHR ''u'' \<Longrightarrow>
   unescape (CHR 0x5C # e # t) = map_option (Cons x) (unescape t)"
  by (subst unescape.simps) simp

lemma unescape_control:
  assumes "n < 32"
  shows "unescape (CHR 0x5C # CHR ''u'' # CHR ''0'' # CHR ''0'' # hex_char (n div 16) # hex_char (n mod 16) # t) =
    map_option (Cons (char_of n)) (unescape t)"
proof -
  let ?s = "CHR 0x5C # CHR ''u'' # CHR ''0'' # CHR ''0'' # hex_char (n div 16) # hex_char (n mod 16) # t"
  have u: "unat (word_of_nat n :: u32) = n" "unat (word_of_nat n :: byte) = n"
    using assms by (simp_all add: unat_of_nat)
  have "utf16_literal_to_utf8 ?s = Some ([word_of_nat n], 6)"
    using assms by (simp add: utf16_literal_to_utf8_def parse_hex4_control utf8_control word_le_nat_alt u)
  then show ?thesis by (subst unescape.simps) (cases "unescape t", simp_all add: text_of_def u)
qed

lemma unescape_escape: "unescape (escape c @ t) = map_option (Cons c) (unescape t)"
proof (cases "31 < code c \<or> c \<in> {CHR 0x22, CHR 0x5C, CHR 0x08, CHR 0x0C, CHR 0x0A, CHR 0x0D, CHR 0x09}")
  case True
  have "simple_escape (CHR 0x5C) = Some (CHR 0x5C)" "simple_escape (CHR 0x22) = Some (CHR 0x22)"
    "simple_escape (CHR ''b'') = Some (CHR 0x08)" "simple_escape (CHR ''f'') = Some (CHR 0x0C)"
    "simple_escape (CHR ''n'') = Some (CHR 0x0A)" "simple_escape (CHR ''r'') = Some (CHR 0x0D)"
    "simple_escape (CHR ''t'') = Some (CHR 0x09)" by (simp_all add: simple_escape_def)
  with True show ?thesis
    by (auto simp: escape_def code_def unescape_plain unescape_simple)
next
  case False
  then show ?thesis using unescape_control [of "code c" t] by (simp add: escape_def)
qed

lemma unescape_escapes: "unescape (concat (map escape s)) = Some s"
  by (induction s) (simp_all add: unescape_escape, subst unescape.simps, simp)

lemma scan_plain: "c \<noteq> CHR 0x5C \<Longrightarrow> c \<noteq> CHR 0x22 \<Longrightarrow>
  scan_string (c # s) = map_option (\<lambda>(b, r, k). (c # b, r, k)) (scan_string s)"
  by simp

lemma hex_char_plain: "n < 16 \<Longrightarrow> hex_char n \<noteq> CHR 0x5C \<and> hex_char n \<noteq> CHR 0x22"
proof -
  assume "n < 16"
  then have "code (hex_char n) = (if n < 10 then 48 + n else 87 + n)" by (simp add: hex_char_def)
  then show ?thesis using \<open>n < 16\<close> by (auto simp: code_def split: if_splits)
qed

lemma scan_escape:
  "scan_string (escape c @ s) = map_option (\<lambda>(b, r, k). (escape c @ b, r, k + (if escape c = [c] then 0 else 1)))
     (scan_string s)"
proof -
  have "code c < 32 \<Longrightarrow> code c div 16 < 16" by simp
  then show ?thesis
    by (cases "scan_string s") (auto simp: escape_def hex_char_plain)
qed

lemma scan_escapes: "\<exists>k. scan_string (concat (map escape s) @ CHR 0x22 # rest) = Some (concat (map escape s), rest, k)"
  by (induction s) (auto simp: scan_escape)

lemma parse_quoted:
  assumes "CHR 0x00 \<notin> set s" and "malloc m = (True, m1)"
  shows "parse_string (quoted s @ rest) m = (Some (s, rest), m1)"
  using scan_escapes [of s rest] assms by (auto simp: parse_string_def quoted_def c_str_id unescape_escapes)

section \<open>Trees\<close>

text \<open>The trees the printer and the parser agree on, with at most \<open>k\<close> arrays and objects nested.\<close>

fun plain :: "nat \<Rightarrow> jnode \<Rightarrow> bool" where
  "plain k (BNumber i d) = (d = Fin (of_int i) \<and> INT_MIN \<le> i \<and> i \<le> INT_MAX)"
| "plain k (BString s) = (CHR 0x00 \<notin> set s)"
| "plain k (BRaw s) = False"
| "plain k (BArray js) = (case k of 0 \<Rightarrow> False | Suc k' \<Rightarrow> list_all (plain k') js)"
| "plain k (BObject ms) = (case k of 0 \<Rightarrow> False | Suc k' \<Rightarrow>
     list_all (\<lambda>(name, j). CHR 0x00 \<notin> set name \<and> plain k' j) ms)"
| "plain k _ = True"

lemma plain_fits: "plain k j \<Longrightarrow> fits j"
proof (induction j arbitrary: k)
  case (BNumber i d)
  then show ?case using format_d_length [of i] by (simp add: number_text_int)
next
  case (BArray js)
  then show ?case by (auto simp: list_all_iff split: nat.splits)
next
  case (BObject ms)
  then show ?case by (fastforce simp: list_all_iff split: nat.splits)
qed simp_all

definition solid :: "string \<Rightarrow> bool" where
  "solid s = (s \<noteq> [] \<and> 32 < code (hd s))"

lemma skip_solid: "\<forall>c \<in> set w. code c \<le> 32 \<Longrightarrow> solid s \<Longrightarrow> buffer_skip_whitespace (w @ s) = s"
  by (induction w) (auto simp: buffer_skip_whitespace_def solid_def neq_Nil_conv)

lemma blank_chars [simp]: "code (CHR 0x09) \<le> 32" "code (CHR 0x0A) \<le> 32" "code (CHR '' '') \<le> 32"
  by (simp_all add: code_def)

lemma solid_chars [simp]:
  "solid (CHR '','' # s)" "solid (CHR '']'' # s)" "solid (CHR ''}'' # s)" "solid (CHR '':'' # s)" "solid (CHR 0x22 # s)"
  "solid (CHR ''['' # s)" "solid (CHR ''{'' # s)" "solid (CHR ''-'' # s)"
  by (simp_all add: solid_def code_def)

lemma dec_digit_solid: "dec_digit c \<Longrightarrow> solid (c # s)"
  by (simp add: dec_digit_def solid_def)

lemma format_d_head: "\<exists>c t. format_d i = c # t \<and> (c = CHR ''-'' \<or> dec_digit c)"
proof (cases "i < 0")
  case False
  obtain c t where "dec_text (nat \<bar>i\<bar>) = c # t" by (cases "dec_text (nat \<bar>i\<bar>)") auto
  then show ?thesis using False dec_text_digits [of c "nat \<bar>i\<bar>"] by (simp add: format_d_def)
qed (simp add: format_d_def)

lemma json_text_solid:
  "plain k j \<Longrightarrow> solid (json_text f d j @ rest) \<and> hd (json_text f d j @ rest) \<noteq> CHR '']''"
proof (cases j)
  case (BNumber i x)
  assume "plain k j"
  then show ?thesis using format_d_head [of i] BNumber
    by (auto simp: number_text_int dec_digit_solid) (auto simp: dec_digit_def code_def)
qed (auto simp: quoted_def solid_def code_def)

definition plenty :: "mem \<Rightarrow> bool" where
  "plenty m = (\<forall>n. m_ok m n)"

lemma plenty_malloc: "plenty m \<Longrightarrow> \<exists>m1. malloc m = (True, m1) \<and> plenty m1"
  by (auto simp: plenty_def malloc_def Let_def)

text \<open>What the parser \<open>pv\<close> makes of the text of \<open>j\<close>.\<close>

definition reads :: "(string \<Rightarrow> mem \<Rightarrow> parsed) \<Rightarrow> bool \<Rightarrow> nat \<Rightarrow> jnode \<Rightarrow> bool" where
  "reads pv f d j \<longleftrightarrow> (\<forall>rest. solid (json_text f d j @ rest) \<and>
     hd (json_text f d j @ rest) \<noteq> CHR '']'') \<and> (\<forall>rest m. plenty m \<longrightarrow>
     ((\<exists>i x. j = BNumber i x) \<longrightarrow> ends_number rest) \<longrightarrow>
     (\<exists>m'. pv (json_text f d j @ rest) m = (Some (j, rest), m') \<and> plenty m'))"

lemma reads_solid: "reads pv f d j \<Longrightarrow> solid (json_text f d j @ rest)"
  by (simp add: reads_def)

lemma reads_head: "reads pv f d j \<Longrightarrow> hd (json_text f d j @ rest) \<noteq> CHR '']''"
  by (simp add: reads_def)

lemma readsD:
  assumes "reads pv f d j" and "plenty m" and "ends_number rest"
  obtains m' where "pv (json_text f d j @ rest) m = (Some (j, rest), m')" "plenty m'"
  using assms unfolding reads_def by blast

lemma ends_number_chars [simp]:
  "ends_number (CHR '','' # s)" "ends_number (CHR '']'' # s)" "ends_number (CHR ''}'' # s)"
  "ends_number (CHR 0x0A # s)"
  by (simp_all add: ends_number_def number_char_def dec_digit_def code_def)

lemma elements_read:
  assumes "\<forall>j \<in> set js. reads pv f d j" and "js \<noteq> []" and "length js \<le> n" and "plenty m"
    and "\<forall>c \<in> set w. code c \<le> 32"
  shows "\<exists>m'. parse_elements pv n acc (w @ elements_text f d js @ CHR '']'' # rest) m =
      (Some (BArray (acc @ js), rest), m') \<and> plenty m'"
  using assms
proof (induction js arbitrary: acc n m w)
  case (Cons j js)
  obtain l where n: "n = Suc l" using Cons.prems(3) by (cases n) auto
  obtain m1 where m1: "malloc m = (True, m1)" "plenty m1" using plenty_malloc [OF Cons.prems(4)] by blast
  have rj: "reads pv f d j" using Cons.prems(1) by simp
  let ?tail = "if js = [] then CHR '']'' # rest else CHR '','' # lay f '' '' @ elements_text f d js @ CHR '']'' # rest"
  have whole: "elements_text f d (j # js) @ CHR '']'' # rest = json_text f d j @ ?tail" by simp
  have s: "buffer_skip_whitespace (w @ json_text f d j @ ?tail) = json_text f d j @ ?tail"
    by (rule skip_solid [OF Cons.prems(5) reads_solid [OF rj]])
  have e: "ends_number ?tail" by simp
  obtain m2 where m2: "pv (json_text f d j @ ?tail) m1 = (Some (j, ?tail), m2)" "plenty m2"
    by (rule readsD [OF rj m1(2) e])
  have t: "buffer_skip_whitespace ?tail = ?tail" using skip_solid [of "[]" ?tail] by simp
  show ?case
  proof (cases "js = []")
    case True
    then show ?thesis using m1 m2 s t unfolding whole n by (simp add: starts_def)
  next
    case False
    have "\<exists>m'. parse_elements pv l (acc @ [j]) (lay f '' '' @ elements_text f d js @ CHR '']'' # rest) m2 =
        (Some (BArray ((acc @ [j]) @ js), rest), m') \<and> plenty m'"
      using Cons.prems False m2(2) by (intro Cons.IH) (auto simp: n)
    then show ?thesis using m1 m2 s t False unfolding whole n by (simp add: starts_def)
  qed
qed simp

lemma members_step:
  assumes "malloc m = (True, m1)" and "buffer_skip_whitespace s = s0"
    and "parse_string s0 m1 = (Some (name, s1), m2)" and "buffer_skip_whitespace s1 = CHR '':'' # s2"
    and "pv (buffer_skip_whitespace s2) m2 = (Some (j, s3), m3)"
  shows "parse_members pv (Suc n) acc s m =
    (let s4 = buffer_skip_whitespace s3 in
     if starts (CHR '','') s4 then parse_members pv n (acc @ [(name, j)]) (tl s4) m3
     else if starts (CHR ''}'') s4 then (Some (BObject (acc @ [(name, j)]), tl s4), m3)
     else (None, delete_members (acc @ [(name, j)]) m3))"
  using assms by (simp add: starts_def)

lemma tabs_blank: "\<forall>c \<in> set (lay f (tabs n)). code c \<le> 32"
  by (simp add: tabs_def)

lemma members_read:
  assumes "\<forall>(name, j) \<in> set ms. CHR 0x00 \<notin> set name \<and> reads pv f d j" and "ms \<noteq> []" and "length ms \<le> n"
    and "plenty m" and "\<forall>c \<in> set w. code c \<le> 32"
  shows "\<exists>m'. parse_members pv n acc (w @ members_text f d ms @ lay f (tabs e) @ CHR ''}'' # rest) m =
      (Some (BObject (acc @ ms), rest), m') \<and> plenty m'"
  using assms
proof (induction ms arbitrary: acc n m w)
  case (Cons a ms)
  obtain name j where a: "a = (name, j)" by (cases a)
  obtain l where n: "n = Suc l" using Cons.prems(3) by (cases n) auto
  obtain m1 where m1: "malloc m = (True, m1)" "plenty m1" using plenty_malloc [OF Cons.prems(4)] by blast
  obtain m2 where m2: "malloc m1 = (True, m2)" "plenty m2" using plenty_malloc [OF m1(2)] by blast
  have rj: "reads pv f d j" and nm: "CHR 0x00 \<notin> set name" using Cons.prems(1) a by auto
  let ?tail = "(if ms = [] then [] else '','') @ lay f [CHR 0x0A] @ members_text f d ms @ lay f (tabs e) @ CHR ''}'' # rest"
  let ?val = "json_text f d j @ ?tail" and ?w = "w @ lay f (tabs d)"
  let ?colon = "CHR '':'' # lay f [CHR 0x09] @ ?val"
  have whole: "w @ members_text f d (a # ms) @ lay f (tabs e) @ CHR ''}'' # rest = ?w @ quoted name @ ?colon"
    by (simp add: a)
  have "solid (quoted name @ ?colon)" by (simp add: quoted_def)
  then have s: "buffer_skip_whitespace (?w @ quoted name @ ?colon) = quoted name @ ?colon"
    using Cons.prems(5) tabs_blank [of f d] by (intro skip_solid) auto
  have p: "parse_string (quoted name @ ?colon) m1 = (Some (name, ?colon), m2)"
    by (rule parse_quoted [OF nm m2(1)])
  have c: "buffer_skip_whitespace ?colon = ?colon" using skip_solid [of "[]" ?colon] by simp
  have v: "buffer_skip_whitespace (lay f [CHR 0x09] @ ?val) = ?val"
    by (rule skip_solid [OF _ reads_solid [OF rj]]) simp
  have "ends_number ?tail" by (cases f; cases "ms = []") simp_all
  then obtain m3 where m3: "pv ?val m2 = (Some (j, ?tail), m3)" "plenty m3"
    by (rule readsD [OF rj m2(2)])
  note step = members_step [where pv = pv, OF m1(1) s p c, unfolded v, OF m3(1), of l acc]
  show ?case
  proof (cases "ms = []")
    case True
    have "buffer_skip_whitespace ((lay f [CHR 0x0A] @ lay f (tabs e)) @ CHR ''}'' # rest) = CHR ''}'' # rest"
      using tabs_blank [of f e] by (intro skip_solid) auto
    then show ?thesis using m3(2) True unfolding whole n step by (simp add: starts_def a)
  next
    case False
    let ?rest = "members_text f d ms @ lay f (tabs e) @ CHR ''}'' # rest"
    have t: "buffer_skip_whitespace (CHR '','' # lay f [CHR 0x0A] @ ?rest) = CHR '','' # lay f [CHR 0x0A] @ ?rest"
      using skip_solid [of "[]" "CHR '','' # lay f [CHR 0x0A] @ ?rest"] by simp
    have "\<exists>m'. parse_members pv l (acc @ [(name, j)]) (lay f [CHR 0x0A] @ ?rest) m3 =
        (Some (BObject ((acc @ [(name, j)]) @ ms), rest), m') \<and> plenty m'"
      using Cons.prems False m3(2) by (intro Cons.IH) (auto simp: n)
    then show ?thesis using False t unfolding whole n step by (simp add: starts_def a)
  qed
qed simp

lemma elements_length: "\<forall>j \<in> set js. json_text f d j \<noteq> [] \<Longrightarrow> length js \<le> length (elements_text f d js)"
proof (induction js)
  case (Cons j js)
  then have "1 \<le> length (json_text f d j)" by (simp add: Suc_le_eq)
  then show ?case using Cons by auto
qed simp

lemma members_length: "length ms \<le> length (members_text f d ms)"
  by (induction ms) (auto simp: quoted_def)

lemma members_solid: "ms \<noteq> [] \<Longrightarrow> \<exists>w s. members_text f d ms @ r = lay f (tabs d) @ s \<and> solid s"
  by (cases ms) (auto simp: quoted_def)

lemma reads_array:
  assumes "\<forall>j \<in> set js. reads pv f (d + 1) j"
  shows "reads (parse_value1 (Some pv)) f d (BArray js)"
proof -
  have "\<exists>m'. parse_array pv (json_text f d (BArray js) @ rest) m = (Some (BArray js, rest), m') \<and> plenty m'"
    if m: "plenty m" for rest m
  proof (cases "js = []")
    case True
    then show ?thesis using m skip_solid [of "[]" "CHR '']'' # rest"]
      by (simp add: parse_array_def starts_def)
  next
    case False
    then obtain j js' where js: "js = j # js'" by (cases js) auto
    let ?t = "elements_text f (d + 1) js @ CHR '']'' # rest"
    have ne: "\<forall>j \<in> set js. json_text f (d + 1) j \<noteq> []"
      using assms by (metis append_Nil2 reads_solid solid_def)
    have l: "length js \<le> length (elements_text f (d + 1) js)" by (rule elements_length [OF ne])
    have "solid ?t" using assms reads_solid [of pv f "d + 1" j] by (auto simp: js)
    then have t: "buffer_skip_whitespace ?t = ?t" using skip_solid [of "[]" ?t] by simp
    have "hd (json_text f (d + 1) j @ []) \<noteq> CHR '']''" by (rule reads_head [where pv = pv]) (use assms js in simp)
    then have nb: "\<not> starts (CHR '']'') ?t" using ne by (simp add: js starts_def)
    obtain m' where "parse_elements pv (length (json_text f d (BArray js) @ rest)) [] ?t m =
        (Some (BArray js, rest), m')" "plenty m'"
      using elements_read [OF assms False _ m, of "length (json_text f d (BArray js) @ rest)" "[]" "[]" rest] l
      by auto
    then show ?thesis using t nb by (simp add: parse_array_def starts_def)
  qed
  then show ?thesis by (auto simp: reads_def parse_value1_def starts_def dec_digit_def code_def solid_def)
qed

lemma members_same:
  "buffer_skip_whitespace s = buffer_skip_whitespace t \<Longrightarrow>
   parse_members pv (Suc n) acc s m = parse_members pv (Suc n) acc t m"
  by (simp only: parse_members.simps)

lemma reads_object:
  assumes "\<forall>(name, j) \<in> set ms. CHR 0x00 \<notin> set name \<and> reads pv f (d + 1) j"
  shows "reads (parse_value1 (Some pv)) f d (BObject ms)"
proof -
  have "\<exists>m'. parse_object pv (json_text f d (BObject ms) @ rest) m = (Some (BObject ms, rest), m') \<and> plenty m'"
    if m: "plenty m" for rest m
  proof (cases "ms = []")
    case True
    have "buffer_skip_whitespace ((lay f [CHR 0x0A] @ lay f (tabs d)) @ CHR ''}'' # rest) = CHR ''}'' # rest"
      using tabs_blank [of f d] by (intro skip_solid) auto
    then show ?thesis using m True by (simp add: parse_object_def starts_def)
  next
    case False
    let ?t = "members_text f (d + 1) ms @ lay f (tabs d) @ CHR ''}'' # rest"
    let ?n = "length (json_text f d (BObject ms) @ rest)"
    obtain w s where w: "?t = lay f (tabs (d + 1)) @ CHR 0x22 # s"
      using False by (cases ms) (auto simp: quoted_def)
    have skip: "buffer_skip_whitespace (lay f [CHR 0x0A] @ ?t) = CHR 0x22 # s"
      using skip_solid [of "lay f [CHR 0x0A] @ lay f (tabs (d + 1))" "CHR 0x22 # s"] tabs_blank [of f "d + 1"] w
      by auto
    have again: "buffer_skip_whitespace (CHR 0x22 # s) = buffer_skip_whitespace ?t"
      using skip_solid [of "[]" "CHR 0x22 # s"] skip_solid [OF tabs_blank, of "CHR 0x22 # s" f "d + 1"] w by simp
    have "length ms \<le> ?n" using members_length [of ms f "d + 1"] by simp
    then obtain m' where "parse_members pv ?n [] ?t m = (Some (BObject ms, rest), m')" "plenty m'"
      using members_read [OF assms False _ m, of ?n "[]" "[]" d rest] by auto
    moreover obtain l where "?n = Suc l" by simp
    moreover note members_same [OF again, of pv l "[]" m]
    ultimately have "parse_members pv ?n [] (CHR 0x22 # s) m = (Some (BObject ms, rest), m')" "plenty m'"
      by (simp_all only: simp_thms)
    then show ?thesis using skip by (simp add: parse_object_def starts_def)
  qed
  then show ?thesis by (auto simp: reads_def parse_value1_def starts_def dec_digit_def code_def solid_def)
qed

lemma reads_leaf:
  assumes "\<And>js. j \<noteq> BArray js" and "\<And>ms. j \<noteq> BObject ms" and "plain k j"
  shows "reads (parse_value1 inner) f d j"
proof (cases j)
  case (BNumber i x)
  then have x: "x = Fin (of_int i)" and i: "INT_MIN \<le> i" "i \<le> INT_MAX" using assms(3) by auto
  obtain c t where h: "format_d i = c # t" and c: "c = CHR ''-'' \<or> dec_digit c" using format_d_head by blast
  have "c \<noteq> CHR ''n'' \<and> c \<noteq> CHR ''f'' \<and> c \<noteq> CHR ''t'' \<and> c \<noteq> CHR 0x22"
    using c by (auto simp: dec_digit_def code_def)
  then have "parse_value1 inner (format_d i @ rest) m = parse_number (format_d i @ rest) m" for rest m
    using c by (auto simp: parse_value1_def h starts_def)
  then show ?thesis using json_text_solid [OF assms(3)] parse_number_text [OF i]
    by (auto simp: reads_def BNumber number_text_int i x)
next
  case (BString s)
  have "\<exists>m'. parse_value1 inner (json_text f d j @ rest) m = (Some (j, rest), m') \<and> plenty m'"
    if p: "plenty m" for rest m
  proof -
    obtain m1 where m1: "malloc m = (True, m1)" "plenty m1" using plenty_malloc [OF p] by blast
    have "parse_value1 inner (quoted s @ rest) m =
      (case parse_string (quoted s @ rest) m of (r, m1) \<Rightarrow> (map_option (\<lambda>(t, s1). (BString t, s1)) r, m1))"
      by (simp add: parse_value1_def quoted_def starts_def)
    then show ?thesis using parse_quoted [OF _ m1(1), of s rest] assms(3) m1(2) by (simp add: BString)
  qed
  then show ?thesis using json_text_solid [OF assms(3)] by (simp add: reads_def)
next
  case BNull
  then show ?thesis by (simp add: reads_def parse_value1_def solid_def code_def)
next
  case BFalse
  then show ?thesis by (simp add: reads_def parse_value1_def solid_def code_def)
next
  case BTrue
  then show ?thesis by (simp add: reads_def parse_value1_def solid_def code_def)
qed (use assms in simp_all)

lemma reads_parse_leaf:
  assumes "\<And>js. j \<noteq> BArray js" and "\<And>ms. j \<noteq> BObject ms" and "plain k j"
  shows "reads (parse_value k) f d j"
  using reads_leaf [OF assms] by (cases k) simp_all

lemma parse_text: "plain k j \<Longrightarrow> reads (parse_value k) f d j"
proof (induction j arbitrary: k d)
  case (BArray js)
  then obtain k' where k: "k = Suc k'" by (cases k) auto
  then have "\<forall>j \<in> set js. reads (parse_value k') f (d + 1) j" using BArray by (auto simp: list_all_iff)
  then show ?case by (simp add: k reads_array)
next
  case (BObject ms)
  then obtain k' where k: "k = Suc k'" by (cases k) auto
  then have "\<forall>(name, j) \<in> set ms. CHR 0x00 \<notin> set name \<and> reads (parse_value k') f (d + 1) j"
    using BObject by (fastforce simp: list_all_iff)
  then show ?case by (simp add: k reads_object)
next
  case (BRaw s)
  then show ?case by simp
qed (rule reads_parse_leaf; simp)+

section \<open>Whole texts\<close>

lemma no_bom: "plain k j \<Longrightarrow> hd (json_text f d j @ rest) \<noteq> CHR 0xEF"
proof (cases j)
  case (BNumber i x)
  assume "plain k j"
  then show ?thesis using format_d_head [of i] BNumber
    by (auto simp: number_text_int dec_digit_def code_def)
qed (auto simp: quoted_def)

lemma length_quoted: "length (quoted s) \<le> 2 + 6 * length s"
proof -
  have "length (concat (map escape t)) \<le> 6 * length t" for t
    by (induction t) (auto simp: length_escape intro: le_trans)
  moreover have "length (c_str s) \<le> length s" by (simp add: c_str_def length_takeWhile_le)
  ultimately show ?thesis unfolding quoted_def by (simp add: le_trans [of _ "6 * length (c_str s)"])
qed

lemma nul_escape: "CHR 0x00 \<notin> set (escape c)"
proof -
  have h: "hex_char n \<noteq> CHR 0x00" if "n < 16" for n
  proof -
    have "code (hex_char n) \<noteq> 0" using that by (simp add: hex_char_def)
    then show ?thesis by (auto simp: code_def)
  qed
  have "code c div 16 < 16" using code_less [of c] by simp
  then have "hex_char (code c div 16) \<noteq> CHR 0x00" "hex_char (code c mod 16) \<noteq> CHR 0x00" by (simp_all add: h)
  moreover have "31 < code c \<Longrightarrow> CHR 0x00 \<noteq> c" by (auto simp: code_def)
  ultimately show ?thesis by (simp add: escape_def)
qed

lemma nul_quoted: "CHR 0x00 \<notin> set (quoted s)"
  using nul_escape by (auto simp: quoted_def)

lemma nul_format_d: "CHR 0x00 \<notin> set (format_d i)"
proof -
  have "\<not> dec_digit (CHR 0x00)" by (simp add: dec_digit_def code_def)
  then show ?thesis using dec_text_digits by (auto simp: format_d_def)
qed

text \<open>A printed text is a C string.\<close>

lemma nul_json_text: "plain k j \<Longrightarrow> CHR 0x00 \<notin> set (json_text f n j)"
proof (induction j arbitrary: k n)
  case (BNumber i d)
  then show ?case by (simp add: number_text_int nul_format_d)
next
  case (BArray js)
  have "\<forall>j \<in> set xs. CHR 0x00 \<notin> set (json_text f (n + 1) j) \<Longrightarrow> CHR 0x00 \<notin> set (elements_text f (n + 1) xs)" for xs
    by (induction xs) auto
  moreover have "\<forall>j \<in> set js. CHR 0x00 \<notin> set (json_text f (n + 1) j)"
    using BArray by (auto simp: list_all_iff split: nat.splits)
  ultimately show ?case by simp
next
  case (BObject ms)
  have t: "CHR 0x00 \<notin> set (tabs n)" for n by (simp add: tabs_def)
  have "\<forall>(name, j) \<in> set xs. CHR 0x00 \<notin> set (json_text f (n + 1) j) \<Longrightarrow> CHR 0x00 \<notin> set (members_text f (n + 1) xs)" for xs
    by (induction xs) (auto simp: t nul_quoted split: if_splits)
  moreover have "\<forall>(name, j) \<in> set ms. CHR 0x00 \<notin> set (json_text f (n + 1) j)"
    using BObject by (fastforce simp: list_all_iff split: nat.splits)
  ultimately show ?case by (auto simp: t)
qed (simp_all add: nul_quoted)

lemma parse_printed:
  assumes p: "plain bscJSON_NESTING_LIMIT j" and m: "plenty m"
    and r: "(\<exists>i x. j = BNumber i x) \<Longrightarrow> ends_number rest"
  shows "\<exists>m'. bscJSON_Parse (json_text f 0 j @ rest) m = (Some j, m') \<and> plenty m'"
proof -
  let ?s = "json_text f 0 j @ rest"
  obtain m1 where m1: "malloc m = (True, m1)" "plenty m1" using plenty_malloc [OF m] by blast
  have "take 3 ?s \<noteq> [CHR 0xEF, CHR 0xBB, CHR 0xBF]"
    using no_bom [OF p, of f 0 rest] by (cases ?s) auto
  then have b: "skip_utf8_bom ?s = ?s" by (simp add: skip_utf8_bom_def)
  have rd: "reads (parse_value bscJSON_NESTING_LIMIT) f 0 j" by (rule parse_text [OF p])
  have s: "buffer_skip_whitespace ?s = ?s" using skip_solid [of "[]" ?s] reads_solid [OF rd] by simp
  obtain m2 where "parse_value bscJSON_NESTING_LIMIT ?s m1 = (Some (j, rest), m2)" "plenty m2"
    using rd m1(2) r unfolding reads_def by metis
  then show ?thesis using m1 b s by (simp add: bscJSON_Parse_def bscJSON_ParseWithOpts_def)
qed

definition all_memory :: mem where
  "all_memory = \<lparr>m_ok = \<lambda>_. True, m_calls = 0, live = 0\<rparr>"

section \<open>Properties\<close>

text \<open>
  C9: What is printed is parsed back: for a tree of integers, texts without NUL, arrays and objects
  at most 1000 deep, \<open>bscJSON_Print\<close> (or the unformatted variant) returns a text while memory lasts
  and the text is shorter than \<open>INT_MAX\<close>, and \<open>bscJSON_Parse\<close> reads the tree back from it, whatever
  follows (for a bare number, nothing that could continue it).
\<close>

theorem print_parse_round_trip:
  assumes "plain bscJSON_NESTING_LIMIT j" and "\<And>n. m_ok m n" and "\<And>n. m_ok m' n"
    and "int (length (json_text f 0 j)) + 2 < INT_MAX"
    and "(\<exists>i x. j = BNumber i x) \<longrightarrow> ends_number rest"
  shows "\<exists>t m1 m2. print j f m = Some (Some t, m1) \<and> bscJSON_Parse (t @ rest) m' = (Some j, m2)"
proof -
  obtain m1 where "print j f m = Some (Some (json_text f 0 j), m1)"
    using print_succeeds [OF plain_fits [OF assms(1)] assms(4,2)] by blast
  moreover obtain m2 where "bscJSON_Parse (json_text f 0 j @ rest) m' = (Some j, m2)"
    using parse_printed [OF assms(1), of m' rest f] assms(3,5) by (auto simp: plenty_def)
  ultimately show ?thesis by blast
qed

theorem print_parse_round_trip_witness:
  "\<exists>t m1 m2. print (BObject [(''a'', BArray [BNumber (- 12) (Fin (- 12)), BString [CHR 0x01, CHR 0x22]])]) True all_memory =
      (Some (Some t, m1)) \<and>
    bscJSON_Parse (t @ ''zz'') all_memory =
      (Some (BObject [(''a'', BArray [BNumber (- 12) (Fin (- 12)), BString [CHR 0x01, CHR 0x22]])]), m2)"
proof (rule print_parse_round_trip)
  show "plain bscJSON_NESTING_LIMIT
      (BObject [(''a'', BArray [BNumber (- 12) (Fin (- 12)), BString [CHR 0x01, CHR 0x22]])])"
    by (simp add: bscJSON_NESTING_LIMIT_def INT_MIN_def INT_MAX_def)
  show "int (length (json_text True 0
      (BObject [(''a'', BArray [BNumber (- 12) (Fin (- 12)), BString [CHR 0x01, CHR 0x22]])]))) + 2 < INT_MAX"
    by code_simp
qed (simp_all add: all_memory_def)

text \<open>Freeing leaves what can be allocated.\<close>

lemma plenty_free [simp]: "plenty (free m) = plenty m"
  by (simp add: plenty_def free_def)

lemma plenty_Delete [simp]: "plenty (bscJSON_Delete j m) = plenty m"
proof (induction j arbitrary: m)
  case (BArray js)
  then have "plenty (fold bscJSON_Delete js m) = plenty m" by (induction js arbitrary: m) auto
  then show ?case by simp
next
  case (BObject ms)
  then have "plenty (fold (\<lambda>(name, j) m. free (bscJSON_Delete j m)) ms m) = plenty m"
    by (induction ms arbitrary: m) fastforce+
  then show ?case by simp
qed simp_all

end
