(* ===== verification/Bsc_Kernel.thy ===== *)
theory Bsc_Kernel
  imports Bsc_Roundtrip Das_Publish
begin

text \<open>
  The kernel with its own JSON library: the trees the other theories use are the nodes of
  bscJSON.c, and the parameters of the environment that print and parse become its printer and
  its parser.
\<close>

section \<open>Nodes and trees\<close>

text \<open>
  The integral part of a \<open>double\<close>; one that is no number or infinite counts as a number outside
  every integer type, so that its conversion stays undefined.
\<close>

fun integral :: "double \<Rightarrow> int" where
  "integral (Fin x) = trunc x"
| "integral (Inf s) = (if s then - (2 ^ 1024) else 2 ^ 1024)"
| "integral NaN = 2 ^ 1024"

text \<open>The parser makes no raw node.\<close>

fun tree :: "jnode \<Rightarrow> bscJSON" where
  "tree BNull = JNull"
| "tree BFalse = JFalse"
| "tree BTrue = JTrue"
| "tree (BNumber i d) = JNumber i (integral d)"
| "tree (BString s) = JString s"
| "tree (BRaw s) = JNull"
| "tree (BArray js) = JArray (map tree js)"
| "tree (BObject ms) = JObject (map (\<lambda>(name, j). (name, tree j)) ms)"

fun node_of :: "bscJSON \<Rightarrow> jnode" where
  "node_of JNull = BNull"
| "node_of JFalse = BFalse"
| "node_of JTrue = BTrue"
| "node_of (JNumber i d) = BNumber i (d_of_int d)"
| "node_of (JString s) = BString s"
| "node_of (JArray js) = BArray (map node_of js)"
| "node_of (JObject ms) = BObject (map (\<lambda>(name, j). (name, node_of j)) ms)"

lemma tree_node_of [simp]: "tree (node_of j) = j"
proof (induction j)
  case (JArray js)
  then show ?case by (auto intro: map_idI)
next
  case (JObject ms)
  then show ?case by (fastforce intro: map_idI)
qed (simp_all add: d_of_int_def trunc_def)

text \<open>The environment \<open>e\<close> with the routines of bscJSON.c for the JSON library, while memory lasts.\<close>

definition own_print :: "bscJSON \<Rightarrow> string" where
  "own_print j = json_text False 0 (node_of j)"

definition own_parse :: "string \<Rightarrow> bscJSON option" where
  "own_parse s = map_option tree (fst (bscJSON_Parse s all_memory))"

definition own_json :: "env \<Rightarrow> env" where
  "own_json e = e\<lparr>e_json_print := own_print, e_json_parse := own_parse\<rparr>"

section \<open>The common part of a message\<close>

lemma common_node:
  assumes "\<bar>t\<bar> < 2 ^ 31 - 1" and "uint seq < 2 ^ 31 - 1"
  shows "node_of (common_json t ver seq) = BObject
    [(''CmdVer'', BString ver), (''Seq'', BNumber (uint seq) (Fin (of_int (uint seq)))),
     (''MsgType'', BNumber t (Fin (of_int t)))]"
proof -
  have "json_number t = JNumber t t" using assms(1) unfolding json_number_def by auto
  moreover have "json_number (uint seq) = JNumber (uint seq) (uint seq)"
    using assms(2) order_trans [of 0 "uint seq" "- 2147483648"] by (auto simp: json_number_def)
  ultimately show ?thesis by (simp add: common_json_def d_of_int_def)
qed

lemma common_plain:
  assumes "\<bar>t\<bar> < 2 ^ 31 - 1" and "uint seq < 2 ^ 31 - 1" and "CHR 0x00 \<notin> set ver"
  shows "plain bscJSON_NESTING_LIMIT (node_of (common_json t ver seq))"
proof -
  have k: "bscJSON_NESTING_LIMIT = Suc 999" by (simp add: bscJSON_NESTING_LIMIT_def)
  have "INT_MIN \<le> uint seq" by (rule order_trans [of _ 0]) (simp_all add: INT_MIN_def)
  then show ?thesis using assms
    by (simp add: common_node [OF assms(1,2)] k) (auto simp: INT_MIN_def INT_MAX_def)
qed

lemma common_text:
  assumes "\<bar>t\<bar> < 2 ^ 31 - 1" and "uint seq < 2 ^ 31 - 1"
  shows "json_text False 0 (node_of (common_json t ver seq)) =
    CHR ''{'' # quoted ''CmdVer'' @ CHR '':'' # quoted ver @ CHR '','' # quoted ''Seq'' @ CHR '':'' #
    format_d (uint seq) @ CHR '','' # quoted ''MsgType'' @ CHR '':'' # format_d t @ ''}''"
proof -
  have "INT_MIN \<le> uint seq" by (rule order_trans [of _ 0]) (simp_all add: INT_MIN_def)
  moreover have "uint seq \<le> INT_MAX" "INT_MIN \<le> t" "t \<le> INT_MAX"
    using assms by (auto simp: INT_MIN_def INT_MAX_def)
  ultimately show ?thesis using number_text_int [of "uint seq"] number_text_int [of t]
    by (simp add: common_node [OF assms])
qed

lemma common_text_small:
  assumes "\<bar>t\<bar> < 2 ^ 31 - 1" and "uint seq < 2 ^ 31 - 1" and "length ver < version_max_len"
  shows "length (json_text False 0 (node_of (common_json t ver seq))) < 2 ^ 16"
    and "CHR 0x00 \<notin> set (json_text False 0 (node_of (common_json t ver seq)))"
proof -
  have "INT_MIN \<le> uint seq" by (rule order_trans [of _ 0]) (simp_all add: INT_MIN_def)
  moreover have "uint seq \<le> INT_MAX" "INT_MIN \<le> t" "t \<le> INT_MAX"
    using assms by (auto simp: INT_MIN_def INT_MAX_def)
  ultimately have "length (format_d (uint seq)) \<le> 11" "length (format_d t) \<le> 11"
    by (simp_all add: format_d_length)
  then show "length (json_text False 0 (node_of (common_json t ver seq))) < 2 ^ 16"
    using length_quoted [of ver] length_quoted [of "''CmdVer''"] length_quoted [of "''Seq''"]
      length_quoted [of "''MsgType''"] assms(3)
    by (simp add: common_text [OF assms(1,2)] version_max_len_def)
  show "CHR 0x00 \<notin> set (json_text False 0 (node_of (common_json t ver seq)))"
    by (simp add: common_text [OF assms(1,2)] nul_quoted nul_format_d)
qed

text \<open>What the round trip of a message asks of the environment holds of the program's own library.\<close>

definition crypto_inverts :: "env \<Rightarrow> bool" where
  "crypto_inverts e \<longleftrightarrow> (\<forall>t. e_json_create e t) \<and> (\<forall>t. e_json_print_ok e t) \<and>
     (\<forall>t. e_aes_setkey e t = 0) \<and> (\<forall>t. e_aes_crypt e t = 0) \<and>
     (\<forall>k iv b. length b mod 16 = 0 \<longrightarrow> length (e_aes_enc e k iv b) = length b \<and>
        e_aes_dec e k iv (e_aes_enc e k iv b) = b)"

lemma own_json_rt:
  assumes "crypto_inverts e" and t: "\<bar>t\<bar> < 2 ^ 31 - 1" "uint seq < 2 ^ 31 - 1"
    and v: "CHR 0x00 \<notin> set ver" "length ver < version_max_len"
  shows "rt_env (common_json t ver seq) (own_json e)"
proof -
  let ?j = "node_of (common_json t ver seq)"
  have "\<exists>m'. bscJSON_Parse (json_text False 0 ?j @ rest) all_memory = (Some ?j, m') \<and> plenty m'" for rest
    by (rule parse_printed [OF common_plain [OF t v(1)]])
      (simp_all add: plenty_def all_memory_def common_node [OF t])
  then have "map_option tree (fst (bscJSON_Parse (json_text False 0 ?j @ rest) all_memory)) =
      Some (common_json t ver seq)" for rest by (metis fst_conv option.map(2) tree_node_of)
  then show ?thesis using assms(1) common_text_small [OF t v(2)]
    by (simp add: rt_env_def own_json_def own_print_def own_parse_def crypto_inverts_def)
qed

section \<open>Properties\<close>

text \<open>
  C11: What one side publishes the other side reads, with the JSON library of the program itself:
  with the same session key, the packet that \<open>das_send_pubmsg\<close> hands to the MQTT client is taken
  apart by the receiving routine into the version, the sequence number and the body the sender
  put in, for every body that is not empty (below 2^30 bytes), every version text that fits its
  field and every sequence number below 2^31 - 1.  What is asked of the environment is a cipher
  that inverts itself on whole blocks and calls that do not fail.
\<close>

theorem publish_receive_round_trip:
  fixes n :: u32
  assumes e: "crypto_inverts e" "env w = own_json e" "env v = own_json e"
    and same: "session_key (g_ezdev_sdk_kernel v) = session_key (g_ezdev_sdk_kernel w)"
    and n: "unat n = length body" "length body < 2 ^ 30" "body \<noteq> []"
    and ver: "CHR 0x00 \<notin> set ver" "length ver < version_max_len" and seq: "uint seq < 2 ^ 31 - 1"
    and pub: "publish_payload (\<lambda>n. n) topic qos response ver seq (Some body) n w = (mkernel_internal_succ, w')"
    and mem: "fst (w_malloc v)"
  shows "\<exists>p buf v'. trace w' = Do_publish topic qos p # trace w \<and>
    receive_payload deserialize_common (\<lambda>b k m. m\<lparr>sm_buf := b, sm_buf_len := k\<rparr>) p m v =
      (mkernel_internal_succ, m\<lparr>sm_command_ver := ver, sm_msg_seq := seq, sm_buf := Some buf, sm_buf_len := n\<rparr>, v') \<and>
    take (unat n) buf = body"
proof -
  have "rt_env (common_json (if response = 0 then 1 else 2) ver seq) (env w)"
    unfolding e(2) by (rule own_json_rt [OF e(1) _ seq ver]) simp
  then show ?thesis
    by (rule published_is_received [OF _ _ same n ver seq pub mem]) (simp add: e)
qed

theorem publish_receive_round_trip_witness:
  "\<exists>w p buf v'. env w = own_json calm_env \<and>
    trace (snd (publish_payload (\<lambda>n. n) ''/t'' QOS_T1 0 ''v1'' 7 (Some [1, 2, 3]) 3 w)) = Do_publish ''/t'' QOS_T1 p # trace w \<and>
    receive_payload deserialize_common (\<lambda>b k m. m\<lparr>sm_buf := b, sm_buf_len := k\<rparr>) p zero_submsg w =
      (mkernel_internal_succ, zero_submsg\<lparr>sm_command_ver := ''v1'', sm_msg_seq := 7, sm_buf := Some buf, sm_buf_len := 3\<rparr>, v') \<and>
    take (unat (3 :: u32)) buf = [1, 2, 3]"
proof -
  let ?w = "demo_world (own_json calm_env)"
  have e: "env ?w = own_json calm_env"
    by (simp add: own_json_def calm_env_def demo_world_simps demo_init_simps boot_world_def)
  moreover have "publish_payload (\<lambda>n. n) ''/t'' QOS_T1 0 ''v1'' 7 (Some [1, 2, 3]) 3 ?w =
      (mkernel_internal_succ, snd (publish_payload (\<lambda>n. n) ''/t'' QOS_T1 0 ''v1'' 7 (Some [1, 2, 3]) 3 ?w))"
    by (intro prod_eqI) (code_simp, simp)
  moreover have "fst (w_malloc ?w)" by code_simp
  moreover have "crypto_inverts calm_env" by (simp add: crypto_inverts_def calm_env_def)
  ultimately show ?thesis
    using publish_receive_round_trip [of calm_env ?w ?w 3 "[1, 2, 3]" "''v1''" 7 "''/t''" QOS_T1 0]
    by (fastforce simp: version_max_len_def)
qed

end
