(* ===== verification/Tsl_Schema.thy ===== *)
theory Tsl_Schema
  imports Bsc_Parse
begin

text \<open>
  The schemas of the thing model: component/tsl/profile_parse.h and the routines of
  profile_parse.c that read a schema from the JSON text of a profile and free it.  A union and the
  tag that selects its member are a constructor; a pointer to an array and its length are a list,
  empty for a null pointer.  Results are \<open>None\<close> where the behaviour of the code is undefined.
\<close>

section \<open>JSON nodes\<close>

definition node_children :: "jnode \<Rightarrow> (string option \<times> jnode) list" where
  "node_children j = (case j of BArray js \<Rightarrow> map (\<lambda>x. (None, x)) js
                              | BObject ms \<Rightarrow> map (\<lambda>(k, x). (Some k, x)) ms | _ \<Rightarrow> [])"

text \<open>The first child of a name, upper and lower case not distinguished.\<close>

definition node_item :: "jnode \<Rightarrow> string \<Rightarrow> jnode option" where
  "node_item j name = map_option snd (List.find (\<lambda>(k, x). case_insensitive_strcmp name k) (node_children j))"

definition number_item :: "jnode \<Rightarrow> string \<Rightarrow> (int \<times> double) option" where
  "number_item j name = (case node_item j name of Some (BNumber i d) \<Rightarrow> Some (i, d) | _ \<Rightarrow> None)"

definition string_item :: "jnode \<Rightarrow> string \<Rightarrow> string option" where
  "string_item j name = (case node_item j name of Some (BString s) \<Rightarrow> Some s | _ \<Rightarrow> None)"

definition array_item :: "jnode \<Rightarrow> string \<Rightarrow> jnode list option" where
  "array_item j name = (case node_item j name of Some (BArray js) \<Rightarrow> Some js | _ \<Rightarrow> None)"

fun is_object :: "jnode \<Rightarrow> bool" where
  "is_object (BObject ms) = True"
| "is_object _ = False"

definition object_item :: "jnode \<Rightarrow> string \<Rightarrow> jnode option" where
  "object_item j name = (case node_item j name of Some x \<Rightarrow> if is_object x then Some x else None | None \<Rightarrow> None)"

lemma node_item_child: "node_item j name = Some x \<Longrightarrow> \<exists>k. (k, x) \<in> set (node_children j)"
  by (auto simp: node_item_def find_Some_iff) (metis nth_mem)

lemma size_list_mem: "x \<in> set xs \<Longrightarrow> f x \<le> size_list f xs"
  by (induction xs) auto

lemma node_item_size: "node_item j name = Some x \<Longrightarrow> size x < size j"
  using size_list_mem [of x _ size]
  by (auto dest!: node_item_child simp: node_children_def less_Suc_eq_le split: jnode.splits)
    (fastforce dest: size_list_mem [where f = "size_prod (\<lambda>_. 0) size"])

lemma object_item_size [termination_simp]: "object_item j name = Some x \<Longrightarrow> size x < size j"
  by (auto simp: object_item_def dest: node_item_size split: option.splits if_splits)

lemma array_item_size [termination_simp]: "array_item j name = Some js \<Longrightarrow> size_list size js < size j"
proof -
  assume "array_item j name = Some js"
  then have "size (BArray js) < size j"
    by (auto simp: array_item_def dest: node_item_size split: option.splits jnode.splits)
  then show ?thesis by simp
qed

section \<open>Schemas\<close>

datatype tsl_data_type_e =
  tsl_data_type_bool | tsl_data_type_int | tsl_data_type_double | tsl_data_type_string
| tsl_data_type_array | tsl_data_type_object | tsl_data_type_null | tsl_data_type_max

record type_integer =
  ti_minimum :: int
  ti_exminimum :: int
  ti_maximum :: int
  ti_exmaximum :: int
  ti_multiple :: int
  int_enum :: "int list"

record type_number =
  tn_minimum :: double
  tn_exminimum :: double
  tn_maximum :: double
  tn_exmaximum :: double
  tn_multiple :: double
  num_enum :: "double list"

record type_string =
  ts_min_len :: int
  ts_max_len :: int
  str_enum :: "string list"

text \<open>
  Every schema has its \<open>prop_key\<close>; an array its \<open>minItem\<close>, \<open>maxItem\<close> and the schemas at \<open>item_prop\<close>, an
  object its \<open>max_props\<close>, \<open>min_props\<close>, \<open>required\<close> names and the schemas at \<open>property\<close>.
\<close>

datatype tsl_schema_desc =
  S_bool string
| S_int string type_integer
| S_double string type_number
| S_string string type_string
| S_array string int int "tsl_schema_desc list"
| S_object string int int "string list" "tsl_schema_desc list"
| S_max string

fun item_type :: "tsl_schema_desc \<Rightarrow> tsl_data_type_e" where
  "item_type (S_bool k) = tsl_data_type_bool"
| "item_type (S_int k t) = tsl_data_type_int"
| "item_type (S_double k t) = tsl_data_type_double"
| "item_type (S_string k t) = tsl_data_type_string"
| "item_type (S_array k mn mx ps) = tsl_data_type_array"
| "item_type (S_object k mx mn req ps) = tsl_data_type_object"
| "item_type (S_max k) = tsl_data_type_max"

fun prop_key :: "tsl_schema_desc \<Rightarrow> string" where
  "prop_key (S_bool k) = k"
| "prop_key (S_int k t) = k"
| "prop_key (S_double k t) = k"
| "prop_key (S_string k t) = k"
| "prop_key (S_array k mn mx ps) = k"
| "prop_key (S_object k mx mn req ps) = k"
| "prop_key (S_max k) = k"

section \<open>Error codes\<close>

definition ez_errno_succ :: int where "ez_errno_succ = 0"
definition ez_errno_tsl_param_invalid :: int where "ez_errno_tsl_param_invalid = 0x00040003"
definition ez_errno_tsl_internal :: int where "ez_errno_tsl_internal = 0x00040004"
definition ez_errno_tsl_memory :: int where "ez_errno_tsl_memory = 0x00040005"
definition ez_errno_tsl_value_type :: int where "ez_errno_tsl_value_type = 0x0004000b"
definition ez_errno_tsl_value_illegal :: int where "ez_errno_tsl_value_illegal = 0x0004000c"

section \<open>Reading a schema\<close>

text \<open>
  An array of \<open>enum\<close>, empty without one and where the allocation failed; the elements that are
  not of the type stay zero.
\<close>

definition parse_enum :: "(jnode \<Rightarrow> 'a) \<Rightarrow> jnode \<Rightarrow> mem \<Rightarrow> 'a list \<times> mem" where
  "parse_enum f js_schema m =
     (case array_item js_schema ''enum'' of
        None \<Rightarrow> ([], m)
      | Some js \<Rightarrow> if js = [] then ([], m)
          else (case malloc m of (ok, m1) \<Rightarrow> (if ok then map f js else [], m1)))"

definition int_of_node :: "jnode \<Rightarrow> int" where
  "int_of_node j = (case j of BNumber i d \<Rightarrow> i | _ \<Rightarrow> 0)"

definition double_of_node :: "jnode \<Rightarrow> double" where
  "double_of_node j = (case j of BNumber i d \<Rightarrow> d | _ \<Rightarrow> Fin 0)"

definition name_of_node :: "jnode \<Rightarrow> string" where
  "name_of_node j = (case j of BString s \<Rightarrow> strncpy0 31 s | _ \<Rightarrow> [])"

definition int_bound :: "jnode \<Rightarrow> string \<Rightarrow> int" where
  "int_bound j name = (case number_item j name of Some (i, d) \<Rightarrow> i | None \<Rightarrow> 0)"

definition double_bound :: "jnode \<Rightarrow> string \<Rightarrow> double" where
  "double_bound j name = (case number_item j name of Some (i, d) \<Rightarrow> d | None \<Rightarrow> Fin 0)"

text \<open>An exclusive bound is read only without an inclusive one; \<open>multiple\<close> is converted to \<open>int\<close>.\<close>

definition parse_integer :: "jnode \<Rightarrow> mem \<Rightarrow> (type_integer \<times> mem) option" where
  "parse_integer j m =
     (let ex = (\<lambda>name exname. if number_item j name \<noteq> None then 0 else int_bound j exname) in
      case (case number_item j ''multi'' of None \<Rightarrow> Some 0 | Some (i, d) \<Rightarrow> int_of_double d) of
        None \<Rightarrow> None
      | Some multi \<Rightarrow> (case parse_enum int_of_node j m of (es, m1) \<Rightarrow>
          Some (\<lparr>ti_minimum = int_bound j ''mn'', ti_exminimum = ex ''mn'' ''emn'',
                 ti_maximum = int_bound j ''mx'', ti_exmaximum = ex ''mx'' ''emx'',
                 ti_multiple = multi, int_enum = es\<rparr>, m1)))"

definition parse_number_schema :: "jnode \<Rightarrow> mem \<Rightarrow> type_number \<times> mem" where
  "parse_number_schema j m =
     (let ex = (\<lambda>name exname. if number_item j name \<noteq> None then Fin 0 else double_bound j exname) in
      case parse_enum double_of_node j m of (es, m1) \<Rightarrow>
        (\<lparr>tn_minimum = double_bound j ''mn'', tn_exminimum = ex ''mn'' ''emn'',
          tn_maximum = double_bound j ''mx'', tn_exmaximum = ex ''mx'' ''emx'',
          tn_multiple = double_bound j ''multi'', num_enum = es\<rparr>, m1))"

definition parse_string_schema :: "jnode \<Rightarrow> mem \<Rightarrow> type_string \<times> mem" where
  "parse_string_schema j m =
     (case parse_enum name_of_node j m of (es, m1) \<Rightarrow>
        (\<lparr>ts_min_len = int_bound j ''mnl'', ts_max_len = int_bound j ''mxl'', str_enum = es\<rparr>, m1))"

text \<open>The schema is all zero before, a boolean one without a key.\<close>

definition zero_schema :: tsl_schema_desc where
  "zero_schema = S_bool []"

function parse_schema :: "jnode \<Rightarrow> mem \<Rightarrow> (int \<times> tsl_schema_desc \<times> mem) option"
  and parse_schemas :: "jnode list \<Rightarrow> mem \<Rightarrow> (tsl_schema_desc list \<times> mem) option" where
  "parse_schema j m =
     (case string_item j ''type'' of
        None \<Rightarrow> Some (ez_errno_succ, zero_schema, m)
      | Some type \<Rightarrow>
        let key = (case string_item j ''key'' of None \<Rightarrow> [] | Some s \<Rightarrow> strncpy0 31 s) in
        if type = ''str'' then
          (case parse_string_schema j m of (t, m1) \<Rightarrow> Some (ez_errno_succ, S_string key t, m1))
        else if type = ''bool'' then Some (ez_errno_succ, S_bool key, m)
        else if type = ''int'' then
          map_option (\<lambda>(t, m1). (ez_errno_succ, S_int key t, m1)) (parse_integer j m)
        else if type = ''num'' then
          (case parse_number_schema j m of (t, m1) \<Rightarrow> Some (ez_errno_succ, S_double key t, m1))
        else if type = ''obj'' then
          (let obj = S_object key (int_bound j ''mnp'') (int_bound j ''mxp'') in
           case (case array_item j ''req'' of
                   None \<Rightarrow> (True, [], m)
                 | Some js \<Rightarrow> if js = [] then (True, [], m)
                     else (case malloc m of (ok, m1) \<Rightarrow> (ok, if ok then map name_of_node js else [], m1))) of
             (ok, req, m1) \<Rightarrow>
               if \<not> ok then Some (ez_errno_tsl_memory, obj [] [], m1)
               else (case array_item j ''prop'' of
                   None \<Rightarrow> Some (ez_errno_succ, obj req [], m1)
                 | Some js \<Rightarrow> if js = [] then Some (ez_errno_succ, obj req [], m1)
                     else (case malloc m1 of (ok, m2) \<Rightarrow>
                       if \<not> ok then Some (ez_errno_tsl_memory, obj req [], m2)
                       else map_option (\<lambda>(ps, m3). (ez_errno_succ, obj req ps, m3)) (parse_schemas js m2))))
        else if type = ''arr'' then
          (let arr = S_array key (int_bound j ''mnitm'') (int_bound j ''mxitm'') in
           case object_item j ''itm'' of
             None \<Rightarrow> Some (ez_errno_tsl_param_invalid, arr [], m)
           | Some x \<Rightarrow>
             (case malloc m of (ok, m1) \<Rightarrow>
                if \<not> ok then Some (ez_errno_tsl_memory, arr [], m1)
                else map_option (\<lambda>(r, s, m2). (ez_errno_succ, arr [s], m2)) (parse_schema x m1)))
        else Some (ez_errno_succ, S_max key, m))"
| "parse_schemas [] m = Some ([], m)"
| "parse_schemas (j # js) m =
     (case (if is_object j then map_option snd (parse_schema j m) else Some (zero_schema, m)) of
        None \<Rightarrow> None
      | Some (s, m1) \<Rightarrow> map_option (\<lambda>(ss, m2). (s # ss, m2)) (parse_schemas js m1))"
  by pat_completeness auto
termination
  by (relation "measure (\<lambda>x. case x of Inl (j, m) \<Rightarrow> size j | Inr (js, m) \<Rightarrow> size_list size js)")
    (auto simp: object_item_size array_item_size)

declare parse_schema.simps [simp del]

section \<open>Freeing a schema\<close>

text \<open>
  The elements of \<open>item_prop\<close> and \<open>property\<close> are addressed as \<open>p + i\<close> with \<open>p\<close> of type \<open>void *\<close>: from the
  second element on the address is \<open>i\<close> bytes into the first, and what is read there is no schema.
\<close>

fun free_schema_memory :: "tsl_schema_desc \<Rightarrow> mem \<Rightarrow> mem option" where
  "free_schema_memory (S_bool k) m = Some m"
| "free_schema_memory (S_double k t) m = Some (if num_enum t \<noteq> [] then free m else m)"
| "free_schema_memory (S_int k t) m = Some (if int_enum t \<noteq> [] then free m else m)"
| "free_schema_memory (S_string k t) m = Some (if str_enum t \<noteq> [] then free m else m)"
| "free_schema_memory (S_array k mn mx ps) m =
     (case ps of [] \<Rightarrow> Some m | [s] \<Rightarrow> map_option free (free_schema_memory s m) | _ \<Rightarrow> None)"
| "free_schema_memory (S_object k mx mn req ps) m =
     (let m1 = (if req \<noteq> [] then free m else m) in
      case ps of [] \<Rightarrow> Some m1 | [s] \<Rightarrow> map_option free (free_schema_memory s m1) | _ \<Rightarrow> None)"
| "free_schema_memory (S_max k) m = Some m"

lemma Parse_live:
  assumes "bscJSON_Parse v m = (r, m')"
  shows "live m' = live m + (case r of None \<Rightarrow> 0 | Some j \<Rightarrow> int (blocks j))"
proof -
  obtain x m2 where x: "bscJSON_ParseWithOpts v False m = (x, m2)" by force
  show ?thesis using assms ParseWithOpts_contract(1) [OF x] x by (auto simp: bscJSON_Parse_def split: option.splits)
qed

end
