(* ===== verification/Tsl_Check.thy ===== *)
theory Tsl_Check
  imports Tsl_Schema Bsc_Roundtrip
begin

text \<open>
  component/tsl/tsl_info_check.c: whether a value reported or set for a feature of the thing model
  conforms to its schema.  The value of an array or an object is the text of its JSON, which is
  parsed again at every level, and its elements are printed again for the level below.  A result
  \<open>None\<close> is undefined behaviour; otherwise it is the code returned and the heap.
\<close>

section \<open>Values\<close>

datatype tsl_value_u =
  V_bool bool | V_int int | V_double double | V_string string | V_array string | V_object string

record tsl_value_t =
  tv_size :: int
  tv_data :: tsl_value_u

fun value_type :: "tsl_value_u \<Rightarrow> tsl_data_type_e" where
  "value_type (V_bool b) = tsl_data_type_bool"
| "value_type (V_int i) = tsl_data_type_int"
| "value_type (V_double d) = tsl_data_type_double"
| "value_type (V_string s) = tsl_data_type_string"
| "value_type (V_array s) = tsl_data_type_array"
| "value_type (V_object s) = tsl_data_type_object"

definition zero_value :: tsl_value_t where
  "zero_value = \<lparr>tv_size = 0, tv_data = V_bool False\<rparr>"

type_synonym checked = "(int \<times> mem) option"
type_synonym checker = "tsl_value_t \<Rightarrow> mem \<Rightarrow> checked"

section \<open>Simple values\<close>

text \<open>The remainder of \<open>INT_MIN\<close> by -1 is undefined in C.\<close>

definition check_int_value :: "type_integer \<Rightarrow> int \<Rightarrow> int option" where
  "check_int_value t v =
     (if int_enum t \<noteq> [] then Some (if v \<in> set (int_enum t) then 0 else ez_errno_tsl_value_illegal)
      else if ti_multiple t = - 1 \<and> v = INT_MIN then None
      else if ti_multiple t \<noteq> 0 \<and> v mod ti_multiple t \<noteq> 0 then Some ez_errno_tsl_value_illegal
      else if 0 \<noteq> ti_maximum t \<and> 0 \<noteq> ti_minimum t \<and> ti_minimum t \<le> ti_maximum t then
        Some (if v \<le> ti_maximum t \<and> ti_minimum t \<le> v then 0 else ez_errno_tsl_value_illegal)
      else if 0 \<noteq> ti_exmaximum t \<and> 0 \<noteq> ti_exminimum t \<and> ti_exminimum t < ti_exmaximum t then
        Some (if v < ti_exmaximum t \<and> ti_exminimum t < v then 0 else ez_errno_tsl_value_illegal)
      else Some 0)"

definition d_zero :: "double \<Rightarrow> bool" where
  "d_zero d = d_eq (Fin 0) d"

definition check_double_value :: "type_number \<Rightarrow> double \<Rightarrow> int option" where
  "check_double_value t v =
     (if num_enum t \<noteq> [] then Some (if list_ex (d_eq v) (num_enum t) then 0 else ez_errno_tsl_value_illegal)
      else case (if d_zero (tn_multiple t) then Some True
                 else map_option (\<lambda>q. d_zero (d_minus (d_divide v (tn_multiple t)) (d_of_int q)))
                   (int_of_double (d_divide v (tn_multiple t)))) of
        None \<Rightarrow> None
      | Some False \<Rightarrow> Some ez_errno_tsl_value_illegal
      | Some True \<Rightarrow>
        if \<not> d_zero (tn_maximum t) \<and> \<not> d_zero (tn_minimum t) \<and> d_le (tn_minimum t) (tn_maximum t) then
          Some (if d_le v (tn_maximum t) \<and> d_le (tn_minimum t) v then 0 else ez_errno_tsl_value_illegal)
        else if \<not> d_zero (tn_exmaximum t) \<and> \<not> d_zero (tn_exminimum t) \<and> d_less (tn_exminimum t) (tn_exmaximum t) then
          Some (if d_less v (tn_exmaximum t) \<and> d_less (tn_exminimum t) v then 0 else ez_errno_tsl_value_illegal)
        else Some 0)"

definition check_string_value :: "type_string \<Rightarrow> string \<Rightarrow> int" where
  "check_string_value t s =
     (if str_enum t \<noteq> [] then (if s \<in> set (str_enum t) then 0 else ez_errno_tsl_value_illegal)
      else if 0 \<noteq> ts_min_len t \<and> 0 \<noteq> ts_max_len t \<and> ts_min_len t \<le> ts_max_len t then
        (if ts_min_len t \<le> int (length s) \<and> int (length s) \<le> ts_max_len t then 0 else ez_errno_tsl_value_illegal)
      else 0)"

section \<open>Values of JSON nodes\<close>

text \<open>
  The parenthesis of \<open>fabs (a - b || c || d)\<close> makes its argument a truth value: the number is an
  integer when the difference is exactly zero and it is neither of the bounds of \<open>int\<close>.
\<close>

definition taken_as_int :: "int \<Rightarrow> double \<Rightarrow> bool" where
  "taken_as_int i d =
     d_le (d_abs (d_of_int (if \<not> d_zero (d_minus d (d_of_int i)) \<or> i = INT_MAX \<or> i = INT_MIN then 1 else 0)))
       DBL_EPSILON"

text \<open>The code returned, the value and whether \<open>*str_msg\<close> is a block; null and raw nodes leave all zero.\<close>

definition tranform_value_from_json :: "jnode \<Rightarrow> mem \<Rightarrow> (int \<times> tsl_value_t \<times> bool \<times> mem) option" where
  "tranform_value_from_json js_prop m =
     (let printed = (\<lambda>mk. case print js_prop False m of
            None \<Rightarrow> None
          | Some (None, m1) \<Rightarrow> Some (- 1, zero_value, False, m1)
          | Some (Some t, m1) \<Rightarrow> Some (0, \<lparr>tv_size = int (length t), tv_data = mk t\<rparr>, True, m1))
      in case js_prop of
        BFalse \<Rightarrow> Some (0, \<lparr>tv_size = 1, tv_data = V_bool False\<rparr>, False, m)
      | BTrue \<Rightarrow> Some (0, \<lparr>tv_size = 1, tv_data = V_bool True\<rparr>, False, m)
      | BNumber i d \<Rightarrow>
          Some (0, (if taken_as_int i d then \<lparr>tv_size = 4, tv_data = V_int i\<rparr>
                    else \<lparr>tv_size = 8, tv_data = V_double d\<rparr>), False, m)
      | BString s \<Rightarrow>
          (case malloc m of (ok, m1) \<Rightarrow>
             Some (if ok then 0 else - 1, \<lparr>tv_size = int (length s), tv_data = V_string s\<rparr>, ok, m1))
      | BArray js \<Rightarrow> printed V_array
      | BObject ms \<Rightarrow> printed V_object
      | _ \<Rightarrow> Some (0, zero_value, False, m))"

section \<open>Arrays and objects\<close>

text \<open>Every schema is asked in turn; the last one's answer stays in \<open>ret\<close>.\<close>

fun run_checkers :: "checker list \<Rightarrow> tsl_value_t \<Rightarrow> int \<Rightarrow> mem \<Rightarrow> checked" where
  "run_checkers [] v ret m = Some (ret, m)"
| "run_checkers (c # cs) v ret m = (case c v m of None \<Rightarrow> None | Some (r, m1) \<Rightarrow> run_checkers cs v r m1)"

definition free_if :: "bool \<Rightarrow> mem \<Rightarrow> mem" where
  "free_if b m = (if b then free m else m)"

fun array_loop :: "checker list \<Rightarrow> jnode list \<Rightarrow> mem \<Rightarrow> checked" where
  "array_loop cs [] m = Some (0, m)"
| "array_loop cs (j # js) m =
     (case tranform_value_from_json j m of
        None \<Rightarrow> None
      | Some (r, v, str_msg, m1) \<Rightarrow>
          if r \<noteq> 0 then Some (ez_errno_tsl_value_illegal, free_if str_msg m1)
          else (case run_checkers cs v 0 m1 of
            None \<Rightarrow> None
          | Some (ret, m2) \<Rightarrow> if ret \<noteq> 0 then Some (ret, free_if str_msg m2)
              else array_loop cs js (free_if str_msg m2)))"

text \<open>
  \<open>bscJSON_Delete\<close> of the parsed text after the checks.  The upper bound is read as \<open>max_props\<close> of an
  object, the member of the union that shares its place with \<open>minItem\<close>.
\<close>

definition then_delete :: "jnode \<Rightarrow> checked \<Rightarrow> checked" where
  "then_delete js_root r = map_option (\<lambda>(ret, m). (ret, bscJSON_Delete js_root m)) r"

definition check_array_value :: "int \<Rightarrow> int \<Rightarrow> checker list \<Rightarrow> string \<Rightarrow> mem \<Rightarrow> checked" where
  "check_array_value minItem maxItem cs value m =
     (case bscJSON_Parse value m of
        (None, m1) \<Rightarrow> Some (ez_errno_tsl_value_illegal, m1)
      | (Some js_root, m1) \<Rightarrow>
          then_delete js_root
            (case js_root of
               BArray js \<Rightarrow>
                 let arr_num = int (length js); max_props = minItem in
                 if 0 \<noteq> minItem \<and> 0 \<noteq> maxItem \<and> minItem \<le> maxItem \<and> (minItem < arr_num \<or> max_props < arr_num)
                 then Some (ez_errno_tsl_value_illegal, m1)
                 else array_loop cs js m1
             | _ \<Rightarrow> Some (ez_errno_tsl_value_illegal, m1)))"

text \<open>\<open>strcmp\<close> on the missing name of an array's element is undefined.\<close>

fun object_loop :: "(string \<times> checker) list \<Rightarrow> (string option \<times> jnode) list \<Rightarrow> mem \<Rightarrow> checked" where
  "object_loop cs [] m = Some (0, m)"
| "object_loop cs ((name, j) # ms) m =
     (case tranform_value_from_json j m of
        None \<Rightarrow> None
      | Some (r, v, str_msg, m1) \<Rightarrow>
          if r \<noteq> 0 then Some (ez_errno_tsl_value_illegal, free_if str_msg m1)
          else if name = None \<and> cs \<noteq> [] then None
          else (case List.find (\<lambda>(key, c). Some key = name) cs of
            None \<Rightarrow> Some (ez_errno_tsl_value_illegal, free_if str_msg m1)
          | Some (key, c) \<Rightarrow>
              (case c v m1 of
                 None \<Rightarrow> None
               | Some (ret, m2) \<Rightarrow> if ret \<noteq> 0 then Some (ret, free_if str_msg m2)
                   else object_loop cs ms (free_if str_msg m2))))"

definition check_object_value ::
  "int \<Rightarrow> int \<Rightarrow> string list \<Rightarrow> (string \<times> checker) list \<Rightarrow> string \<Rightarrow> mem \<Rightarrow> checked" where
  "check_object_value max_props min_props required cs value m =
     (case bscJSON_Parse value m of
        (None, m1) \<Rightarrow> Some (ez_errno_tsl_value_illegal, m1)
      | (Some js_root, m1) \<Rightarrow>
          then_delete js_root
            (let obj_num = int (length (node_children js_root)) in
             if 0 \<noteq> min_props \<and> 0 \<noteq> max_props \<and> min_props \<le> max_props \<and>
                (obj_num < min_props \<or> max_props < obj_num)
             then Some (ez_errno_tsl_value_illegal, m1)
             else if list_ex (\<lambda>name. node_item js_root name = None) required
             then Some (ez_errno_tsl_value_illegal, m1)
             else object_loop cs (node_children js_root) m1))"

text \<open>A schema for numbers takes an integer as well.\<close>

fun check_schema_value :: "tsl_schema_desc \<Rightarrow> checker" where
  "check_schema_value (S_bool k) = (\<lambda>v m. case tv_data v of
     V_bool b \<Rightarrow> Some (0, m) | _ \<Rightarrow> Some (ez_errno_tsl_value_type, m))"
| "check_schema_value (S_int k t) = (\<lambda>v m. case tv_data v of
     V_int i \<Rightarrow> map_option (\<lambda>r. (r, m)) (check_int_value t i) | _ \<Rightarrow> Some (ez_errno_tsl_value_type, m))"
| "check_schema_value (S_double k t) = (\<lambda>v m. case tv_data v of
     V_double d \<Rightarrow> map_option (\<lambda>r. (r, m)) (check_double_value t d)
   | V_int i \<Rightarrow> map_option (\<lambda>r. (r, m)) (check_double_value t (d_of_int i))
   | _ \<Rightarrow> Some (ez_errno_tsl_value_type, m))"
| "check_schema_value (S_string k t) = (\<lambda>v m. case tv_data v of
     V_string s \<Rightarrow> Some (check_string_value t s, m) | _ \<Rightarrow> Some (ez_errno_tsl_value_type, m))"
| "check_schema_value (S_array k mn mx ps) = (\<lambda>v m. case tv_data v of
     V_array s \<Rightarrow> check_array_value mn mx (map check_schema_value ps) s m
   | _ \<Rightarrow> Some (ez_errno_tsl_value_type, m))"
| "check_schema_value (S_object k mx mn req ps) = (\<lambda>v m. case tv_data v of
     V_object s \<Rightarrow> check_object_value mx mn req (map (\<lambda>s. (prop_key s, check_schema_value s)) ps) s m
   | _ \<Rightarrow> Some (ez_errno_tsl_value_type, m))"
| "check_schema_value (S_max k) = (\<lambda>v m. Some (ez_errno_tsl_value_type, m))"

section \<open>The same on JSON trees\<close>

text \<open>What a schema accepts of a JSON tree, without texts in between.\<close>

fun valid :: "tsl_schema_desc \<Rightarrow> jnode \<Rightarrow> bool" where
  "valid (S_bool k) j = (j \<in> {BTrue, BFalse, BNull})"
| "valid (S_int k t) j = (case j of
     BNumber i d \<Rightarrow> taken_as_int i d \<and> check_int_value t i = Some 0 | _ \<Rightarrow> False)"
| "valid (S_double k t) j = (case j of
     BNumber i d \<Rightarrow> check_double_value t (if taken_as_int i d then d_of_int i else d) = Some 0 | _ \<Rightarrow> False)"
| "valid (S_string k t) j = (case j of BString s \<Rightarrow> check_string_value t s = 0 | _ \<Rightarrow> False)"
| "valid (S_array k mn mx ps) j = (case j of
     BArray js \<Rightarrow> (0 \<noteq> mn \<and> 0 \<noteq> mx \<and> mn \<le> mx \<longrightarrow> int (length js) \<le> mn) \<and>
       (ps = [] \<or> list_all (last (map valid ps)) js)
   | _ \<Rightarrow> False)"
| "valid (S_object k mx mn req ps) j = (case j of
     BObject ms \<Rightarrow> (0 \<noteq> mn \<and> 0 \<noteq> mx \<and> mn \<le> mx \<longrightarrow> mn \<le> int (length ms) \<and> int (length ms) \<le> mx) \<and>
       list_all (\<lambda>name. node_item j name \<noteq> None) req \<and>
       list_all (\<lambda>(name, x). case List.find (\<lambda>(key, ok). key = name) (map (\<lambda>s. (prop_key s, valid s)) ps) of
          None \<Rightarrow> False | Some (key, ok) \<Rightarrow> ok x) ms
   | _ \<Rightarrow> False)"
| "valid (S_max k) j = False"

lemma elements_text_depth:
  "\<forall>j \<in> set js. json_text False n j = json_text False k j \<Longrightarrow> elements_text False n js = elements_text False k js"
  by (induction js) simp_all

lemma members_text_depth:
  "\<forall>(name, j) \<in> set ms. json_text False n j = json_text False k j \<Longrightarrow>
   members_text False n ms = members_text False k ms"
  by (induction ms) auto

lemma json_text_depth: "json_text False n j = json_text False k j"
proof (induction j arbitrary: n k)
  case (BArray js)
  have "elements_text False (n + 1) js = elements_text False (k + 1) js"
    by (rule elements_text_depth) (use BArray in blast)
  then show ?case by simp
next
  case (BObject ms)
  have "members_text False (n + 1) ms = members_text False (k + 1) ms"
    by (rule members_text_depth) (use BObject in force)
  then show ?case by simp
qed simp_all

lemma elements_text_member:
  "j \<in> set js \<Longrightarrow> length (json_text False 0 j) \<le> length (elements_text False n js)"
proof (induction js)
  case (Cons x js)
  then show ?case using json_text_depth [of n j 0] by auto
qed simp

lemma members_text_member:
  "(k, j) \<in> set ms \<Longrightarrow> length (json_text False 0 j) \<le> length (members_text False n ms)"
proof (induction ms)
  case (Cons x ms)
  then show ?case using json_text_depth [of n j 0] by (cases x) auto
qed simp

lemma plain_mono: "plain k j \<Longrightarrow> k \<le> n \<Longrightarrow> plain n j"
proof (induction j arbitrary: k n)
  case (BArray js)
  from BArray.prems obtain k' n' where "k = Suc k'" "n = Suc n'" by (cases k; cases n) auto
  then show ?case using BArray by (auto simp: list_all_iff)
next
  case (BObject ms)
  from BObject.prems obtain k' n' where "k = Suc k'" "n = Suc n'" by (cases k; cases n) auto
  then show ?case using BObject by (fastforce simp: list_all_iff)
qed auto

text \<open>The trees the theorem is about: plain ones with a text that can be printed.\<close>

definition handy :: "jnode \<Rightarrow> bool" where
  "handy j = (plain bscJSON_NESTING_LIMIT j \<and> int (length (json_text False 0 j)) + 2 < INT_MAX)"

lemma handy_array: "handy (BArray js) \<Longrightarrow> j \<in> set js \<Longrightarrow> handy j"
proof -
  assume h: "handy (BArray js)" and j: "j \<in> set js"
  obtain k where k: "bscJSON_NESTING_LIMIT = Suc k" by (simp add: bscJSON_NESTING_LIMIT_def)
  have "plain k j" using h j by (simp add: handy_def k list_all_iff)
  then show ?thesis using h elements_text_member [OF j, of 1]
    by (auto simp: handy_def k intro: plain_mono)
qed

lemma handy_object: "handy (BObject ms) \<Longrightarrow> (k, j) \<in> set ms \<Longrightarrow> handy j"
proof -
  assume h: "handy (BObject ms)" and j: "(k, j) \<in> set ms"
  obtain l where l: "bscJSON_NESTING_LIMIT = Suc l" by (simp add: bscJSON_NESTING_LIMIT_def)
  have "plain l j" using h j by (fastforce simp: handy_def l list_all_iff)
  then show ?thesis using h members_text_member [OF j, of 1]
    by (auto simp: handy_def l intro: plain_mono)
qed

text \<open>The value a tree is turned into.\<close>

fun data_of :: "jnode \<Rightarrow> tsl_value_u" where
  "data_of BTrue = V_bool True"
| "data_of (BNumber i d) = (if taken_as_int i d then V_int i else V_double d)"
| "data_of (BString s) = V_string s"
| "data_of (BArray js) = V_array (json_text False 0 (BArray js))"
| "data_of (BObject ms) = V_object (json_text False 0 (BObject ms))"
| "data_of _ = V_bool False"

lemma transform_handy:
  assumes h: "handy j" and m: "plenty m"
  shows "\<exists>v b m1. tranform_value_from_json j m = Some (0, v, b, m1) \<and> tv_data v = data_of j \<and> plenty m1 \<and>
    live m1 = live m + (if b then 1 else 0)"
proof -
  have printed: "\<exists>m1. print j False m = Some (Some (json_text False 0 j), m1) \<and> plenty m1 \<and> live m1 = live m + 1"
  proof -
    have "fits j" "int (length (json_text False 0 j)) + 2 < INT_MAX" using h plain_fits by (auto simp: handy_def)
    then obtain m1 where "print j False m = Some (Some (json_text False 0 j), m1)" "plenty m1"
      using print_succeeds [of j False m] m unfolding plenty_def by blast
    then show ?thesis using print_contract(1) by fastforce
  qed
  obtain m1 where m1: "malloc m = (True, m1)" "plenty m1" using plenty_malloc [OF m] by blast
  then have l: "live m1 = live m + 1" using live_malloc [of m] by simp
  show ?thesis
  proof (cases j)
    case (BArray xs)
    let ?t = "json_text False 0 (BArray xs)"
    show ?thesis using printed unfolding BArray
      by (intro exI [of _ "\<lparr>tv_size = int (length ?t), tv_data = V_array ?t\<rparr>"] exI [of _ True])
        (auto simp: tranform_value_from_json_def BArray simp del: json_text.simps(7,8))
  next
    case (BObject xs)
    let ?t = "json_text False 0 (BObject xs)"
    show ?thesis using printed unfolding BObject
      by (intro exI [of _ "\<lparr>tv_size = int (length ?t), tv_data = V_object ?t\<rparr>"] exI [of _ True])
        (auto simp: tranform_value_from_json_def BObject simp del: json_text.simps(7,8))
  qed (use m m1 l in \<open>auto simp: tranform_value_from_json_def zero_value_def\<close>)
qed

lemma plenty_free_if [simp]: "plenty (free_if b m) = plenty m"
  by (simp add: free_if_def)

lemma live_free_if [acct]: "live (free_if b m) = live m - (if b then 1 else 0)"
  by (simp add: free_if_def acct)

lemma parse_handy:
  assumes "handy j" and "\<nexists>i x. j = BNumber i x" and "plenty m"
  shows "\<exists>m1. bscJSON_Parse (json_text False 0 j) m = (Some j, m1) \<and> plenty m1 \<and> live m1 = live m + int (blocks j)"
proof -
  obtain m1 where m1: "bscJSON_Parse (json_text False 0 j) m = (Some j, m1)" "plenty m1"
    using parse_printed [of j m "[]" False] assms by (auto simp: handy_def)
  obtain x m2 where x: "bscJSON_ParseWithOpts (json_text False 0 j) False m = (x, m2)" by force
  show ?thesis using m1 ParseWithOpts_contract(1) [OF x] x by (auto simp: bscJSON_Parse_def)
qed

text \<open>A checker that tells whether a tree is valid, and leaves the heap as it was.\<close>

definition sound :: "checker \<Rightarrow> (jnode \<Rightarrow> bool) \<Rightarrow> bool" where
  "sound c ok \<longleftrightarrow> (\<forall>j v m r m'. handy j \<longrightarrow> plenty m \<longrightarrow> tv_data v = data_of j \<longrightarrow> c v m = Some (r, m') \<longrightarrow>
     (r = 0 \<longleftrightarrow> ok j) \<and> live m' = live m \<and> plenty m')"

lemma soundD:
  assumes "sound c ok" "handy j" "plenty m" "tv_data v = data_of j" "c v m = Some (r, m')"
  shows "r = 0 \<longleftrightarrow> ok j" and "live m' = live m" and "plenty m'"
  using assms unfolding sound_def by blast+

lemma run_sound:
  assumes "list_all2 sound cs oks" "handy j" "plenty m" "tv_data v = data_of j" "run_checkers cs v ret m = Some (r, m')"
  shows "(r = 0 \<longleftrightarrow> (if oks = [] then ret = 0 else last oks j)) \<and> live m' = live m \<and> plenty m'"
  using assms
proof (induction cs oks arbitrary: ret m rule: list_all2_induct)
  case (Cons c cs ok oks)
  then obtain r1 m1 where c: "c v m = Some (r1, m1)" "run_checkers cs v r1 m1 = Some (r, m')"
    by (auto split: option.splits)
  note s = soundD [OF Cons(1) Cons.prems(1,2,3) c(1)]
  show ?case using Cons.IH [OF Cons.prems(1) s(3) Cons.prems(3) c(2)] s by auto
qed auto

lemma array_loop_sound:
  assumes "list_all2 sound cs oks" "\<forall>j \<in> set js. handy j" "plenty m" "array_loop cs js m = Some (r, m')"
  shows "(r = 0 \<longleftrightarrow> oks = [] \<or> list_all (last oks) js) \<and> live m' = live m \<and> plenty m'"
  using assms(2-)
proof (induction js arbitrary: m)
  case (Cons j js)
  have j: "handy j" using Cons.prems(1) by simp
  obtain v b m1 where t: "tranform_value_from_json j m = Some (0, v, b, m1)" "tv_data v = data_of j" "plenty m1"
    "live m1 = live m + (if b then 1 else 0)" using transform_handy [OF j Cons.prems(2)] by blast
  obtain r2 m2 where c: "run_checkers cs v 0 m1 = Some (r2, m2)" using Cons.prems(3) t(1) by (auto split: option.splits)
  note s = run_sound [OF assms(1) j t(3,2) c]
  show ?case
  proof (cases "r2 = 0")
    case True
    then have "array_loop cs js (free_if b m2) = Some (r, m')" using Cons.prems(3) t(1) c by simp
    then show ?thesis using Cons.IH [of "free_if b m2"] Cons.prems(1) s t(4) True by (auto simp: acct split: if_splits)
  next
    case False
    then show ?thesis using Cons.prems(3) t c s by (auto simp: acct split: if_splits)
  qed
qed simp

lemma find_sound:
  assumes "list_all2 (\<lambda>(k, c) (k', ok). k = k' \<and> sound c ok) cs oks"
  shows "(case List.find (\<lambda>(key, c). Some key = Some name) cs of
      None \<Rightarrow> List.find (\<lambda>(key, ok). key = name) oks = None
    | Some (key, c) \<Rightarrow> \<exists>k ok. List.find (\<lambda>(key, ok). key = name) oks = Some (k, ok) \<and> sound c ok)"
  using assms by (induction cs oks rule: list_all2_induct) (auto split: option.splits)

lemma object_loop_sound:
  assumes "list_all2 (\<lambda>(k, c) (k', ok). k = k' \<and> sound c ok) cs oks" "\<forall>(name, j) \<in> set ms. handy j" "plenty m"
    "object_loop cs (map (\<lambda>(k, x). (Some k, x)) ms) m = Some (r, m')"
  shows "(r = 0 \<longleftrightarrow> list_all (\<lambda>(name, x). case List.find (\<lambda>(key, ok). key = name) oks of
      None \<Rightarrow> False | Some (key, ok) \<Rightarrow> ok x) ms) \<and> live m' = live m \<and> plenty m'"
  using assms(2-)
proof (induction ms arbitrary: m)
  case (Cons a ms)
  obtain name j where a: "a = (name, j)" by (cases a)
  have j: "handy j" using Cons.prems(1) a by simp
  obtain v b m1 where t: "tranform_value_from_json j m = Some (0, v, b, m1)" "tv_data v = data_of j" "plenty m1"
    "live m1 = live m + (if b then 1 else 0)" using transform_handy [OF j Cons.prems(2)] by blast
  show ?case
  proof (cases "List.find (\<lambda>(key, c). Some key = Some name) cs")
    case None
    then show ?thesis using find_sound [OF assms(1), of name] Cons.prems(3) t
      by (auto simp: a acct ez_errno_tsl_value_illegal_def)
  next
    case (Some kc)
    obtain key c where kc: "kc = (key, c)" by (cases kc)
    obtain k ok where ok: "List.find (\<lambda>(key, ok). key = name) oks = Some (k, ok)" "sound c ok"
      using find_sound [OF assms(1), of name] Some kc by auto
    obtain r2 m2 where c: "c v m1 = Some (r2, m2)" using Cons.prems(3) t(1) Some kc
      by (auto simp: a split: option.splits)
    note s = soundD [OF ok(2) j t(3,2) c]
    show ?thesis
    proof (cases "r2 = 0")
      case True
      then have "object_loop cs (map (\<lambda>(k, x). (Some k, x)) ms) (free_if b m2) = Some (r, m')"
        using Cons.prems(3) t(1) c Some kc by (simp add: a)
      then show ?thesis using Cons.IH [of "free_if b m2"] Cons.prems(1) s t(4) True ok
        by (auto simp: a acct split: if_splits)
    next
      case False
      then show ?thesis using Cons.prems(3) t c s Some kc ok by (auto simp: a acct split: if_splits)
    qed
  qed
qed simp

lemma illegal_not_0 [simp]: "ez_errno_tsl_value_illegal \<noteq> 0" "ez_errno_tsl_value_type \<noteq> 0"
  by (simp_all add: ez_errno_tsl_value_illegal_def ez_errno_tsl_value_type_def)

lemma check_array_sound:
  assumes "list_all2 sound cs oks" "handy (BArray js)" "plenty m"
    "check_array_value mn mx cs (json_text False 0 (BArray js)) m = Some (r, m')"
  shows "(r = 0 \<longleftrightarrow> (0 \<noteq> mn \<and> 0 \<noteq> mx \<and> mn \<le> mx \<longrightarrow> int (length js) \<le> mn) \<and> (oks = [] \<or> list_all (last oks) js)) \<and>
    live m' = live m \<and> plenty m'"
proof -
  obtain m1 where m1: "bscJSON_Parse (json_text False 0 (BArray js)) m = (Some (BArray js), m1)" "plenty m1"
    "live m1 = live m + int (blocks (BArray js))" using parse_handy [OF assms(2) _ assms(3)] by blast
  let ?bad = "0 \<noteq> mn \<and> 0 \<noteq> mx \<and> mn \<le> mx \<and> mn < int (length js)"
  have u: "then_delete (BArray js) (if ?bad then Some (ez_errno_tsl_value_illegal, m1) else array_loop cs js m1) = Some (r, m')"
    using assms(4) m1(1) by (simp add: check_array_value_def Let_def del: json_text.simps)
  show ?thesis
  proof (cases ?bad)
    case True
    then have "r \<noteq> 0" "m' = bscJSON_Delete (BArray js) m1" using u by (auto simp: then_delete_def)
    then show ?thesis using True m1 by (simp add: acct del: bscJSON_Delete.simps)
  next
    case False
    then obtain m2 where m2: "array_loop cs js m1 = Some (r, m2)" "m' = bscJSON_Delete (BArray js) m2"
      using u by (auto simp: then_delete_def simp del: bscJSON_Delete.simps)
    have "\<forall>j \<in> set js. handy j" using handy_array assms(2) by blast
    then show ?thesis using array_loop_sound [OF assms(1) _ m1(2) m2(1)] m2(2) m1(3) False
      by (auto simp: acct simp del: bscJSON_Delete.simps)
  qed
qed

lemma check_object_sound:
  assumes "list_all2 (\<lambda>(k, c) (k', ok). k = k' \<and> sound c ok) cs oks" "handy (BObject ms)" "plenty m"
    "check_object_value mx mn req cs (json_text False 0 (BObject ms)) m = Some (r, m')"
  shows "(r = 0 \<longleftrightarrow> (0 \<noteq> mn \<and> 0 \<noteq> mx \<and> mn \<le> mx \<longrightarrow> mn \<le> int (length ms) \<and> int (length ms) \<le> mx) \<and>
      list_all (\<lambda>name. node_item (BObject ms) name \<noteq> None) req \<and>
      list_all (\<lambda>(name, x). case List.find (\<lambda>(key, ok). key = name) oks of
        None \<Rightarrow> False | Some (key, ok) \<Rightarrow> ok x) ms) \<and>
    live m' = live m \<and> plenty m'"
proof -
  let ?j = "BObject ms"
  obtain m1 where m1: "bscJSON_Parse (json_text False 0 ?j) m = (Some ?j, m1)" "plenty m1"
    "live m1 = live m + int (blocks ?j)" using parse_handy [OF assms(2) _ assms(3)] by blast
  let ?bad = "0 \<noteq> mn \<and> 0 \<noteq> mx \<and> mn \<le> mx \<and> (int (length ms) < mn \<or> mx < int (length ms))"
  let ?miss = "list_ex (\<lambda>name. node_item ?j name = None) req"
  have c: "node_children ?j = map (\<lambda>(k, x). (Some k, x)) ms" by (simp add: node_children_def)
  have u: "then_delete ?j (if ?bad \<or> ?miss then Some (ez_errno_tsl_value_illegal, m1)
      else object_loop cs (map (\<lambda>(k, x). (Some k, x)) ms) m1) = Some (r, m')"
    using assms(4) m1(1) by (auto simp: check_object_value_def Let_def c simp del: json_text.simps split: if_splits)
  have miss: "?miss \<longleftrightarrow> \<not> list_all (\<lambda>name. node_item ?j name \<noteq> None) req"
    by (simp add: list_ex_iff list_all_iff)
  show ?thesis
  proof (cases "?bad \<or> ?miss")
    case True
    then have "r \<noteq> 0" "m' = bscJSON_Delete ?j m1" using u by (auto simp: then_delete_def)
    then show ?thesis using True miss m1 by (auto simp: acct simp del: bscJSON_Delete.simps)
  next
    case False
    then obtain m2 where m2: "object_loop cs (map (\<lambda>(k, x). (Some k, x)) ms) m1 = Some (r, m2)"
      "m' = bscJSON_Delete ?j m2"
      using u by (auto simp: then_delete_def simp del: bscJSON_Delete.simps)
    have "\<forall>(name, j) \<in> set ms. handy j" using handy_object assms(2) by blast
    then show ?thesis using object_loop_sound [OF assms(1) _ m1(2) m2(1)] m2(2) m1(3) False miss
      by (auto simp: acct simp del: bscJSON_Delete.simps)
  qed
qed

lemma check_schema_sound: "sound (check_schema_value s) (valid s)"
proof (induction s)
  case (S_bool k)
  have "check_schema_value (S_bool k) v m = Some (r, m') \<Longrightarrow> tv_data v = data_of j \<Longrightarrow> handy j \<Longrightarrow>
      (r = 0 \<longleftrightarrow> valid (S_bool k) j) \<and> m' = m" for j v m r m'
    by (cases j) (auto simp: handy_def split: if_splits)
  then show ?case unfolding sound_def by blast
next
  case (S_array k mn mx ps)
  have a: "list_all2 sound (map check_schema_value ps) (map valid ps)"
    using S_array by (simp add: list.rel_map list.rel_refl_strong)
  show ?case unfolding sound_def
  proof (intro allI impI)
    fix j v m r m'
    assume h: "handy j" "plenty m" "tv_data v = data_of j" "check_schema_value (S_array k mn mx ps) v m = Some (r, m')"
    show "(r = 0 \<longleftrightarrow> valid (S_array k mn mx ps) j) \<and> live m' = live m \<and> plenty m'"
    proof (cases j)
      case (BArray js)
      then have "check_array_value mn mx (map check_schema_value ps) (json_text False 0 (BArray js)) m = Some (r, m')"
        using h(3,4) by (simp del: json_text.simps)
      then show ?thesis using check_array_sound [OF a _ h(2)] h(1) BArray by simp
    qed (use h in \<open>auto split: if_splits\<close>)
  qed
next
  case (S_object k mx mn req ps)
  let ?cs = "map (\<lambda>s. (prop_key s, check_schema_value s)) ps" and ?oks = "map (\<lambda>s. (prop_key s, valid s)) ps"
  have a: "list_all2 (\<lambda>(k, c) (k', ok). k = k' \<and> sound c ok) ?cs ?oks"
    using S_object by (simp add: list.rel_map list.rel_refl_strong)
  show ?case unfolding sound_def
  proof (intro allI impI)
    fix j v m r m'
    assume h: "handy j" "plenty m" "tv_data v = data_of j" "check_schema_value (S_object k mx mn req ps) v m = Some (r, m')"
    show "(r = 0 \<longleftrightarrow> valid (S_object k mx mn req ps) j) \<and> live m' = live m \<and> plenty m'"
    proof (cases j)
      case (BObject ms)
      then have "check_object_value mx mn req ?cs (json_text False 0 (BObject ms)) m = Some (r, m')"
        using h(3,4) by (simp del: json_text.simps)
      then show ?thesis using check_object_sound [OF a _ h(2)] h(1) BObject by simp
    qed (use h in \<open>auto split: if_splits\<close>)
  qed
qed (auto simp: sound_def handy_def split: jnode.splits if_splits)

section \<open>When the check answers\<close>

text \<open>No remainder by -1, and no number divided by a \<open>multiple\<close> and converted to \<open>int\<close>.\<close>

fun regular :: "tsl_schema_desc \<Rightarrow> bool" where
  "regular (S_int k t) = (ti_multiple t \<noteq> - 1)"
| "regular (S_double k t) = (num_enum t \<noteq> [] \<or> d_zero (tn_multiple t))"
| "regular (S_array k mn mx ps) = list_all regular ps"
| "regular (S_object k mx mn req ps) = list_all regular ps"
| "regular _ = True"

definition answers :: "checker \<Rightarrow> bool" where
  "answers c \<longleftrightarrow> (\<forall>j v m. handy j \<longrightarrow> plenty m \<longrightarrow> tv_data v = data_of j \<longrightarrow> c v m \<noteq> None)"

lemma answersD:
  assumes "answers c" "handy j" "plenty m" "tv_data v = data_of j"
  obtains r m' where "c v m = Some (r, m')"
  using assms unfolding answers_def by (metis not_None_eq surj_pair)

lemma run_answers:
  assumes "list_all2 sound cs oks" "list_all answers cs" "handy j" "plenty m" "tv_data v = data_of j"
  shows "run_checkers cs v ret m \<noteq> None"
  using assms
proof (induction cs oks arbitrary: ret m rule: list_all2_induct)
  case (Cons c cs ok oks)
  have "answers c" using Cons.prems(1) by simp
  then obtain r1 m1 where c: "c v m = Some (r1, m1)" using answersD Cons.prems(2-4) by blast
  have "plenty m1" by (rule soundD(3) [OF Cons(1) Cons.prems(2-4) c])
  then show ?case using Cons.IH [of m1 r1] Cons.prems c by simp
qed simp

lemma array_loop_answers:
  assumes "list_all2 sound cs oks" "list_all answers cs" "\<forall>j \<in> set js. handy j" "plenty m"
  shows "array_loop cs js m \<noteq> None"
  using assms(3-)
proof (induction js arbitrary: m)
  case (Cons j js)
  have j: "handy j" using Cons.prems(1) by simp
  obtain v b m1 where t: "tranform_value_from_json j m = Some (0, v, b, m1)" "tv_data v = data_of j" "plenty m1"
    using transform_handy [OF j Cons.prems(2)] by blast
  obtain r2 m2 where c: "run_checkers cs v 0 m1 = Some (r2, m2)"
    using run_answers [OF assms(1,2) j t(3,2)] by fastforce
  have "plenty m2" using run_sound [OF assms(1) j t(3,2) c] by blast
  then show ?case using Cons.IH [of "free_if b m2"] Cons.prems(1) t(1) c by simp
qed simp

lemma object_loop_answers:
  assumes "list_all2 (\<lambda>(k, c) (k', ok). k = k' \<and> sound c ok) cs oks" "list_all (\<lambda>(k, c). answers c) cs"
    "\<forall>(name, j) \<in> set ms. handy j" "plenty m"
  shows "object_loop cs (map (\<lambda>(k, x). (Some k, x)) ms) m \<noteq> None"
  using assms(3-)
proof (induction ms arbitrary: m)
  case (Cons a ms)
  obtain name j where a: "a = (name, j)" by (cases a)
  have j: "handy j" using Cons.prems(1) a by simp
  obtain v b m1 where t: "tranform_value_from_json j m = Some (0, v, b, m1)" "tv_data v = data_of j" "plenty m1"
    using transform_handy [OF j Cons.prems(2)] by blast
  show ?case
  proof (cases "List.find (\<lambda>(key, c). Some key = Some name) cs")
    case None
    then show ?thesis using t(1) by (simp add: a)
  next
    case (Some kc)
    obtain key c where kc: "kc = (key, c)" by (cases kc)
    obtain ok where ok: "sound c ok" using find_sound [OF assms(1), of name] Some kc by auto
    have "(key, c) \<in> set cs" using Some kc by (auto simp: find_Some_iff) (metis nth_mem)
    then have "answers c" using assms(2) by (auto simp: list_all_iff)
    then obtain r2 m2 where c: "c v m1 = Some (r2, m2)" using answersD j t(3,2) by blast
    have "plenty m2" by (rule soundD(3) [OF ok j t(3,2) c])
    then show ?thesis using Cons.IH [of "free_if b m2"] Cons.prems(1) t(1) c Some kc by (simp add: a)
  qed
qed simp

lemma check_answers: "regular s \<Longrightarrow> answers (check_schema_value s)"
proof (induction s)
  case (S_array k mn mx ps)
  have a: "list_all2 sound (map check_schema_value ps) (map valid ps)"
    using check_schema_sound by (simp add: list.rel_map list.rel_refl_strong)
  have b: "list_all answers (map check_schema_value ps)" using S_array by (simp add: list_all_iff)
  have "check_array_value mn mx (map check_schema_value ps) (json_text False 0 (BArray js)) m \<noteq> None"
    if h: "handy (BArray js)" "plenty m" for js m
  proof -
    obtain m1 where "bscJSON_Parse (json_text False 0 (BArray js)) m = (Some (BArray js), m1)" "plenty m1"
      using parse_handy [OF h(1) _ h(2)] by blast
    moreover have "\<forall>j \<in> set js. handy j" using handy_array h(1) by blast
    ultimately show ?thesis using array_loop_answers [OF a b, of js m1]
      by (simp add: check_array_value_def then_delete_def Let_def del: json_text.simps)
  qed
  then show ?case by (auto simp: answers_def simp del: json_text.simps split: tsl_value_u.splits if_splits
      elim!: data_of.elims)
next
  case (S_object k mx mn req ps)
  let ?cs = "map (\<lambda>s. (prop_key s, check_schema_value s)) ps" and ?oks = "map (\<lambda>s. (prop_key s, valid s)) ps"
  have a: "list_all2 (\<lambda>(k, c) (k', ok). k = k' \<and> sound c ok) ?cs ?oks"
    using check_schema_sound by (simp add: list.rel_map list.rel_refl_strong)
  have b: "list_all (\<lambda>(k, c). answers c) ?cs" using S_object by (simp add: list_all_iff)
  have "check_object_value mx mn req ?cs (json_text False 0 (BObject ms)) m \<noteq> None"
    if h: "handy (BObject ms)" "plenty m" for ms m
  proof -
    obtain m1 where "bscJSON_Parse (json_text False 0 (BObject ms)) m = (Some (BObject ms), m1)" "plenty m1"
      using parse_handy [OF h(1) _ h(2)] by blast
    moreover have "\<forall>(name, j) \<in> set ms. handy j" using handy_object h(1) by blast
    ultimately show ?thesis using object_loop_answers [OF a b, of ms m1]
      by (simp add: check_object_value_def then_delete_def node_children_def Let_def del: json_text.simps)
  qed
  then show ?case by (auto simp: answers_def simp del: json_text.simps split: tsl_value_u.splits if_splits
      elim!: data_of.elims)
qed (auto simp: answers_def check_int_value_def check_double_value_def split: tsl_value_u.splits)

section \<open>Properties\<close>

text \<open>
  C32: Checking a value against a schema through its texts, which are parsed and printed again at every level,
  comes to the same as checking its tree: the check answers, it accepts the value exactly when \<open>valid\<close> holds, and
  it leaves the heap with the blocks it had before.  (No undefined remainder or conversion: \<open>regular\<close>.)
\<close>

theorem check_is_valid:
  assumes "handy j" and "plenty m" and "tv_data v = data_of j" and "regular s"
  shows "\<exists>r m'. check_schema_value s v m = Some (r, m') \<and> (r = 0 \<longleftrightarrow> valid s j) \<and> live m' = live m"
proof -
  obtain r m' where r: "check_schema_value s v m = Some (r, m')"
    using answersD [OF check_answers [OF assms(4)] assms(1-3)] .
  then show ?thesis using soundD [OF check_schema_sound assms(1-3) r] by blast
qed

theorem check_is_valid_witness:
  "let s = S_object ''p'' 3 1 [''on''] [S_array ''at'' 2 5 [S_bool []], S_bool ''on''];
       j = BObject [(''on'', BTrue), (''at'', BArray [BTrue, BFalse])]
   in \<exists>r m'. check_schema_value s \<lparr>tv_size = 0, tv_data = data_of j\<rparr> all_memory = Some (r, m') \<and> r = 0"
proof -
  let ?s = "S_object ''p'' 3 1 [''on''] [S_array ''at'' 2 5 [S_bool []], S_bool ''on'']"
  let ?j = "BObject [(''on'', BTrue), (''at'', BArray [BTrue, BFalse])]"
  have "handy ?j"
    by (simp add: handy_def bscJSON_NESTING_LIMIT_def quoted_def c_str_def escape_def code_def INT_MAX_def)
  moreover have "valid ?s ?j"
    by (simp add: node_item_def node_children_def case_insensitive_strcmp_def)
  ultimately show ?thesis
    using check_is_valid [of ?j all_memory "\<lparr>tv_size = 0, tv_data = data_of ?j\<rparr>" ?s]
    by (auto simp: plenty_def all_memory_def Let_def simp del: check_schema_value.simps valid.simps data_of.simps)
qed

text \<open>
  The bounds of an array are tested the wrong way round: with both bounds given, an array is accepted only
  with at most \<open>minItem\<close> elements, and one that keeps to the bounds and is longer than \<open>minItem\<close> is refused.
\<close>

theorem array_bounds_inverted:
  assumes "0 < mn" and "mn \<le> mx" and "mn < int (length js)"
    and "bscJSON_Parse t m = (Some (BArray js), m1)" and "tv_data v = V_array t"
  shows "\<exists>m'. check_schema_value (S_array k mn mx ps) v m = Some (ez_errno_tsl_value_illegal, m')"
  using assms by (simp add: check_array_value_def then_delete_def Let_def)

theorem array_bounds_inverted_witness:
  "\<exists>m'. check_schema_value (S_array ''at'' 1 5 [S_bool []]) \<lparr>tv_size = 11, tv_data = V_array ''[true,true]''\<rparr> all_memory =
     Some (ez_errno_tsl_value_illegal, m')"
proof -
  let ?j = "BArray [BTrue, BTrue]"
  have "handy ?j" by (simp add: handy_def bscJSON_NESTING_LIMIT_def INT_MAX_def)
  then obtain m1 where "bscJSON_Parse (json_text False 0 ?j) all_memory = (Some ?j, m1)"
    using parse_handy [of ?j all_memory] by (auto simp: plenty_def all_memory_def)
  then show ?thesis by (intro array_bounds_inverted) simp_all
qed

text \<open>
  The bounds of a feature of integers are tested only when neither of them is zero: without an enumeration, a
  multiple and exclusive bounds, a schema from zero up accepts every integer.
\<close>

lemma zero_bound_ignored:
  assumes "ti_minimum t = 0 \<or> ti_maximum t = 0" and "ti_exminimum t = 0 \<or> ti_exmaximum t = 0"
    and "int_enum t = []" and "ti_multiple t = 0" and "tv_data v = V_int i"
  shows "check_schema_value (S_int k t) v m = Some (0, m)"
  using assms by (auto simp: check_int_value_def)

end
