(* ===== verification/Tsl_Profile.thy ===== *)
theory Tsl_Profile
  imports Tsl_Schema Bsc_Roundtrip
begin

text \<open>
  component/tsl/profile_parse.c: the profile of a device, the resources and domains it has and the
  properties, actions and events of each, read from its JSON text and freed.  Arrays are lists, zero
  where the reading stopped before their end.  \<open>None\<close> is undefined behaviour.
\<close>

section \<open>Profiles\<close>

record tsl_domain_prop =
  dp_identifier :: string
  dp_access :: int
  dp_version :: string
  prop_desc :: tsl_schema_desc

record tsl_domain_action =
  da_identifier :: string
  da_version :: string
  da_direction :: string
  da_input_schema :: tsl_schema_desc
  da_output_schema :: tsl_schema_desc

record tsl_domain_event =
  de_identifier :: string
  de_version :: string
  event_type :: "string list"
  de_input_schema :: tsl_schema_desc
  de_output_schema :: tsl_schema_desc

record tsl_rsc_domain =
  rd_identifier :: string
  rd_prop :: "tsl_domain_prop list"
  rd_action :: "tsl_domain_action list"
  rd_event :: "tsl_domain_event list"

text \<open>The block \<open>index\<close> is kept byte by byte; it is empty for a null pointer.\<close>

record tsl_profile_resource =
  rsc_category :: string
  rsc_index :: string
  index_num :: int
  rsc_domain :: "tsl_rsc_domain list"

record ez_iot_tsl_capacity_t =
  cap_ref :: int
  rsc_num :: int
  cap_resource :: "tsl_profile_resource list"

definition zero_prop :: tsl_domain_prop where
  "zero_prop = \<lparr>dp_identifier = [], dp_access = 0, dp_version = [], prop_desc = zero_schema\<rparr>"

definition zero_action :: tsl_domain_action where
  "zero_action = \<lparr>da_identifier = [], da_version = [], da_direction = [],
     da_input_schema = zero_schema, da_output_schema = zero_schema\<rparr>"

definition zero_event :: tsl_domain_event where
  "zero_event = \<lparr>de_identifier = [], de_version = [], event_type = [],
     de_input_schema = zero_schema, de_output_schema = zero_schema\<rparr>"

definition zero_domain :: tsl_rsc_domain where
  "zero_domain = \<lparr>rd_identifier = [], rd_prop = [], rd_action = [], rd_event = []\<rparr>"

definition zero_resource :: tsl_profile_resource where
  "zero_resource = \<lparr>rsc_category = [], rsc_index = [], index_num = 0, rsc_domain = []\<rparr>"

definition ACCESS_READ :: int where "ACCESS_READ = 1"
definition ACCESS_WRITE :: int where "ACCESS_WRITE = 2"

definition MAX_LOCAL_INDEX_LENGTH :: nat where "MAX_LOCAL_INDEX_LENGTH = 8"

section \<open>Reading elements of an array\<close>

text \<open>
  The loop shared by properties, actions, events, domains and resources: \<open>f i x\<close> reads the element
  \<open>i\<close> and says whether the loop breaks and with which code; the rest stays \<open>zero\<close>.
\<close>

type_synonym 'a reader = "nat \<Rightarrow> jnode \<Rightarrow> mem \<Rightarrow> (bool \<times> int \<times> 'a \<times> mem) option"

fun read_loop :: "'a reader \<Rightarrow> 'a \<Rightarrow> nat \<Rightarrow> jnode list \<Rightarrow> int \<Rightarrow> mem \<Rightarrow> (int \<times> 'a list \<times> mem) option" where
  "read_loop f zero i [] rv m = Some (rv, [], m)"
| "read_loop f zero i (j # js) rv m =
     (case f i j m of
        None \<Rightarrow> None
      | Some (brk, rv1, x, m1) \<Rightarrow>
          if brk then Some (rv1, x # replicate (length js) zero, m1)
          else map_option (\<lambda>(rv2, xs, m2). (rv2, x # xs, m2)) (read_loop f zero (i + 1) js rv1 m1))"

section \<open>Properties, actions and events\<close>

definition version_of :: "jnode \<Rightarrow> string" where
  "version_of j = (case string_item j ''version'' of None \<Rightarrow> [] | Some s \<Rightarrow> strncpy0 7 s)"

definition access_of :: "string \<Rightarrow> int" where
  "access_of s = (if CHR ''r'' \<in> set s then ACCESS_READ else 0) + (if CHR ''w'' \<in> set s then ACCESS_WRITE else 0)"

definition read_prop :: "tsl_domain_prop reader" where
  "read_prop i j m =
     (if \<not> is_object j then Some (True, ez_errno_tsl_param_invalid, zero_prop, m)
      else case string_item j ''identifier'' of
        None \<Rightarrow> Some (True, ez_errno_tsl_param_invalid, zero_prop, m)
      | Some ident \<Rightarrow>
        let p0 = zero_prop\<lparr>dp_identifier := strncpy0 31 ident\<rparr> in
        (case string_item j ''access'' of
           None \<Rightarrow> Some (True, ez_errno_tsl_param_invalid, p0, m)
         | Some acc \<Rightarrow>
           let p = p0\<lparr>dp_access := access_of acc, dp_version := version_of j\<rparr> in
           (case object_item j ''schema'' of
              None \<Rightarrow> Some (True, ez_errno_tsl_param_invalid, p, m)
            | Some js_schema \<Rightarrow>
                map_option (\<lambda>(rv, s, m1). (rv \<noteq> 0, rv, p\<lparr>prop_desc := s\<rparr>, m1)) (parse_schema js_schema m))))"

definition parse_domain_props :: "jnode list \<Rightarrow> mem \<Rightarrow> (int \<times> tsl_domain_prop list \<times> mem) option" where
  "parse_domain_props js m = read_loop read_prop zero_prop 0 js ez_errno_succ m"

text \<open>
  The schema of \<open>input\<close> or \<open>output\<close>: nothing without the object, the code \<open>absent\<close> for an object without a
  schema.
\<close>

definition parse_param :: "int \<Rightarrow> string \<Rightarrow> jnode \<Rightarrow> mem \<Rightarrow> (int \<times> tsl_schema_desc \<times> mem) option" where
  "parse_param absent name j m =
     (case object_item j name of
        None \<Rightarrow> Some (0, zero_schema, m)
      | Some js_param \<Rightarrow> (case object_item js_param ''schema'' of
          None \<Rightarrow> Some (absent, zero_schema, m) | Some js_schema \<Rightarrow> parse_schema js_schema m))"

definition read_action :: "tsl_domain_action reader" where
  "read_action i j m =
     (if \<not> is_object j then Some (True, ez_errno_tsl_internal, zero_action, m)
      else case string_item j ''identifier'' of
        None \<Rightarrow> Some (True, ez_errno_tsl_param_invalid, zero_action, m)
      | Some ident \<Rightarrow>
        let a0 = zero_action\<lparr>da_identifier := strncpy0 31 ident, da_version := version_of j\<rparr> in
        (case string_item j ''direction'' of
           None \<Rightarrow> Some (True, ez_errno_tsl_param_invalid, a0, m)
         | Some dir \<Rightarrow>
           let a = a0\<lparr>da_direction := strncpy0 15 dir\<rparr> in
           (case parse_param ez_errno_tsl_param_invalid ''input'' j m of
              None \<Rightarrow> None
            | Some (rv, s, m1) \<Rightarrow>
              if rv \<noteq> 0 then Some (True, rv, a\<lparr>da_input_schema := s\<rparr>, m1)
              else map_option (\<lambda>(rv2, s2, m2).
                  (rv2 \<noteq> 0, rv2, a\<lparr>da_input_schema := s, da_output_schema := s2\<rparr>, m2))
                (parse_param ez_errno_tsl_param_invalid ''output'' j m1))))"

definition parse_domain_actions :: "jnode list \<Rightarrow> mem \<Rightarrow> (int \<times> tsl_domain_action list \<times> mem) option" where
  "parse_domain_actions js m = read_loop read_action zero_action 0 js ez_errno_succ m"

text \<open>Every type of the event \<open>i\<close> is read from the element \<open>i\<close> of \<open>eventType\<close>, not \<open>j\<close>.\<close>

definition event_types :: "nat \<Rightarrow> jnode list \<Rightarrow> string list" where
  "event_types i ts = map (\<lambda>_. if i < length ts then name_of_node (ts ! i) else []) ts"

definition read_event :: "tsl_domain_event reader" where
  "read_event i j m =
     (if \<not> is_object j then Some (True, ez_errno_tsl_internal, zero_event, m)
      else case string_item j ''identifier'' of
        None \<Rightarrow> Some (True, ez_errno_tsl_param_invalid, zero_event, m)
      | Some ident \<Rightarrow>
        let e0 = zero_event\<lparr>de_identifier := strncpy0 31 ident, de_version := version_of j\<rparr> in
        (case array_item j ''eventType'' of
           None \<Rightarrow> Some (True, ez_errno_tsl_param_invalid, e0, m)
         | Some ts \<Rightarrow>
           (case (if ts = [] then (True, m) else malloc m) of
             (ok, m0) \<Rightarrow>
               if \<not> ok then Some (True, ez_errno_tsl_memory, e0, m0)
               else let e = e0\<lparr>event_type := event_types i ts\<rparr> in
               (case parse_param ez_errno_tsl_internal ''input'' j m0 of
                  None \<Rightarrow> None
                | Some (rv, s, m1) \<Rightarrow>
                  if rv \<noteq> 0 then Some (True, rv, e\<lparr>de_input_schema := s\<rparr>, m1)
                  else map_option (\<lambda>(rv2, s2, m2).
                      (rv2 \<noteq> 0, rv2, e\<lparr>de_input_schema := s, de_output_schema := s2\<rparr>, m2))
                    (parse_param ez_errno_tsl_internal ''output'' j m1)))))"

definition parse_domain_events :: "jnode list \<Rightarrow> mem \<Rightarrow> (int \<times> tsl_domain_event list \<times> mem) option" where
  "parse_domain_events js m = read_loop read_event zero_event 0 js ez_errno_succ m"

section \<open>Domains\<close>

text \<open>An array of the domain: skipped when it is absent or empty, otherwise allocated and read.\<close>

definition part ::
  "string \<Rightarrow> (jnode list \<Rightarrow> mem \<Rightarrow> (int \<times> 'a list \<times> mem) option) \<Rightarrow> jnode \<Rightarrow> mem \<Rightarrow> (int \<times> 'a list \<times> mem) option"
  where
  "part name parse js_domain m =
     (case array_item js_domain name of
        None \<Rightarrow> Some (0, [], m)
      | Some js \<Rightarrow> if js = [] then Some (0, [], m)
          else (case malloc m of (ok, m1) \<Rightarrow> if ok then parse js m1 else Some (ez_errno_tsl_memory, [], m1)))"

text \<open>A domain that is no object ends the loop, with the code of the last one, which was success.\<close>

definition read_domain :: "tsl_rsc_domain reader" where
  "read_domain i j m =
     (if \<not> is_object j then Some (True, ez_errno_succ, zero_domain, m)
      else case string_item j ''identifier'' of
        None \<Rightarrow> Some (True, ez_errno_tsl_param_invalid, zero_domain, m)
      | Some ident \<Rightarrow>
        let d0 = zero_domain\<lparr>rd_identifier := strncpy0 31 ident\<rparr> in
        (case part ''props'' parse_domain_props j m of
           None \<Rightarrow> None
         | Some (rv, ps, m1) \<Rightarrow>
           let d1 = d0\<lparr>rd_prop := ps\<rparr> in
           if rv \<noteq> 0 then Some (True, rv, d1, m1)
           else (case part ''actions'' parse_domain_actions j m1 of
             None \<Rightarrow> None
           | Some (rv, acts, m2) \<Rightarrow>
             let d2 = d1\<lparr>rd_action := acts\<rparr> in
             if rv \<noteq> 0 then Some (True, rv, d2, m2)
             else map_option (\<lambda>(rv, es, m3). (rv \<noteq> 0, rv, d2\<lparr>rd_event := es\<rparr>, m3))
               (part ''events'' parse_domain_events j m2))))"

definition parse_domain :: "jnode list \<Rightarrow> mem \<Rightarrow> (int \<times> tsl_rsc_domain list \<times> mem) option" where
  "parse_domain js_domains m = read_loop read_domain zero_domain 0 js_domains ez_errno_succ m"

section \<open>Freeing a profile\<close>

fun free_schemas :: "tsl_schema_desc list \<Rightarrow> mem \<Rightarrow> mem option" where
  "free_schemas [] m = Some m"
| "free_schemas (s # ss) m = (case free_schema_memory s m of None \<Rightarrow> None | Some m1 \<Rightarrow> free_schemas ss m1)"

definition free_props_memory :: "tsl_domain_prop list \<Rightarrow> mem \<Rightarrow> mem option" where
  "free_props_memory ps m = free_schemas (map prop_desc ps) m"

definition free_actions_memory :: "tsl_domain_action list \<Rightarrow> mem \<Rightarrow> mem option" where
  "free_actions_memory acts m = free_schemas (concat (map (\<lambda>a. [da_input_schema a, da_output_schema a]) acts)) m"

text \<open>Only the first event's \<open>event_type\<close> is freed.\<close>

definition free_events_memory :: "tsl_domain_event list \<Rightarrow> mem \<Rightarrow> mem option" where
  "free_events_memory es m =
     free_schemas (concat (map (\<lambda>e. [de_input_schema e, de_output_schema e]) es))
       (if es \<noteq> [] \<and> event_type (hd es) \<noteq> [] then free m else m)"

definition free_part :: "('a list \<Rightarrow> mem \<Rightarrow> mem option) \<Rightarrow> 'a list \<Rightarrow> mem \<Rightarrow> mem option" where
  "free_part f xs m = (if xs = [] then Some m else map_option free (f xs m))"

fun free_domain_memory :: "tsl_rsc_domain list \<Rightarrow> mem \<Rightarrow> mem option" where
  "free_domain_memory [] m = Some m"
| "free_domain_memory (d # ds) m =
     (case free_part free_props_memory (rd_prop d) m of
        None \<Rightarrow> None
      | Some m1 \<Rightarrow> (case free_part free_actions_memory (rd_action d) m1 of
          None \<Rightarrow> None
        | Some m2 \<Rightarrow> (case free_part free_events_memory (rd_event d) m2 of
            None \<Rightarrow> None | Some m3 \<Rightarrow> free_domain_memory ds m3)))"

fun free_resources :: "tsl_profile_resource list \<Rightarrow> mem \<Rightarrow> mem option" where
  "free_resources [] m = Some m"
| "free_resources (r # rs) m =
     (case free_part free_domain_memory (rsc_domain r) (if rsc_index r \<noteq> [] then free m else m) of
        None \<Rightarrow> None | Some m1 \<Rightarrow> free_resources rs m1)"

text \<open>
  The loop runs over \<open>rsc_num\<close> resources, the number of those there are; without any it passes over the
  first, whose address is null, and follows the next.
\<close>

definition free_profile_memory :: "ez_iot_tsl_capacity_t \<Rightarrow> mem \<Rightarrow> (ez_iot_tsl_capacity_t \<times> mem) option" where
  "free_profile_memory c m =
     (if cap_resource c = [] then (if rsc_num c \<le> 1 then Some (c, m) else None)
      else map_option (\<lambda>m1. (c\<lparr>cap_resource := []\<rparr>, free m1)) (free_resources (cap_resource c) m))"

section \<open>Profiles\<close>

text \<open>\<open>strncpy\<close> of \<open>n\<close> bytes into a block, padded with NUL; behind its end it is undefined.\<close>

definition block_strncpy :: "nat \<Rightarrow> nat \<Rightarrow> string \<Rightarrow> string \<Rightarrow> string option" where
  "block_strncpy off n s b =
     (if length b < off + n then None
      else let t = take n (c_str s) in
        Some (take off b @ t @ replicate (n - length t) (CHR 0x00) @ drop (off + n) b))"

text \<open>
  The local indices of the resource \<open>i\<close>: each is copied to \<open>p_src->index + i\<close>, up to the first that is no string.
\<close>

fun copy_indices :: "nat \<Rightarrow> jnode list \<Rightarrow> string \<Rightarrow> string option" where
  "copy_indices i [] b = Some b"
| "copy_indices i (j # js) b =
     (case j of
        BString s \<Rightarrow> (case block_strncpy i (MAX_LOCAL_INDEX_LENGTH - 1) s b of
          None \<Rightarrow> None | Some b1 \<Rightarrow> copy_indices i js b1)
      | _ \<Rightarrow> Some b)"

definition read_resource :: "tsl_profile_resource reader" where
  "read_resource i j m =
     (case string_item j ''resourceCategory'' of
        None \<Rightarrow> Some (True, ez_errno_tsl_param_invalid, zero_resource, m)
      | Some cat \<Rightarrow>
        let r0 = zero_resource\<lparr>rsc_category := strncpy0 31 cat\<rparr> in
        (case array_item j ''localIndex'' of
           None \<Rightarrow> Some (True, ez_errno_tsl_param_invalid, r0, m)
         | Some [] \<Rightarrow> Some (True, ez_errno_tsl_internal, r0, m)
         | Some js_index \<Rightarrow>
           (case malloc m of (ok, m1) \<Rightarrow>
             if \<not> ok then Some (True, ez_errno_tsl_memory, r0, m1)
             else (case copy_indices i js_index
                 (replicate (MAX_LOCAL_INDEX_LENGTH * length js_index) (CHR 0x00)) of
               None \<Rightarrow> None
             | Some b \<Rightarrow>
               let r = r0\<lparr>rsc_index := b, index_num := int (length js_index)\<rparr> in
               (case array_item j ''domains'' of
                  None \<Rightarrow> Some (True, ez_errno_tsl_param_invalid, r, m1)
                | Some [] \<Rightarrow> Some (True, ez_errno_tsl_internal, r, m1)
                | Some js_domain \<Rightarrow>
                  (case malloc m1 of (ok, m2) \<Rightarrow>
                    if \<not> ok then Some (True, ez_errno_tsl_memory, r, m2)
                    else map_option (\<lambda>(rv, ds, m3). (rv \<noteq> 0, rv, r\<lparr>rsc_domain := ds\<rparr>, m3))
                      (parse_domain js_domain m2)))))))"

definition read_profile ::
  "jnode \<Rightarrow> ez_iot_tsl_capacity_t \<Rightarrow> mem \<Rightarrow> (int \<times> ez_iot_tsl_capacity_t \<times> mem) option" where
  "read_profile js_root c m =
     (case string_item js_root ''version'' of
        None \<Rightarrow> Some (ez_errno_tsl_param_invalid, c, m)
      | Some ver \<Rightarrow> (case array_item js_root ''resources'' of
          None \<Rightarrow> Some (ez_errno_tsl_param_invalid, c, m)
        | Some [] \<Rightarrow> Some (ez_errno_tsl_internal, c, m)
        | Some js_src \<Rightarrow> (case malloc m of (ok, m1) \<Rightarrow>
            if \<not> ok then Some (ez_errno_tsl_memory, c\<lparr>cap_resource := []\<rparr>, m1)
            else map_option (\<lambda>(rv, rs, m2).
                (rv, c\<lparr>cap_ref := 1, rsc_num := int (length js_src), cap_resource := rs\<rparr>, m2))
              (read_loop read_resource zero_resource 0 js_src ez_errno_succ m1))))"

text \<open>The callers pass a text and its length, both given, and a structure.\<close>

definition profile_parse ::
  "string \<Rightarrow> int \<Rightarrow> ez_iot_tsl_capacity_t \<Rightarrow> mem \<Rightarrow> (int \<times> ez_iot_tsl_capacity_t \<times> mem) option" where
  "profile_parse profile_value profile_len c m =
     (if profile_len \<le> 0 then Some (ez_errno_tsl_param_invalid, c, m)
      else case bscJSON_Parse profile_value m of
        (None, m1) \<Rightarrow> map_option (\<lambda>(c1, m2). (ez_errno_tsl_memory, c1, m2)) (free_profile_memory c m1)
      | (Some js_root, m1) \<Rightarrow>
          (case read_profile js_root c m1 of
             None \<Rightarrow> None
           | Some (rv, c1, m2) \<Rightarrow>
             map_option (\<lambda>(c2, m3). (rv, c2, bscJSON_Delete js_root m3))
               (if rv \<noteq> 0 then free_profile_memory c1 m2 else Some (c1, m2))))"

section \<open>The blocks of a profile\<close>

definition one :: "bool \<Rightarrow> int" where
  "one b = (if b then 1 else 0)"

lemma one_simps [simp]: "one True = 1" "one False = 0"
  by (simp_all add: one_def)

fun schema_blocks :: "tsl_schema_desc \<Rightarrow> int" where
  "schema_blocks (S_int k t) = one (int_enum t \<noteq> [])"
| "schema_blocks (S_double k t) = one (num_enum t \<noteq> [])"
| "schema_blocks (S_string k t) = one (str_enum t \<noteq> [])"
| "schema_blocks (S_array k mn mx ps) = one (ps \<noteq> []) + sum_list (map schema_blocks ps)"
| "schema_blocks (S_object k mx mn req ps) = one (req \<noteq> []) + one (ps \<noteq> []) + sum_list (map schema_blocks ps)"
| "schema_blocks _ = 0"

definition array_blocks :: "('a \<Rightarrow> int) \<Rightarrow> 'a list \<Rightarrow> int" where
  "array_blocks f xs = one (xs \<noteq> []) + sum_list (map f xs)"

definition event_blocks :: "tsl_domain_event \<Rightarrow> int" where
  "event_blocks e = one (event_type e \<noteq> []) + schema_blocks (de_input_schema e) + schema_blocks (de_output_schema e)"

definition domain_blocks :: "tsl_rsc_domain \<Rightarrow> int" where
  "domain_blocks d = array_blocks (\<lambda>p. schema_blocks (prop_desc p)) (rd_prop d) +
     array_blocks (\<lambda>a. schema_blocks (da_input_schema a) + schema_blocks (da_output_schema a)) (rd_action d) +
     array_blocks event_blocks (rd_event d)"

definition resource_blocks :: "tsl_profile_resource \<Rightarrow> int" where
  "resource_blocks r = one (rsc_index r \<noteq> []) + array_blocks domain_blocks (rsc_domain r)"

definition profile_blocks :: "ez_iot_tsl_capacity_t \<Rightarrow> int" where
  "profile_blocks c = array_blocks resource_blocks (cap_resource c)"

lemma parse_enum_live: "parse_enum f j m = (es, m') \<Longrightarrow> live m' = live m + one (es \<noteq> [])"
  using live_malloc [of m]
  by (auto simp: parse_enum_def split: option.splits if_splits prod.splits)

lemma malloc_live: "malloc m = (ok, m1) \<Longrightarrow> live m1 = live m + one ok"
  using live_malloc [of m] by (simp add: one_def)

lemma req_live:
  assumes "(case array_item j name of None \<Rightarrow> (True, [], m)
     | Some js \<Rightarrow> if js = [] then (True, [], m)
         else (case malloc m of (ok, m1) \<Rightarrow> (ok, if ok then map f js else [], m1))) = (ok, req, m1)"
  shows "live m1 = live m + one (req \<noteq> [])" and "\<not> ok \<Longrightarrow> req = []"
  using assms by (auto dest: malloc_live split: option.splits if_splits prod.splits)

lemma parse_schemas_live:
  assumes "\<And>j m r s m'. j \<in> set js \<Longrightarrow> parse_schema j m = Some (r, s, m') \<Longrightarrow> live m' = live m + schema_blocks s"
    and "parse_schemas js m = Some (ss, m')"
  shows "live m' = live m + sum_list (map schema_blocks ss) \<and> length ss = length js"
  using assms
proof (induction js arbitrary: m ss)
  case (Cons j js)
  obtain s m1 where s: "(if is_object j then map_option snd (parse_schema j m) else Some (zero_schema, m)) = Some (s, m1)"
    using Cons.prems(2) by (auto split: option.splits)
  then obtain ss' where ss: "parse_schemas js m1 = Some (ss', m')" "ss = s # ss'" using Cons.prems(2) by auto
  have "live m1 = live m + schema_blocks s"
    using s Cons.prems(1) [of j m] by (auto simp: zero_schema_def split: if_splits)
  moreover have "live m' = live m1 + sum_list (map schema_blocks ss') \<and> length ss' = length js"
    by (rule Cons.IH [OF _ ss(1)]) (erule Cons.prems(1) [rotated], simp)
  ultimately show ?case using ss(2) by simp
qed auto

lemma parse_schema_live: "parse_schema j m = Some (r, s, m') \<Longrightarrow> live m' = live m + schema_blocks s"
proof (induction "size j" arbitrary: j m r s m' rule: less_induct)
  case less
  note p = less.prems [unfolded parse_schema.simps [of j m]]
  show ?case
  proof (cases "string_item j ''type''")
    case None
    then show ?thesis using p by (auto simp: zero_schema_def)
  next
    case (Some t)
    consider "t = ''obj''" | "t = ''arr''" | "t = ''int''" | "t \<notin> {''obj'', ''arr'', ''int''}" by blast
    then show ?thesis
    proof cases
      case 1
      obtain ok req m1 where req: "(case array_item j ''req'' of None \<Rightarrow> (True, [], m)
         | Some js \<Rightarrow> if js = [] then (True, [], m)
             else (case malloc m of (ok, m1) \<Rightarrow> (ok, if ok then map name_of_node js else [], m1))) = (ok, req, m1)"
        by (rule prod_cases3)
      note l1 = req_live [OF req]
      show ?thesis
      proof (cases "ok \<and> array_item j ''prop'' \<noteq> None \<and> array_item j ''prop'' \<noteq> Some []")
        case True
        then obtain js where js: "array_item j ''prop'' = Some js" "js \<noteq> []" by auto
        obtain ok2 m2 where m2: "malloc m1 = (ok2, m2)" by force
        show ?thesis
        proof (cases ok2)
          case ok2: True
          then obtain ps where ps: "parse_schemas js m2 = Some (ps, m')" "s = S_object
              (case string_item j ''key'' of None \<Rightarrow> [] | Some s \<Rightarrow> strncpy0 31 s) (int_bound j ''mnp'') (int_bound j ''mxp'') req ps"
            using p Some 1 req js m2 True by (auto simp: Let_def)
          have "live m' = live m2 + sum_list (map schema_blocks ps) \<and> length ps = length js"
          proof (rule parse_schemas_live [OF _ ps(1)])
            fix x m r s m'
            assume x: "x \<in> set js" "parse_schema x m = Some (r, s, m')"
            have "size x < size j" using size_list_mem [OF x(1), of size] array_item_size [OF js(1)] by simp
            then show "live m' = live m + schema_blocks s" using x(2) by (rule less.hyps)
          qed
          then show ?thesis using ps(2) js(2) malloc_live [OF m2] l1 ok2 by (cases ps) auto
        next
          case False
          then show ?thesis using p Some 1 req js m2 True malloc_live [OF m2] l1 by (auto simp: Let_def)
        qed
      next
        case False
        then show ?thesis using p Some 1 req l1 by (auto simp: Let_def split: option.splits if_splits)
      qed
    next
      case 2
      show ?thesis
      proof (cases "object_item j ''itm''")
        case None
        then show ?thesis using p Some 2 by (auto simp: Let_def)
      next
        case item: (Some x)
        obtain ok m1 where m1: "malloc m = (ok, m1)" by force
        show ?thesis
        proof (cases ok)
          case True
          then obtain r1 s1 where s1: "parse_schema x m1 = Some (r1, s1, m')" "s = S_array
              (case string_item j ''key'' of None \<Rightarrow> [] | Some s \<Rightarrow> strncpy0 31 s) (int_bound j ''mnitm'') (int_bound j ''mxitm'') [s1]"
            using p Some 2 item m1 by (auto simp: Let_def)
          have "live m' = live m1 + schema_blocks s1" by (rule less.hyps [OF object_item_size [OF item] s1(1)])
          then show ?thesis using s1(2) malloc_live [OF m1] True by simp
        next
          case False
          then show ?thesis using p Some 2 item m1 malloc_live [OF m1] by (auto simp: Let_def)
        qed
      qed
    next
      case 3
      then show ?thesis using p Some
        by (auto simp: Let_def parse_integer_def dest!: parse_enum_live split: option.splits prod.splits)
    next
      case 4
      then show ?thesis using p Some
        by (auto simp: Let_def parse_number_schema_def parse_string_schema_def dest!: parse_enum_live
            split: if_splits prod.splits)
    qed
  qed
qed

section \<open>Blocks of the parts\<close>

lemma read_loop_live:
  fixes blk :: "'a \<Rightarrow> int"
  assumes f: "\<And>i j m b rv x m'. f i j m = Some (b, rv, x, m') \<Longrightarrow> live m' = live m + blk x"
    and z: "blk zero = 0"
  shows "read_loop f zero i js rv m = Some (rv', xs, m') \<Longrightarrow>
    live m' = live m + sum_list (map blk xs) \<and> length xs = length js"
proof (induction js arbitrary: i rv m rv' xs)
  case (Cons j js)
  then obtain b rv1 x m1 where 1: "f i j m = Some (b, rv1, x, m1)" by (auto split: option.splits)
  have r: "sum_list (map blk (replicate n zero)) = 0" for n by (induction n) (simp_all add: z)
  show ?case
  proof (cases b)
    case True
    then show ?thesis using Cons.prems 1 f [OF 1] r by auto
  next
    case False
    then obtain rv2 ys where 2: "read_loop f zero (i + 1) js rv1 m1 = Some (rv2, ys, m')" "xs = x # ys"
      using Cons.prems 1 by auto
    then show ?thesis using Cons.IH [OF 2(1)] f [OF 1] by simp
  qed
qed auto

lemma parse_param_live: "parse_param a name j m = Some (rv, s, m') \<Longrightarrow> live m' = live m + schema_blocks s"
  by (auto simp: parse_param_def zero_schema_def dest: parse_schema_live split: option.splits)

lemma zero_owned [simp]: "schema_blocks zero_schema = 0"
  by (simp add: zero_schema_def)

lemma read_prop_live: "read_prop i j m = Some (b, rv, p, m') \<Longrightarrow> live m' = live m + schema_blocks (prop_desc p)"
  by (auto simp: read_prop_def zero_prop_def Let_def dest: parse_schema_live split: option.splits if_splits)

lemma read_action_live:
  "read_action i j m = Some (b, rv, a, m') \<Longrightarrow>
   live m' = live m + (schema_blocks (da_input_schema a) + schema_blocks (da_output_schema a))"
  by (auto simp: read_action_def zero_action_def Let_def dest!: parse_param_live split: option.splits if_splits)

lemma event_types_empty [simp]: "event_types i ts = [] \<longleftrightarrow> ts = []"
  by (simp add: event_types_def)

lemma read_event_live: "read_event i j m = Some (b, rv, e, m') \<Longrightarrow> live m' = live m + event_blocks e"
  by (auto simp: read_event_def zero_event_def event_blocks_def Let_def dest!: parse_param_live malloc_live
      split: option.splits if_splits prod.splits)

lemma part_live:
  fixes blk :: "'a \<Rightarrow> int"
  assumes "\<And>js m rv xs m'. parse js m = Some (rv, xs, m') \<Longrightarrow>
      live m' = live m + sum_list (map blk xs) \<and> length xs = length js"
    and "part name parse j m = Some (rv, xs, m')"
  shows "live m' = live m + array_blocks blk xs"
proof (cases "array_item j name")
  case None
  then show ?thesis using assms(2) by (simp add: part_def array_blocks_def)
next
  case (Some js)
  obtain ok m1 where m1: "malloc m = (ok, m1)" by force
  show ?thesis
  proof (cases "js = [] \<or> \<not> ok")
    case True
    then show ?thesis using assms(2) Some m1 malloc_live [OF m1] by (auto simp: part_def array_blocks_def split: if_splits)
  next
    case False
    then have p: "parse js m1 = Some (rv, xs, m')" using assms(2) Some m1 by (simp add: part_def)
    then show ?thesis using assms(1) [OF p] malloc_live [OF m1] False by (cases xs) (auto simp: array_blocks_def)
  qed
qed

lemma props_live: "parse_domain_props js m = Some (rv, xs, m') \<Longrightarrow>
    live m' = live m + sum_list (map (\<lambda>p. schema_blocks (prop_desc p)) xs) \<and> length xs = length js"
  unfolding parse_domain_props_def
  by (rule read_loop_live [where f = read_prop and zero = zero_prop and blk = "\<lambda>p. schema_blocks (prop_desc p)", OF read_prop_live])
    (simp_all add: zero_prop_def)

lemma actions_live: "parse_domain_actions js m = Some (rv, xs, m') \<Longrightarrow>
    live m' = live m + sum_list (map (\<lambda>a. schema_blocks (da_input_schema a) + schema_blocks (da_output_schema a)) xs) \<and>
    length xs = length js"
  unfolding parse_domain_actions_def
  by (rule read_loop_live [where f = read_action and zero = zero_action and blk = "\<lambda>a. schema_blocks (da_input_schema a) + schema_blocks (da_output_schema a)", OF read_action_live])
    (simp_all add: zero_action_def)

lemma events_live: "parse_domain_events js m = Some (rv, xs, m') \<Longrightarrow>
    live m' = live m + sum_list (map event_blocks xs) \<and> length xs = length js"
  unfolding parse_domain_events_def
  by (rule read_loop_live [where f = read_event and zero = zero_event and blk = "event_blocks", OF read_event_live])
    (simp_all add: zero_event_def event_blocks_def)

lemma array_blocks_Nil [simp]: "array_blocks f [] = 0"
  by (simp add: array_blocks_def)

lemma parts_live:
  "part name parse_domain_props j m = Some (rv, ps, m') \<Longrightarrow>
   live m' = live m + array_blocks (\<lambda>p. schema_blocks (prop_desc p)) ps"
  "part name parse_domain_actions j m = Some (rv, acts, m') \<Longrightarrow>
   live m' = live m + array_blocks (\<lambda>a. schema_blocks (da_input_schema a) + schema_blocks (da_output_schema a)) acts"
  "part name parse_domain_events j m = Some (rv, es, m') \<Longrightarrow> live m' = live m + array_blocks event_blocks es"
  by (erule part_live [rotated], erule props_live, erule part_live [rotated], erule actions_live,
    erule part_live [rotated], erule events_live)

lemma read_domain_live: "read_domain i j m = Some (b, rv, d, m') \<Longrightarrow> live m' = live m + domain_blocks d"
  by (auto simp: read_domain_def zero_domain_def domain_blocks_def Let_def
      dest!: parts_live
      split: option.splits if_splits)

lemma domains_live: "parse_domain js m = Some (rv, xs, m') \<Longrightarrow>
    live m' = live m + sum_list (map domain_blocks xs) \<and> length xs = length js"
  unfolding parse_domain_def
  by (rule read_loop_live [where f = read_domain and zero = zero_domain and blk = "domain_blocks", OF read_domain_live])
    (simp_all add: zero_domain_def domain_blocks_def)

lemma block_strncpy_length: "block_strncpy off n s b = Some b' \<Longrightarrow> length b' = length b"
  by (auto simp: block_strncpy_def Let_def split: if_splits)

lemma copy_indices_length: "copy_indices i js b = Some b' \<Longrightarrow> length b' = length b"
  by (induction js arbitrary: b)
    (auto dest: block_strncpy_length split: jnode.splits option.splits)

lemma read_resource_live: "read_resource i j m = Some (b, rv, r, m') \<Longrightarrow> live m' = live m + resource_blocks r"
proof -
  have d: "parse_domain (d # ds) m1 = Some (rv, xs, m2) \<Longrightarrow> live m2 = live m1 - 1 + array_blocks domain_blocks xs"
    for d ds m1 xs m2 rv by (cases xs) (auto simp: array_blocks_def dest!: domains_live)
  have c: "copy_indices i (x # xs) (replicate (MAX_LOCAL_INDEX_LENGTH * length (x # xs)) (CHR 0x00)) = Some b \<Longrightarrow> b \<noteq> []"
    for x xs b by (drule copy_indices_length) (auto simp: MAX_LOCAL_INDEX_LENGTH_def)
  assume "read_resource i j m = Some (b, rv, r, m')"
  then show ?thesis
    by (auto simp: read_resource_def zero_resource_def resource_blocks_def Let_def simp del: copy_indices.simps
        dest!: d malloc_live split: option.splits if_splits prod.splits list.splits)
      (auto simp del: copy_indices.simps dest: c [simplified])
qed

lemma resources_live: "read_loop read_resource zero_resource i js rv m = Some (rv', xs, m') \<Longrightarrow>
    live m' = live m + sum_list (map resource_blocks xs) \<and> length xs = length js"
  by (rule read_loop_live [where f = read_resource and zero = zero_resource and blk = "resource_blocks", OF read_resource_live])
    (simp_all add: zero_resource_def resource_blocks_def)

lemma read_profile_live:
  assumes "read_profile j c m = Some (rv, c', m')" and "cap_resource c = []"
  shows "live m' = live m + profile_blocks c'"
proof -
  have r: "read_loop read_resource zero_resource 0 (x # xs) ez_errno_succ m1 = Some (rv, rs, m2) \<Longrightarrow>
      live m2 = live m1 - 1 + array_blocks resource_blocks rs" for x xs m1 rs m2
    by (cases rs) (auto simp: array_blocks_def simp del: read_loop.simps dest!: resources_live)
  show ?thesis using assms
    by (auto simp: read_profile_def profile_blocks_def simp del: read_loop.simps dest!: r malloc_live
        split: option.splits if_splits prod.splits list.splits)
qed

section \<open>What freeing gives back\<close>

fun freeable :: "tsl_schema_desc \<Rightarrow> bool" where
  "freeable (S_array k mn mx ps) = (length ps \<le> 1 \<and> list_all freeable ps)"
| "freeable (S_object k mx mn req ps) = (length ps \<le> 1 \<and> list_all freeable ps)"
| "freeable _ = True"

lemma free_schema_defined: "free_schema_memory s m \<noteq> None \<longleftrightarrow> freeable s"
  by (induction s arbitrary: m) (auto simp: Let_def split: list.splits)

lemma free_schema_live: "free_schema_memory s m = Some m' \<Longrightarrow> live m' = live m - schema_blocks s"
proof (induction s arbitrary: m m')
  case (S_array k mn mx ps)
  then show ?case by (cases ps) (auto simp: acct split: list.splits)
next
  case (S_object k mx mn req ps)
  then show ?case by (cases ps) (auto simp: acct Let_def split: list.splits if_splits)
qed (auto simp: acct)

lemma free_schemas_contract:
  "free_schemas ss m \<noteq> None \<longleftrightarrow> list_all freeable ss"
  "free_schemas ss m = Some m' \<Longrightarrow> live m' = live m - sum_list (map schema_blocks ss)"
proof (induction ss arbitrary: m)
  case (Cons s ss)
  { case 1
    then show ?case using Cons.IH(1) free_schema_defined [of s m] by (auto split: option.splits)
  next
    case 2
    then show ?case using Cons.IH(2) by (auto dest!: free_schema_live split: option.splits) }
qed auto

definition domain_schemas :: "tsl_rsc_domain \<Rightarrow> tsl_schema_desc list" where
  "domain_schemas d = map prop_desc (rd_prop d) @
     concat (map (\<lambda>a. [da_input_schema a, da_output_schema a]) (rd_action d)) @
     concat (map (\<lambda>e. [de_input_schema e, de_output_schema e]) (rd_event d))"

text \<open>The arrays \<open>event_type\<close> of all events of the domain but the first.\<close>

definition later_event_types :: "tsl_rsc_domain \<Rightarrow> int" where
  "later_event_types d = sum_list (map (\<lambda>e. one (event_type e \<noteq> [])) (tl (rd_event d)))"

lemma free_part_defined:
  "(\<And>m. f xs m \<noteq> None \<longleftrightarrow> ok) \<Longrightarrow> (xs = [] \<Longrightarrow> ok) \<Longrightarrow> free_part f xs m \<noteq> None \<longleftrightarrow> ok"
  by (cases "xs = []") (simp_all add: free_part_def)

lemma free_part_live:
  fixes blk :: "'a \<Rightarrow> int"
  assumes "\<And>m m'. f xs m = Some m' \<Longrightarrow> live m' = live m - sum_list (map blk xs) + lost" and "xs = [] \<Longrightarrow> lost = 0"
    and "free_part f xs m = Some m'"
  shows "live m' = live m - array_blocks blk xs + lost"
proof (cases "xs = []")
  case False
  then obtain m1 where "f xs m = Some m1" "m' = free m1" using assms(3) by (auto simp: free_part_def)
  then show ?thesis using assms(1) False by (simp add: array_blocks_def acct)
qed (use assms in \<open>simp add: free_part_def array_blocks_def\<close>)

lemma sum_pairs: "sum_list (map schema_blocks (concat (map (\<lambda>x. [f x, g x]) xs))) = sum_list (map (\<lambda>x. schema_blocks (f x) + schema_blocks (g x)) xs)"
  by (induction xs) auto

lemma free_props_defined:
  "free_part free_props_memory ps m \<noteq> None \<longleftrightarrow> list_all freeable (map prop_desc ps)"
  by (rule free_part_defined) (simp_all only: free_props_memory_def free_schemas_contract(1), simp)

lemma free_props_live:
  assumes "free_part free_props_memory ps m = Some m'"
  shows "live m' = live m - array_blocks (\<lambda>p. schema_blocks (prop_desc p)) ps"
proof -
  have "free_props_memory ps m = Some m' \<Longrightarrow> live m' = live m - sum_list (map (\<lambda>p. schema_blocks (prop_desc p)) ps) + 0" for m m'
    using free_schemas_contract(2) [of "map prop_desc ps" m m'] by (simp add: free_props_memory_def o_def)
  from free_part_live [where f = free_props_memory, OF this _ assms] show ?thesis by simp
qed

lemma free_actions_defined:
  "free_part free_actions_memory acts m \<noteq> None \<longleftrightarrow>
     list_all freeable (concat (map (\<lambda>a. [da_input_schema a, da_output_schema a]) acts))"
  by (rule free_part_defined) (simp_all only: free_actions_memory_def free_schemas_contract(1), simp)

lemma free_actions_live:
  assumes "free_part free_actions_memory acts m = Some m'"
  shows "live m' = live m - array_blocks (\<lambda>a. schema_blocks (da_input_schema a) + schema_blocks (da_output_schema a)) acts"
proof -
  have "free_actions_memory acts m = Some m' \<Longrightarrow>
      live m' = live m - sum_list (map (\<lambda>a. schema_blocks (da_input_schema a) + schema_blocks (da_output_schema a)) acts) + 0" for m m'
    unfolding free_actions_memory_def by (drule free_schemas_contract(2)) (simp add: sum_pairs)
  from free_part_live [where f = free_actions_memory, OF this _ assms] show ?thesis by simp
qed

lemma free_events_live:
  assumes "free_events_memory es m = Some m'"
  shows "live m' = live m - sum_list (map event_blocks es) + sum_list (map (\<lambda>e. one (event_type e \<noteq> [])) (tl es))"
proof -
  have s: "sum_list (map event_blocks es) = sum_list (map (\<lambda>e. one (event_type e \<noteq> [])) es) +
      sum_list (map (\<lambda>e. schema_blocks (de_input_schema e) + schema_blocks (de_output_schema e)) es)" for es
    by (induction es) (auto simp: event_blocks_def)
  have "live m' = live m - one (es \<noteq> [] \<and> event_type (hd es) \<noteq> []) -
      sum_list (map (\<lambda>e. schema_blocks (de_input_schema e) + schema_blocks (de_output_schema e)) es)"
    using free_schemas_contract(2) [OF assms [unfolded free_events_memory_def]] by (auto simp: sum_pairs acct split: if_splits)
  then show ?thesis by (cases es) (auto simp: s event_blocks_def)
qed

lemma free_events_defined:
  "free_part free_events_memory es m \<noteq> None \<longleftrightarrow>
     list_all freeable (concat (map (\<lambda>e. [de_input_schema e, de_output_schema e]) es))"
  by (rule free_part_defined) (simp_all only: free_events_memory_def free_schemas_contract(1), simp)

lemma free_events_part_live:
  assumes "free_part free_events_memory es m = Some m'"
  shows "live m' = live m - array_blocks event_blocks es + sum_list (map (\<lambda>e. one (event_type e \<noteq> [])) (tl es))"
  by (rule free_part_live [OF free_events_live _ assms]) simp_all

lemma free_domains_defined:
  "free_domain_memory ds m \<noteq> None \<longleftrightarrow> list_all (\<lambda>d. list_all freeable (domain_schemas d)) ds"
proof (induction ds arbitrary: m)
  case (Cons d ds)
  let ?p = "free_part free_props_memory (rd_prop d) m"
  show ?case
  proof (cases ?p)
    case None
    then show ?thesis using free_props_defined [of "rd_prop d" m] by (auto simp: domain_schemas_def)
  next
    case p: (Some m1)
    show ?thesis
    proof (cases "free_part free_actions_memory (rd_action d) m1")
      case None
      then show ?thesis using p free_actions_defined [of "rd_action d" m1] by (auto simp: domain_schemas_def)
    next
      case (Some m2)
      then show ?thesis
        using p free_props_defined [of "rd_prop d" m] free_actions_defined [of "rd_action d" m1]
          free_events_defined [of "rd_event d" m2] Cons.IH
        by (cases "free_part free_events_memory (rd_event d) m2") (auto simp: domain_schemas_def)
    qed
  qed
qed simp

lemma free_domains_live:
  "free_domain_memory ds m = Some m' \<Longrightarrow>
     live m' = live m - sum_list (map domain_blocks ds) + sum_list (map later_event_types ds)"
proof (induction ds arbitrary: m)
  case (Cons d ds)
  then obtain m1 m2 m3 where f: "free_part free_props_memory (rd_prop d) m = Some m1"
    "free_part free_actions_memory (rd_action d) m1 = Some m2" "free_part free_events_memory (rd_event d) m2 = Some m3"
    "free_domain_memory ds m3 = Some m'" by (auto split: option.splits)
  show ?case
    using free_props_live [OF f(1)] free_actions_live [OF f(2)] free_events_part_live [OF f(3)] Cons.IH [OF f(4)]
    by (simp add: domain_blocks_def later_event_types_def)
qed simp

lemma free_resources_defined:
  "free_resources rs m \<noteq> None \<longleftrightarrow>
     list_all (\<lambda>r. list_all (\<lambda>d. list_all freeable (domain_schemas d)) (rsc_domain r)) rs"
proof (induction rs arbitrary: m)
  case (Cons r rs)
  let ?f = "free_part free_domain_memory (rsc_domain r) (if rsc_index r \<noteq> [] then free m else m)"
  have "?f \<noteq> None \<longleftrightarrow> list_all (\<lambda>d. list_all freeable (domain_schemas d)) (rsc_domain r)"
    by (rule free_part_defined [OF free_domains_defined]) simp
  then show ?case using Cons.IH by (cases ?f) simp_all
qed simp

lemma free_resources_live:
  "free_resources rs m = Some m' \<Longrightarrow> live m' = live m - sum_list (map resource_blocks rs) +
     sum_list (map (\<lambda>r. sum_list (map later_event_types (rsc_domain r))) rs)"
proof (induction rs arbitrary: m)
  case (Cons r rs)
  let ?m = "if rsc_index r \<noteq> [] then free m else m"
  obtain m1 where f: "free_part free_domain_memory (rsc_domain r) ?m = Some m1" "free_resources rs m1 = Some m'"
    using Cons.prems by (auto split: option.splits)
  have "live ?m = live m - one (rsc_index r \<noteq> [])" by (simp add: acct)
  moreover have "live m1 = live ?m - array_blocks domain_blocks (rsc_domain r) +
      sum_list (map later_event_types (rsc_domain r))"
    by (rule free_part_live [OF free_domains_live _ f(1)]) simp_all
  ultimately show ?case using Cons.IH [OF f(2)] by (simp add: resource_blocks_def)
qed simp

definition profile_domains :: "ez_iot_tsl_capacity_t \<Rightarrow> tsl_rsc_domain list" where
  "profile_domains c = concat (map rsc_domain (cap_resource c))"

lemma sum_nested: "sum_list (map f (concat (map g xs))) = sum_list (map (\<lambda>x. sum_list (map f (g x))) xs)"
  for f :: "'b \<Rightarrow> int"
  by (induction xs) auto

lemma free_profile_live:
  assumes "free_profile_memory c m = Some (c', m')"
  shows "live m' = live m - profile_blocks c + sum_list (map later_event_types (profile_domains c))"
  using assms
  by (auto simp: free_profile_memory_def profile_blocks_def array_blocks_def profile_domains_def acct sum_nested
      split: if_splits dest!: free_resources_live)

section \<open>The block of the local indices\<close>

text \<open>A block of \<open>n\<close> bytes with nothing but (the first seven characters of) \<open>s\<close> at byte \<open>i\<close>.\<close>

definition index_block :: "nat \<Rightarrow> nat \<Rightarrow> string \<Rightarrow> string" where
  "index_block n i s = replicate i (CHR 0x00) @ take 7 (c_str s) @ replicate (n - i - length (take 7 (c_str s))) (CHR 0x00)"

lemma block_strncpy_at:
  assumes "b = replicate n (CHR 0x00) \<or> b = index_block n i s'" and "i + 7 \<le> n"
  shows "block_strncpy i 7 s b = Some (index_block n i s)"
proof -
  define t where "t = take 7 (c_str s)"
  have t: "length t \<le> 7" by (simp add: t_def)
  have "length b = n" "take i b = replicate i (CHR 0x00)" "drop (i + 7) b = replicate (n - i - 7) (CHR 0x00)"
    using assms by (auto simp: index_block_def min_def)
  then have "block_strncpy i 7 s b = Some (replicate i (CHR 0x00) @ t @ replicate (7 - length t) (CHR 0x00) @ replicate (n - i - 7) (CHR 0x00))"
    using assms(2) by (simp add: block_strncpy_def t_def [symmetric])
  moreover have "replicate (7 - length t) (CHR 0x00) @ replicate (n - i - 7) (CHR 0x00) =
      replicate (n - i - length t) (CHR 0x00)"
    using t assms(2) by (simp add: replicate_add [symmetric])
  ultimately show ?thesis by (simp add: index_block_def t_def [symmetric])
qed

lemma copy_indices_at:
  assumes "b = replicate n (CHR 0x00) \<or> (\<exists>s. b = index_block n i s)" and "length b = n" and "ss \<noteq> []"
  shows "copy_indices i (map BString ss) b = (if n < i + 7 then None else Some (index_block n i (last ss)))"
  using assms
proof (induction ss arbitrary: b)
  case (Cons s ss)
  show ?case
  proof (cases "n < i + 7")
    case True
    then show ?thesis using Cons.prems(2) by (simp add: MAX_LOCAL_INDEX_LENGTH_def block_strncpy_def)
  next
    case False
    then have c: "block_strncpy i 7 s b = Some (index_block n i s)"
      using Cons.prems(1) block_strncpy_at [of b n i] by (auto simp: not_less)
    have "length (index_block n i s) = n" using block_strncpy_length [OF c] Cons.prems(2) by simp
    then show ?thesis using Cons.IH [of "index_block n i s"] c False
      by (cases "ss = []") (auto simp: MAX_LOCAL_INDEX_LENGTH_def)
  qed
qed simp

section \<open>Properties\<close>

text \<open>
  C33: A profile and its memory: one that is read keeps exactly the blocks of its arrays, one that is refused keeps none
  of its resources; and freeing a profile gives back all of them but the types of every event that is not the first of
  its domain.
\<close>

theorem profile_blocks_balance:
  assumes "profile_parse t n c m = Some (rv, c', m1)" and "cap_resource c = []"
  shows "if rv = 0 then live m1 = live m + profile_blocks c' \<and>
      (\<forall>c'' m2. free_profile_memory c' m1 = Some (c'', m2) \<longrightarrow>
         live m2 = live m + sum_list (map later_event_types (profile_domains c')))
    else cap_resource c' = [] \<and> live m \<le> live m1"
proof -
  have later: "0 \<le> sum_list (map later_event_types ds)" for ds
    by (intro sum_list_nonneg) (auto simp: later_event_types_def one_def intro!: sum_list_nonneg)
  have free: "cap_resource c2 = []" if "free_profile_memory c1 m' = Some (c2, m3)" for c1 c2 m' m3
    using that by (auto simp: free_profile_memory_def split: if_splits)
  have b: "(rv = 0 \<longrightarrow> live m1 = live m + profile_blocks c') \<and> (rv \<noteq> 0 \<longrightarrow> cap_resource c' = [] \<and> live m \<le> live m1)"
  proof (cases "n \<le> 0")
    case True
    then show ?thesis using assms by (auto simp: profile_parse_def profile_blocks_def ez_errno_tsl_param_invalid_def)
  next
    case False
    obtain r m2 where r: "bscJSON_Parse t m = (r, m2)" by force
    note l = Parse_live [OF r]
    show ?thesis
    proof (cases r)
      case None
      then obtain c1 m3 where "free_profile_memory c m2 = Some (c1, m3)" "rv = ez_errno_tsl_memory" "c' = c1" "m1 = m3"
        using assms(1) r False by (auto simp: profile_parse_def)
      then show ?thesis using l None assms(2) by (auto simp: free_profile_memory_def ez_errno_tsl_memory_def split: if_splits)
    next
      case (Some j)
      then obtain c1 m3 where p: "read_profile j c m2 = Some (rv, c1, m3)"
        using assms(1) r False by (auto simp: profile_parse_def split: option.splits if_splits)
      note lp = read_profile_live [OF p assms(2)]
      show ?thesis
      proof (cases "rv = 0")
        case True
        then show ?thesis using assms(1) r False Some p l lp by (auto simp: profile_parse_def acct)
      next
        case rv: False
        then obtain c2 m4 where f: "free_profile_memory c1 m3 = Some (c2, m4)" "c' = c2" "m1 = bscJSON_Delete j m4"
          using assms(1) r False Some p by (auto simp: profile_parse_def)
        then show ?thesis using rv l lp Some free [OF f(1)] free_profile_live [OF f(1)] later [of "profile_domains c1"]
          by (simp add: acct)
      qed
    qed
  qed
  then show ?thesis using free_profile_live by fastforce
qed

theorem profile_blocks_balance_witness:
  "let ev = BObject [(''identifier'', BString ''e''), (''eventType'', BArray [BString ''x''])];
       j = BObject [(''version'', BString ''1''), (''resources'', BArray [BObject [(''resourceCategory'', BString ''a''),
         (''localIndex'', BArray [BString ''0'']),
         (''domains'', BArray [BObject [(''identifier'', BString ''d''), (''events'', BArray [ev, ev])]])]])]
   in \<exists>c' m1 c'' m2. profile_parse (json_text False 0 j) 1 \<lparr>cap_ref = 0, rsc_num = 0, cap_resource = []\<rparr> all_memory =
       Some (0, c', m1) \<and> free_profile_memory c' m1 = Some (c'', m2) \<and> live m2 = live all_memory + 1"
proof -
  let ?ev = "BObject [(''identifier'', BString ''e''), (''eventType'', BArray [BString ''x''])]"
  let ?j = "BObject [(''version'', BString ''1''), (''resources'', BArray [BObject [(''resourceCategory'', BString ''a''),
         (''localIndex'', BArray [BString ''0'']),
         (''domains'', BArray [BObject [(''identifier'', BString ''d''), (''events'', BArray [?ev, ?ev])]])]])]"
  let ?c = "\<lparr>cap_ref = 0, rsc_num = 0, cap_resource = []\<rparr>"
  have "plain bscJSON_NESTING_LIMIT ?j" by (simp add: bscJSON_NESTING_LIMIT_def)
  then obtain m1 where m1: "bscJSON_Parse (json_text False 0 ?j) all_memory = (Some ?j, m1)" "plenty m1"
    using parse_printed [of ?j all_memory "[]" False] by (auto simp: plenty_def all_memory_def)
  obtain k l where k: "m1 = \<lparr>m_ok = \<lambda>_. True, m_calls = k, live = l\<rparr>"
    using m1(2) by (cases m1) (auto simp: plenty_def)
  note items = string_item_def array_item_def object_item_def node_item_def node_children_def case_insensitive_strcmp_def
    tolower_def
  note readers = read_profile_def read_resource_def parse_domain_def read_domain_def part_def parse_domain_events_def
    read_event_def parse_param_def MAX_LOCAL_INDEX_LENGTH_def block_strncpy_def c_str_def strncpy0_def version_of_def
    event_types_def name_of_node_def zero_event_def zero_domain_def zero_resource_def zero_schema_def
    ez_errno_succ_def malloc_def
  have "\<exists>c' m2. read_profile ?j ?c m1 = Some (0, c', m2) \<and> rsc_num c' = 1 \<and> cap_resource c' \<noteq> [] \<and>
      sum_list (map later_event_types (profile_domains c')) = 1 \<and>
      list_all (\<lambda>d. list_all freeable (domain_schemas d)) (profile_domains c')"
    unfolding k by (simp add: items readers Let_def profile_domains_def later_event_types_def domain_schemas_def)
  then obtain c' m2 where p: "read_profile ?j ?c m1 = Some (0, c', m2)" "cap_resource c' \<noteq> []"
    "sum_list (map later_event_types (profile_domains c')) = 1"
    "list_all (\<lambda>d. list_all freeable (domain_schemas d)) (profile_domains c')" by blast
  have q: "profile_parse (json_text False 0 ?j) 1 ?c all_memory = Some (0, c', bscJSON_Delete ?j m2)"
    using m1(1) p(1) by (simp add: profile_parse_def del: json_text.simps bscJSON_Delete.simps)
  have "free_resources (cap_resource c') (bscJSON_Delete ?j m2) \<noteq> None"
    using p(4) unfolding free_resources_defined by (auto simp: profile_domains_def list_all_iff)
  then obtain m3 where f: "free_profile_memory c' (bscJSON_Delete ?j m2) = Some (c'\<lparr>cap_resource := []\<rparr>, free m3)"
    using p(2) by (auto simp: free_profile_memory_def simp del: bscJSON_Delete.simps)
  show ?thesis
    using q f profile_blocks_balance [OF q] p(3) unfolding Let_def by auto
qed

text \<open>
  C34: Freeing a profile is undefined exactly when one of its schemas has an array or an object with more than one
  schema inside, however deep: the second is looked for one byte behind the first.
\<close>

theorem profile_free_undefined:
  assumes "cap_resource c \<noteq> []"
  shows "free_profile_memory c m = None \<longleftrightarrow>
    list_ex (\<lambda>d. list_ex (\<lambda>s. \<not> freeable s) (domain_schemas d)) (profile_domains c)"
proof -
  have "free_profile_memory c m \<noteq> None \<longleftrightarrow> free_resources (cap_resource c) m \<noteq> None"
    using assms by (simp add: free_profile_memory_def)
  then show ?thesis using free_resources_defined [of "cap_resource c" m]
    by (auto simp: profile_domains_def list_ex_iff list_all_iff)
qed

theorem profile_free_undefined_witness:
  "let s = S_object ''p'' 0 0 [] [S_bool ''a'', S_bool ''b''];
       d = zero_domain\<lparr>rd_prop := [zero_prop\<lparr>prop_desc := s\<rparr>]\<rparr>
   in \<forall>m. free_profile_memory \<lparr>cap_ref = 1, rsc_num = 1, cap_resource = [zero_resource\<lparr>rsc_domain := [d]\<rparr>]\<rparr> m = None"
  unfolding Let_def
  by (intro allI, subst profile_free_undefined) (simp_all add: profile_domains_def domain_schemas_def)

text \<open>
  The local indices of the resource \<open>i\<close> are all copied to the byte \<open>i\<close> of their block: with the block too short the
  copy runs past its end, and otherwise only the last one is kept, behind \<open>i\<close> bytes of zero.
\<close>

theorem local_indices_collapse:
  assumes "ss \<noteq> []"
  shows "copy_indices i (map BString ss) (replicate (MAX_LOCAL_INDEX_LENGTH * length ss) (CHR 0x00)) =
    (if 8 * length ss < i + 7 then None else Some (index_block (8 * length ss) i (last ss)))"
  using copy_indices_at [of "replicate (8 * length ss) (CHR 0x00)" "8 * length ss" i ss] assms
  by (simp add: MAX_LOCAL_INDEX_LENGTH_def)

theorem local_indices_collapse_witness:
  "copy_indices 2 [BString ''7''] (replicate 8 (CHR 0x00)) = None \<and>
   copy_indices 0 [BString ''1'', BString ''2''] (replicate 16 (CHR 0x00)) = Some (CHR ''2'' # replicate 15 (CHR 0x00))"
  using local_indices_collapse [of "[''7'']" 2] local_indices_collapse [of "[''1'', ''2'']" 0]
  by (simp add: MAX_LOCAL_INDEX_LENGTH_def index_block_def c_str_def numeral_eq_Suc)

end
