(* ===== verification/Bsc_Build.thy ===== *)
theory Bsc_Build
  imports Tsl_Schema
begin

text \<open>
  The routines of bscJSON.c that build and edit trees, those the modules of the SDK use: nodes are
  created, named and appended, replaced by name and deleted by index.  A routine that returns a null
  pointer returns \<open>None\<close>; each call of the allocator may fail.  Texts are C strings.
\<close>

section \<open>Creating nodes\<close>

definition new_item :: "jnode \<Rightarrow> mem \<Rightarrow> jnode option \<times> mem" where
  "new_item j m = (case malloc m of (ok, m1) \<Rightarrow> (if ok then Some j else None, m1))"

definition bscJSON_CreateArray :: "mem \<Rightarrow> jnode option \<times> mem" where
  "bscJSON_CreateArray m = new_item (BArray []) m"

definition bscJSON_CreateObject :: "mem \<Rightarrow> jnode option \<times> mem" where
  "bscJSON_CreateObject m = new_item (BObject []) m"

definition bscJSON_CreateBool :: "bool \<Rightarrow> mem \<Rightarrow> jnode option \<times> mem" where
  "bscJSON_CreateBool b m = new_item (if b then BTrue else BFalse) m"

text \<open>The callers pass integers, converted to \<open>double\<close> exactly.\<close>

definition bscJSON_CreateNumber :: "int \<Rightarrow> mem \<Rightarrow> jnode option \<times> mem" where
  "bscJSON_CreateNumber num m =
     new_item (BNumber (if INT_MAX \<le> num then INT_MAX else if num \<le> INT_MIN then INT_MIN else num) (d_of_int num)) m"

definition bscJSON_CreateString :: "string \<Rightarrow> mem \<Rightarrow> jnode option \<times> mem" where
  "bscJSON_CreateString s m =
     (case malloc m of (ok, m1) \<Rightarrow>
        if \<not> ok then (None, m1)
        else (case malloc m1 of (ok2, m2) \<Rightarrow> if ok2 then (Some (BString s), m2) else (None, free m2)))"

section \<open>Adding, replacing and deleting\<close>

text \<open>The arrays and objects are given by their children.\<close>

definition add_item_to_array :: "jnode list \<Rightarrow> jnode option \<Rightarrow> bool \<times> jnode list" where
  "add_item_to_array js item = (case item of None \<Rightarrow> (False, js) | Some j \<Rightarrow> (True, js @ [j]))"

type_synonym members = "(string \<times> jnode) list"

definition add_item_to_object :: "members \<Rightarrow> string \<Rightarrow> jnode option \<Rightarrow> mem \<Rightarrow> bool \<times> members \<times> mem" where
  "add_item_to_object ms name item m =
     (case item of None \<Rightarrow> (False, ms, m)
      | Some j \<Rightarrow> (case malloc m of (ok, m1) \<Rightarrow> if ok then (True, ms @ [(name, j)], m1) else (False, ms, m1)))"

definition delete_opt :: "jnode option \<Rightarrow> mem \<Rightarrow> mem" where
  "delete_opt j m = (case j of None \<Rightarrow> m | Some x \<Rightarrow> bscJSON_Delete x m)"

text \<open>An item that cannot be added is deleted, and the object goes without it.\<close>

definition add_created :: "string \<Rightarrow> (mem \<Rightarrow> jnode option \<times> mem) \<Rightarrow> members \<times> mem \<Rightarrow> members \<times> mem" where
  "add_created name create s =
     (case s of (ms, m) \<Rightarrow> (case create m of (item, m1) \<Rightarrow>
       (case add_item_to_object ms name item m1 of (ok, ms2, m2) \<Rightarrow>
         (ms2, if ok then m2 else delete_opt item m2))))"

definition bscJSON_AddBoolToObject :: "string \<Rightarrow> bool \<Rightarrow> members \<times> mem \<Rightarrow> members \<times> mem" where
  "bscJSON_AddBoolToObject name b = add_created name (bscJSON_CreateBool b)"

definition bscJSON_AddNumberToObject :: "string \<Rightarrow> int \<Rightarrow> members \<times> mem \<Rightarrow> members \<times> mem" where
  "bscJSON_AddNumberToObject name i = add_created name (bscJSON_CreateNumber i)"

definition bscJSON_AddStringToObject :: "string \<Rightarrow> string \<Rightarrow> members \<times> mem \<Rightarrow> members \<times> mem" where
  "bscJSON_AddStringToObject name s = add_created name (bscJSON_CreateString s)"

text \<open>The first member of the name, upper and lower case not distinguished.\<close>

fun replace_member :: "members \<Rightarrow> string \<Rightarrow> string \<Rightarrow> jnode \<Rightarrow> (members \<times> jnode) option" where
  "replace_member [] name new j = None"
| "replace_member ((k, x) # ms) name new j =
     (if case_insensitive_strcmp name (Some k) then Some ((new, j) # ms, x)
      else map_option (\<lambda>(ms', y). ((k, x) # ms', y)) (replace_member ms name new j))"

text \<open>
  The replacement gets a copy of the name; where that fails its name is a null pointer, which is
  printed like an empty one and found under no other name: it is kept as an empty name, and the
  block of it that does not exist is counted here and uncounted by \<open>bscJSON_Delete\<close>.  A replacement
  for a member that is not there is lost.
\<close>

definition bscJSON_ReplaceItemInObject :: "members \<Rightarrow> string \<Rightarrow> jnode option \<Rightarrow> mem \<Rightarrow> members \<times> mem" where
  "bscJSON_ReplaceItemInObject ms name item m =
     (case item of None \<Rightarrow> (ms, m)
      | Some j \<Rightarrow> (case malloc m of (ok, m1) \<Rightarrow>
          (case replace_member ms name (if ok then name else []) j of
             None \<Rightarrow> (ms, m1)
           | Some (ms', old) \<Rightarrow> (ms', free (bscJSON_Delete old (if ok then m1 else m1\<lparr>live := live m1 + 1\<rparr>))))))"

definition delete_nth :: "nat \<Rightarrow> 'a list \<Rightarrow> 'a list" where
  "delete_nth n xs = take n xs @ drop (Suc n) xs"

definition bscJSON_DeleteItemFromArray :: "jnode list \<Rightarrow> nat \<Rightarrow> mem \<Rightarrow> jnode list \<times> mem" where
  "bscJSON_DeleteItemFromArray js n m =
     (if n < length js then (delete_nth n js, bscJSON_Delete (js ! n) m) else (js, m))"

section \<open>The heap\<close>

abbreviation member_blocks :: "members \<Rightarrow> int" where
  "member_blocks ms \<equiv> int (sum_list (map (\<lambda>(name, j). Suc (blocks j)) ms))"

lemma malloc_cases:
  obtains ok m1 where "malloc m = (ok, m1)" "live m1 = live m + (if ok then 1 else 0)"
  using live_malloc [of m] by (cases "malloc m") auto

lemma live_add_created:
  assumes "\<And>m r m1. create m = (r, m1) \<Longrightarrow> live m1 = live m + (case r of None \<Rightarrow> 0 | Some j \<Rightarrow> int (blocks j))"
    and "add_created name create (ms, m) = (ms', m')"
  shows "live m' = live m + member_blocks ms' - member_blocks ms"
proof -
  obtain r m1 where c: "create m = (r, m1)" by force
  obtain ok m2 where k: "malloc m1 = (ok, m2)" "live m2 = live m1 + (if ok then 1 else 0)" by (rule malloc_cases)
  show ?thesis using assms(1) [OF c] assms(2) c k
    by (auto simp: add_created_def add_item_to_object_def delete_opt_def acct split: option.splits if_splits)
qed

lemma live_new_item:
  assumes "new_item j m = (r, m1)" and "blocks j = 1"
  shows "live m1 = live m + (case r of None \<Rightarrow> 0 | Some j \<Rightarrow> int (blocks j))"
  using assms live_malloc [of m] by (auto simp: new_item_def split: prod.splits)

lemma live_CreateString:
  assumes "bscJSON_CreateString s m = (r, m1)"
  shows "live m1 = live m + (case r of None \<Rightarrow> 0 | Some j \<Rightarrow> int (blocks j))"
proof -
  obtain ok m2 where k: "malloc m = (ok, m2)" "live m2 = live m + (if ok then 1 else 0)" by (rule malloc_cases)
  obtain ok2 m3 where k2: "malloc m2 = (ok2, m3)" "live m3 = live m2 + (if ok2 then 1 else 0)" by (rule malloc_cases)
  show ?thesis using assms k k2 by (auto simp: bscJSON_CreateString_def acct split: if_splits)
qed

lemma live_Add:
  "bscJSON_AddBoolToObject name b (ms, m) = (ms', m') \<Longrightarrow> live m' = live m + member_blocks ms' - member_blocks ms"
  "bscJSON_AddNumberToObject name i (ms, m) = (ms', m') \<Longrightarrow> live m' = live m + member_blocks ms' - member_blocks ms"
  "bscJSON_AddStringToObject name s (ms, m) = (ms', m') \<Longrightarrow> live m' = live m + member_blocks ms' - member_blocks ms"
  unfolding bscJSON_AddBoolToObject_def bscJSON_AddNumberToObject_def bscJSON_AddStringToObject_def
  by (erule live_add_created [rotated]; auto simp: bscJSON_CreateBool_def bscJSON_CreateNumber_def
      dest: live_new_item live_CreateString split: option.splits)+

lemma replace_member_blocks:
  "replace_member ms name new j = Some (ms', old) \<Longrightarrow>
   member_blocks ms' + int (blocks old) = member_blocks ms + int (blocks j)"
  by (induction ms arbitrary: ms') (auto split: if_splits)

text \<open>Replacing takes what it is given and returns the member it replaced; a lost replacement stays.\<close>

lemma live_Replace:
  assumes "bscJSON_ReplaceItemInObject ms name item m = (ms', m')"
  shows "live m + member_blocks ms' - member_blocks ms \<le>
    live m' + (case item of None \<Rightarrow> 0 | Some j \<Rightarrow> int (blocks j))"
proof -
  obtain ok m1 where k: "malloc m = (ok, m1)" "live m1 = live m + (if ok then 1 else 0)" by (rule malloc_cases)
  show ?thesis using assms k
    by (auto simp: bscJSON_ReplaceItemInObject_def acct dest!: replace_member_blocks split: option.splits if_splits)
qed

end
