(* ===== verification/Hub.thy ===== *)
theory Hub
  imports Bsc_Build Bsc_Roundtrip Types
begin

text \<open>
  component/hub/hub_func.c: the list of the devices behind a hub.  The list is kept as the text of a
  JSON array under one key of the application's storage; every operation reads and parses it,
  changes the tree, and prints and stores it again.
\<close>

section \<open>Devices\<close>

record hub_subdev_info_internal_t =
  sd_authm :: int
  sd_type :: string
  sd_sn :: string
  sd_vcode :: string
  sd_ver :: string
  sd_uuid :: string
  sd_sta :: int
  sd_access :: int

definition zero_subdev :: hub_subdev_info_internal_t where
  "zero_subdev = \<lparr>sd_authm = 0, sd_type = [], sd_sn = [], sd_vcode = [], sd_ver = [], sd_uuid = [],
     sd_sta = 0, sd_access = 0\<rparr>"

definition COMPONENT_HUB_SUBLIST_MAX :: nat where "COMPONENT_HUB_SUBLIST_MAX = 64"

definition ez_errno_hub_not_init :: int where "ez_errno_hub_not_init = 0x00030001"
definition ez_errno_hub_param_invalid :: int where "ez_errno_hub_param_invalid = 0x00030002"
definition ez_errno_hub_internal :: int where "ez_errno_hub_internal = 0x00030003"
definition ez_errno_hub_storage :: int where "ez_errno_hub_storage = 0x00030004"
definition ez_errno_hub_subdev_not_found :: int where "ez_errno_hub_subdev_not_found = 0x00030005"
definition ez_errno_hub_enum_end :: int where "ez_errno_hub_enum_end = 0x00030006"
definition ez_errno_hub_memory :: int where "ez_errno_hub_memory = 0x00030007"
definition ez_errno_hub_out_of_range :: int where "ez_errno_hub_out_of_range = 0x00030008"
definition ez_errno_hub_subdev_existed :: int where "ez_errno_hub_subdev_existed = 0x00030009"

section \<open>State\<close>

text \<open>What the hub asks of the outside, in order.\<close>

datatype hub_request =
  Platform_report string | Platform_status string | Platform_auth string
| Tsl_reg hub_subdev_info_internal_t | Tsl_unreg hub_subdev_info_internal_t | Tsl_profile_del string | Tsl_checkupdate
| Add_succ string | Add_fail hub_subdev_info_internal_t

text \<open>
  \<open>h_store\<close> is the text under \<open>EZ_HUB_KEY_HUBLIST\<close>, which only this module writes.  The storage is the
  application's and the cloud the kernel's: \<open>h_kv_ok\<close> says whether the k-th access to the storage
  succeeds, \<open>h_send_ok\<close> and \<open>h_tsl_rv\<close> how sending and registering at the thing model end.  A write that fails
  leaves the text as it was.  \<open>h_md5\<close> is the digest as text, \<open>h_online\<close> the answer of \<open>ez_iot_is_online\<close>.
  The fields \<open>l_\<close> are the local variables of the running operation that own
  blocks; \<open>h_inited\<close> is the answer of \<open>ez_iot_is_inited\<close>.
\<close>

record hub =
  h_store :: string
  h_kv_ok :: "nat \<Rightarrow> bool"
  h_kv_calls :: nat
  h_send_ok :: "nat \<Rightarrow> bool"
  h_tsl_rv :: "nat \<Rightarrow> int"
  h_requests :: "hub_request list"
  h_md5 :: "string \<Rightarrow> string"
  h_online :: bool
  h_unauth_count :: int
  h_locked :: bool
  h_mem :: mem
  l_pbuf :: bool
  l_save :: "string option"
  l_root :: "jnode list option"
  l_lst :: "jnode list option"
  h_inited :: bool
  g_hub_inited :: bool

text \<open>
  A step either goes on with a value or jumps to \<open>done\<close> with a code; \<open>None\<close> is a step that never
  returns (a lock that is held) or whose behaviour is undefined.
\<close>

type_synonym 'a step = "hub \<Rightarrow> ((int + 'a) \<times> hub) option"

definition ret :: "'a \<Rightarrow> 'a step" where
  "ret x h = Some (Inr x, h)"

definition leave :: "int \<Rightarrow> 'a step" where
  "leave rv h = Some (Inl rv, h)"

definition andthen :: "'a step \<Rightarrow> ('a \<Rightarrow> 'b step) \<Rightarrow> 'b step" where
  "andthen f g h = (case f h of None \<Rightarrow> None | Some (Inl rv, h1) \<Rightarrow> Some (Inl rv, h1) | Some (Inr x, h1) \<Rightarrow> g x h1)"

definition check_not :: "bool \<Rightarrow> int \<Rightarrow> unit step" where
  "check_not cond errcode = (if cond then leave errcode else ret ())"

definition asked :: "hub_request \<Rightarrow> hub \<Rightarrow> hub" where
  "asked r h = h\<lparr>h_requests := h_requests h @ [r]\<rparr>"

text \<open>The result of the latest request.\<close>

definition send_result :: "hub \<Rightarrow> bool" where
  "send_result h = h_send_ok h (length (h_requests h))"

section \<open>Storage and blocks\<close>

definition kv_access :: "unit step" where
  "kv_access h = (let h1 = h\<lparr>h_kv_calls := Suc (h_kv_calls h)\<rparr> in
     if h_kv_ok h (h_kv_calls h) then ret () h1 else leave ez_errno_hub_storage h1)"

definition kv_length :: "nat step" where
  "kv_length = andthen kv_access (\<lambda>_ h. ret (length (h_store h)) h)"

definition kv_set :: "string \<Rightarrow> unit step" where
  "kv_set t = andthen kv_access (\<lambda>_ h. ret () (h\<lparr>h_store := t\<rparr>))"

definition malloc_pbuf :: "unit step" where
  "malloc_pbuf h = (case malloc (h_mem h) of (ok, m) \<Rightarrow>
     if ok then ret () (h\<lparr>h_mem := m, l_pbuf := True\<rparr>) else leave ez_errno_hub_memory (h\<lparr>h_mem := m\<rparr>))"

text \<open>The stored text is the one of an array; another is not this module's.\<close>

definition parse_store :: "jnode list step" where
  "parse_store h = (case bscJSON_Parse (c_str (h_store h)) (h_mem h) of
     (None, m) \<Rightarrow> leave ez_errno_hub_memory (h\<lparr>h_mem := m\<rparr>)
   | (Some (BArray js), m) \<Rightarrow> ret js (h\<lparr>h_mem := m, l_root := Some js\<rparr>)
   | _ \<Rightarrow> None)"

definition read_list :: "jnode list step" where
  "read_list = andthen malloc_pbuf (\<lambda>_. andthen kv_access (\<lambda>_. parse_store))"

definition load_list :: "int \<Rightarrow> jnode list step" where
  "load_list rv_empty = andthen kv_length (\<lambda>n. andthen (check_not (n = 0) rv_empty) (\<lambda>_. read_list))"

definition print_list :: "jnode list \<Rightarrow> string step" where
  "print_list js h = (case print (BArray js) False (h_mem h) of
     None \<Rightarrow> None
   | Some (None, m) \<Rightarrow> leave ez_errno_hub_memory (h\<lparr>h_mem := m\<rparr>)
   | Some (Some t, m) \<Rightarrow> ret t (h\<lparr>h_mem := m, l_save := Some t\<rparr>))"

text \<open>The lock is not recursive.\<close>

definition lock :: "hub \<Rightarrow> hub option" where
  "lock h = (if h_locked h then None else Some (h\<lparr>h_locked := True, l_pbuf := False, l_save := None, l_root := None\<rparr>))"

definition delete_list :: "jnode list option \<Rightarrow> mem \<Rightarrow> mem" where
  "delete_list r m = (case r of None \<Rightarrow> m | Some js \<Rightarrow> bscJSON_Delete (BArray js) m)"

definition cleanup :: "hub \<Rightarrow> hub" where
  "cleanup h = (let m1 = (if l_pbuf h then free (h_mem h) else h_mem h);
                    m2 = (if l_save h \<noteq> None then free m1 else m1)
     in h\<lparr>h_mem := delete_list (l_lst h) (delete_list (l_root h) m2),
          l_pbuf := False, l_save := None, l_root := None, l_lst := None\<rparr>)"

text \<open>The whole of an operation: the lock, the body, and \<open>done\<close>.\<close>

definition locked :: "'a step \<Rightarrow> 'a step" where
  "locked body h = (case lock h of None \<Rightarrow> None
     | Some h1 \<Rightarrow> (case body h1 of None \<Rightarrow> None | Some (r, h2) \<Rightarrow> Some (r, cleanup (h2\<lparr>h_locked := False\<rparr>))))"

definition code_of :: "int + 'a \<Rightarrow> int" where
  "code_of r = (case r of Inl rv \<Rightarrow> rv | Inr _ \<Rightarrow> 0)"

section \<open>Devices as JSON\<close>

definition subdev_to_json :: "hub_subdev_info_internal_t \<Rightarrow> mem \<Rightarrow> jnode option \<times> mem" where
  "subdev_to_json d m =
     (case bscJSON_CreateObject m of
        (None, m1) \<Rightarrow> (None, m1)
      | (Some _, m1) \<Rightarrow>
          (case (bscJSON_AddNumberToObject ''access'' (sd_access d) \<circ> bscJSON_AddStringToObject ''uuid'' (sd_uuid d) \<circ>
                 bscJSON_AddStringToObject ''ver'' (sd_ver d) \<circ> bscJSON_AddStringToObject ''vcode'' (sd_vcode d) \<circ>
                 bscJSON_AddStringToObject ''sn'' (sd_sn d) \<circ> bscJSON_AddStringToObject ''type'' (sd_type d) \<circ>
                 bscJSON_AddNumberToObject ''authm'' (sd_authm d) \<circ> bscJSON_AddBoolToObject ''sta'' (sd_sta d \<noteq> 0)) ([], m1) of
             (ms, m2) \<Rightarrow> (Some (BObject ms), m2)))"

text \<open>\<open>valueint\<close> of a parsed node; a member of the struct has eight bits.\<close>

definition valueint_of :: "jnode \<Rightarrow> int" where
  "valueint_of j = (case j of BTrue \<Rightarrow> 1 | BNumber i d \<Rightarrow> i | _ \<Rightarrow> 0)"

definition get_int8 :: "jnode \<Rightarrow> string \<Rightarrow> int" where
  "get_int8 j name = (case node_item j name of None \<Rightarrow> 0 | Some x \<Rightarrow> signed_take_bit 7 (valueint_of x))"

definition get_string :: "nat \<Rightarrow> jnode \<Rightarrow> string \<Rightarrow> string option" where
  "get_string n j name = (case node_item j name of None \<Rightarrow> Some []
     | Some (BString s) \<Rightarrow> Some (strncpy0 n s) | Some _ \<Rightarrow> None)"

text \<open>A text that is no string has no \<open>valuestring\<close>, and copying from the null pointer is undefined.\<close>

definition json_to_subdev :: "jnode \<Rightarrow> hub_subdev_info_internal_t option" where
  "json_to_subdev j =
     (case (get_string 32 j ''type'', get_string 16 j ''sn'', get_string 32 j ''vcode'', get_string 32 j ''ver'', get_string 16 j ''uuid'') of
        (Some ty, Some sn, Some vc, Some ver, Some uuid) \<Rightarrow>
          Some \<lparr>sd_authm = get_int8 j ''authm'', sd_type = ty, sd_sn = sn, sd_vcode = vc, sd_ver = ver, sd_uuid = uuid,
                sd_sta = get_int8 j ''sta'', sd_access = get_int8 j ''access''\<rparr>
      | _ \<Rightarrow> None)"

text \<open>The index of the first device of the number, of any with a number for a null pointer, or none.\<close>

fun find_dev_by_sn :: "nat \<Rightarrow> jnode list \<Rightarrow> string option \<Rightarrow> nat option option" where
  "find_dev_by_sn i [] sn = Some None"
| "find_dev_by_sn i (j # js) sn =
     (case node_item j ''sn'' of
        None \<Rightarrow> find_dev_by_sn (Suc i) js sn
      | Some x \<Rightarrow> (case sn of
          None \<Rightarrow> Some (Some i)
        | Some s \<Rightarrow> (case x of
            BString t \<Rightarrow> if t = s then Some (Some i) else find_dev_by_sn (Suc i) js sn
          | _ \<Rightarrow> None)))"

definition find_dev :: "jnode list \<Rightarrow> string option \<Rightarrow> nat option step" where
  "find_dev js sn h = map_option (\<lambda>i. (Inr i, h)) (find_dev_by_sn 0 js sn)"

definition item_at :: "jnode list \<Rightarrow> nat \<Rightarrow> jnode step" where
  "item_at js i = (if i < length js then ret (js ! i) else leave ez_errno_hub_subdev_not_found)"

definition subdev_of :: "jnode \<Rightarrow> hub_subdev_info_internal_t step" where
  "subdev_of j h = map_option (\<lambda>d. (Inr d, h)) (json_to_subdev j)"

definition set_root :: "jnode list \<Rightarrow> unit step" where
  "set_root js h = ret () (h\<lparr>l_root := Some js\<rparr>)"

text \<open>The stored list, the place of a device in it and its node.\<close>

definition locate :: "string \<Rightarrow> (jnode list \<times> nat \<times> jnode) step" where
  "locate sn = andthen (load_list ez_errno_hub_subdev_not_found) (\<lambda>js. andthen (find_dev js (Some sn)) (\<lambda>r.
     case r of None \<Rightarrow> leave ez_errno_hub_subdev_not_found
     | Some i \<Rightarrow> andthen (item_at js i) (\<lambda>j. ret (js, i, j))))"

definition store_list :: "jnode list \<Rightarrow> unit step" where
  "store_list js = andthen (set_root js) (\<lambda>_. andthen (print_list js) (\<lambda>t. kv_set t))"

section \<open>Reports\<close>

definition hub_send_msg_to_platform :: "hub_request \<Rightarrow> hub \<Rightarrow> int \<times> hub" where
  "hub_send_msg_to_platform r h = (if send_result h then 0 else - 1, asked r h)"

definition send_or_leave :: "hub_request \<Rightarrow> unit step" where
  "send_or_leave r h = (case hub_send_msg_to_platform r h of (rv, h1) \<Rightarrow> check_not (rv \<noteq> 0) ez_errno_hub_internal h1)"

definition report_node :: "(members \<times> mem \<Rightarrow> members \<times> mem) \<Rightarrow> mem \<Rightarrow> jnode option \<times> mem" where
  "report_node f m = (case bscJSON_CreateObject m of
     (None, m1) \<Rightarrow> (None, m1) | (Some _, m1) \<Rightarrow> (case f ([], m1) of (ms, m2) \<Rightarrow> (Some (BObject ms), m2)))"

definition subdev_to_relation :: "hub_subdev_info_internal_t \<Rightarrow> mem \<Rightarrow> jnode option \<times> mem" where
  "subdev_to_relation d = report_node
     (bscJSON_AddStringToObject ''FirmwareIdentificationCode'' [] \<circ> bscJSON_AddStringToObject ''type'' (sd_type d) \<circ>
      bscJSON_AddStringToObject ''version'' (sd_ver d) \<circ> bscJSON_AddStringToObject ''childdevid'' (sd_sn d) \<circ>
      bscJSON_AddBoolToObject ''connected'' (sd_sta d \<noteq> 0))"

definition subdev_to_status :: "hub_subdev_info_internal_t \<Rightarrow> mem \<Rightarrow> jnode option \<times> mem" where
  "subdev_to_status d = report_node
     (bscJSON_AddStringToObject ''childdevid'' (sd_sn d) \<circ> bscJSON_AddBoolToObject ''connected'' (sd_sta d \<noteq> 0))"

text \<open>The devices that are told, appended to \<open>subdev_lst\<close>.\<close>

fun report_loop ::
  "(hub_subdev_info_internal_t \<Rightarrow> bool) \<Rightarrow> (hub_subdev_info_internal_t \<Rightarrow> mem \<Rightarrow> jnode option \<times> mem) \<Rightarrow>
   jnode list \<Rightarrow> jnode list \<Rightarrow> mem \<Rightarrow> (jnode list \<times> mem) option" where
  "report_loop told f [] lst m = Some (lst, m)"
| "report_loop told f (j # js) lst m =
     (case json_to_subdev j of None \<Rightarrow> None
      | Some d \<Rightarrow> if told d then (case f d m of (item, m1) \<Rightarrow> report_loop told f js (snd (add_item_to_array lst item)) m1)
                  else report_loop told f js lst m)"

definition fill_report ::
  "(hub_subdev_info_internal_t \<Rightarrow> bool) \<Rightarrow> (hub_subdev_info_internal_t \<Rightarrow> mem \<Rightarrow> jnode option \<times> mem) \<Rightarrow>
   jnode list \<Rightarrow> jnode list step" where
  "fill_report told f js h = map_option (\<lambda>(lst, m). (Inr lst, h\<lparr>h_mem := m, l_lst := Some lst\<rparr>))
     (report_loop told f js [] (h_mem h))"

definition free_pbuf :: "unit step" where
  "free_pbuf h = ret () (h\<lparr>h_mem := if l_pbuf h then free (h_mem h) else h_mem h, l_pbuf := False\<rparr>)"

text \<open>\<open>subdev_lst\<close> is created before the lock is taken and tested under it.\<close>

definition reporting :: "unit step \<Rightarrow> hub \<Rightarrow> (int \<times> hub) option" where
  "reporting body h = (case bscJSON_CreateArray (h_mem h) of (lst, m) \<Rightarrow>
     map_option (\<lambda>(r, h1). (code_of r, h1))
       (locked (andthen (\<lambda>h1. ret () (h1\<lparr>l_lst := if lst = None then None else Some []\<rparr>))
          (\<lambda>_. andthen (check_not (lst = None) ez_errno_hub_memory) (\<lambda>_. body))) (h\<lparr>h_mem := m\<rparr>)))"

definition hub_subdev_list_report :: "hub \<Rightarrow> (int \<times> hub) option" where
  "hub_subdev_list_report = reporting (andthen kv_length (\<lambda>n.
     if n = 0 then send_or_leave (Platform_report ''{}'')
     else andthen read_list (\<lambda>js. andthen free_pbuf (\<lambda>_.
       andthen (fill_report (\<lambda>d. sd_access d \<noteq> 0) subdev_to_relation js) (\<lambda>lst.
       andthen (print_list lst) (\<lambda>t. send_or_leave (Platform_report t)))))))"

definition hub_subdev_sta_report :: "hub \<Rightarrow> (int \<times> hub) option" where
  "hub_subdev_sta_report = reporting (andthen (load_list ez_errno_hub_subdev_not_found) (\<lambda>js.
     andthen free_pbuf (\<lambda>_. andthen (fill_report (\<lambda>d. True) subdev_to_status js) (\<lambda>lst.
     andthen (print_list lst) (\<lambda>t. send_or_leave (Platform_status t))))))"

text \<open>An operation that reports after it has succeeded; how the report ends is not looked at.\<close>

definition then_report :: "(hub \<Rightarrow> (int \<times> hub) option) \<Rightarrow> 'a step \<Rightarrow> hub \<Rightarrow> (int \<times> hub) option" where
  "then_report report body h = (case locked body h of None \<Rightarrow> None
     | Some (r, h1) \<Rightarrow> if code_of r = 0 then map_option (\<lambda>(rv, h2). (0, h2)) (report h1) else Some (code_of r, h1))"

section \<open>Authentication\<close>

definition auth_serial :: "hub_subdev_info_internal_t \<Rightarrow> string" where
  "auth_serial d = (if sd_authm d = 0 then sd_sn d else take 62 (sd_type d @ '':'' @ sd_sn d))"

definition HUB_AUTH_SALT :: string where "HUB_AUTH_SALT = ''www.88075998.com''"

definition auth_mac :: "(string \<Rightarrow> string) \<Rightarrow> hub_subdev_info_internal_t \<Rightarrow> string" where
  "auth_mac md5 d = md5 (md5 (md5 (sd_vcode d @ auth_serial d) @ HUB_AUTH_SALT))"

definition hub_subdev_auth_do :: "hub_subdev_info_internal_t \<Rightarrow> hub \<Rightarrow> (int \<times> hub) option" where
  "hub_subdev_auth_do d h =
     (case report_node (bscJSON_AddNumberToObject ''devAccessMode'' (sd_authm d) \<circ>
          bscJSON_AddStringToObject ''childverifycode'' (auth_mac (h_md5 h) d) \<circ>
          bscJSON_AddStringToObject ''childserial'' (auth_serial d)) (h_mem h) of
        (None, m) \<Rightarrow> Some (ez_errno_hub_memory, h\<lparr>h_mem := m\<rparr>)
      | (Some auth_info, m) \<Rightarrow>
          (case print auth_info False m of
             None \<Rightarrow> None
           | Some (None, m1) \<Rightarrow> Some (ez_errno_hub_memory, h\<lparr>h_mem := bscJSON_Delete auth_info m1\<rparr>)
           | Some (Some t, m1) \<Rightarrow> Some (hub_send_msg_to_platform (Platform_auth t)
               (h\<lparr>h_mem := bscJSON_Delete auth_info (free m1)\<rparr>))))"

section \<open>Operations on the list\<close>

definition create_list :: "jnode list step" where
  "create_list h = (case bscJSON_CreateArray (h_mem h) of
     (None, m) \<Rightarrow> leave ez_errno_hub_memory (h\<lparr>h_mem := m\<rparr>)
   | (Some _, m) \<Rightarrow> ret [] (h\<lparr>h_mem := m, l_root := Some []\<rparr>))"

definition make_subdev :: "hub_subdev_info_internal_t \<Rightarrow> jnode step" where
  "make_subdev d h = (case subdev_to_json d (h_mem h) of
     (None, m) \<Rightarrow> leave ez_errno_hub_memory (h\<lparr>h_mem := m\<rparr>) | (Some j, m) \<Rightarrow> ret j (h\<lparr>h_mem := m\<rparr>))"

definition list_for_add :: "string \<Rightarrow> jnode list step" where
  "list_for_add sn = andthen kv_length (\<lambda>n. if n = 0 then create_list
     else andthen read_list (\<lambda>js. andthen (find_dev js (Some sn)) (\<lambda>r.
       andthen (check_not (r \<noteq> None) ez_errno_hub_subdev_existed) (\<lambda>_. ret js))))"

definition hub_add_do :: "hub_subdev_info_internal_t \<Rightarrow> hub \<Rightarrow> (int \<times> hub) option" where
  "hub_add_do d h = map_option (\<lambda>(r, h1). (code_of r, h1)) (locked
     (andthen (list_for_add (sd_sn d)) (\<lambda>js.
      andthen (check_not (COMPONENT_HUB_SUBLIST_MAX \<le> length js) ez_errno_hub_out_of_range) (\<lambda>_.
      andthen (make_subdev d) (\<lambda>j. andthen (store_list (js @ [j])) (\<lambda>_ h.
        map_option (\<lambda>(rv, h1). (Inr (), h1)) (hub_subdev_auth_do d (h\<lparr>h_unauth_count := h_unauth_count h + 1\<rparr>))))))) h)"

definition delete_at :: "jnode list \<Rightarrow> nat \<Rightarrow> jnode list step" where
  "delete_at js i h = (case bscJSON_DeleteItemFromArray js i (h_mem h) of (js', m) \<Rightarrow>
     ret js' (h\<lparr>h_mem := m, l_root := Some js'\<rparr>))"

definition hub_del_do :: "string \<Rightarrow> hub \<Rightarrow> (int \<times> hub) option" where
  "hub_del_do sn = then_report hub_subdev_list_report
     (andthen (locate sn) (\<lambda>(js, i, j). andthen (subdev_of j) (\<lambda>d. andthen (delete_at js i) (\<lambda>js'.
      andthen (store_list js') (\<lambda>_ h.
        if sd_access d = 0 then ret () (h\<lparr>h_unauth_count := h_unauth_count h - 1\<rparr>)
        else ret () (asked (Tsl_profile_del (sd_sn d)) (asked (Tsl_unreg d) h)))))))"

text \<open>The device at \<open>i\<close> with one member replaced; it is an object, for its number was found in it.\<close>

definition replace_at :: "jnode list \<Rightarrow> nat \<Rightarrow> string \<Rightarrow> (mem \<Rightarrow> jnode option \<times> mem) \<Rightarrow> (jnode list \<times> jnode) step" where
  "replace_at js i name create h = (case js ! i of
     BObject ms \<Rightarrow> (case create (h_mem h) of (item, m) \<Rightarrow>
       (case bscJSON_ReplaceItemInObject ms name item m of (ms', m') \<Rightarrow>
          ret (js[i := BObject ms'], BObject ms') (h\<lparr>h_mem := m', l_root := Some (js[i := BObject ms'])\<rparr>)))
   | _ \<Rightarrow> None)"

definition hub_ver_update_do :: "string \<Rightarrow> string \<Rightarrow> hub \<Rightarrow> (int \<times> hub) option" where
  "hub_ver_update_do sn ver = then_report hub_subdev_list_report
     (andthen (locate sn) (\<lambda>(js, i, j). andthen (subdev_of j) (\<lambda>old.
      andthen (replace_at js i ''ver'' (bscJSON_CreateString ver)) (\<lambda>(js', j').
      andthen (store_list js') (\<lambda>_. andthen (subdev_of j') (\<lambda>new h.
        ret () (asked (Tsl_reg new) (asked (Tsl_unreg old) h))))))))"

definition hub_status_update_do :: "string \<Rightarrow> bool \<Rightarrow> hub \<Rightarrow> (int \<times> hub) option" where
  "hub_status_update_do sn online = then_report hub_subdev_sta_report
     (andthen (locate sn) (\<lambda>(js, i, j). andthen (replace_at js i ''sta'' (bscJSON_CreateBool online)) (\<lambda>(js', j').
      store_list js')))"

definition hub_subdev_query :: "string \<Rightarrow> hub_subdev_info_internal_t step" where
  "hub_subdev_query sn = locked (andthen (locate sn) (\<lambda>(js, i, j). subdev_of j))"

definition hub_subdev_next :: "string \<Rightarrow> hub_subdev_info_internal_t step" where
  "hub_subdev_next sn = locked (andthen (load_list ez_errno_hub_enum_end) (\<lambda>js.
     andthen (find_dev js (if sn = [] then None else Some sn)) (\<lambda>r.
       case r of None \<Rightarrow> leave ez_errno_hub_enum_end
       | Some i \<Rightarrow> if sn = [] then andthen (item_at js i) subdev_of
           else if length js \<le> i + 1 then leave ez_errno_hub_enum_end
           else andthen (item_at js (i + 1)) subdev_of)))"

section \<open>Enumerations\<close>

text \<open>
  The loop over all devices, from an empty number on: it goes on while \<open>f\<close> returns zero, and for ever
  where no call of \<open>hub_subdev_next\<close> ends it.
\<close>

partial_function (option) enum_loop ::
  "(hub_subdev_info_internal_t \<Rightarrow> hub \<Rightarrow> (int \<times> hub) option) \<Rightarrow> string \<Rightarrow> hub \<Rightarrow> (int \<times> hub) option" where
  "enum_loop f sn h = (case hub_subdev_next sn h of
     None \<Rightarrow> None
   | Some (Inl rv, h1) \<Rightarrow> Some (if rv = ez_errno_hub_enum_end then 0 else rv, h1)
   | Some (Inr d, h1) \<Rightarrow> (case f d h1 of None \<Rightarrow> None | Some (rv, h2) \<Rightarrow> if rv \<noteq> 0 then Some (rv, h2) else enum_loop f (sd_sn d) h2))"

text \<open>The counter of \<open>hub_tsl_reg_all\<close> is the local \<open>unauth_count\<close>, kept in the state while the loop runs.\<close>

definition register_one :: "hub_subdev_info_internal_t \<Rightarrow> hub \<Rightarrow> (int \<times> hub) option" where
  "register_one d h = Some (if sd_access d = 0 then (0, h\<lparr>h_unauth_count := h_unauth_count h + 1\<rparr>)
     else (h_tsl_rv h (length (h_requests h)), asked (Tsl_reg d) h))"

definition hub_tsl_reg_all :: "hub \<Rightarrow> (int \<times> hub) option" where
  "hub_tsl_reg_all h = (case enum_loop register_one [] (h\<lparr>h_unauth_count := 0\<rparr>) of
     None \<Rightarrow> None
   | Some (rv, h1) \<Rightarrow> if h_locked h1 then None else Some (rv, if rv = 0 then asked Tsl_checkupdate h1 else h1))"

definition hub_tsl_unreg_all :: "hub \<Rightarrow> (int \<times> hub) option" where
  "hub_tsl_unreg_all h = map_option (\<lambda>(rv, h1). (rv, if rv = 0 then asked Tsl_checkupdate h1 else h1))
     (enum_loop (\<lambda>d h. Some (0, if sd_access d = 0 then h else asked (Tsl_unreg d) h)) [] h)"

definition hub_tsl_clean :: "hub \<Rightarrow> hub option" where
  "hub_tsl_clean h = map_option snd (enum_loop (\<lambda>d h. Some (0, asked (Tsl_profile_del (sd_sn d)) h)) [] h)"

text \<open>When the storage fails the code jumps over the unlocking.\<close>

definition hub_clean_do :: "hub \<Rightarrow> (int \<times> hub) option" where
  "hub_clean_do h =
     (case hub_tsl_unreg_all h of None \<Rightarrow> None | Some (_, h1) \<Rightarrow>
     (case hub_tsl_clean h1 of None \<Rightarrow> None | Some h2 \<Rightarrow>
     (case lock h2 of None \<Rightarrow> None | Some h3 \<Rightarrow>
     (case kv_set [] h3 of
        None \<Rightarrow> None
      | Some (Inl rv, h4) \<Rightarrow> Some (rv, h4)
      | Some (Inr _, h4) \<Rightarrow> map_option (\<lambda>(_, h5). (0, h5)) (hub_subdev_list_report (h4\<lparr>h_locked := False\<rparr>))))))"

definition auth_retry_timer_cb :: "hub \<Rightarrow> (int \<times> hub) option" where
  "auth_retry_timer_cb h =
     (if \<not> 0 < h_unauth_count h \<or> \<not> h_online h then Some (0, h)
      else enum_loop (\<lambda>d h. if sd_access d = 1 then Some (0, h)
        else map_option (\<lambda>(_, h1). (0, h1)) (hub_subdev_auth_do d h)) [] h)"

section \<open>The answer of the cloud\<close>

definition hub_subdev_auth_passed :: "string \<Rightarrow> hub \<Rightarrow> (int \<times> hub) option" where
  "hub_subdev_auth_passed sn = then_report hub_subdev_list_report
     (andthen (locate sn) (\<lambda>(js, i, j). andthen (subdev_of j) (\<lambda>d.
      andthen (replace_at js i ''access'' (bscJSON_CreateNumber 1)) (\<lambda>(js', j').
      andthen (store_list js') (\<lambda>_ h. ret () (asked (Tsl_reg d) (asked (Add_succ (sd_sn d)) h)))))))"

definition hub_subdev_auth_failure :: "string \<Rightarrow> hub \<Rightarrow> (int \<times> hub) option" where
  "hub_subdev_auth_failure sn h = (case hub_subdev_query sn h of
     None \<Rightarrow> None
   | Some (r, h1) \<Rightarrow> hub_del_do sn (asked (Add_fail (case r of Inl _ \<Rightarrow> zero_subdev | Inr d \<Rightarrow> d)) h1))"

definition white :: "char \<Rightarrow> bool" where
  "white c = (c \<in> {CHR '' '', CHR 0x09, CHR 0x0A, CHR 0x0B, CHR 0x0C, CHR 0x0D})"

text \<open>
  \<open>sscanf\<close> with \<open>%*[^:]:%s\<close> into 17 bytes that are not initialised: undefined without a match and with more
  than 16 characters.
\<close>

definition scan_serial :: "string \<Rightarrow> string option" where
  "scan_serial s = (let t = dropWhile (\<lambda>c. c \<noteq> CHR '':'') s; sn = takeWhile (\<lambda>c. \<not> white c) (dropWhile white (tl t))
     in if t = [] \<or> t = s \<or> sn = [] \<or> 16 < length sn then None else Some sn)"

definition hub_subdev_auth_done :: "string \<Rightarrow> int \<Rightarrow> hub \<Rightarrow> hub option" where
  "hub_subdev_auth_done buf len h =
     (if len = 0 then Some h
      else case bscJSON_Parse (c_str buf) (h_mem h) of
        (None, m) \<Rightarrow> Some (h\<lparr>h_mem := m\<rparr>)
      | (Some js_root, m) \<Rightarrow>
          map_option (\<lambda>h1. h1\<lparr>h_mem := bscJSON_Delete js_root (h_mem h1)\<rparr>)
            (case (string_item js_root ''childserial'', number_item js_root ''result'') of
               (Some s, Some (i, _)) \<Rightarrow>
                 (case (if length s = 9 then Some s else scan_serial s) of
                    None \<Rightarrow> None
                  | Some sn \<Rightarrow> if i = 0 then map_option snd (hub_subdev_auth_passed sn (h\<lparr>h_mem := m\<rparr>))
                      else if i = 1 then map_option snd (hub_subdev_auth_failure sn (h\<lparr>h_mem := m\<rparr>))
                      else Some (h\<lparr>h_mem := m\<rparr>))
             | _ \<Rightarrow> Some (h\<lparr>h_mem := m\<rparr>)))"

text \<open>
  What the kernel calls of the module.  The parser reads the payload of a message up to a zero: undefined
  where there is none in its block.
\<close>

definition kPu2CenPltHubAuthChildDeviceRsp :: u32 where "kPu2CenPltHubAuthChildDeviceRsp = 0x11"

definition hub_extend_start_cb :: "hub \<Rightarrow> hub option" where
  "hub_extend_start_cb h = map_option snd (hub_subdev_list_report h)"

definition hub_extend_data_route_cb :: "ezdev_sdk_kernel_submsg \<Rightarrow> hub \<Rightarrow> hub option" where
  "hub_extend_data_route_cb ptr_submsg h =
     (if sm_msg_command_id ptr_submsg \<noteq> kPu2CenPltHubAuthChildDeviceRsp then Some h
      else case sm_buf ptr_submsg of None \<Rightarrow> Some h
        | Some buf \<Rightarrow> if sm_buf_len ptr_submsg = 0 then Some h else if 0 \<notin> set buf then None
            else hub_subdev_auth_done (text_of buf) (uint (sm_buf_len ptr_submsg)) h)"

definition hub_extend_event_cb :: "sdk_kernel_event_type \<Rightarrow> hub \<Rightarrow> hub option" where
  "hub_extend_event_cb event h =
     (if event = sdk_kernel_event_online \<or> event = sdk_kernel_event_switchover
      then map_option snd (hub_subdev_list_report h) else Some h)"

section \<open>The interface\<close>

text \<open>
  Whether the mutex is created, and how the kernel answers the loading of the module, is asked of
  the outside; a timer that is not created is only logged.
\<close>

definition hub_func_init :: "bool \<Rightarrow> hub \<Rightarrow> (int \<times> hub) option" where
  "hub_func_init mutex_ok h =
     (if \<not> mutex_ok then Some (ez_errno_hub_internal, h)
      else case hub_tsl_reg_all (h\<lparr>h_locked := False\<rparr>) of None \<Rightarrow> None
        | Some (rv, h1) \<Rightarrow> Some (if rv \<noteq> 0 then ez_errno_hub_internal else 0, h1))"

definition hub_func_deinit :: "hub \<Rightarrow> hub option" where
  "hub_func_deinit h = map_option snd (hub_tsl_unreg_all h)"

definition ez_iot_hub_init :: "bool \<Rightarrow> int \<Rightarrow> bool \<Rightarrow> hub \<Rightarrow> (int \<times> hub) option" where
  "ez_iot_hub_init has_cbs extend_load_rv mutex_ok h =
     (if \<not> h_inited h then Some (ez_errno_hub_not_init, h)
      else if g_hub_inited h then Some (0, h)
      else if \<not> has_cbs then Some (ez_errno_hub_param_invalid, h)
      else if extend_load_rv \<noteq> 0 then Some (ez_errno_hub_internal, h)
      else case hub_func_init mutex_ok h of None \<Rightarrow> None
        | Some (rv, h1) \<Rightarrow> if rv \<noteq> 0 then Some (ez_errno_hub_internal, h1) else Some (0, h1\<lparr>g_hub_inited := True\<rparr>))"

definition ez_iot_hub_deinit :: "hub \<Rightarrow> (int \<times> hub) option" where
  "ez_iot_hub_deinit h = (if \<not> h_inited h then Some (ez_errno_hub_not_init, h)
     else map_option (\<lambda>h1. (0, h1\<lparr>g_hub_inited := False\<rparr>)) (hub_func_deinit h))"

definition if_inited :: "(hub \<Rightarrow> (int \<times> hub) option) \<Rightarrow> hub \<Rightarrow> (int \<times> hub) option" where
  "if_inited f h = (if h_inited h then f h else Some (ez_errno_hub_not_init, h))"

definition ez_iot_hub_add :: "hub_subdev_info_internal_t \<Rightarrow> hub \<Rightarrow> (int \<times> hub) option" where
  "ez_iot_hub_add d = if_inited (hub_add_do (d\<lparr>sd_access := 0\<rparr>))"

definition ez_iot_hub_del :: "string \<Rightarrow> hub \<Rightarrow> (int \<times> hub) option" where
  "ez_iot_hub_del sn = if_inited (hub_del_do sn)"

definition ez_iot_hub_ver_update :: "string \<Rightarrow> string \<Rightarrow> hub \<Rightarrow> (int \<times> hub) option" where
  "ez_iot_hub_ver_update sn ver = if_inited (hub_ver_update_do sn ver)"

definition ez_iot_hub_status_update :: "string \<Rightarrow> bool \<Rightarrow> hub \<Rightarrow> (int \<times> hub) option" where
  "ez_iot_hub_status_update sn online = if_inited (hub_status_update_do sn online)"

definition ez_iot_hub_clean :: "hub \<Rightarrow> (int \<times> hub) option" where
  "ez_iot_hub_clean = if_inited hub_clean_do"

text \<open>The caller's device without the last member, which is not part of its structure.\<close>

definition ez_iot_hub_subdev_query :: "string \<Rightarrow> hub_subdev_info_internal_t step" where
  "ez_iot_hub_subdev_query sn h = (if h_inited h then map_option (\<lambda>(r, h1). (map_sum id (\<lambda>d. d\<lparr>sd_access := 0\<rparr>) r, h1))
       (hub_subdev_query sn h) else leave ez_errno_hub_not_init h)"

definition ez_iot_hub_subdev_next :: "string \<Rightarrow> hub_subdev_info_internal_t step" where
  "ez_iot_hub_subdev_next sn h = (if h_inited h then map_option (\<lambda>(r, h1). (map_sum id (\<lambda>d. d\<lparr>sd_access := 0\<rparr>) r, h1))
       (hub_subdev_next sn h) else leave ez_errno_hub_not_init h)"

end
