(* ===== verification/Hub_Text.thy ===== *)
theory Hub_Text
  imports Hub
begin

text \<open>
  The texts of the hub's list: what a device of the ranges of its structure becomes as a node, how
  long its text is, and that reading the node gives the device back.
\<close>

section \<open>Nodes with enough memory\<close>

lemma plenty_malloc_eq: "plenty m \<Longrightarrow> malloc m = (True, snd (malloc m)) \<and> plenty (snd (malloc m))"
  by (simp add: plenty_def malloc_def Let_def)

lemma new_item_ok: "plenty m \<Longrightarrow> \<exists>m'. new_item j m = (Some j, m') \<and> plenty m'"
  using plenty_malloc [of m] by (auto simp: new_item_def)

lemma CreateString_ok: "plenty m \<Longrightarrow> \<exists>m'. bscJSON_CreateString s m = (Some (BString s), m') \<and> plenty m'"
proof -
  assume m: "plenty m"
  obtain m1 where m1: "malloc m = (True, m1)" "plenty m1" using plenty_malloc [OF m] by blast
  obtain m2 where "malloc m1 = (True, m2)" "plenty m2" using plenty_malloc [OF m1(2)] by blast
  then show ?thesis using m1 by (simp add: bscJSON_CreateString_def)
qed

definition int_node :: "int \<Rightarrow> jnode" where
  "int_node i = BNumber i (Fin (of_int i))"

definition bool_node :: "bool \<Rightarrow> jnode" where
  "bool_node b = (if b then BTrue else BFalse)"

lemma CreateNumber_ok:
  assumes "plenty m" and "\<bar>i\<bar> < 2 ^ 31 - 1"
  shows "\<exists>m'. bscJSON_CreateNumber i m = (Some (int_node i), m') \<and> plenty m'"
proof -
  have "\<bar>i\<bar> < 2 ^ 53" using assms(2) by simp
  then have "d_of_int i = Fin (of_int i)" by (simp add: d_of_int_def to_double_int)
  moreover have "\<not> INT_MAX \<le> i" "\<not> i \<le> INT_MIN" using assms(2) by (auto simp: INT_MAX_def INT_MIN_def)
  ultimately show ?thesis using new_item_ok [OF assms(1)] by (simp add: bscJSON_CreateNumber_def int_node_def)
qed

lemma add_created_ok:
  assumes "\<exists>m1. create m = (Some j, m1) \<and> plenty m1"
  shows "\<exists>m'. add_created name create (ms, m) = (ms @ [(name, j)], m') \<and> plenty m'"
proof -
  obtain m1 where m1: "create m = (Some j, m1)" "plenty m1" using assms by blast
  obtain m2 where "malloc m1 = (True, m2)" "plenty m2" using plenty_malloc [OF m1(2)] by blast
  then show ?thesis using m1 by (simp add: add_created_def add_item_to_object_def)
qed

text \<open>A routine that appends the members \<open>new\<close> to an object.\<close>

definition adds :: "(members \<times> mem \<Rightarrow> members \<times> mem) \<Rightarrow> members \<Rightarrow> bool" where
  "adds f new \<longleftrightarrow> (\<forall>ms m. plenty m \<longrightarrow> (\<exists>m'. f (ms, m) = (ms @ new, m') \<and> plenty m'))"

lemma adds_comp:
  assumes "adds f a" and "adds g b"
  shows "adds (f \<circ> g) (b @ a)"
  unfolding adds_def
proof (intro allI impI)
  fix ms m assume m: "plenty m"
  obtain m1 where m1: "g (ms, m) = (ms @ b, m1)" "plenty m1" using assms(2) m unfolding adds_def by blast
  obtain m2 where "f (ms @ b, m1) = ((ms @ b) @ a, m2)" "plenty m2" using assms(1) m1(2) unfolding adds_def by blast
  then show "\<exists>m'. (f \<circ> g) (ms, m) = (ms @ b @ a, m') \<and> plenty m'" using m1 by simp
qed

lemma adds_one:
  "adds (bscJSON_AddBoolToObject name b) [(name, bool_node b)]"
  "adds (bscJSON_AddStringToObject name s) [(name, BString s)]"
  "\<bar>i\<bar> < 2 ^ 31 - 1 \<Longrightarrow> adds (bscJSON_AddNumberToObject name i) [(name, int_node i)]"
  unfolding adds_def bscJSON_AddBoolToObject_def bscJSON_AddStringToObject_def bscJSON_AddNumberToObject_def
  by (intro allI impI add_created_ok; simp add: bscJSON_CreateBool_def bool_node_def new_item_ok CreateString_ok CreateNumber_ok)+

lemma report_node_ok:
  assumes "adds f new" and "plenty m"
  shows "\<exists>m'. report_node f m = (Some (BObject new), m') \<and> plenty m'"
proof -
  obtain m0 where m0: "bscJSON_CreateObject m = (Some (BObject []), m0)" "plenty m0"
    using new_item_ok [OF assms(2)] by (auto simp: bscJSON_CreateObject_def)
  have "\<exists>m'. f ([], m0) = ([] @ new, m') \<and> plenty m'" using assms(1) m0(2) unfolding adds_def by blast
  then obtain m1 where "f ([], m0) = (new, m1)" "plenty m1" by auto
  then show ?thesis using m0 by (simp add: report_node_def)
qed

section \<open>Devices\<close>

text \<open>A device of the ranges of its structure.\<close>

definition c_text :: "nat \<Rightarrow> string \<Rightarrow> bool" where
  "c_text n s = (CHR 0x00 \<notin> set s \<and> length s \<le> n)"

definition device :: "hub_subdev_info_internal_t \<Rightarrow> bool" where
  "device d = (c_text 32 (sd_type d) \<and> c_text 16 (sd_sn d) \<and> c_text 32 (sd_vcode d) \<and> c_text 32 (sd_ver d) \<and>
     c_text 16 (sd_uuid d) \<and> sd_authm d \<in> {- 128..127} \<and> sd_sta d \<in> {- 128..127} \<and> sd_access d \<in> {- 128..127})"

definition subdev_members :: "hub_subdev_info_internal_t \<Rightarrow> members" where
  "subdev_members d =
     [(''sta'', bool_node (sd_sta d \<noteq> 0)), (''authm'', int_node (sd_authm d)), (''type'', BString (sd_type d)),
      (''sn'', BString (sd_sn d)), (''vcode'', BString (sd_vcode d)), (''ver'', BString (sd_ver d)),
      (''uuid'', BString (sd_uuid d)), (''access'', int_node (sd_access d))]"

definition subdev_node :: "hub_subdev_info_internal_t \<Rightarrow> jnode" where
  "subdev_node d = BObject (subdev_members d)"

lemma subdev_to_json_report: "subdev_to_json d = report_node
    (bscJSON_AddNumberToObject ''access'' (sd_access d) \<circ> bscJSON_AddStringToObject ''uuid'' (sd_uuid d) \<circ>
     bscJSON_AddStringToObject ''ver'' (sd_ver d) \<circ> bscJSON_AddStringToObject ''vcode'' (sd_vcode d) \<circ>
     bscJSON_AddStringToObject ''sn'' (sd_sn d) \<circ> bscJSON_AddStringToObject ''type'' (sd_type d) \<circ>
     bscJSON_AddNumberToObject ''authm'' (sd_authm d) \<circ> bscJSON_AddBoolToObject ''sta'' (sd_sta d \<noteq> 0))"
  by (rule ext) (simp add: subdev_to_json_def report_node_def)

lemma subdev_to_json_ok:
  assumes "device d" and "plenty m"
  shows "\<exists>m'. subdev_to_json d m = (Some (subdev_node d), m') \<and> plenty m'"
proof -
  have i: "\<bar>sd_authm d\<bar> < 2 ^ 31 - 1" "\<bar>sd_access d\<bar> < 2 ^ 31 - 1" using assms(1) by (auto simp: device_def)
  note adds_comp [OF adds_one(3) [OF i(2), of "''access''"] adds_comp [OF adds_one(2) [of "''uuid''" "sd_uuid d"]
      adds_comp [OF adds_one(2) [of "''ver''" "sd_ver d"] adds_comp [OF adds_one(2) [of "''vcode''" "sd_vcode d"]
      adds_comp [OF adds_one(2) [of "''sn''" "sd_sn d"] adds_comp [OF adds_one(2) [of "''type''" "sd_type d"]
      adds_comp [OF adds_one(3) [OF i(1), of "''authm''"] adds_one(1) [of "''sta''" "sd_sta d \<noteq> 0"]]]]]]]]
  then show ?thesis using report_node_ok [OF _ assms(2)]
    by (simp add: subdev_to_json_report subdev_node_def subdev_members_def o_assoc)
qed

text \<open>The names of the members are looked up without regard to case, and differ even so.\<close>

lemma same_name: "case_insensitive_strcmp s (Some s)"
  by (simp add: case_insensitive_strcmp_def)

lemma subdev_items [simp]:
  "node_item (subdev_node d) ''sta'' = Some (bool_node (sd_sta d \<noteq> 0))"
  "node_item (subdev_node d) ''authm'' = Some (int_node (sd_authm d))"
  "node_item (subdev_node d) ''type'' = Some (BString (sd_type d))"
  "node_item (subdev_node d) ''sn'' = Some (BString (sd_sn d))"
  "node_item (subdev_node d) ''vcode'' = Some (BString (sd_vcode d))"
  "node_item (subdev_node d) ''ver'' = Some (BString (sd_ver d))"
  "node_item (subdev_node d) ''uuid'' = Some (BString (sd_uuid d))"
  "node_item (subdev_node d) ''access'' = Some (int_node (sd_access d))"
  by (simp_all add: node_item_def node_children_def subdev_node_def subdev_members_def case_insensitive_strcmp_def tolower_def)

text \<open>The state comes back as a truth value.\<close>

definition normal :: "hub_subdev_info_internal_t \<Rightarrow> hub_subdev_info_internal_t" where
  "normal d = d\<lparr>sd_sta := if sd_sta d \<noteq> 0 then 1 else 0\<rparr>"

lemma int8_id: "i \<in> {- 128..127} \<Longrightarrow> signed_take_bit 7 i = (i :: int)"
  by (simp add: signed_take_bit_int_eq_self_iff)

lemma json_to_subdev_node:
  assumes "device d"
  shows "json_to_subdev (subdev_node d) = Some (normal d)"
proof -
  have s: "strncpy0 n s = s" if "c_text n s" for n s using that by (simp add: c_text_def strncpy0_def c_str_id)
  show ?thesis using assms
    by (simp add: json_to_subdev_def get_string_def get_int8_def device_def s int_node_def bool_node_def valueint_of_def
        int8_id normal_def)
qed

lemma node_norm [simp]: "subdev_node (normal d) = subdev_node d"
  by (simp add: subdev_node_def subdev_members_def normal_def)

section \<open>Their texts\<close>

lemma int_text:
  assumes "i \<in> {- 128..127}"
  shows "length (json_text False n (int_node i)) \<le> 11" and "plain k (int_node i)"
proof -
  have i: "INT_MIN \<le> i" "i \<le> INT_MAX" using assms by (auto simp: INT_MIN_def INT_MAX_def)
  then show "length (json_text False n (int_node i)) \<le> 11" using format_d_length [OF i]
    by (simp add: int_node_def number_text_int)
  show "plain k (int_node i)" using i by (simp add: int_node_def)
qed

lemma bool_text: "length (json_text False n (bool_node b)) \<le> 5" "plain k (bool_node b)"
  by (simp_all add: bool_node_def)

text \<open>Objects of a few short members.\<close>

definition short_node :: "jnode \<Rightarrow> bool" where
  "short_node j \<longleftrightarrow> (\<forall>k. plain k j) \<and> (\<forall>n. length (json_text False n j) \<le> 500)"

lemma short_nodes:
  "short_node (bool_node b)" "i \<in> {- 128..127} \<Longrightarrow> short_node (int_node i)"
  "CHR 0x00 \<notin> set s \<Longrightarrow> length s \<le> 80 \<Longrightarrow> short_node (BString s)"
proof -
  have "length (json_text False n (bool_node b)) \<le> 500" for n by (rule le_trans [OF bool_text(1)]) simp
  then show "short_node (bool_node b)" by (simp add: short_node_def bool_text)
next
  assume i: "i \<in> {- 128..127}"
  have "length (json_text False n (int_node i)) \<le> 500" for n by (rule le_trans [OF int_text(1) [OF i]]) simp
  then show "short_node (int_node i)" using int_text(2) [OF i] by (simp add: short_node_def)
next
  assume "CHR 0x00 \<notin> set s" "length s \<le> 80"
  then show "short_node (BString s)" using length_quoted [of s] by (simp add: short_node_def)
qed

definition report_like :: "jnode \<Rightarrow> bool" where
  "report_like j \<longleftrightarrow> (\<exists>ms. j = BObject ms \<and> length ms \<le> 8 \<and>
     (\<forall>(k, x) \<in> set ms. short_node x \<and> CHR 0x00 \<notin> set k \<and> length k \<le> 30))"

lemma members_short:
  "\<forall>(k, x) \<in> set ms. short_node x \<and> length k \<le> 30 \<Longrightarrow> length (members_text False n ms) \<le> 700 * length ms"
proof (induction ms)
  case (Cons a ms)
  obtain k x where a: "a = (k, x)" by (cases a)
  have x: "length (json_text False n x) \<le> 500" and k: "length k \<le> 30"
    using Cons.prems by (auto simp: a short_node_def)
  have "length (members_text False n ms) \<le> 700 * length ms" using Cons by simp
  moreover have "length (quoted k) \<le> 182" using length_quoted [of k] k by linarith
  ultimately show ?case using x by (simp add: a)
qed simp

lemma report_like_text:
  assumes "report_like j"
  shows "length (json_text False n j) \<le> 6000" and "plain (Suc k) j"
proof -
  obtain ms where j: "j = BObject ms" "length ms \<le> 8"
    "\<forall>(k, x) \<in> set ms. short_node x \<and> CHR 0x00 \<notin> set k \<and> length k \<le> 30" using assms by (auto simp: report_like_def)
  have "length (members_text False (n + 1) ms) \<le> 700 * length ms" by (rule members_short) (use j(3) in auto)
  then show "length (json_text False n j) \<le> 6000" using j(1,2) by simp
  show "plain (Suc k) j" using j(1,3) by (auto simp: list_all_iff short_node_def)
qed

lemma elements_short:
  "\<forall>j \<in> set js. report_like j \<Longrightarrow> length (elements_text False n js) \<le> 6001 * length js"
proof (induction js)
  case (Cons j js)
  have "length (json_text False n j) \<le> 6000" by (rule report_like_text) (use Cons.prems in simp)
  then show ?case using Cons by simp
qed simp

lemma list_text:
  assumes "\<forall>j \<in> set js. report_like j" and "length js \<le> COMPONENT_HUB_SUBLIST_MAX"
  shows "length (json_text False 0 (BArray js)) < 400000" and "plain bscJSON_NESTING_LIMIT (BArray js)"
proof -
  have "length (elements_text False 1 js) \<le> 6001 * length js" by (rule elements_short [OF assms(1)])
  then show "length (json_text False 0 (BArray js)) < 400000" using assms(2) by (simp add: COMPONENT_HUB_SUBLIST_MAX_def)
  obtain k where k: "bscJSON_NESTING_LIMIT = Suc (Suc k)" by (simp add: bscJSON_NESTING_LIMIT_def numeral_eq_Suc)
  show "plain bscJSON_NESTING_LIMIT (BArray js)" using assms(1) report_like_text(2) by (simp add: k list_all_iff)
qed

lemma subdev_report_like: "device d \<Longrightarrow> report_like (subdev_node d)"
  by (auto simp: report_like_def subdev_node_def subdev_members_def device_def c_text_def short_nodes)

end
