(* ===== verification/Hub_Refines.thy ===== *)
theory Hub_Refines
  imports Hub_Text
begin

text \<open>
  The hub's operations against a list of devices: while the storage works and memory lasts, the text
  that is stored is the one of the list, and every operation does to it what its specification does
  to the list.
\<close>

section \<open>The list that is stored\<close>

type_synonym subdevs = "hub_subdev_info_internal_t list"

definition text_of_list :: "subdevs \<Rightarrow> string" where
  "text_of_list ds = json_text False 0 (BArray (map subdev_node ds))"

definition good_list :: "subdevs \<Rightarrow> bool" where
  "good_list ds \<longleftrightarrow> length ds \<le> COMPONENT_HUB_SUBLIST_MAX \<and> (\<forall>d \<in> set ds. device d \<and> normal d = d) \<and>
     distinct (map sd_sn ds)"

text \<open>
  The state of a hub whose list is \<open>ds\<close>, with \<open>u\<close> devices counted as not authenticated; \<open>e\<close> tells the two
  texts of the empty list apart.  The digest is a text of at most 64 characters.
\<close>

definition up :: "bool \<Rightarrow> subdevs \<Rightarrow> int \<Rightarrow> bool \<Rightarrow> hub \<Rightarrow> bool" where
  "up e ds u b h \<longleftrightarrow> h_store h = (if e then [] else text_of_list ds) \<and> (e \<longrightarrow> ds = []) \<and> good_list ds \<and>
     (\<forall>n. h_kv_ok h n) \<and> plenty (h_mem h) \<and> (\<forall>s. c_text 64 (h_md5 h s)) \<and> h_unauth_count h = u \<and> h_locked h = b"

section \<open>Steps that succeed\<close>

text \<open>From every state of \<open>P\<close> the step ends with \<open>r\<close> in a state of \<open>Q\<close>.\<close>

definition run :: "'a step \<Rightarrow> (hub \<Rightarrow> bool) \<Rightarrow> (int + 'a) \<Rightarrow> (hub \<Rightarrow> bool) \<Rightarrow> bool" where
  "run f P r Q \<longleftrightarrow> (\<forall>h. P h \<longrightarrow> (\<exists>h'. f h = Some (r, h') \<and> Q h'))"

lemma runI: "(\<And>h. P h \<Longrightarrow> \<exists>h'. f h = Some (r, h') \<and> Q h') \<Longrightarrow> run f P r Q"
  by (simp add: run_def)

lemma run_ret: "run (ret x) P (Inr x) P"
  by (simp add: run_def ret_def)

lemma run_leave: "run (leave rv) P (Inl rv) P"
  by (simp add: run_def leave_def)

lemma run_check: "run (check_not c rv) P (if c then Inl rv else Inr ()) P"
  by (simp add: run_def check_not_def ret_def leave_def)

lemma run_then:
  assumes "run f P (Inr x) Q" and "run (g x) Q r R"
  shows "run (andthen f g) P r R"
proof (rule runI)
  fix h assume "P h"
  then obtain h1 where h1: "f h = Some (Inr x, h1)" "Q h1" using assms(1) by (auto simp: run_def)
  then obtain h2 where "g x h1 = Some (r, h2)" "R h2" using assms(2) by (auto simp: run_def)
  then show "\<exists>h'. andthen f g h = Some (r, h') \<and> R h'" using h1 by (simp add: andthen_def)
qed

lemma run_stop: "run f P (Inl rv) Q \<Longrightarrow> run (andthen f g) P (Inl rv) Q"
  by (fastforce simp: run_def andthen_def)

lemma run_kv: "run kv_access (up e ds u b) (Inr ()) (up e ds u b)"
  by (auto simp: run_def kv_access_def ret_def up_def Let_def)

lemma run_kv_length:
  "run kv_length (up e ds u b) (Inr (length (if e then [] else text_of_list ds))) (up e ds u b)"
  unfolding kv_length_def
  by (rule run_then [OF run_kv]) (auto simp: run_def ret_def up_def)

lemma text_not_empty [simp]: "text_of_list ds \<noteq> []"
  by (simp add: text_of_list_def)

lemma run_malloc_pbuf: "run malloc_pbuf (up e ds u b) (Inr ()) (up e ds u b)"
proof (rule runI)
  fix h assume h: "up e ds u b h"
  then have "plenty (h_mem h)" by (simp add: up_def)
  then obtain m where "malloc (h_mem h) = (True, m)" "plenty m" using plenty_malloc by blast
  then show "\<exists>h'. malloc_pbuf h = Some (Inr (), h') \<and> up e ds u b h'"
    using h by (auto simp: malloc_pbuf_def ret_def up_def)
qed

lemma good_texts:
  assumes "good_list ds"
  shows "length (text_of_list ds) < 400000" and "plain bscJSON_NESTING_LIMIT (BArray (map subdev_node ds))"
    and "c_str (text_of_list ds) = text_of_list ds"
proof -
  have r: "\<forall>j \<in> set (map subdev_node ds). report_like j" using assms subdev_report_like by (auto simp: good_list_def)
  have l: "length (map subdev_node ds) \<le> COMPONENT_HUB_SUBLIST_MAX" using assms by (simp add: good_list_def)
  show "length (text_of_list ds) < 400000" unfolding text_of_list_def by (rule list_text(1) [OF r l])
  show p: "plain bscJSON_NESTING_LIMIT (BArray (map subdev_node ds))" by (rule list_text(2) [OF r l])
  show "c_str (text_of_list ds) = text_of_list ds"
    unfolding text_of_list_def by (rule c_str_id [OF nul_json_text [OF p]])
qed

lemma run_parse: "run parse_store (up False ds u b) (Inr (map subdev_node ds)) (up False ds u b)"
proof (rule runI)
  fix h assume h: "up False ds u b h"
  then have g: "good_list ds" "plenty (h_mem h)" "h_store h = text_of_list ds" by (auto simp: up_def)
  obtain m where m: "bscJSON_Parse (text_of_list ds) (h_mem h) = (Some (BArray (map subdev_node ds)), m)" "plenty m"
    using parse_printed [OF good_texts(2) [OF g(1)] g(2), of "[]" False] by (auto simp: text_of_list_def simp del: json_text.simps)
  then show "\<exists>h'. parse_store h = Some (Inr (map subdev_node ds), h') \<and> up False ds u b h'"
    using h g by (auto simp: parse_store_def good_texts(3) ret_def up_def)
qed

lemma run_read_list: "run read_list (up False ds u b) (Inr (map subdev_node ds)) (up False ds u b)"
  unfolding read_list_def by (rule run_then [OF run_malloc_pbuf run_then [OF run_kv run_parse]])

lemma run_load_list:
  "run (load_list rv) (up e ds u b) (if e then Inl rv else Inr (map subdev_node ds)) (up e ds u b)"
proof (cases e)
  case True
  have "run (load_list rv) (up True ds u b) (Inl rv) (up True ds u b)"
    unfolding load_list_def
    by (rule run_then [OF run_kv_length]) (rule run_stop, simp add: check_not_def run_leave)
  then show ?thesis using True by simp
next
  case False
  have "run (load_list rv) (up False ds u b) (Inr (map subdev_node ds)) (up False ds u b)"
    unfolding load_list_def
    by (rule run_then [OF run_kv_length [where e = False], simplified])
      (rule run_then [where x = "()" and Q = "up False ds u b"], simp add: check_not_def run_ret, rule run_read_list)
  then show ?thesis using False by simp
qed

lemma run_print:
  assumes "\<forall>j \<in> set js. report_like j" and "length js \<le> COMPONENT_HUB_SUBLIST_MAX"
  shows "run (print_list js) (up e ds u b) (Inr (json_text False 0 (BArray js))) (up e ds u b)"
proof (rule runI)
  fix h assume h: "up e ds u b h"
  have f: "fits (BArray js)" by (rule plain_fits [OF list_text(2) [OF assms]])
  have l: "int (length (json_text False 0 (BArray js))) + 2 < INT_MAX"
    using list_text(1) [OF assms] by (simp add: INT_MAX_def)
  obtain m where "print (BArray js) False (h_mem h) = Some (Some (json_text False 0 (BArray js)), m)" "plenty m"
    using print_succeeds [OF f l, of "h_mem h"] h unfolding up_def plenty_def by blast
  then show "\<exists>h'. print_list js h = Some (Inr (json_text False 0 (BArray js)), h') \<and> up e ds u b h'"
    using h by (auto simp: print_list_def ret_def up_def simp del: json_text.simps)
qed

lemma run_store:
  assumes "good_list ds'"
  shows "run (store_list (map subdev_node ds')) (up e ds u b) (Inr ()) (up False ds' u b)"
  unfolding store_list_def
proof (rule run_then)
  show "run (set_root (map subdev_node ds')) (up e ds u b) (Inr ()) (up e ds u b)"
    by (auto simp: run_def set_root_def ret_def up_def)
  have r: "\<forall>j \<in> set (map subdev_node ds'). report_like j" "length (map subdev_node ds') \<le> COMPONENT_HUB_SUBLIST_MAX"
    using assms subdev_report_like by (auto simp: good_list_def)
  have "run (kv_set (text_of_list ds')) (up e ds u b) (Inr ()) (up False ds' u b)"
    unfolding kv_set_def by (rule run_then [OF run_kv]) (use assms in \<open>auto simp: run_def ret_def up_def\<close>)
  then show "run (andthen (print_list (map subdev_node ds')) kv_set) (up e ds u b) (Inr ()) (up False ds' u b)"
    by (rule run_then [OF run_print [OF r], folded text_of_list_def])
qed

lemma plenty_delete_list [simp]: "plenty (delete_list r m) = plenty m"
  by (simp add: delete_list_def del: bscJSON_Delete.simps split: option.splits)

lemma run_locked:
  assumes "run body (up e ds u True) r (up e' ds' u' True)"
  shows "run (locked body) (up e ds u False) r (up e' ds' u' False)"
proof (rule runI)
  fix h assume "up e ds u False h"
  then obtain h1 where h1: "lock h = Some h1" "up e ds u True h1" by (auto simp: lock_def up_def)
  then obtain h2 where "body h1 = Some (r, h2)" "up e' ds' u' True h2" using assms by (auto simp: run_def)
  then show "\<exists>h'. locked body h = Some (r, h') \<and> up e' ds' u' False h'"
    using h1(1) by (auto simp: locked_def cleanup_def up_def Let_def)
qed

section \<open>Finding a device\<close>

fun pos :: "string \<Rightarrow> subdevs \<Rightarrow> nat option" where
  "pos s [] = None"
| "pos s (d # ds) = (if sd_sn d = s then Some 0 else map_option Suc (pos s ds))"

lemma pos_Some: "pos s ds = Some i \<Longrightarrow> i < length ds \<and> sd_sn (ds ! i) = s"
  by (induction ds arbitrary: i) (auto split: if_splits)

lemma pos_None: "pos s ds = None \<longleftrightarrow> s \<notin> set (map sd_sn ds)"
  by (induction ds) auto

lemma find_dev_nodes:
  "find_dev_by_sn k (map subdev_node ds) (Some s) = Some (map_option ((+) k) (pos s ds))"
  by (induction ds arbitrary: k) (auto simp: option.map_comp o_def intro!: option.map_cong)

lemma find_dev_first:
  "find_dev_by_sn k (map subdev_node ds) None = Some (if ds = [] then None else Some k)"
  by (cases ds) auto

lemma run_find: "run (find_dev (map subdev_node ds) (Some s)) P (Inr (pos s ds)) P"
  by (cases "pos s ds") (simp_all add: run_def find_dev_def find_dev_nodes)

lemma run_subdev: "device d \<Longrightarrow> run (subdev_of (subdev_node d)) P (Inr (normal d)) P"
  by (simp add: run_def subdev_of_def json_to_subdev_node)

lemma run_item: "i < length js \<Longrightarrow> run (item_at js i) P (Inr (js ! i)) P"
  by (simp add: item_at_def run_ret)

lemma run_locate:
  assumes "good_list ds"
  shows "run (locate s) (up e ds u b)
    (case pos s ds of None \<Rightarrow> Inl ez_errno_hub_subdev_not_found
     | Some i \<Rightarrow> Inr (map subdev_node ds, i, subdev_node (ds ! i))) (up e ds u b)"
proof (cases e)
  case True
  have "run (locate s) (up True ds u b) (Inl ez_errno_hub_subdev_not_found) (up True ds u b)"
    unfolding locate_def by (rule run_stop [OF run_load_list [where e = True, simplified]])
  moreover have "\<not> (\<exists>h. up True ds u b h) \<or> pos s ds = None" by (auto simp: up_def)
  ultimately show ?thesis using True by (auto simp: run_def split: option.splits)
next
  case False
  have l: "run (load_list rv) (up False ds u b) (Inr (map subdev_node ds)) (up False ds u b)" for rv
    using run_load_list [where e = False] by simp
  show ?thesis
  proof (cases "pos s ds")
    case None
    then show ?thesis using False unfolding locate_def
      by (auto intro!: run_then [OF l] run_then [OF run_find] run_leave)
  next
    case (Some i)
    then have i: "i < length (map subdev_node ds)" using pos_Some by fastforce
    then have "run (andthen (item_at (map subdev_node ds) i) (\<lambda>j. ret (map subdev_node ds, i, j))) (up False ds u b)
        (Inr (map subdev_node ds, i, subdev_node (ds ! i))) (up False ds u b)"
      using run_then [OF run_item [OF i] run_ret] by simp
    then show ?thesis using False Some unfolding locate_def
      by (auto intro!: run_then [OF l] run_then [OF run_find])
  qed
qed

section \<open>Reports and authentication\<close>

text \<open>A step that ends with some result, as sending does.\<close>

definition ends :: "'a step \<Rightarrow> (hub \<Rightarrow> bool) \<Rightarrow> (hub \<Rightarrow> bool) \<Rightarrow> bool" where
  "ends f P Q \<longleftrightarrow> (\<forall>h. P h \<longrightarrow> (\<exists>r h'. f h = Some (r, h') \<and> Q h'))"

lemma ends_then: "run f P (Inr x) Q \<Longrightarrow> ends (g x) Q R \<Longrightarrow> ends (andthen f g) P R"
  unfolding run_def ends_def andthen_def by fastforce

lemma ends_send: "ends (send_or_leave r) (up e ds u b) (up e ds u b)"
  by (auto simp: ends_def send_or_leave_def hub_send_msg_to_platform_def check_not_def ret_def leave_def asked_def up_def)

lemma run_free_pbuf: "run free_pbuf (up e ds u b) (Inr ()) (up e ds u b)"
  by (auto simp: run_def free_pbuf_def ret_def up_def)

text \<open>What the two reports make of a device is a node with a short text.\<close>

definition reports_to :: "(hub_subdev_info_internal_t \<Rightarrow> mem \<Rightarrow> jnode option \<times> mem) \<Rightarrow> bool" where
  "reports_to f \<longleftrightarrow> (\<forall>d m. device d \<longrightarrow> plenty m \<longrightarrow> (\<exists>j m'. f d m = (Some j, m') \<and> report_like j \<and> plenty m'))"

lemma reports_to_relation: "reports_to subdev_to_relation"
proof -
  have "\<exists>j m'. subdev_to_relation d m = (Some j, m') \<and> report_like j \<and> plenty m'" if d: "device d" and m: "plenty m" for d m
  proof -
    note adds_comp [OF adds_one(2) [of "''FirmwareIdentificationCode''" "[]"]
      adds_comp [OF adds_one(2) [of "''type''" "sd_type d"] adds_comp [OF adds_one(2) [of "''version''" "sd_ver d"]
      adds_comp [OF adds_one(2) [of "''childdevid''" "sd_sn d"] adds_one(1) [of "''connected''" "sd_sta d \<noteq> 0"]]]]]
    from report_node_ok [OF this m] show ?thesis using d
      by (auto simp: subdev_to_relation_def o_assoc report_like_def device_def c_text_def short_nodes)
  qed
  then show ?thesis by (simp add: reports_to_def)
qed

lemma reports_to_status: "reports_to subdev_to_status"
proof -
  have "\<exists>j m'. subdev_to_status d m = (Some j, m') \<and> report_like j \<and> plenty m'" if d: "device d" and m: "plenty m" for d m
  proof -
    note adds_comp [OF adds_one(2) [of "''childdevid''" "sd_sn d"] adds_one(1) [of "''connected''" "sd_sta d \<noteq> 0"]]
    from report_node_ok [OF this m] show ?thesis using d
      by (auto simp: subdev_to_status_def report_like_def device_def c_text_def short_nodes)
  qed
  then show ?thesis by (simp add: reports_to_def)
qed

lemma normal_device: "device d \<Longrightarrow> device (normal d)"
  by (auto simp: device_def normal_def)

lemma report_loop_ok:
  assumes "reports_to f" and "\<forall>d \<in> set ds. device d" and "plenty m" and "\<forall>j \<in> set lst. report_like j"
  shows "\<exists>lst' m'. report_loop told f (map subdev_node ds) lst m = Some (lst', m') \<and> plenty m' \<and>
    (\<forall>j \<in> set lst'. report_like j) \<and> length lst' \<le> length lst + length ds"
  using assms(2-)
proof (induction ds arbitrary: lst m)
  case (Cons d ds)
  have d: "device d" using Cons.prems(1) by simp
  then have n: "json_to_subdev (subdev_node d) = Some (normal d)" "device (normal d)"
    using json_to_subdev_node normal_device by auto
  show ?case
  proof (cases "told (normal d)")
    case True
    obtain j m1 where j: "f (normal d) m = (Some j, m1)" "report_like j" "plenty m1"
      using assms(1) n(2) Cons.prems(2) unfolding reports_to_def by blast
    have "\<exists>lst' m'. report_loop told f (map subdev_node ds) (lst @ [j]) m1 = Some (lst', m') \<and> plenty m' \<and>
        (\<forall>j \<in> set lst'. report_like j) \<and> length lst' \<le> length (lst @ [j]) + length ds"
      using Cons.prems j by (intro Cons.IH) auto
    then show ?thesis using n(1) True j(1) by (auto simp: add_item_to_array_def)
  next
    case False
    have "\<exists>lst' m'. report_loop told f (map subdev_node ds) lst m = Some (lst', m') \<and> plenty m' \<and>
        (\<forall>j \<in> set lst'. report_like j) \<and> length lst' \<le> length lst + length ds"
      using Cons.prems by (intro Cons.IH) auto
    then show ?thesis using n(1) False by (auto intro: le_SucI)
  qed
qed simp

lemma ends_report:
  assumes "reports_to f"
  shows "ends (andthen (fill_report told f (map subdev_node ds)) (\<lambda>lst. andthen (print_list lst) (\<lambda>t. send_or_leave (g t))))
    (up e ds u b) (up e ds u b)"
  unfolding ends_def
proof (intro allI impI)
  fix h assume h: "up e ds u b h"
  then have g: "\<forall>d \<in> set ds. device d" "length ds \<le> COMPONENT_HUB_SUBLIST_MAX" "plenty (h_mem h)"
    by (auto simp: up_def good_list_def)
  obtain lst m where l: "report_loop told f (map subdev_node ds) [] (h_mem h) = Some (lst, m)" "plenty m"
    "\<forall>j \<in> set lst. report_like j" "length lst \<le> length ds"
    using report_loop_ok [OF assms g(1,3), of "[]" told] by auto
  let ?h = "h\<lparr>h_mem := m, l_lst := Some lst\<rparr>"
  have "up e ds u b ?h" using h l(2) by (auto simp: up_def)
  moreover have "ends (andthen (print_list lst) (\<lambda>t. send_or_leave (g t))) (up e ds u b) (up e ds u b)"
    by (rule ends_then [OF run_print ends_send]) (use l g in auto)
  ultimately obtain r h' where "andthen (print_list lst) (\<lambda>t. send_or_leave (g t)) ?h = Some (r, h')" "up e ds u b h'"
    unfolding ends_def by blast
  then show "\<exists>r h'. andthen (fill_report told f (map subdev_node ds))
      (\<lambda>lst. andthen (print_list lst) (\<lambda>t. send_or_leave (g t))) h = Some (r, h') \<and> up e ds u b h'"
    using l(1) by (auto simp: andthen_def fill_report_def)
qed

text \<open>An operation of the module, run outside the lock, that ends.\<close>

definition op_ends :: "(hub \<Rightarrow> (int \<times> hub) option) \<Rightarrow> (hub \<Rightarrow> bool) \<Rightarrow> bool" where
  "op_ends f P \<longleftrightarrow> (\<forall>h. P h \<longrightarrow> (\<exists>rv h'. f h = Some (rv, h') \<and> P h'))"

lemma reporting_ends:
  assumes "ends body (up e ds u True) (up e ds u True)"
  shows "op_ends (reporting body) (up e ds u False)"
  unfolding op_ends_def
proof (intro allI impI)
  fix h assume h: "up e ds u False h"
  then have "plenty (h_mem h)" by (simp add: up_def)
  then obtain m where m: "bscJSON_CreateArray (h_mem h) = (Some (BArray []), m)" "plenty m"
    using new_item_ok by (fastforce simp: bscJSON_CreateArray_def)
  let ?h = "h\<lparr>h_mem := m, h_locked := True, l_pbuf := False, l_save := None, l_root := None, l_lst := Some []\<rparr>"
  have "up e ds u True ?h" using h m(2) by (auto simp: up_def)
  then obtain r h1 where r: "body ?h = Some (r, h1)" "up e ds u True h1" using assms unfolding ends_def by blast
  have "up e ds u False (cleanup (h1\<lparr>h_locked := False\<rparr>))" using r(2) by (auto simp: cleanup_def up_def Let_def)
  moreover have "\<not> h_locked h" using h by (simp add: up_def)
  ultimately show "\<exists>rv h'. reporting body h = Some (rv, h') \<and> up e ds u False h'"
    using m(1) r(1) by (auto simp: reporting_def locked_def lock_def andthen_def ret_def check_not_def)
qed

lemma list_report_ends: "op_ends hub_subdev_list_report (up e ds u False)"
  unfolding hub_subdev_list_report_def
proof (rule reporting_ends, rule ends_then [OF run_kv_length])
  have "ends (andthen read_list (\<lambda>js. andthen free_pbuf (\<lambda>_. andthen (fill_report (\<lambda>d. sd_access d \<noteq> 0) subdev_to_relation js)
      (\<lambda>lst. andthen (print_list lst) (\<lambda>t. send_or_leave (Platform_report t)))))) (up False ds u True) (up False ds u True)"
    by (rule ends_then [OF run_read_list], rule ends_then [OF run_free_pbuf], rule ends_report [OF reports_to_relation])
  then show "ends (if length (if e then [] else text_of_list ds) = 0 then send_or_leave (Platform_report ''{}'')
     else andthen read_list (\<lambda>js. andthen free_pbuf (\<lambda>_. andthen (fill_report (\<lambda>d. sd_access d \<noteq> 0) subdev_to_relation js)
      (\<lambda>lst. andthen (print_list lst) (\<lambda>t. send_or_leave (Platform_report t)))))) (up e ds u True) (up e ds u True)"
    using ends_send by (cases e) auto
qed

lemma run_ends: "run f P r Q \<Longrightarrow> ends f P Q"
  unfolding run_def ends_def by blast

lemma sta_report_ends: "op_ends hub_subdev_sta_report (up e ds u False)"
  unfolding hub_subdev_sta_report_def
proof (rule reporting_ends, cases e)
  case True
  then show "ends (andthen (load_list ez_errno_hub_subdev_not_found) (\<lambda>js. andthen free_pbuf (\<lambda>_.
      andthen (fill_report (\<lambda>d. True) subdev_to_status js) (\<lambda>lst. andthen (print_list lst)
      (\<lambda>t. send_or_leave (Platform_status t)))))) (up e ds u True) (up e ds u True)"
    using run_ends [OF run_stop [OF run_load_list [where e = True, simplified]]] by simp
next
  case False
  have "ends (andthen (load_list ez_errno_hub_subdev_not_found) (\<lambda>js. andthen free_pbuf (\<lambda>_.
      andthen (fill_report (\<lambda>d. True) subdev_to_status js) (\<lambda>lst. andthen (print_list lst)
      (\<lambda>t. send_or_leave (Platform_status t)))))) (up False ds u True) (up False ds u True)"
    by (rule ends_then [OF run_load_list [where e = False, simplified]], rule ends_then [OF run_free_pbuf],
      rule ends_report [OF reports_to_status])
  then show "ends (andthen (load_list ez_errno_hub_subdev_not_found) (\<lambda>js. andthen free_pbuf (\<lambda>_.
      andthen (fill_report (\<lambda>d. True) subdev_to_status js) (\<lambda>lst. andthen (print_list lst)
      (\<lambda>t. send_or_leave (Platform_status t)))))) (up e ds u True) (up e ds u True)"
    using False by simp
qed

lemma run_then_report:
  assumes "op_ends report (up e' ds' u' False)" and "run body (up e ds u True) r (up e' ds' u' True)"
    and "up e ds u False h"
  shows "\<exists>h'. then_report report body h = Some (code_of r, h') \<and> up e' ds' u' False h'"
proof -
  obtain h1 where h1: "locked body h = Some (r, h1)" "up e' ds' u' False h1"
    using run_locked [OF assms(2)] assms(3) by (auto simp: run_def)
  then obtain rv h2 where "report h1 = Some (rv, h2)" "up e' ds' u' False h2" using assms(1) by (auto simp: op_ends_def)
  then show ?thesis using h1 by (simp add: then_report_def)
qed

lemma auth_ends:
  assumes "device d" and "up e ds u b h"
  shows "\<exists>rv h'. hub_subdev_auth_do d h = Some (rv, h') \<and> up e ds u b h'"
proof -
  have m: "plenty (h_mem h)" and mac: "c_text 64 (auth_mac (h_md5 h) d)" using assms(2) by (auto simp: up_def auth_mac_def)
  have sn: "c_text 62 (auth_serial d)"
    using assms(1) by (auto simp: auth_serial_def device_def c_text_def dest: in_set_takeD)
  have i: "\<bar>sd_authm d\<bar> < 2 ^ 31 - 1" using assms(1) by (auto simp: device_def)
  note adds_comp [OF adds_one(3) [OF i, of "''devAccessMode''"]
      adds_comp [OF adds_one(2) [of "''childverifycode''" "auth_mac (h_md5 h) d"]
        adds_one(2) [of "''childserial''" "auth_serial d"]]]
  from report_node_ok [OF this m] obtain j m1 where j: "report_node (bscJSON_AddNumberToObject ''devAccessMode'' (sd_authm d) \<circ>
          bscJSON_AddStringToObject ''childverifycode'' (auth_mac (h_md5 h) d) \<circ>
          bscJSON_AddStringToObject ''childserial'' (auth_serial d)) (h_mem h) = (Some j, m1)" "report_like j" "plenty m1"
    using mac sn assms(1) by (auto simp: o_assoc report_like_def c_text_def short_nodes device_def)
  have f: "fits j" by (rule plain_fits [OF report_like_text(2) [OF j(2)]])
  have l: "int (length (json_text False 0 j)) + 2 < INT_MAX"
    using report_like_text(1) [OF j(2), of 0] by (simp add: INT_MAX_def)
  obtain m2 where "print j False m1 = Some (Some (json_text False 0 j), m2)" "plenty m2"
    using print_succeeds [OF f l, of m1] j(3) unfolding plenty_def by blast
  then show ?thesis using j(1) assms(2)
    by (auto simp: hub_subdev_auth_do_def hub_send_msg_to_platform_def asked_def up_def)
qed

section \<open>Changes of the list\<close>

lemma run_create_list: "run create_list (up e ds u b) (Inr []) (up e ds u b)"
proof (rule runI)
  fix h assume h: "up e ds u b h"
  then have "plenty (h_mem h)" by (simp add: up_def)
  then obtain m where "bscJSON_CreateArray (h_mem h) = (Some (BArray []), m)" "plenty m"
    using new_item_ok by (fastforce simp: bscJSON_CreateArray_def)
  then show "\<exists>h'. create_list h = Some (Inr [], h') \<and> up e ds u b h'"
    using h by (auto simp: create_list_def ret_def up_def)
qed

lemma run_list_for_add:
  "run (list_for_add s) (up e ds u b)
     (if pos s ds = None then Inr (map subdev_node ds) else Inl ez_errno_hub_subdev_existed) (up e ds u b)"
proof (cases e)
  case True
  have "run (list_for_add s) (up True ds u b) (Inr []) (up True ds u b)"
    unfolding list_for_add_def
    by (rule run_then [OF run_kv_length [where e = True], simplified]) (simp add: run_create_list)
  moreover have "ds = [] \<or> \<not> (\<exists>h. up True ds u b h)" by (auto simp: up_def)
  ultimately show ?thesis using True by (auto simp: run_def)
next
  case False
  have "run (andthen (check_not (pos s ds \<noteq> None) ez_errno_hub_subdev_existed) (\<lambda>_. ret (map subdev_node ds))) (up False ds u b)
     (if pos s ds = None then Inr (map subdev_node ds) else Inl ez_errno_hub_subdev_existed) (up False ds u b)"
    by (auto simp: run_def check_not_def andthen_def ret_def leave_def)
  then have "run (andthen read_list (\<lambda>js. andthen (find_dev js (Some s)) (\<lambda>r.
       andthen (check_not (r \<noteq> None) ez_errno_hub_subdev_existed) (\<lambda>_. ret js)))) (up False ds u b)
     (if pos s ds = None then Inr (map subdev_node ds) else Inl ez_errno_hub_subdev_existed) (up False ds u b)"
    by (intro run_then [OF run_read_list] run_then [OF run_find])
  then have "run (list_for_add s) (up False ds u b)
     (if pos s ds = None then Inr (map subdev_node ds) else Inl ez_errno_hub_subdev_existed) (up False ds u b)"
    unfolding list_for_add_def by (intro run_then [OF run_kv_length [where e = False]]) simp
  then show ?thesis using False by simp
qed

lemma run_make: "device d \<Longrightarrow> run (make_subdev d) (up e ds u b) (Inr (subdev_node d)) (up e ds u b)"
proof (rule runI)
  fix h assume d: "device d" and h: "up e ds u b h"
  then have "plenty (h_mem h)" by (simp add: up_def)
  then obtain m where "subdev_to_json d (h_mem h) = (Some (subdev_node d), m)" "plenty m"
    using subdev_to_json_ok [OF d] by blast
  then show "\<exists>h'. make_subdev d h = Some (Inr (subdev_node d), h') \<and> up e ds u b h'"
    using h by (auto simp: make_subdev_def ret_def up_def)
qed

lemma run_delete:
  assumes "i < length ds"
  shows "run (delete_at (map subdev_node ds) i) (up e ds u b) (Inr (map subdev_node (delete_nth i ds))) (up e ds u b)"
  using assms
  by (auto simp: run_def delete_at_def bscJSON_DeleteItemFromArray_def ret_def up_def delete_nth_def take_map drop_map
      simp del: bscJSON_Delete.simps)

lemma run_replace:
  assumes "\<And>m. plenty m \<Longrightarrow> \<exists>m'. create m = (Some j, m') \<and> plenty m'"
    and "replace_member (subdev_members (ds ! i)) name name j = Some (subdev_members d', old)" and "i < length ds"
  shows "run (replace_at (map subdev_node ds) i name create) (up e ds u b)
    (Inr (map subdev_node (ds[i := d']), subdev_node d')) (up e ds u b)"
proof (rule runI)
  fix h assume h: "up e ds u b h"
  then have "plenty (h_mem h)" by (simp add: up_def)
  then obtain m where m: "create (h_mem h) = (Some j, m)" "plenty m" using assms(1) by blast
  obtain m1 where "malloc m = (True, m1)" "plenty m1" using plenty_malloc [OF m(2)] by blast
  then show "\<exists>h'. replace_at (map subdev_node ds) i name create h =
      Some (Inr (map subdev_node (ds[i := d']), subdev_node d'), h') \<and> up e ds u b h'"
    using h m assms(2,3)
    by (auto simp: replace_at_def subdev_node_def bscJSON_ReplaceItemInObject_def ret_def up_def map_update
        simp del: bscJSON_Delete.simps)
qed

text \<open>The members the operations replace.\<close>

lemma replaced_member:
  "replace_member (subdev_members d) ''ver'' ''ver'' (BString v) = Some (subdev_members (d\<lparr>sd_ver := v\<rparr>), BString (sd_ver d))"
  "replace_member (subdev_members d) ''sta'' ''sta'' (bool_node on) =
     Some (subdev_members (d\<lparr>sd_sta := of_bool on\<rparr>), bool_node (sd_sta d \<noteq> 0))"
  "replace_member (subdev_members d) ''access'' ''access'' (int_node a) =
     Some (subdev_members (d\<lparr>sd_access := a\<rparr>), int_node (sd_access d))"
  by (simp_all add: subdev_members_def case_insensitive_strcmp_def tolower_def)

lemma good_update:
  assumes "good_list ds" and "i < length ds" and "device d'" and "normal d' = d'" and "sd_sn d' = sd_sn (ds ! i)"
  shows "good_list (ds[i := d'])"
proof -
  have "map sd_sn (ds[i := d']) = map sd_sn ds" using assms(2,5) by (metis list_update_id map_update nth_map)
  then show ?thesis using assms set_update_subset_insert [of ds i d'] unfolding good_list_def by (auto simp: map_update)
qed

lemma good_delete:
  assumes "good_list ds"
  shows "good_list (delete_nth i ds)"
proof -
  have "distinct (map sd_sn (delete_nth i ds))" using assms
    by (auto simp: good_list_def delete_nth_def take_map [symmetric] drop_map [symmetric] distinct_append
        simp del: take_map drop_map dest: set_take_disj_set_drop_if_distinct [where i = i and j = "Suc i"])
  moreover have "set (delete_nth i ds) \<subseteq> set ds" "length (delete_nth i ds) \<le> length ds"
    by (auto simp: delete_nth_def dest: in_set_takeD in_set_dropD)
  ultimately show ?thesis using assms by (auto simp: good_list_def)
qed

section \<open>The operations and their specification\<close>

datatype hub_call =
  Add hub_subdev_info_internal_t | Del string | Set_ver string string | Set_status string bool | Passed string

fun hub_exec :: "hub_call \<Rightarrow> hub \<Rightarrow> (int \<times> hub) option" where
  "hub_exec (Add d) = hub_add_do d"
| "hub_exec (Del sn) = hub_del_do sn"
| "hub_exec (Set_ver sn ver) = hub_ver_update_do sn ver"
| "hub_exec (Set_status sn online) = hub_status_update_do sn online"
| "hub_exec (Passed sn) = hub_subdev_auth_passed sn"

definition on_device :: "string \<Rightarrow> (nat \<Rightarrow> subdevs) \<Rightarrow> subdevs \<Rightarrow> int \<times> subdevs" where
  "on_device sn f ds = (case pos sn ds of None \<Rightarrow> (ez_errno_hub_subdev_not_found, ds) | Some i \<Rightarrow> (0, f i))"

fun spec_call :: "hub_call \<Rightarrow> subdevs \<Rightarrow> int \<times> subdevs" where
  "spec_call (Add d) ds = (if pos (sd_sn d) ds \<noteq> None then (ez_errno_hub_subdev_existed, ds)
     else if COMPONENT_HUB_SUBLIST_MAX \<le> length ds then (ez_errno_hub_out_of_range, ds)
     else (0, ds @ [normal d]))"
| "spec_call (Del sn) ds = on_device sn (\<lambda>i. delete_nth i ds) ds"
| "spec_call (Set_ver sn ver) ds = on_device sn (\<lambda>i. ds[i := (ds ! i)\<lparr>sd_ver := ver\<rparr>]) ds"
| "spec_call (Set_status sn online) ds = on_device sn (\<lambda>i. ds[i := (ds ! i)\<lparr>sd_sta := of_bool online\<rparr>]) ds"
| "spec_call (Passed sn) ds = on_device sn (\<lambda>i. ds[i := (ds ! i)\<lparr>sd_access := 1\<rparr>]) ds"

text \<open>By how much the number of devices that wait for their authentication is changed.\<close>

fun spec_count :: "hub_call \<Rightarrow> subdevs \<Rightarrow> int" where
  "spec_count (Add d) ds = of_bool (fst (spec_call (Add d) ds) = 0)"
| "spec_count (Del sn) ds = (case pos sn ds of None \<Rightarrow> 0 | Some i \<Rightarrow> - of_bool (sd_access (ds ! i) = 0))"
| "spec_count c ds = 0"

fun call_ok :: "hub_call \<Rightarrow> bool" where
  "call_ok (Add d) = device d"
| "call_ok (Set_ver sn ver) = c_text 32 ver"
| "call_ok c = True"

text \<open>What each operation has to be shown to do.\<close>

definition does :: "hub_call \<Rightarrow> bool \<Rightarrow> subdevs \<Rightarrow> int \<Rightarrow> hub \<Rightarrow> bool" where
  "does c e ds u h \<longleftrightarrow> (\<exists>e' h'. hub_exec c h = Some (fst (spec_call c ds), h') \<and>
     up e' (snd (spec_call c ds)) (u + spec_count c ds) False h')"

lemma run_auth:
  assumes "device d"
  shows "run (\<lambda>h. map_option (\<lambda>(rv, h1). (Inr (), h1)) (hub_subdev_auth_do d (h\<lparr>h_unauth_count := h_unauth_count h + 1\<rparr>)))
    (up e ds u b) (Inr ()) (up e ds (u + 1) b)"
proof (rule runI)
  fix h assume "up e ds u b h"
  then have "up e ds (u + 1) b (h\<lparr>h_unauth_count := h_unauth_count h + 1\<rparr>)" by (simp add: up_def)
  from auth_ends [OF assms this] show "\<exists>h'. map_option (\<lambda>(rv, h1). (Inr (), h1))
      (hub_subdev_auth_do d (h\<lparr>h_unauth_count := h_unauth_count h + 1\<rparr>)) = Some (Inr (), h') \<and> up e ds (u + 1) b h'"
    by auto
qed

lemma good_append:
  assumes "good_list ds" and "device d" and "pos (sd_sn d) ds = None" and "length ds < COMPONENT_HUB_SUBLIST_MAX"
  shows "good_list (ds @ [normal d])"
  using assms normal_device [OF assms(2)] by (auto simp: good_list_def pos_None normal_def)

lemma does_add:
  assumes d: "device d" and h: "up e ds u False h"
  shows "does (Add d) e ds u h"
proof -
  have g: "good_list ds" using h by (simp add: up_def)
  define body where "body = andthen (list_for_add (sd_sn d)) (\<lambda>js.
      andthen (check_not (COMPONENT_HUB_SUBLIST_MAX \<le> length js) ez_errno_hub_out_of_range) (\<lambda>_.
      andthen (make_subdev d) (\<lambda>j. andthen (store_list (js @ [j])) (\<lambda>_ h.
        map_option (\<lambda>(rv, h1). (Inr (), h1)) (hub_subdev_auth_do d (h\<lparr>h_unauth_count := h_unauth_count h + 1\<rparr>))))))"
  note l = run_list_for_add [of "sd_sn d" e ds u True]
  have "\<exists>r e'. run body (up e ds u True) r (up e' (snd (spec_call (Add d) ds)) (u + spec_count (Add d) ds) True) \<and>
      code_of r = fst (spec_call (Add d) ds)"
  proof (cases "pos (sd_sn d) ds = None \<and> length ds < COMPONENT_HUB_SUBLIST_MAX")
    case True
    have c: "run (check_not (COMPONENT_HUB_SUBLIST_MAX \<le> length (map subdev_node ds)) ez_errno_hub_out_of_range)
        (up e ds u True) (Inr ()) (up e ds u True)" using True run_check [of False] by simp
    have s: "run (store_list (map subdev_node ds @ [subdev_node d])) (up e ds u True) (Inr ()) (up False (ds @ [normal d]) u True)"
      using run_store [OF good_append [OF g d]] True by simp
    have l1: "run (list_for_add (sd_sn d)) (up e ds u True) (Inr (map subdev_node ds)) (up e ds u True)" using True l by simp
    have "run body (up e ds u True) (Inr ()) (up False (ds @ [normal d]) (u + 1) True)" unfolding body_def
      by (intro run_then [OF l1] run_then [OF c] run_then [OF run_make [OF d]] run_then [OF s] run_auth [OF d])
    then show ?thesis using True by (auto simp: code_of_def)
  next
    case False
    then consider "pos (sd_sn d) ds \<noteq> None" | "pos (sd_sn d) ds = None" "COMPONENT_HUB_SUBLIST_MAX \<le> length ds" by linarith
    then show ?thesis
    proof cases
      case 1
      then have "run (list_for_add (sd_sn d)) (up e ds u True) (Inl ez_errno_hub_subdev_existed) (up e ds u True)"
        using l by auto
      then have "run body (up e ds u True) (Inl ez_errno_hub_subdev_existed) (up e ds u True)"
        unfolding body_def by (rule run_stop)
      then show ?thesis using 1 by (fastforce simp: code_of_def ez_errno_hub_subdev_existed_def)
    next
      case 2
      then have c: "run (check_not (COMPONENT_HUB_SUBLIST_MAX \<le> length (map subdev_node ds)) ez_errno_hub_out_of_range)
        (up e ds u True) (Inl ez_errno_hub_out_of_range) (up e ds u True)" using run_check [of True] by simp
      have l1: "run (list_for_add (sd_sn d)) (up e ds u True) (Inr (map subdev_node ds)) (up e ds u True)" using 2 l by simp
      have "run body (up e ds u True) (Inl ez_errno_hub_out_of_range) (up e ds u True)"
        unfolding body_def by (intro run_then [OF l1] run_stop [OF c])
      then show ?thesis using 2 by (fastforce simp: code_of_def ez_errno_hub_out_of_range_def)
    qed
  qed
  then obtain r e' where r: "run body (up e ds u True) r (up e' (snd (spec_call (Add d) ds)) (u + spec_count (Add d) ds) True)"
    "code_of r = fst (spec_call (Add d) ds)" by blast
  obtain h' where "locked body h = Some (r, h')" "up e' (snd (spec_call (Add d) ds)) (u + spec_count (Add d) ds) False h'"
    using run_locked [OF r(1)] h unfolding run_def by blast
  then have "hub_add_do d h = Some (fst (spec_call (Add d) ds), h')" using r(2) by (simp add: hub_add_do_def body_def)
  then show ?thesis unfolding does_def using \<open>up e' _ _ False h'\<close> by auto
qed

text \<open>The operations on a device of the list: they locate it, and where it is go on with its place.\<close>

lemma does_located:
  assumes h: "up e ds u False h"
    and exec: "hub_exec c = then_report report (andthen (locate s) g)"
    and spec: "spec_call c ds = on_device s f ds" and count: "pos s ds = None \<Longrightarrow> spec_count c ds = 0"
    and report: "\<And>e ds u. op_ends report (up e ds u False)"
    and found: "\<And>i. pos s ds = Some i \<Longrightarrow> i < length ds \<Longrightarrow>
      run (g (map subdev_node ds, i, subdev_node (ds ! i))) (up e ds u True) (Inr ()) (up False (f i) (u + spec_count c ds) True)"
  shows "does c e ds u h"
proof -
  have g: "good_list ds" using h by (simp add: up_def)
  note l = run_locate [OF g, of s e u True]
  show ?thesis
  proof (cases "pos s ds")
    case None
    then have "run (andthen (locate s) g) (up e ds u True) (Inl ez_errno_hub_subdev_not_found) (up e ds u True)"
      using l by (intro run_stop) simp
    from run_then_report [OF report this h] show ?thesis
      using None exec spec count by (auto simp: does_def on_device_def code_of_def)
  next
    case (Some i)
    then have l1: "run (locate s) (up e ds u True) (Inr (map subdev_node ds, i, subdev_node (ds ! i))) (up e ds u True)"
      using l by simp
    have "run (andthen (locate s) g) (up e ds u True) (Inr ()) (up False (f i) (u + spec_count c ds) True)"
      by (rule run_then [OF l1], rule found) (use Some pos_Some in auto)
    from run_then_report [OF report this h] show ?thesis
      using Some exec spec by (auto simp: does_def on_device_def code_of_def)
  qed
qed

lemma normal_iff: "normal d = d \<longleftrightarrow> sd_sta d = 0 \<or> sd_sta d = 1"
  by (cases d) (auto simp: normal_def)

lemma run_asked: "run (\<lambda>h. ret () (asked r1 (asked r2 h))) (up e ds u b) (Inr ()) (up e ds u b)"
  by (auto simp: run_def ret_def asked_def up_def)

lemma does_del:
  assumes h: "up e ds u False h"
  shows "does (Del s) e ds u h"
proof (rule does_located [OF h])
  show "hub_exec (Del s) = then_report hub_subdev_list_report (andthen (locate s) (\<lambda>(js, i, j).
      andthen (subdev_of j) (\<lambda>d. andthen (delete_at js i) (\<lambda>js'. andthen (store_list js') (\<lambda>_ h.
        if sd_access d = 0 then ret () (h\<lparr>h_unauth_count := h_unauth_count h - 1\<rparr>)
        else ret () (asked (Tsl_profile_del (sd_sn d)) (asked (Tsl_unreg d) h)))))))"
    by (rule ext) (simp add: hub_del_do_def)
  show "spec_call (Del s) ds = on_device s (\<lambda>i. delete_nth i ds) ds" by simp
  show "pos s ds = None \<Longrightarrow> spec_count (Del s) ds = 0" by simp
  show "op_ends hub_subdev_list_report (up e ds u False)" for e ds u by (rule list_report_ends)
next
  fix i assume i: "pos s ds = Some i" "i < length ds"
  have g: "good_list ds" using h by (simp add: up_def)
  then have d: "device (ds ! i)" "normal (ds ! i) = ds ! i" using i(2) by (auto simp: good_list_def)
  have last: "run (\<lambda>h. if sd_access (ds ! i) = 0 then ret () (h\<lparr>h_unauth_count := h_unauth_count h - 1\<rparr>)
      else ret () (asked (Tsl_profile_del (sd_sn (ds ! i))) (asked (Tsl_unreg (ds ! i)) h)))
      (up False (delete_nth i ds) u True) (Inr ()) (up False (delete_nth i ds) (u + spec_count (Del s) ds) True)"
    using i by (auto simp: run_def ret_def asked_def up_def)
  have "run (andthen (subdev_of (subdev_node (ds ! i))) (\<lambda>d. andthen (delete_at (map subdev_node ds) i) (\<lambda>js'.
      andthen (store_list js') (\<lambda>_ h.
        if sd_access d = 0 then ret () (h\<lparr>h_unauth_count := h_unauth_count h - 1\<rparr>)
        else ret () (asked (Tsl_profile_del (sd_sn d)) (asked (Tsl_unreg d) h))))))
      (up e ds u True) (Inr ()) (up False (delete_nth i ds) (u + spec_count (Del s) ds) True)"
    by (rule run_then [OF run_subdev [OF d(1)]], unfold d(2), rule run_then [OF run_delete [OF i(2)]],
        rule run_then [OF run_store [OF good_delete [OF g]]], rule last)
  then show "run (case (map subdev_node ds, i, subdev_node (ds ! i)) of (js, i, j) \<Rightarrow>
      andthen (subdev_of j) (\<lambda>d. andthen (delete_at js i) (\<lambda>js'. andthen (store_list js') (\<lambda>_ h.
        if sd_access d = 0 then ret () (h\<lparr>h_unauth_count := h_unauth_count h - 1\<rparr>)
        else ret () (asked (Tsl_profile_del (sd_sn d)) (asked (Tsl_unreg d) h))))))
      (up e ds u True) (Inr ()) (up False (delete_nth i ds) (u + spec_count (Del s) ds) True)" by simp
qed

lemma does_ver:
  assumes h: "up e ds u False h" and v: "c_text 32 v"
  shows "does (Set_ver s v) e ds u h"
proof (rule does_located [OF h])
  show "hub_exec (Set_ver s v) = then_report hub_subdev_list_report (andthen (locate s) (\<lambda>(js, i, j).
      andthen (subdev_of j) (\<lambda>old. andthen (replace_at js i ''ver'' (bscJSON_CreateString v)) (\<lambda>(js', j').
      andthen (store_list js') (\<lambda>_. andthen (subdev_of j') (\<lambda>new h.
        ret () (asked (Tsl_reg new) (asked (Tsl_unreg old) h))))))))"
    by (rule ext) (simp add: hub_ver_update_do_def)
  show "spec_call (Set_ver s v) ds = on_device s (\<lambda>i. ds[i := (ds ! i)\<lparr>sd_ver := v\<rparr>]) ds" by simp
  show "pos s ds = None \<Longrightarrow> spec_count (Set_ver s v) ds = 0" by simp
  show "op_ends hub_subdev_list_report (up e ds u False)" for e ds u by (rule list_report_ends)
next
  fix i assume i: "pos s ds = Some i" "i < length ds"
  let ?d = "(ds ! i)\<lparr>sd_ver := v\<rparr>"
  have g: "good_list ds" using h by (simp add: up_def)
  then have d: "device (ds ! i)" "normal (ds ! i) = ds ! i" using i(2) by (auto simp: good_list_def)
  then have d': "device ?d" "normal ?d = ?d" using v by (simp_all add: device_def normal_iff)
  have g': "good_list (ds[i := ?d])" by (rule good_update [OF g i(2) d']) simp
  show "run (case (map subdev_node ds, i, subdev_node (ds ! i)) of (js, i, j) \<Rightarrow>
      andthen (subdev_of j) (\<lambda>old. andthen (replace_at js i ''ver'' (bscJSON_CreateString v)) (\<lambda>(js', j').
      andthen (store_list js') (\<lambda>_. andthen (subdev_of j') (\<lambda>new h.
        ret () (asked (Tsl_reg new) (asked (Tsl_unreg old) h)))))))
      (up e ds u True) (Inr ()) (up False (ds[i := ?d]) (u + spec_count (Set_ver s v) ds) True)"
    unfolding prod.case
    by (rule run_then [OF run_subdev [OF d(1)]], rule run_then [OF run_replace [OF CreateString_ok replaced_member(1) i(2)]],
        assumption, unfold prod.case, rule run_then [OF run_store [OF g']], rule run_then [OF run_subdev [OF d'(1)]])
      (simp add: run_asked)
qed

lemma does_status:
  assumes h: "up e ds u False h"
  shows "does (Set_status s on) e ds u h"
proof (rule does_located [OF h])
  show "hub_exec (Set_status s on) = then_report hub_subdev_sta_report (andthen (locate s) (\<lambda>(js, i, j).
      andthen (replace_at js i ''sta'' (bscJSON_CreateBool on)) (\<lambda>(js', j'). store_list js')))"
    by (rule ext) (simp add: hub_status_update_do_def)
  show "spec_call (Set_status s on) ds = on_device s (\<lambda>i. ds[i := (ds ! i)\<lparr>sd_sta := of_bool on\<rparr>]) ds" by simp
  show "pos s ds = None \<Longrightarrow> spec_count (Set_status s on) ds = 0" by simp
  show "op_ends hub_subdev_sta_report (up e ds u False)" for e ds u by (rule sta_report_ends)
next
  fix i assume i: "pos s ds = Some i" "i < length ds"
  let ?d = "(ds ! i)\<lparr>sd_sta := of_bool on\<rparr>"
  have g: "good_list ds" using h by (simp add: up_def)
  then have d: "device (ds ! i)" "normal (ds ! i) = ds ! i" using i(2) by (auto simp: good_list_def)
  then have d': "device ?d" "normal ?d = ?d" by (simp_all add: device_def normal_iff)
  have g': "good_list (ds[i := ?d])" by (rule good_update [OF g i(2) d']) simp
  have c: "plenty m \<Longrightarrow> \<exists>m'. bscJSON_CreateBool on m = (Some (bool_node on), m') \<and> plenty m'" for m
    using new_item_ok by (simp add: bscJSON_CreateBool_def bool_node_def)
  show "run (case (map subdev_node ds, i, subdev_node (ds ! i)) of (js, i, j) \<Rightarrow>
      andthen (replace_at js i ''sta'' (bscJSON_CreateBool on)) (\<lambda>(js', j'). store_list js'))
      (up e ds u True) (Inr ()) (up False (ds[i := ?d]) (u + spec_count (Set_status s on) ds) True)"
    unfolding prod.case
    by (rule run_then [OF run_replace [OF c replaced_member(2) i(2)]], assumption, unfold prod.case)
      (simp add: run_store [OF g'])
qed

lemma does_passed:
  assumes h: "up e ds u False h"
  shows "does (Passed s) e ds u h"
proof (rule does_located [OF h])
  show "hub_exec (Passed s) = then_report hub_subdev_list_report (andthen (locate s) (\<lambda>(js, i, j).
      andthen (subdev_of j) (\<lambda>d. andthen (replace_at js i ''access'' (bscJSON_CreateNumber 1)) (\<lambda>(js', j').
      andthen (store_list js') (\<lambda>_ h. ret () (asked (Tsl_reg d) (asked (Add_succ (sd_sn d)) h)))))))"
    by (rule ext) (simp add: hub_subdev_auth_passed_def)
  show "spec_call (Passed s) ds = on_device s (\<lambda>i. ds[i := (ds ! i)\<lparr>sd_access := 1\<rparr>]) ds" by simp
  show "pos s ds = None \<Longrightarrow> spec_count (Passed s) ds = 0" by simp
  show "op_ends hub_subdev_list_report (up e ds u False)" for e ds u by (rule list_report_ends)
next
  fix i assume i: "pos s ds = Some i" "i < length ds"
  let ?d = "(ds ! i)\<lparr>sd_access := 1\<rparr>"
  have g: "good_list ds" using h by (simp add: up_def)
  then have d: "device (ds ! i)" "normal (ds ! i) = ds ! i" using i(2) by (auto simp: good_list_def)
  then have d': "device ?d" "normal ?d = ?d" by (simp_all add: device_def normal_iff)
  have g': "good_list (ds[i := ?d])" by (rule good_update [OF g i(2) d']) simp
  have c: "plenty m \<Longrightarrow> \<exists>m'. bscJSON_CreateNumber 1 m = (Some (int_node 1), m') \<and> plenty m'" for m
    by (rule CreateNumber_ok) simp_all
  show "run (case (map subdev_node ds, i, subdev_node (ds ! i)) of (js, i, j) \<Rightarrow>
      andthen (subdev_of j) (\<lambda>d. andthen (replace_at js i ''access'' (bscJSON_CreateNumber 1)) (\<lambda>(js', j').
      andthen (store_list js') (\<lambda>_ h. ret () (asked (Tsl_reg d) (asked (Add_succ (sd_sn d)) h))))))
      (up e ds u True) (Inr ()) (up False (ds[i := ?d]) (u + spec_count (Passed s) ds) True)"
    unfolding prod.case
    by (rule run_then [OF run_subdev [OF d(1)]], rule run_then [OF run_replace [OF c replaced_member(3) i(2)]],
        assumption, unfold prod.case, rule run_then [OF run_store [OF g']])
      (simp add: run_asked)
qed

lemma does_call: "up e ds u False h \<Longrightarrow> call_ok c \<Longrightarrow> does c e ds u h"
  by (cases c) (auto intro: does_add does_del does_ver does_status does_passed)

text \<open>Sequences of operations.\<close>

fun hub_run :: "hub_call list \<Rightarrow> hub \<Rightarrow> (int list \<times> hub) option" where
  "hub_run [] h = Some ([], h)"
| "hub_run (c # cs) h = (case hub_exec c h of None \<Rightarrow> None
     | Some (rv, h1) \<Rightarrow> map_option (\<lambda>(rvs, h2). (rv # rvs, h2)) (hub_run cs h1))"

fun spec_run :: "hub_call list \<Rightarrow> subdevs \<Rightarrow> int \<Rightarrow> int list \<times> subdevs \<times> int" where
  "spec_run [] ds u = ([], ds, u)"
| "spec_run (c # cs) ds u = (case spec_run cs (snd (spec_call c ds)) (u + spec_count c ds) of
     (rvs, ds', u') \<Rightarrow> (fst (spec_call c ds) # rvs, ds', u'))"

text \<open>
  C7: While the storage works and memory lasts, every sequence of adding, deleting, changing and
  authenticating devices returns what it returns on a plain list of devices, and the text that is
  stored at the end is the one of that list: adding a known number is refused, the 65th device is
  refused, and the other operations find the device or say that it is not there.
\<close>

theorem hub_refines:
  assumes "up e ds u False h" and "list_all call_ok cs" and "spec_run cs ds u = (rvs, ds', u')"
  shows "\<exists>e' h'. hub_run cs h = Some (rvs, h') \<and> up e' ds' u' False h'"
  using assms
proof (induction cs arbitrary: e ds u h rvs)
  case (Cons c cs)
  obtain rvs1 where r: "spec_run cs (snd (spec_call c ds)) (u + spec_count c ds) = (rvs1, ds', u')"
    "rvs = fst (spec_call c ds) # rvs1" using Cons.prems(3) by (auto split: prod.splits)
  have "does c e ds u h" using Cons.prems(1,2) by (simp add: does_call)
  then obtain e1 h1 where h1: "hub_exec c h = Some (fst (spec_call c ds), h1)"
    "up e1 (snd (spec_call c ds)) (u + spec_count c ds) False h1" unfolding does_def by blast
  obtain e2 h2 where "hub_run cs h1 = Some (rvs1, h2)" "up e2 ds' u' False h2"
    using Cons.IH [OF h1(2) _ r(1)] Cons.prems(2) by auto
  then show ?case using h1(1) r(2) by auto
qed auto

text \<open>A hub with an empty storage that has seen no operation.\<close>

definition first_hub :: hub where
  "first_hub = \<lparr>h_store = [], h_kv_ok = \<lambda>_. True, h_kv_calls = 0, h_send_ok = \<lambda>_. True, h_tsl_rv = \<lambda>_. 0,
     h_requests = [], h_md5 = \<lambda>_. ''0cc175b9c0f1b6a831c399e269772661'', h_online = True, h_unauth_count = 0,
     h_locked = False, h_mem = all_memory, l_pbuf = False, l_save = None, l_root = None, l_lst = None, h_inited = True, g_hub_inited = True\<rparr>"

definition lamp :: hub_subdev_info_internal_t where
  "lamp = \<lparr>sd_authm = 0, sd_type = ''lamp'', sd_sn = ''Q00000001'', sd_vcode = ''ABCDEF'', sd_ver = ''V1.0'', sd_uuid = [],
     sd_sta = 1, sd_access = 0\<rparr>"

lemma first_hub_up: "up True [] 0 False first_hub"
  by (simp add: up_def first_hub_def good_list_def all_memory_def plenty_def c_text_def)

lemma lamp_device: "device lamp" "normal lamp = lamp"
  by (simp_all add: device_def lamp_def c_text_def normal_def)

lemma hub_refines_witness:
  "\<exists>e' h'. hub_run [Add lamp, Add lamp, Passed ''Q00000001'', Set_ver ''Q00000002'' ''V2'', Del ''Q00000001''] first_hub =
     Some ([0, ez_errno_hub_subdev_existed, 0, ez_errno_hub_subdev_not_found, 0], h') \<and> up e' [] 1 False h'"
proof (rule hub_refines [OF first_hub_up])
  show "list_all call_ok [Add lamp, Add lamp, Passed ''Q00000001'', Set_ver ''Q00000002'' ''V2'', Del ''Q00000001'']"
    by (simp add: lamp_device c_text_def)
  show "spec_run [Add lamp, Add lamp, Passed ''Q00000001'', Set_ver ''Q00000002'' ''V2'', Del ''Q00000001''] [] 0 =
      ([0, ez_errno_hub_subdev_existed, 0, ez_errno_hub_subdev_not_found, 0], [], 1)"
    by (simp add: on_device_def lamp_def normal_def delete_nth_def COMPONENT_HUB_SUBLIST_MAX_def ez_errno_hub_subdev_existed_def)
qed

section \<open>Queries\<close>

lemma run_query:
  "run (hub_subdev_query s) (up e ds u False)
     (case pos s ds of None \<Rightarrow> Inl ez_errno_hub_subdev_not_found | Some i \<Rightarrow> Inr (ds ! i)) (up e ds u False)"
proof (cases "\<exists>h. up e ds u False h")
  case True
  then have g: "good_list ds" by (auto simp: up_def)
  note l = run_locate [OF g, of s e u True]
  have "run (andthen (locate s) (\<lambda>(js, i, j). subdev_of j)) (up e ds u True)
      (case pos s ds of None \<Rightarrow> Inl ez_errno_hub_subdev_not_found | Some i \<Rightarrow> Inr (ds ! i)) (up e ds u True)"
  proof (cases "pos s ds")
    case None
    then show ?thesis using l by (simp add: run_stop)
  next
    case (Some i)
    then have d: "device (ds ! i)" "normal (ds ! i) = ds ! i" using g pos_Some [OF Some] by (auto simp: good_list_def)
    have "run (subdev_of (subdev_node (ds ! i))) (up e ds u True) (Inr (ds ! i)) (up e ds u True)"
      using run_subdev [OF d(1)] d(2) by simp
    then show ?thesis using l Some by (auto intro: run_then)
  qed
  then show ?thesis unfolding hub_subdev_query_def by (rule run_locked)
qed (simp add: run_def)

text \<open>
  C30: A device that was added with success is found under its number, with the texts and numbers it was added with; its
  state comes back as a truth value.
\<close>

theorem added_is_found:
  assumes "up e ds u False h" and "device d" and "hub_add_do d h = Some (0, h1)"
  shows "\<exists>h2. hub_subdev_query (sd_sn d) h1 = Some (Inr (normal d), h2)"
proof -
  from does_add [OF assms(2,1)] obtain e' where h1: "up e' (snd (spec_call (Add d) ds)) (u + spec_count (Add d) ds) False h1"
    "fst (spec_call (Add d) ds) = 0" using assms(3) by (auto simp: does_def)
  then have "pos (sd_sn d) ds = None" "snd (spec_call (Add d) ds) = ds @ [normal d]"
    by (auto simp: ez_errno_hub_subdev_existed_def ez_errno_hub_out_of_range_def split: if_splits)
  moreover have "pos s ds = None \<Longrightarrow> sd_sn x = s \<Longrightarrow> pos s (ds @ [x]) = Some (length ds)" for s x
    by (induction ds) (auto split: if_splits)
  ultimately have "pos (sd_sn d) (ds @ [normal d]) = Some (length ds)" by (simp add: normal_def)
  then show ?thesis using run_query [of "sd_sn d" e' "ds @ [normal d]"] h1(1) \<open>snd _ = _\<close>
    by (auto simp: run_def simp del: spec_call.simps)
qed

lemma added_is_found_witness:
  "\<exists>h1 h2. hub_add_do lamp first_hub = Some (0, h1) \<and> hub_subdev_query ''Q00000001'' h1 = Some (Inr lamp, h2)"
proof -
  obtain h1 where h1: "hub_add_do lamp first_hub = Some (0, h1)"
    using does_add [OF lamp_device(1) first_hub_up] by (auto simp: does_def COMPONENT_HUB_SUBLIST_MAX_def)
  from added_is_found [OF first_hub_up lamp_device(1) this] show ?thesis using h1 lamp_device(2)
    by (auto simp: lamp_def)
qed

end
