(* ===== verification/Hub_Enum.thy ===== *)
theory Hub_Enum
  imports Hub_Refines
begin

text \<open>
  The hub's enumerations: the loops over the devices visit each of them once, unless one has no
  number, and what is left of the hub when clearing its list fails.
\<close>

section \<open>Enumerations\<close>

text \<open>The device after the one of the number, the first one after an empty number.\<close>

definition next_dev :: "string \<Rightarrow> subdevs \<Rightarrow> int + hub_subdev_info_internal_t" where
  "next_dev s ds = (let k = (if s = [] then 0 else case pos s ds of None \<Rightarrow> length ds | Some i \<Rightarrow> Suc i) in
     if k < length ds then Inr (ds ! k) else Inl ez_errno_hub_enum_end)"

lemma run_next: "run (hub_subdev_next s) (up e ds u False) (next_dev s ds) (up e ds u False)"
proof (cases "\<exists>h. up e ds u False h")
  case True
  then have g: "good_list ds" and e: "e \<longrightarrow> ds = []" by (auto simp: up_def)
  have it: "run (andthen (item_at (map subdev_node ds) k) subdev_of) (up e ds u True) (Inr (ds ! k)) (up e ds u True)"
    if k: "k < length ds" for k
  proof -
    have d: "device (ds ! k)" "normal (ds ! k) = ds ! k" using g k by (auto simp: good_list_def)
    have "run (item_at (map subdev_node ds) k) (up e ds u True) (Inr (subdev_node (ds ! k))) (up e ds u True)"
      using run_item [of k "map subdev_node ds"] k by simp
    then have "run (andthen (item_at (map subdev_node ds) k) subdev_of) (up e ds u True) (Inr (normal (ds ! k))) (up e ds u True)"
      by (rule run_then, intro run_subdev d(1))
    then show ?thesis using d(2) by simp
  qed
  have fd: "run (find_dev (map subdev_node ds) (if s = [] then None else Some s)) (up e ds u True)
      (Inr (if s = [] then (if ds = [] then None else Some 0) else pos s ds)) (up e ds u True)"
    using run_find by (auto simp: run_def find_dev_def find_dev_first)
  have "run (andthen (load_list ez_errno_hub_enum_end) (\<lambda>js. andthen (find_dev js (if s = [] then None else Some s)) (\<lambda>r.
       case r of None \<Rightarrow> leave ez_errno_hub_enum_end
       | Some i \<Rightarrow> if s = [] then andthen (item_at js i) subdev_of
           else if length js \<le> i + 1 then leave ez_errno_hub_enum_end
           else andthen (item_at js (i + 1)) subdev_of))) (up e ds u True) (next_dev s ds) (up e ds u True)"
  proof (cases e)
    case True
    then have "run (load_list ez_errno_hub_enum_end) (up e ds u True) (Inl ez_errno_hub_enum_end) (up e ds u True)"
      using run_load_list [of ez_errno_hub_enum_end e ds u True] by simp
    moreover have "next_dev s ds = Inl ez_errno_hub_enum_end" using True e by (simp add: next_dev_def)
    ultimately show ?thesis by (simp only: run_stop)
  next
    case False
    then have l: "run (load_list ez_errno_hub_enum_end) (up e ds u True) (Inr (map subdev_node ds)) (up e ds u True)"
      using run_load_list [of ez_errno_hub_enum_end e ds u True] by simp
    show ?thesis
      by (rule run_then [OF l], rule run_then [OF fd])
        (auto simp: next_dev_def run_leave it dest: pos_Some split: option.splits)
  qed
  then show ?thesis unfolding hub_subdev_next_def by (rule run_locked)
qed (simp add: run_def)

text \<open>Steps that ask nothing of the outside.\<close>

definition silent :: "'a step \<Rightarrow> bool" where
  "silent f \<longleftrightarrow> (\<forall>h r h'. f h = Some (r, h') \<longrightarrow> h_requests h' = h_requests h)"

lemma silent_then: "silent f \<Longrightarrow> (\<And>x. silent (g x)) \<Longrightarrow> silent (andthen f g)"
  unfolding silent_def andthen_def by (auto split: option.splits sum.splits)

lemma silent_basic:
  "silent (ret x)" "silent (leave rv)" "silent (check_not c rv)" "silent kv_access" "silent malloc_pbuf"
  "silent parse_store" "silent (item_at js i)" "silent (subdev_of j)" "silent (find_dev js r)"
  by (auto simp: silent_def ret_def leave_def check_not_def kv_access_def malloc_pbuf_def parse_store_def item_at_def
      subdev_of_def find_dev_def Let_def split: prod.splits option.splits if_splits jnode.splits)

lemma silent_next: "silent (hub_subdev_next s)"
proof -
  have n: "silent kv_length" unfolding kv_length_def
    by (rule silent_then [OF silent_basic(4)]) (simp add: silent_def ret_def)
  have "silent (andthen (load_list ez_errno_hub_enum_end) (\<lambda>js. andthen (find_dev js (if s = [] then None else Some s)) (\<lambda>r.
       case r of None \<Rightarrow> leave ez_errno_hub_enum_end
       | Some i \<Rightarrow> if s = [] then andthen (item_at js i) subdev_of
           else if length js \<le> i + 1 then leave ez_errno_hub_enum_end
           else andthen (item_at js (i + 1)) subdev_of)))"
    unfolding load_list_def read_list_def
    by (intro silent_then n silent_basic) (auto intro!: silent_then silent_basic split: option.splits)
  then show ?thesis
    by (auto simp: silent_def hub_subdev_next_def locked_def lock_def cleanup_def Let_def split: option.splits if_splits)
qed

text \<open>The body of a loop that goes on and asks \<open>g d\<close> for the device \<open>d\<close>.\<close>

definition asks :: "(hub_subdev_info_internal_t \<Rightarrow> hub \<Rightarrow> (int \<times> hub) option) \<Rightarrow> (hub_subdev_info_internal_t \<Rightarrow> hub_request list) \<Rightarrow>
    (hub \<Rightarrow> bool) \<Rightarrow> bool" where
  "asks f g P \<longleftrightarrow> (\<forall>d h. P h \<longrightarrow> (\<exists>h'. f d h = Some (0, h') \<and> P h' \<and> h_requests h' = h_requests h @ g d))"

text \<open>One round of the loop.\<close>

lemma enum_round:
  assumes "up e ds u False h" and "asks f g (up e ds u False)"
  shows "\<exists>h'. up e ds u False h' \<and> (case next_dev s ds of
      Inl rv \<Rightarrow> enum_loop f s h = Some (0, h') \<and> h_requests h' = h_requests h
    | Inr d \<Rightarrow> enum_loop f s h = enum_loop f (sd_sn d) h' \<and> h_requests h' = h_requests h @ g d)"
proof -
  obtain h1 where h1: "hub_subdev_next s h = Some (next_dev s ds, h1)" "up e ds u False h1"
    using run_next assms(1) unfolding run_def by blast
  then have r: "h_requests h1 = h_requests h" using silent_next unfolding silent_def by blast
  show ?thesis
  proof (cases "next_dev s ds")
    case (Inl rv)
    then have "rv = ez_errno_hub_enum_end" by (auto simp: next_dev_def Let_def split: if_splits)
    then show ?thesis using h1 r Inl by (subst enum_loop.simps) auto
  next
    case (Inr d)
    obtain h2 where "f d h1 = Some (0, h2)" "up e ds u False h2" "h_requests h2 = h_requests h1 @ g d"
      using assms(2) h1(2) unfolding asks_def by blast
    then show ?thesis using h1 r Inr by (subst enum_loop.simps) auto
  qed
qed

text \<open>The loop after the device \<open>k - 1\<close>: it visits the devices from \<open>k\<close> on.\<close>

definition after :: "subdevs \<Rightarrow> nat \<Rightarrow> string" where
  "after ds k = (if k = 0 then [] else sd_sn (ds ! (k - 1)))"

lemma pos_nth: "distinct (map sd_sn ds) \<Longrightarrow> i < length ds \<Longrightarrow> pos (sd_sn (ds ! i)) ds = Some i"
proof (induction ds arbitrary: i)
  case (Cons d ds)
  then show ?case by (cases i) (auto dest: nth_mem)
qed simp

lemma before_named: "[] \<notin> set (map sd_sn ds) \<Longrightarrow> k \<le> length ds \<Longrightarrow> k = 0 \<or> sd_sn (ds ! (k - 1)) \<noteq> []"
  by (cases k) (auto, metis Suc_le_eq image_eqI nth_mem)

lemma up_asked [simp]: "up e ds u b (asked r h) = up e ds u b h"
  by (simp add: up_def asked_def)

lemma next_after:
  assumes "distinct (map sd_sn ds)" and "k \<le> length ds" and "k = 0 \<or> sd_sn (ds ! (k - 1)) \<noteq> []"
  shows "next_dev (after ds k) ds = (if k < length ds then Inr (ds ! k) else Inl ez_errno_hub_enum_end)"
  using assms pos_nth [OF assms(1), of "k - 1"] by (cases k) (auto simp: next_dev_def after_def)

lemma enum_ends:
  assumes "asks f g (up e ds u False)" and "[] \<notin> set (map sd_sn ds)" and "k \<le> length ds" and "up e ds u False h"
  shows "\<exists>h'. enum_loop f (after ds k) h = Some (0, h') \<and> up e ds u False h' \<and>
    h_requests h' = h_requests h @ concat (map g (drop k ds))"
  using assms(3,4)
proof (induction "length ds - k" arbitrary: k h)
  case (Suc n)
  have n: "next_dev (after ds k) ds = (if k < length ds then Inr (ds ! k) else Inl ez_errno_hub_enum_end)"
    by (rule next_after [OF _ Suc.prems(1) before_named [OF assms(2) Suc.prems(1)]])
      (use Suc.prems(2) in \<open>simp add: up_def good_list_def\<close>)
  have k: "k < length ds" using Suc.hyps(2) by simp
  obtain h1 where h1: "up e ds u False h1" "enum_loop f (after ds k) h = enum_loop f (sd_sn (ds ! k)) h1"
    "h_requests h1 = h_requests h @ g (ds ! k)" using enum_round [OF Suc.prems(2) assms(1), of "after ds k"] n k by auto
  have "\<exists>h'. enum_loop f (after ds (Suc k)) h1 = Some (0, h') \<and> up e ds u False h' \<and>
      h_requests h' = h_requests h1 @ concat (map g (drop (Suc k) ds))"
    using Suc.hyps(2) k h1(1) by (intro Suc.hyps(1)) auto
  then show ?case using h1 k by (simp add: after_def Cons_nth_drop_Suc [symmetric])
next
  case 0
  have n: "next_dev (after ds k) ds = (if k < length ds then Inr (ds ! k) else Inl ez_errno_hub_enum_end)"
    by (rule next_after [OF _ 0(2) before_named [OF assms(2) 0(2)]]) (use 0(3) in \<open>simp add: up_def good_list_def\<close>)
  then show ?case using enum_round [OF 0(3) assms(1), of "after ds k"] 0 by auto
qed

text \<open>A device without a number: the loop starts again at the first one.\<close>

lemma enum_never_ends:
  assumes "enum_loop f s h = Some r" and "j < length ds" and "sd_sn (ds ! j) = []"
  shows "asks f g (up e ds u False) \<Longrightarrow> k \<le> j \<Longrightarrow> s = after ds k \<Longrightarrow> \<not> up e ds u False h"
proof (induction arbitrary: k rule: enum_loop.raw_induct [OF _ assms(1)])
  case (1 loop f s h r k)
  show ?case
  proof
    assume h: "up e ds u False h"
    then have dis: "distinct (map sd_sn ds)" by (simp add: up_def good_list_def)
    have k: "k < length ds" using assms(2) 1(4) by simp
    have "sd_sn (ds ! (k - 1)) \<noteq> []" if "k \<noteq> 0"
    proof
      assume "sd_sn (ds ! (k - 1)) = []"
      then have "pos [] ds = Some (k - 1)" using pos_nth [OF dis, of "k - 1"] k by simp
      moreover have "pos [] ds = Some j" using pos_nth [OF dis assms(2)] assms(3) by simp
      ultimately show False using 1(4) that by simp
    qed
    then have "next_dev s ds = Inr (ds ! k)" using next_after [OF dis, of k] k 1(5) by auto
    then obtain h1 where h1: "hub_subdev_next s h = Some (Inr (ds ! k), h1)" "up e ds u False h1"
      using run_next h unfolding run_def by metis
    obtain h2 where h2: "f (ds ! k) h1 = Some (0, h2)" "up e ds u False h2" using 1(3) h1(2) unfolding asks_def by blast
    have "loop f (sd_sn (ds ! k)) h2 = Some r" using 1(2) h1(1) h2(1) by simp
    moreover have "sd_sn (ds ! k) = after ds (if k < j then Suc k else 0)" "(if k < j then Suc k else 0) \<le> j"
      using 1(4) assms(3) by (auto simp: after_def)
    ultimately show False using 1(1) [OF _ 1(3)] h2(2) by blast
  qed
qed

text \<open>
  C29: Removing the devices from the thing model visits every device once, in the order of the list, and asks for
  the removal of those that were authenticated, unless the number of one of them is the empty text: then the
  enumeration starts again at the first device whenever it has reached that one, and the call never returns.
\<close>

theorem unreg_all_visits:
  assumes "up e ds u False h"
  shows "if [] \<in> set (map sd_sn ds) then hub_tsl_unreg_all h = None
    else \<exists>h'. hub_tsl_unreg_all h = Some (0, h') \<and> up e ds u False h' \<and>
      h_requests h' = h_requests h @ map Tsl_unreg (filter (\<lambda>d. sd_access d \<noteq> 0) ds) @ [Tsl_checkupdate]"
proof -
  let ?f = "\<lambda>d h. Some (0 :: int, if sd_access d = 0 then h else asked (Tsl_unreg d) h)"
  let ?g = "\<lambda>d. if sd_access d = 0 then [] else [Tsl_unreg d]"
  have f: "asks ?f ?g (up e ds u False)" by (auto simp: asks_def) (auto simp: asked_def)
  show ?thesis
  proof (cases "[] \<in> set (map sd_sn ds)")
    case True
    then obtain j where j: "j < length ds" "sd_sn (ds ! j) = []" by (auto simp: in_set_conv_nth)
    have "enum_loop ?f [] h = None"
    proof (rule ccontr)
      assume "enum_loop ?f [] h \<noteq> None"
      then obtain r where "enum_loop ?f [] h = Some r" by auto
      from enum_never_ends [OF this j f, of 0] assms show False by (simp add: after_def)
    qed
    then show ?thesis using True by (simp add: hub_tsl_unreg_all_def)
  next
    case False
    have "concat (map ?g ds) = map Tsl_unreg (filter (\<lambda>d. sd_access d \<noteq> 0) ds)" by (induction ds) auto
    with enum_ends [OF f False _ assms, of 0] obtain h' where h': "enum_loop ?f [] h = Some (0, h')" "up e ds u False h'"
      "h_requests h' = h_requests h @ map Tsl_unreg (filter (\<lambda>d. sd_access d \<noteq> 0) ds)" by (auto simp: after_def)
    then show ?thesis using False by (simp add: hub_tsl_unreg_all_def) (simp add: asked_def)
  qed
qed

lemma unreg_all_visits_witness:
  "(\<exists>h'. hub_tsl_unreg_all (first_hub\<lparr>h_store := text_of_list [lamp\<lparr>sd_access := 1\<rparr>]\<rparr>) = Some (0, h') \<and>
      h_requests h' = [Tsl_unreg (lamp\<lparr>sd_access := 1\<rparr>), Tsl_checkupdate]) \<and>
   hub_tsl_unreg_all (first_hub\<lparr>h_store := text_of_list [lamp, lamp\<lparr>sd_sn := []\<rparr>]\<rparr>) = None"
proof -
  have "up False [lamp\<lparr>sd_access := 1\<rparr>] 0 False (first_hub\<lparr>h_store := text_of_list [lamp\<lparr>sd_access := 1\<rparr>]\<rparr>)"
    "up False [lamp, lamp\<lparr>sd_sn := []\<rparr>] 0 False (first_hub\<lparr>h_store := text_of_list [lamp, lamp\<lparr>sd_sn := []\<rparr>]\<rparr>)"
    using first_hub_up lamp_device
    by (auto simp: up_def good_list_def COMPONENT_HUB_SUBLIST_MAX_def device_def normal_def c_text_def lamp_def)
  note u = this [THEN unreg_all_visits]
  show ?thesis using u by (auto simp: lamp_def first_hub_def)
qed

section \<open>A clean that fails\<close>

text \<open>While the lock is held no function that takes it returns.\<close>

lemma held_lock_blocks:
  assumes l: "h_locked h"
  shows "locked body h = None" "then_report report body h = None" "reporting u h = None" "enum_loop f sn h = None"
    "hub_subdev_query sn h = None" "hub_subdev_next sn h = None"
proof -
  show n: "locked body h = None" for body :: "'b step" by (simp add: locked_def lock_def l)
  show "then_report report body h = None" by (simp add: then_report_def n)
  show "reporting u h = None" by (simp add: reporting_def locked_def lock_def l split: prod.split)
  show s: "hub_subdev_query sn h = None" "hub_subdev_next sn h = None" by (simp_all add: hub_subdev_query_def hub_subdev_next_def n)
  then show "enum_loop f sn h = None" by (simp add: enum_loop.simps [of f])
qed

text \<open>
  C31: When the storage cannot be written, \<open>hub_clean_do\<close> returns with the lock taken.  From then on nothing in the
  module that takes the lock ever returns: none of the five calls that change the list (which include the acceptance of a
  device by the cloud), neither the query nor the enumeration, no further clean, neither report, no registration and no
  removal at the thing model, not the refusal of a device by the cloud, no deinitialisation, no callback of
  the kernel that reports, and not the retry timer while the device is online and devices await authentication; nor, as long as the core
  is initialised, any function of the interface but \<open>ez_iot_hub_init\<close>, of which nothing is said.
\<close>

theorem clean_failure_blocks:
  assumes "hub_clean_do h = Some (rv, h')" and "rv \<noteq> 0"
  shows "rv = ez_errno_hub_storage \<and> h_locked h' \<and> (\<forall>c. hub_exec c h' = None) \<and>
    (\<forall>sn. hub_subdev_query sn h' = None \<and> hub_subdev_next sn h' = None \<and> hub_subdev_auth_failure sn h' = None) \<and>
    hub_clean_do h' = None \<and> hub_subdev_list_report h' = None \<and> hub_subdev_sta_report h' = None \<and>
    hub_tsl_reg_all h' = None \<and> hub_tsl_unreg_all h' = None \<and> hub_tsl_clean h' = None \<and> hub_func_deinit h' = None \<and>
    hub_extend_start_cb h' = None \<and> hub_extend_event_cb sdk_kernel_event_online h' = None \<and>
    hub_extend_event_cb sdk_kernel_event_switchover h' = None \<and>
    (0 < h_unauth_count h' \<and> h_online h' \<longrightarrow> auth_retry_timer_cb h' = None) \<and>
    (h_inited h' \<longrightarrow> ez_iot_hub_clean h' = None \<and> ez_iot_hub_deinit h' = None \<and>
      (\<forall>d sn ver online. ez_iot_hub_add d h' = None \<and> ez_iot_hub_del sn h' = None \<and> ez_iot_hub_ver_update sn ver h' = None \<and>
         ez_iot_hub_status_update sn online h' = None \<and> ez_iot_hub_subdev_query sn h' = None \<and> ez_iot_hub_subdev_next sn h' = None))"
proof -
  have l: "h_locked h'" "rv = ez_errno_hub_storage" using assms
    by (auto simp: hub_clean_do_def kv_set_def kv_access_def andthen_def ret_def leave_def lock_def Let_def
        split: option.splits sum.splits if_splits)
  note b = held_lock_blocks [OF l(1)]
  have ops: "hub_add_do d h' = None" "hub_del_do sn h' = None" "hub_ver_update_do sn ver h' = None"
    "hub_status_update_do sn online h' = None" "hub_subdev_auth_passed sn h' = None" for d sn ver online
    by (simp_all add: hub_add_do_def hub_del_do_def hub_ver_update_do_def hub_status_update_do_def hub_subdev_auth_passed_def b)
  then have "hub_exec c h' = None" for c by (cases c) simp_all
  moreover have reps: "hub_subdev_list_report h' = None" "hub_subdev_sta_report h' = None"
    by (simp_all add: hub_subdev_list_report_def hub_subdev_sta_report_def b)
  moreover have tsl: "hub_tsl_reg_all h' = None" "hub_tsl_unreg_all h' = None" "hub_tsl_clean h' = None"
    using l(1) by (simp_all add: hub_tsl_reg_all_def hub_tsl_unreg_all_def hub_tsl_clean_def held_lock_blocks)
  moreover have cl: "hub_clean_do h' = None" by (simp add: hub_clean_do_def tsl)
  ultimately show ?thesis using l ops
    by (simp add: b hub_subdev_auth_failure_def hub_func_deinit_def hub_extend_start_cb_def hub_extend_event_cb_def auth_retry_timer_cb_def
        ez_iot_hub_clean_def ez_iot_hub_deinit_def ez_iot_hub_add_def ez_iot_hub_del_def ez_iot_hub_ver_update_def
        ez_iot_hub_status_update_def ez_iot_hub_subdev_query_def ez_iot_hub_subdev_next_def if_inited_def del: hub_exec.simps)
qed

lemma clean_failure_blocks_witness:
  "\<exists>h'. hub_clean_do (first_hub\<lparr>h_kv_ok := \<lambda>n. n < 2\<rparr>) = Some (ez_errno_hub_storage, h') \<and> hub_exec (Add lamp) h' = None \<and>
     hub_subdev_query (sd_sn lamp) h' = None \<and> hub_clean_do h' = None \<and> hub_subdev_list_report h' = None \<and>
     hub_subdev_auth_failure (sd_sn lamp) h' = None"
proof -
  have "\<exists>h'. hub_clean_do (first_hub\<lparr>h_kv_ok := \<lambda>n. n < 2\<rparr>) = Some (ez_errno_hub_storage, h')"
    by (simp add: hub_clean_do_def hub_tsl_unreg_all_def hub_tsl_clean_def enum_loop.simps hub_subdev_next_def locked_def lock_def
        load_list_def kv_length_def kv_access_def kv_set_def andthen_def check_not_def ret_def leave_def cleanup_def asked_def
        first_hub_def Let_def)
  then obtain h' where h': "hub_clean_do (first_hub\<lparr>h_kv_ok := \<lambda>n. n < 2\<rparr>) = Some (ez_errno_hub_storage, h')" by blast
  from clean_failure_blocks [OF this] show ?thesis using h' by (auto simp: ez_errno_hub_storage_def simp del: hub_exec.simps)
qed

end
