(* ===== verification/Shadow_Values.thy ===== *)
theory Shadow_Values
  imports Bsc_Build Bsc_Roundtrip
begin

text \<open>
  The values of the shadow (component/shadow/shadow_core.c): what the application and the cloud exchange,
  converted to JSON nodes and back, and the copies of nodes (bscJSON.c) that are sent.
\<close>

section \<open>Copying nodes\<close>

text \<open>The \<open>k\<close> blocks of a node itself, one after the other; those got are given back when one is missing.\<close>

fun grab :: "nat \<Rightarrow> mem \<Rightarrow> bool \<times> mem" where
  "grab 0 m = (True, m)"
| "grab (Suc k) m = (case malloc m of (ok, m1) \<Rightarrow> if \<not> ok then (False, m1)
     else case grab k m1 of (True, m2) \<Rightarrow> (True, m2) | (False, m2) \<Rightarrow> (False, free m2))"

definition free_name :: "bool \<Rightarrow> mem \<Rightarrow> mem" where
  "free_name named m = (if named then free m else m)"

text \<open>
  \<open>bscJSON_Duplicate\<close> with its children.  A child that cannot be copied ends it: the copy made so far, the
  list \<open>acc\<close> of its children included, is deleted.
\<close>

fun bscJSON_Duplicate :: "bool \<Rightarrow> jnode \<Rightarrow> mem \<Rightarrow> jnode option \<times> mem"
  and dup_elements :: "jnode list \<Rightarrow> jnode list \<Rightarrow> mem \<Rightarrow> bool \<times> jnode list \<times> mem"
  and dup_members :: "members \<Rightarrow> members \<Rightarrow> mem \<Rightarrow> bool \<times> members \<times> mem" where
  "bscJSON_Duplicate named (BArray js) m = (case grab (1 + of_bool named) m of
     (False, m1) \<Rightarrow> (None, m1)
   | (True, m1) \<Rightarrow> (case dup_elements js [] m1 of
       (True, js', m2) \<Rightarrow> (Some (BArray js'), m2)
     | (False, js', m2) \<Rightarrow> (None, free_name named (bscJSON_Delete (BArray js') m2))))"
| "bscJSON_Duplicate named (BObject ms) m = (case grab (1 + of_bool named) m of
     (False, m1) \<Rightarrow> (None, m1)
   | (True, m1) \<Rightarrow> (case dup_members ms [] m1 of
       (True, ms', m2) \<Rightarrow> (Some (BObject ms'), m2)
     | (False, ms', m2) \<Rightarrow> (None, free_name named (bscJSON_Delete (BObject ms') m2))))"
| "bscJSON_Duplicate named (BString s) m = (case grab (2 + of_bool named) m of (ok, m1) \<Rightarrow> (if ok then Some (BString s) else None, m1))"
| "bscJSON_Duplicate named (BRaw s) m = (case grab (2 + of_bool named) m of (ok, m1) \<Rightarrow> (if ok then Some (BRaw s) else None, m1))"
| "bscJSON_Duplicate named j m = (case grab (1 + of_bool named) m of (ok, m1) \<Rightarrow> (if ok then Some j else None, m1))"
| "dup_elements [] acc m = (True, acc, m)"
| "dup_elements (j # js) acc m = (case bscJSON_Duplicate False j m of
     (None, m1) \<Rightarrow> (False, acc, m1) | (Some j', m1) \<Rightarrow> dup_elements js (acc @ [j']) m1)"
| "dup_members [] acc m = (True, acc, m)"
| "dup_members ((name, j) # ms) acc m = (case bscJSON_Duplicate True j m of
     (None, m1) \<Rightarrow> (False, acc, m1) | (Some j', m1) \<Rightarrow> dup_members ms (acc @ [(name, j')]) m1)"

lemma live_grab: "grab k m = (ok, m') \<Longrightarrow> live m' = live m + (if ok then int k else 0)"
proof (induction k arbitrary: m m' ok)
  case (Suc k)
  obtain ok1 m1 where m1: "malloc m = (ok1, m1)" "live m1 = live m + (if ok1 then 1 else 0)" by (rule malloc_cases)
  obtain ok2 m2 where m2: "grab k m1 = (ok2, m2)" by force
  then have "live m2 = live m1 + (if ok2 then int k else 0)" by (rule Suc.IH)
  then show ?case using Suc.prems m1 m2 by (auto simp: acct split: if_splits bool.splits)
qed simp

lemma live_grabs: "live (snd (grab k m)) = live m + (if fst (grab k m) then int k else 0)"
  by (rule live_grab) simp

text \<open>A copy is the node, on blocks of its own; one that fails leaves none.\<close>

lemma live_Duplicate:
  "bscJSON_Duplicate named j m = (r, m') \<Longrightarrow> (r = None \<or> r = Some j) \<and>
     live m' = live m + (if r = None then 0 else int (blocks j) + of_bool named)"
  "dup_elements js acc n = (ok, js', n') \<Longrightarrow> live n' = live n + int (sum_list (map blocks js')) - int (sum_list (map blocks acc)) \<and>
     (ok \<longrightarrow> js' = acc @ js)"
  "dup_members ms macc p = (okm, ms', p') \<Longrightarrow> live p' = live p + member_blocks ms' - member_blocks macc \<and> (okm \<longrightarrow> ms' = macc @ ms)"
proof (induction named j m and js acc n and ms macc p arbitrary: r m' and ok js' n' and okm ms' p'
    rule: bscJSON_Duplicate_dup_elements_dup_members.induct)
  case (1 named js m)
  obtain ok1 m1 where m1: "grab (1 + of_bool named) m = (ok1, m1)" by force
  obtain ok2 js2 m2 where m2: "dup_elements js [] m1 = (ok2, js2, m2)" using prod_cases3 by blast
  note live_grab [OF m1]
  moreover have "live m2 = live m1 + int (sum_list (map blocks js2)) \<and> (ok2 \<longrightarrow> js2 = js)" if ok1
    using 1(1) [of ok1 m1] m1 m2 that by auto
  ultimately show ?case using 1(2) m1 m2
    by (cases ok1; cases ok2) (auto simp: acct free_name_def simp del: bscJSON_Delete.simps)
next
  case (2 named ms m)
  obtain ok1 m1 where m1: "grab (1 + of_bool named) m = (ok1, m1)" by force
  obtain ok2 ms2 m2 where m2: "dup_members ms [] m1 = (ok2, ms2, m2)" using prod_cases3 by blast
  note live_grab [OF m1]
  moreover have "live m2 = live m1 + member_blocks ms2 \<and> (ok2 \<longrightarrow> ms2 = ms)" if ok1
    using 2(1) [of ok1 m1] m1 m2 that by auto
  ultimately show ?case using 2(2) m1 m2
    by (cases ok1; cases ok2) (auto simp: acct free_name_def simp del: bscJSON_Delete.simps)
next
  case (7 j js acc m)
  obtain r1 m1 where r1: "bscJSON_Duplicate False j m = (r1, m1)" by force
  show ?case using 7(1) [of r1 m1] 7(2) [of r1 m1] 7(3) r1 by (cases r1) fastforce+
next
  case (9 name j ms acc m)
  obtain r1 m1 where r1: "bscJSON_Duplicate True j m = (r1, m1)" by force
  show ?case using 9(1) [of r1 m1] 9(2) [of r1 m1] 9(3) r1 by (cases r1) fastforce+
qed (auto simp: case_prod_beta live_grabs simp del: grab.simps split: if_splits)

lemma plenty_grab: "plenty m \<Longrightarrow> \<exists>m'. grab k m = (True, m') \<and> plenty m'"
proof (induction k arbitrary: m)
  case (Suc k)
  obtain m1 where "malloc m = (True, m1)" "plenty m1" using plenty_malloc [OF Suc.prems] by blast
  then show ?case using Suc.IH [of m1] by auto
qed simp

lemma plenty_grab_case:
  "plenty m \<Longrightarrow> \<exists>m'. (case grab k m of (ok, m1) \<Rightarrow> (if ok then Some j else None, m1)) = (Some j, m') \<and> plenty m'"
  using plenty_grab [of m k] by auto

lemma duplicate_plenty:
  "plenty m \<Longrightarrow> \<exists>m'. bscJSON_Duplicate named j m = (Some j, m') \<and> plenty m'"
  "plenty n \<Longrightarrow> \<exists>n'. dup_elements js acc n = (True, acc @ js, n') \<and> plenty n'"
  "plenty p \<Longrightarrow> \<exists>p'. dup_members ms macc p = (True, macc @ ms, p') \<and> plenty p'"
proof (induction named j m and js acc n and ms macc p rule: bscJSON_Duplicate_dup_elements_dup_members.induct)
  case (1 named js m)
  obtain m1 where m1: "grab (1 + of_bool named) m = (True, m1)" "plenty m1" using plenty_grab [OF 1(2)] by blast
  then show ?case using 1(1) [OF m1(1) [symmetric]] by auto
next
  case (2 named ms m)
  obtain m1 where m1: "grab (1 + of_bool named) m = (True, m1)" "plenty m1" using plenty_grab [OF 2(2)] by blast
  then show ?case using 2(1) [OF m1(1) [symmetric]] by auto
next
  case (7 j js acc m)
  obtain m1 where m1: "bscJSON_Duplicate False j m = (Some j, m1)" "plenty m1" using 7(1) [OF 7(3)] by blast
  then show ?case using 7(2) [OF m1(1) [symmetric]] by auto
next
  case (9 name j ms acc m)
  obtain m1 where m1: "bscJSON_Duplicate True j m = (Some j, m1)" "plenty m1" using 9(1) [OF 9(3)] by blast
  then show ?case using 9(2) [OF m1(1) [symmetric]] by auto
qed (auto simp: plenty_grab_case simp del: grab.simps)

section \<open>Values\<close>

text \<open>
  The value of a state.  \<open>type\<close> and the member of the union that goes with it are one constructor;
  \<open>shv_word\<close> is the first word of the union before it was written, of which \<open>value_bool\<close> only covers
  the first byte.
\<close>

datatype shd_data =
  Shd_bool bool | Shd_int int | Shd_double double | Shd_string string | Shd_array string | Shd_object string

record ez_iot_shadow_value_t =
  shv_length :: int
  shv_data :: shd_data
  shv_word :: u32

definition value_int_of_bool :: "u32 \<Rightarrow> bool \<Rightarrow> u32" where
  "value_int_of_bool w b = (push_bit 8 (drop_bit 8 w)) + of_bool b"

text \<open>A node with a \<open>double\<close> that is no number, or none of the range of \<open>int\<close>, is undefined as in the parser.\<close>

definition create_double :: "double \<Rightarrow> mem \<Rightarrow> (jnode option \<times> mem) option" where
  "create_double d m = (case saturate d of None \<Rightarrow> None | Some i \<Rightarrow> Some (new_item (BNumber i d) m))"

definition tlv2json :: "ez_iot_shadow_value_t \<Rightarrow> mem \<Rightarrow> (jnode option \<times> mem) option" where
  "tlv2json ptlv m =
     (if shv_length ptlv = 0 then Some (None, m)
      else case shv_data ptlv of
        Shd_bool b \<Rightarrow> Some (bscJSON_CreateBool (value_int_of_bool (shv_word ptlv) b \<noteq> 0) m)
      | Shd_int i \<Rightarrow> Some (bscJSON_CreateNumber i m)
      | Shd_double d \<Rightarrow> create_double d m
      | Shd_string s \<Rightarrow> Some (bscJSON_CreateString (c_str s) m)
      | Shd_array s \<Rightarrow> Some (bscJSON_Parse (c_str s) m)
      | Shd_object s \<Rightarrow> Some (bscJSON_Parse (c_str s) m))"

definition is_double :: "int \<Rightarrow> double \<Rightarrow> bool" where
  "is_double i d \<longleftrightarrow> \<not> (d_le (d_abs (d_minus (d_of_int i) d)) DBL_EPSILON \<and> d_le d (d_of_int INT_MAX) \<and> d_le (d_of_int INT_MIN) d)"

definition zero_tlv :: ez_iot_shadow_value_t where
  "zero_tlv = \<lparr>shv_length = 0, shv_data = Shd_bool False, shv_word = 0\<rparr>"

definition tlv_of :: "int \<Rightarrow> shd_data \<Rightarrow> ez_iot_shadow_value_t" where
  "tlv_of n d = \<lparr>shv_length = n, shv_data = d, shv_word = 0\<rparr>"

definition json2tlv :: "jnode \<Rightarrow> mem \<Rightarrow> (int \<times> ez_iot_shadow_value_t \<times> mem) option" where
  "json2tlv pvalue m =
     (let printed = (\<lambda>mk. case print pvalue False m of
            None \<Rightarrow> None
          | Some (None, m1) \<Rightarrow> Some (- 1, zero_tlv, m1)
          | Some (Some t, m1) \<Rightarrow> Some (0, tlv_of (int (length t)) (mk t), m1))
      in case pvalue of
        BFalse \<Rightarrow> Some (0, tlv_of 4 (Shd_bool False), m)
      | BTrue \<Rightarrow> Some (0, tlv_of 4 (Shd_bool True), m)
      | BNumber i d \<Rightarrow> Some (0, if is_double i d then tlv_of 8 (Shd_double d) else tlv_of 4 (Shd_int i), m)
      | BString s \<Rightarrow> Some (0, tlv_of (int (length s)) (Shd_string s), m)
      | BArray js \<Rightarrow> printed Shd_array
      | BObject ms \<Rightarrow> printed Shd_object
      | _ \<Rightarrow> Some (- 1, zero_tlv, m))"

text \<open>Only the texts of arrays and objects are blocks of the value.\<close>

definition tlv_destroy :: "ez_iot_shadow_value_t \<Rightarrow> mem \<Rightarrow> mem" where
  "tlv_destroy ptlv m = (case shv_data ptlv of Shd_array s \<Rightarrow> free m | Shd_object s \<Rightarrow> free m | _ \<Rightarrow> m)"

text \<open>What a value becomes and back; the empty string is taken for no value.\<close>

lemma value_round_trip:
  assumes "plain bscJSON_NESTING_LIMIT j" and "j \<noteq> BNull" and "plenty m"
    and "int (length (json_text False 0 j)) + 2 < INT_MAX"
  shows "\<exists>v m1 m2. json2tlv j m = Some (0, v, m1) \<and>
    tlv2json v m1 = Some (if j = BString [] then None else Some j, m2) \<and> plenty m2"
proof -
  have f: "fits j" by (rule plain_fits [OF assms(1)])
  obtain m1 where m1: "print j False m = Some (Some (json_text False 0 j), m1)" "plenty m1"
    using print_succeeds [OF f assms(4), of m] assms(3) unfolding plenty_def by blast
  have n: "c_str (json_text False 0 j) = json_text False 0 j" by (rule c_str_id [OF nul_json_text [OF assms(1)]])
  have p: "\<exists>m2. bscJSON_Parse (json_text False 0 j) m1 = (Some j, m2) \<and> plenty m2" if "\<nexists>i x. j = BNumber i x"
    using parse_printed [OF assms(1) m1(2), of "[]" False] that by auto
  have item: "\<exists>m'. new_item x m = (Some x, m') \<and> plenty m'" for x
    using plenty_malloc [OF assms(3)] by (auto simp: new_item_def)
  show ?thesis
  proof (cases j)
    case BFalse
    then show ?thesis using item [of BFalse]
      by (auto simp: json2tlv_def tlv2json_def tlv_of_def value_int_of_bool_def bscJSON_CreateBool_def)
  next
    case BTrue
    then show ?thesis using item [of BTrue]
      by (auto simp: json2tlv_def tlv2json_def tlv_of_def value_int_of_bool_def bscJSON_CreateBool_def)
  next
    case (BNumber i d)
    then have d: "d = d_of_int i" "INT_MIN \<le> i" "i \<le> INT_MAX" using assms(1) by (auto simp: d_of_int_def)
    then have "\<not> is_double i d" by (simp add: is_double_def d_of_int_def d_minus_def DBL_EPSILON_def to_double_def)
    moreover have "bscJSON_CreateNumber i m = new_item (BNumber i (d_of_int i)) m" using d by (auto simp: bscJSON_CreateNumber_def)
    ultimately show ?thesis using item [of "BNumber i d"] BNumber d(1)
      by (auto simp: json2tlv_def tlv2json_def tlv_of_def)
  next
    case (BString s)
    then have c: "c_str s = s" using assms(1) by (simp add: c_str_id)
    obtain m2 m3 where "malloc m = (True, m2)" "malloc m2 = (True, m3)" "plenty m3"
      using plenty_malloc [OF assms(3)] plenty_malloc by blast
    then show ?thesis using BString c assms(3)
      by (auto simp: json2tlv_def tlv2json_def tlv_of_def bscJSON_CreateString_def)
  next
    case (BArray js)
    then have "json_text False 0 j \<noteq> []" by simp
    then show ?thesis using BArray m1 n p by (auto simp: json2tlv_def tlv2json_def tlv_of_def simp del: json_text.simps)
  next
    case (BObject ms)
    then have "json_text False 0 j \<noteq> []" by simp
    then show ?thesis using BObject m1 n p by (auto simp: json2tlv_def tlv2json_def tlv_of_def simp del: json_text.simps)
  qed (use assms in auto)
qed

lemma saturate_range: "saturate d = Some i \<Longrightarrow> INT_MIN \<le> i \<and> i \<le> INT_MAX"
  by (cases d) (auto simp: saturate_def INT_MIN_def INT_MAX_def Let_def split: if_splits)

text \<open>
  What comes back: a number is a \<open>double\<close> on the way when it differs from its integer part by more than \<open>DBL_EPSILON\<close>
  or is none of the range of \<open>int\<close>, and its integer part otherwise; the empty string is taken for no value.
\<close>

definition comes_back :: "jnode \<Rightarrow> jnode option" where
  "comes_back j = (case j of BString [] \<Rightarrow> None
     | BNumber i d \<Rightarrow> Some (BNumber i (if is_double i d then d else d_of_int i)) | _ \<Rightarrow> Some j)"

lemma number_round_trip:
  assumes "saturate d = Some i" and "plenty m"
  shows "\<exists>v m2. json2tlv (BNumber i d) m = Some (0, v, m) \<and> tlv2json v m = Some (comes_back (BNumber i d), m2)"
proof -
  obtain m1 where m1: "malloc m = (True, m1)" using plenty_malloc [OF assms(2)] by blast
  have r: "INT_MIN \<le> i" "i \<le> INT_MAX" using saturate_range [OF assms(1)] by auto
  show ?thesis
  proof (cases "is_double i d")
    case True
    then show ?thesis using m1 assms(1)
      by (simp add: json2tlv_def tlv2json_def tlv_of_def create_double_def new_item_def comes_back_def)
  next
    case False
    then show ?thesis using m1 r
      by (auto simp: json2tlv_def tlv2json_def tlv_of_def bscJSON_CreateNumber_def new_item_def comes_back_def)
  qed
qed

lemma plain_comes_back: "plain k j \<Longrightarrow> comes_back j = (if j = BString [] then None else Some j)"
  by (cases j) (auto simp: comes_back_def d_of_int_def split: list.split)

end
