(* ===== verification/Shadow_Core.thy ===== *)
theory Shadow_Core
  imports Shadow_Values Das_Codec Types
begin

text \<open>
  component/shadow/shadow_core.c, shadow_func.c, shadow.c and shadow_extern.c: the shadow keeps the state of the device in the
  cloud.  The properties are registered in a tree (device, resource type, index, domain, key); a thread reports
  those that changed, asks the cloud for the state it desires and hands that to the device.
\<close>

section \<open>The tree\<close>

datatype shadow_core_status_e =
  shadow_core_status_report | shadow_core_status_sync | shadow_core_status_chg | shadow_core_status_max

datatype shadow_prot_ver_e = shadow_prot_ver_min | shadow_prot_ver_1 | shadow_prot_ver_2 | shadow_prot_ver_3 | shadow_prot_ver_max

text \<open>The linked lists are lists; a timer is a block and the time it expires at; callbacks are numbers.\<close>

type_synonym timer = "nat option"

record node_key_t =
  nk_key :: string
  nk_cloud2dev :: "nat option"
  nk_dev2cloud :: "nat option"
  nk_stat_ver :: u32
  nk_need_report :: bool
  nk_timer :: timer
  nk_msg_seq :: u32
  nk_json_value :: "jnode option"

record node_domain_t =
  nd_prot_ver :: shadow_prot_ver_e
  nd_domain_string :: string
  nd_key_lst :: "node_key_t list"

record node_index_t =
  ni_index :: int
  ni_need_sync :: bool
  ni_timer :: timer
  ni_retry_count :: u8
  ni_domain_lst :: "node_domain_t list"

record node_index_set_t =
  ns_type :: string
  ns_index_lst :: "node_index_t list"

record node_dev_t =
  nv_dev_sn :: string
  nv_type_lst :: "node_index_set_t list"

definition shadow_default_name :: string where "shadow_default_name = ''global''"
definition MINIIMUM_RETRY_INTERVAL :: nat where "MINIIMUM_RETRY_INTERVAL = 60 * 1000"
definition MAXIMUM_RETRY_TIMES :: nat where "MAXIMUM_RETRY_TIMES = 3"

section \<open>State\<close>

text \<open>A resource as the callbacks and the cloud see it: device, type and index.\<close>

type_synonym res = "string \<times> string \<times> int"

text \<open>What the module asked of the outside, with the sequence number the kernel gave to a report.\<close>

datatype shadow_out =
  Out_report res string string u32 string "u32 option"
| Out_query res
| Out_set_reply res int u32
| Out_to_dev nat res "string option" "string option" shd_data
| Out_ask nat res string string

text \<open>
  The environment: the serial number of the device, what the callbacks answer, whether the kernel takes a
  message and the number it gives it, and the time.  \<open>g_p2c_buf\<close> is the address of the buffer the callbacks write to.
\<close>

record shadow =
  g_shadow_modules :: "node_dev_t list"
  g_shadow_status :: shadow_core_status_e
  g_need_reset :: bool
  g_need_report :: bool
  g_need_sync :: bool
  g_running :: bool
  g_sem :: bool
  g_shadow_thread :: bool
  shadow_ucInit :: bool
  g_p2c_buf :: "u32 option"
  s_posts :: nat
  s_mem :: mem
  s_now :: nat
  s_serial :: string
  s_dev2cloud :: "nat \<Rightarrow> nat \<Rightarrow> (int \<times> shd_data) option"
  s_cloud2dev :: "nat \<Rightarrow> nat \<Rightarrow> int"
  s_send :: "nat \<Rightarrow> u32 option"
  s_out :: "shadow_out list"

definition logged :: "shadow_out \<Rightarrow> shadow \<Rightarrow> shadow" where
  "logged r s = s\<lparr>s_out := s_out s @ [r]\<rparr>"

definition upd_mem :: "(mem \<Rightarrow> mem) \<Rightarrow> shadow \<Rightarrow> shadow" where
  "upd_mem f s = s\<lparr>s_mem := f (s_mem s)\<rparr>"

section \<open>Timers\<close>

definition hal_timer_destroy :: "timer \<Rightarrow> mem \<Rightarrow> mem" where
  "hal_timer_destroy t m = (case t of None \<Rightarrow> m | Some e \<Rightarrow> free m)"

text \<open>A timer created and started; none when there is no memory for it.\<close>

definition start_timer :: "nat \<Rightarrow> shadow \<Rightarrow> timer \<times> shadow" where
  "start_timer interval s = (case malloc (s_mem s) of (ok, m) \<Rightarrow>
     (if ok then Some (s_now s + interval) else None, s\<lparr>s_mem := m\<rparr>))"

definition hal_time_isexpired :: "nat \<Rightarrow> shadow \<Rightarrow> bool" where
  "hal_time_isexpired e s = (e \<le> s_now s)"

section \<open>Messages to the cloud\<close>

text \<open>
  \<open>ezDevSDK_Shadow_Report_v3\<close> takes the node of the value and returns a sequence number or fails; a missing value,
  like every member there is no memory for, is left out.
\<close>

definition ezDevSDK_Shadow_Report_v3 ::
  "res \<Rightarrow> string \<Rightarrow> string \<Rightarrow> jnode option \<Rightarrow> u32 \<Rightarrow> shadow \<Rightarrow> (u32 option \<times> shadow) option" where
  "ezDevSDK_Shadow_Report_v3 r domain key json_value ver s =
     (case bscJSON_CreateObject (s_mem s) of (js_root, m1) \<Rightarrow>
      case bscJSON_CreateObject m1 of (state, m2) \<Rightarrow>
      case bscJSON_CreateObject m2 of (reported, m3) \<Rightarrow>
        if js_root = None \<or> state = None \<or> reported = None
        then Some (None, s\<lparr>s_mem := delete_opt js_root (delete_opt json_value m3)\<rparr>)
        else
          (case bscJSON_AddStringToObject ''identifier'' key (bscJSON_AddStringToObject ''domain'' domain ([], m3)) of (rep, m4) \<Rightarrow>
           case add_item_to_object rep ''value'' json_value m4 of (_, rep, m5) \<Rightarrow>
           case add_item_to_object [] ''reported'' (Some (BObject rep)) m5 of (_, st, m6) \<Rightarrow>
           case bscJSON_AddNumberToObject ''version'' (uint ver) (st, m6) of (st, m7) \<Rightarrow>
           case bscJSON_AddNumberToObject ''spv'' 3 (bscJSON_AddStringToObject ''method'' ''report'' ([], m7)) of (rt, m8) \<Rightarrow>
           case add_item_to_object rt ''state'' (Some (BObject st)) m8 of (_, rt, m9) \<Rightarrow>
             (case print (BObject rt) False m9 of
                None \<Rightarrow> None
              | Some (None, m10) \<Rightarrow> Some (None, s\<lparr>s_mem := bscJSON_Delete (BObject rt) m10\<rparr>)
              | Some (Some t, m10) \<Rightarrow>
                  (let seq = s_send s (length (s_out s)) in
                   Some (seq, logged (Out_report r domain key ver t seq)
                     (s\<lparr>s_mem := free (bscJSON_Delete (BObject rt) m10)\<rparr>))))))"

text \<open>The query and the answer to a command; their texts have no variable part but the code.\<close>

definition Shadow_QuerySyncListToPlt_v3 :: "res \<Rightarrow> shadow \<Rightarrow> int \<times> shadow" where
  "Shadow_QuerySyncListToPlt_v3 r s = (if s_send s (length (s_out s)) = None then - 1 else 0, logged (Out_query r) s)"

definition Shadow_Set_Reply_v3 :: "res \<Rightarrow> int \<Rightarrow> u32 \<Rightarrow> shadow \<Rightarrow> shadow" where
  "Shadow_Set_Reply_v3 r rv seq s = logged (Out_set_reply r rv seq) s"

section \<open>Walking through the tree\<close>

text \<open>A loop that changes the nodes and may leave; the second one never leaves.\<close>

fun walk_nodes :: "('n \<Rightarrow> 's \<Rightarrow> (bool \<times> 'n \<times> 's) option) \<Rightarrow> 'n list \<Rightarrow> 's \<Rightarrow> (bool \<times> 'n list \<times> 's) option" where
  "walk_nodes f [] s = Some (True, [], s)"
| "walk_nodes f (n # ns) s = (case f n s of
     None \<Rightarrow> None
   | Some (False, n1, s1) \<Rightarrow> Some (False, n1 # ns, s1)
   | Some (True, n1, s1) \<Rightarrow> map_option (\<lambda>(go, ns1, s2). (go, n1 # ns1, s2)) (walk_nodes f ns s1))"

fun visit :: "('n \<Rightarrow> 's \<Rightarrow> 'n \<times> 's) \<Rightarrow> 'n list \<Rightarrow> 's \<Rightarrow> 'n list \<times> 's" where
  "visit f [] s = ([], s)"
| "visit f (n # ns) s = (case f n s of (n1, s1) \<Rightarrow> case visit f ns s1 of (ns1, s2) \<Rightarrow> (n1 # ns1, s2))"

text \<open>The keys of the tree in order, each with its resource and domain.\<close>

definition walk_keys ::
  "(res \<Rightarrow> string \<Rightarrow> node_key_t \<Rightarrow> 's \<Rightarrow> (bool \<times> node_key_t \<times> 's) option) \<Rightarrow> node_dev_t list \<Rightarrow> 's \<Rightarrow> (bool \<times> node_dev_t list \<times> 's) option" where
  "walk_keys f = walk_nodes (\<lambda>dev s. map_option (\<lambda>(go, l, s1). (go, dev\<lparr>nv_type_lst := l\<rparr>, s1))
     (walk_nodes (\<lambda>set s. map_option (\<lambda>(go, l, s1). (go, set\<lparr>ns_index_lst := l\<rparr>, s1))
        (walk_nodes (\<lambda>idx s. map_option (\<lambda>(go, l, s1). (go, idx\<lparr>ni_domain_lst := l\<rparr>, s1))
           (walk_nodes (\<lambda>dom s. map_option (\<lambda>(go, l, s1). (go, dom\<lparr>nd_key_lst := l\<rparr>, s1))
              (walk_nodes (f (nv_dev_sn dev, ns_type set, ni_index idx) (nd_domain_string dom)) (nd_key_lst dom) s))
            (ni_domain_lst idx) s))
         (ns_index_lst set) s))
      (nv_type_lst dev) s))"

text \<open>The indices of the tree; leaving the loop over the indices of a type goes on with the next type.\<close>

definition walk_indices ::
  "(res \<Rightarrow> node_index_t \<Rightarrow> 's \<Rightarrow> bool \<times> node_index_t \<times> 's) \<Rightarrow> node_dev_t list \<Rightarrow> 's \<Rightarrow> node_dev_t list \<times> 's" where
  "walk_indices f = visit (\<lambda>dev s. map_prod (\<lambda>l. dev\<lparr>nv_type_lst := l\<rparr>) id
     (visit (\<lambda>set s. case walk_nodes (\<lambda>idx s. Some (f (nv_dev_sn dev, ns_type set, ni_index idx) idx s)) (ns_index_lst set) s of
          None \<Rightarrow> (set, s)
        | Some (_, l, s1) \<Rightarrow> (set\<lparr>ns_index_lst := l\<rparr>, s1))
      (nv_type_lst dev) s))"

section \<open>Reporting\<close>

text \<open>
  \<open>do_report\<close>: -1 when it failed, 1 while the answer to a report is awaited, 0 otherwise.  Its parameter structures are
  what the callbacks get to see of the resource.
\<close>

text \<open>The value to report: the one that was pushed, copied, or what the callback \<open>dev2cloud\<close> writes into the buffer.\<close>

datatype to_report = Report_value "jnode option" | Report_nothing | Report_failed

definition value_to_report :: "res \<Rightarrow> string \<Rightarrow> node_key_t \<Rightarrow> shadow \<Rightarrow> (to_report \<times> shadow) option" where
  "value_to_report r domain k s =
     (case nk_json_value k of
        Some j \<Rightarrow> (case bscJSON_Duplicate False j (s_mem s) of (j', m) \<Rightarrow> Some (Report_value j', s\<lparr>s_mem := m\<rparr>))
      | None \<Rightarrow> (case nk_dev2cloud k of
          None \<Rightarrow> Some (Report_nothing, s)
        | Some cb \<Rightarrow> (case g_p2c_buf s of
            None \<Rightarrow> Some (Report_failed, s)
          | Some buf \<Rightarrow>
              (let s1 = logged (Out_ask cb r domain (nk_key k)) s in
               case s_dev2cloud s cb (length (s_out s)) of
                 None \<Rightarrow> Some (Report_nothing, s1)
               | Some (n, d) \<Rightarrow>
                   (case tlv2json \<lparr>shv_length = n, shv_data = d, shv_word = buf\<rparr> (s_mem s1) of
                      None \<Rightarrow> None
                    | Some (None, m) \<Rightarrow> Some (Report_failed, s1\<lparr>s_mem := m\<rparr>)
                    | Some (Some j, m) \<Rightarrow> Some (Report_value (Some j), s1\<lparr>s_mem := m\<rparr>))))))"

definition do_report :: "res \<Rightarrow> string \<Rightarrow> node_key_t \<Rightarrow> shadow \<Rightarrow> (int \<times> node_key_t \<times> shadow) option" where
  "do_report r domain k s =
     (if \<not> nk_need_report k then Some (0, k, s)
      else if case nk_timer k of None \<Rightarrow> False | Some e \<Rightarrow> \<not> hal_time_isexpired e s then Some (1, k, s)
      else
        (let s1 = upd_mem (hal_timer_destroy (nk_timer k)) s; k1 = k\<lparr>nk_timer := None\<rparr> in
         case value_to_report r domain k1 s1 of
           None \<Rightarrow> None
         | Some (Report_nothing, s2) \<Rightarrow> Some (0, k1\<lparr>nk_need_report := False\<rparr>, s2)
         | Some (Report_failed, s2) \<Rightarrow> Some (- 1, k1, s2)
         | Some (Report_value j, s2) \<Rightarrow>
             (case ezDevSDK_Shadow_Report_v3 r domain (nk_key k) j (nk_stat_ver k) s2 of
                None \<Rightarrow> None
              | Some (None, s3) \<Rightarrow> Some (- 1, k1, s3)
              | Some (Some seq, s3) \<Rightarrow> (case start_timer MINIIMUM_RETRY_INTERVAL s3 of (t, s4) \<Rightarrow>
                  Some (0, k1\<lparr>nk_msg_seq := seq, nk_timer := t\<rparr>, s4)))))"

text \<open>The loop counts the keys whose answer is awaited and stops at the first failure.\<close>

definition report_key ::
  "res \<Rightarrow> string \<Rightarrow> node_key_t \<Rightarrow> nat \<times> shadow \<Rightarrow> (bool \<times> node_key_t \<times> nat \<times> shadow) option" where
  "report_key r domain k ns = (case ns of (n, s) \<Rightarrow>
     map_option (\<lambda>(rv, k1, s1). (rv \<noteq> - 1, k1, if rv = 1 then n + 1 else n, s1)) (do_report r domain k s))"

definition shadow_proc_report :: "shadow \<Rightarrow> (int \<times> shadow) option" where
  "shadow_proc_report s = (case walk_keys report_key (g_shadow_modules s) (0, s) of
     None \<Rightarrow> None
   | Some (go, ms, n, s1) \<Rightarrow>
       Some (if \<not> go then - 1 else if n \<noteq> 0 then 1 else 0, s1\<lparr>g_shadow_modules := ms\<rparr>))"

definition shadow_proc_chg :: "shadow \<Rightarrow> (int \<times> shadow) option" where
  "shadow_proc_chg = shadow_proc_report"

section \<open>Asking for the desired state\<close>

text \<open>The state of the loop: the keys awaited, the result so far.\<close>

definition sync_index :: "res \<Rightarrow> node_index_t \<Rightarrow> nat \<times> int \<times> shadow \<Rightarrow> bool \<times> node_index_t \<times> nat \<times> int \<times> shadow" where
  "sync_index r i ns = (case ns of (n, rv, s) \<Rightarrow>
     if \<not> ni_need_sync i then (True, i, n, rv, s)
     else if case ni_timer i of None \<Rightarrow> False | Some e \<Rightarrow> \<not> hal_time_isexpired e s then (True, i, n + 1, rv, s)
     else
       (let s1 = upd_mem (hal_timer_destroy (ni_timer i)) s;
            i1 = i\<lparr>ni_timer := None, ni_retry_count := ni_retry_count i + 1\<rparr>
        in if MAXIMUM_RETRY_TIMES < unat (ni_retry_count i1)
           then (True, i1\<lparr>ni_retry_count := 0, ni_need_sync := False\<rparr>, n, rv, s1)
           else (case Shadow_QuerySyncListToPlt_v3 r s1 of (q, s2) \<Rightarrow>
             if q \<noteq> 0 then (False, i1, n, - 1, s2)
             else (case start_timer MINIIMUM_RETRY_INTERVAL s2 of (t, s3) \<Rightarrow> (True, i1\<lparr>ni_timer := t\<rparr>, n + 1, rv, s3)))))"

definition shadow_proc_sync :: "shadow \<Rightarrow> int \<times> shadow" where
  "shadow_proc_sync s = (case walk_indices sync_index (g_shadow_modules s) (0, 0, s) of
     (ms, n, rv, s1) \<Rightarrow> (if n \<noteq> 0 then 1 else rv, s1\<lparr>g_shadow_modules := ms\<rparr>))"

section \<open>The status of the module\<close>

definition reset_key :: "node_key_t \<Rightarrow> mem \<Rightarrow> node_key_t \<times> mem" where
  "reset_key k m = (k\<lparr>nk_need_report := True, nk_timer := None\<rparr>, hal_timer_destroy (nk_timer k) m)"

definition reset_index :: "node_index_t \<Rightarrow> mem \<Rightarrow> node_index_t \<times> mem" where
  "reset_index i m =
     (case visit (\<lambda>dom m. map_prod (\<lambda>l. dom\<lparr>nd_key_lst := l\<rparr>) id (visit reset_key (nd_key_lst dom) m))
        (ni_domain_lst i) (hal_timer_destroy (ni_timer i) m) of
        (l, m1) \<Rightarrow> (i\<lparr>ni_need_sync := True, ni_timer := None, ni_domain_lst := l\<rparr>, m1))"

definition shadow_status_reset :: "shadow \<Rightarrow> shadow" where
  "shadow_status_reset s =
     (case visit (\<lambda>dev m. map_prod (\<lambda>l. dev\<lparr>nv_type_lst := l\<rparr>) id
        (visit (\<lambda>set m. map_prod (\<lambda>l. set\<lparr>ns_index_lst := l\<rparr>) id (visit reset_index (ns_index_lst set) m)) (nv_type_lst dev) m))
        (g_shadow_modules s) (s_mem s) of
        (ms, m) \<Rightarrow> s\<lparr>g_shadow_modules := ms, s_mem := m\<rparr>)"

definition shadow_status2sync :: "shadow \<Rightarrow> shadow" where
  "shadow_status2sync s =
     (case walk_indices (\<lambda>r i m. (True, i\<lparr>ni_need_sync := True, ni_timer := None, ni_retry_count := 0\<rparr>, hal_timer_destroy (ni_timer i) m))
        (g_shadow_modules s) (s_mem s) of
        (ms, m) \<Rightarrow> s\<lparr>g_shadow_modules := ms, s_mem := m\<rparr>)"

definition check_status_update :: "shadow \<Rightarrow> shadow" where
  "check_status_update s =
     (let s1 = (if g_need_reset s then shadow_status_reset s else if g_need_sync s then shadow_status2sync s else s)
      in if g_need_reset s \<or> g_need_sync s \<or> g_need_report s
         then s1\<lparr>g_need_reset := False, g_need_sync := False, g_need_report := False, g_shadow_status := shadow_core_status_report\<rparr>
         else s)"

fun next_status :: "shadow_core_status_e \<Rightarrow> shadow_core_status_e" where
  "next_status shadow_core_status_report = shadow_core_status_sync"
| "next_status shadow_core_status_sync = shadow_core_status_chg"
| "next_status st = st"

text \<open>The status is advanced in the argument of a log message, which is evaluated.\<close>

definition shadow_proc_do :: "shadow \<Rightarrow> (int \<times> shadow) option" where
  "shadow_proc_do s0 =
     (let s = check_status_update s0 in
      case (case g_shadow_status s of
              shadow_core_status_report \<Rightarrow> shadow_proc_report s
            | shadow_core_status_sync \<Rightarrow> Some (shadow_proc_sync s)
            | shadow_core_status_chg \<Rightarrow> shadow_proc_chg s
            | shadow_core_status_max \<Rightarrow> Some (- 1, s)) of
        None \<Rightarrow> None
      | Some (ret, s1) \<Rightarrow>
          Some (if ret = 0 \<and> next_status (g_shadow_status s1) \<noteq> g_shadow_status s1
                then (2, s1\<lparr>g_shadow_status := next_status (g_shadow_status s1)\<rparr>) else (ret, s1)))"

text \<open>
  One round of the thread with the result of the round before.  After a zero it waits for the semaphore; a round with
  nothing posted is one that has waited the longest time.
\<close>

definition shadow_core_round :: "bool \<Rightarrow> int \<Rightarrow> shadow \<Rightarrow> (int \<times> shadow) option" where
  "shadow_core_round online proc_result s =
     (if \<not> online then Some (proc_result, s)
      else shadow_proc_do (if proc_result \<noteq> 0 then s
        else if s_posts s = 0 then shadow_status_reset s else s\<lparr>s_posts := s_posts s - 1\<rparr>))"

datatype shadow_event_type_e =
  shadow_event_type_reset | shadow_event_type_add | shadow_event_type_online | shadow_event_type_offline
| shadow_event_type_report | shadow_event_type_recv

definition shadow_core_event_occured :: "shadow_event_type_e \<Rightarrow> shadow \<Rightarrow> shadow" where
  "shadow_core_event_occured ev s =
     (let s1 = (case ev of
            shadow_event_type_reset \<Rightarrow> s\<lparr>g_need_reset := True\<rparr>
          | shadow_event_type_add \<Rightarrow> s\<lparr>g_need_report := True\<rparr>
          | shadow_event_type_online \<Rightarrow> s\<lparr>g_need_report := True\<rparr>
          | shadow_event_type_offline \<Rightarrow> s\<lparr>g_need_sync := True\<rparr>
          | shadow_event_type_report \<Rightarrow> if g_shadow_status s = shadow_core_status_sync then s\<lparr>g_need_report := True\<rparr> else s
          | shadow_event_type_recv \<Rightarrow> s)
      in if g_running s1 \<and> g_sem s1 then s1\<lparr>s_posts := s_posts s1 + 1\<rparr> else s1)"

section \<open>Registering properties\<close>

record ez_iot_shadow_business_t =
  sb_key :: string
  sb_business2dev :: "nat option"
  sb_business2cloud :: "nat option"

fun find_pos :: "('n \<Rightarrow> bool) \<Rightarrow> 'n list \<Rightarrow> nat option" where
  "find_pos p [] = None"
| "find_pos p (n # ns) = (if p n then Some 0 else map_option Suc (find_pos p ns))"

text \<open>The node that is looked for, or \<open>new\<close> at the end when there is none and memory for it.\<close>

definition in_node ::
  "('n \<Rightarrow> bool) \<Rightarrow> 'n \<Rightarrow> ('n \<Rightarrow> mem \<Rightarrow> (int \<times> 'n \<times> mem) option) \<Rightarrow> 'n list \<Rightarrow> mem \<Rightarrow> (int \<times> 'n list \<times> mem) option" where
  "in_node p new f ns m =
     (case find_pos p ns of
        Some i \<Rightarrow> map_option (\<lambda>(rv, n1, m1). (rv, ns[i := n1], m1)) (f (ns ! i) m)
      | None \<Rightarrow> (case malloc m of (ok, m1) \<Rightarrow>
          if \<not> ok then Some (- 1, ns, m1)
          else map_option (\<lambda>(rv, n1, m2). (rv, ns @ [n1], m2)) (f new m1)))"

text \<open>The node of a key is not tested: without memory the behaviour is undefined.\<close>

fun add_keys :: "ez_iot_shadow_business_t list \<Rightarrow> node_key_t list \<Rightarrow> mem \<Rightarrow> (node_key_t list \<times> mem) option" where
  "add_keys [] ks m = Some (ks, m)"
| "add_keys (b # bs) ks m =
     (case find_pos (\<lambda>k. nk_key k = sb_key b) ks of
        Some i \<Rightarrow> add_keys bs (ks[i := (ks ! i)\<lparr>nk_cloud2dev := sb_business2dev b, nk_dev2cloud := sb_business2cloud b,
                     nk_need_report := True\<rparr>]) m
      | None \<Rightarrow> (case malloc m of (ok, m1) \<Rightarrow>
          if \<not> ok then None
          else add_keys bs (ks @ [\<lparr>nk_key = strncpy0 31 (sb_key b), nk_cloud2dev = sb_business2dev b,
            nk_dev2cloud = sb_business2cloud b, nk_stat_ver = 0, nk_need_report = True, nk_timer = None, nk_msg_seq = 0,
            nk_json_value = None\<rparr>]) m1))"

definition shadow_module_add_domain ::
  "string \<Rightarrow> ez_iot_shadow_business_t list \<Rightarrow> shadow_prot_ver_e \<Rightarrow> node_domain_t list \<Rightarrow> mem \<Rightarrow> (int \<times> node_domain_t list \<times> mem) option" where
  "shadow_module_add_domain domain_id props ver lst m =
     (if props = [] then Some (- 1, lst, m)
      else in_node (\<lambda>d. nd_domain_string d = domain_id)
        \<lparr>nd_prot_ver = ver, nd_domain_string = strncpy0 31 domain_id, nd_key_lst = []\<rparr>
        (\<lambda>d m. map_option (\<lambda>(ks, m1). (0, d\<lparr>nd_key_lst := ks\<rparr>, m1)) (add_keys props (nd_key_lst d) m)) lst m)"

definition dev_name :: "string \<Rightarrow> shadow \<Rightarrow> string" where
  "dev_name sn s = (if s_serial s = sn then shadow_default_name else sn)"

definition new_set :: "string \<Rightarrow> node_index_set_t" where
  "new_set res_type = \<lparr>ns_type = strncpy0 31 (if res_type = [] then shadow_default_name else res_type), ns_index_lst = []\<rparr>"

definition new_index :: "int \<Rightarrow> node_index_t" where
  "new_index index = \<lparr>ni_index = index, ni_need_sync = True, ni_timer = None, ni_retry_count = 0, ni_domain_lst = []\<rparr>"

definition shadow_core_module_addv3 ::
  "string \<Rightarrow> string \<Rightarrow> int \<Rightarrow> string \<Rightarrow> ez_iot_shadow_business_t list \<Rightarrow> shadow \<Rightarrow> (int \<times> shadow) option" where
  "shadow_core_module_addv3 sn res_type index domain_id props s =
     map_option (\<lambda>(rv, ms, m). (rv, s\<lparr>g_shadow_modules := ms, s_mem := m\<rparr>))
       (in_node (\<lambda>d. nv_dev_sn d = dev_name sn s) \<lparr>nv_dev_sn = strncpy0 47 (dev_name sn s), nv_type_lst = []\<rparr>
         (\<lambda>d m. map_option (\<lambda>(rv, l, m). (rv, d\<lparr>nv_type_lst := l\<rparr>, m))
           (in_node (\<lambda>t. ns_type t = res_type) (new_set res_type)
             (\<lambda>t m. map_option (\<lambda>(rv, l, m). (rv, t\<lparr>ns_index_lst := l\<rparr>, m))
               (in_node (\<lambda>i. ni_index i = index) (new_index index)
                 (\<lambda>i m. map_option (\<lambda>(rv, l, m). (rv, i\<lparr>ni_domain_lst := l\<rparr>, m))
                   (shadow_module_add_domain domain_id props shadow_prot_ver_3 (ni_domain_lst i) m))
                 (ns_index_lst t) m))
             (nv_type_lst d) m))
         (g_shadow_modules s) (s_mem s))"

section \<open>Changed properties\<close>

definition at_node ::
  "('n \<Rightarrow> bool) \<Rightarrow> ('n \<Rightarrow> mem \<Rightarrow> (int \<times> 'n \<times> mem) option) \<Rightarrow> 'n list \<Rightarrow> mem \<Rightarrow> (int \<times> 'n list \<times> mem) option" where
  "at_node p f ns m = (case find_pos p ns of
     None \<Rightarrow> Some (- 1, ns, m)
   | Some i \<Rightarrow> map_option (\<lambda>(rv, n1, m1). (rv, ns[i := n1], m1)) (f (ns ! i) m))"

definition change_key :: "ez_iot_shadow_value_t option \<Rightarrow> node_key_t \<Rightarrow> mem \<Rightarrow> (int \<times> node_key_t \<times> mem) option" where
  "change_key pvalue k m =
     (let m1 = delete_opt (nk_json_value k) (hal_timer_destroy (nk_timer k) m);
          k1 = k\<lparr>nk_timer := None, nk_stat_ver := nk_stat_ver k + 1, nk_need_report := True, nk_msg_seq := 0, nk_json_value := None\<rparr>
      in case pvalue of None \<Rightarrow> Some (0, k1, m1)
         | Some v \<Rightarrow> map_option (\<lambda>(j, m2). (0, k1\<lparr>nk_json_value := j\<rparr>, m2)) (tlv2json v m1))"

definition shadow_core_propertie_changed ::
  "string \<Rightarrow> string \<Rightarrow> int \<Rightarrow> string \<Rightarrow> string \<Rightarrow> ez_iot_shadow_value_t option \<Rightarrow> shadow \<Rightarrow> (int \<times> shadow) option" where
  "shadow_core_propertie_changed sn res_type index domain_id pkey pvalue s =
     map_option (\<lambda>(rv, ms, m). (rv, s\<lparr>g_shadow_modules := ms, s_mem := m\<rparr>))
       (at_node (\<lambda>d. nv_dev_sn d = dev_name sn s)
         (\<lambda>d m. map_option (\<lambda>(rv, l, m). (rv, d\<lparr>nv_type_lst := l\<rparr>, m))
           (at_node (\<lambda>t. ns_type t = res_type)
             (\<lambda>t m. map_option (\<lambda>(rv, l, m). (rv, t\<lparr>ns_index_lst := l\<rparr>, m))
               (at_node (\<lambda>i. ni_index i = index)
                 (\<lambda>i m. map_option (\<lambda>(rv, l, m). (rv, i\<lparr>ni_domain_lst := l\<rparr>, m))
                   (at_node (\<lambda>o'. nd_domain_string o' = domain_id)
                     (\<lambda>o' m. map_option (\<lambda>(rv, l, m). (rv, o'\<lparr>nd_key_lst := l\<rparr>, m))
                       (at_node (\<lambda>k. nk_key k = pkey) (change_key pvalue) (nd_key_lst o') m))
                     (ni_domain_lst i) m))
                 (ns_index_lst t) m))
             (nv_type_lst d) m))
         (g_shadow_modules s) (s_mem s))"

section \<open>The interface\<close>

definition ez_iot_shadow_register_v3 ::
  "res \<Rightarrow> string \<Rightarrow> ez_iot_shadow_business_t list \<Rightarrow> shadow \<Rightarrow> (int \<times> shadow) option" where
  "ez_iot_shadow_register_v3 pres domain_id business s = (case pres of (sn, ty, i) \<Rightarrow>
     map_option (\<lambda>(rv, s1). (rv, if rv = 0 then shadow_core_event_occured shadow_event_type_add s1 else s1))
       (shadow_core_module_addv3 sn ty i domain_id business s))"

text \<open>A property nobody registered is registered by the first push, without callbacks.\<close>

definition ez_iot_shadow_push_v3 ::
  "res \<Rightarrow> string \<Rightarrow> string \<Rightarrow> ez_iot_shadow_value_t option \<Rightarrow> shadow \<Rightarrow> (int \<times> shadow) option" where
  "ez_iot_shadow_push_v3 pres domain_id pkey pvalue s0 = (case pres of (sn, ty, i) \<Rightarrow>
     map_option (\<lambda>(rv, s). (rv, if rv = 0 then shadow_core_event_occured shadow_event_type_report s else s))
       (case shadow_core_propertie_changed sn ty i domain_id pkey pvalue s0 of
          None \<Rightarrow> None
        | Some (rv, s1) \<Rightarrow>
            if rv \<noteq> - 1 then Some (rv, s1)
            else (case shadow_core_module_addv3 sn ty i domain_id
                     [\<lparr>sb_key = strncpy0 63 pkey, sb_business2dev = None, sb_business2cloud = None\<rparr>] s1 of
                None \<Rightarrow> None
              | Some (rv2, s2) \<Rightarrow>
                  if rv2 \<noteq> 0 then Some (rv2, s2)
                  else shadow_core_propertie_changed sn ty i domain_id pkey pvalue
                         (shadow_core_event_occured shadow_event_type_add s2))))"

section \<open>Messages from the cloud\<close>

text \<open>The answer to a report: the first key that awaits this number.\<close>

definition reply_key :: "u32 \<Rightarrow> int \<Rightarrow> res \<Rightarrow> string \<Rightarrow> node_key_t \<Rightarrow> mem \<Rightarrow> (bool \<times> node_key_t \<times> mem) option" where
  "reply_key seq rv r domain k m =
     (if nk_msg_seq k \<noteq> seq then Some (True, k, m)
      else (let m1 = hal_timer_destroy (nk_timer k) (if rv = 0 then delete_opt (nk_json_value k) m else m);
                k1 = (if rv = 0 then k\<lparr>nk_need_report := False, nk_json_value := None\<rparr> else k)
            in Some (False, k1\<lparr>nk_msg_seq := 0, nk_timer := None\<rparr>, m1)))"

definition shadow_reply2report :: "u32 \<Rightarrow> int \<Rightarrow> shadow \<Rightarrow> shadow" where
  "shadow_reply2report seq rv s = (case walk_keys (reply_key seq rv) (g_shadow_modules s) (s_mem s) of
     None \<Rightarrow> s | Some (go, ms, m) \<Rightarrow> s\<lparr>g_shadow_modules := ms, s_mem := m\<rparr>)"

text \<open>The names of a command may be null pointers, which are compared with the first name there is.\<close>

definition find_named :: "('n \<Rightarrow> string) \<Rightarrow> string option \<Rightarrow> 'n list \<Rightarrow> 'n option option" where
  "find_named name w ns = (if ns = [] then Some None else case w of
     None \<Rightarrow> None | Some t \<Rightarrow> Some (List.find (\<lambda>n. name n = t) ns))"

definition find_callback :: "res \<Rightarrow> string option \<Rightarrow> string option \<Rightarrow> shadow \<Rightarrow> nat option option" where
  "find_callback r domain key s = (case r of (devsn, res_type, index) \<Rightarrow>
     case List.find (\<lambda>d. nv_dev_sn d = devsn) (g_shadow_modules s) of None \<Rightarrow> Some None | Some d \<Rightarrow>
     case List.find (\<lambda>t. ns_type t = res_type) (nv_type_lst d) of None \<Rightarrow> Some None | Some t \<Rightarrow>
     case List.find (\<lambda>i. ni_index i = index) (ns_index_lst t) of None \<Rightarrow> Some None | Some i \<Rightarrow>
     case find_named nd_domain_string domain (ni_domain_lst i) of None \<Rightarrow> None | Some None \<Rightarrow> Some None | Some (Some o') \<Rightarrow>
     case find_named nk_key key (nd_key_lst o') of None \<Rightarrow> None | Some None \<Rightarrow> Some None | Some (Some k) \<Rightarrow> Some (nk_cloud2dev k))"

text \<open>The serial number the callback sees.\<close>

definition res_for_dev :: "res \<Rightarrow> shadow \<Rightarrow> res" where
  "res_for_dev r s = (case r of (devsn, ty, i) \<Rightarrow>
     (strncpy0 71 (if devsn = shadow_default_name then s_serial s else devsn), strncpy0 63 ty, i))"

definition do_set :: "res \<Rightarrow> string option \<Rightarrow> string option \<Rightarrow> jnode \<Rightarrow> shadow \<Rightarrow> (int \<times> shadow) option" where
  "do_set r domain key value s =
     (case find_callback r domain key s of
        None \<Rightarrow> None
      | Some None \<Rightarrow> Some (- 1, s)
      | Some (Some cb) \<Rightarrow>
          (case json2tlv value (s_mem s) of
             None \<Rightarrow> None
           | Some (rv, tlv, m) \<Rightarrow>
               (let s1 = s\<lparr>s_mem := m\<rparr> in
                if rv \<noteq> 0 then Some (rv, upd_mem (tlv_destroy tlv) s1)
                else Some (s_cloud2dev s cb (length (s_out s)),
                       upd_mem (tlv_destroy tlv) (logged (Out_to_dev cb (res_for_dev r s) domain key (shv_data tlv)) s1)))))"

definition node_text :: "jnode \<Rightarrow> string option" where
  "node_text j = (case j of BString s \<Rightarrow> Some s | _ \<Rightarrow> None)"

definition shadow_set2dev :: "res \<Rightarrow> string option \<Rightarrow> shadow \<Rightarrow> (int \<times> shadow) option" where
  "shadow_set2dev r payload s =
     (case payload of None \<Rightarrow> Some (- 1, s) | Some t \<Rightarrow>
      (case bscJSON_Parse (c_str t) (s_mem s) of
        (None, m) \<Rightarrow> Some (- 1, s\<lparr>s_mem := m\<rparr>)
      | (Some json_root, m) \<Rightarrow>
          map_option (\<lambda>(rv, s1). (rv, upd_mem (bscJSON_Delete json_root) s1))
            (case Option.bind (node_item json_root ''state'') (\<lambda>st. node_item st ''desired'') of
               None \<Rightarrow> Some (- 1, s\<lparr>s_mem := m\<rparr>)
             | Some desired \<Rightarrow>
                 (case (node_item desired ''domain'', node_item desired ''identifier'', node_item desired ''value'') of
                    (Some d, Some i, Some v) \<Rightarrow> do_set r (node_text d) (node_text i) v (s\<lparr>s_mem := m\<rparr>)
                  | _ \<Rightarrow> Some (- 1, s\<lparr>s_mem := m\<rparr>)))))"

definition shadow_status_sync_disable :: "res \<Rightarrow> shadow \<Rightarrow> shadow" where
  "shadow_status_sync_disable r s = (case r of (devsn, res_type, index) \<Rightarrow>
     (case at_node (\<lambda>d. nv_dev_sn d = devsn)
         (\<lambda>d m. map_option (\<lambda>(rv, l, m). (rv, d\<lparr>nv_type_lst := l\<rparr>, m))
           (at_node (\<lambda>t. ns_type t = res_type)
             (\<lambda>t m. map_option (\<lambda>(rv, l, m). (rv, t\<lparr>ns_index_lst := l\<rparr>, m))
               (at_node (\<lambda>i. ni_index i = index)
                 (\<lambda>i m. Some (0, i\<lparr>ni_need_sync := False, ni_timer := None, ni_retry_count := 0\<rparr>, hal_timer_destroy (ni_timer i) m))
                 (ns_index_lst t) m))
             (nv_type_lst d) m))
         (g_shadow_modules s) (s_mem s) of
        None \<Rightarrow> s | Some (rv, ms, m) \<Rightarrow> s\<lparr>g_shadow_modules := ms, s_mem := m\<rparr>))"

text \<open>The desired states of an answer, one after the other; the result is only logged.\<close>

fun set_all :: "res \<Rightarrow> jnode list \<Rightarrow> shadow \<Rightarrow> shadow option" where
  "set_all r [] s = Some s"
| "set_all r (j # js) s =
     (case (node_item j ''domain'', node_item j ''identifier'', node_item j ''value'') of
        (Some d, Some i, Some v) \<Rightarrow> (case do_set r (node_text d) (node_text i) v s of None \<Rightarrow> None | Some (rv, s1) \<Rightarrow> set_all r js s1)
      | _ \<Rightarrow> set_all r js s)"

definition shadow_reply2query :: "res \<Rightarrow> string option \<Rightarrow> shadow \<Rightarrow> shadow option" where
  "shadow_reply2query r payload s =
     (case payload of None \<Rightarrow> Some (shadow_status_sync_disable r s) | Some t \<Rightarrow>
      (case bscJSON_Parse (c_str t) (s_mem s) of
        (None, m) \<Rightarrow> Some (shadow_status_sync_disable r (s\<lparr>s_mem := m\<rparr>))
      | (Some json_root, m) \<Rightarrow>
          map_option (\<lambda>s1. upd_mem (bscJSON_Delete json_root) (shadow_status_sync_disable r s1))
            (case number_item json_root ''code'' of
               None \<Rightarrow> Some (s\<lparr>s_mem := m\<rparr>)
             | Some (c, _) \<Rightarrow>
                 (case Option.bind (node_item json_root ''state'') (\<lambda>st. array_item st ''desired'') of
                    Some js \<Rightarrow> if c = 0 then set_all r js (s\<lparr>s_mem := m\<rparr>) else Some (s\<lparr>s_mem := m\<rparr>)
                  | None \<Rightarrow> Some (s\<lparr>s_mem := m\<rparr>)))))"

text \<open>
  What comes with a message: a text, no text, or the result of sending as an \<open>int\<close>.  For a report the first four bytes are
  taken as an \<open>int\<close>, whatever they are.
\<close>

datatype shadow_payload = Payload_text string | Payload_null | Payload_code int

definition payload_text :: "shadow_payload \<Rightarrow> string option option" where
  "payload_text p = (case p of Payload_text t \<Rightarrow> Some (Some t) | Payload_null \<Rightarrow> Some None | Payload_code i \<Rightarrow> None)"

definition payload_int :: "shadow_payload \<Rightarrow> int option" where
  "payload_int p = (case p of
     Payload_text (a # b # c # d # t) \<Rightarrow>
       Some (signed_take_bit 31 (of_char a + 256 * of_char b + 65536 * of_char c + 16777216 * of_char d))
   | Payload_code i \<Rightarrow> Some i | _ \<Rightarrow> None)"

definition shadow_core_cloud_data_in :: "res \<Rightarrow> u32 \<Rightarrow> string \<Rightarrow> shadow_payload \<Rightarrow> shadow \<Rightarrow> (int \<times> shadow) option" where
  "shadow_core_cloud_data_in r seq business_type payload s =
     map_option (\<lambda>(rv, s1). (rv, shadow_core_event_occured shadow_event_type_recv s1))
       (if business_type = ''set''
        then (case payload_text payload of None \<Rightarrow> None
          | Some t \<Rightarrow> map_option (\<lambda>(rv, s1). (rv, Shadow_Set_Reply_v3 r rv seq s1)) (shadow_set2dev r t s))
        else if business_type = ''query_reply''
        then (case payload_text payload of None \<Rightarrow> None
          | Some t \<Rightarrow> map_option (\<lambda>s1. (- 1, s1)) (shadow_reply2query r t s))
        else if business_type = ''report''
        then (case payload_int payload of None \<Rightarrow> None | Some i \<Rightarrow> Some (- 1, shadow_reply2report seq i s))
        else Some (- 1, s))"

section \<open>The kernel's callbacks\<close>

definition res_of_names :: "string \<Rightarrow> string \<Rightarrow> string \<Rightarrow> res" where
  "res_of_names serial ty rid = (strncpy0 71 serial, strncpy0 63 ty, signed_take_bit 15 (atoi rid))"

definition Shadow_v3_extend_data_route_cb :: "ezdev_sdk_kernel_submsg_v3 \<Rightarrow> shadow \<Rightarrow> shadow option" where
  "Shadow_v3_extend_data_route_cb m s =
     (if s3_extend_id m \<noteq> sdk_shadow then Some s
      else Option.bind
        (case s3_buf m of
           None \<Rightarrow> Some Payload_null
         | Some buf \<Rightarrow> if 0 \<notin> set buf \<and> s3_business_type m \<in> {''set'', ''query_reply''} then None else Some (Payload_text (text_of buf)))
        (\<lambda>payload. map_option snd (shadow_core_cloud_data_in
             (res_of_names (if s3_sub_serial m = [] then shadow_default_name else s3_sub_serial m) (s3_resource_type m) (s3_resource_id m))
             (s3_msg_seq m) (s3_business_type m) payload s)))"

text \<open>The result of sending a message of this module stands for the answer to it.\<close>

definition Shadow_extend_event_cb :: "ezdev_sdk_kernel_event \<Rightarrow> shadow \<Rightarrow> shadow option" where
  "Shadow_extend_event_cb ptr_event s =
     (case event_type ptr_event of
        sdk_kernel_event_online \<Rightarrow> Some (shadow_core_event_occured shadow_event_type_online s)
      | sdk_kernel_event_break \<Rightarrow> Some (shadow_core_event_occured shadow_event_type_offline s)
      | sdk_kernel_event_switchover \<Rightarrow> Some (shadow_core_event_occured shadow_event_type_reset s)
      | sdk_kernel_event_reconnect_success \<Rightarrow> Some (shadow_core_event_occured shadow_event_type_offline s)
      | sdk_kernel_event_runtime_err \<Rightarrow>
          (case event_context ptr_event of
             Some (Ctx_runtime_err c) \<Rightarrow>
               (if err_tag c \<noteq> TAG_MSG_ACK_V3 then Some s
                else case err_ctx c of
                  Some (Ack_ctx_v3 a) \<Rightarrow>
                    if a3_extend_id a \<noteq> sdk_shadow then Some s
                    else map_option snd (shadow_core_cloud_data_in
                      (res_of_names (a3_sub_serial a) (a3_resource_type a) (a3_resource_id a))
                      (a3_msg_seq a) (a3_business_type a) (Payload_code (err_code c)) s)
                | _ \<Rightarrow> None)
           | _ \<Rightarrow> None)
      | _ \<Rightarrow> Some s)"

section \<open>Starting and stopping\<close>

text \<open>
  Whether a semaphore, the lock and the thread are created, and where the buffer is, is asked of the platform.  A
  failure leaves what was created before it; the list of modules starts empty.
\<close>

definition shadow_core_start :: "bool \<Rightarrow> bool \<Rightarrow> bool \<Rightarrow> u32 \<Rightarrow> shadow \<Rightarrow> bool \<times> shadow" where
  "shadow_core_start sem_ok lock_ok thread_ok buf s =
     (if g_shadow_thread s then (True, s)
      else if \<not> g_sem s \<and> \<not> sem_ok then (False, s)
      else let s1 = s\<lparr>g_sem := True\<rparr> in
        if \<not> lock_ok then (False, s1)
        else if \<not> thread_ok then (False, s1\<lparr>g_running := False, g_shadow_modules := []\<rparr>)
        else (case malloc (s_mem s1) of (ok, m) \<Rightarrow>
          if ok then (True, s1\<lparr>g_running := True, g_shadow_modules := [], s_mem := m, g_p2c_buf := Some buf, g_shadow_thread := True\<rparr>)
          else (False, s1\<lparr>g_running := False, g_shadow_modules := [], s_mem := m, g_p2c_buf := None\<rparr>)))"

text \<open>The buffer is freed and the pointer to it kept.\<close>

definition shadow_core_stop :: "shadow \<Rightarrow> shadow" where
  "shadow_core_stop s =
     (if \<not> g_running s then s
      else s\<lparr>g_running := False, g_sem := False, g_shadow_thread := False, s_posts := s_posts s + 1,
        s_mem := if g_p2c_buf s = None then s_mem s else free (s_mem s)\<rparr>)"

text \<open>The result of starting is not looked at, and finishing does not stop the thread.\<close>

definition shadow_init :: "bool \<Rightarrow> bool \<Rightarrow> bool \<Rightarrow> bool \<Rightarrow> u32 \<Rightarrow> shadow \<Rightarrow> int \<times> shadow" where
  "shadow_init extern_ok sem_ok lock_ok thread_ok buf s =
     (if shadow_ucInit s then (- 1, s)
      else if \<not> extern_ok then (- 1, s)
      else (0, snd (shadow_core_start sem_ok lock_ok thread_ok buf (s\<lparr>shadow_ucInit := True\<rparr>))))"

definition shadow_fnit :: "shadow \<Rightarrow> shadow" where
  "shadow_fnit s = s\<lparr>shadow_ucInit := False\<rparr>"

end
