(* ===== verification/Shadow_Walk.thy ===== *)
theory Shadow_Walk
  imports Shadow_Core
begin

text \<open>
  The tree of the shadow as one list of its keys: what the nested loops, the lookups and the changes of a
  branch do to it.
\<close>

section \<open>Loops over concatenated lists\<close>

lemma walk_append:
  "walk_nodes f (xs @ ys) s = (case walk_nodes f xs s of
     None \<Rightarrow> None
   | Some (False, xs1, s1) \<Rightarrow> Some (False, xs1 @ ys, s1)
   | Some (True, xs1, s1) \<Rightarrow> map_option (\<lambda>(go, ys1, s2). (go, xs1 @ ys1, s2)) (walk_nodes f ys s1))"
  by (induction xs arbitrary: s)
    (auto simp: option.map_comp option.map_id option.map_ident o_def case_prod_beta intro!: option.map_cong split: option.splits bool.splits)

text \<open>A loop over nodes that are themselves walked through is the loop over their items.\<close>

lemma walk_concat:
  assumes "\<And>n s. n \<in> set ns \<Longrightarrow> map_option (\<lambda>(go, n', s'). (go, items n', s')) (F n s) = walk_nodes f (items n) s"
  shows "map_option (\<lambda>(go, ns', s'). (go, concat (map items ns'), s')) (walk_nodes F ns s) = walk_nodes f (concat (map items ns)) s"
  using assms
proof (induction ns arbitrary: s)
  case (Cons n ns)
  have n: "walk_nodes f (items n) s = map_option (\<lambda>(go, n', s'). (go, items n', s')) (F n s)" using Cons.prems by simp
  have ns: "\<And>s. walk_nodes f (concat (map items ns)) s = map_option (\<lambda>(go, ns', s'). (go, concat (map items ns'), s')) (walk_nodes F ns s)"
    using Cons by simp
  show ?case by (auto simp: walk_append n ns option.map_comp o_def case_prod_beta intro!: option.map_cong split: option.splits bool.splits)
qed simp

lemma walk_map:
  assumes "\<And>n s. map_option (\<lambda>(go, n', s'). (go, item n', s')) (F n s) = f (item n) s"
  shows "map_option (\<lambda>(go, ns', s'). (go, map item ns', s')) (walk_nodes F ns s) = walk_nodes f (map item ns) s"
proof (induction ns arbitrary: s)
  case (Cons n ns)
  have n: "f (item n) s = map_option (\<lambda>(go, n', s'). (go, item n', s')) (F n s)" using assms by simp
  show ?case
    by (auto simp: n Cons [symmetric] option.map_comp o_def case_prod_beta intro!: option.map_cong split: option.splits bool.splits)
qed simp

section \<open>The keys of a tree\<close>

type_synonym key_at = "res \<times> string \<times> node_key_t"

definition dom_keys :: "res \<Rightarrow> node_domain_t \<Rightarrow> key_at list" where
  "dom_keys r d = map (\<lambda>k. (r, nd_domain_string d, k)) (nd_key_lst d)"

definition index_keys :: "string \<Rightarrow> string \<Rightarrow> node_index_t \<Rightarrow> key_at list" where
  "index_keys sn ty i = concat (map (dom_keys (sn, ty, ni_index i)) (ni_domain_lst i))"

definition set_keys :: "string \<Rightarrow> node_index_set_t \<Rightarrow> key_at list" where
  "set_keys sn t = concat (map (index_keys sn (ns_type t)) (ns_index_lst t))"

definition dev_keys :: "node_dev_t \<Rightarrow> key_at list" where
  "dev_keys d = concat (map (set_keys (nv_dev_sn d)) (nv_type_lst d))"

definition all_keys :: "node_dev_t list \<Rightarrow> key_at list" where
  "all_keys ms = concat (map dev_keys ms)"

lemmas keys_defs = dom_keys_def index_keys_def set_keys_def dev_keys_def all_keys_def

definition flat :: "(res \<Rightarrow> string \<Rightarrow> node_key_t \<Rightarrow> 's \<Rightarrow> (bool \<times> node_key_t \<times> 's) option) \<Rightarrow> key_at \<Rightarrow> 's \<Rightarrow> (bool \<times> key_at \<times> 's) option" where
  "flat f x s = (case x of (r, d, k) \<Rightarrow> map_option (\<lambda>(go, k', s'). (go, (r, d, k'), s')) (f r d k s))"

lemma map_prod3: "map_option (\<lambda>(go, l', s'). (go, g l', s')) (map_option (\<lambda>(go, l, s1). (go, h l, s1)) x) =
    map_option (\<lambda>(go, l, s1). (go, g (h l), s1)) x"
  by (cases x) auto

lemma keys_upd:
  "dom_keys r (dm\<lparr>nd_key_lst := ks\<rparr>) = map (\<lambda>k. (r, nd_domain_string dm, k)) ks"
  "index_keys sn ty (idx\<lparr>ni_domain_lst := ds\<rparr>) = concat (map (dom_keys (sn, ty, ni_index idx)) ds)"
  "set_keys sn (st\<lparr>ns_index_lst := l\<rparr>) = concat (map (index_keys sn (ns_type st)) l)"
  "dev_keys (dev\<lparr>nv_type_lst := ts\<rparr>) = concat (map (set_keys (nv_dev_sn dev)) ts)"
  by (simp_all add: dom_keys_def index_keys_def set_keys_def dev_keys_def)

lemma walk_keys_flat:
  "map_option (\<lambda>(go, ms', s'). (go, all_keys ms', s')) (walk_keys f ms s) = walk_nodes (flat f) (all_keys ms) s"
proof -
  have dm: "map_option (\<lambda>(go, l, s1). (go, dom_keys r (dm\<lparr>nd_key_lst := l\<rparr>), s1)) (walk_nodes (f r (nd_domain_string dm)) (nd_key_lst dm) s) =
      walk_nodes (flat f) (dom_keys r dm) s" for r dm s
    using walk_map [of "\<lambda>k. (r, nd_domain_string dm, k)" "f r (nd_domain_string dm)" "flat f" "nd_key_lst dm" s]
    by (simp add: flat_def keys_upd) (simp add: dom_keys_def)
  have idx: "map_option (\<lambda>(go, l, s1). (go, index_keys sn ty (idx\<lparr>ni_domain_lst := l\<rparr>), s1))
      (walk_nodes (\<lambda>dm s. map_option (\<lambda>(go, l, s1). (go, dm\<lparr>nd_key_lst := l\<rparr>, s1))
        (walk_nodes (f (sn, ty, ni_index idx) (nd_domain_string dm)) (nd_key_lst dm) s)) (ni_domain_lst idx) s) =
      walk_nodes (flat f) (index_keys sn ty idx) s" for sn ty idx s
    by (unfold keys_upd, unfold index_keys_def, rule walk_concat, simp only: map_prod3 dm)
  have st: "map_option (\<lambda>(go, l, s1). (go, set_keys sn (st\<lparr>ns_index_lst := l\<rparr>), s1))
      (walk_nodes (\<lambda>idx s. map_option (\<lambda>(go, l, s1). (go, idx\<lparr>ni_domain_lst := l\<rparr>, s1))
        (walk_nodes (\<lambda>dm s. map_option (\<lambda>(go, l, s1). (go, dm\<lparr>nd_key_lst := l\<rparr>, s1))
          (walk_nodes (f (sn, ns_type st, ni_index idx) (nd_domain_string dm)) (nd_key_lst dm) s)) (ni_domain_lst idx) s)) (ns_index_lst st) s) =
      walk_nodes (flat f) (set_keys sn st) s" for sn st s
    by (unfold keys_upd, unfold set_keys_def, rule walk_concat, simp only: map_prod3 idx)
  have dev: "map_option (\<lambda>(go, l, s1). (go, dev_keys (dev\<lparr>nv_type_lst := l\<rparr>), s1))
      (walk_nodes (\<lambda>st s. map_option (\<lambda>(go, l, s1). (go, st\<lparr>ns_index_lst := l\<rparr>, s1))
        (walk_nodes (\<lambda>idx s. map_option (\<lambda>(go, l, s1). (go, idx\<lparr>ni_domain_lst := l\<rparr>, s1))
          (walk_nodes (\<lambda>dm s. map_option (\<lambda>(go, l, s1). (go, dm\<lparr>nd_key_lst := l\<rparr>, s1))
            (walk_nodes (f (nv_dev_sn dev, ns_type st, ni_index idx) (nd_domain_string dm)) (nd_key_lst dm) s)) (ni_domain_lst idx) s))
          (ns_index_lst st) s)) (nv_type_lst dev) s) = walk_nodes (flat f) (dev_keys dev) s" for dev s
    by (unfold keys_upd, unfold dev_keys_def, rule walk_concat, simp only: map_prod3 st)
  show ?thesis unfolding walk_keys_def all_keys_def by (rule walk_concat) (simp only: map_prod3 dev)
qed

section \<open>Loops that visit every node\<close>

lemma visit_concat:
  assumes "\<And>n s n' s'. n \<in> set ns \<Longrightarrow> F n s = (n', s') \<Longrightarrow> items n' = g (items n)"
    and "\<And>xs ys. g (xs @ ys) = g xs @ g ys" and "g [] = []"
  shows "visit F ns s = (ns', s') \<Longrightarrow> concat (map items ns') = g (concat (map items ns))"
  using assms(1)
proof (induction ns arbitrary: s ns')
  case (Cons n ns)
  then show ?case by (auto simp: assms(2) split: prod.splits)
qed (use assms(3) in simp)

lemma visit_items:
  assumes "\<And>n s n' s'. F n s = (n', s') \<Longrightarrow> items n' = items n"
  shows "visit F ns s = (ns', s') \<Longrightarrow> concat (map items ns') = concat (map items ns)"
  by (rule visit_concat [where g = "\<lambda>xs. xs"]) (use assms in auto)

lemma walk_items:
  assumes "\<And>n s go n' s'. F n s = Some (go, n', s') \<Longrightarrow> items n' = items n"
  shows "walk_nodes F ns s = Some (go, ns', s') \<Longrightarrow> concat (map items ns') = concat (map items ns)"
proof (induction ns arbitrary: s go ns' s')
  case (Cons n ns)
  then show ?case using assms by (auto split: option.splits bool.splits)
qed simp

text \<open>Loops over the indices leave the keys alone.\<close>

lemma walk_indices_keys:
  assumes "\<And>r i s go i' s'. f r i s = (go, i', s') \<Longrightarrow> ni_index i' = ni_index i \<and> ni_domain_lst i' = ni_domain_lst i"
    and "walk_indices f ms s = (ms', s')"
  shows "all_keys ms' = all_keys ms"
proof -
  have i: "index_keys sn ty i' = index_keys sn ty i" if "f r i s = (go, i', s')" for sn ty r i s go i' s'
    using assms(1) [OF that] by (simp add: index_keys_def)
  have st: "set_keys sn t' = set_keys sn t"
    if "(case walk_nodes (\<lambda>idx s. Some (f (sn, ns_type t, ni_index idx) idx s)) (ns_index_lst t) s of
          None \<Rightarrow> (t, s) | Some (_, l, s1) \<Rightarrow> (t\<lparr>ns_index_lst := l\<rparr>, s1)) = (t', s')" for sn t s t' s'
    using that i walk_items [of "\<lambda>idx s. Some (f (sn, ns_type t, ni_index idx) idx s)" "index_keys sn (ns_type t)" "ns_index_lst t" s]
    by (fastforce simp: keys_upd set_keys_def split: option.splits)
  show ?thesis
    using assms(2) unfolding walk_indices_def all_keys_def
  proof (rule visit_items [rotated])
    fix dev dev' :: node_dev_t and s s'
    assume "map_prod (\<lambda>l. dev\<lparr>nv_type_lst := l\<rparr>) id
       (visit (\<lambda>set s. case walk_nodes (\<lambda>idx s. Some (f (nv_dev_sn dev, ns_type set, ni_index idx) idx s)) (ns_index_lst set) s of
          None \<Rightarrow> (set, s) | Some (_, l, s1) \<Rightarrow> (set\<lparr>ns_index_lst := l\<rparr>, s1)) (nv_type_lst dev) s) = (dev', s')"
    then obtain l where l: "visit (\<lambda>set s. case walk_nodes (\<lambda>idx s. Some (f (nv_dev_sn dev, ns_type set, ni_index idx) idx s)) (ns_index_lst set) s of
          None \<Rightarrow> (set, s) | Some (_, l, s1) \<Rightarrow> (set\<lparr>ns_index_lst := l\<rparr>, s1)) (nv_type_lst dev) s = (l, s')" "dev' = dev\<lparr>nv_type_lst := l\<rparr>"
      by (cases "visit (\<lambda>set s. case walk_nodes (\<lambda>idx s. Some (f (nv_dev_sn dev, ns_type set, ni_index idx) idx s)) (ns_index_lst set) s of
          None \<Rightarrow> (set, s) | Some (_, l, s1) \<Rightarrow> (set\<lparr>ns_index_lst := l\<rparr>, s1)) (nv_type_lst dev) s") auto
    show "dev_keys dev' = dev_keys dev"
      unfolding l(2) keys_upd using visit_items [OF st l(1)] by (simp add: dev_keys_def)
  qed
qed

text \<open>A reset changes every key in the same way.\<close>

definition due :: "key_at \<Rightarrow> key_at" where
  "due x = (case x of (r, d, k) \<Rightarrow> (r, d, k\<lparr>nk_need_report := True, nk_timer := None\<rparr>))"

lemma visit_map: "\<lbrakk>\<And>n s n' s'. F n s = (n', s') \<Longrightarrow> items n' = map h (items n); visit F ns s = (ns', s')\<rbrakk> \<Longrightarrow>
    concat (map items ns') = map h (concat (map items ns))"
  by (rule visit_concat [where g = "map h"]) auto

lemma map_prod_fst: "map_prod f id x = (y, s) \<longleftrightarrow> (\<exists>l. x = (l, s) \<and> y = f l)"
  by (cases x) auto

lemma reset_keys: "all_keys (g_shadow_modules (shadow_status_reset s)) = map due (all_keys (g_shadow_modules s))"
proof -
  have k: "visit reset_key ks m = (ks', m') \<Longrightarrow> map (\<lambda>k. (r, d, k)) ks' = map due (map (\<lambda>k. (r, d, k)) ks)" for ks m ks' m' r d
    using visit_map [of reset_key "\<lambda>k. [(r, d, k)]" due ks m ks' m'] by (auto simp: reset_key_def due_def concat_map_singleton)
  have dm: "map_prod (\<lambda>l. x\<lparr>nd_key_lst := l\<rparr>) id (visit reset_key (nd_key_lst x) m) = (x', m') \<Longrightarrow>
      dom_keys r x' = map due (dom_keys r x)" for x m x' m' r
    by (auto simp only: map_prod_fst keys_upd dom_keys_def [of r x] intro: k)
  have i: "reset_index x m = (x', m') \<Longrightarrow> index_keys sn ty x' = map due (index_keys sn ty x)" for x m x' m' sn ty
    by (auto simp: reset_index_def index_keys_def split: prod.splits intro: visit_map [OF dm])
  have st: "map_prod (\<lambda>l. x\<lparr>ns_index_lst := l\<rparr>) id (visit reset_index (ns_index_lst x) m) = (x', m') \<Longrightarrow>
      set_keys sn x' = map due (set_keys sn x)" for x m x' m' sn
    by (auto simp only: map_prod_fst keys_upd set_keys_def [of sn x] intro: visit_map [OF i])
  have dv: "map_prod (\<lambda>l. x\<lparr>nv_type_lst := l\<rparr>) id
      (visit (\<lambda>set m. map_prod (\<lambda>l. set\<lparr>ns_index_lst := l\<rparr>) id (visit reset_index (ns_index_lst set) m)) (nv_type_lst x) m) = (x', m') \<Longrightarrow>
      dev_keys x' = map due (dev_keys x)" for x m x' m'
    by (auto simp only: map_prod_fst keys_upd dev_keys_def [of x] intro: visit_map [OF st])
  show ?thesis by (auto simp: shadow_status_reset_def all_keys_def split: prod.splits intro: visit_map [OF dv])
qed

end
