(* ===== verification/Shadow_Report.thy ===== *)
theory Shadow_Report
  imports Shadow_Walk
begin

text \<open>
  The report of a value: its text, and what else it leaves alone.  The shadow changes neither the answers of the
  application nor which allocations succeed.
\<close>

section \<open>Which allocations succeed\<close>

lemma m_ok_mem [simp]:
  "m_ok (free m) = m_ok m" "m_ok (snd (malloc m)) = m_ok m" "m_ok (snd (realloc m)) = m_ok m" "m_ok (free_opt p m) = m_ok m"
  by (simp_all add: free_def malloc_def realloc_def Let_def free_opt_def split: option.split)

lemma m_ok_Delete [simp]: "m_ok (bscJSON_Delete j m) = m_ok m"
proof (induction j arbitrary: m)
  case (BArray js)
  then have "m_ok (fold bscJSON_Delete js m) = m_ok m" by (induction js arbitrary: m) auto
  then show ?case by simp
next
  case (BObject ms)
  have "m_ok (fold (\<lambda>(name, j) m. free (bscJSON_Delete j m)) xs m) = m_ok m" if "set xs \<subseteq> set ms" for xs
    using that
  proof (induction xs arbitrary: m)
    case (Cons x xs)
    obtain n j where x: "x = (n, j)" by (cases x)
    have "m_ok (bscJSON_Delete j m) = m_ok m" for m using BObject.IH [of "(n, j)" j] Cons.prems by (simp add: x)
    then show ?case using Cons by (simp add: x)
  qed simp
  then show ?case by simp
qed simp_all

lemma m_ok_deletes [simp]:
  "m_ok (fold bscJSON_Delete js m) = m_ok m" "m_ok (delete_members ms m) = m_ok m" "m_ok (delete_opt p m) = m_ok m"
  "m_ok (hal_timer_destroy t m) = m_ok m" "m_ok (tlv_destroy v m) = m_ok m" "m_ok (free_name b m) = m_ok m"
proof -
  show "m_ok (fold bscJSON_Delete js m) = m_ok m" by (induction js arbitrary: m) auto
  show "m_ok (delete_members ms m) = m_ok m" by (induction ms arbitrary: m) (auto simp: delete_members_def)
qed (auto simp: delete_opt_def hal_timer_destroy_def tlv_destroy_def free_name_def split: option.split shd_data.split)

lemma m_ok_create [simp]:
  "m_ok (snd (new_item j m)) = m_ok m" "m_ok (snd (bscJSON_CreateObject m)) = m_ok m" "m_ok (snd (bscJSON_CreateBool b m)) = m_ok m"
  "m_ok (snd (bscJSON_CreateNumber i m)) = m_ok m" "m_ok (snd (bscJSON_CreateString t m)) = m_ok m"
  "m_ok (snd (snd (add_item_to_object ms name item m))) = m_ok m"
  by (simp_all add: new_item_def bscJSON_CreateObject_def bscJSON_CreateBool_def bscJSON_CreateNumber_def bscJSON_CreateString_def
      add_item_to_object_def case_prod_beta split: option.split)

lemma m_ok_add [simp]:
  "m_ok (snd (bscJSON_AddStringToObject name t (ms, m))) = m_ok m" "m_ok (snd (bscJSON_AddNumberToObject name i (ms, m))) = m_ok m"
  by (simp_all add: bscJSON_AddStringToObject_def bscJSON_AddNumberToObject_def add_created_def case_prod_beta)

text \<open>Parsing.\<close>

definition calm_parser :: "(string \<Rightarrow> mem \<Rightarrow> parsed) \<Rightarrow> bool" where
  "calm_parser pv = (\<forall>s m. m_ok (snd (pv s m)) = m_ok m)"

lemma m_ok_parse_string [simp]: "m_ok (snd (parse_string s m)) = m_ok m"
  by (simp add: parse_string_def case_prod_beta split: list.split option.split)

lemma m_ok_parse_elements: "calm_parser pv \<Longrightarrow> m_ok (snd (parse_elements pv n acc s m)) = m_ok m"
  by (induction n arbitrary: acc s m) (simp_all add: calm_parser_def case_prod_beta Let_def split: option.split)

lemma m_ok_parse_members: "calm_parser pv \<Longrightarrow> m_ok (snd (parse_members pv n acc s m)) = m_ok m"
  by (induction n arbitrary: acc s m) (simp_all add: calm_parser_def case_prod_beta Let_def split: option.split)

lemma calm_value1: "(\<And>pv. inner = Some pv \<Longrightarrow> calm_parser pv) \<Longrightarrow> calm_parser (parse_value1 inner)"
  using m_ok_parse_elements m_ok_parse_members
  by (auto simp: calm_parser_def parse_value1_def case_prod_beta parse_array_def parse_object_def parse_number_def Let_def split: option.split)

lemma calm_value: "calm_parser (parse_value k)"
  by (induction k) (auto intro: calm_value1)

lemma m_ok_Parse [simp]: "m_ok (snd (bscJSON_Parse t m)) = m_ok m"
proof -
  have "m_ok (snd (parse_value k s m)) = m_ok m" for k s m using calm_value by (simp add: calm_parser_def)
  then show ?thesis by (simp add: bscJSON_Parse_def bscJSON_ParseWithOpts_def case_prod_beta Let_def split: option.split)
qed

text \<open>Printing.\<close>

definition calm_print :: "(nat \<Rightarrow> bool) \<Rightarrow> printed \<Rightarrow> bool" where
  "calm_print f r = (\<forall>ok p m. r = Some (ok, p, m) \<longrightarrow> m_ok m = f)"

lemma calm_Some [simp]: "calm_print f (Some (ok, p, m)) = (m_ok m = f)"
  by (auto simp: calm_print_def)

lemma calm_then:
  assumes "calm_print f r" and "\<And>p m. m_ok m = f \<Longrightarrow> calm_print f (g p m)"
  shows "calm_print f (and_then r g)"
proof (cases r)
  case None
  then show ?thesis by (simp add: and_then_def calm_print_def)
next
  case (Some x)
  obtain ok p m where x: "x = (ok, p, m)" by (rule prod_cases3)
  then show ?thesis using assms Some by (simp add: and_then_def)
qed

lemma m_ok_ensure [simp]: "m_ok (snd (snd (ensure p n m))) = m_ok m"
  by (simp add: ensure_def case_prod_beta Let_def)

lemma calm_emit: "m_ok m = f \<Longrightarrow> calm_print f (emit n s nul k p m)"
proof -
  assume f: "m_ok m = f"
  obtain ok p1 m1 where e: "ensure p n m = (ok, p1, m1)" by (rule prod_cases3)
  then have "m_ok m1 = f" using m_ok_ensure [of p n m] f by simp
  then show ?thesis by (auto simp: emit_def e put_def calm_print_def split: option.split)
qed

lemma calm_number: "m_ok m = f \<Longrightarrow> calm_print f (print_number i d p m)"
  by (auto simp: print_number_def Let_def calm_emit) (simp add: calm_print_def)

lemma calm_string: "m_ok m = f \<Longrightarrow> calm_print f (print_string_ptr s p m)"
  by (simp add: print_string_ptr_def Let_def calm_emit)

lemma calm_print_value:
  "m_ok m = f \<Longrightarrow> calm_print f (print_value j p m)"
  "m_ok m = f \<Longrightarrow> calm_print f (print_elements js p m)"
  "m_ok m = f \<Longrightarrow> calm_print f (print_members ms p m)"
  by (induction j p m and js p m and ms p m rule: print_value_print_elements_print_members.induct)
    (simp_all add: Let_def calm_number calm_string calm_emit calm_then)

lemma m_ok_print:
  assumes "print j f m = Some (t, m')"
  shows "m_ok m' = m_ok m"
proof -
  obtain ok1 m1 where m1: "malloc m = (ok1, m1)" by force
  then have o1: "m_ok m1 = m_ok m" using m_ok_mem(2) [of m] by simp
  show ?thesis
  proof (cases ok1)
    case False
    then show ?thesis using assms m1 o1 by (auto simp: print_def)
  next
    case True
    let ?p = "\<lparr>pb_text = Some [], pb_length = 256, pb_offset = 0, pb_depth = 0, pb_noalloc = False, pb_format = f\<rparr>"
    obtain ok2 p2 m2 where p2: "print_value j ?p m1 = Some (ok2, p2, m2)" using assms m1 True by (auto simp: print_def split: option.splits)
    then have o2: "m_ok m2 = m_ok m" using calm_print_value(1) [OF o1, of j ?p] by (auto simp: calm_print_def)
    obtain ok3 m3 where m3: "realloc m2 = (ok3, m3)" by force
    then have "m_ok m3 = m_ok m" using m_ok_mem(3) [of m2] o2 by simp
    then show ?thesis using assms m1 True p2 m3 o2 by (auto simp: print_def split: if_splits bool.splits)
  qed
qed

lemma printed_text: "print j f m = Some (Some t, m') \<Longrightarrow> t = json_text f 0 j"
  by (auto simp: print_def inb_def wrote_def split: prod.splits option.splits if_splits bool.splits dest!: print_text(1))

text \<open>Copying and converting values.\<close>

lemma m_ok_grab [simp]: "m_ok (snd (grab k m)) = m_ok m"
  by (induction k arbitrary: m) (simp_all add: case_prod_beta split: bool.split)

lemma m_ok_Duplicate [simp]:
  "m_ok (snd (bscJSON_Duplicate named j m)) = m_ok m"
  "m_ok (snd (snd (dup_elements js acc n))) = m_ok n"
  "m_ok (snd (snd (dup_members ms macc q))) = m_ok q"
proof (induction named j m and js acc n and ms macc q rule: bscJSON_Duplicate_dup_elements_dup_members.induct)
  case (1 named js m)
  obtain ok1 m1 where m1: "grab (1 + of_bool named) m = (ok1, m1)" by force
  then have "m_ok m1 = m_ok m" using m_ok_grab [of "1 + of_bool named" m] by (simp del: m_ok_grab)
  then show ?case using 1 m1 by (cases ok1) (auto simp: case_prod_beta split: bool.split simp del: grab.simps bscJSON_Delete.simps)
next
  case (2 named ms m)
  obtain ok1 m1 where m1: "grab (1 + of_bool named) m = (ok1, m1)" by force
  then have "m_ok m1 = m_ok m" using m_ok_grab [of "1 + of_bool named" m] by (simp del: m_ok_grab)
  then show ?case using 2 m1 by (cases ok1) (auto simp: case_prod_beta split: bool.split simp del: grab.simps bscJSON_Delete.simps)
next
  case (7 j js acc m)
  obtain r1 m1 where "bscJSON_Duplicate False j m = (r1, m1)" by force
  then show ?case using 7(1) 7(2) [of r1 m1] by (cases r1) auto
next
  case (9 name j ms acc m)
  obtain r1 m1 where "bscJSON_Duplicate True j m = (r1, m1)" by force
  then show ?case using 9(1) 9(2) [of r1 m1] by (cases r1) auto
qed (simp_all add: case_prod_beta del: grab.simps)

lemma m_ok_tlv2json: "tlv2json v m = Some (j, m') \<Longrightarrow> m_ok m' = m_ok m"
  by (auto simp: tlv2json_def create_double_def split: if_splits shd_data.splits option.splits
      dest!: arg_cong [where f = "\<lambda>x. m_ok (snd x)"])

lemma m_ok_json2tlv: "json2tlv j m = Some (rv, v, m') \<Longrightarrow> m_ok m' = m_ok m"
  by (auto simp: json2tlv_def Let_def split: jnode.splits option.splits prod.splits dest!: m_ok_print)

section \<open>The text of a report\<close>

definition report_object :: "string \<Rightarrow> string \<Rightarrow> jnode \<Rightarrow> u32 \<Rightarrow> jnode" where
  "report_object d key j ver = BObject [(''method'', BString ''report''), (''spv'', BNumber 3 (d_of_int 3)),
     (''state'', BObject [(''reported'', BObject [(''domain'', BString d), (''identifier'', BString key), (''value'', j)]),
        (''version'', BNumber (if INT_MAX \<le> uint ver then INT_MAX else uint ver) (d_of_int (uint ver)))])]"

lemma plenty_sndD: "plenty m \<Longrightarrow> fst (malloc m) \<and> plenty (snd (malloc m))"
  using plenty_malloc [of m] by auto

lemma add_item_ok: "plenty m \<Longrightarrow> \<exists>m'. add_item_to_object ms name (Some j) m = (True, ms @ [(name, j)], m') \<and> plenty m'"
  using plenty_malloc [of m] by (auto simp: add_item_to_object_def)

lemma new_item_plenty: "plenty m \<Longrightarrow> \<exists>m'. new_item j m = (Some j, m') \<and> plenty m'"
  using plenty_malloc [of m] by (auto simp: new_item_def)

lemma CreateString_plenty: "plenty m \<Longrightarrow> \<exists>m'. bscJSON_CreateString t m = (Some (BString t), m') \<and> plenty m'"
proof -
  assume "plenty m"
  then obtain m1 where m1: "malloc m = (True, m1)" "plenty m1" using plenty_malloc by blast
  then obtain m2 where "malloc m1 = (True, m2)" "plenty m2" using plenty_malloc by blast
  then show ?thesis using m1 by (simp add: bscJSON_CreateString_def)
qed

lemma add_created_plenty:
  assumes "plenty m" and "\<And>m. plenty m \<Longrightarrow> \<exists>m'. create m = (Some j, m') \<and> plenty m'"
  shows "\<exists>m'. add_created name create (ms, m) = (ms @ [(name, j)], m') \<and> plenty m'"
proof -
  obtain m1 where m1: "create m = (Some j, m1)" "plenty m1" using assms by blast
  obtain m2 where "add_item_to_object ms name (Some j) m1 = (True, ms @ [(name, j)], m2)" "plenty m2"
    using add_item_ok [OF m1(2)] by blast
  then show ?thesis using m1(1) by (simp add: add_created_def)
qed

text \<open>With memory the text is that of the whole report, or nothing is sent.\<close>

lemma Report_v3_prints:
  assumes "plenty (s_mem s)"
  shows "\<exists>m. plenty m \<and> ezDevSDK_Shadow_Report_v3 r d key (Some j) ver s =
     (case print (report_object d key j ver) False m of
        None \<Rightarrow> None
      | Some (None, m10) \<Rightarrow> Some (None, s\<lparr>s_mem := bscJSON_Delete (report_object d key j ver) m10\<rparr>)
      | Some (Some t, m10) \<Rightarrow>
          (let seq = s_send s (length (s_out s)) in
           Some (seq, logged (Out_report r d key ver t seq)
             (s\<lparr>s_mem := free (bscJSON_Delete (report_object d key j ver) m10)\<rparr>))))"
proof -
  have str: "\<exists>m'. bscJSON_AddStringToObject n t (ms, m) = (ms @ [(n, BString t)], m') \<and> plenty m'" if "plenty m" for n t ms m
    unfolding bscJSON_AddStringToObject_def by (rule add_created_plenty [OF that CreateString_plenty])
  have num: "\<exists>m'. bscJSON_AddNumberToObject n i (ms, m) =
      (ms @ [(n, BNumber (if INT_MAX \<le> i then INT_MAX else if i \<le> INT_MIN then INT_MIN else i) (d_of_int i))], m') \<and> plenty m'"
    if "plenty m" for n i ms m
    unfolding bscJSON_AddNumberToObject_def by (rule add_created_plenty [OF that]) (simp add: bscJSON_CreateNumber_def new_item_plenty)
  obtain m1 where m1: "bscJSON_CreateObject (s_mem s) = (Some (BObject []), m1)" "plenty m1"
    using new_item_plenty [OF assms(1)] by (auto simp: bscJSON_CreateObject_def)
  obtain m2 where m2: "bscJSON_CreateObject m1 = (Some (BObject []), m2)" "plenty m2"
    using new_item_plenty [OF m1(2)] by (auto simp: bscJSON_CreateObject_def)
  obtain m3 where m3: "bscJSON_CreateObject m2 = (Some (BObject []), m3)" "plenty m3"
    using new_item_plenty [OF m2(2)] by (auto simp: bscJSON_CreateObject_def)
  obtain m4 where m4: "bscJSON_AddStringToObject ''domain'' d ([], m3) = ([(''domain'', BString d)], m4)" "plenty m4"
    using str [OF m3(2), of "''domain''" d "[]"] by auto
  obtain m5 where m5: "bscJSON_AddStringToObject ''identifier'' key ([(''domain'', BString d)], m4) =
      ([(''domain'', BString d), (''identifier'', BString key)], m5)" "plenty m5"
    using str [OF m4(2), of "''identifier''" key "[(''domain'', BString d)]"] by auto
  let ?rep = "[(''domain'', BString d), (''identifier'', BString key), (''value'', j)]"
  obtain m6 where m6: "add_item_to_object [(''domain'', BString d), (''identifier'', BString key)] ''value'' (Some j) m5 = (True, ?rep, m6)" "plenty m6"
    using add_item_ok [OF m5(2), of "[(''domain'', BString d), (''identifier'', BString key)]" "''value''" j] by auto
  obtain m7 where m7: "add_item_to_object [] ''reported'' (Some (BObject ?rep)) m6 = (True, [(''reported'', BObject ?rep)], m7)" "plenty m7"
    using add_item_ok [OF m6(2), of "[]" "''reported''" "BObject ?rep"] by auto
  have v: "\<not> uint ver \<le> INT_MIN" using uint_ge_0 [of ver] unfolding INT_MIN_def by linarith
  let ?st = "[(''reported'', BObject ?rep), (''version'', BNumber (if INT_MAX \<le> uint ver then INT_MAX else uint ver) (d_of_int (uint ver)))]"
  obtain m8 where m8: "bscJSON_AddNumberToObject ''version'' (uint ver) ([(''reported'', BObject ?rep)], m7) = (?st, m8)" "plenty m8"
    using num [OF m7(2), of "''version''" "uint ver" "[(''reported'', BObject ?rep)]"] v by auto
  obtain m9 where m9: "bscJSON_AddStringToObject ''method'' ''report'' ([], m8) = ([(''method'', BString ''report'')], m9)" "plenty m9"
    using str [OF m8(2), of "''method''" "''report''" "[]"] by auto
  let ?rt = "[(''method'', BString ''report''), (''spv'', BNumber 3 (d_of_int 3))]"
  obtain m10 where m10: "bscJSON_AddNumberToObject ''spv'' 3 ([(''method'', BString ''report'')], m9) = (?rt, m10)" "plenty m10"
    using num [OF m9(2), of "''spv''" 3 "[(''method'', BString ''report'')]"] by (auto simp: INT_MAX_def INT_MIN_def)
  obtain m11 where m11: "add_item_to_object ?rt ''state'' (Some (BObject ?st)) m10 = (True, ?rt @ [(''state'', BObject ?st)], m11)" "plenty m11"
    using add_item_ok [OF m10(2), of ?rt "''state''" "BObject ?st"] by auto
  have o: "BObject (?rt @ [(''state'', BObject ?st)]) = report_object d key j ver" by (simp add: report_object_def)
  show ?thesis
    by (rule exI [of _ m11], rule conjI [OF m11(2)])
      (simp only: ezDevSDK_Shadow_Report_v3_def m1(1) m2(1) m3(1) m4(1) m5(1) m6(1) m7(1) m8(1) m9(1) m10(1) m11(1) o
        prod.case option.simps simp_thms if_False)
qed

section \<open>What a report says\<close>

text \<open>The log only grows, and the answers of the application and of the heap stay what they are.\<close>

definition onward :: "shadow \<Rightarrow> shadow \<Rightarrow> bool" where
  "onward s s' \<longleftrightarrow> (\<exists>l. s_out s' = s_out s @ l) \<and> s_dev2cloud s' = s_dev2cloud s \<and> g_p2c_buf s' = g_p2c_buf s \<and>
     m_ok (s_mem s') = m_ok (s_mem s)"

lemma onward_refl [simp]: "onward s s"
  by (simp add: onward_def)

lemma onward_trans: "onward s s' \<Longrightarrow> onward s' s'' \<Longrightarrow> onward s s''"
  by (auto simp: onward_def)

lemma plenty_oracle: "plenty m \<longleftrightarrow> m_ok m = (\<lambda>_. True)"
  by (auto simp: plenty_def)

lemma onward_plenty: "onward s s' \<Longrightarrow> plenty (s_mem s) \<Longrightarrow> plenty (s_mem s')"
  by (simp add: onward_def plenty_oracle)

text \<open>
  The value of a key that message \<open>i\<close> has to carry: the one that was pushed, or the one the application answered to the question
  sent just before.
\<close>

definition value_sent :: "shadow \<Rightarrow> nat \<Rightarrow> key_at \<Rightarrow> jnode \<Rightarrow> bool" where
  "value_sent s i x j = (case x of (r, d, k) \<Rightarrow> (case nk_json_value k of
     Some j' \<Rightarrow> j = j'
   | None \<Rightarrow> (\<exists>cb n v buf m m'. 0 < i \<and> s_out s ! (i - 1) = Out_ask cb r d (nk_key k) \<and> s_dev2cloud s cb (i - 1) = Some (n, v) \<and>
       g_p2c_buf s = Some buf \<and> tlv2json \<lparr>shv_length = n, shv_data = v, shv_word = buf\<rparr> m = Some (Some j, m'))))"

text \<open>
  A message from number \<open>n\<close> on reported the value of the key under its version, with the sequence number the key has
  now.
\<close>

definition reported :: "nat \<Rightarrow> shadow \<Rightarrow> key_at \<Rightarrow> bool" where
  "reported n s x = (case x of (r, d, k) \<Rightarrow> (\<exists>i j. n \<le> i \<and> i < length (s_out s) \<and> value_sent s i x j \<and>
     s_out s ! i = Out_report r d (nk_key k) (nk_stat_ver k)
       (json_text False 0 (report_object d (nk_key k) j (nk_stat_ver k))) (Some (nk_msg_seq k))))"

definition same_report :: "node_key_t \<Rightarrow> node_key_t \<Rightarrow> bool" where
  "same_report k k' \<longleftrightarrow> nk_key k' = nk_key k \<and> nk_stat_ver k' = nk_stat_ver k \<and> nk_json_value k' = nk_json_value k \<and>
     nk_msg_seq k' = nk_msg_seq k"

lemma value_sent_onward:
  assumes "onward s s'" and "i \<le> length (s_out s)" and "nk_key k' = nk_key k" and "nk_json_value k' = nk_json_value k"
    and "value_sent s i (r, d, k) j"
  shows "value_sent s' i (r, d, k') j"
proof -
  obtain l where "s_out s' = s_out s @ l" using assms(1) by (auto simp: onward_def)
  then have "0 < i \<Longrightarrow> s_out s' ! (i - 1) = s_out s ! (i - 1)" using assms(2) by (cases i) (auto simp: nth_append)
  then show ?thesis using assms by (auto simp: value_sent_def onward_def split: option.splits)
qed

lemma reported_onward:
  assumes "reported n s (r, d, k)" and "onward s s'" and "same_report k k'"
  shows "reported n s' (r, d, k')"
proof -
  obtain i j where i: "n \<le> i" "i < length (s_out s)" "value_sent s i (r, d, k) j" "s_out s ! i = Out_report r d (nk_key k) (nk_stat_ver k)
       (json_text False 0 (report_object d (nk_key k) j (nk_stat_ver k))) (Some (nk_msg_seq k))"
    using assms(1) by (auto simp: reported_def)
  obtain l where l: "s_out s' = s_out s @ l" using assms(2) by (auto simp: onward_def)
  have "value_sent s' i (r, d, k') j"
    by (rule value_sent_onward [OF assms(2) _ _ _ i(3)]) (use assms(3) i(2) in \<open>simp_all add: same_report_def\<close>)
  then show ?thesis using i l assms(3) by (auto simp: reported_def same_report_def nth_append)
qed

lemma reported_mono: "reported n s x \<Longrightarrow> onward s s' \<Longrightarrow> reported n s' x"
  using reported_onward [of n s _ _ _ s'] by (cases x) (simp add: same_report_def)

lemma Report_v3_says:
  assumes "plenty (s_mem s)" and "ezDevSDK_Shadow_Report_v3 r d key (Some j) ver s = Some (q, s')"
  shows "onward s s' \<and> (\<forall>n. q = Some n \<longrightarrow>
    s_out s' = s_out s @ [Out_report r d key ver (json_text False 0 (report_object d key j ver)) (Some n)])"
proof -
  obtain m where m: "plenty m" "ezDevSDK_Shadow_Report_v3 r d key (Some j) ver s =
     (case print (report_object d key j ver) False m of
        None \<Rightarrow> None
      | Some (None, m10) \<Rightarrow> Some (None, s\<lparr>s_mem := bscJSON_Delete (report_object d key j ver) m10\<rparr>)
      | Some (Some t, m10) \<Rightarrow>
          (let seq = s_send s (length (s_out s)) in
           Some (seq, logged (Out_report r d key ver t seq)
             (s\<lparr>s_mem := free (bscJSON_Delete (report_object d key j ver) m10)\<rparr>))))"
    using Report_v3_prints [OF assms(1)] by blast
  obtain t m1 where p: "print (report_object d key j ver) False m = Some (t, m1)" using assms(2) m(2) by (auto split: option.splits)
  have o: "m_ok m1 = m_ok (s_mem s)" using m_ok_print [OF p] m(1) assms(1) by (simp add: plenty_oracle)
  show ?thesis
  proof (cases t)
    case None
    then show ?thesis using assms(2) m(2) p o by (auto simp: onward_def)
  next
    case (Some x)
    then have "x = json_text False 0 (report_object d key j ver)" using printed_text p by blast
    then show ?thesis using assms(2) m(2) p o Some by (auto simp: onward_def logged_def Let_def)
  qed
qed

lemma value_to_report_says:
  assumes "value_to_report r d k s = Some (v, s')" and "plenty (s_mem s)"
  shows "onward s s' \<and> (\<forall>j. v = Report_value j \<longrightarrow> (\<exists>j'. j = Some j' \<and> value_sent s' (length (s_out s')) (r, d, k) j'))"
proof (cases "nk_json_value k")
  case (Some j)
  obtain m where "bscJSON_Duplicate False j (s_mem s) = (Some j, m)" "plenty m" using duplicate_plenty(1) [OF assms(2)] by blast
  then show ?thesis using assms Some by (auto simp: value_to_report_def onward_def value_sent_def plenty_oracle)
next
  case None
  show ?thesis
  proof (cases "\<exists>cb buf n d. nk_dev2cloud k = Some cb \<and> g_p2c_buf s = Some buf \<and> s_dev2cloud s cb (length (s_out s)) = Some (n, d)")
    case True
    then obtain cb buf n u where c: "nk_dev2cloud k = Some cb" "g_p2c_buf s = Some buf" "s_dev2cloud s cb (length (s_out s)) = Some (n, u)" by blast
    obtain x m where x: "tlv2json \<lparr>shv_length = n, shv_data = u, shv_word = buf\<rparr> (s_mem s) = Some (x, m)"
      using assms(1) None c by (auto simp: value_to_report_def logged_def Let_def split: option.splits)
    have s': "s' = s\<lparr>s_out := s_out s @ [Out_ask cb r d (nk_key k)], s_mem := m\<rparr>"
      and v: "\<And>j. v = Report_value j \<Longrightarrow> \<exists>j'. j = Some j' \<and> x = Some j'"
      using assms(1) None c x by (auto simp: value_to_report_def logged_def Let_def split: option.splits)
    have "value_sent s' (length (s_out s')) (r, d, k) j'" if "x = Some j'" for j'
      unfolding value_sent_def prod.case None option.case
      by (intro exI [of _ cb] exI [of _ n] exI [of _ u] exI [of _ buf] exI [of _ "s_mem s"] exI [of _ m])
        (use c x that in \<open>simp add: s'\<close>)
    moreover have "onward s s'" using m_ok_tlv2json [OF x] by (simp add: s' onward_def)
    ultimately show ?thesis using v by blast
  next
    case False
    then show ?thesis using assms(1) None
      by (auto simp: value_to_report_def onward_def logged_def Let_def split: option.splits)
  qed
qed

lemma do_report_says:
  assumes "do_report r d k s = Some (rv, k', s')" and "plenty (s_mem s)"
  shows "onward s s' \<and> (reported (length (s_out s)) s' (r, d, k') \<or> same_report k k' \<and> (rv = 0 \<longrightarrow> \<not> nk_need_report k'))"
proof (cases "\<not> nk_need_report k \<or> (case nk_timer k of None \<Rightarrow> False | Some e \<Rightarrow> \<not> hal_time_isexpired e s)")
  case True
  then show ?thesis using assms by (auto simp: do_report_def same_report_def split: if_splits)
next
  case False
  let ?s1 = "upd_mem (hal_timer_destroy (nk_timer k)) s" and ?k1 = "k\<lparr>nk_timer := None\<rparr>"
  have s1: "onward s ?s1" by (simp add: onward_def upd_mem_def)
  obtain v s2 where v: "value_to_report r d ?k1 ?s1 = Some (v, s2)"
    using assms(1) False by (auto simp: do_report_def Let_def split: option.splits)
  note v' = value_to_report_says [OF v onward_plenty [OF s1 assms(2)]]
  then have s2: "onward s s2" using onward_trans [OF s1] by blast
  show ?thesis
  proof (cases v)
    case (Report_value j)
    obtain j' where j': "j = Some j'" "value_sent s2 (length (s_out s2)) (r, d, ?k1) j'" using v' Report_value by auto
    obtain q s3 where q: "ezDevSDK_Shadow_Report_v3 r d (nk_key k) (Some j') (nk_stat_ver k) s2 = Some (q, s3)"
      using assms(1) False v Report_value j'(1) by (auto simp: do_report_def Let_def split: option.splits)
    note q' = Report_v3_says [OF onward_plenty [OF s2 assms(2)] q]
    then have s3: "onward s2 s3" by blast
    obtain t s4 where t: "start_timer MINIIMUM_RETRY_INTERVAL s3 = (t, s4)" by force
    then have s4: "onward s3 s4" "s_out s4 = s_out s3"
      using arg_cong [OF t, of "\<lambda>x. m_ok (s_mem (snd x))"] by (auto simp: start_timer_def onward_def case_prod_beta)
    show ?thesis
    proof (cases q)
      case None
      then show ?thesis using assms(1) False v Report_value j'(1) q onward_trans [OF s2 s3] by (auto simp: do_report_def Let_def same_report_def)
    next
      case (Some n)
      then have s': "rv = 0" "k' = ?k1\<lparr>nk_msg_seq := n, nk_timer := t\<rparr>" "s' = s4"
        using assms(1) False v Report_value j'(1) q t by (auto simp: do_report_def Let_def)
      have o: "s_out s4 = s_out s2 @ [Out_report r d (nk_key k) (nk_stat_ver k)
          (json_text False 0 (report_object d (nk_key k) j' (nk_stat_ver k))) (Some n)]" using q' Some s4(2) by auto
      have "value_sent s4 (length (s_out s2)) (r, d, k') j'"
        by (rule value_sent_onward [OF onward_trans [OF s3 s4(1)] _ _ _ j'(2)]) (simp_all add: s'(2))
      moreover have "length (s_out s) \<le> length (s_out s2)" using s2 by (auto simp: onward_def)
      ultimately have "reported (length (s_out s)) s' (r, d, k')"
        unfolding reported_def s' prod.case by (intro exI [of _ "length (s_out s2)"] exI [of _ j']) (simp add: o)
      then show ?thesis using onward_trans [OF s2 onward_trans [OF s3 s4(1)]] s'(3) by blast
    qed
  qed (use assms(1) False v s2 in \<open>auto simp: do_report_def Let_def same_report_def\<close>)
qed

end
