(* ===== verification/Shadow_Facts.thy ===== *)
theory Shadow_Facts
  imports Shadow_Report
begin

text \<open>
  What the shadow promises: an answer of the cloud settles the report of the value a key has now, a registered
  property is found again, and what the results of a round mean.
\<close>

section \<open>Changes of one branch\<close>

text \<open>A key that awaits a report is an old one with the same value, version and number.\<close>

definition kept_key :: "key_at list \<Rightarrow> key_at \<Rightarrow> bool" where
  "kept_key xs x = (case x of (r, d, k') \<Rightarrow> nk_msg_seq k' = 0 \<or> (\<exists>k. (r, d, k) \<in> set xs \<and> nk_key k' = nk_key k \<and>
     nk_stat_ver k' = nk_stat_ver k \<and> nk_json_value k' = nk_json_value k \<and> nk_msg_seq k' = nk_msg_seq k))"

lemma kept_key_mono: "kept_key xs x \<Longrightarrow> set xs \<subseteq> set ys \<Longrightarrow> kept_key ys x"
  by (auto simp: kept_key_def split: prod.splits)

lemma kept_key_old: "x \<in> set xs \<Longrightarrow> kept_key xs x"
  by (cases x) (auto simp: kept_key_def)

lemma find_pos_Some: "find_pos p ns = Some i \<Longrightarrow> i < length ns \<and> p (ns ! i) \<and> (\<forall>j<i. \<not> p (ns ! j))"
proof (induction ns arbitrary: i)
  case (Cons n ns)
  then show ?case by (auto split: if_splits simp: less_Suc_eq_0_disj)
qed simp

lemma find_pos_find: "List.find p ns = map_option ((!) ns) (find_pos p ns)"
  by (induction ns) (auto simp: option.map_comp o_def)

lemma kept_key_update:
  assumes "i < length ns" and "\<forall>x \<in> set (items n'). kept_key (items (ns ! i)) x"
  shows "\<forall>x \<in> set (concat (map items (ns[i := n']))). kept_key (concat (map items ns)) x"
proof
  fix x assume "x \<in> set (concat (map items (ns[i := n'])))"
  then obtain n where n: "n \<in> set (ns[i := n'])" "x \<in> set (items n)" by auto
  then have "n = n' \<or> n \<in> set ns" using set_update_subset_insert by fast
  then show "kept_key (concat (map items ns)) x"
  proof
    assume "n = n'"
    then have "kept_key (items (ns ! i)) x" using assms(2) n(2) by simp
    moreover have "set (items (ns ! i)) \<subseteq> set (concat (map items ns))" using nth_mem [OF assms(1)] by auto
    ultimately show ?thesis by (rule kept_key_mono)
  next
    assume "n \<in> set ns"
    then show ?thesis using n(2) by (intro kept_key_old) auto
  qed
qed

lemma kept_key_append:
  assumes "\<forall>x \<in> set (items n'). kept_key [] x"
  shows "\<forall>x \<in> set (concat (map items (ns @ [n']))). kept_key (concat (map items ns)) x"
proof
  fix x assume "x \<in> set (concat (map items (ns @ [n'])))"
  then consider "x \<in> set (concat (map items ns))" | "x \<in> set (items n')" by auto
  then show "kept_key (concat (map items ns)) x"
  proof cases
    case 2
    then have "kept_key [] x" using assms by simp
    then show ?thesis by (rule kept_key_mono) simp
  qed (rule kept_key_old)
qed

text \<open>A change of a node that keeps the keys of the node, and which allocations succeed.\<close>

definition key_steps :: "('n \<Rightarrow> key_at list) \<Rightarrow> ('n \<Rightarrow> mem \<Rightarrow> (int \<times> 'n \<times> mem) option) \<Rightarrow> bool" where
  "key_steps items F \<longleftrightarrow> (\<forall>n m rv n' m'. F n m = Some (rv, n', m') \<longrightarrow>
     m_ok m' = m_ok m \<and> (\<forall>x \<in> set (items n'). kept_key (items n) x))"

lemma key_stepsD: "key_steps items F \<Longrightarrow> F n m = Some (rv, n', m') \<Longrightarrow> m_ok m' = m_ok m \<and> (\<forall>x \<in> set (items n'). kept_key (items n) x)"
  unfolding key_steps_def by blast

lemma malloc_oracle: "malloc m = (ok, m') \<Longrightarrow> m_ok m' = m_ok m"
  using m_ok_mem(2) [of m] by simp

lemma at_node_keeps:
  assumes "at_node p F ns m = Some (rv, ns', m')" and "key_steps items F"
  shows "m_ok m' = m_ok m \<and> (\<forall>x \<in> set (concat (map items ns')). kept_key (concat (map items ns)) x)"
proof (cases "find_pos p ns")
  case None
  then show ?thesis using assms(1) kept_key_old by (auto simp: at_node_def simp del: set_concat)
next
  case (Some i)
  then obtain n' where n': "F (ns ! i) m = Some (rv, n', m')" "ns' = ns[i := n']" using assms(1) by (auto simp: at_node_def)
  then show ?thesis using kept_key_update [of i ns items n'] key_stepsD [OF assms(2) n'(1)] find_pos_Some [OF Some] by simp
qed

lemma in_node_keeps:
  assumes "in_node p new F ns m = Some (rv, ns', m')" and "items new = []" and "key_steps items F"
  shows "m_ok m' = m_ok m \<and> (\<forall>x \<in> set (concat (map items ns')). kept_key (concat (map items ns)) x)"
proof (cases "find_pos p ns")
  case None
  show ?thesis
  proof (cases "ns' = ns")
    case False
    then obtain n' m1 where n': "F new m1 = Some (rv, n', m')" "ns' = ns @ [n']" "m_ok m1 = m_ok m" using assms(1) None
      by (auto simp: in_node_def dest: malloc_oracle split: prod.splits if_splits)
    then show ?thesis using kept_key_append [of items n' ns] key_stepsD [OF assms(3) n'(1)] assms(2) by simp
  next
    case True
    have "m_ok m' = m_ok m"
    proof -
      have "(\<exists>m1. malloc m = (False, m1) \<and> m' = m1) \<or> (\<exists>n' m1. F new m1 = Some (rv, n', m') \<and> ns' = ns @ [n'])" using assms(1) None
        by (auto simp: in_node_def split: prod.splits if_splits)
      then show ?thesis using True malloc_oracle by auto
    qed
    then show ?thesis using True kept_key_old by blast
  qed
next
  case (Some i)
  then obtain n' where n': "F (ns ! i) m = Some (rv, n', m')" "ns' = ns[i := n']" using assms(1) by (auto simp: in_node_def)
  then show ?thesis using kept_key_update [of i ns items n'] key_stepsD [OF assms(3) n'(1)] find_pos_Some [OF Some] by simp
qed

lemma map_option3: "map_option (\<lambda>(rv, l, m). (rv, g l, m)) x = Some (rv, n', m') \<longleftrightarrow> (\<exists>l. x = Some (rv, l, m') \<and> n' = g l)"
  by (cases x) auto

lemma key_steps_at:
  assumes "\<And>n. key_steps (ic n) G" and "\<And>n l. items (upd n l) = concat (map (ic n) l)" and "\<And>n. items n = concat (map (ic n) (get n))"
  shows "key_steps items (\<lambda>n m. map_option (\<lambda>(rv, l, m). (rv, upd n l, m)) (at_node p G (get n) m))"
  unfolding key_steps_def map_option3
proof (intro allI impI, elim exE conjE)
  fix n m rv n' m' l
  assume l: "at_node p G (get n) m = Some (rv, l, m')" and n': "n' = upd n l"
  show "m_ok m' = m_ok m \<and> (\<forall>x\<in>set (items n'). kept_key (items n) x)"
    unfolding n' assms(2) assms(3) [of n] by (rule at_node_keeps [OF l assms(1)])
qed

lemma key_steps_in:
  assumes "\<And>n. key_steps (ic n) G" and "\<And>n. ic n new = []" and "\<And>n l. items (upd n l) = concat (map (ic n) l)"
    and "\<And>n. items n = concat (map (ic n) (get n))"
  shows "key_steps items (\<lambda>n m. map_option (\<lambda>(rv, l, m). (rv, upd n l, m)) (in_node p new G (get n) m))"
  unfolding key_steps_def map_option3
proof (intro allI impI, elim exE conjE)
  fix n m rv n' m' l
  assume l: "in_node p new G (get n) m = Some (rv, l, m')" and n': "n' = upd n l"
  show "m_ok m' = m_ok m \<and> (\<forall>x\<in>set (items n'). kept_key (items n) x)"
    unfolding n' assms(3) assms(4) [of n] by (rule in_node_keeps [OF l assms(2,1)])
qed

lemma dom_keys_concat:
  "dom_keys r d = concat (map (\<lambda>k. [(r, nd_domain_string d, k)]) (nd_key_lst d))"
  "dom_keys r (d\<lparr>nd_key_lst := l\<rparr>) = concat (map (\<lambda>k. [(r, nd_domain_string d, k)]) l)"
  by (simp_all add: dom_keys_def concat_map_singleton)

lemmas keys_concat = index_keys_def set_keys_def dev_keys_def

lemma changed_keeps:
  assumes "shadow_core_propertie_changed sn ty i d key v s = Some (rv, s')"
  shows "(\<forall>x \<in> set (all_keys (g_shadow_modules s')). kept_key (all_keys (g_shadow_modules s)) x) \<and> onward s s'"
proof -
  have k: "key_steps (\<lambda>k. [(r, o', k)]) (change_key v)" for r o'
    by (auto simp: key_steps_def change_key_def kept_key_def Let_def dest: m_ok_tlv2json split: option.splits)
  have "key_steps (dom_keys r) (\<lambda>o' m. map_option (\<lambda>(rv, l, m). (rv, o'\<lparr>nd_key_lst := l\<rparr>, m))
      (at_node (\<lambda>k. nk_key k = key) (change_key v) (nd_key_lst o') m))" for r
    by (rule key_steps_at [where ic = "\<lambda>o' k. [(r, nd_domain_string o', k)]", OF k dom_keys_concat(2,1)])
  from key_steps_at [OF this keys_upd(2) index_keys_def]
  have "key_steps (index_keys sn' ty') (\<lambda>i m. map_option (\<lambda>(rv, l, m). (rv, i\<lparr>ni_domain_lst := l\<rparr>, m))
      (at_node (\<lambda>o'. nd_domain_string o' = d) (\<lambda>o' m. map_option (\<lambda>(rv, l, m). (rv, o'\<lparr>nd_key_lst := l\<rparr>, m))
        (at_node (\<lambda>k. nk_key k = key) (change_key v) (nd_key_lst o') m)) (ni_domain_lst i) m))" for sn' ty' .
  note st = key_steps_at [OF this keys_upd(3) set_keys_def]
  note dv = key_steps_at [OF st keys_upd(4) dev_keys_def]
  show ?thesis using assms at_node_keeps [OF _ dv]
    by (auto simp: shadow_core_propertie_changed_def all_keys_def onward_def simp del: set_concat)
qed

lemma kept_key_trans: "kept_key ys x \<Longrightarrow> \<forall>y \<in> set ys. kept_key xs y \<Longrightarrow> kept_key xs x"
  by (cases x) (fastforce simp: kept_key_def)

lemma add_keys_keeps:
  "add_keys bs ks m = Some (ks', m') \<Longrightarrow> \<forall>x \<in> set (map (\<lambda>k. (r, o', k)) ks'). kept_key (map (\<lambda>k. (r, o', k)) ks) x"
proof (induction bs ks m rule: add_keys.induct)
  case (2 b bs ks m)
  let ?K = "map (\<lambda>k. (r, o', k))"
  show ?case
  proof (cases "find_pos (\<lambda>k. nk_key k = sb_key b) ks")
    case None
    obtain m1 where m1: "malloc m = (True, m1)" using 2(3) None by (cases "malloc m") (auto split: if_splits)
    let ?k = "\<lparr>nk_key = strncpy0 31 (sb_key b), nk_cloud2dev = sb_business2dev b,
            nk_dev2cloud = sb_business2cloud b, nk_stat_ver = 0, nk_need_report = True, nk_timer = None, nk_msg_seq = 0,
            nk_json_value = None\<rparr>"
    have "\<forall>x \<in> set (?K ks'). kept_key (?K (ks @ [?k])) x" using 2(1) [OF None m1 [symmetric]] 2(3) None m1 by simp
    moreover have "\<forall>y \<in> set (?K (ks @ [?k])). kept_key (?K ks) y"
    proof
      fix y assume "y \<in> set (?K (ks @ [?k]))"
      then consider "y \<in> set (?K ks)" | "y = (r, o', ?k)" by auto
      then show "kept_key (?K ks) y" by cases (rule kept_key_old, assumption, simp add: kept_key_def)
    qed
    ultimately show ?thesis using kept_key_trans by blast
  next
    case (Some i)
    let ?k = "(ks ! i)\<lparr>nk_cloud2dev := sb_business2dev b, nk_dev2cloud := sb_business2cloud b, nk_need_report := True\<rparr>"
    have i: "i < length ks" using find_pos_Some [OF Some] by simp
    have "\<forall>x \<in> set (?K ks'). kept_key (?K (ks[i := ?k])) x" using 2(2) [OF Some] 2(3) Some by simp
    moreover have "\<forall>y \<in> set (?K (ks[i := ?k])). kept_key (?K ks) y"
    proof
      fix y assume "y \<in> set (?K (ks[i := ?k]))"
      then consider "y \<in> set (?K ks)" | "y = (r, o', ?k)" using set_update_subset_insert [of ks i ?k] by auto
      then show "kept_key (?K ks) y"
      proof cases
        case 2
        have "(r, o', ks ! i) \<in> set (?K ks)" using i by simp
        then show ?thesis using 2 by (auto simp: kept_key_def)
      qed (rule kept_key_old)
    qed
    ultimately show ?thesis using kept_key_trans by blast
  qed
qed (auto intro: kept_key_old)

lemma add_keys_oracle: "add_keys bs ks m = Some (ks', m') \<Longrightarrow> m_ok m' = m_ok m"
  by (induction bs ks m rule: add_keys.induct) (auto dest: malloc_oracle split: option.splits prod.splits if_splits)

lemma added_keeps:
  assumes "shadow_core_module_addv3 sn ty i d props s = Some (rv, s')"
  shows "(\<forall>x \<in> set (all_keys (g_shadow_modules s')). kept_key (all_keys (g_shadow_modules s)) x) \<and> onward s s'"
proof -
  have d: "key_steps (dom_keys r) (\<lambda>o' m. map_option (\<lambda>(ks, m1). (0, o'\<lparr>nd_key_lst := ks\<rparr>, m1)) (add_keys props (nd_key_lst o') m))" for r
    unfolding key_steps_def
  proof (intro allI impI)
    fix o1 o2 :: node_domain_t and m rv m'
    assume "map_option (\<lambda>(ks, m1). (0, o1\<lparr>nd_key_lst := ks\<rparr>, m1)) (add_keys props (nd_key_lst o1) m) = Some (rv, o2, m')"
    then obtain ks where ks: "add_keys props (nd_key_lst o1) m = Some (ks, m')" "o2 = o1\<lparr>nd_key_lst := ks\<rparr>" by auto
    show "m_ok m' = m_ok m \<and> (\<forall>x\<in>set (dom_keys r o2). kept_key (dom_keys r o1) x)"
      unfolding ks(2) keys_upd dom_keys_def [of r o1] using add_keys_oracle [OF ks(1)] add_keys_keeps [OF ks(1)] by blast
  qed
  have ad: "key_steps (index_keys sn' ty') (\<lambda>i m. map_option (\<lambda>(rv, l, m). (rv, i\<lparr>ni_domain_lst := l\<rparr>, m))
      (shadow_module_add_domain d props shadow_prot_ver_3 (ni_domain_lst i) m))" for sn' ty'
  proof (cases "props = []")
    case True
    then show ?thesis by (auto simp: key_steps_def shadow_module_add_domain_def keys_upd index_keys_def intro!: kept_key_old simp del: set_concat)
  next
    case False
    then show ?thesis unfolding shadow_module_add_domain_def if_not_P [OF False]
      by (intro key_steps_in [OF d _ keys_upd(2) index_keys_def]) (simp add: dom_keys_def)
  qed
  note st = key_steps_in [OF ad _ keys_upd(3) set_keys_def, where new = "new_index i"]
  have st: "key_steps (set_keys sn') (\<lambda>t m. map_option (\<lambda>(rv, l, m). (rv, t\<lparr>ns_index_lst := l\<rparr>, m))
      (in_node (\<lambda>j. ni_index j = i) (new_index i) (\<lambda>i m. map_option (\<lambda>(rv, l, m). (rv, i\<lparr>ni_domain_lst := l\<rparr>, m))
        (shadow_module_add_domain d props shadow_prot_ver_3 (ni_domain_lst i) m)) (ns_index_lst t) m))" for sn'
    by (rule st) (simp add: index_keys_def new_index_def)
  have dv: "key_steps dev_keys (\<lambda>v m. map_option (\<lambda>(rv, l, m). (rv, v\<lparr>nv_type_lst := l\<rparr>, m))
      (in_node (\<lambda>t. ns_type t = ty) (new_set ty) (\<lambda>t m. map_option (\<lambda>(rv, l, m). (rv, t\<lparr>ns_index_lst := l\<rparr>, m))
      (in_node (\<lambda>j. ni_index j = i) (new_index i) (\<lambda>i m. map_option (\<lambda>(rv, l, m). (rv, i\<lparr>ni_domain_lst := l\<rparr>, m))
        (shadow_module_add_domain d props shadow_prot_ver_3 (ni_domain_lst i) m)) (ns_index_lst t) m)) (nv_type_lst v) m))"
    by (rule key_steps_in [OF st _ keys_upd(4) dev_keys_def]) (simp add: set_keys_def new_set_def)
  show ?thesis using assms in_node_keeps [OF _ _ dv]
    by (auto simp: shadow_core_module_addv3_def all_keys_def dev_keys_def onward_def simp del: set_concat)
qed

section \<open>Answers are current\<close>

text \<open>A key awaits the answer to a report of the value and the version it has now; there is memory.\<close>

definition current :: "shadow \<Rightarrow> key_at \<Rightarrow> bool" where
  "current s x \<longleftrightarrow> (nk_msg_seq (snd (snd x)) \<noteq> 0 \<longrightarrow> reported 0 s x)"

definition fresh :: "shadow \<Rightarrow> bool" where
  "fresh s \<longleftrightarrow> plenty (s_mem s) \<and> (\<forall>x \<in> set (all_keys (g_shadow_modules s)). current s x)"

definition extends :: "shadow \<Rightarrow> shadow \<Rightarrow> bool" where
  "extends s s' \<longleftrightarrow> (\<forall>x \<in> set (all_keys (g_shadow_modules s')). kept_key (all_keys (g_shadow_modules s)) x) \<and> onward s s'"

lemma current_onward: "current s (r, d, k) \<Longrightarrow> onward s s' \<Longrightarrow> same_report k k' \<Longrightarrow> current s' (r, d, k')"
  using reported_onward [of 0 s r d k s' k'] by (auto simp: current_def same_report_def)

lemma current_mono: "current s x \<Longrightarrow> onward s s' \<Longrightarrow> current s' x"
  using reported_mono [of 0 s x s'] by (simp add: current_def)

lemma fresh_extends: "fresh s \<Longrightarrow> extends s s' \<Longrightarrow> fresh s'"
proof -
  assume f: "fresh s" and e: "extends s s'"
  have "current s' x" if x: "x \<in> set (all_keys (g_shadow_modules s'))" for x
  proof -
    obtain r d k' where p: "x = (r, d, k')" by (cases x)
    have "kept_key (all_keys (g_shadow_modules s)) x" using e x by (simp add: extends_def)
    then consider "nk_msg_seq k' = 0" | k where "(r, d, k) \<in> set (all_keys (g_shadow_modules s))" "same_report k k'"
      by (auto simp: p kept_key_def same_report_def)
    then show ?thesis
    proof cases
      case 2
      then have "current s (r, d, k)" using f by (simp add: fresh_def)
      then show ?thesis using current_onward e 2(2) by (simp add: p extends_def)
    qed (simp add: p current_def)
  qed
  then show "fresh s'" using f e onward_plenty [of s s'] by (simp add: fresh_def extends_def)
qed

lemma extends_same: "g_shadow_modules s' = g_shadow_modules s \<Longrightarrow> onward s s' \<Longrightarrow> extends s s'"
  by (auto simp: extends_def intro: kept_key_old)

lemma extends_refl: "extends s s"
  by (rule extends_same) simp_all

lemma extends_trans: "extends s s' \<Longrightarrow> extends s' s'' \<Longrightarrow> extends s s''"
  unfolding extends_def using kept_key_trans onward_trans by blast

text \<open>Loops.\<close>

lemma walk_rel:
  assumes "\<And>x s go x' s'. f x s = Some (go, x', s') \<Longrightarrow> P s x \<Longrightarrow> P s' x' \<and> R s s'"
    and "\<And>s s' x. R s s' \<Longrightarrow> P s x \<Longrightarrow> P s' x" and "\<And>s. R s s" and "\<And>s s' s''. R s s' \<Longrightarrow> R s' s'' \<Longrightarrow> R s s''"
  shows "walk_nodes f xs s = Some (go, xs', s') \<Longrightarrow> \<forall>x \<in> set xs. P s x \<Longrightarrow> (\<forall>x \<in> set xs'. P s' x) \<and> R s s'"
proof (induction xs arbitrary: s go xs' s')
  case (Cons x xs)
  obtain go1 x1 s1 where x1: "f x s = Some (go1, x1, s1)" using Cons.prems(1) by (auto split: option.splits)
  then have p: "P s1 x1" "R s s1" using assms(1) Cons.prems(2) by auto
  then have q: "\<forall>x \<in> set xs. P s1 x" using assms(2) Cons.prems(2) by auto
  show ?case
  proof (cases go1)
    case True
    then obtain xs1 where xs1: "walk_nodes f xs s1 = Some (go, xs1, s')" "xs' = x1 # xs1"
      using Cons.prems(1) x1 by (cases "walk_nodes f xs s1") auto
    have ih: "\<forall>x \<in> set xs1. P s' x" "R s1 s'" using Cons.IH [OF xs1(1) q] by auto
    have "P s' x1" by (rule assms(2) [OF ih(2) p(1)])
    moreover have "R s s'" by (rule assms(4) [OF p(2) ih(2)])
    ultimately show ?thesis using xs1(2) ih(1) by simp
  next
    case False
    then show ?thesis using Cons.prems(1) x1 p q by auto
  qed
qed (use assms(3) in auto)

lemma do_report_current:
  assumes "do_report r d k s = Some (rv, k', s')" and "current s (r, d, k)" and "plenty (s_mem s)"
  shows "current s' (r, d, k') \<and> onward s s'"
proof -
  have "reported (length (s_out s)) s' (r, d, k') \<Longrightarrow> reported 0 s' (r, d, k')" by (auto simp: reported_def)
  then show ?thesis using do_report_says [OF assms(1,3)] current_onward [OF assms(2), of s' k'] by (auto simp: current_def)
qed

lemma walk_keys_Some: "walk_keys f ms s = Some (go, ms', s') \<Longrightarrow> walk_nodes (flat f) (all_keys ms) s = Some (go, all_keys ms', s')"
  using walk_keys_flat [of f ms s] by simp

lemma proc_report_fresh:
  assumes "shadow_proc_report s = Some (rv, s')" and "fresh s"
  shows "fresh s'"
proof -
  obtain go ms n s1 where w: "walk_keys report_key (g_shadow_modules s) (0, s) = Some (go, ms, n, s1)"
    "s' = s1\<lparr>g_shadow_modules := ms\<rparr>"
    using assms(1) by (auto simp: shadow_proc_report_def split: option.splits)
  have "(\<forall>x \<in> set (all_keys ms). plenty (s_mem (snd (n, s1))) \<and> current (snd (n, s1)) x) \<and> onward (snd (0 :: nat, s)) (snd (n, s1))"
  proof (rule walk_rel [where P = "\<lambda>ns x. plenty (s_mem (snd ns)) \<and> current (snd ns) x" and R = "\<lambda>ns ns'. onward (snd ns) (snd ns')",
        OF _ _ _ _ walk_keys_Some [OF w(1)]])
    fix x :: key_at and ns go x' and ns' :: "nat \<times> shadow"
    assume f: "flat report_key x ns = Some (go, x', ns')" and c: "plenty (s_mem (snd ns)) \<and> current (snd ns) x"
    obtain r d k where x: "x = (r, d, k)" by (cases x)
    obtain rv k' s' where k: "do_report r d k (snd ns) = Some (rv, k', s')" "x' = (r, d, k')" "snd ns' = s'"
      using f by (cases ns) (auto simp: x flat_def report_key_def)
    show "(plenty (s_mem (snd ns')) \<and> current (snd ns') x') \<and> onward (snd ns) (snd ns')"
      using do_report_current [OF k(1)] c k(2,3) onward_plenty by (auto simp: x)
  qed (use assms(2) in \<open>auto simp: fresh_def intro: current_mono onward_plenty onward_trans\<close>)
  moreover have "onward s1 (s1\<lparr>g_shadow_modules := ms\<rparr>)" by (simp add: onward_def)
  ultimately show ?thesis using assms(2) onward_plenty current_mono by (auto simp: fresh_def w(2))
qed

lemma visit_state:
  assumes "\<And>n s n' s'. f n s = (n', s') \<Longrightarrow> R s s'" and "\<And>s. R s s" and "\<And>s s' s''. R s s' \<Longrightarrow> R s' s'' \<Longrightarrow> R s s''"
  shows "visit f ns s = (ns', s') \<Longrightarrow> R s s'"
proof (induction ns arbitrary: s ns')
  case (Cons n ns)
  obtain n1 s1 ns1 where "f n s = (n1, s1)" "visit f ns s1 = (ns1, s')" using Cons.prems by (auto split: prod.splits)
  then show ?case using assms(1,3) Cons.IH by blast
qed (use assms(2) in simp)

lemma walk_indices_state:
  assumes "\<And>r i s go i' s'. f r i s = (go, i', s') \<Longrightarrow> R s s'"
    and "\<And>s. R s s" and "\<And>s s' s''. R s s' \<Longrightarrow> R s' s'' \<Longrightarrow> R s s''"
    and "walk_indices f ms s = (ms', s')"
  shows "R s s'"
proof -
  have w: "R s s'" if "walk_nodes (\<lambda>idx s. Some (f (sn, ty, ni_index idx) idx s)) ns s = Some (go, ns', s')" for sn ty ns s go ns' s'
    using walk_rel [of "\<lambda>idx s. Some (f (sn, ty, ni_index idx) idx s)" "\<lambda>s x. True" R ns s go ns' s'] that assms(1-3) by blast
  have v: "R s s'" if "(case walk_nodes (\<lambda>idx s. Some (f (sn, ns_type t, ni_index idx) idx s)) (ns_index_lst t) s of
          None \<Rightarrow> (t, s) | Some (_, l, s1) \<Rightarrow> (t\<lparr>ns_index_lst := l\<rparr>, s1)) = (t', s')" for sn t s t' s'
    using that w assms(2) by (auto split: option.splits)
  have d: "R s s'" if m: "map_prod (\<lambda>l. dev\<lparr>nv_type_lst := l\<rparr>) id (visit (\<lambda>t s. case walk_nodes (\<lambda>idx s. Some (f (nv_dev_sn dev, ns_type t, ni_index idx) idx s)) (ns_index_lst t) s of
          None \<Rightarrow> (t, s) | Some (_, l, s1) \<Rightarrow> (t\<lparr>ns_index_lst := l\<rparr>, s1)) (nv_type_lst dev) s) = (dev', s')" for dev dev' :: node_dev_t and s s'
  proof -
    from m obtain l where "visit (\<lambda>t s. case walk_nodes (\<lambda>idx s. Some (f (nv_dev_sn dev, ns_type t, ni_index idx) idx s)) (ns_index_lst t) s of
          None \<Rightarrow> (t, s) | Some (_, l, s1) \<Rightarrow> (t\<lparr>ns_index_lst := l\<rparr>, s1)) (nv_type_lst dev) s = (l, s')"
      unfolding map_prod_fst by blast
    then show ?thesis
    proof (rule visit_state [where R = R, rotated -1])
      fix n s n' s'
      assume "(case walk_nodes (\<lambda>idx s. Some (f (nv_dev_sn dev, ns_type n, ni_index idx) idx s)) (ns_index_lst n) s of
          None \<Rightarrow> (n, s) | Some (_, l, s1) \<Rightarrow> (n\<lparr>ns_index_lst := l\<rparr>, s1)) = (n', s')"
      then show "R s s'" by (rule v)
    next
      fix s s' s'' show "R s s" by (rule assms(2))
      assume "R s s'" "R s' s''" then show "R s s''" by (rule assms(3))
    qed
  qed
  show ?thesis using assms(4) unfolding walk_indices_def
  proof (rule visit_state [where R = R, rotated -1])
    fix n n' :: node_dev_t and s s'
    assume "map_prod (\<lambda>l. n\<lparr>nv_type_lst := l\<rparr>) id (visit (\<lambda>t s. case walk_nodes (\<lambda>idx s. Some (f (nv_dev_sn n, ns_type t, ni_index idx) idx s)) (ns_index_lst t) s of
          None \<Rightarrow> (t, s) | Some (_, l, s1) \<Rightarrow> (t\<lparr>ns_index_lst := l\<rparr>, s1)) (nv_type_lst n) s) = (n', s')"
    then show "R s s'" by (rule d)
  next
    fix s s' s'' show "R s s" by (rule assms(2))
    assume "R s s'" "R s' s''" then show "R s s''" by (rule assms(3))
  qed
qed

lemma proc_sync_extends: "extends s (snd (shadow_proc_sync s))"
proof -
  obtain ms n rv s1 where w: "walk_indices sync_index (g_shadow_modules s) (0, 0, s) = (ms, n, rv, s1)"
    by (metis prod_cases4)
  have "all_keys ms = all_keys (g_shadow_modules s)"
    by (rule walk_indices_keys [OF _ w]) (auto simp: sync_index_def Let_def split: if_splits option.splits prod.splits)
  moreover have "onward (snd (snd (0 :: nat, 0 :: int, s))) (snd (snd (n, rv, s1)))"
    by (rule walk_indices_state [where R = "\<lambda>a b. onward (snd (snd a)) (snd (snd b))", OF _ _ _ w])
      (auto simp: sync_index_def start_timer_def upd_mem_def Shadow_QuerySyncListToPlt_v3_def logged_def Let_def onward_def
        dest: malloc_oracle split: if_splits option.splits prod.splits)
  moreover have "onward s1 (s1\<lparr>g_shadow_modules := ms\<rparr>)" by (simp add: onward_def)
  ultimately show ?thesis using onward_trans by (auto simp: shadow_proc_sync_def w extends_def intro: kept_key_old)
qed

lemma status2sync_extends: "extends s (shadow_status2sync s)"
proof -
  obtain ms m where w: "walk_indices (\<lambda>r i m. (True, i\<lparr>ni_need_sync := True, ni_timer := None, ni_retry_count := 0\<rparr>, hal_timer_destroy (ni_timer i) m))
        (g_shadow_modules s) (s_mem s) = (ms, m)" by force
  have "all_keys ms = all_keys (g_shadow_modules s)" by (rule walk_indices_keys [OF _ w]) auto
  moreover have "m_ok m = m_ok (s_mem s)"
    by (rule walk_indices_state [where R = "\<lambda>m m'. m_ok m' = m_ok m", OF _ _ _ w]) auto
  ultimately show ?thesis by (auto simp: shadow_status2sync_def w extends_def onward_def intro: kept_key_old)
qed

lemma m_ok_visit:
  assumes "\<And>n m. m_ok (snd (f n m)) = m_ok m"
  shows "m_ok (snd (visit f ns m)) = m_ok m"
  using assms by (induction ns arbitrary: m) (simp_all add: case_prod_beta)

lemma m_ok_reset_index: "m_ok (snd (reset_index i m)) = m_ok m"
  unfolding reset_index_def
  by (simp add: case_prod_beta m_ok_visit reset_key_def)

lemma reset_oracle: "m_ok (s_mem (shadow_status_reset s)) = m_ok (s_mem s)"
  by (simp add: shadow_status_reset_def case_prod_beta m_ok_visit m_ok_reset_index)

lemma reset_extends: "extends s (shadow_status_reset s)"
proof -
  have "kept_key xs (due x)" if "x \<in> set xs" for xs x
  proof -
    obtain r d k where x: "x = (r, d, k)" by (cases x)
    then have "(r, d, k) \<in> set xs" using that by simp
    then show ?thesis unfolding x due_def kept_key_def prod.case by (intro disjI2 exI [of _ k]) auto
  qed
  moreover have "onward s (shadow_status_reset s)"
    using reset_oracle [of s] by (simp add: onward_def shadow_status_reset_def case_prod_beta)
  ultimately show ?thesis by (auto simp: extends_def reset_keys)
qed

lemma check_extends: "extends s (check_status_update s)"
proof -
  let ?s = "if g_need_reset s then shadow_status_reset s else if g_need_sync s then shadow_status2sync s else s"
  have e: "extends s ?s" using reset_extends status2sync_extends extends_refl by simp
  have "extends s' (s'\<lparr>g_need_reset := False, g_need_sync := False, g_need_report := False, g_shadow_status := st\<rparr>)" for s' st
    by (rule extends_same) (simp_all add: onward_def)
  from extends_trans [OF e this] show ?thesis
    unfolding check_status_update_def Let_def
    by (cases "g_need_reset s \<or> g_need_sync s \<or> g_need_report s") (simp_all only: if_True if_False extends_refl)
qed

lemma proc_do_fresh: "shadow_proc_do s = Some (rv, s') \<Longrightarrow> fresh s \<Longrightarrow> fresh s'"
proof -
  assume a: "shadow_proc_do s = Some (rv, s')" "fresh s"
  let ?s = "check_status_update s"
  have f: "fresh ?s" by (rule fresh_extends [OF a(2) check_extends])
  have st: "fresh (x\<lparr>g_shadow_status := t\<rparr>)" if "fresh x" for x t
    by (rule fresh_extends [OF that extends_same]) (simp_all add: onward_def)
  let ?r = "case g_shadow_status ?s of
              shadow_core_status_report \<Rightarrow> shadow_proc_report ?s
            | shadow_core_status_sync \<Rightarrow> Some (shadow_proc_sync ?s)
            | shadow_core_status_chg \<Rightarrow> shadow_proc_chg ?s
            | shadow_core_status_max \<Rightarrow> Some (- 1, ?s)"
  obtain r s1 where r: "?r = Some (r, s1)" using a(1) unfolding shadow_proc_do_def Let_def by (cases ?r) auto
  have s': "s' = s1 \<or> s' = s1\<lparr>g_shadow_status := next_status (g_shadow_status s1)\<rparr>"
    using a(1) unfolding shadow_proc_do_def Let_def r by (simp split: if_splits)
  have "fresh s1"
  proof (cases "g_shadow_status ?s")
    case shadow_core_status_sync
    then show ?thesis using r fresh_extends [OF f proc_sync_extends] by simp
  qed (use r f proc_report_fresh in \<open>auto simp: shadow_proc_chg_def\<close>)
  then show "fresh s'" using s' st by auto
qed

lemma event_extends: "extends s (shadow_core_event_occured e s)"
  by (rule extends_same) (simp_all add: shadow_core_event_occured_def Let_def onward_def split: shadow_event_type_e.splits)

section \<open>Answers\<close>

lemma extends_upd_mem: "(\<And>m. m_ok (f m) = m_ok m) \<Longrightarrow> extends s (upd_mem f s)"
  by (rule extends_same) (simp_all add: upd_mem_def onward_def)

lemma extends_delete: "extends s (upd_mem (bscJSON_Delete j) s)"
  by (rule extends_upd_mem) simp

text \<open>What the loop over the keys does to each of them.\<close>

lemma walk_all2:
  assumes "\<And>x s go x' s'. f x s = Some (go, x', s') \<Longrightarrow> Q x x'" and "\<And>x. Q x x"
  shows "walk_nodes f xs s = Some (go, xs', s') \<Longrightarrow> list_all2 Q xs xs'"
proof (induction xs arbitrary: s go xs' s')
  case (Cons x xs)
  then show ?case using assms by (auto split: option.splits bool.splits simp: list_all2_refl)
qed simp

text \<open>A key the answer \<open>rv\<close> to the message \<open>seq\<close> settles.\<close>

definition answered :: "u32 \<Rightarrow> int \<Rightarrow> key_at \<Rightarrow> key_at \<Rightarrow> bool" where
  "answered seq rv x x' = (case x of (r, d, k) \<Rightarrow> nk_msg_seq k = seq \<and>
     x' = (r, d, (if rv = 0 then k\<lparr>nk_need_report := False, nk_json_value := None\<rparr> else k)\<lparr>nk_msg_seq := 0, nk_timer := None\<rparr>))"

lemma reply_keys:
  "list_all2 (\<lambda>x x'. x' = x \<or> answered seq rv x x') (all_keys (g_shadow_modules s)) (all_keys (g_shadow_modules (shadow_reply2report seq rv s)))"
proof (cases "walk_keys (reply_key seq rv) (g_shadow_modules s) (s_mem s)")
  case None
  then show ?thesis by (simp add: shadow_reply2report_def list_all2_refl)
next
  case (Some w)
  obtain go ms m where w: "w = (go, ms, m)" by (cases w)
  have "list_all2 (\<lambda>x x'. x' = x \<or> answered seq rv x x') (all_keys (g_shadow_modules s)) (all_keys ms)"
  proof (rule walk_all2 [OF _ _ walk_keys_Some [OF Some [unfolded w]]])
    fix x go x' and m m' :: mem
    assume "flat (reply_key seq rv) x m = Some (go, x', m')"
    then show "x' = x \<or> answered seq rv x x'"
      by (cases x) (auto simp: flat_def reply_key_def answered_def Let_def split: if_splits)
  qed simp
  then show ?thesis using Some w by (simp add: shadow_reply2report_def)
qed

lemma all2_keeps:
  assumes "list_all2 Q xs ys" and "\<And>x y. Q x y \<Longrightarrow> y = x \<or> nk_msg_seq (snd (snd y)) = 0"
  shows "\<forall>y \<in> set ys. kept_key xs y"
proof
  fix y assume "y \<in> set ys"
  then obtain i where i: "i < length ys" "y = ys ! i" by (auto simp: in_set_conv_nth)
  then have l: "i < length xs" "Q (xs ! i) y" using assms(1) by (auto simp: list_all2_conv_all_nth)
  from assms(2) [OF l(2)] show "kept_key xs y"
  proof
    assume "y = xs ! i"
    then show ?thesis using l(1) by (simp add: kept_key_old)
  qed (auto simp: kept_key_def split: prod.splits)
qed

lemma reply2report_extends: "extends s (shadow_reply2report seq rv s)"
proof -
  have "\<forall>x \<in> set (all_keys (g_shadow_modules (shadow_reply2report seq rv s))). kept_key (all_keys (g_shadow_modules s)) x"
    by (rule all2_keeps [OF reply_keys [of seq rv]]) (auto simp: answered_def split: prod.splits)
  moreover have "onward s (shadow_reply2report seq rv s)"
  proof (cases "walk_keys (reply_key seq rv) (g_shadow_modules s) (s_mem s)")
    case (Some w)
    obtain go ms m where w: "w = (go, ms, m)" by (cases w)
    have "(\<forall>x \<in> set (all_keys ms). True) \<and> m_ok m = m_ok (s_mem s)"
    proof (rule walk_rel [where P = "\<lambda>m x. True" and R = "\<lambda>m m'. m_ok m' = m_ok m", OF _ _ _ _ walk_keys_Some [OF Some [unfolded w]]])
      fix x :: key_at and m go x' m'
      assume "flat (reply_key seq rv) x m = Some (go, x', m')"
      then show "True \<and> m_ok m' = m_ok m" by (cases x) (auto simp: flat_def reply_key_def Let_def split: if_splits)
    qed simp_all
    then show ?thesis by (simp add: shadow_reply2report_def Some w onward_def)
  qed (simp add: shadow_reply2report_def)
  ultimately show ?thesis by (simp add: extends_def)
qed

section \<open>Commands of the cloud\<close>

lemma do_set_extends: "do_set r d k v s = Some (rv, s') \<Longrightarrow> extends s s'"
  by (rule extends_same)
    (auto simp: do_set_def Let_def upd_mem_def logged_def onward_def dest!: m_ok_json2tlv split: option.splits prod.splits if_splits)

lemma set2dev_extends: "shadow_set2dev r p s = Some (rv, s') \<Longrightarrow> extends s s'"
proof -
  assume a: "shadow_set2dev r p s = Some (rv, s')"
  have m: "extends s (s\<lparr>s_mem := m\<rparr>)" if "bscJSON_Parse t (s_mem s) = (j, m)" for t j m
    using that m_ok_Parse [of t "s_mem s"] by (intro extends_same) (simp_all add: onward_def)
  show ?thesis
  proof (cases p)
    case None then show ?thesis using a extends_refl by (simp add: shadow_set2dev_def)
  next
    case (Some t)
    obtain j m1 where j: "bscJSON_Parse (c_str t) (s_mem s) = (j, m1)" by force
    show ?thesis
    proof (cases j)
      case None then show ?thesis using a Some j m [OF j] by (auto simp: shadow_set2dev_def)
    next
      case (Some json_root)
      then obtain s1 where "s' = upd_mem (bscJSON_Delete json_root) s1"
        "s1 = s\<lparr>s_mem := m1\<rparr> \<or> (\<exists>d i v. do_set r d i v (s\<lparr>s_mem := m1\<rparr>) = Some (rv, s1))"
        using a \<open>p = Some t\<close> j by (auto simp: shadow_set2dev_def split: option.splits)
      then show ?thesis using m [OF j] extends_trans [OF m [OF j] do_set_extends] extends_trans [OF _ extends_delete] by blast
    qed
  qed
qed

lemma set_all_extends: "set_all r js s = Some s' \<Longrightarrow> extends s s'"
proof (induction js arbitrary: s)
  case (Cons j js)
  show ?case
  proof (cases "node_item j ''domain'' = None \<or> node_item j ''identifier'' = None \<or> node_item j ''value'' = None")
    case True
    then show ?thesis using Cons by (auto split: option.splits)
  next
    case False
    then obtain d i v where div: "node_item j ''domain'' = Some d" "node_item j ''identifier'' = Some i" "node_item j ''value'' = Some v" by auto
    then obtain rv s1 where s1: "do_set r (node_text d) (node_text i) v s = Some (rv, s1)" "set_all r js s1 = Some s'"
      using Cons.prems by (auto split: option.splits)
    show ?thesis by (rule extends_trans [OF do_set_extends [OF s1(1)] Cons.IH [OF s1(2)]])
  qed
qed (simp add: extends_refl)

end
