(* ===== verification/Shadow_Runs.thy ===== *)
theory Shadow_Runs
  imports Shadow_Facts
begin

text \<open>
  Runs of the shadow: what the application, the cloud, the kernel and the thread do to it, one after the other, and
  what holds after every run.
\<close>

section \<open>Messages\<close>

lemma sync_disable_extends: "extends s (shadow_status_sync_disable r s)"
proof -
  obtain devsn res_type index where r: "r = (devsn, res_type, index)" by (cases r)
  have i: "key_steps (index_keys sn ty) (\<lambda>i m. Some (0, i\<lparr>ni_need_sync := False, ni_timer := None, ni_retry_count := 0\<rparr>, hal_timer_destroy (ni_timer i) m))" for sn ty
    by (auto simp: key_steps_def index_keys_def intro: kept_key_old simp del: set_concat)
  note t = key_steps_at [OF i keys_upd(3) set_keys_def]
  note d = key_steps_at [OF t keys_upd(4) dev_keys_def]
  show ?thesis using at_node_keeps [OF _ d]
    by (auto simp: shadow_status_sync_disable_def r extends_def onward_def all_keys_def intro: kept_key_old simp del: set_concat split: option.splits prod.splits)
qed

lemma reply2query_extends: "shadow_reply2query r p s = Some s' \<Longrightarrow> extends s s'"
proof -
  assume a: "shadow_reply2query r p s = Some s'"
  have m: "extends s (s\<lparr>s_mem := m\<rparr>)" if "bscJSON_Parse t (s_mem s) = (j, m)" for t j m
    using that m_ok_Parse [of t "s_mem s"] by (intro extends_same) (simp_all add: onward_def)
  show ?thesis
  proof (cases p)
    case None
    then show ?thesis using a sync_disable_extends [of s r] by (simp add: shadow_reply2query_def)
  next
    case (Some t)
    obtain j m1 where j: "bscJSON_Parse (c_str t) (s_mem s) = (j, m1)" by force
    show ?thesis
    proof (cases j)
      case None
      then show ?thesis using a \<open>p = Some t\<close> j extends_trans [OF m [OF j] sync_disable_extends [of _ r]] by (auto simp: shadow_reply2query_def)
    next
      case (Some json_root)
      let ?r = "case number_item json_root ''code'' of
               None \<Rightarrow> Some (s\<lparr>s_mem := m1\<rparr>)
             | Some (c, _) \<Rightarrow>
                 (case Option.bind (node_item json_root ''state'') (\<lambda>st. array_item st ''desired'') of
                    Some js \<Rightarrow> if c = 0 then set_all r js (s\<lparr>s_mem := m1\<rparr>) else Some (s\<lparr>s_mem := m1\<rparr>)
                  | None \<Rightarrow> Some (s\<lparr>s_mem := m1\<rparr>))"
      obtain s1 where s1: "s' = upd_mem (bscJSON_Delete json_root) (shadow_status_sync_disable r s1)" "?r = Some s1"
        using a Some \<open>p = Some t\<close> j unfolding shadow_reply2query_def by auto
      have "s1 = s\<lparr>s_mem := m1\<rparr> \<or> (\<exists>js. set_all r js (s\<lparr>s_mem := m1\<rparr>) = Some s1)"
        using s1(2) by (auto split: option.splits if_splits)
      then have "extends s s1" using m [OF j] extends_trans [OF m [OF j] set_all_extends] by blast
      then show ?thesis unfolding s1(1) using extends_trans [OF _ extends_trans [OF sync_disable_extends extends_delete]] by blast
    qed
  qed
qed

lemma Set_Reply_extends: "extends s (Shadow_Set_Reply_v3 r rv seq s)"
  by (rule extends_same) (auto simp: Shadow_Set_Reply_v3_def logged_def onward_def)

lemma cloud_data_in_extends:
  assumes "shadow_core_cloud_data_in r seq b p s = Some (rv, s')"
  shows "extends s s'"
proof -
  let ?r = "if b = ''set''
        then (case payload_text p of None \<Rightarrow> None
          | Some t \<Rightarrow> map_option (\<lambda>(rv, s1). (rv, Shadow_Set_Reply_v3 r rv seq s1)) (shadow_set2dev r t s))
        else if b = ''query_reply''
        then (case payload_text p of None \<Rightarrow> None
          | Some t \<Rightarrow> map_option (\<lambda>s1. (- 1, s1)) (shadow_reply2query r t s))
        else if b = ''report''
        then (case payload_int p of None \<Rightarrow> None | Some i \<Rightarrow> Some (- 1, shadow_reply2report seq i s))
        else Some (- 1, s)"
  obtain s1 where s': "s' = shadow_core_event_occured shadow_event_type_recv s1" "?r = Some (rv, s1)"
    using assms unfolding shadow_core_cloud_data_in_def by (cases ?r) auto
  have s1: "s1 = s \<or> (\<exists>rv t s2. shadow_set2dev r t s = Some (rv, s2) \<and> s1 = Shadow_Set_Reply_v3 r rv seq s2) \<or>
      (\<exists>t. shadow_reply2query r t s = Some s1) \<or> (\<exists>i. s1 = shadow_reply2report seq i s)"
    using s'(2) by (auto split: if_splits option.splits)
  have "extends s s1"
    using s1 extends_refl extends_trans [OF set2dev_extends Set_Reply_extends] reply2query_extends reply2report_extends by blast
  then show ?thesis unfolding s'(1) using extends_trans event_extends by blast
qed

lemma route_extends: "Shadow_v3_extend_data_route_cb msg s = Some s' \<Longrightarrow> extends s s'"
  by (auto simp: Shadow_v3_extend_data_route_cb_def extends_refl bind_eq_Some_conv intro: cloud_data_in_extends split: if_splits)

lemma kernel_event_extends:
  assumes "Shadow_extend_event_cb e s = Some s'"
  shows "extends s s'"
proof -
  have "s' = s \<or> (\<exists>ev. s' = shadow_core_event_occured ev s) \<or>
      (\<exists>sn ty rid seq b p rv. shadow_core_cloud_data_in (res_of_names sn ty rid) seq b p s = Some (rv, s'))"
    using assms unfolding Shadow_extend_event_cb_def
    by (fastforce split: sdk_kernel_event_type.splits option.splits event_ctx.splits if_splits err_ctx.splits)
  then show ?thesis using extends_refl event_extends cloud_data_in_extends by blast
qed

section \<open>Registering and pushing\<close>

lemma same_out_extends: "(\<forall>x \<in> set (all_keys (g_shadow_modules s')). kept_key (all_keys (g_shadow_modules s)) x) \<and> onward s s' \<Longrightarrow> extends s s'"
  by (simp add: extends_def)

lemma register_extends: "ez_iot_shadow_register_v3 pres d props s = Some (rv, s') \<Longrightarrow> extends s s'"
  using extends_trans [OF same_out_extends [OF added_keeps] event_extends] same_out_extends [OF added_keeps]
  by (auto simp: ez_iot_shadow_register_v3_def split: prod.splits if_splits)

lemma push_extends:
  assumes "ez_iot_shadow_push_v3 pres d key v s = Some (rv, s')"
  shows "extends s s'"
proof -
  obtain sn ty i where p: "pres = (sn, ty, i)" by (cases pres)
  note chg = same_out_extends [OF changed_keeps]
  note add = same_out_extends [OF added_keeps]
  obtain s1 where s1: "s' = s1 \<or> s' = shadow_core_event_occured shadow_event_type_report s1"
    "(case shadow_core_propertie_changed sn ty i d key v s of
          None \<Rightarrow> None
        | Some (rv, s1) \<Rightarrow>
            if rv \<noteq> - 1 then Some (rv, s1)
            else (case shadow_core_module_addv3 sn ty i d [\<lparr>sb_key = strncpy0 63 key, sb_business2dev = None, sb_business2cloud = None\<rparr>] s1 of
                None \<Rightarrow> None
              | Some (rv2, s2) \<Rightarrow>
                  if rv2 \<noteq> 0 then Some (rv2, s2)
                  else shadow_core_propertie_changed sn ty i d key v (shadow_core_event_occured shadow_event_type_add s2))) = Some (rv, s1)"
    using assms unfolding ez_iot_shadow_push_v3_def p prod.case by (auto split: if_splits)
  obtain rv1 s2 where s2: "shadow_core_propertie_changed sn ty i d key v s = Some (rv1, s2)"
    using s1(2) by (auto split: option.splits)
  note e2 = chg [OF s2]
  have "extends s s1"
  proof (cases "rv1 \<noteq> - 1")
    case True
    then show ?thesis using s1(2) s2 e2 by simp
  next
    case False
    then obtain rv2 s3 where s3: "shadow_core_module_addv3 sn ty i d [\<lparr>sb_key = strncpy0 63 key, sb_business2dev = None, sb_business2cloud = None\<rparr>] s2 = Some (rv2, s3)"
      using s1(2) s2 by (auto split: option.splits)
    note e3 = extends_trans [OF e2 add [OF s3]]
    have "s1 = s3 \<or> shadow_core_propertie_changed sn ty i d key v (shadow_core_event_occured shadow_event_type_add s3) = Some (rv, s1)"
      using s1(2) s2 s3 False by (auto split: if_splits)
    then show ?thesis using e3 extends_trans [OF e3 extends_trans [OF event_extends chg]] by blast
  qed
  then show ?thesis using s1(1) extends_trans [OF _ event_extends] by blast
qed

section \<open>Runs\<close>

datatype shadow_call =
  Sh_register res string "ez_iot_shadow_business_t list"
| Sh_push res string string "ez_iot_shadow_value_t option"
| Sh_message ezdev_sdk_kernel_submsg_v3
| Sh_event ezdev_sdk_kernel_event
| Sh_round bool int
| Sh_time nat

fun shadow_do :: "shadow_call \<Rightarrow> shadow \<Rightarrow> shadow option" where
  "shadow_do (Sh_register r d props) s = map_option snd (ez_iot_shadow_register_v3 r d props s)"
| "shadow_do (Sh_push r d key v) s = map_option snd (ez_iot_shadow_push_v3 r d key v s)"
| "shadow_do (Sh_message msg) s = Shadow_v3_extend_data_route_cb msg s"
| "shadow_do (Sh_event e) s = Shadow_extend_event_cb e s"
| "shadow_do (Sh_round online rv) s = map_option snd (shadow_core_round online rv s)"
| "shadow_do (Sh_time t) s = Some (s\<lparr>s_now := s_now s + t\<rparr>)"

fun shadow_runs :: "shadow_call list \<Rightarrow> shadow \<Rightarrow> shadow option" where
  "shadow_runs [] s = Some s"
| "shadow_runs (o' # os) s = Option.bind (shadow_do o' s) (shadow_runs os)"

lemma round_fresh:
  assumes "shadow_core_round online rv s = Some (rv', s')" and "fresh s"
  shows "fresh s'"
proof (cases online)
  case True
  let ?s = "if rv \<noteq> 0 then s else if s_posts s = 0 then shadow_status_reset s else s\<lparr>s_posts := s_posts s - 1\<rparr>"
  have "extends s (s\<lparr>s_posts := n\<rparr>)" for n by (rule extends_same) (simp_all add: onward_def)
  then have "extends s ?s" using extends_refl reset_extends by simp
  then have "fresh ?s" by (rule fresh_extends [OF assms(2)])
  moreover have "shadow_proc_do ?s = Some (rv', s')" using assms(1) True by (simp add: shadow_core_round_def)
  ultimately show ?thesis by (rule proc_do_fresh [rotated])
qed (use assms in \<open>simp add: shadow_core_round_def\<close>)

lemma op_fresh: "shadow_do o' s = Some s' \<Longrightarrow> fresh s \<Longrightarrow> fresh s'"
proof -
  assume a: "shadow_do o' s = Some s'" and f: "fresh s"
  show "fresh s'"
  proof (cases o')
    case (Sh_register r d props)
    then obtain rv where "ez_iot_shadow_register_v3 r d props s = Some (rv, s')" using a by auto
    then show ?thesis by (rule fresh_extends [OF f register_extends])
  next
    case (Sh_push r d key v)
    then obtain rv where "ez_iot_shadow_push_v3 r d key v s = Some (rv, s')" using a by auto
    then show ?thesis by (rule fresh_extends [OF f push_extends])
  next
    case (Sh_message msg)
    then show ?thesis using a fresh_extends [OF f route_extends] by simp
  next
    case (Sh_event e)
    then show ?thesis using a fresh_extends [OF f kernel_event_extends] by simp
  next
    case (Sh_round online rv)
    then obtain rv' where "shadow_core_round online rv s = Some (rv', s')" using a by auto
    then show ?thesis by (rule round_fresh [OF _ f])
  next
    case (Sh_time t)
    have "extends s (s\<lparr>s_now := s_now s + t\<rparr>)" by (rule extends_same) (simp_all add: onward_def)
    then show ?thesis using a Sh_time fresh_extends [OF f] by simp
  qed
qed

lemma runs_fresh: "shadow_runs os s = Some s' \<Longrightarrow> fresh s \<Longrightarrow> fresh s'"
  by (induction os arbitrary: s) (auto simp: bind_eq_Some_conv dest: op_fresh)

lemma start_fresh: "g_shadow_modules s = [] \<Longrightarrow> plenty (s_mem s) \<Longrightarrow> fresh s"
  by (simp add: fresh_def all_keys_def)

end
