(* ===== verification/Shadow_Text.thy ===== *)
theory Shadow_Text
  imports Shadow_Runs
begin

text \<open>
  What the properties of the shadow rest on: keys that were registered are found, a round sends what is due, and the text
  of a report.
\<close>

section \<open>Keys that were registered\<close>

lemma find_in_append: "List.find p (xs @ ys) = (case List.find p xs of None \<Rightarrow> List.find p ys | Some x \<Rightarrow> Some x)"
  by (induction xs) auto

lemma find_pos_None: "find_pos p ns = None \<Longrightarrow> List.find p ns = None"
  by (simp add: find_pos_find)

lemma find_update: "\<lbrakk>find_pos p ns = Some i; p n\<rbrakk> \<Longrightarrow> List.find p (ns[i := n]) = Some n"
  by (induction ns arbitrary: i) (auto split: if_splits)

lemma find_update_other: "\<lbrakk>i < length ns; \<not> p (ns ! i); \<not> p n\<rbrakk> \<Longrightarrow> List.find p (ns[i := n]) = List.find p ns"
  by (induction ns arbitrary: i) (auto split: nat.splits)

lemma in_node_find:
  assumes "in_node p new F ns m = Some (0, ns', m')" and "p new"
    and "\<And>n m n' m'. F n m = Some (0, n', m') \<Longrightarrow> p n \<Longrightarrow> p n'"
  shows "\<exists>n m1 n'. F n m1 = Some (0, n', m') \<and> List.find p ns' = Some n'"
proof (cases "find_pos p ns")
  case None
  then obtain m1 n' where n': "F new m1 = Some (0, n', m')" "ns' = ns @ [n']" using assms(1)
    by (auto simp: in_node_def split: prod.splits if_splits)
  then have "List.find p ns' = Some n'" using find_pos_None [OF None] assms(3) [OF n'(1) assms(2)] by (simp add: find_in_append)
  then show ?thesis using n'(1) by blast
next
  case (Some i)
  then obtain n' where n': "F (ns ! i) m = Some (0, n', m')" "ns' = ns[i := n']" using assms(1) by (auto simp: in_node_def)
  moreover have "p (ns ! i)" using find_pos_Some [OF Some] by simp
  ultimately have "List.find p ns' = Some n'" using find_update [OF Some] assms(3) by blast
  then show ?thesis using n'(1) by blast
qed

lemma in_node_get:
  assumes "in_node p new (\<lambda>n m. map_option (\<lambda>(rv, l, m). (rv, upd n l, m)) (G n m)) ns m = Some (0, ns', m')" and "p new"
    and "\<And>n l. p (upd n l) = p n"
  shows "\<exists>n l m1. G n m1 = Some (0, l, m') \<and> List.find p ns' = Some (upd n l)"
proof -
  have "p n'" if "map_option (\<lambda>(rv, l, m). (rv, upd n l, m)) (G n m) = Some (0, n', m')" "p n" for n m n' m'
    using that assms(3) by (auto simp: map_option3)
  then obtain n m1 n' where "map_option (\<lambda>(rv, l, m). (rv, upd n l, m)) (G n m1) = Some (0, n', m')" "List.find p ns' = Some n'"
    using in_node_find [OF assms(1,2)] by blast
  then show ?thesis by (auto simp: map_option3)
qed

definition fits_name :: "string \<Rightarrow> bool" where
  "fits_name t = (strncpy0 31 t = t)"

lemma add_keys_other:
  "\<lbrakk>add_keys bs ks m = Some (ks', m'); x \<notin> sb_key ` set bs; \<forall>b \<in> set bs. fits_name (sb_key b)\<rbrakk> \<Longrightarrow>
    List.find (\<lambda>k. nk_key k = x) ks' = List.find (\<lambda>k. nk_key k = x) ks"
proof (induction bs ks m rule: add_keys.induct)
  case (2 b bs ks m)
  show ?case
  proof (cases "find_pos (\<lambda>k. nk_key k = sb_key b) ks")
    case None
    obtain m1 where m1: "malloc m = (True, m1)" using 2(3) None by (cases "malloc m") (auto split: if_splits)
    show ?thesis using 2(1) [OF None m1 [symmetric]] 2(3-) None m1
      by (simp add: find_in_append fits_name_def split: option.splits)
  next
    case (Some i)
    note i = find_pos_Some [OF Some]
    show ?thesis
      using 2(2) [OF Some] 2(3-) Some i find_update_other [of i ks "\<lambda>k. nk_key k = x"
        "(ks ! i)\<lparr>nk_cloud2dev := sb_business2dev b, nk_dev2cloud := sb_business2cloud b, nk_need_report := True\<rparr>"]
      by auto
  qed
qed simp

lemma add_keys_find:
  "\<lbrakk>add_keys bs ks m = Some (ks', m'); distinct (map sb_key bs); \<forall>b \<in> set bs. fits_name (sb_key b); b \<in> set bs\<rbrakk> \<Longrightarrow>
    \<exists>k. List.find (\<lambda>k. nk_key k = sb_key b) ks' = Some k \<and> nk_cloud2dev k = sb_business2dev b"
proof (induction bs ks m rule: add_keys.induct)
  case (2 a bs ks m)
  show ?case
  proof (cases "find_pos (\<lambda>k. nk_key k = sb_key a) ks")
    case None
    obtain m1 where m1: "malloc m = (True, m1)" using 2(3) None by (cases "malloc m") (auto split: if_splits)
    let ?k = "\<lparr>nk_key = strncpy0 31 (sb_key a), nk_cloud2dev = sb_business2dev a, nk_dev2cloud = sb_business2cloud a,
      nk_stat_ver = 0, nk_need_report = True, nk_timer = None, nk_msg_seq = 0, nk_json_value = None\<rparr>"
    have r: "add_keys bs (ks @ [?k]) m1 = Some (ks', m')" using 2(3) None m1 by simp
    show ?thesis
    proof (cases "b = a")
      case True
      have "List.find (\<lambda>k. nk_key k = sb_key a) ks' = List.find (\<lambda>k. nk_key k = sb_key a) (ks @ [?k])"
        by (rule add_keys_other [OF r]) (use 2(4,5) in auto)
      then show ?thesis using True find_pos_None [OF None] 2(5) by (simp add: find_in_append fits_name_def)
    next
      case False
      then show ?thesis using 2(1) [OF None m1 [symmetric]] r 2(4-) by simp
    qed
  next
    case (Some i)
    let ?k = "(ks ! i)\<lparr>nk_cloud2dev := sb_business2dev a, nk_dev2cloud := sb_business2cloud a, nk_need_report := True\<rparr>"
    have r: "add_keys bs (ks[i := ?k]) m = Some (ks', m')" using 2(3) Some by simp
    show ?thesis
    proof (cases "b = a")
      case True
      have "List.find (\<lambda>k. nk_key k = sb_key a) ks' = List.find (\<lambda>k. nk_key k = sb_key a) (ks[i := ?k])"
        by (rule add_keys_other [OF r]) (use 2(4,5) in auto)
      then show ?thesis using True find_update [OF Some, of ?k] find_pos_Some [OF Some] by simp
    next
      case False
      then show ?thesis using 2(2) [OF Some] r 2(4-) by simp
    qed
  qed
qed simp

lemma addv3_found:
  assumes "shadow_core_module_addv3 sn ty i d props s = Some (0, s')" and "b \<in> set props" and "distinct (map sb_key props)"
    and "strncpy0 47 (dev_name sn s) = dev_name sn s" and "ty \<noteq> []" and "fits_name ty" and "fits_name d"
    and "\<forall>b \<in> set props. fits_name (sb_key b)"
  shows "find_callback (dev_name sn s, ty, i) (Some d) (Some (sb_key b)) s' = Some (sb_business2dev b)"
proof -
  obtain m' where dv: "in_node (\<lambda>d. nv_dev_sn d = dev_name sn s) \<lparr>nv_dev_sn = strncpy0 47 (dev_name sn s), nv_type_lst = []\<rparr>
         (\<lambda>v m. map_option (\<lambda>(rv, l, m). (rv, v\<lparr>nv_type_lst := l\<rparr>, m))
           (in_node (\<lambda>t. ns_type t = ty) (new_set ty)
             (\<lambda>t m. map_option (\<lambda>(rv, l, m). (rv, t\<lparr>ns_index_lst := l\<rparr>, m))
               (in_node (\<lambda>j. ni_index j = i) (new_index i)
                 (\<lambda>i m. map_option (\<lambda>(rv, l, m). (rv, i\<lparr>ni_domain_lst := l\<rparr>, m))
                   (shadow_module_add_domain d props shadow_prot_ver_3 (ni_domain_lst i) m))
                 (ns_index_lst t) m))
             (nv_type_lst v) m))
         (g_shadow_modules s) (s_mem s) = Some (0, g_shadow_modules s', m')"
    using assms(1) by (auto simp: shadow_core_module_addv3_def)
  obtain dv tl m1 where v': "List.find (\<lambda>d. nv_dev_sn d = dev_name sn s) (g_shadow_modules s') = Some (dv\<lparr>nv_type_lst := tl\<rparr>)"
    "in_node (\<lambda>t. ns_type t = ty) (new_set ty)
             (\<lambda>t m. map_option (\<lambda>(rv, l, m). (rv, t\<lparr>ns_index_lst := l\<rparr>, m))
               (in_node (\<lambda>j. ni_index j = i) (new_index i)
                 (\<lambda>i m. map_option (\<lambda>(rv, l, m). (rv, i\<lparr>ni_domain_lst := l\<rparr>, m))
                   (shadow_module_add_domain d props shadow_prot_ver_3 (ni_domain_lst i) m))
                 (ns_index_lst t) m))
             (nv_type_lst dv) m1 = Some (0, tl, m')"
    using in_node_get [OF dv] assms(4) by auto
  obtain t0 il m2 where t': "List.find (\<lambda>t. ns_type t = ty) tl = Some (t0\<lparr>ns_index_lst := il\<rparr>)"
    "in_node (\<lambda>j. ni_index j = i) (new_index i)
                 (\<lambda>i m. map_option (\<lambda>(rv, l, m). (rv, i\<lparr>ni_domain_lst := l\<rparr>, m))
                   (shadow_module_add_domain d props shadow_prot_ver_3 (ni_domain_lst i) m))
                 (ns_index_lst t0) m2 = Some (0, il, m')"
    using in_node_get [OF v'(2)] assms(5,6) by (auto simp: new_set_def fits_name_def)
  obtain i0 dl m3 where i': "List.find (\<lambda>j. ni_index j = i) il = Some (i0\<lparr>ni_domain_lst := dl\<rparr>)"
    "shadow_module_add_domain d props shadow_prot_ver_3 (ni_domain_lst i0) m3 = Some (0, dl, m')"
    using in_node_get [OF t'(2)] by (auto simp: new_index_def)
  have p: "props \<noteq> []" using assms(2) by auto
  note dom = i'(2) [unfolded shadow_module_add_domain_def if_not_P [OF p]]
  have "\<exists>dn m4 d'. map_option (\<lambda>(ks, m1). (0, dn\<lparr>nd_key_lst := ks\<rparr>, m1)) (add_keys props (nd_key_lst dn) m4) = Some (0 :: int, d', m') \<and>
      List.find (\<lambda>o'. nd_domain_string o' = d) dl = Some d'"
    by (rule in_node_find [OF dom]) (use assms(7) in \<open>auto simp: fits_name_def\<close>)
  then obtain dn m4 d' where d': "map_option (\<lambda>(ks, m1). (0, dn\<lparr>nd_key_lst := ks\<rparr>, m1)) (add_keys props (nd_key_lst dn) m4) = Some (0 :: int, d', m')"
    "List.find (\<lambda>o'. nd_domain_string o' = d) dl = Some d'" by blast
  from d'(1) obtain ks where ks: "add_keys props (nd_key_lst dn) m4 = Some (ks, m')" "d' = dn\<lparr>nd_key_lst := ks\<rparr>" by auto
  obtain k where k: "List.find (\<lambda>k. nk_key k = sb_key b) ks = Some k" "nk_cloud2dev k = sb_business2dev b"
    using add_keys_find [OF ks(1) assms(3,8,2)] by blast
  have "dl \<noteq> []" "ks \<noteq> []" using d'(2) k(1) by auto
  then show ?thesis using v'(1) t'(1) i'(1) d'(2) ks(2) k by (simp add: find_callback_def find_named_def)
qed

section \<open>Rounds\<close>

lemma walk_done:
  assumes "\<And>x s x' s'. f x s = Some (True, x', s') \<Longrightarrow> I s \<Longrightarrow> Q s' x' \<and> R s s' \<and> I s'"
    and "\<And>s s' x. R s s' \<Longrightarrow> Q s x \<Longrightarrow> Q s' x" and "\<And>s. R s s" and "\<And>s s' s''. R s s' \<Longrightarrow> R s' s'' \<Longrightarrow> R s s''"
  shows "walk_nodes f xs s = Some (True, xs', s') \<Longrightarrow> I s \<Longrightarrow> (\<forall>x \<in> set xs'. Q s' x) \<and> R s s'"
proof (induction xs arbitrary: s xs')
  case (Cons x xs)
  obtain go1 x1 s1 where x1: "f x s = Some (go1, x1, s1)" using Cons.prems(1) by (auto split: option.splits)
  obtain xs1 where xs1: "go1" "walk_nodes f xs s1 = Some (True, xs1, s')" "xs' = x1 # xs1"
    using Cons.prems(1) x1 by (cases go1; cases "walk_nodes f xs s1") auto
  have p: "Q s1 x1" "R s s1" "I s1" using assms(1) [OF _ Cons.prems(2)] x1 xs1(1) by auto
  then have ih: "\<forall>x \<in> set xs1. Q s' x" "R s1 s'" using Cons.IH [OF xs1(2)] by auto
  have "Q s' x1" by (rule assms(2) [OF ih(2) p(1)])
  moreover have "R s s'" by (rule assms(4) [OF p(2) ih(2)])
  ultimately show ?case using xs1(3) ih(1) by simp
qed (use assms(3) in auto)

lemma reported_le: "reported n s x \<Longrightarrow> n' \<le> n \<Longrightarrow> reported n' s x"
  unfolding reported_def by (cases x) (simp only: prod.case, meson order_trans)

text \<open>A round that ends with 0 has reported what is due.\<close>

lemma round_reports:
  assumes "shadow_proc_report s = Some (0, s')" and "plenty (s_mem s)"
    and "x \<in> set (all_keys (g_shadow_modules s'))" and "nk_need_report (snd (snd x))"
  shows "reported (length (s_out s)) s' x"
proof -
  obtain ms s1 where w: "walk_keys report_key (g_shadow_modules s) (0, s) = Some (True, ms, 0, s1)" "s' = s1\<lparr>g_shadow_modules := ms\<rparr>"
    using assms(1) by (auto simp: shadow_proc_report_def split: option.splits if_splits)
  let ?Q = "\<lambda>ns x. fst ns = 0 \<longrightarrow> nk_need_report (snd (snd x)) \<longrightarrow> reported (length (s_out s)) (snd ns) x"
  let ?R = "\<lambda>ns ns'. fst ns \<le> fst ns' \<and> onward (snd ns) (snd ns')"
  let ?I = "\<lambda>ns. plenty (s_mem (snd ns)) \<and> length (s_out s) \<le> length (s_out (snd ns))"
  have "(\<forall>x \<in> set (all_keys ms). ?Q (0 :: nat, s1) x) \<and> ?R (0 :: nat, s) (0 :: nat, s1)"
  proof (rule walk_done [where Q = ?Q and R = ?R and I = ?I, OF _ _ _ _ walk_keys_Some [OF w(1)]])
    fix x :: key_at and ns x' and ns' :: "nat \<times> shadow"
    assume f: "flat report_key x ns = Some (True, x', ns')" and n: "?I ns"
    obtain r d k where x: "x = (r, d, k)" by (cases x)
    obtain rv k' s' where k: "do_report r d k (snd ns) = Some (rv, k', s')" "x' = (r, d, k')"
      "ns' = (if rv = 1 then fst ns + 1 else fst ns, s')" "rv \<noteq> - 1"
      using f by (cases ns) (auto simp: x flat_def report_key_def)
    have rv: "rv = 0 \<or> rv = 1" using k(1,4) by (auto simp: do_report_def Let_def split: if_splits option.splits prod.splits to_report.splits)
    note says = do_report_says [OF k(1) conjunct1 [OF n]]
    have "reported (length (s_out (snd ns))) s' x' \<Longrightarrow> reported (length (s_out s)) s' x'" by (rule reported_le) (use n in blast)+
    moreover have "length (s_out (snd ns)) \<le> length (s_out s')" using says by (auto simp: onward_def)
    ultimately show "?Q ns' x' \<and> ?R ns ns' \<and> ?I ns'"
      using says rv k(2,3) n onward_plenty [of "snd ns" s'] by auto
  qed (use assms(2) in \<open>auto intro: reported_mono onward_trans\<close>)
  then have "reported (length (s_out s)) s1 x" using assms(3,4) w(2) by simp
  moreover have "onward s1 s'" by (simp add: w(2) onward_def)
  ultimately show ?thesis by (rule reported_mono)
qed

section \<open>The text of a report\<close>

lemma Report_v3_succeeds:
  assumes "plenty (s_mem s)" and "Bsc_Print.fits (report_object d key j ver)" and "int (length (json_text False 0 (report_object d key j ver))) + 2 < INT_MAX"
    and "s_send s (length (s_out s)) = Some q"
  shows "\<exists>m. ezDevSDK_Shadow_Report_v3 r d key (Some j) ver s =
    Some (Some q, logged (Out_report r d key ver (json_text False 0 (report_object d key j ver)) (Some q)) (s\<lparr>s_mem := m\<rparr>))"
proof -
  obtain m where m: "plenty m" "ezDevSDK_Shadow_Report_v3 r d key (Some j) ver s =
     (case print (report_object d key j ver) False m of
        None \<Rightarrow> None
      | Some (None, m10) \<Rightarrow> Some (None, s\<lparr>s_mem := bscJSON_Delete (report_object d key j ver) m10\<rparr>)
      | Some (Some t, m10) \<Rightarrow>
          (let seq = s_send s (length (s_out s)) in
           Some (seq, logged (Out_report r d key ver t seq)
             (s\<lparr>s_mem := free (bscJSON_Delete (report_object d key j ver) m10)\<rparr>))))"
    using Report_v3_prints [OF assms(1)] by blast
  obtain m1 where "print (report_object d key j ver) False m = Some (Some (json_text False 0 (report_object d key j ver)), m1)"
    using print_succeeds [OF assms(2,3), of m] m(1) unfolding plenty_def by blast
  then show ?thesis using m(2) assms(4) by (auto simp: Let_def simp del: json_text.simps bscJSON_Delete.simps)
qed

text \<open>A pushed value that is due goes out with the version of the key.\<close>

lemma do_report_pushed:
  assumes "nk_need_report k" and "nk_json_value k = Some j" and "case nk_timer k of None \<Rightarrow> True | Some e \<Rightarrow> hal_time_isexpired e s"
    and "plenty (s_mem s)" and "plain bscJSON_NESTING_LIMIT (report_object d (nk_key k) j (nk_stat_ver k))"
    and "int (length (json_text False 0 (report_object d (nk_key k) j (nk_stat_ver k)))) + 2 < INT_MAX"
    and "s_send s (length (s_out s)) = Some q"
  shows "\<exists>t s'. do_report r d k s = Some (0, k\<lparr>nk_msg_seq := q, nk_timer := t\<rparr>, s') \<and>
    s_out s' = s_out s @ [Out_report r d (nk_key k) (nk_stat_ver k) (json_text False 0 (report_object d (nk_key k) j (nk_stat_ver k))) (Some q)]"
proof -
  let ?s1 = "upd_mem (hal_timer_destroy (nk_timer k)) s"
  have p1: "plenty (s_mem ?s1)" using assms(4) by (simp add: upd_mem_def hal_timer_destroy_def split: option.splits)
  obtain m where m: "bscJSON_Duplicate False j (s_mem ?s1) = (Some j, m)" "plenty m"
    using duplicate_plenty(1) [OF p1, of False j] by blast
  let ?s2 = "?s1\<lparr>s_mem := m\<rparr>"
  have o: "s_out ?s2 = s_out s" "s_send ?s2 = s_send s" by (simp_all add: upd_mem_def)
  obtain m3 where m3: "ezDevSDK_Shadow_Report_v3 r d (nk_key k) (Some j) (nk_stat_ver k) ?s2 = Some (Some q,
      logged (Out_report r d (nk_key k) (nk_stat_ver k) (json_text False 0 (report_object d (nk_key k) j (nk_stat_ver k))) (Some q)) (?s2\<lparr>s_mem := m3\<rparr>))"
    using Report_v3_succeeds [of ?s2 d "nk_key k" j "nk_stat_ver k" q r] m(2) plain_fits [OF assms(5)] assms(6,7) o by auto
  obtain t s4 where t: "start_timer MINIIMUM_RETRY_INTERVAL
      (logged (Out_report r d (nk_key k) (nk_stat_ver k) (json_text False 0 (report_object d (nk_key k) j (nk_stat_ver k))) (Some q)) (?s2\<lparr>s_mem := m3\<rparr>)) = (t, s4)"
    by force
  then have "s_out s4 = s_out s @ [Out_report r d (nk_key k) (nk_stat_ver k) (json_text False 0 (report_object d (nk_key k) j (nk_stat_ver k))) (Some q)]"
    using o(1) by (auto simp: start_timer_def logged_def split: prod.splits)
  moreover have "\<not> (case nk_timer k of None \<Rightarrow> False | Some e \<Rightarrow> \<not> hal_time_isexpired e s)" using assms(3) by (auto split: option.splits)
  ultimately show ?thesis using assms(1,2) m(1) m3 t by (auto simp: do_report_def value_to_report_def Let_def)
qed

end
