(* ===== verification/Shadow_Promises.thy ===== *)
theory Shadow_Promises
  imports Shadow_Text
begin

text \<open>
  The properties of the shadow: what an answer settles, what the result of a round means, that a registered property is
  found again, and what becomes of a value.
\<close>

section \<open>A shadow to look at\<close>

text \<open>Started, with nothing registered, on a device with the number SN; the kernel numbers every message 7.\<close>

definition demo_shadow :: shadow where
  "demo_shadow = \<lparr>g_shadow_modules = [], g_shadow_status = shadow_core_status_report, g_need_reset = False, g_need_report = False,
     g_need_sync = False, g_running = True, g_sem = True, g_shadow_thread = True, shadow_ucInit = True, g_p2c_buf = Some 4096, s_posts = 0,
     s_mem = \<lparr>m_ok = (\<lambda>n. True), m_calls = 0, live = 0\<rparr>, s_now = 0, s_serial = ''SN'', s_dev2cloud = (\<lambda>cb n. Some (1, Shd_bool False)),
     s_cloud2dev = (\<lambda>cb n. 0), s_send = (\<lambda>n. Some 7), s_out = []\<rparr>"

definition demo_props :: "ez_iot_shadow_business_t list" where
  "demo_props = [\<lparr>sb_key = ''power'', sb_business2dev = Some 1, sb_business2cloud = Some 2\<rparr>,
     \<lparr>sb_key = ''mode'', sb_business2dev = Some 3, sb_business2cloud = None\<rparr>]"

definition shadow_demo_run :: "shadow_call list" where
  "shadow_demo_run = [Sh_push (''SN'', ''T'', 1) ''d'' ''k'' (Some (tlv_of 4 (Shd_bool True))), Sh_round True 1]"

text \<open>What the run makes of it: one key, pushed once and reported.\<close>

definition demo_key :: node_key_t where
  "demo_key = \<lparr>nk_key = ''k'', nk_cloud2dev = None, nk_dev2cloud = None, nk_stat_ver = 1, nk_need_report = True, nk_timer = None,
     nk_msg_seq = 0, nk_json_value = Some BTrue\<rparr>"

definition demo_tree :: "node_key_t \<Rightarrow> node_dev_t list" where
  "demo_tree k = [\<lparr>nv_dev_sn = ''global'', nv_type_lst = [\<lparr>ns_type = ''T'', ns_index_lst = [\<lparr>ni_index = 1, ni_need_sync = True, ni_timer = None,
     ni_retry_count = 0, ni_domain_lst = [\<lparr>nd_prot_ver = shadow_prot_ver_3, nd_domain_string = ''d'', nd_key_lst = [k]\<rparr>]\<rparr>]\<rparr>]\<rparr>]"

definition demo_pushed :: shadow where
  "demo_pushed = demo_shadow\<lparr>g_shadow_modules := demo_tree demo_key, s_posts := 2,
     s_mem := \<lparr>m_ok = (\<lambda>n. True), m_calls = 6, live = 6\<rparr>\<rparr>"

lemma demo_reports:
  "\<exists>s' t. shadow_proc_report demo_pushed = Some (0, s') \<and> g_shadow_modules s' = demo_tree (demo_key\<lparr>nk_msg_seq := 7, nk_timer := t\<rparr>)"
proof -
  have t: "length (json_text False 0 (report_object ''d'' ''k'' BTrue 1)) < 200" by code_simp
  have p: "plain bscJSON_NESTING_LIMIT (report_object ''d'' ''k'' BTrue 1)" by code_simp
  have "\<exists>t s'. do_report (''global'', ''T'', 1) ''d'' demo_key demo_pushed = Some (0, demo_key\<lparr>nk_msg_seq := 7, nk_timer := t\<rparr>, s')"
    using do_report_pushed [of demo_key BTrue demo_pushed "''d''" 7 "(''global'', ''T'', 1)"] t p
    by (force simp: demo_key_def demo_pushed_def demo_shadow_def plenty_def INT_MAX_def simp del: json_text.simps plain.simps)
  then obtain t s' where "do_report (''global'', ''T'', 1) ''d'' demo_key demo_pushed = Some (0, demo_key\<lparr>nk_msg_seq := 7, nk_timer := t\<rparr>, s')"
    by blast
  then show ?thesis
    by (auto simp: shadow_proc_report_def walk_keys_def demo_tree_def report_key_def demo_pushed_def)
qed

lemma demo_runs:
  "\<exists>s t. shadow_runs shadow_demo_run demo_shadow = Some s \<and> g_shadow_modules s = demo_tree (demo_key\<lparr>nk_msg_seq := 7, nk_timer := t\<rparr>)"
proof -
  let ?s = "demo_pushed\<lparr>g_need_report := True\<rparr>"
  have "shadow_do (hd shadow_demo_run) demo_shadow = Some ?s"
    by (simp add: shadow_demo_run_def demo_shadow_def demo_pushed_def demo_key_def demo_tree_def ez_iot_shadow_push_v3_def shadow_core_propertie_changed_def
      at_node_def in_node_def shadow_core_module_addv3_def dev_name_def shadow_default_name_def new_set_def new_index_def strncpy0_def c_str_def
      malloc_def shadow_module_add_domain_def change_key_def tlv2json_def tlv_of_def value_int_of_bool_def bscJSON_CreateBool_def new_item_def
      hal_timer_destroy_def delete_opt_def shadow_core_event_occured_def Let_def)
  moreover have "check_status_update ?s = demo_pushed" by (simp add: check_status_update_def demo_pushed_def demo_shadow_def)
  ultimately show ?thesis using demo_reports
    by (auto simp: shadow_demo_run_def shadow_core_round_def shadow_proc_do_def Let_def demo_pushed_def demo_shadow_def)
qed

section \<open>Properties\<close>

text \<open>
  C18: a pushed value that is due is sent with the version of the key in a text that reads back as the report, value
  included, and the key then awaits the answer to that message.
\<close>

theorem pushed_value_goes_out:
  assumes "nk_need_report k" and "nk_json_value k = Some j" and "case nk_timer k of None \<Rightarrow> True | Some e \<Rightarrow> hal_time_isexpired e s"
    and "plenty (s_mem s)" and "plain bscJSON_NESTING_LIMIT (report_object d (nk_key k) j (nk_stat_ver k))"
    and "int (length (json_text False 0 (report_object d (nk_key k) j (nk_stat_ver k)))) + 2 < INT_MAX"
    and "s_send s (length (s_out s)) = Some q"
  shows "\<exists>t s' text m. do_report r d k s = Some (0, k\<lparr>nk_msg_seq := q, nk_timer := t\<rparr>, s') \<and>
    s_out s' = s_out s @ [Out_report r d (nk_key k) (nk_stat_ver k) text (Some q)] \<and>
    bscJSON_Parse text (s_mem s) = (Some (report_object d (nk_key k) j (nk_stat_ver k)), m)"
proof -
  have "\<exists>m. bscJSON_Parse (json_text False 0 (report_object d (nk_key k) j (nk_stat_ver k))) (s_mem s) =
      (Some (report_object d (nk_key k) j (nk_stat_ver k)), m)"
    using parse_printed [OF assms(5,4), of "[]" False] by (auto simp: report_object_def simp del: json_text.simps)
  then show ?thesis using do_report_pushed [OF assms] by blast
qed

theorem pushed_value_goes_out_witness:
  "\<exists>s' text m. (\<exists>k'. do_report (''global'', ''T'', 1) ''d'' demo_key demo_pushed = Some (0, k', s')) \<and>
     s_out s' = [Out_report (''global'', ''T'', 1) ''d'' ''k'' 1 text (Some 7)] \<and>
     bscJSON_Parse text (s_mem demo_pushed) = (Some (report_object ''d'' ''k'' BTrue 1), m)"
proof -
  have t: "length (json_text False 0 (report_object ''d'' ''k'' BTrue 1)) < 200" by code_simp
  have p: "plain bscJSON_NESTING_LIMIT (report_object ''d'' ''k'' BTrue 1)" by code_simp
  have k: "nk_need_report demo_key" "nk_json_value demo_key = Some BTrue" "nk_key demo_key = ''k''" "nk_stat_ver demo_key = 1"
    "nk_timer demo_key = None" by (simp_all add: demo_key_def)
  have d: "plenty (s_mem demo_pushed)" "s_send demo_pushed (length (s_out demo_pushed)) = Some 7" "s_out demo_pushed = []"
    by (simp_all add: plenty_def demo_pushed_def demo_shadow_def)
  show ?thesis
    using pushed_value_goes_out [OF k(1,2), of demo_pushed "''d''" 7 "(''global'', ''T'', 1)"] t p d
    unfolding k(3-5) d(3) by (force simp: INT_MAX_def simp del: json_text.simps plain.simps)
qed

text \<open>
  C8: with memory, after any run, an answer of the cloud (its number is not 0) changes a key only when a message with that number
  reported the value the key has now: its text is the report object with the key's version and, as the member "value",
  the value that is still pushed, or, for a key without a pushed value, the application's answer to the question that precedes the
  message.  An answer to the report of an older value, or to a report without a value, settles nothing.
\<close>

theorem answers_are_current:
  assumes "shadow_runs os s0 = Some s" and "g_shadow_modules s0 = []" and "plenty (s_mem s0)" and "seq \<noteq> 0"
    and "i < length (all_keys (g_shadow_modules s))" and "all_keys (g_shadow_modules s) ! i = (r, d, k)"
    and "all_keys (g_shadow_modules (shadow_reply2report seq rv s)) ! i \<noteq> (r, d, k)"
  shows "\<exists>n j. n < length (s_out s) \<and> s_out s ! n = Out_report r d (nk_key k) (nk_stat_ver k)
       (json_text False 0 (report_object d (nk_key k) j (nk_stat_ver k))) (Some seq) \<and>
     (case nk_json_value k of Some v \<Rightarrow> j = v
      | None \<Rightarrow> \<exists>cb len v buf m m'. 0 < n \<and> s_out s ! (n - 1) = Out_ask cb r d (nk_key k) \<and> s_dev2cloud s cb (n - 1) = Some (len, v) \<and>
          g_p2c_buf s = Some buf \<and> tlv2json \<lparr>shv_length = len, shv_data = v, shv_word = buf\<rparr> m = Some (Some j, m'))"
proof -
  have "fresh s" by (rule runs_fresh [OF assms(1) start_fresh [OF assms(2,3)]])
  moreover have "(r, d, k) \<in> set (all_keys (g_shadow_modules s))" using nth_mem [OF assms(5)] assms(6) by simp
  moreover have seq: "nk_msg_seq k = seq"
    using list_all2_nthD [OF reply_keys [of seq rv s] assms(5)] assms(6,7) by (auto simp: answered_def)
  ultimately have "reported 0 s (r, d, k)" using assms(4) by (force simp: fresh_def current_def)
  then obtain n j where n: "n < length (s_out s)" "value_sent s n (r, d, k) j" "s_out s ! n = Out_report r d (nk_key k) (nk_stat_ver k)
       (json_text False 0 (report_object d (nk_key k) j (nk_stat_ver k))) (Some seq)"
    using seq by (auto simp: reported_def)
  show ?thesis by (rule exI [of _ n], rule exI [of _ j], intro conjI n(1,3)) (rule n(2) [unfolded value_sent_def prod.case])
qed

theorem answers_are_current_witness:
  "\<exists>s k n. shadow_runs shadow_demo_run demo_shadow = Some s \<and> all_keys (g_shadow_modules s) ! 0 = ((''global'', ''T'', 1), ''d'', k) \<and>
     s_out s ! n = Out_report (''global'', ''T'', 1) ''d'' ''k'' 1 (json_text False 0 (report_object ''d'' ''k'' BTrue 1)) (Some 7)"
proof -
  obtain s t m where s: "shadow_runs shadow_demo_run demo_shadow = Some s" "g_shadow_modules s = demo_tree (demo_key\<lparr>nk_msg_seq := 7, nk_timer := t\<rparr>)"
    using demo_runs by blast
  let ?k = "demo_key\<lparr>nk_msg_seq := 7, nk_timer := t\<rparr>"
  have k: "all_keys (g_shadow_modules s) = [((''global'', ''T'', 1), ''d'', ?k)]" by (simp add: s(2) demo_tree_def keys_defs)
  have "all_keys (g_shadow_modules (shadow_reply2report 7 0 s)) ! 0 \<noteq> ((''global'', ''T'', 1), ''d'', ?k)"
    by (simp add: shadow_reply2report_def s(2) walk_keys_def demo_tree_def keys_defs reply_key_def Let_def demo_key_def)
  then have "\<exists>n. s_out s ! n = Out_report (''global'', ''T'', 1) ''d'' ''k'' 1 (json_text False 0 (report_object ''d'' ''k'' BTrue 1)) (Some 7)"
    using answers_are_current [OF s(1), of 7 0 "(''global'', ''T'', 1)" "''d''" ?k 0] k
    by (auto simp: demo_shadow_def plenty_def demo_key_def simp del: json_text.simps)
  then show ?thesis using s(1) k by (auto simp del: json_text.simps)
qed

text \<open>
  C16: with memory, when a round of reports returns 0 (the module then waits for the next event), every key that still needs a
  report was sent in this very round, with its version and, as the member "value" of the text, its present value: the
  pushed one, or, for a key without one, the application's answer to the question asked just before.  The key then awaits the
  answer to that very message.  Nothing that is due is skipped, and none is sent without its value.
\<close>

theorem report_round_complete:
  assumes "shadow_proc_report s = Some (0, s')" and "plenty (s_mem s)"
    and "(r, d, k) \<in> set (all_keys (g_shadow_modules s'))" and "nk_need_report k"
  shows "\<exists>n j. length (s_out s) \<le> n \<and> n < length (s_out s') \<and> s_out s' ! n = Out_report r d (nk_key k) (nk_stat_ver k)
       (json_text False 0 (report_object d (nk_key k) j (nk_stat_ver k))) (Some (nk_msg_seq k)) \<and>
     (case nk_json_value k of Some v \<Rightarrow> j = v
      | None \<Rightarrow> \<exists>cb len v buf m m'. 0 < n \<and> s_out s' ! (n - 1) = Out_ask cb r d (nk_key k) \<and> s_dev2cloud s' cb (n - 1) = Some (len, v) \<and>
          g_p2c_buf s' = Some buf \<and> tlv2json \<lparr>shv_length = len, shv_data = v, shv_word = buf\<rparr> m = Some (Some j, m'))"
proof -
  obtain n j where n: "length (s_out s) \<le> n" "n < length (s_out s')" "value_sent s' n (r, d, k) j"
    "s_out s' ! n = Out_report r d (nk_key k) (nk_stat_ver k)
       (json_text False 0 (report_object d (nk_key k) j (nk_stat_ver k))) (Some (nk_msg_seq k))"
    using round_reports [OF assms(1-3)] assms(4) by (auto simp: reported_def)
  show ?thesis by (rule exI [of _ n], rule exI [of _ j], intro conjI n(1,2,4)) (rule n(3) [unfolded value_sent_def prod.case])
qed

theorem report_round_complete_witness:
  "\<exists>s' n. shadow_proc_report demo_pushed = Some (0, s') \<and> length (s_out demo_pushed) \<le> n \<and>
     s_out s' ! n = Out_report (''global'', ''T'', 1) ''d'' ''k'' 1 (json_text False 0 (report_object ''d'' ''k'' BTrue 1)) (Some 7)"
proof -
  obtain s' t where s': "shadow_proc_report demo_pushed = Some (0, s')" "g_shadow_modules s' = demo_tree (demo_key\<lparr>nk_msg_seq := 7, nk_timer := t\<rparr>)"
    using demo_reports by blast
  let ?k = "demo_key\<lparr>nk_msg_seq := 7, nk_timer := t\<rparr>"
  have "((''global'', ''T'', 1), ''d'', ?k) \<in> set (all_keys (g_shadow_modules s'))" by (simp add: s'(2) demo_tree_def keys_defs)
  from report_round_complete [OF s'(1) _ this] show ?thesis using s'(1)
    by (auto simp: demo_key_def demo_pushed_def demo_shadow_def plenty_def simp del: json_text.simps)
qed

text \<open>
  C17: a property that was registered under names that fit the tree is found again: a command of the cloud for it is
  handed to the callback it was registered with.
\<close>

theorem registered_is_called:
  assumes "ez_iot_shadow_register_v3 (sn, ty, i) d props s = Some (0, s')" and "b \<in> set props" and "distinct (map sb_key props)"
    and "strncpy0 47 (dev_name sn s) = dev_name sn s" and "ty \<noteq> []" and "fits_name ty" and "fits_name d"
    and "\<forall>b \<in> set props. fits_name (sb_key b)"
  shows "find_callback (dev_name sn s, ty, i) (Some d) (Some (sb_key b)) s' = Some (sb_business2dev b)"
proof -
  obtain s1 where s1: "shadow_core_module_addv3 sn ty i d props s = Some (0, s1)" "s' = shadow_core_event_occured shadow_event_type_add s1"
    using assms(1) by (auto simp: ez_iot_shadow_register_v3_def split: if_splits)
  have "find_callback x y z (shadow_core_event_occured e s1) = find_callback x y z s1" for x y z e
    by (simp add: find_callback_def shadow_core_event_occured_def Let_def split: shadow_event_type_e.splits)
  then show ?thesis using addv3_found [OF s1(1) assms(2-)] s1(2) by simp
qed

theorem registered_is_called_witness:
  "\<exists>s'. ez_iot_shadow_register_v3 (''SN'', ''T'', 1) ''d'' demo_props demo_shadow = Some (0, s') \<and>
     find_callback (''global'', ''T'', 1) (Some ''d'') (Some ''power'') s' = Some (Some 1)"
proof -
  have "case ez_iot_shadow_register_v3 (''SN'', ''T'', 1) ''d'' demo_props demo_shadow of None \<Rightarrow> False | Some (rv, s') \<Rightarrow> rv = 0"
    by code_simp
  then obtain s' where s': "ez_iot_shadow_register_v3 (''SN'', ''T'', 1) ''d'' demo_props demo_shadow = Some (0, s')"
    by (auto split: option.splits)
  have n: "dev_name ''SN'' demo_shadow = ''global''" by (simp add: dev_name_def demo_shadow_def shadow_default_name_def)
  have "find_callback (dev_name ''SN'' demo_shadow, ''T'', 1) (Some ''d'') (Some (sb_key (hd demo_props))) s' = Some (sb_business2dev (hd demo_props))"
    by (rule registered_is_called [OF s']) (simp_all add: n demo_props_def fits_name_def strncpy0_def c_str_def)
  then show ?thesis using s' n by (simp add: demo_props_def)
qed

text \<open>
  C40: a callback that hands over the value false by writing the first byte of the union has true reported: the value
  is read as an int, whose other bytes are those of the address of the buffer.
\<close>

theorem false_reported_true:
  assumes "nk_json_value k = None" and "nk_dev2cloud k = Some cb" and "g_p2c_buf s = Some buf" and "256 \<le> buf"
    and "s_dev2cloud s cb (length (s_out s)) = Some (n, Shd_bool False)" and "n \<noteq> 0" and "plenty (s_mem s)"
  shows "\<exists>s'. value_to_report r d k s = Some (Report_value (Some BTrue), s')"
proof -
  have "value_int_of_bool buf False \<noteq> 0"
  proof
    assume "value_int_of_bool buf False = 0"
    then have "take_bit 8 buf = buf" using bits_ident [of 8 buf] by (simp add: value_int_of_bool_def)
    then have "unat buf = take_bit 8 (unat buf)" by (metis unsigned_take_bit_eq)
    then have "unat buf < 256" using take_bit_nat_less_exp [of 8 "unat buf"] by simp
    then show False using assms(4) by (simp add: word_le_nat_alt)
  qed
  moreover obtain m where "malloc (s_mem s) = (True, m)" using plenty_malloc [OF assms(7)] by blast
  ultimately show ?thesis using assms
    by (simp add: value_to_report_def tlv2json_def logged_def Let_def bscJSON_CreateBool_def new_item_def)
qed

theorem false_reported_true_witness:
  "\<exists>k s'. nk_dev2cloud k = Some 2 \<and> value_to_report (''global'', ''T'', 1) ''d'' k demo_shadow = Some (Report_value (Some BTrue), s')"
proof -
  let ?k = "\<lparr>nk_key = ''power'', nk_cloud2dev = None, nk_dev2cloud = Some 2, nk_stat_ver = 0, nk_need_report = True, nk_timer = None,
    nk_msg_seq = 0, nk_json_value = None\<rparr>"
  have "\<exists>s'. value_to_report (''global'', ''T'', 1) ''d'' ?k demo_shadow = Some (Report_value (Some BTrue), s')"
    by (rule false_reported_true [where cb = 2 and buf = 4096 and n = 1]) (simp_all add: demo_shadow_def plenty_def)
  then show ?thesis by (intro exI [of _ ?k]) simp
qed

text \<open>
  C39: what becomes of a value that is converted for the device and back.  True, false, strings, numbers, and arrays and objects whose
  numbers are integers of the range of \<open>int\<close> come back as they were, with two exceptions: the empty string, whose length 0 is
  taken for no value at all, and a number with a fraction of at most \<open>DBL_EPSILON\<close>, which comes back as its
  integer part.
\<close>

theorem shadow_value_round_trip:
  assumes "j \<noteq> BNull" and "plenty m"
    and "(\<exists>i d. j = BNumber i d \<and> saturate d = Some i) \<or>
      plain bscJSON_NESTING_LIMIT j \<and> int (length (json_text False 0 j)) + 2 < INT_MAX"
  shows "\<exists>v m1 m2. json2tlv j m = Some (0, v, m1) \<and> tlv2json v m1 = Some (comes_back j, m2)"
  using assms(3)
proof
  assume "\<exists>i d. j = BNumber i d \<and> saturate d = Some i"
  then show ?thesis using number_round_trip [OF _ assms(2)] by blast
next
  assume p: "plain bscJSON_NESTING_LIMIT j \<and> int (length (json_text False 0 j)) + 2 < INT_MAX"
  then show ?thesis using value_round_trip [OF _ assms(1,2)] plain_comes_back by fastforce
qed

theorem shadow_value_round_trip_witness:
  "(\<exists>v m1 m2. json2tlv (BArray [BTrue, BString ''on'']) (s_mem demo_shadow) = Some (0, v, m1) \<and>
     tlv2json v m1 = Some (Some (BArray [BTrue, BString ''on'']), m2)) \<and>
   (\<exists>v m1 m2. json2tlv (BNumber 1 (Fin (3 / 2))) (s_mem demo_shadow) = Some (0, v, m1) \<and>
     tlv2json v m1 = Some (Some (BNumber 1 (Fin (3 / 2))), m2)) \<and>
   (\<exists>v m1 m2. json2tlv (BNumber 0 (Fin (1 / 2 ^ 60))) (s_mem demo_shadow) = Some (0, v, m1) \<and>
     tlv2json v m1 = Some (Some (BNumber 0 (Fin 0)), m2))"
proof -
  have "length (json_text False 0 (BArray [BTrue, BString ''on''])) = 11" by code_simp
  moreover have "plain bscJSON_NESTING_LIMIT (BArray [BTrue, BString ''on''])" by code_simp
  ultimately have a: "\<exists>v m1 m2. json2tlv (BArray [BTrue, BString ''on'']) (s_mem demo_shadow) = Some (0, v, m1) \<and>
     tlv2json v m1 = Some (comes_back (BArray [BTrue, BString ''on'']), m2)"
    by (intro shadow_value_round_trip) (simp_all add: plenty_def demo_shadow_def INT_MAX_def del: json_text.simps plain.simps)
  have n: "\<exists>v m1 m2. json2tlv (BNumber i d) (s_mem demo_shadow) = Some (0, v, m1) \<and> tlv2json v m1 = Some (comes_back (BNumber i d), m2)"
    if "saturate d = Some i" for i d
    by (rule shadow_value_round_trip) (use that in \<open>simp_all add: plenty_def demo_shadow_def\<close>)
  have s: "saturate (Fin (3 / 2)) = Some 1" "saturate (Fin (1 / 2 ^ 60)) = Some 0"
    and e: "comes_back (BNumber 1 (Fin (3 / 2))) = Some (BNumber 1 (Fin (3 / 2)))"
    "comes_back (BNumber 0 (Fin (1 / 2 ^ 60))) = Some (BNumber 0 (Fin 0))"
    by code_simp+
  have "comes_back (BArray [BTrue, BString ''on'']) = Some (BArray [BTrue, BString ''on''])" by (simp add: comes_back_def)
  then show ?thesis using a n [OF s(1)] n [OF s(2)] unfolding e by simp
qed

end
