(* ===== verification/Spec2Isabelle.thy ===== *)
theory Spec2Isabelle
  imports Queued Progress User_Thread Bsc_Kernel Tsl_Check Tsl_Profile Hub_Enum Shadow_Promises
begin

text \<open>
  The EZIOT SDK connects a device of the Ezviz cloud.  This development models its micro kernel
  (microkernel/src and microkernel/inc): the library that registers the device with the cloud,
  keeps the connection, and moves messages between the cloud and the modules of the device; and
  three of the modules of src/ez_iot_sdk/src/component: the profiles and the value check of the thing
  model (tsl), the hub of sub-devices (hub), and the shadow of the device's state (shadow).

  \<^bold>\<open>How the program works.\<close>  The application initialises the kernel, loads modules, starts it and then
  runs two loops.  The kernel's loop calls \<open>ezdev_sdk_kernel_yield\<close>: one turn of a state machine
  that asks the LBS server for keys and for a DAS server, registers there, and then receives and
  publishes messages over MQTT.  The user's loop calls \<open>ezdev_sdk_kernel_yield_user\<close>, which hands the
  received messages and the kernel's events to the modules.  The two loops meet in five queues.

  \<^bold>\<open>The theories, in the order of the code's layers.\<close>
  \<^item> \<open>Prelude\<close>: types of machine words and byte texts, the heap, generic lemmas.  A run owns a number
    of live blocks; \<open>malloc\<close> may fail at every call, by an arbitrary oracle.
  \<^item> \<open>Errors\<close> (mkernel_internal_error.h, ezdev_sdk_kernel_error.h, utils.c): the two families of error
    codes and their translation \<open>mkiE2ezE\<close>.
  \<^item> \<open>Queue\<close> (ezdev_sdk_kerne_queuel.h): the queue macros on a linked list in a store of addresses, and
    the refinement to lists of messages.
  \<^item> \<open>Types\<close>, \<open>Json\<close>, \<open>World\<close> (sdk_kernel_def.h, ezdev_sdk_kernel_struct.h, bscJSON.h): the records and
    enumerations, the JSON trees, and the state of the program.  A \<open>world\<close> holds every global variable of
    the kernel, the heap, the environment \<open>env\<close> (what the libraries, the platform and the servers
    answer, one function per call, of the clock \<open>tick\<close>), the trace of the calls made to the outside
    and a flag \<open>fault\<close> that is raised where C leaves the behaviour undefined.
  \<^item> \<open>Interfaces\<close>, \<open>Extend\<close> (ezdev_sdk_kernel_extend.c): the module tables, the dispatch of messages and
    events, the creation and destruction of the queues.
  \<^item> \<open>Events\<close> (ezdev_sdk_kernel_event.c), \<open>Risk\<close> (ezdev_sdk_kernel_risk_control.c,
    ezdev_sdk_kernel_common.c), \<open>Bus\<close> (access_domain_bus.c, ezdev_sdk_kernel_xml_parser.c): events for the
    user's thread, the block lists, the commands of the cloud to the device itself.
  \<^item> \<open>Crypto\<close> (ase_support.c), \<open>Das_Codec\<close>, \<open>Das_Receive\<close>, \<open>Das_Send\<close>, \<open>Das_Publish\<close> (das_transport.c): the
    message formats of protocol 2.0 and 3.0, receiving, publishing, logging in, one turn of the
    connection.
  \<^item> \<open>Json_Parser\<close> (json_parser.c), \<open>Lbs_Packet\<close>, \<open>Lbs\<close>, \<open>Lbs_Frame\<close> (lbs_transport.c,
    ezdev_ecdh_support.c): the packets and the exchanges with the LBS server.
  \<^item> \<open>Doubles\<close>, \<open>Bsc_Parse\<close>, \<open>Bsc_Print\<close>, \<open>Bsc_Roundtrip\<close>, \<open>Bsc_Kernel\<close> (bscJSON.c): binary64 numbers as exact
    rationals, rounded; the parser and the printer of JSON texts down to their blocks and buffers; and
    the kernel with these two in the place of the parameters that stand for them elsewhere.
  \<^item> \<open>Tsl_Schema\<close>, \<open>Tsl_Profile\<close> (component/tsl/profile_parse.c), \<open>Tsl_Check\<close> (tsl_info_check.c): the schemas
    and profiles of the thing model, read from JSON trees and freed, block by block; the check of a
    value against a schema, which prints and parses the texts of arrays and objects at every level.
  \<^item> \<open>Bsc_Build\<close> (bscJSON.c), \<open>Hub\<close> (component/hub/hub_func.c, hub_extern.c, ez_iot_hub.c), \<open>Hub_Text\<close>,
    \<open>Hub_Refines\<close>, \<open>Hub_Enum\<close>: the routines that create and edit trees; the list of sub-devices, kept as the
    text of a JSON array in the application's storage.  The record \<open>hub\<close> holds the module's globals, the
    stored text and the requests made; its operations are steps that end with a value or jump to
    \<open>done\<close>, as the code's CHECK_COND_DONE does, and \<open>None\<close> is an operation that never returns.
  \<^item> \<open>Shadow_Values\<close>, \<open>Shadow_Core\<close> (component/shadow/shadow_core.c, shadow_func.c, shadow.c, shadow_extern.c):
    the values exchanged; the tree of devices, types, indices, domains and keys as nested lists, the thread's
    rounds, the application's calls and the cloud's messages.  The record \<open>shadow\<close> holds the module's globals, what
    the callbacks and the kernel answer, and what was asked of them; \<open>None\<close> is undefined behaviour.  \<open>Shadow_Walk\<close>
    turns the tree into one list of keys, \<open>Shadow_Report\<close> says what the text of a report holds and that no operation changes which
    allocations succeed, \<open>Shadow_Facts\<close>, \<open>Shadow_Runs\<close> and \<open>Shadow_Text\<close> carry \<open>Shadow_Promises\<close>.
  \<^item> \<open>Access\<close> (ezdev_sdk_kernel_access.c), \<open>Sending\<close>, \<open>Kernel\<close> (ezdev_sdk_kernel.c, ezdev_sdk_kernel_ex.c,
    ezdev_sdk_kernel_inner.c): the state machine and the functions the application calls.
  \<^item> \<open>Stays\<close>, \<open>Frames\<close>, \<open>Machine\<close>, \<open>Progress\<close>, \<open>Queued\<close>, \<open>User_Thread\<close>, \<open>System\<close>: what the operations may change, and the
    properties of the whole; \<open>User_Thread\<close> is the user's loop.

  \<^bold>\<open>What the theorems show.\<close>  For the whole program (\<open>System\<close>): in every state the application can reach by
  any calls the data structures are well formed and the life cycle, the connection and the
  counters fit together; a stop always returns; a block is for good.  For the connection
  (\<open>Machine\<close>, \<open>Progress\<close>): only the allowed transitions, and a server that refuses is given up.  For the
  messages (\<open>Queued\<close>, \<open>Extend\<close>, \<open>Das_Receive\<close>, \<open>Das_Send\<close>, \<open>Das_Publish\<close>): what is sent waits in its queue or leaves
  nothing behind, what is published is understood by the receiver, what is received goes to its
  module once and in order, the user's loop empties its queues with one event per turn (\<open>User_Thread\<close>), and no path leaks or frees twice, but for the paths that are stated as
  defects.  For the parts: refinement of the queues, round trips of the formats, of the encryption and
  of the length field, the parser against the printer of JSON, every write of the printer and of the
  string parser within its block, bounds of the padding, the value check of the thing model against a plain definition of
  validity, the operations of the hub against a list of devices (a refinement through printing, storing and
  parsing), the answers the shadow takes (only to reports whose text holds the present value, after every run) and the reports it owes, the tables of modules as instances of one contract
  (locale \<open>registry\<close>), the queue variables as instances of another (locale \<open>queue_var\<close>).

  \<^bold>\<open>Termination and bounds.\<close>  The loops over queues end because the store of a queue gets shorter, the
  retry loop of the event queue after 52 attempts.  Fuel is used in one place, the two loops of the
  JSON parser over elements and members: it is the length of the text, and every larger fuel gives
  the same result.  The depth of JSON trees is bounded by the code's own limit of 1000.  The one loop that may wait for
  the network for ever, the reader of a packet length, returns \<open>None\<close> then, and \<open>None\<close> is carried
  through to the API; the loop of \<open>ezdev_sdk_kernel_stop\<close> is a partial function that is proved to return.
  The enumerations of the hub (\<open>enum_loop\<close>) are a partial function as well: \<open>Hub_Enum\<close> proves when they end, and that
  with a device without a number they do not.  While a thread sleeps in that retry loop the user's thread may take events; how many is up to \<open>env\<close>.

  \<^bold>\<open>Not modelled.\<close>  Logging; the locking of the queues beyond the existence of the lock (each queue
  operation is atomic); the routines of bscJSON.c that compare and
  minify trees (the trees the kernel sends are written down as such); the XML library, the MQTT client, the ciphers and
  digests and the platform's functions, which are parameters in \<open>env\<close>; the random number generator of the
  key exchange; the other modules of src/ez_iot_sdk, which use the kernel through the calls above.  The
  hub's storage, its digests and what the thing model and the cloud answer are parameters in the record \<open>hub\<close>; the
  kernel below it is not the \<open>world\<close> of the other theories.  A callback of the application returns without calling the hub.
  In the shadow every call, message and round is one step: the lock only orders them, and the threads share nothing else
  but flags; a callback returns without calling the shadow, and the texts of its query and its answers are fixed but for the code.
\<close>

end
